(* ===== verification/Prelude.thy ===== *)
theory Prelude
  imports Main "HOL-Library.Sublist"
begin

text \<open>
  Shared vocabulary of the development.

  A Rust \<open>String\<close> is a UTF-8 byte vector and \<open>len()\<close> counts bytes, so a string of the
  code is a HOL \<open>string\<close> read as a list of bytes (a HOL \<open>char\<close> is exactly eight bits).
  Literals that the code writes with characters beyond ASCII are spelled as their UTF-8 bytes.

  This theory holds the operations of \<open>str\<close> that the modelled code uses (substring search,
  splitting, trimming, case folding, decimal rendering), the facts about them that several
  components share, and the named collections the component proofs draw on.
\<close>

named_theorems rust_str "characterisations of the string operations"
named_theorems step_simps "unfolding rules of the loop phases"
named_theorems policy_simps "unfolding rules of the turn policies"

type_synonym ('e, 'a) result = "'e + 'a"

abbreviation is_ok :: "'e + 'a \<Rightarrow> bool" where
  "is_ok r \<equiv> Sum_Type.isl r = False"

abbreviation (input) ascii_lf :: char where "ascii_lf \<equiv> CHR 0x0A"

section \<open>Substring search\<close>

fun str_contains :: "string \<Rightarrow> string \<Rightarrow> bool" where
  "str_contains hay needle =
     (prefix needle hay \<or> (case hay of [] \<Rightarrow> False | _ # cs \<Rightarrow> str_contains cs needle))"

declare str_contains.simps [simp del]

lemma str_contains_Nil [simp]: "str_contains [] n \<longleftrightarrow> n = []"
  by (simp add: str_contains.simps)

lemma str_contains_Cons [simp]:
  "str_contains (c # cs) n \<longleftrightarrow> prefix n (c # cs) \<or> str_contains cs n"
  by (subst str_contains.simps) simp

lemma str_contains_sublist [rust_str]: "str_contains hay n \<longleftrightarrow> sublist n hay"
proof (induction hay)
  case Nil
  then show ?case by simp
next
  case (Cons c cs)
  then show ?case by (simp add: sublist_Cons_right)
qed

definition starts_with :: "string \<Rightarrow> string \<Rightarrow> bool" where
  "starts_with s p \<longleftrightarrow> prefix p s"

definition ends_with :: "string \<Rightarrow> string \<Rightarrow> bool" where
  "ends_with s p \<longleftrightarrow> suffix p s"

lemma ends_with_code [code]:
  "ends_with s p \<longleftrightarrow> prefix (rev p) (rev s)"
  by (simp add: ends_with_def suffix_to_prefix)

lemma starts_with_append [simp]: "starts_with (p @ s) p"
  by (simp add: starts_with_def)

section \<open>Splitting, joining, replacing\<close>

fun split_on :: "char \<Rightarrow> string \<Rightarrow> string list" where
  "split_on c [] = [[]]"
| "split_on c (x # xs) =
     (if x = c then [] # split_on c xs
      else (case split_on c xs of [] \<Rightarrow> [[x]] | y # ys \<Rightarrow> (x # y) # ys))"

lemma split_on_nonempty [simp]: "split_on c s \<noteq> []"
  by (induction s) (auto split: list.splits)

lemma split_on_no_sep: "c \<notin> set s \<Longrightarrow> split_on c s = [s]"
  by (induction s) auto

lemma split_on_append_sep:
  "split_on c (a @ c # b) = split_on c a @ split_on c b"
  by (induction a) (auto split: list.splits)

lemma split_on_parts: "p \<in> set (split_on c s) \<Longrightarrow> c \<notin> set p"
proof (induction s arbitrary: p)
  case Nil
  then show ?case by simp
next
  case (Cons x xs)
  then show ?case by (fastforce split: list.splits if_splits)
qed

fun join_with :: "string \<Rightarrow> string list \<Rightarrow> string" where
  "join_with sep [] = []"
| "join_with sep [x] = x"
| "join_with sep (x # y # ys) = x @ sep @ join_with sep (y # ys)"

lemma join_split_on: "join_with [c] (split_on c s) = s"
proof (induction s)
  case Nil
  then show ?case by simp
next
  case (Cons x xs)
  obtain y ys where "split_on c xs = y # ys"
    by (cases "split_on c xs") auto
  with Cons show ?case by (cases ys) auto
qed

definition replace_char :: "char \<Rightarrow> char \<Rightarrow> string \<Rightarrow> string" where
  "replace_char a b s = map (\<lambda>c. if c = a then b else c) s"

lemma replace_char_idem: "a \<noteq> b \<Longrightarrow> replace_char a b (replace_char a b s) = replace_char a b s"
  by (simp add: replace_char_def)

lemma replace_char_absent [simp]: "a \<notin> set s \<Longrightarrow> replace_char a b s = s"
  by (induction s) (auto simp: replace_char_def)

lemma replace_char_removes [simp]: "a \<noteq> b \<Longrightarrow> a \<notin> set (replace_char a b s)"
  by (auto simp: replace_char_def)

lemma replace_char_append [simp]:
  "replace_char a b (s @ t) = replace_char a b s @ replace_char a b t"
  by (simp add: replace_char_def)

text \<open>\<open>str::lines\<close>: pieces between line feeds, a final empty piece dropped, a trailing
  carriage return of each piece dropped.\<close>

definition strip_cr :: "string \<Rightarrow> string" where
  "strip_cr l = (if l \<noteq> [] \<and> last l = CHR 0x0D then butlast l else l)"

definition str_lines :: "string \<Rightarrow> string list" where
  "str_lines s =
     (let ps = split_on (CHR 0x0A) s
      in map strip_cr (if last ps = [] then butlast ps else ps))"

section \<open>Trimming\<close>

text \<open>The UTF-8 encodings of the characters with the Unicode property \<open>White_Space\<close>, which is
  what \<open>str::trim\<close> removes.\<close>

definition whitespace_seqs :: "string list" where
  "whitespace_seqs =
     [[CHR 0x09], [CHR 0x0A], [CHR 0x0B], [CHR 0x0C], [CHR 0x0D], [CHR 0x20],
      [CHR 0xC2, CHR 0x85], [CHR 0xC2, CHR 0xA0], [CHR 0xE1, CHR 0x9A, CHR 0x80],
      [CHR 0xE2, CHR 0x80, CHR 0x80], [CHR 0xE2, CHR 0x80, CHR 0x81],
      [CHR 0xE2, CHR 0x80, CHR 0x82], [CHR 0xE2, CHR 0x80, CHR 0x83],
      [CHR 0xE2, CHR 0x80, CHR 0x84], [CHR 0xE2, CHR 0x80, CHR 0x85],
      [CHR 0xE2, CHR 0x80, CHR 0x86], [CHR 0xE2, CHR 0x80, CHR 0x87],
      [CHR 0xE2, CHR 0x80, CHR 0x88], [CHR 0xE2, CHR 0x80, CHR 0x89],
      [CHR 0xE2, CHR 0x80, CHR 0x8A], [CHR 0xE2, CHR 0x80, CHR 0xA8],
      [CHR 0xE2, CHR 0x80, CHR 0xA9], [CHR 0xE2, CHR 0x80, CHR 0xAF],
      [CHR 0xE2, CHR 0x81, CHR 0x9F], [CHR 0xE3, CHR 0x80, CHR 0x80]]"

definition leading_ws :: "string list \<Rightarrow> string \<Rightarrow> string option" where
  "leading_ws seqs s = find (\<lambda>w. prefix w s) seqs"

function strip_leading :: "string list \<Rightarrow> string \<Rightarrow> string" where
  "strip_leading seqs s =
     (case leading_ws seqs s of
        Some w \<Rightarrow> (if w = [] then s else strip_leading seqs (drop (length w) s))
      | None \<Rightarrow> s)"
  by pat_completeness auto
termination
proof (relation "measure (\<lambda>(_, s). length s)", goal_cases)
  case (2 seqs s w)
  then have "prefix w s" by (auto simp: leading_ws_def find_Some_iff)
  with 2 show ?case by (cases w) (auto simp: prefix_def)
qed simp

declare strip_leading.simps [simp del]

definition trim_start :: "string \<Rightarrow> string" where
  "trim_start s = strip_leading whitespace_seqs s"

definition trim_end :: "string \<Rightarrow> string" where
  "trim_end s = rev (strip_leading (map rev whitespace_seqs) (rev s))"

definition trim :: "string \<Rightarrow> string" where
  "trim s = trim_end (trim_start s)"

lemma strip_leading_stop: "leading_ws seqs s = None \<Longrightarrow> strip_leading seqs s = s"
  by (simp add: strip_leading.simps)

lemma leading_ws_None:
  "leading_ws seqs s = None \<longleftrightarrow> (\<forall>w \<in> set seqs. \<not> prefix w s)"
  by (auto simp: leading_ws_def find_None_iff)

text \<open>The first byte of each whitespace encoding, and the last one: a string that begins with
  none of the former, or ends with none of the latter, is left alone.\<close>

definition ws_first :: "char list" where "ws_first = map hd whitespace_seqs"
definition ws_last :: "char list" where "ws_last = map last whitespace_seqs"

lemma trim_start_id: "s = [] \<or> hd s \<notin> set ws_first \<Longrightarrow> trim_start s = s"
  unfolding trim_start_def
  by (rule strip_leading_stop, cases s)
     (auto simp: leading_ws_None ws_first_def whitespace_seqs_def)

lemma trim_end_id: "s = [] \<or> last s \<notin> set ws_last \<Longrightarrow> trim_end s = s"
proof -
  assume a: "s = [] \<or> last s \<notin> set ws_last"
  have "leading_ws (map rev whitespace_seqs) (rev s) = None"
    using a by (cases s rule: rev_cases)
      (auto simp: leading_ws_None ws_last_def whitespace_seqs_def)
  then show ?thesis by (simp add: trim_end_def strip_leading_stop)
qed

lemma trim_id:
  "s = [] \<or> hd s \<notin> set ws_first \<and> last s \<notin> set ws_last \<Longrightarrow> trim s = s"
  by (auto simp: trim_def trim_start_id trim_end_id)

lemma trim_Nil [simp]: "trim [] = []"
  by (simp add: trim_id)

definition is_blank :: "string \<Rightarrow> bool" where
  "is_blank s \<longleftrightarrow> trim s = []"

text \<open>\<open>trim_start_matches\<close> with a non-empty pattern.\<close>

definition trim_start_matches :: "string \<Rightarrow> string \<Rightarrow> string" where
  "trim_start_matches s p = strip_leading [p] s"

lemma trim_start_matches_step:
  "p \<noteq> [] \<Longrightarrow> trim_start_matches (p @ s) p = trim_start_matches s p"
  unfolding trim_start_matches_def
  by (subst strip_leading.simps) (simp add: leading_ws_def)

lemma trim_start_matches_stop: "\<not> prefix p s \<Longrightarrow> trim_start_matches s p = s"
  unfolding trim_start_matches_def by (rule strip_leading_stop) (simp add: leading_ws_None)

section \<open>Case folding\<close>

definition ascii_lower :: "char \<Rightarrow> char" where
  "ascii_lower c = (let n = of_char c :: nat in if 65 \<le> n \<and> n \<le> 90 then char_of (n + 32) else c)"

definition to_ascii_lowercase :: "string \<Rightarrow> string" where
  "to_ascii_lowercase s = map ascii_lower s"

text \<open>
  The Unicode \<open>to_lowercase\<close>, as far as a search for an ASCII needle can see it: A to Z fold to
  a to z, and two characters beyond ASCII fold to ASCII, U+212A (the Kelvin sign) to \<open>k\<close> and
  U+0130 to \<open>i\<close> followed by U+0307. Every other character beyond ASCII folds to characters
  beyond ASCII, in which no ASCII needle can match; they are kept as they are.
\<close>

fun lower_for_search :: "string \<Rightarrow> string" where
  "lower_for_search [] = []"
| "lower_for_search (c # cs) =
     (if c = CHR 0xE2 \<and> take 2 cs = [CHR 0x84, CHR 0xAA] then CHR ''k'' # lower_for_search (drop 2 cs)
      else if c = CHR 0xC4 \<and> take 1 cs = [CHR 0xB0]
      then CHR ''i'' # CHR 0xCC # CHR 0x87 # lower_for_search (drop 1 cs)
      else ascii_lower c # lower_for_search cs)"

definition is_ascii_alnum :: "char \<Rightarrow> bool" where
  "is_ascii_alnum c \<longleftrightarrow> (let n = of_char c :: nat in
     48 \<le> n \<and> n \<le> 57 \<or> 65 \<le> n \<and> n \<le> 90 \<or> 97 \<le> n \<and> n \<le> 122)"

section \<open>Punctuation of the rendered texts\<close>

definition nl :: string where "nl = [CHR 0x0A]"

definition dash :: string where "dash = [CHR 0xE2, CHR 0x80, CHR 0x94]"

section \<open>Decimal rendering\<close>

definition digit_char :: "nat \<Rightarrow> char" where
  "digit_char d = char_of (48 + d)"

fun dec :: "nat \<Rightarrow> string" where
  "dec n = (if n < 10 then [digit_char n] else dec (n div 10) @ [digit_char (n mod 10)])"

declare dec.simps [simp del]

definition dec_int :: "int \<Rightarrow> string" where
  "dec_int i = (if i < 0 then CHR ''-'' # dec (nat (- i)) else dec (nat i))"

definition is_digit :: "char \<Rightarrow> bool" where
  "is_digit c \<longleftrightarrow> (let n = of_char c :: nat in 48 \<le> n \<and> n \<le> 57)"

definition digit_val :: "char \<Rightarrow> nat" where
  "digit_val c = of_char c - 48"

definition undec :: "string \<Rightarrow> nat" where
  "undec s = foldl (\<lambda>n c. 10 * n + digit_val c) 0 s"

lemma of_char_digit: "d < 10 \<Longrightarrow> (of_char (digit_char d) :: nat) = 48 + d"
  by (simp add: digit_char_def of_char_of)

lemma is_digit_digit_char [simp]: "d < 10 \<Longrightarrow> is_digit (digit_char d)"
  by (simp add: is_digit_def of_char_digit)

lemma digit_val_digit_char [simp]: "d < 10 \<Longrightarrow> digit_val (digit_char d) = d"
  by (simp add: digit_val_def of_char_digit)

lemma dec_digits: "list_all is_digit (dec n)"
proof (induction n rule: dec.induct)
  case (1 n)
  then show ?case by (subst dec.simps) simp
qed

lemma dec_nonempty [simp]: "dec n \<noteq> []"
  by (subst dec.simps) simp

lemma undec_snoc: "undec (s @ [c]) = 10 * undec s + digit_val c"
  by (simp add: undec_def)

lemma undec_dec [simp]: "undec (dec n) = n"
proof (induction n rule: dec.induct)
  case (1 n)
  show ?case
  proof (cases "n < 10")
    case True
    then show ?thesis by (subst dec.simps) (simp add: undec_def)
  next
    case False
    with "1.IH" have "undec (dec (n div 10)) = n div 10" by simp
    with False show ?thesis by (subst dec.simps) (simp add: undec_snoc)
  qed
qed

lemma dec_inject [simp]: "dec a = dec b \<longleftrightarrow> a = b"
  by (metis undec_dec)

lemma digit_not_in_dec: "\<not> is_digit c \<Longrightarrow> c \<notin> set (dec n)"
  using dec_digits [of n] by (auto simp: list_all_iff)

section \<open>Maps as association lists in insertion order\<close>

fun al_lookup :: "('k \<times> 'v) list \<Rightarrow> 'k \<Rightarrow> 'v option" where
  "al_lookup [] k = None"
| "al_lookup ((k', v) # r) k = (if k' = k then Some v else al_lookup r k)"

lemma al_lookup_map_of: "al_lookup xs = map_of xs"
proof
  fix k show "al_lookup xs k = map_of xs k"
    by (induction xs) auto
qed

end
