(* ===== verification/Agent_Types.thy ===== *)
theory Agent_Types
  imports Prelude
begin

text \<open>
  The shared data contracts of the agent runtimes (\<open>services/agent-types\<close>): tool calls, tool
  specifications, tool outcomes, assistant turns with their telemetry, the classified step failure
  and the stable names of journaled steps.

  JSON values are the \<open>serde_json::Value\<close> of the code. Parsing and printing JSON text is done by
  the \<open>serde_json\<close> crate, which is not part of the repository: the two functions are fields of
  the record \<open>serde\<close> that the definitions using them take as an argument.
\<close>

section \<open>JSON values\<close>

datatype json =
    JNull
  | JBool bool
  | JInt int              \<comment> \<open>a number that \<open>as_i64\<close> reads\<close>
  | JFloat string         \<comment> \<open>any other number, kept as its text\<close>
  | JStr string
  | JArr "json list"
  | JObj "(string \<times> json) list"

record serde =
  to_text :: "json \<Rightarrow> string"
  from_text :: "string \<Rightarrow> json option"

fun json_get :: "json \<Rightarrow> string \<Rightarrow> json option" where
  "json_get (JObj obj) k = al_lookup obj k"
| "json_get _ k = None"

fun as_str :: "json \<Rightarrow> string option" where
  "as_str (JStr s) = Some s"
| "as_str _ = None"

fun as_i64 :: "json \<Rightarrow> int option" where
  "as_i64 (JInt i) = Some i"
| "as_i64 _ = None"

section \<open>Tool calls and tool specifications\<close>

record function_call_req =
  fc_name :: string
  fc_arguments :: string

record tool_call_req =
  tc_id :: string
  tc_kind :: string
  tc_function :: function_call_req
  tc_extra :: "json option"

definition function_kind :: string where
  "function_kind = ''function''"

record function_spec =
  fs_name :: string
  fs_description :: string
  fs_parameters :: json

record tool_spec =
  ts_kind :: string
  ts_function :: function_spec

definition tool_spec_function :: "string \<Rightarrow> string \<Rightarrow> json \<Rightarrow> tool_spec" where
  "tool_spec_function name description parameters =
     \<lparr>ts_kind = ''function'',
      ts_function = \<lparr>fs_name = name, fs_description = description, fs_parameters = parameters\<rparr>\<rparr>"

definition tool_spec_name :: "tool_spec \<Rightarrow> string" where
  "tool_spec_name s = fs_name (ts_function s)"

abbreviation call_name :: "tool_call_req \<Rightarrow> string" where
  "call_name c \<equiv> fc_name (tc_function c)"

abbreviation call_arguments :: "tool_call_req \<Rightarrow> string" where
  "call_arguments c \<equiv> fc_arguments (tc_function c)"

datatype tool_outcome = Continue string | Finish | Abort string

section \<open>Assistant turns\<close>

record turn_telemetry =
  tt_model :: string
  tt_prompt_tokens :: "int option"
  tt_completion_tokens :: "int option"
  tt_reasoning_tokens :: "int option"
  tt_reasoning :: "string option"

record assistant_turn =
  at_content :: "string option"
  at_tool_calls :: "tool_call_req list"
  at_telemetry :: "turn_telemetry option"

definition assistant_turn_default :: assistant_turn where
  "assistant_turn_default = \<lparr>at_content = None, at_tool_calls = [], at_telemetry = None\<rparr>"

section \<open>Step failures\<close>

text \<open>
  A failure carries its class. The \<open>anyhow::Error\<close> of a transient failure is kept as the text
  that its alternate display prints, the only thing the modelled code reads of it; durations are
  in milliseconds.
\<close>

datatype step_error =
    Transient string "nat option"
  | Terminal string

fun retry_after :: "step_error \<Rightarrow> nat option" where
  "retry_after (Transient _ d) = d"
| "retry_after (Terminal _) = None"

fun is_transient :: "step_error \<Rightarrow> bool" where
  "is_transient (Transient _ _) = True"
| "is_transient (Terminal _) = False"

fun step_error_text :: "step_error \<Rightarrow> string" where
  "step_error_text (Transient source _) = ''transient step failure: '' @ source"
| "step_error_text (Terminal reason) = ''terminal step failure: '' @ reason"

section \<open>Stable step names\<close>

text \<open>
  The names under which an agent step is journaled. The three formatted families are told apart by
  the constructor; \<open>step_name_text\<close> is the string that reaches the journal.
\<close>

datatype step_name =
    Llm_turn nat
  | Tools nat
  | Write_tool nat string

definition bootstrap_step :: string where "bootstrap_step = ''bootstrap''"
definition finalize_step :: string where "finalize_step = ''finalize''"

fun step_name_text :: "step_name \<Rightarrow> string" where
  "step_name_text (Llm_turn turn) = ''llm_turn:'' @ dec turn"
| "step_name_text (Tools turn) = ''tools:'' @ dec turn"
| "step_name_text (Write_tool turn call_id) = ''tool:'' @ dec turn @ '':'' @ call_id"

lemma append_colon_inject:
  assumes "CHR '':'' \<notin> set a" "CHR '':'' \<notin> set b"
  shows "a @ CHR '':'' # x = b @ CHR '':'' # y \<longleftrightarrow> a = b \<and> x = y"
  using assms
proof (induction a arbitrary: b)
  case Nil
  then show ?case by (cases b) auto
next
  case (Cons c a)
  then show ?case by (cases b) auto
qed

lemma colon_not_in_dec [simp]: "CHR '':'' \<notin> set (dec n)"
  by (rule digit_not_in_dec) (simp add: is_digit_def)

lemma step_name_text_inject [simp]: "step_name_text a = step_name_text b \<longleftrightarrow> a = b"
  by (cases a; cases b) (auto simp: append_colon_inject)

text \<open>
  Step names are an unambiguous encoding: two journaled steps of a run share a journal key only
  when they are the same kind of step, of the same turn and, for a write, of the same call id. So a
  journal entry is never replayed into a step of another kind.
\<close>

theorem step_names_unambiguous:
  "inj step_name_text \<and>
   step_name_text n \<noteq> bootstrap_step \<and> step_name_text n \<noteq> finalize_step"
  by (cases n) (auto simp: inj_def bootstrap_step_def finalize_step_def)

end
