(* ===== verification/Agent_Tools.thy ===== *)
theory Agent_Tools
  imports Agent_Types
begin

text \<open>
  The tool contracts and the guarded per-turn registry views (\<open>services/agent-tools\<close>): tool kinds
  and replay classes (\<open>tool.rs\<close>), the per-turn restriction of the offered surface
  (\<open>filter.rs\<close>), and the registry with its dispatcher (\<open>registry.rs\<close>).

  A tool acts on the world \<open>'x\<close> it can reach (control plane, checkout, shared cells); its call
  returns the outcome and the world after it. The per-call context of the code (task id, workspace
  handle) is the same for every call of a run and is part of what the function of a tool closes over.
\<close>

section \<open>Kinds, replay classes, tools\<close>

datatype read_kind = Retrieval | File | Knowledge

datatype tool_kind = ReadOnlyK read_kind | WriteK | TerminalK | ProgressK

datatype replay_safety = ReplayReadOnly | Idempotent | NeedsDedupKey

record runtime_caps =
  replays_completed_steps :: bool
  per_call_dedup :: bool

record 'x tool =
  t_spec :: tool_spec
  t_kind :: tool_kind
  t_replay :: replay_safety
  t_call :: "tool_call_req \<Rightarrow> 'x \<Rightarrow> tool_outcome \<times> 'x"

abbreviation tool_name :: "'x tool \<Rightarrow> string" where
  "tool_name t \<equiv> tool_spec_name (t_spec t)"

section \<open>The turn filter\<close>

record turn_filter =
  allowed_names :: "string set option"
  blocked_kinds :: "tool_kind set"
  forced_names :: "string set"

definition filter_all :: turn_filter where
  "filter_all = \<lparr>allowed_names = None, blocked_kinds = {}, forced_names = {}\<rparr>"

definition only_names :: "string list \<Rightarrow> turn_filter" where
  "only_names names = \<lparr>allowed_names = Some (set names), blocked_kinds = {}, forced_names = {}\<rparr>"

definition without_kind :: "turn_filter \<Rightarrow> tool_kind \<Rightarrow> turn_filter" where
  "without_kind f k = f\<lparr>blocked_kinds := insert k (blocked_kinds f)\<rparr>"

definition force_names :: "turn_filter \<Rightarrow> string list \<Rightarrow> turn_filter" where
  "force_names f names = f\<lparr>forced_names := forced_names f \<union> set names\<rparr>"

definition narrow :: "turn_filter \<Rightarrow> turn_filter \<Rightarrow> turn_filter" where
  "narrow f g =
     f\<lparr>allowed_names :=
         (case (allowed_names f, allowed_names g) of
            (Some current, Some next) \<Rightarrow> Some {n \<in> current. n \<in> next}
          | (None, Some next) \<Rightarrow> Some next
          | _ \<Rightarrow> allowed_names f),
       blocked_kinds := blocked_kinds f \<union> blocked_kinds g,
       forced_names := forced_names f \<union> forced_names g\<rparr>"

definition offers :: "turn_filter \<Rightarrow> 'x tool \<Rightarrow> bool" where
  "offers f t \<longleftrightarrow>
     tool_name t \<in> forced_names f
     \<or> (t_kind t \<notin> blocked_kinds f
        \<and> (case allowed_names f of None \<Rightarrow> True | Some names \<Rightarrow> tool_name t \<in> names))"

lemmas filter_defs = filter_all_def only_names_def without_kind_def force_names_def

subsection \<open>The contract of a narrowing restriction\<close>

text \<open>
  What the loop relies on: a restriction has a part that can only shrink (\<open>permits\<close>) and a part
  that can only grow (\<open>forces\<close>), and narrowing meets the first and joins the second.
\<close>

locale narrowing =
  fixes top :: 'f
    and meet :: "'f \<Rightarrow> 'f \<Rightarrow> 'f"
    and permits :: "'f \<Rightarrow> 't \<Rightarrow> bool"
    and forces :: "'f \<Rightarrow> 't \<Rightarrow> bool"
  assumes permits_top: "permits top t"
    and forces_top: "\<not> forces top t"
    and permits_meet: "permits (meet f g) t \<longleftrightarrow> permits f t \<and> permits g t"
    and forces_meet: "forces (meet f g) t \<longleftrightarrow> forces f t \<or> forces g t"
begin

definition offered :: "'f \<Rightarrow> 't \<Rightarrow> bool" where
  "offered f t \<longleftrightarrow> forces f t \<or> permits f t"

lemma permits_foldl: "permits (foldl meet f gs) t \<longleftrightarrow> permits f t \<and> (\<forall>g \<in> set gs. permits g t)"
  by (induction gs arbitrary: f) (auto simp: permits_meet)

lemma forces_foldl: "forces (foldl meet f gs) t \<longleftrightarrow> forces f t \<or> (\<exists>g \<in> set gs. forces g t)"
  by (induction gs arbitrary: f) (auto simp: forces_meet)

lemma offered_foldl:
  "offered (foldl meet f gs) t \<longleftrightarrow>
     (forces f t \<or> (\<exists>g \<in> set gs. forces g t)) \<or> permits f t \<and> (\<forall>g \<in> set gs. permits g t)"
  by (simp add: offered_def permits_foldl forces_foldl)

lemma offered_order_irrelevant:
  "set gs = set hs \<Longrightarrow> offered (foldl meet f gs) t \<longleftrightarrow> offered (foldl meet f hs) t"
  by (simp add: offered_foldl)

lemma narrowed_stays_out:
  assumes "g \<in> set gs" "\<not> permits g t"
    and "\<not> forces f t" "\<forall>h \<in> set gs. \<not> forces h t"
  shows "\<not> offered (foldl meet f gs) t"
  using assms by (auto simp: offered_foldl)

end

definition permits :: "turn_filter \<Rightarrow> 'x tool \<Rightarrow> bool" where
  "permits f t \<longleftrightarrow> t_kind t \<notin> blocked_kinds f
     \<and> (case allowed_names f of None \<Rightarrow> True | Some names \<Rightarrow> tool_name t \<in> names)"

definition forces :: "turn_filter \<Rightarrow> 'x tool \<Rightarrow> bool" where
  "forces f t \<longleftrightarrow> tool_name t \<in> forced_names f"

lemma offers_alt: "offers f t \<longleftrightarrow> forces f t \<or> permits f t"
  by (simp add: offers_def permits_def forces_def)

interpretation tf: narrowing filter_all narrow permits forces
  by unfold_locales
     (auto simp: filter_all_def narrow_def permits_def forces_def split: option.splits)

lemma tf_offered [simp]: "tf.offered f t = offers f t"
  by (simp add: tf.offered_def offers_alt)

text \<open>
  The filter a turn ends up with is determined by the set of restrictions the policies asked
  for, not by their order: a tool is offered exactly when some restriction forces it, or the initial
  filter and every restriction permit it. In particular a narrowing is never undone by a later one,
  except for a forced name.
\<close>

theorem narrowing_is_order_free:
  "offers (foldl narrow f gs) t \<longleftrightarrow>
     (forces f t \<or> list_ex (\<lambda>g. forces g t) gs) \<or> permits f t \<and> list_all (\<lambda>g. permits g t) gs"
  using tf.offered_foldl [of f gs t] by (simp add: list_all_iff list_ex_iff)

section \<open>The registry\<close>

type_synonym 'x tool_registry = "'x tool list"

datatype registry_error =
    DuplicateName string
  | MissingDedupCapability string

definition find_tool :: "'x tool_registry \<Rightarrow> string \<Rightarrow> 'x tool option" where
  "find_tool reg name = find (\<lambda>t. tool_name t = name) reg"

definition register :: "'x tool_registry \<Rightarrow> 'x tool \<Rightarrow> runtime_caps \<Rightarrow> (registry_error, 'x tool_registry) result" where
  "register reg t caps =
     (let name = tool_name t in
      if find_tool reg name \<noteq> None then Inl (DuplicateName name)
      else if t_replay t = NeedsDedupKey \<and> replays_completed_steps caps \<and> \<not> per_call_dedup caps
      then Inl (MissingDedupCapability name)
      else Inr (reg @ [t]))"

definition tool_kind_of :: "'x tool_registry \<Rightarrow> string \<Rightarrow> tool_kind option" where
  "tool_kind_of reg name = map_option t_kind (find_tool reg name)"

definition tool_replay_of :: "'x tool_registry \<Rightarrow> string \<Rightarrow> replay_safety option" where
  "tool_replay_of reg name = map_option t_replay (find_tool reg name)"

datatype dispatch_refusal =
    NotOffered string
  | MissingCallId string

datatype dispatch_result =
    Completed tool_outcome
  | Refused dispatch_refusal

text \<open>A view is the list of the offered tools, in registration order; its specs are theirs.\<close>

definition view :: "'x tool_registry \<Rightarrow> turn_filter \<Rightarrow> 'x tool list" where
  "view reg f = filter (offers f) reg"

definition view_specs :: "'x tool list \<Rightarrow> tool_spec list" where
  "view_specs v = map t_spec v"

definition dispatch :: "'x tool list \<Rightarrow> tool_call_req \<Rightarrow> 'x \<Rightarrow> dispatch_result \<times> 'x" where
  "dispatch v call w =
     (case find (\<lambda>t. tool_name t = call_name call) v of
        Some t \<Rightarrow>
          (if t_replay t = NeedsDedupKey \<and> is_blank (tc_id call)
           then (Refused (MissingCallId (call_name call)), w)
           else (let (out, w') = t_call t call w in (Completed out, w')))
      | None \<Rightarrow> (Refused (NotOffered (call_name call)), w))"

subsection \<open>Registration\<close>

definition registry_ok :: "runtime_caps \<Rightarrow> 'x tool_registry \<Rightarrow> bool" where
  "registry_ok caps reg \<longleftrightarrow>
     distinct (map tool_name reg)
     \<and> (replays_completed_steps caps \<and> \<not> per_call_dedup caps
        \<longrightarrow> list_all (\<lambda>t. t_replay t \<noteq> NeedsDedupKey) reg)"

lemma find_tool_None: "find_tool reg n = None \<longleftrightarrow> n \<notin> tool_name ` set reg"
  by (auto simp: find_tool_def find_None_iff)

lemma find_tool_Some: "find_tool reg n = Some t \<Longrightarrow> t \<in> set reg \<and> tool_name t = n"
  unfolding find_tool_def by (auto simp: find_Some_iff)

lemma find_distinct:
  "distinct (map g xs) \<Longrightarrow> x \<in> set xs \<Longrightarrow> g x = k \<Longrightarrow> find (\<lambda>y. g y = k) xs = Some x"
  by (induction xs) (auto simp: image_iff)

lemma find_tool_registered:
  "distinct (map tool_name reg) \<Longrightarrow> t \<in> set reg \<Longrightarrow> find_tool reg (tool_name t) = Some t"
  by (simp add: find_tool_def find_distinct)

lemma registry_ok_empty [simp]: "registry_ok caps []"
  by (simp add: registry_ok_def)

fun register_all :: "'x tool_registry \<Rightarrow> 'x tool list \<Rightarrow> runtime_caps \<Rightarrow> (registry_error, 'x tool_registry) result" where
  "register_all reg [] caps = Inr reg"
| "register_all reg (t # ts) caps =
     (case register reg t caps of Inl e \<Rightarrow> Inl e | Inr reg' \<Rightarrow> register_all reg' ts caps)"

lemma register_ok_preserved:
  "registry_ok caps reg \<Longrightarrow> register reg t caps = Inr reg' \<Longrightarrow> registry_ok caps reg'"
  by (auto simp: register_def registry_ok_def Let_def find_tool_None split: if_splits)

lemma register_all_order: "register_all reg ts caps = Inr reg' \<Longrightarrow> reg' = reg @ ts"
  by (induction ts arbitrary: reg) (fastforce simp: register_def Let_def split: sum.splits if_splits)+

text \<open>
  Building a registry from scratch either fails with a typed error or yields exactly the tools
  given, in the order given, with pairwise distinct names and, on a replaying host without per-call
  deduplication, no tool that needs a deduplication key; every tool is then found under its own name.
\<close>

theorem register_all_sound:
  assumes "register_all [] ts caps = Inr reg"
  shows "reg = ts \<and> registry_ok caps reg \<and> list_all (\<lambda>t. find_tool reg (tool_name t) = Some t) ts"
proof -
  have step: "registry_ok caps r \<Longrightarrow> register_all r us caps = Inr reg' \<Longrightarrow> registry_ok caps reg'"
    for r us reg'
    by (induction us arbitrary: r) (auto split: sum.splits dest: register_ok_preserved)
  have "registry_ok caps reg" using step [OF registry_ok_empty assms] .
  moreover have "reg = ts" using register_all_order [OF assms] by simp
  ultimately show ?thesis
    by (auto simp: registry_ok_def list_all_iff find_tool_registered)
qed

definition sample_tool :: "string \<Rightarrow> tool_kind \<Rightarrow> replay_safety \<Rightarrow> 'x tool" where
  "sample_tool n k r =
     \<lparr>t_spec = tool_spec_function n [] (JObj []), t_kind = k, t_replay = r,
      t_call = (\<lambda>c w. (Continue ''ran'', w))\<rparr>"

lemma sample_tool_simps [simp]:
  "tool_name (sample_tool n k r) = n" "t_kind (sample_tool n k r) = k"
  "t_replay (sample_tool n k r) = r" "t_call (sample_tool n k r) c w = (Continue ''ran'', w)"
  by (simp_all add: sample_tool_def tool_spec_name_def tool_spec_function_def)

theorem register_all_sound_witness:
  "\<exists>reg :: unit tool_registry.
     register_all [] [sample_tool ''read'' (ReadOnlyK File) ReplayReadOnly,
                      sample_tool ''finish'' TerminalK Idempotent]
       \<lparr>replays_completed_steps = True, per_call_dedup = False\<rparr> = Inr reg
     \<and> find_tool reg ''finish'' = Some (sample_tool ''finish'' TerminalK Idempotent)"
proof -
  let ?ts = "[sample_tool ''read'' (ReadOnlyK File) ReplayReadOnly,
              sample_tool ''finish'' TerminalK Idempotent] :: unit tool list"
  let ?caps = "\<lparr>replays_completed_steps = True, per_call_dedup = False\<rparr>"
  have r: "register_all [] ?ts ?caps = Inr ?ts"
    by (simp add: register_def Let_def find_tool_def)
  show ?thesis using register_all_sound [OF r] r by auto
qed

text \<open>Registration fails exactly on a taken name or a missing capability.\<close>

lemma register_fails_iff:
  "(\<exists>e. register reg t caps = Inl e) \<longleftrightarrow>
     tool_name t \<in> tool_name ` set reg
     \<or> t_replay t = NeedsDedupKey \<and> replays_completed_steps caps \<and> \<not> per_call_dedup caps"
  by (auto simp: register_def Let_def find_tool_None)

subsection \<open>Guarded dispatch\<close>

lemma view_order: "subseq (view_specs (view reg f)) (map t_spec reg)"
  by (simp add: view_specs_def view_def subseq_filter_left subseq_map)

lemma dispatch_refused_world: "dispatch v c w = (Refused r, w') \<Longrightarrow> w' = w"
  by (auto simp: dispatch_def Let_def split: option.splits if_splits prod.splits)

lemma dispatch_view_find:
  assumes "distinct (map tool_name reg)"
  shows "find (\<lambda>t. tool_name t = n) (view reg f) =
         (case find_tool reg n of Some t \<Rightarrow> if offers f t then Some t else None | None \<Rightarrow> None)"
  using assms
proof (induction reg)
  case Nil
  then show ?case by (simp add: view_def find_tool_def)
next
  case (Cons a reg)
  have none: "find (\<lambda>t. tool_name t = tool_name a) reg = None"
    "find (\<lambda>t. tool_name t = tool_name a) (filter (offers f) reg) = None"
    using Cons.prems by (auto simp: find_None_iff) (metis image_eqI)+
  show ?case using Cons none by (cases "tool_name a = n") (auto simp: view_def find_tool_def)
qed

text \<open>
  Dispatch through a view runs a tool only if the view offers it and, when the tool needs a
  deduplication key, only with a non-blank call id; in every other case it refuses with the matching
  reason and leaves the world alone.
\<close>

theorem dispatch_guarded:
  assumes "distinct (map tool_name reg)"
  shows "dispatch (view reg f) c w =
    (case find_tool reg (call_name c) of
       None \<Rightarrow> (Refused (NotOffered (call_name c)), w)
     | Some t \<Rightarrow>
         if \<not> offers f t then (Refused (NotOffered (call_name c)), w)
         else if t_replay t = NeedsDedupKey \<and> is_blank (tc_id c)
         then (Refused (MissingCallId (call_name c)), w)
         else (Completed (fst (t_call t c w)), snd (t_call t c w)))"
  using dispatch_view_find [OF assms, of "call_name c" f]
  by (simp add: dispatch_def split_def Let_def split: option.splits)

theorem dispatch_guarded_witness:
  "dispatch (view [sample_tool ''comment'' WriteK NeedsDedupKey] filter_all)
     \<lparr>tc_id = '' '', tc_kind = ''function'',
      tc_function = \<lparr>fc_name = ''comment'', fc_arguments = ''{}''\<rparr>, tc_extra = None\<rparr> (7::nat)
   = (Refused (MissingCallId ''comment''), 7)"
proof -
  have d: "distinct (map tool_name [sample_tool ''comment'' WriteK NeedsDedupKey :: nat tool])"
    by simp
  have b: "is_blank '' ''"
    by (simp add: is_blank_def trim_def trim_start_def trim_end_def strip_leading.simps
        leading_ws_def whitespace_seqs_def)
  show ?thesis
    by (subst dispatch_guarded [OF d])
       (simp add: find_tool_def offers_def filter_all_def b)
qed

end
