(* ===== verification/Chat.thy ===== *)
theory Chat
  imports Agent_Tools "HOL-Library.Word"
begin

text \<open>
  The data of the agent loop (\<open>services/agent-loop\<close>): chat messages and requests (\<open>chat.rs\<close>), the
  transcript and the loop outcome (\<open>transcript.rs\<close>), the per-turn state and the policy contract
  (\<open>turn.rs\<close>).
\<close>

section \<open>Chat messages and requests\<close>

record chat_message =
  cm_role :: string
  cm_content :: "string option"
  cm_tool_calls :: "tool_call_req list"
  cm_tool_call_id :: "string option"

definition text_message :: "string \<Rightarrow> string \<Rightarrow> chat_message" where
  "text_message role content =
     \<lparr>cm_role = role, cm_content = Some content, cm_tool_calls = [], cm_tool_call_id = None\<rparr>"

definition system_message :: "string \<Rightarrow> chat_message" where
  "system_message content = text_message ''system'' content"

definition user_message :: "string \<Rightarrow> chat_message" where
  "user_message content = text_message ''user'' content"

definition assistant_message :: "assistant_turn \<Rightarrow> chat_message" where
  "assistant_message t =
     \<lparr>cm_role = ''assistant'', cm_content = at_content t, cm_tool_calls = at_tool_calls t,
      cm_tool_call_id = None\<rparr>"

definition tool_message :: "string \<Rightarrow> string \<Rightarrow> chat_message" where
  "tool_message call_id content =
     \<lparr>cm_role = ''tool'', cm_content = Some content, cm_tool_calls = [],
      cm_tool_call_id = Some call_id\<rparr>"

lemmas message_defs = text_message_def system_message_def user_message_def
  assistant_message_def tool_message_def

lemma message_simps [simp]:
  "cm_role (user_message t) = ''user''" "cm_tool_calls (user_message t) = []"
  "cm_tool_call_id (user_message t) = None" "cm_content (user_message t) = Some t"
  "cm_role (assistant_message a) = ''assistant''" "cm_tool_calls (assistant_message a) = at_tool_calls a"
  "cm_role (tool_message i t) = ''tool''" "cm_tool_calls (tool_message i t) = []"
  "cm_tool_call_id (tool_message i t) = Some i"
  by (simp_all add: message_defs)

text \<open>A floating-point request option is passed through unread; it is kept as its 64 bits.\<close>

type_synonym f64 = "64 word"

record request_options =
  ro_model :: string
  ro_temperature :: "f64 option"
  ro_top_p :: "f64 option"
  ro_max_tokens :: "int option"
  ro_stream :: "bool option"
  ro_extra :: "(string \<times> json) list"

record stream_options =
  include_usage :: bool

record chat_request =
  rq_model :: string
  rq_messages :: "chat_message list"
  rq_tools :: "tool_spec list"
  rq_tool_choice :: "string option"
  rq_temperature :: "f64 option"
  rq_top_p :: "f64 option"
  rq_max_tokens :: "int option"
  rq_stream :: "bool option"
  rq_stream_options :: "stream_options option"
  rq_extra :: "(string \<times> json) list"

record conversation =
  cv_messages :: "chat_message list"
  cv_request :: request_options
  cv_initial_filter :: turn_filter

definition conversation_new :: "chat_message list \<Rightarrow> request_options \<Rightarrow> conversation" where
  "conversation_new messages request =
     \<lparr>cv_messages = messages, cv_request = request, cv_initial_filter = filter_all\<rparr>"

definition with_filter :: "conversation \<Rightarrow> turn_filter \<Rightarrow> conversation" where
  "with_filter c f = c\<lparr>cv_initial_filter := f\<rparr>"

section \<open>Transcript\<close>

datatype loop_outcome = Finished | Exhausted | Aborted string

datatype transcript_event =
    EvAssistant nat chat_message "turn_telemetry option"
  | EvTool nat tool_call_req tool_outcome
  | EvPolicy nat string json

section \<open>Turns and policies\<close>

record loop_stats =
  files_read :: nat
  searches :: nat
  batches :: nat
  successful_writes :: nat
  findings_recorded :: nat

definition stats_default :: loop_stats where
  "stats_default = \<lparr>files_read = 0, searches = 0, batches = 0, successful_writes = 0,
                    findings_recorded = 0\<rparr>"

record tool_call_result =
  cr_call :: tool_call_req
  cr_kind :: "tool_kind option"
  cr_outcome :: tool_outcome

record turn_outcome =
  to_assistant :: chat_message
  to_results :: "tool_call_result list"
  to_finish_requested :: bool
  to_abort_reason :: "string option"

record turn_state =
  st_turn :: nat
  st_max_turns :: nat
  st_messages :: "chat_message list"
  st_base_tools :: "tool_spec list"
  st_stats :: loop_stats
  st_converging :: bool

datatype nudge = Nudge string

fun nudge_text :: "nudge \<Rightarrow> string" where
  "nudge_text (Nudge s) = s"

datatype policy_action =
    Narrow turn_filter
  | Inject nudge
  | TrimHistory nat "(turn_filter \<times> nudge option \<times> json option) option"
  | Converge turn_filter nudge
  | GuardOffered
  | RejectFinish nudge
  | Record "string option" json
  | ForceFinish string
  | SetFindings nat

text \<open>
  The policy trait. A policy object \<open>'p\<close> answers four hooks with an ordered list of actions and
  its new state. The after-turn hook also reads the world: a policy may hold a shared cell that a
  tool of the run writes (the SAST anchor gate does).
\<close>

record ('p, 'x) policy_ops =
  po_name :: "'p \<Rightarrow> string"
  po_before :: "'p \<Rightarrow> turn_state \<Rightarrow> policy_action list \<times> 'p"
  po_after :: "'x \<Rightarrow> 'p \<Rightarrow> turn_state \<Rightarrow> turn_outcome \<Rightarrow> policy_action list \<times> 'p"
  po_finish :: "'p \<Rightarrow> turn_state \<Rightarrow> turn_outcome \<Rightarrow> policy_action list \<times> 'p"
  po_exhausted :: "'p \<Rightarrow> turn_state \<Rightarrow> policy_action list \<times> 'p"

definition is_reject :: "policy_action \<Rightarrow> bool" where
  "is_reject a = (case a of RejectFinish _ \<Rightarrow> True | _ \<Rightarrow> False)"

definition rejects :: "policy_action list \<Rightarrow> bool" where
  "rejects as \<longleftrightarrow> list_ex is_reject as"

lemma rejects_simps [simp]:
  "\<not> rejects []" "rejects (a # as) \<longleftrightarrow> is_reject a \<or> rejects as"
  "rejects (as @ bs) \<longleftrightarrow> rejects as \<or> rejects bs"
  by (auto simp: rejects_def)

lemma is_reject_simps [simp]:
  "is_reject (RejectFinish n)" "\<not> is_reject (Narrow f)" "\<not> is_reject (Inject n)"
  "\<not> is_reject (TrimHistory t c)" "\<not> is_reject (Converge f n)" "\<not> is_reject GuardOffered"
  "\<not> is_reject (Record m d)" "\<not> is_reject (ForceFinish r)" "\<not> is_reject (SetFindings k)"
  by (simp_all add: is_reject_def)

definition is_force_finish :: "policy_action \<Rightarrow> bool" where
  "is_force_finish a = (case a of ForceFinish _ \<Rightarrow> True | _ \<Rightarrow> False)"

end
