(* ===== verification/Budget.thy ===== *)
theory Budget
  imports Chat
begin

text \<open>
  Context-budget and wind-down arithmetic (\<open>services/agent-loop/src/budget.rs\<close>): the token
  estimate, the elision of old tool results, the filter that ends an investigation, and the turn at
  which wind-down starts. \<open>usize\<close> values are natural numbers; the saturating subtractions of the
  code are the subtraction of \<open>nat\<close>.
\<close>

definition message_tokens :: "chat_message \<Rightarrow> nat" where
  "message_tokens m =
     (let content = (case cm_content m of None \<Rightarrow> 0 | Some s \<Rightarrow> length s);
          calls = sum_list (map (\<lambda>c. length (call_name c) + length (call_arguments c)) (cm_tool_calls m))
      in 4 + (content + calls) div 4)"

definition spec_tokens :: "serde \<Rightarrow> tool_spec \<Rightarrow> nat" where
  "spec_tokens J t =
     (length (fs_name (ts_function t)) + length (fs_description (ts_function t))
      + length (to_text J (fs_parameters (ts_function t)))) div 4"

definition estimate_tokens :: "serde \<Rightarrow> chat_message list \<Rightarrow> tool_spec list \<Rightarrow> nat" where
  "estimate_tokens J messages tools =
     sum_list (map message_tokens messages) + sum_list (map (spec_tokens J) tools)"

definition elision_stub :: string where
  "elision_stub = ''[earlier tool output elided to fit the context budget]''"

definition trimmable :: "chat_message \<Rightarrow> bool" where
  "trimmable m =
     (case cm_content m of
        Some content \<Rightarrow> cm_role m = ''tool'' \<and> length content > length elision_stub
                         \<and> content \<noteq> elision_stub
      | None \<Rightarrow> False)"

definition content_length :: "chat_message \<Rightarrow> nat" where
  "content_length m = (case cm_content m of None \<Rightarrow> 0 | Some s \<Rightarrow> length s)"

fun trim_loop :: "nat \<Rightarrow> nat \<Rightarrow> chat_message list \<Rightarrow> chat_message list \<times> nat" where
  "trim_loop target estimate [] = ([], 0)"
| "trim_loop target estimate (m # ms) =
     (if estimate \<le> target then (m # ms, 0)
      else if trimmable m then
        (let (ms', n) = trim_loop target
               (estimate - (content_length m - length elision_stub) div 4) ms
         in (m\<lparr>cm_content := Some elision_stub\<rparr> # ms', Suc n))
      else (let (ms', n) = trim_loop target estimate ms in (m # ms', n)))"

definition trim_tool_history ::
  "serde \<Rightarrow> chat_message list \<Rightarrow> tool_spec list \<Rightarrow> nat \<Rightarrow> chat_message list \<times> nat" where
  "trim_tool_history J messages tools target =
     (let cutoff = length messages - 2;
          (front, trimmed) = trim_loop target (estimate_tokens J messages tools) (take cutoff messages)
      in (front @ drop cutoff messages, trimmed))"

definition convergence_filter :: turn_filter where
  "convergence_filter =
     without_kind (without_kind (without_kind (without_kind filter_all
       (ReadOnlyK Retrieval)) (ReadOnlyK File)) (ReadOnlyK Knowledge)) ProgressK"

definition clamp :: "nat \<Rightarrow> nat \<Rightarrow> nat \<Rightarrow> nat" where
  "clamp x lo hi = (if x < lo then lo else if x > hi then hi else x)"

definition winddown_turn :: "nat \<Rightarrow> nat" where
  "winddown_turn max_turns =
     (if max_turns \<le> 2 then max (max_turns - 1) 1
      else (let reserve = max 2 (max_turns div 10)
            in clamp (max_turns - reserve) 1 (max_turns - 1)))"

section \<open>What trimming keeps\<close>

text \<open>Everything of a message except its content.\<close>

definition frame_of :: "chat_message \<Rightarrow> string \<times> tool_call_req list \<times> string option" where
  "frame_of m = (cm_role m, cm_tool_calls m, cm_tool_call_id m)"

lemma trimmable_content:
  "trimmable m \<Longrightarrow> \<exists>s. cm_content m = Some s \<and> length elision_stub < length s \<and> cm_role m = ''tool''"
  by (auto simp: trimmable_def split: option.splits)

lemma stub_not_trimmable [simp]: "\<not> trimmable (m\<lparr>cm_content := Some elision_stub\<rparr>)"
  by (simp add: trimmable_def)

lemma trim_loop_frame: "map frame_of (fst (trim_loop target e ms)) = map frame_of ms"
  by (induction target e ms rule: trim_loop.induct)
     (auto simp: frame_of_def split_def Let_def)

lemma trim_loop_length [simp]: "length (fst (trim_loop target e ms)) = length ms"
  using arg_cong [OF trim_loop_frame, of length target e ms] by simp

lemma trim_loop_untouched:
  "list_all2 (\<lambda>a b. a = b \<or> cm_content a = Some elision_stub \<and> trimmable b)
     (fst (trim_loop target e ms)) ms"
  by (induction target e ms rule: trim_loop.induct)
     (auto simp: split_def Let_def list_all2_same intro: list_all2_refl)

lemma stub_saving:
  fixes l s c :: nat
  assumes "s \<le> l"
  shows "(s + c) div 4 + (l - s) div 4 \<le> (l + c) div 4"
proof -
  have "(s + c) div 4 + (l - s) div 4 \<le> ((s + c) + (l - s)) div 4"
    by (metis add_mult_distrib2 div_le_mono div_mult_self1_is_m div_plus_div_distrib_dvd_left le_add1
        div_add1_eq)
  also have "(s + c) + (l - s) = l + c" using assms by simp
  finally show ?thesis .
qed

lemma stubbed_tokens:
  assumes "trimmable m"
  shows "message_tokens (m\<lparr>cm_content := Some elision_stub\<rparr>)
           + (content_length m - length elision_stub) div 4 \<le> message_tokens m"
  using trimmable_content [OF assms] stub_saving [of "length elision_stub"]
  by (auto simp: message_tokens_def content_length_def Let_def)

text \<open>
  The running estimate of the loop never underestimates what is left, so stopping early is sound.
  The argument \<open>r\<close> is the size of everything outside the suffix still to be visited.
\<close>

lemma trim_loop_bound:
  assumes "sum_list (map message_tokens ms) + r \<le> e"
  shows "sum_list (map message_tokens (fst (trim_loop target e ms))) + r \<le> target
         \<or> list_all (\<lambda>m. \<not> trimmable m) (fst (trim_loop target e ms))"
  using assms
proof (induction target e ms arbitrary: r rule: trim_loop.induct)
  case (1 target e)
  then show ?case by simp
next
  case (2 target e m ms)
  consider (stop) "e \<le> target" | (cut) "\<not> e \<le> target" "trimmable m"
    | (skip) "\<not> e \<le> target" "\<not> trimmable m" by blast
  then show ?case
  proof cases
    case stop
    with 2 show ?thesis by simp
  next
    case cut
    let ?m = "m\<lparr>cm_content := Some elision_stub\<rparr>"
    have "sum_list (map message_tokens ms) + (r + message_tokens ?m)
            \<le> e - (content_length m - length elision_stub) div 4"
      using "2.prems" stubbed_tokens [OF cut(2)] by simp
    from "2.IH"(1) [OF cut this] cut show ?thesis
      by (auto simp: split_def Let_def)
  next
    case skip
    have "sum_list (map message_tokens ms) + (r + message_tokens m) \<le> e"
      using "2.prems" by simp
    from "2.IH"(2) [OF skip this] skip show ?thesis
      by (auto simp: split_def Let_def)
  qed
qed

lemma trim_loop_tokens_le:
  "sum_list (map message_tokens (fst (trim_loop target e ms))) \<le> sum_list (map message_tokens ms)"
proof (induction target e ms rule: trim_loop.induct)
  case (2 target e m ms)
  then show ?case
    using stubbed_tokens [of m] by (auto simp: split_def Let_def)
qed simp

lemma trim_front:
  "fst (trim_tool_history J ms tools target) =
     fst (trim_loop target (estimate_tokens J ms tools) (take (length ms - 2) ms)) @ drop (length ms - 2) ms"
  by (simp add: trim_tool_history_def split_def Let_def)

lemma trim_length [simp]: "length (fst (trim_tool_history J ms tools target)) = length ms"
  by (simp add: trim_front)

lemma sum_tokens_split:
  "sum_list (map message_tokens ms) =
     sum_list (map message_tokens (take n ms)) + sum_list (map message_tokens (drop n ms))"
  by (metis append_take_drop_id map_append sum_list_append)

text \<open>
  Trimming the history either brings the token estimate down to the target or leaves no
  elidable tool result among all but the last two messages.
\<close>

theorem trim_reaches_target:
  "estimate_tokens J (fst (trim_tool_history J ms tools target)) tools \<le> target
   \<or> list_all (\<lambda>m. \<not> trimmable m) (take (length ms - 2) (fst (trim_tool_history J ms tools target)))"
proof -
  let ?front = "take (length ms - 2) ms" and ?rest = "drop (length ms - 2) ms"
  let ?tools = "sum_list (map (spec_tokens J) tools)"
  have e: "sum_list (map message_tokens ?front) + (sum_list (map message_tokens ?rest) + ?tools)
             \<le> estimate_tokens J ms tools"
    using sum_tokens_split [of ms "length ms - 2"] by (simp add: estimate_tokens_def)
  from trim_loop_bound [OF e, of target] show ?thesis
    by (auto simp: trim_front estimate_tokens_def add_ac)
qed

text \<open>
  Trimming never grows the estimate, keeps every role, tool-call list and call id (so assistant
  calls stay paired with their results), leaves the last two messages alone, and rewrites a message
  only if it is a tool result longer than the stub, to the stub.
\<close>

theorem trim_preserves_pairing:
  "estimate_tokens J (fst (trim_tool_history J ms tools target)) tools \<le> estimate_tokens J ms tools
   \<and> map frame_of (fst (trim_tool_history J ms tools target)) = map frame_of ms
   \<and> drop (length ms - 2) (fst (trim_tool_history J ms tools target)) = drop (length ms - 2) ms
   \<and> list_all2 (\<lambda>a b. a = b \<or> cm_content a = Some elision_stub \<and> trimmable b)
       (fst (trim_tool_history J ms tools target)) ms"
proof -
  let ?n = "length ms - 2"
  let ?l = "fst (trim_loop target (estimate_tokens J ms tools) (take ?n ms))"
  have "sum_list (map message_tokens ?l) \<le> sum_list (map message_tokens (take ?n ms))"
    by (rule trim_loop_tokens_le)
  then have tokens: "sum_list (map message_tokens (?l @ drop ?n ms)) \<le> sum_list (map message_tokens ms)"
    using sum_tokens_split [of ms ?n] by simp
  have frames: "map frame_of (?l @ drop ?n ms) = map frame_of ms"
    using trim_loop_frame [of target "estimate_tokens J ms tools" "take ?n ms"]
    by (metis append_take_drop_id map_append)
  have same: "list_all2 (\<lambda>a b. a = b \<or> cm_content a = Some elision_stub \<and> trimmable b)
                (?l @ drop ?n ms) (take ?n ms @ drop ?n ms)"
    by (intro list_all2_appendI trim_loop_untouched list_all2_refl) simp
  show ?thesis
    using tokens frames same by (simp add: trim_front estimate_tokens_def)
qed

section \<open>Convergence and wind-down\<close>

lemma offers_convergence [simp]:
  "offers convergence_filter t \<longleftrightarrow> t_kind t = WriteK \<or> t_kind t = TerminalK"
  by (cases "t_kind t") (auto simp: convergence_filter_def offers_def filter_defs, metis read_kind.exhaust)

lemma permits_convergence [simp]:
  "permits convergence_filter t \<longleftrightarrow> t_kind t = WriteK \<or> t_kind t = TerminalK"
  by (cases "t_kind t") (auto simp: convergence_filter_def permits_def filter_defs, metis read_kind.exhaust)

text \<open>
  The wind-down turn always lies strictly inside a run of at least two turns, so a converging
  run keeps at least one turn to record and finish and at least one to investigate; beyond two
  turns the reserve is at least two turns.
\<close>

theorem winddown_turn_bounds:
  "1 \<le> winddown_turn n \<and> winddown_turn n \<le> max 1 (n - 1)
   \<and> (n \<le> 2 \<or> winddown_turn n = n - max 2 (n div 10))"
  by (auto simp: winddown_turn_def clamp_def Let_def max_def) (meson Suc_leI not_le zero_less_diff)

end
