(* ===== verification/Codec.thy ===== *)
theory Codec
  imports Agent_Types
begin

text \<open>
  The wire form of the journaled types (\<open>services/agent-types\<close>), as their serde attributes define
  it: a field with \<open>skip_serializing_if\<close> is left out when empty, a field with \<open>default\<close> may be
  missing, a renamed field uses its wire name, unknown fields are ignored, an enum is externally
  tagged. The encoders produce object fields in declaration order; decoding looks fields up by
  name. The array form of a struct that serde also reads is never produced and is not modelled.
\<close>

section \<open>Field combinators\<close>

definition opt_field :: "string \<Rightarrow> ('a \<Rightarrow> json) \<Rightarrow> 'a option \<Rightarrow> (string \<times> json) list" where
  "opt_field k enc v = (case v of None \<Rightarrow> [] | Some x \<Rightarrow> [(k, enc x)])"

definition need :: "json \<Rightarrow> string \<Rightarrow> (json \<Rightarrow> 'a option) \<Rightarrow> 'a option" where
  "need j k d = Option.bind (json_get j k) d"

definition need_default :: "json \<Rightarrow> string \<Rightarrow> 'a \<Rightarrow> (json \<Rightarrow> 'a option) \<Rightarrow> 'a option" where
  "need_default j k dflt d = (case json_get j k of None \<Rightarrow> Some dflt | Some v \<Rightarrow> d v)"

definition need_option :: "json \<Rightarrow> string \<Rightarrow> (json \<Rightarrow> 'a option) \<Rightarrow> 'a option option" where
  "need_option j k d =
     (case json_get j k of
        None \<Rightarrow> Some None
      | Some JNull \<Rightarrow> Some None
      | Some v \<Rightarrow> map_option Some (d v))"

fun decode_list :: "(json \<Rightarrow> 'a option) \<Rightarrow> json \<Rightarrow> 'a list option" where
  "decode_list d (JArr js) = those (map d js)"
| "decode_list d _ = None"

section \<open>Encoders\<close>

definition encode_function_call :: "function_call_req \<Rightarrow> json" where
  "encode_function_call f = JObj [(''name'', JStr (fc_name f)), (''arguments'', JStr (fc_arguments f))]"

definition encode_tool_call :: "tool_call_req \<Rightarrow> json" where
  "encode_tool_call c =
     JObj ([(''id'', JStr (tc_id c)), (''type'', JStr (tc_kind c)),
            (''function'', encode_function_call (tc_function c))]
           @ opt_field ''extra_content'' id (tc_extra c))"

fun encode_tool_outcome :: "tool_outcome \<Rightarrow> json" where
  "encode_tool_outcome (Continue s) = JObj [(''Continue'', JStr s)]"
| "encode_tool_outcome Finish = JStr ''Finish''"
| "encode_tool_outcome (Abort s) = JObj [(''Abort'', JStr s)]"

definition encode_telemetry :: "turn_telemetry \<Rightarrow> json" where
  "encode_telemetry t =
     JObj ([(''model'', JStr (tt_model t))]
           @ opt_field ''prompt_tokens'' JInt (tt_prompt_tokens t)
           @ opt_field ''completion_tokens'' JInt (tt_completion_tokens t)
           @ opt_field ''reasoning_tokens'' JInt (tt_reasoning_tokens t)
           @ opt_field ''reasoning'' JStr (tt_reasoning t))"

definition encode_assistant_turn :: "assistant_turn \<Rightarrow> json" where
  "encode_assistant_turn t =
     JObj (opt_field ''content'' JStr (at_content t)
           @ (if at_tool_calls t = [] then []
              else [(''tool_calls'', JArr (map encode_tool_call (at_tool_calls t)))])
           @ opt_field ''telemetry'' encode_telemetry (at_telemetry t))"

section \<open>Decoders\<close>

fun is_object :: "json \<Rightarrow> bool" where
  "is_object (JObj _) = True"
| "is_object _ = False"

definition decode_function_call :: "json \<Rightarrow> function_call_req option" where
  "decode_function_call j =
     (if is_object j then
        Option.bind (need j ''name'' as_str) (\<lambda>n.
        Option.bind (need_default j ''arguments'' [] as_str) (\<lambda>a.
        Some \<lparr>fc_name = n, fc_arguments = a\<rparr>))
      else None)"

definition decode_tool_call :: "json \<Rightarrow> tool_call_req option" where
  "decode_tool_call j =
     (if is_object j then
        Option.bind (need j ''id'' as_str) (\<lambda>i.
        Option.bind (need_default j ''type'' function_kind as_str) (\<lambda>k.
        Option.bind (need j ''function'' decode_function_call) (\<lambda>f.
        Option.bind (need_option j ''extra_content'' Some) (\<lambda>x.
        Some \<lparr>tc_id = i, tc_kind = k, tc_function = f, tc_extra = x\<rparr>))))
      else None)"

fun decode_tool_outcome :: "json \<Rightarrow> tool_outcome option" where
  "decode_tool_outcome (JStr s) = (if s = ''Finish'' then Some Finish else None)"
| "decode_tool_outcome (JObj [(k, JStr s)]) =
     (if k = ''Continue'' then Some (Continue s)
      else if k = ''Abort'' then Some (Abort s)
      else None)"
| "decode_tool_outcome (JObj [(k, JNull)]) = (if k = ''Finish'' then Some Finish else None)"
| "decode_tool_outcome _ = None"

definition decode_telemetry :: "json \<Rightarrow> turn_telemetry option" where
  "decode_telemetry j =
     (if is_object j then
        Option.bind (need j ''model'' as_str) (\<lambda>m.
        Option.bind (need_option j ''prompt_tokens'' as_i64) (\<lambda>p.
        Option.bind (need_option j ''completion_tokens'' as_i64) (\<lambda>c.
        Option.bind (need_option j ''reasoning_tokens'' as_i64) (\<lambda>r.
        Option.bind (need_option j ''reasoning'' as_str) (\<lambda>s.
        Some \<lparr>tt_model = m, tt_prompt_tokens = p, tt_completion_tokens = c,
              tt_reasoning_tokens = r, tt_reasoning = s\<rparr>)))))
      else None)"

definition decode_assistant_turn :: "json \<Rightarrow> assistant_turn option" where
  "decode_assistant_turn j =
     (if is_object j then
        Option.bind (need_option j ''content'' as_str) (\<lambda>c.
        Option.bind (need_default j ''tool_calls'' [] (decode_list decode_tool_call)) (\<lambda>cs.
        Option.bind (need_option j ''telemetry'' decode_telemetry) (\<lambda>t.
        Some \<lparr>at_content = c, at_tool_calls = cs, at_telemetry = t\<rparr>)))
      else None)"

section \<open>Round trips\<close>

lemmas field_defs = need_def need_default_def need_option_def opt_field_def

lemma those_map_Some: "(\<And>x. x \<in> set xs \<Longrightarrow> f (g x) = Some x) \<Longrightarrow> those (map (\<lambda>x. f (g x)) xs) = Some xs"
  by (induction xs) auto

lemma function_call_roundtrip [simp]: "decode_function_call (encode_function_call f) = Some f"
  by (simp add: decode_function_call_def encode_function_call_def field_defs)

definition plain_call :: "tool_call_req \<Rightarrow> bool" where
  "plain_call c \<longleftrightarrow> tc_extra c \<noteq> Some JNull"

lemma tool_call_roundtrip: "plain_call c \<Longrightarrow> decode_tool_call (encode_tool_call c) = Some c"
  by (cases "tc_extra c")
     (auto simp: plain_call_def decode_tool_call_def encode_tool_call_def field_defs
           split: option.splits json.splits)

lemma tool_outcome_roundtrip [simp]: "decode_tool_outcome (encode_tool_outcome v) = Some v"
  by (cases v) auto

lemma telemetry_roundtrip [simp]: "decode_telemetry (encode_telemetry t) = Some t"
  by (cases "tt_prompt_tokens t"; cases "tt_completion_tokens t"; cases "tt_reasoning_tokens t";
      cases "tt_reasoning t")
     (simp_all add: decode_telemetry_def encode_telemetry_def field_defs)

lemma encode_telemetry_not_null [simp]: "encode_telemetry t \<noteq> JNull"
  by (simp add: encode_telemetry_def)

lemma need_option_missing: "json_get j k = None \<Longrightarrow> need_option j k d = Some None"
  by (simp add: need_option_def)

lemma need_option_present:
  "json_get j k = Some v \<Longrightarrow> v \<noteq> JNull \<Longrightarrow> need_option j k d = map_option Some (d v)"
  by (cases v) (simp_all add: need_option_def)

definition plain_turn :: "assistant_turn \<Rightarrow> bool" where
  "plain_turn t \<longleftrightarrow> list_all plain_call (at_tool_calls t)"

lemma turn_roundtrip:
  assumes "plain_turn t"
  shows "decode_assistant_turn (encode_assistant_turn t) = Some t"
proof -
  have calls: "those (map (decode_tool_call \<circ> encode_tool_call) (at_tool_calls t)) = Some (at_tool_calls t)"
    using assms those_map_Some [of "at_tool_calls t" decode_tool_call encode_tool_call]
    by (auto simp: plain_turn_def list_all_iff tool_call_roundtrip comp_def)
  show ?thesis
    using calls
    by (cases "at_content t"; cases "at_tool_calls t = []"; cases "at_telemetry t")
       (simp_all add: decode_assistant_turn_def encode_assistant_turn_def need_def need_default_def
          opt_field_def need_option_missing need_option_present)
qed

text \<open>
  Journaling an assistant turn and replaying it gives back the same turn, its telemetry
  included, as long as no tool call carries an explicit JSON null as provider state (a null is read
  back as an absent field).
\<close>

theorem assistant_turn_roundtrip:
  "plain_turn t \<Longrightarrow> decode_assistant_turn (encode_assistant_turn t) = Some t"
  by (rule turn_roundtrip)

definition sample_turn :: assistant_turn where
  "sample_turn =
     \<lparr>at_content = Some ''ok'',
      at_tool_calls = [\<lparr>tc_id = ''c1'', tc_kind = ''function'',
                        tc_function = \<lparr>fc_name = ''finish'', fc_arguments = ''{}''\<rparr>,
                        tc_extra = Some (JBool True)\<rparr>],
      at_telemetry = Some \<lparr>tt_model = ''glm'', tt_prompt_tokens = Some 7, tt_completion_tokens = None,
                           tt_reasoning_tokens = Some 0, tt_reasoning = None\<rparr>\<rparr>"

theorem assistant_turn_roundtrip_witness:
  "plain_turn sample_turn \<and>
   decode_assistant_turn (encode_assistant_turn sample_turn) = Some sample_turn"
proof -
  have "plain_turn sample_turn" by (simp add: plain_turn_def sample_turn_def plain_call_def)
  with assistant_turn_roundtrip [of sample_turn] show ?thesis by blast
qed

text \<open>The side condition is needed: an explicit null does not survive.\<close>

lemma explicit_null_is_dropped:
  "decode_tool_call (encode_tool_call
     \<lparr>tc_id = ''c'', tc_kind = ''function'', tc_function = \<lparr>fc_name = ''f'', fc_arguments = []\<rparr>,
      tc_extra = Some JNull\<rparr>)
   = Some \<lparr>tc_id = ''c'', tc_kind = ''function'', tc_function = \<lparr>fc_name = ''f'', fc_arguments = []\<rparr>,
           tc_extra = None\<rparr>"
  by (simp add: decode_tool_call_def encode_tool_call_def field_defs)

end
