(* ===== verification/Step_Runtime.thy ===== *)
theory Step_Runtime
  imports Codec
begin

text \<open>
  The durability seam of the agent loop: the step runtime that executes effects in place
  (\<open>services/agent-step\<close>) and the checkpointing runtime that journals every step and replays it on
  a resumed run (\<open>services/agent-clients/src/checkpoint.rs\<close>).

  A step closes over an effect on the world \<open>'x\<close> and returns a value of one of the three types the
  loop journals. The generic \<open>step<T>\<close> is modelled by the tagged type \<open>step_value\<close> and the type
  tag \<open>step_type\<close> that the call site fixes. A runtime carries a state \<open>'r\<close> of its own: nothing for
  the pass-through runtime, the journal for the checkpointing one.
\<close>

datatype step_type = TurnT | BatchT | OutcomeT

datatype step_value =
    TurnValue assistant_turn
  | BatchValue "(nat \<times> tool_outcome) list"
  | OutcomeValue tool_outcome

fun value_type :: "step_value \<Rightarrow> step_type" where
  "value_type (TurnValue _) = TurnT"
| "value_type (BatchValue _) = BatchT"
| "value_type (OutcomeValue _) = OutcomeT"

fun name_type :: "step_name \<Rightarrow> step_type" where
  "name_type (Llm_turn _) = TurnT"
| "name_type (Tools _) = BatchT"
| "name_type (Write_tool _ _) = OutcomeT"

type_synonym 'x effect = "'x \<Rightarrow> (step_error, step_value) result \<times> 'x"
type_synonym ('r, 'x) step_runtime =
  "step_type \<Rightarrow> step_name \<Rightarrow> 'x effect \<Rightarrow> 'r \<times> 'x \<Rightarrow> (step_error, step_value) result \<times> ('r \<times> 'x)"

section \<open>The pass-through runtime\<close>

definition passthrough_step :: "('r, 'x) step_runtime" where
  "passthrough_step ty name f = (\<lambda>(r, x). let (res, x') = f x in (res, (r, x')))"

section \<open>Journaled values\<close>

fun serialize_value :: "step_value \<Rightarrow> json option" where
  "serialize_value (TurnValue t) = Some (encode_assistant_turn t)"
| "serialize_value (BatchValue b) =
     Some (JArr (map (\<lambda>(i, v). JArr [JInt (int i), encode_tool_outcome v]) b))"
| "serialize_value (OutcomeValue v) = Some (encode_tool_outcome v)"

fun decode_indexed :: "json \<Rightarrow> (nat \<times> tool_outcome) option" where
  "decode_indexed (JArr [JInt i, v]) =
     (if i < 0 then None else map_option (Pair (nat i)) (decode_tool_outcome v))"
| "decode_indexed _ = None"

fun deserialize_value :: "step_type \<Rightarrow> json \<Rightarrow> step_value option" where
  "deserialize_value TurnT j = map_option TurnValue (decode_assistant_turn j)"
| "deserialize_value BatchT j = map_option BatchValue (decode_list decode_indexed j)"
| "deserialize_value OutcomeT j = map_option OutcomeValue (decode_tool_outcome j)"

definition plain_value :: "step_value \<Rightarrow> bool" where
  "plain_value v = (case v of TurnValue t \<Rightarrow> plain_turn t | _ \<Rightarrow> True)"

lemma indexed_roundtrip [simp]:
  "those (map (decode_indexed \<circ> (\<lambda>(i, v). JArr [JInt (int i), encode_tool_outcome v])) b) = Some b"
  by (induction b) (auto simp: split_def)

lemma step_value_roundtrip:
  assumes "plain_value v" "serialize_value v = Some j"
  shows "deserialize_value (value_type v) j = Some v"
  using assms by (cases v) (auto simp: plain_value_def turn_roundtrip)

section \<open>The checkpointing runtime\<close>

record 's store_ops =
  so_fetch :: "'s \<Rightarrow> string \<Rightarrow> (step_error, json option) result"
  so_upsert :: "'s \<Rightarrow> string \<Rightarrow> json \<Rightarrow> string \<Rightarrow> (step_error, unit) result \<times> 's"

definition content_hash :: "serde \<Rightarrow> (string \<Rightarrow> string) \<Rightarrow> json \<Rightarrow> string" where
  "content_hash J sha256 v = sha256 (to_text J v)"

definition replayed_value :: "'s store_ops \<Rightarrow> step_type \<Rightarrow> step_name \<Rightarrow> 's \<Rightarrow> step_value option" where
  "replayed_value ops ty name s =
     (case so_fetch ops s (step_name_text name) of
        Inr (Some value) \<Rightarrow> deserialize_value ty value
      | Inr None \<Rightarrow> None
      | Inl error \<Rightarrow> None)"

definition checkpoint_step ::
  "'s store_ops \<Rightarrow> (json \<Rightarrow> string) \<Rightarrow> ('s, 'x) step_runtime" where
  "checkpoint_step ops hash ty name f = (\<lambda>(s, x).
     case replayed_value ops ty name s of
       Some replayed \<Rightarrow> (Inr replayed, (s, x))
     | None \<Rightarrow>
         (case f x of
            (Inl error, x') \<Rightarrow> (Inl error, (s, x'))
          | (Inr v, x') \<Rightarrow>
              (case serialize_value v of
                 Some value \<Rightarrow>
                   (let (_, s') = so_upsert ops s (step_name_text name) value (hash value)
                    in (Inr v, (s', x')))
               | None \<Rightarrow> (Inr v, (s, x')))))"

section \<open>The in-memory store\<close>

type_synonym memory_store = "string \<rightharpoonup> json \<times> string"

definition memory_fetch :: "memory_store \<Rightarrow> string \<Rightarrow> (step_error, json option) result" where
  "memory_fetch s step = Inr (map_option fst (s step))"

definition memory_upsert ::
  "memory_store \<Rightarrow> string \<Rightarrow> json \<Rightarrow> string \<Rightarrow> (step_error, unit) result \<times> memory_store" where
  "memory_upsert s step value hash = (Inr (), s(step \<mapsto> (value, hash)))"

definition memory_len :: "memory_store \<Rightarrow> nat" where
  "memory_len s = card (dom s)"

definition memory_purge :: "memory_store \<Rightarrow> memory_store" where
  "memory_purge s = Map.empty"

definition memory_ops :: "memory_store store_ops" where
  "memory_ops = \<lparr>so_fetch = memory_fetch, so_upsert = memory_upsert\<rparr>"

section \<open>The contract of a durable store\<close>

text \<open>
  What the runtime relies on: while the store is usable (\<open>invar\<close>), a stored value is what the next
  fetch of the same key returns, other keys are not disturbed, and the store stays usable.
\<close>

locale durable_store =
  fixes ops :: "'s store_ops"
    and storable :: "json \<Rightarrow> bool"
    and invar :: "'s \<Rightarrow> bool"
  assumes invar_upsert: "invar s \<Longrightarrow> invar (snd (so_upsert ops s k v h))"
    and fetch_upsert: "invar s \<Longrightarrow> storable v \<Longrightarrow> so_fetch ops (snd (so_upsert ops s k v h)) k = Inr (Some v)"
    and fetch_other: "invar s \<Longrightarrow> k' \<noteq> k \<Longrightarrow> so_fetch ops (snd (so_upsert ops s k v h)) k' = so_fetch ops s k'"

text \<open>
  What the agent loop relies on: a step whose name is journaled is answered from the journal without
  running its effect, a step that is not journaled runs its effect once and journals a successful
  result, and a failed effect leaves the journal alone.
\<close>

locale replaying_runtime =
  fixes step :: "('r, 'x) step_runtime"
    and journal :: "'r \<Rightarrow> step_name \<Rightarrow> step_value option"
    and usable :: "'r \<Rightarrow> bool"
    and replayable :: "step_value \<Rightarrow> bool"
  assumes replay: "usable r \<Longrightarrow> journal r n = Some v \<Longrightarrow> step (name_type n) n f (r, x) = (Inr v, (r, x))"
    and execute: "usable r \<Longrightarrow> journal r n = None \<Longrightarrow> f x = (Inr v, x') \<Longrightarrow> replayable v \<Longrightarrow>
        value_type v = name_type n \<Longrightarrow>
        \<exists>r'. step (name_type n) n f (r, x) = (Inr v, (r', x')) \<and> usable r'
             \<and> journal r' = (journal r)(n \<mapsto> v)"
    and fail: "usable r \<Longrightarrow> journal r n = None \<Longrightarrow> f x = (Inl e, x') \<Longrightarrow>
        step (name_type n) n f (r, x) = (Inl e, (r, x'))"
begin

text \<open>A well-behaved effect: every success is replayable and of the step's type.\<close>

definition sound_effect :: "step_name \<Rightarrow> 'x effect \<Rightarrow> bool" where
  "sound_effect n f \<longleftrightarrow> (\<forall>x v x'. f x = (Inr v, x') \<longrightarrow> replayable v \<and> value_type v = name_type n)"

definition extends :: "'r \<Rightarrow> 'r \<Rightarrow> bool" where
  "extends r r' \<longleftrightarrow> usable r' \<and> journal r \<subseteq>\<^sub>m journal r'"

lemma extends_refl: "usable r \<Longrightarrow> extends r r"
  by (simp add: extends_def)

lemma extends_trans: "extends a b \<Longrightarrow> extends b c \<Longrightarrow> extends a c"
  by (auto simp: extends_def intro: map_le_trans)

lemma step_cases:
  assumes "usable r" "sound_effect n f"
    and "step (name_type n) n f (r, x) = (res, (r', x'))"
  shows "usable r' \<and> journal r \<subseteq>\<^sub>m journal r' \<and> (\<forall>v. res = Inr v \<longrightarrow> journal r' n = Some v)"
proof (cases "journal r n")
  case (Some v)
  with replay [OF assms(1) Some, of f x] assms show ?thesis by auto
next
  case None
  show ?thesis
  proof (cases "f x")
    case (Pair out y)
    show ?thesis
    proof (cases out)
      case (Inl e)
      with Pair None fail [OF assms(1) None, of f x e y] assms show ?thesis by auto
    next
      case (Inr v)
      with Pair assms(2) have "replayable v" "value_type v = name_type n"
        by (auto simp: sound_effect_def)
      from execute [OF assms(1) None _ this, of f x y] Pair Inr
      obtain r2 where "step (name_type n) n f (r, x) = (Inr v, (r2, y))" "usable r2"
        "journal r2 = (journal r)(n \<mapsto> v)" by auto
      with assms None show ?thesis by (auto simp: map_le_def)
    qed
  qed
qed

lemma step_extends:
  "usable r \<Longrightarrow> sound_effect n f \<Longrightarrow> step (name_type n) n f (r, x) = (res, (r', x')) \<Longrightarrow> extends r r'"
  using step_cases by (auto simp: extends_def)

text \<open>Once a step has succeeded, repeating it on any later journal returns the same value and
  touches neither the journal nor the world, whatever the effect would do now.\<close>

lemma step_repeats:
  assumes "usable r" "sound_effect n f" "step (name_type n) n f (r, x) = (Inr v, (r', x'))"
    and "extends r' r2"
  shows "step (name_type n) n g (r2, y) = (Inr v, (r2, y))"
proof -
  have "journal r' n = Some v" using step_cases [OF assms(1-3)] by simp
  then have "journal r2 n = Some v"
    using assms(4) by (auto simp: extends_def map_le_def dom_def)
  with assms(4) show ?thesis by (auto simp: extends_def intro: replay)
qed

end

context durable_store
begin

definition journal_of :: "'s \<Rightarrow> step_name \<Rightarrow> step_value option" where
  "journal_of s n = replayed_value ops (name_type n) n s"

definition journalable :: "step_value \<Rightarrow> bool" where
  "journalable v \<longleftrightarrow> plain_value v \<and> (\<forall>j. serialize_value v = Some j \<longrightarrow> storable j)"

lemma serialize_total: "\<exists>j. serialize_value v = Some j"
  by (cases v) auto

lemma journal_upsert:
  assumes "invar s" "journalable v" "serialize_value v = Some j" "value_type v = name_type n"
  shows "journal_of (snd (so_upsert ops s (step_name_text n) j h)) = (journal_of s)(n \<mapsto> v)"
proof
  fix m
  show "journal_of (snd (so_upsert ops s (step_name_text n) j h)) m = ((journal_of s)(n \<mapsto> v)) m"
  proof (cases "m = n")
    case True
    have "so_fetch ops (snd (so_upsert ops s (step_name_text n) j h)) (step_name_text n) = Inr (Some j)"
      using assms by (auto simp: journalable_def intro: fetch_upsert)
    moreover have "deserialize_value (name_type n) j = Some v"
      using step_value_roundtrip [of v j] assms by (simp add: journalable_def)
    ultimately show ?thesis using True by (simp add: journal_of_def replayed_value_def)
  next
    case False
    then show ?thesis
      using fetch_other [OF assms(1), of "step_name_text m" "step_name_text n"]
      by (simp add: journal_of_def replayed_value_def)
  qed
qed

end

sublocale durable_store \<subseteq> replaying_runtime "checkpoint_step ops hash" journal_of invar journalable
  for hash
proof (unfold_locales, goal_cases)
  case (1 r n v f x)
  then show ?case by (simp add: checkpoint_step_def journal_of_def)
next
  case (2 r n f x v x')
  obtain j where j: "serialize_value v = Some j" using serialize_total by blast
  let ?r = "snd (so_upsert ops r (step_name_text n) j (hash j))"
  have "checkpoint_step ops hash (name_type n) n f (r, x) = (Inr v, (?r, x'))"
    using 2 j by (simp add: checkpoint_step_def journal_of_def split_def)
  moreover have "invar ?r" using 2 by (simp add: invar_upsert)
  moreover have "journal_of ?r = (journal_of r)(n \<mapsto> v)" using 2 j by (simp add: journal_upsert)
  ultimately show ?case by blast
next
  case (3 r n f x e x')
  then show ?case by (simp add: checkpoint_step_def journal_of_def)
qed

interpretation mem: durable_store memory_ops "\<lambda>_. True" "\<lambda>_. True"
  by unfold_locales (auto simp: memory_ops_def memory_fetch_def memory_upsert_def)

end
