(* ===== verification/Loop_Driver.thy ===== *)
theory Loop_Driver
  imports Budget Step_Runtime
begin

text \<open>
  The turn-taking loop driver (\<open>services/agent-loop/src/loop_driver.rs\<close>). One turn runs in phases:
  the before-turn hooks of the policies, the model call, the batched read-only calls, the remaining
  calls in order, the after-turn hooks, and the finish hooks; \<open>run\<close> repeats turns and ends in the
  exhaustion tail. Every phase is a definition of its own, over an explicit state that holds what
  the code mutates: the runtime's state and the world, the policy objects, the transcript, the
  conversation and the accumulators.
\<close>

section \<open>Configuration and state\<close>

record loop_limits =
  ll_max_turns :: nat
  ll_max_batch_size :: nat
  ll_circuit_breaker_threshold :: nat
  ll_no_tool_nudge :: string

definition loop_limits_default :: loop_limits where
  "loop_limits_default =
     \<lparr>ll_max_turns = 40, ll_max_batch_size = 4, ll_circuit_breaker_threshold = 0,
      ll_no_tool_nudge = ''Use the available tools, then finish or abort; do not reply only in prose.''\<rparr>"

datatype turn_flow = FlowContinue | StopLoop | Return loop_outcome

type_synonym refusal_renderer = "dispatch_refusal \<Rightarrow> tool_outcome"

text \<open>
  The default rendering of a refusal. The code prints the tool name with the debug format of Rust,
  whose escaping is the function \<open>dbg\<close>.
\<close>

fun default_refusal :: "(string \<Rightarrow> string) \<Rightarrow> refusal_renderer" where
  "default_refusal dbg (NotOffered nm) =
     Continue (''error: '' @ ''tool '' @ dbg nm @ '' was not offered on this turn'')"
| "default_refusal dbg (MissingCallId nm) =
     Continue (''error: '' @ ''tool '' @ dbg nm @ '' requires a non-empty call id'')"

record ('p, 'r, 'x) agent =
  ag_step :: "('r, 'x) step_runtime"
  ag_model :: "chat_request \<Rightarrow> 'x \<Rightarrow> (step_error, assistant_turn) result \<times> 'x"
  ag_tools :: "'x tool_registry"
  ag_ops :: "('p, 'x) policy_ops"
  ag_limits :: loop_limits
  ag_renderer :: refusal_renderer
  ag_serde :: serde
  ag_request :: request_options
  ag_initial_filter :: turn_filter
  ag_schedule :: "'x \<Rightarrow> nat list \<Rightarrow> nat list"  \<comment> \<open>how the calls of a chunk interleave\<close>

record ('p, 'r, 'x) loop_state =
  ls_rt :: 'r
  ls_world :: 'x
  ls_policies :: "'p list"
  ls_sink :: "transcript_event list"
  ls_messages :: "chat_message list"
  ls_stats :: loop_stats
  ls_consecutive_failures :: nat
  ls_context_overflow :: bool

definition base_specs :: "('p, 'r, 'x) agent \<Rightarrow> tool_spec list" where
  "base_specs A = view_specs (view (ag_tools A) filter_all)"

definition policy_turn_state ::
  "('p, 'r, 'x) agent \<Rightarrow> nat \<Rightarrow> chat_message list \<Rightarrow> loop_stats \<Rightarrow> bool \<Rightarrow> turn_state" where
  "policy_turn_state A turn messages stats converging =
     \<lparr>st_turn = turn, st_max_turns = ll_max_turns (ag_limits A), st_messages = messages,
      st_base_tools = base_specs A, st_stats = stats, st_converging = converging\<rparr>"

section \<open>Before the model call\<close>

record turn_ctx =
  tx_filter :: turn_filter
  tx_converging :: bool
  tx_guard_offered :: bool
  tx_force_finish :: bool
  tx_messages :: "chat_message list"
  tx_sink :: "transcript_event list"

definition tx_push :: "string \<Rightarrow> turn_ctx \<Rightarrow> turn_ctx" where
  "tx_push text c = c\<lparr>tx_messages := tx_messages c @ [user_message text]\<rparr>"

definition tx_record :: "transcript_event \<Rightarrow> turn_ctx \<Rightarrow> turn_ctx" where
  "tx_record e c = c\<lparr>tx_sink := tx_sink c @ [e]\<rparr>"

definition tx_narrow :: "turn_filter \<Rightarrow> turn_ctx \<Rightarrow> turn_ctx" where
  "tx_narrow f c = c\<lparr>tx_filter := narrow (tx_filter c) f\<rparr>"

definition trim_action ::
  "serde \<Rightarrow> tool_spec list \<Rightarrow> nat \<Rightarrow> string \<Rightarrow> nat
   \<Rightarrow> (turn_filter \<times> nudge option \<times> json option) option \<Rightarrow> turn_ctx \<Rightarrow> turn_ctx" where
  "trim_action J base turn name target convergence c =
     (let (messages, trimmed) = trim_tool_history J (tx_messages c) base target;
          c1 = c\<lparr>tx_messages := messages\<rparr>;
          c2 = (if trimmed > 0
                then tx_record (EvPolicy turn name (JObj [(''trimmed'', JInt (int trimmed))])) c1
                else c1)
      in if estimate_tokens J (tx_messages c2) base \<ge> target
         then (case convergence of
                 None \<Rightarrow> c2
               | Some (next, nudge, detail) \<Rightarrow>
                   (let c3 = tx_narrow next c2;
                        c4 = (case nudge of None \<Rightarrow> c3 | Some n \<Rightarrow> tx_push (nudge_text n) c3);
                        c5 = (case detail of None \<Rightarrow> c4
                              | Some d \<Rightarrow> tx_record (EvPolicy turn ''wind_down'' d) c4)
                    in c5\<lparr>tx_converging := True\<rparr>))
         else c2)"

fun before_action ::
  "serde \<Rightarrow> tool_spec list \<Rightarrow> nat \<Rightarrow> string \<Rightarrow> turn_ctx \<Rightarrow> policy_action \<Rightarrow> turn_ctx" where
  "before_action J base turn name c (Narrow next) = tx_narrow next c"
| "before_action J base turn name c (Inject nudge) = tx_push (nudge_text nudge) c"
| "before_action J base turn name c (Converge next nudge) =
     (tx_push (nudge_text nudge) (tx_narrow next c))\<lparr>tx_converging := True\<rparr>"
| "before_action J base turn name c (TrimHistory target convergence) =
     trim_action J base turn name target convergence c"
| "before_action J base turn name c GuardOffered = c\<lparr>tx_guard_offered := True\<rparr>"
| "before_action J base turn name c (Record event_name detail) =
     tx_record (EvPolicy turn (case event_name of None \<Rightarrow> name | Some n \<Rightarrow> n) detail) c"
| "before_action J base turn name c (ForceFinish reason) = c\<lparr>tx_force_finish := True\<rparr>"
| "before_action J base turn name c (RejectFinish _) = c"
| "before_action J base turn name c (SetFindings _) = c"

fun before_policies ::
  "('p, 'r, 'x) agent \<Rightarrow> nat \<Rightarrow> loop_stats \<Rightarrow> 'p list \<Rightarrow> turn_ctx \<Rightarrow> 'p list \<times> turn_ctx" where
  "before_policies A turn stats [] c = ([], c)"
| "before_policies A turn stats (p # ps) c =
     (let st = policy_turn_state A turn (tx_messages c) stats (tx_converging c);
          name = po_name (ag_ops A) p;
          (actions, p') = po_before (ag_ops A) p st;
          c' = foldl (before_action (ag_serde A) (base_specs A) turn name) c actions;
          (ps', c'') = before_policies A turn stats ps c'
      in (p' # ps', c''))"

section \<open>The model call\<close>

definition turn_request :: "('p, 'r, 'x) agent \<Rightarrow> chat_message list \<Rightarrow> tool_spec list \<Rightarrow> chat_request" where
  "turn_request A messages specs =
     (let r = ag_request A in
      \<lparr>rq_model = ro_model r, rq_messages = messages, rq_tools = specs,
       rq_tool_choice = (if specs = [] then None else Some ''auto''),
       rq_temperature = ro_temperature r, rq_top_p = ro_top_p r, rq_max_tokens = ro_max_tokens r,
       rq_stream = ro_stream r,
       rq_stream_options = map_option (\<lambda>_. \<lparr>include_usage = True\<rparr>) (ro_stream r),
       rq_extra = ro_extra r\<rparr>)"

definition model_effect :: "('p, 'r, 'x) agent \<Rightarrow> chat_request \<Rightarrow> 'x effect" where
  "model_effect A request x =
     (case ag_model A request x of
        (Inl e, x') \<Rightarrow> (Inl e, x')
      | (Inr t, x') \<Rightarrow> (Inr (TurnValue t), x'))"

text \<open>The step is typed in the code; the last case of each reader below cannot arise.\<close>

fun as_turn :: "(step_error, step_value) result \<Rightarrow> (step_error, assistant_turn) result" where
  "as_turn (Inl e) = Inl e"
| "as_turn (Inr (TurnValue t)) = Inr t"
| "as_turn (Inr _) = Inl (Terminal ''step value of another type'')"

fun as_batch :: "(step_error, step_value) result \<Rightarrow> (step_error, (nat \<times> tool_outcome) list) result" where
  "as_batch (Inl e) = Inl e"
| "as_batch (Inr (BatchValue b)) = Inr b"
| "as_batch (Inr _) = Inl (Terminal ''step value of another type'')"

fun as_outcome :: "(step_error, step_value) result \<Rightarrow> (step_error, tool_outcome) result" where
  "as_outcome (Inl e) = Inl e"
| "as_outcome (Inr (OutcomeValue v)) = Inr v"
| "as_outcome (Inr _) = Inl (Terminal ''step value of another type'')"

definition call_model ::
  "('p, 'r, 'x) agent \<Rightarrow> nat \<Rightarrow> chat_request \<Rightarrow> 'r \<times> 'x
   \<Rightarrow> (step_error, assistant_turn) result \<times> ('r \<times> 'x)" where
  "call_model A turn request rx =
     (let (res, rx') = ag_step A TurnT (Llm_turn turn) (model_effect A request) rx
      in (as_turn res, rx'))"

definition context_overflow_needles :: "string list" where
  "context_overflow_needles =
     [''context length'', ''context_length_exceeded'', ''maximum context'', ''too many tokens'',
      ''reduce the length'']"

definition is_context_overflow :: "step_error \<Rightarrow> bool" where
  "is_context_overflow error =
     (let message = lower_for_search (step_error_text error)
      in list_ex (\<lambda>needle. str_contains message needle) context_overflow_needles)"

section \<open>Tool calls\<close>

fun render_dispatch :: "dispatch_result \<Rightarrow> refusal_renderer \<Rightarrow> tool_outcome" where
  "render_dispatch (Completed outcome) renderer = outcome"
| "render_dispatch (Refused refusal) renderer = renderer refusal"

definition offers_name :: "'x tool list \<Rightarrow> string \<Rightarrow> bool" where
  "offers_name offered name = list_ex (\<lambda>s. tool_spec_name s = name) (view_specs offered)"

definition is_read_only :: "tool_kind option \<Rightarrow> bool" where
  "is_read_only k = (case k of Some (ReadOnlyK _) \<Rightarrow> True | _ \<Rightarrow> False)"

definition read_indices ::
  "'x tool_registry \<Rightarrow> bool \<Rightarrow> 'x tool list \<Rightarrow> tool_call_req list \<Rightarrow> nat list" where
  "read_indices reg guard offered calls =
     map fst (filter (\<lambda>(i, call).
        is_read_only (tool_kind_of reg (call_name call))
        \<and> (\<not> guard \<or> offers_name offered (call_name call)))
       (enumerate 0 calls))"

definition count_call :: "'x tool_registry \<Rightarrow> loop_stats \<Rightarrow> tool_call_req \<Rightarrow> loop_stats" where
  "count_call reg stats call =
     (case tool_kind_of reg (call_name call) of
        Some (ReadOnlyK File) \<Rightarrow> stats\<lparr>files_read := files_read stats + 1\<rparr>
      | Some (ReadOnlyK Retrieval) \<Rightarrow> stats\<lparr>searches := searches stats + 1\<rparr>
      | _ \<Rightarrow> stats)"

fun chunks :: "nat \<Rightarrow> 'a list \<Rightarrow> 'a list list" where
  "chunks n xs = (if xs = [] \<or> n = 0 then [] else take n xs # chunks n (drop n xs))"

declare chunks.simps [simp del]

text \<open>
  The futures of a chunk are joined: the calls of a chunk run concurrently, and their results come back
  in the order of the chunk. A call is one atomic action here; the order in which the calls of a chunk
  act on the world is the scheduler's choice, made in the world the chunk starts in. An order that is
  not one of the chunk's calls stands for the order of the chunk.
\<close>

type_synonym 'x call_scheduler = "'x \<Rightarrow> nat list \<Rightarrow> nat list"

definition scheduled :: "'x call_scheduler \<Rightarrow> 'x \<Rightarrow> nat list \<Rightarrow> nat list" where
  "scheduled sched x chunk = (let order = sched x chunk in if sort order = sort chunk then order else chunk)"

fun run_in_order ::
  "refusal_renderer \<Rightarrow> 'x tool list \<Rightarrow> tool_call_req list \<Rightarrow> nat list \<Rightarrow> 'x
   \<Rightarrow> (nat \<times> tool_outcome) list \<times> 'x" where
  "run_in_order renderer dview calls [] x = ([], x)"
| "run_in_order renderer dview calls (i # is) x =
     (let (d, x') = dispatch dview (calls ! i) x;
          (rest, x'') = run_in_order renderer dview calls is x'
      in ((i, render_dispatch d renderer) # rest, x''))"

definition run_chunk ::
  "'x call_scheduler \<Rightarrow> refusal_renderer \<Rightarrow> 'x tool list \<Rightarrow> tool_call_req list \<Rightarrow> nat list \<Rightarrow> 'x
   \<Rightarrow> (nat \<times> tool_outcome) list \<times> 'x" where
  "run_chunk sched renderer dview calls chunk x =
     (let (finished, x') = run_in_order renderer dview calls (scheduled sched x chunk) x
      in (map (\<lambda>i. (i, the (map_of finished i))) chunk, x'))"

fun run_chunks ::
  "'x call_scheduler \<Rightarrow> refusal_renderer \<Rightarrow> 'x tool list \<Rightarrow> tool_call_req list \<Rightarrow> nat list list \<Rightarrow> 'x
   \<Rightarrow> (nat \<times> tool_outcome) list \<times> 'x" where
  "run_chunks sched renderer dview calls [] x = ([], x)"
| "run_chunks sched renderer dview calls (c # cs) x =
     (let (ordered, x') = run_chunk sched renderer dview calls c x;
          (rest, x'') = run_chunks sched renderer dview calls cs x'
      in (ordered @ rest, x''))"

definition batch_effect ::
  "('p, 'r, 'x) agent \<Rightarrow> 'x tool list \<Rightarrow> tool_call_req list \<Rightarrow> nat list \<Rightarrow> 'x effect" where
  "batch_effect A dview calls indices x =
     (let batch_size = max (ll_max_batch_size (ag_limits A)) 1;
          (ordered, x') = run_chunks (ag_schedule A) (ag_renderer A) dview calls (chunks batch_size indices) x
      in (Inr (BatchValue ordered), x'))"

definition run_batch ::
  "('p, 'r, 'x) agent \<Rightarrow> nat \<Rightarrow> 'x tool list \<Rightarrow> tool_call_req list \<Rightarrow> nat list \<Rightarrow> 'r \<times> 'x
   \<Rightarrow> (step_error, (nat \<times> tool_outcome) list) result \<times> ('r \<times> 'x)" where
  "run_batch A turn dview calls indices rx =
     (if indices = [] then (Inr [], rx)
      else (let (res, rx') = ag_step A BatchT (Tools turn) (batch_effect A dview calls indices) rx
            in (as_batch res, rx')))"

definition write_effect :: "('p, 'r, 'x) agent \<Rightarrow> tool_call_req \<Rightarrow> 'x effect" where
  "write_effect A call x =
     (let (d, x') = dispatch (view (ag_tools A) filter_all) call x
      in (Inr (OutcomeValue (render_dispatch d (ag_renderer A))), x'))"

definition call_outcome ::
  "('p, 'r, 'x) agent \<Rightarrow> nat \<Rightarrow> bool \<Rightarrow> 'x tool list \<Rightarrow> (nat \<rightharpoonup> tool_outcome)
   \<Rightarrow> nat \<Rightarrow> tool_call_req \<Rightarrow> 'r \<times> 'x \<Rightarrow> (step_error, tool_outcome) result \<times> ('r \<times> 'x)" where
  "call_outcome A turn guard offered batched i call rx =
     (case batched i of
        Some outcome \<Rightarrow> (Inr outcome, rx)
      | None \<Rightarrow>
          if guard \<and> \<not> offers_name offered (call_name call)
          then (Inr (render_dispatch (Refused (NotOffered (call_name call))) (ag_renderer A)), rx)
          else if tool_replay_of (ag_tools A) (call_name call) = Some NeedsDedupKey
                  \<and> is_blank (tc_id call)
          then (Inr (ag_renderer A (MissingCallId (call_name call))), rx)
          else (let (res, rx') = ag_step A OutcomeT (Write_tool turn (tc_id call)) (write_effect A call) rx
                in (as_outcome res, rx')))"

text \<open>What the ordered pass over the calls accumulates.\<close>

record call_ctx =
  cc_sink :: "transcript_event list"
  cc_messages :: "chat_message list"
  cc_stats :: loop_stats
  cc_results :: "tool_call_result list"
  cc_finish :: bool
  cc_abort :: "string option"

definition note_outcome ::
  "('p, 'r, 'x) agent \<Rightarrow> nat \<Rightarrow> tool_call_req \<Rightarrow> tool_outcome \<Rightarrow> call_ctx \<Rightarrow> call_ctx" where
  "note_outcome A turn call outcome c =
     (let kind = tool_kind_of (ag_tools A) (call_name call);
          c1 = c\<lparr>cc_sink := cc_sink c @ [EvTool turn call outcome]\<rparr>;
          c2 = (case outcome of
                  Continue content \<Rightarrow>
                    c1\<lparr>cc_stats := (if kind = Some WriteK
                                     then (cc_stats c1)\<lparr>successful_writes := successful_writes (cc_stats c1) + 1\<rparr>
                                     else cc_stats c1),
                       cc_messages := cc_messages c1 @ [tool_message (tc_id call) content]\<rparr>
                | Finish \<Rightarrow> c1\<lparr>cc_finish := True\<rparr>
                | Abort reason \<Rightarrow> c1\<lparr>cc_abort := Some reason\<rparr>)
      in c2\<lparr>cc_results := cc_results c2 @ [\<lparr>cr_call = call, cr_kind = kind, cr_outcome = outcome\<rparr>]\<rparr>)"

fun run_calls ::
  "('p, 'r, 'x) agent \<Rightarrow> nat \<Rightarrow> bool \<Rightarrow> 'x tool list \<Rightarrow> (nat \<rightharpoonup> tool_outcome)
   \<Rightarrow> (nat \<times> tool_call_req) list \<Rightarrow> call_ctx \<Rightarrow> 'r \<times> 'x
   \<Rightarrow> step_error option \<times> call_ctx \<times> ('r \<times> 'x)" where
  "run_calls A turn guard offered batched [] c rx = (None, c, rx)"
| "run_calls A turn guard offered batched ((i, call) # rest) c rx =
     (case call_outcome A turn guard offered batched i call rx of
        (Inl e, rx') \<Rightarrow> (Some e, c, rx')
      | (Inr outcome, rx') \<Rightarrow>
          run_calls A turn guard offered batched rest (note_outcome A turn call outcome c) rx')"

section \<open>After the calls\<close>

record after_ctx =
  ac_messages :: "chat_message list"
  ac_sink :: "transcript_event list"
  ac_stats :: loop_stats
  ac_reject :: bool

fun after_action :: "nat \<Rightarrow> string \<Rightarrow> after_ctx \<Rightarrow> policy_action \<Rightarrow> after_ctx" where
  "after_action turn name c (Inject nudge) =
     c\<lparr>ac_messages := ac_messages c @ [user_message (nudge_text nudge)]\<rparr>"
| "after_action turn name c (RejectFinish nudge) =
     c\<lparr>ac_reject := True, ac_messages := ac_messages c @ [user_message (nudge_text nudge)]\<rparr>"
| "after_action turn name c (Record event_name detail) =
     c\<lparr>ac_sink := ac_sink c @ [EvPolicy turn (case event_name of None \<Rightarrow> name | Some n \<Rightarrow> n) detail]\<rparr>"
| "after_action turn name c (SetFindings findings) =
     c\<lparr>ac_stats := (ac_stats c)\<lparr>findings_recorded := findings\<rparr>\<rparr>"
| "after_action turn name c _ = c"

fun after_policies ::
  "('p, 'r, 'x) agent \<Rightarrow> nat \<Rightarrow> bool \<Rightarrow> 'x \<Rightarrow> turn_outcome \<Rightarrow> 'p list \<Rightarrow> after_ctx
   \<Rightarrow> 'p list \<times> after_ctx" where
  "after_policies A turn converging x outcome [] c = ([], c)"
| "after_policies A turn converging x outcome (p # ps) c =
     (let st = policy_turn_state A turn (ac_messages c) (ac_stats c) converging;
          (actions, p') = po_after (ag_ops A) x p st outcome;
          c' = foldl (after_action turn (po_name (ag_ops A) p)) c actions;
          (ps', c'') = after_policies A turn converging x outcome ps c'
      in (p' # ps', c''))"

fun record_only :: "nat \<Rightarrow> string \<Rightarrow> transcript_event list \<Rightarrow> policy_action \<Rightarrow> transcript_event list" where
  "record_only turn name sink (Record event_name detail) =
     sink @ [EvPolicy turn (case event_name of None \<Rightarrow> name | Some n \<Rightarrow> n) detail]"
| "record_only turn name sink _ = sink"

fun hook_policies ::
  "('p \<Rightarrow> string) \<Rightarrow> ('p \<Rightarrow> policy_action list \<times> 'p) \<Rightarrow> nat \<Rightarrow> 'p list \<Rightarrow> transcript_event list
   \<Rightarrow> 'p list \<times> transcript_event list" where
  "hook_policies name hook turn [] sink = ([], sink)"
| "hook_policies name hook turn (p # ps) sink =
     (let (actions, p') = hook p;
          sink' = foldl (record_only turn (name p)) sink actions;
          (ps', sink'') = hook_policies name hook turn ps sink'
      in (p' # ps', sink''))"

section \<open>One turn\<close>

definition begin_turn :: "('p, 'r, 'x) agent \<Rightarrow> nat \<Rightarrow> ('p, 'r, 'x) loop_state
   \<Rightarrow> turn_ctx \<times> ('p, 'r, 'x) loop_state" where
  "begin_turn A turn s =
     (let c0 = \<lparr>tx_filter = ag_initial_filter A, tx_converging = False, tx_guard_offered = False,
                tx_force_finish = False, tx_messages = ls_messages s, tx_sink = ls_sink s\<rparr>;
          (ps, c) = before_policies A turn (ls_stats s) (ls_policies s) c0
      in (c, s\<lparr>ls_policies := ps, ls_messages := tx_messages c, ls_sink := tx_sink c\<rparr>))"

definition finish_turn ::
  "('p, 'r, 'x) agent \<Rightarrow> nat \<Rightarrow> bool \<Rightarrow> turn_outcome \<Rightarrow> bool \<Rightarrow> ('p, 'r, 'x) loop_state
   \<Rightarrow> (step_error, turn_flow) result \<times> ('p, 'r, 'x) loop_state" where
  "finish_turn A turn converging outcome reject s =
     (case to_abort_reason outcome of
        Some reason \<Rightarrow> (Inr (Return (Aborted reason)), s)
      | None \<Rightarrow>
          if to_finish_requested outcome \<and> \<not> reject then
            (let st = policy_turn_state A turn (ls_messages s) (ls_stats s) converging;
                 (ps, sink) = hook_policies (po_name (ag_ops A))
                    (\<lambda>p. po_finish (ag_ops A) p st outcome) turn (ls_policies s) (ls_sink s)
             in (Inr (Return Finished), s\<lparr>ls_policies := ps, ls_sink := sink\<rparr>))
          else (Inr FlowContinue, s))"

definition conclude_turn ::
  "('p, 'r, 'x) agent \<Rightarrow> nat \<Rightarrow> bool \<Rightarrow> turn_outcome \<Rightarrow> ('p, 'r, 'x) loop_state
   \<Rightarrow> (step_error, turn_flow) result \<times> ('p, 'r, 'x) loop_state" where
  "conclude_turn A turn converging outcome s =
     (let c0 = \<lparr>ac_messages = ls_messages s, ac_sink = ls_sink s, ac_stats = ls_stats s,
                ac_reject = False\<rparr>;
          (ps, c) = after_policies A turn converging (ls_world s) outcome (ls_policies s) c0
      in finish_turn A turn converging outcome (ac_reject c)
           (s\<lparr>ls_policies := ps, ls_messages := ac_messages c, ls_sink := ac_sink c,
              ls_stats := ac_stats c\<rparr>))"

definition call_stats :: "'x tool_registry \<Rightarrow> nat list \<Rightarrow> tool_call_req list \<Rightarrow> loop_stats \<Rightarrow> loop_stats" where
  "call_stats reg indices calls stats =
     foldl (count_call reg)
       (if indices = [] then stats else stats\<lparr>batches := batches stats + 1\<rparr>) calls"

definition dispatch_view :: "('p, 'r, 'x) agent \<Rightarrow> turn_ctx \<Rightarrow> 'x tool list \<Rightarrow> 'x tool list" where
  "dispatch_view A c offered = (if tx_guard_offered c then offered else view (ag_tools A) filter_all)"

definition start_calls :: "loop_stats \<Rightarrow> ('p, 'r, 'x) loop_state \<Rightarrow> call_ctx" where
  "start_calls stats s =
     \<lparr>cc_sink = ls_sink s, cc_messages = ls_messages s, cc_stats = stats, cc_results = [],
      cc_finish = False, cc_abort = None\<rparr>"

definition after_calls ::
  "call_ctx \<Rightarrow> 'r \<times> 'x \<Rightarrow> ('p, 'r, 'x) loop_state \<Rightarrow> ('p, 'r, 'x) loop_state" where
  "after_calls cc rx s =
     s\<lparr>ls_rt := fst rx, ls_world := snd rx, ls_sink := cc_sink cc, ls_messages := cc_messages cc,
       ls_stats := cc_stats cc\<rparr>"

definition outcome_of :: "chat_message \<Rightarrow> call_ctx \<Rightarrow> turn_outcome" where
  "outcome_of assistant cc =
     \<lparr>to_assistant = assistant, to_results = cc_results cc, to_finish_requested = cc_finish cc,
      to_abort_reason = cc_abort cc\<rparr>"

definition run_tools ::
  "('p, 'r, 'x) agent \<Rightarrow> nat \<Rightarrow> turn_ctx \<Rightarrow> 'x tool list \<Rightarrow> chat_message \<Rightarrow> ('p, 'r, 'x) loop_state
   \<Rightarrow> (step_error, turn_flow) result \<times> ('p, 'r, 'x) loop_state" where
  "run_tools A turn c offered assistant s =
     (let calls = cm_tool_calls assistant;
          guard = tx_guard_offered c;
          indices = read_indices (ag_tools A) guard offered calls;
          stats = call_stats (ag_tools A) indices calls (ls_stats s)
      in case run_batch A turn (dispatch_view A c offered) calls indices (ls_rt s, ls_world s) of
           (Inl e, rx) \<Rightarrow> (Inl e, s\<lparr>ls_rt := fst rx, ls_world := snd rx, ls_stats := stats\<rparr>)
         | (Inr batch, rx) \<Rightarrow>
             (case run_calls A turn guard offered (map_of (rev batch)) (enumerate 0 calls)
                     (start_calls stats s) rx of
                (Some e, cc, rx') \<Rightarrow> (Inl e, after_calls cc rx' s)
              | (None, cc, rx') \<Rightarrow>
                  conclude_turn A turn (tx_converging c) (outcome_of assistant cc)
                    (after_calls cc rx' s)))"

lemma run_tools_cases:
  assumes "run_tools A turn c offered m s = (res, s')"
  obtains (batch_fails) e rx where
      "run_batch A turn (dispatch_view A c offered) (cm_tool_calls m)
         (read_indices (ag_tools A) (tx_guard_offered c) offered (cm_tool_calls m))
         (ls_rt s, ls_world s) = (Inl e, rx)"
      "res = Inl e"
      "s' = s\<lparr>ls_rt := fst rx, ls_world := snd rx, ls_stats := call_stats (ag_tools A)
         (read_indices (ag_tools A) (tx_guard_offered c) offered (cm_tool_calls m))
         (cm_tool_calls m) (ls_stats s)\<rparr>"
  | (calls) batch rx err cc rx' where
      "run_batch A turn (dispatch_view A c offered) (cm_tool_calls m)
         (read_indices (ag_tools A) (tx_guard_offered c) offered (cm_tool_calls m))
         (ls_rt s, ls_world s) = (Inr batch, rx)"
      "run_calls A turn (tx_guard_offered c) offered (map_of (rev batch))
         (enumerate 0 (cm_tool_calls m))
         (start_calls (call_stats (ag_tools A)
           (read_indices (ag_tools A) (tx_guard_offered c) offered (cm_tool_calls m))
           (cm_tool_calls m) (ls_stats s)) s) rx = (err, cc, rx')"
      "(res, s') = (case err of Some e \<Rightarrow> (Inl e, after_calls cc rx' s)
         | None \<Rightarrow> conclude_turn A turn (tx_converging c) (outcome_of m cc) (after_calls cc rx' s))"
proof -
  obtain br rx where b: "run_batch A turn (dispatch_view A c offered) (cm_tool_calls m)
         (read_indices (ag_tools A) (tx_guard_offered c) offered (cm_tool_calls m))
         (ls_rt s, ls_world s) = (br, rx)" by (rule prod.exhaust)
  show thesis
  proof (cases br)
    case (Inl e)
    with b assms show ?thesis by (intro batch_fails) (auto simp: run_tools_def Let_def)
  next
    case (Inr batch)
    obtain err cc rx' where k: "run_calls A turn (tx_guard_offered c) offered (map_of (rev batch))
         (enumerate 0 (cm_tool_calls m))
         (start_calls (call_stats (ag_tools A)
           (read_indices (ag_tools A) (tx_guard_offered c) offered (cm_tool_calls m))
           (cm_tool_calls m) (ls_stats s)) s) rx = (err, cc, rx')" by (rule prod_cases3)
    with b Inr assms show ?thesis
      by (intro calls [OF b [unfolded Inr] k]) (auto simp: run_tools_def Let_def split: option.splits)
  qed
qed

definition after_completion ::
  "('p, 'r, 'x) agent \<Rightarrow> nat \<Rightarrow> turn_ctx \<Rightarrow> 'x tool list \<Rightarrow> (step_error, assistant_turn) result
   \<Rightarrow> ('p, 'r, 'x) loop_state \<Rightarrow> (step_error, turn_flow) result \<times> ('p, 'r, 'x) loop_state" where
  "after_completion A turn c offered completion s =
     (case completion of
        Inr t \<Rightarrow>
          (let assistant = assistant_message t;
               s1 = s\<lparr>ls_consecutive_failures := 0,
                      ls_sink := ls_sink s @ [EvAssistant turn assistant (at_telemetry t)],
                      ls_messages := ls_messages s @ [assistant]\<rparr>
           in if cm_tool_calls assistant = []
              then (Inr FlowContinue,
                    s1\<lparr>ls_messages := ls_messages s1 @ [user_message (ll_no_tool_nudge (ag_limits A))]\<rparr>)
              else run_tools A turn c offered assistant s1)
      | Inl error \<Rightarrow>
          if is_transient error then
            (let n = ls_consecutive_failures s + 1; s' = s\<lparr>ls_consecutive_failures := n\<rparr>
             in if ll_circuit_breaker_threshold (ag_limits A) > 0
                   \<and> n \<ge> ll_circuit_breaker_threshold (ag_limits A)
                then (Inl error, s') else (Inr FlowContinue, s'))
          else if is_context_overflow error
          then (Inr StopLoop, s\<lparr>ls_context_overflow := True\<rparr>)
          else (Inl error, s))"

definition run_turn ::
  "('p, 'r, 'x) agent \<Rightarrow> nat \<Rightarrow> ('p, 'r, 'x) loop_state
   \<Rightarrow> (step_error, turn_flow) result \<times> ('p, 'r, 'x) loop_state" where
  "run_turn A turn s =
     (let (c, s1) = begin_turn A turn s
      in if tx_force_finish c then (Inr StopLoop, s1)
         else
           (let offered = view (ag_tools A) (tx_filter c);
                request = turn_request A (ls_messages s1) (view_specs offered);
                (completion, (r, x)) = call_model A turn request (ls_rt s1, ls_world s1)
            in after_completion A turn c offered completion (s1\<lparr>ls_rt := r, ls_world := x\<rparr>)))"

section \<open>The run\<close>

fun run_turns ::
  "('p, 'r, 'x) agent \<Rightarrow> nat list \<Rightarrow> ('p, 'r, 'x) loop_state
   \<Rightarrow> (step_error, loop_outcome option) result \<times> ('p, 'r, 'x) loop_state" where
  "run_turns A [] s = (Inr None, s)"
| "run_turns A (turn # rest) s =
     (case run_turn A turn s of
        (Inl e, s') \<Rightarrow> (Inl e, s')
      | (Inr FlowContinue, s') \<Rightarrow> run_turns A rest s'
      | (Inr StopLoop, s') \<Rightarrow> (Inr None, s')
      | (Inr (Return outcome), s') \<Rightarrow> (Inr (Some outcome), s'))"

definition exhausted_tail ::
  "('p, 'r, 'x) agent \<Rightarrow> ('p, 'r, 'x) loop_state \<Rightarrow> ('p, 'r, 'x) loop_state" where
  "exhausted_tail A s =
     (let max_turns = ll_max_turns (ag_limits A);
          event = EvPolicy max_turns ''exhausted''
                    (JObj [(''context_overflow'', JBool (ls_context_overflow s)),
                           (''findings'', JInt (int (findings_recorded (ls_stats s))))]);
          st = policy_turn_state A max_turns (ls_messages s) (ls_stats s) True;
          (ps, sink) = hook_policies (po_name (ag_ops A)) (\<lambda>p. po_exhausted (ag_ops A) p st)
                         max_turns (ls_policies s) (ls_sink s @ [event])
      in s\<lparr>ls_policies := ps, ls_sink := sink\<rparr>)"

definition run_loop ::
  "('p, 'r, 'x) agent \<Rightarrow> ('p, 'r, 'x) loop_state
   \<Rightarrow> (step_error, loop_outcome) result \<times> ('p, 'r, 'x) loop_state" where
  "run_loop A s =
     (case run_turns A [0..<ll_max_turns (ag_limits A)] s of
        (Inl e, s') \<Rightarrow> (Inl e, s')
      | (Inr (Some outcome), s') \<Rightarrow> (Inr outcome, s')
      | (Inr None, s') \<Rightarrow> (Inr Exhausted, exhausted_tail A s'))"

definition initial_state ::
  "'r \<Rightarrow> 'x \<Rightarrow> 'p list \<Rightarrow> chat_message list \<Rightarrow> ('p, 'r, 'x) loop_state" where
  "initial_state r x policies messages =
     \<lparr>ls_rt = r, ls_world = x, ls_policies = policies, ls_sink = [], ls_messages = messages,
      ls_stats = stats_default, ls_consecutive_failures = 0, ls_context_overflow = False\<rparr>"

lemmas turn_defs [step_simps] = begin_turn_def run_turn_def after_completion_def run_tools_def
  conclude_turn_def finish_turn_def

section \<open>A bare agent\<close>

text \<open>An agent without policies over a given runtime, model and tools, for concrete runs.\<close>

definition no_policy_ops :: "('p, 'x) policy_ops" where
  "no_policy_ops = \<lparr>po_name = (\<lambda>_. ''none''), po_before = (\<lambda>p _. ([], p)), po_after = (\<lambda>_ p _ _. ([], p)),
                    po_finish = (\<lambda>p _ _. ([], p)), po_exhausted = (\<lambda>p _. ([], p))\<rparr>"

definition bare_agent ::
  "('r, 'x) step_runtime \<Rightarrow> (chat_request \<Rightarrow> 'x \<Rightarrow> (step_error, assistant_turn) result \<times> 'x)
   \<Rightarrow> 'x tool_registry \<Rightarrow> loop_limits \<Rightarrow> (unit, 'r, 'x) agent" where
  "bare_agent step model tools limits =
     \<lparr>ag_step = step, ag_model = model, ag_tools = tools, ag_ops = no_policy_ops, ag_limits = limits,
      ag_renderer = default_refusal id,
      ag_serde = \<lparr>to_text = (\<lambda>_. []), from_text = (\<lambda>_. None)\<rparr>,
      ag_request = \<lparr>ro_model = ''m'', ro_temperature = None, ro_top_p = None, ro_max_tokens = None,
                    ro_stream = None, ro_extra = []\<rparr>,
      ag_initial_filter = filter_all, ag_schedule = (\<lambda>_ chunk. chunk)\<rparr>"

lemma bare_agent_simps [simp]:
  "ag_step (bare_agent step model tools limits) = step"
  "ag_model (bare_agent step model tools limits) = model"
  "ag_tools (bare_agent step model tools limits) = tools"
  "ag_limits (bare_agent step model tools limits) = limits"
  "ag_ops (bare_agent step model tools limits) = no_policy_ops"
  "ag_renderer (bare_agent step model tools limits) = default_refusal id"
  "ag_initial_filter (bare_agent step model tools limits) = filter_all"
  by (simp_all add: bare_agent_def)

end
