(* ===== verification/Loop_Properties.thy ===== *)
theory Loop_Properties
  imports Loop_Driver "HOL-Library.Multiset"
begin

text \<open>
  What the loop driver guarantees for every set of policies and every runtime: the verdict agrees
  with the transcript, the model is asked at most once per turn, every tool result answers a call,
  the circuit breaker, the guard on un-offered tools, and the batching of read-only calls.
\<close>

section \<open>The trace: what the model said and what the tools answered\<close>

fun is_policy_event :: "transcript_event \<Rightarrow> bool" where
  "is_policy_event (EvPolicy _ _ _) = True"
| "is_policy_event _ = False"

definition trace :: "transcript_event list \<Rightarrow> transcript_event list" where
  "trace es = filter (\<lambda>e. \<not> is_policy_event e) es"

lemma trace_simps [simp]:
  "trace [] = []" "trace (a @ b) = trace a @ trace b"
  "trace (EvPolicy t n d # es) = trace es"
  "trace (EvAssistant t m tel # es) = EvAssistant t m tel # trace es"
  "trace (EvTool t c v # es) = EvTool t c v # trace es"
  by (simp_all add: trace_def)

fun aborts :: "transcript_event list \<Rightarrow> string list" where
  "aborts [] = []"
| "aborts (EvTool t c (Abort reason) # es) = reason # aborts es"
| "aborts (e # es) = aborts es"

fun finishes :: "transcript_event list \<Rightarrow> bool" where
  "finishes [] = False"
| "finishes (EvTool t c Finish # es) = True"
| "finishes (e # es) = finishes es"

fun assistant_turns :: "transcript_event list \<Rightarrow> nat list" where
  "assistant_turns [] = []"
| "assistant_turns (EvAssistant t m tel # es) = t # assistant_turns es"
| "assistant_turns (e # es) = assistant_turns es"

lemma aborts_append [simp]: "aborts (a @ b) = aborts a @ aborts b"
  by (induction a rule: aborts.induct) auto

lemma finishes_append [simp]: "finishes (a @ b) \<longleftrightarrow> finishes a \<or> finishes b"
  by (induction a rule: finishes.induct) auto

lemma assistant_turns_append [simp]: "assistant_turns (a @ b) = assistant_turns a @ assistant_turns b"
  by (induction a rule: assistant_turns.induct) auto

lemma aborts_trace [simp]: "aborts (trace es) = aborts es"
  by (induction es rule: aborts.induct) (auto simp: trace_def)

lemma finishes_trace [simp]: "finishes (trace es) = finishes es"
  by (induction es rule: finishes.induct) (auto simp: trace_def)

lemma assistant_turns_trace [simp]: "assistant_turns (trace es) = assistant_turns es"
  by (induction es rule: assistant_turns.induct) (auto simp: trace_def)

section \<open>Policies add only policy events to the transcript\<close>

lemma tx_ops_trace [simp]:
  "tx_sink (tx_push s c) = tx_sink c" "tx_sink (tx_narrow f c) = tx_sink c"
  "trace (tx_sink (tx_record (EvPolicy t n d) c)) = trace (tx_sink c)"
  by (simp_all add: tx_push_def tx_narrow_def tx_record_def)

lemma trim_action_trace [simp]:
  "trace (tx_sink (trim_action J base turn name target conv c)) = trace (tx_sink c)"
  by (auto simp: trim_action_def Let_def split_def split: option.split)

lemma before_action_trace [simp]:
  "trace (tx_sink (before_action J base turn name c a)) = trace (tx_sink c)"
  by (cases a) (auto simp: tx_narrow_def split: option.split)

lemma before_actions_trace [simp]:
  "trace (tx_sink (foldl (before_action J base turn name) c as)) = trace (tx_sink c)"
  by (induction as arbitrary: c) auto

lemma before_policies_trace [simp]:
  "trace (tx_sink (snd (before_policies A turn stats ps c))) = trace (tx_sink c)"
  by (induction ps arbitrary: c) (auto simp: Let_def split_def)

lemma after_action_trace [simp]:
  "trace (ac_sink (after_action turn name c a)) = trace (ac_sink c)"
  by (cases a) auto

lemma after_actions_trace [simp]:
  "trace (ac_sink (foldl (after_action turn name) c as)) = trace (ac_sink c)"
  by (induction as arbitrary: c) auto

lemma after_policies_trace [simp]:
  "trace (ac_sink (snd (after_policies A turn conv x out ps c))) = trace (ac_sink c)"
  by (induction ps arbitrary: c) (auto simp: Let_def split_def)

lemma record_only_trace [simp]:
  "trace (foldl (record_only turn name) sink as) = trace sink"
proof (induction as arbitrary: sink)
  case (Cons a as)
  then show ?case by (cases a) auto
qed simp

lemma hook_policies_trace [simp]:
  "trace (snd (hook_policies name hook turn ps sink)) = trace sink"
  by (induction ps arbitrary: sink) (auto simp: Let_def split_def)

section \<open>The ordered pass over the calls\<close>

lemma note_outcome_simps:
  "cc_sink (note_outcome A turn call v c) = cc_sink c @ [EvTool turn call v]"
  "cc_abort (note_outcome A turn call v c) =
     (case v of Abort reason \<Rightarrow> Some reason | _ \<Rightarrow> cc_abort c)"
  "cc_finish (note_outcome A turn call v c) \<longleftrightarrow> cc_finish c \<or> v = Finish"
  "cc_messages (note_outcome A turn call v c) =
     cc_messages c @ (case v of Continue content \<Rightarrow> [tool_message (tc_id call) content] | _ \<Rightarrow> [])"
  "cc_results (note_outcome A turn call v c) =
     cc_results c @ [\<lparr>cr_call = call, cr_kind = tool_kind_of (ag_tools A) (call_name call), cr_outcome = v\<rparr>]"
  by (auto simp: note_outcome_def Let_def split: tool_outcome.split)

definition tool_events :: "nat \<Rightarrow> tool_call_result list \<Rightarrow> transcript_event list" where
  "tool_events turn rs = map (\<lambda>r. EvTool turn (cr_call r) (cr_outcome r)) rs"

definition answers :: "tool_call_result list \<Rightarrow> chat_message list" where
  "answers rs = concat (map (\<lambda>r. case cr_outcome r of
      Continue content \<Rightarrow> [tool_message (tc_id (cr_call r)) content] | _ \<Rightarrow> []) rs)"

lemma tool_events_simps [simp]:
  "tool_events t [] = []"
  "tool_events t (r # rs) = EvTool t (cr_call r) (cr_outcome r) # tool_events t rs"
  by (simp_all add: tool_events_def)

lemma answers_simps [simp]:
  "answers [] = []"
  "answers (r # rs) = (case cr_outcome r of
      Continue content \<Rightarrow> [tool_message (tc_id (cr_call r)) content] | _ \<Rightarrow> []) @ answers rs"
  by (simp_all add: answers_def)

lemma trace_tool_events [simp]: "trace (tool_events t rs) = tool_events t rs"
  by (induction rs) auto

lemma assistant_turns_tool_events [simp]: "assistant_turns (tool_events t rs) = []"
  by (induction rs) auto

lemma run_calls_accumulates:
  "run_calls A turn guard offered batched calls c rx = (err, c', rx') \<Longrightarrow>
   \<exists>rs. cc_results c' = cc_results c @ rs
      \<and> cc_sink c' = cc_sink c @ tool_events turn rs
      \<and> cc_messages c' = cc_messages c @ answers rs
      \<and> cc_abort c' = (if aborts (tool_events turn rs) = [] then cc_abort c
                       else Some (last (aborts (tool_events turn rs))))
      \<and> (cc_finish c' \<longleftrightarrow> cc_finish c \<or> finishes (tool_events turn rs))
      \<and> (if err = None then map cr_call rs = map snd calls
         else length rs < length calls \<and> map cr_call rs = take (length rs) (map snd calls))"
proof (induction calls arbitrary: c rx)
  case Nil
  then show ?case by (auto intro: exI [of _ "[]"])
next
  case (Cons ic rest)
  obtain i call where ic: "ic = (i, call)" by (cases ic)
  obtain res rx1 where Pair: "call_outcome A turn guard offered batched i call rx = (res, rx1)"
    by (rule prod.exhaust)
  show ?case
  proof (cases res)
    case (Inl e)
    with Cons.prems ic Pair show ?thesis by (auto intro!: exI [of _ "[]"])
  next
    case (Inr v)
    let ?r = "\<lparr>cr_call = call, cr_kind = tool_kind_of (ag_tools A) (call_name call), cr_outcome = v\<rparr>"
    have "run_calls A turn guard offered batched rest (note_outcome A turn call v c) rx1 = (err, c', rx')"
      using Cons.prems ic Pair Inr by simp
    from Cons.IH [OF this] obtain rs where rs:
      "cc_results c' = cc_results (note_outcome A turn call v c) @ rs"
      "cc_sink c' = cc_sink (note_outcome A turn call v c) @ tool_events turn rs"
      "cc_messages c' = cc_messages (note_outcome A turn call v c) @ answers rs"
      "cc_abort c' = (if aborts (tool_events turn rs) = [] then cc_abort (note_outcome A turn call v c)
                     else Some (last (aborts (tool_events turn rs))))"
      "cc_finish c' \<longleftrightarrow> cc_finish (note_outcome A turn call v c) \<or> finishes (tool_events turn rs)"
      "if err = None then map cr_call rs = map snd rest
       else length rs < length rest \<and> map cr_call rs = take (length rs) (map snd rest)"
      by blast
    show ?thesis
      by (rule exI [of _ "?r # rs"])
         (use rs ic in \<open>cases v; auto simp: note_outcome_simps split: if_splits\<close>)
  qed
qed

section \<open>The verdict of a turn\<close>

fun flow_agrees :: "(step_error, turn_flow) result \<Rightarrow> transcript_event list \<Rightarrow> bool" where
  "flow_agrees (Inl e) es \<longleftrightarrow> True"
| "flow_agrees (Inr FlowContinue) es \<longleftrightarrow> aborts es = []"
| "flow_agrees (Inr StopLoop) es \<longleftrightarrow> aborts es = []"
| "flow_agrees (Inr (Return Finished)) es \<longleftrightarrow> aborts es = [] \<and> finishes es"
| "flow_agrees (Inr (Return (Aborted reason))) es \<longleftrightarrow> aborts es \<noteq> [] \<and> reason = last (aborts es)"
| "flow_agrees (Inr (Return Exhausted)) es \<longleftrightarrow> False"

lemma finish_turn_trace [simp]:
  "trace (ls_sink (snd (finish_turn A turn conv out reject s))) = trace (ls_sink s)"
  by (auto simp: finish_turn_def Let_def split_def split: option.split)

lemma conclude_turn_trace [simp]:
  "trace (ls_sink (snd (conclude_turn A turn conv out s))) = trace (ls_sink s)"
  by (simp add: conclude_turn_def Let_def split_def)

lemma begin_turn_trace [simp]:
  "trace (ls_sink (snd (begin_turn A turn s))) = trace (ls_sink s)"
  by (simp add: begin_turn_def Let_def split_def)

lemma conclude_turn_flow:
  assumes "to_abort_reason out = (if aborts es = [] then None else Some (last (aborts es)))"
    and "to_finish_requested out \<longleftrightarrow> finishes es"
  shows "flow_agrees (fst (conclude_turn A turn conv out s)) es"
  using assms by (auto simp: conclude_turn_def finish_turn_def Let_def split_def split: option.split)

lemma run_tools_trace:
  assumes "run_tools A turn c offered m s = (res, s')"
  shows "\<exists>rs. trace (ls_sink s') = trace (ls_sink s) @ tool_events turn rs
           \<and> flow_agrees res (tool_events turn rs)"
  using assms
proof (cases rule: run_tools_cases)
  case (batch_fails e rx)
  then show ?thesis by (auto intro!: exI [of _ "[]"])
next
  case (calls batch rx err cc rx')
  from run_calls_accumulates [OF calls(2)] obtain rs where rs:
    "cc_sink cc = ls_sink s @ tool_events turn rs"
    "cc_abort cc = (if aborts (tool_events turn rs) = [] then None
                    else Some (last (aborts (tool_events turn rs))))"
    "cc_finish cc \<longleftrightarrow> finishes (tool_events turn rs)"
    by (auto simp: start_calls_def)
  show ?thesis
  proof (cases err)
    case (Some e)
    with calls rs show ?thesis by (auto simp: after_calls_def intro!: exI [of _ rs])
  next
    case None
    let ?r = "conclude_turn A turn (tx_converging c) (outcome_of m cc) (after_calls cc rx' s)"
    have r: "(res, s') = ?r" using calls(3) None by simp
    have "flow_agrees (fst ?r) (tool_events turn rs)"
      by (rule conclude_turn_flow) (simp_all add: outcome_of_def rs)
    moreover have "trace (ls_sink (snd ?r)) = trace (ls_sink s) @ tool_events turn rs"
      by (simp add: after_calls_def rs)
    ultimately show ?thesis unfolding r [symmetric] by auto
  qed
qed

lemma run_turn_trace:
  assumes "run_turn A turn s = (res, s')"
  shows "\<exists>es. trace (ls_sink s') = trace (ls_sink s) @ es \<and> flow_agrees res es
            \<and> (assistant_turns es = [] \<or> assistant_turns es = [turn])"
proof -
  obtain c s1 where b: "begin_turn A turn s = (c, s1)" by (rule prod.exhaust)
  have t1: "trace (ls_sink s1) = trace (ls_sink s)" using begin_turn_trace [of A turn s] b by simp
  show ?thesis
  proof (cases "tx_force_finish c")
    case True
    with assms b t1 show ?thesis by (auto simp: run_turn_def intro!: exI [of _ "[]"])
  next
    case False
    define offered where "offered = view (ag_tools A) (tx_filter c)"
    obtain cmp r x where m: "call_model A turn (turn_request A (ls_messages s1) (view_specs offered))
        (ls_rt s1, ls_world s1) = (cmp, (r, x))" by (metis prod.exhaust)
    define s2 where "s2 = s1\<lparr>ls_rt := r, ls_world := x\<rparr>"
    have a: "after_completion A turn c offered cmp s2 = (res, s')"
      using assms b False m by (simp add: run_turn_def Let_def offered_def s2_def)
    have t2: "trace (ls_sink s2) = trace (ls_sink s)" using t1 by (simp add: s2_def)
    show ?thesis
    proof (cases cmp)
      case (Inl e)
      with a t2 show ?thesis
        by (auto simp: after_completion_def Let_def split: if_splits intro!: exI [of _ "[]"])
    next
      case (Inr t)
      let ?m = "assistant_message t"
      show ?thesis
      proof (cases "cm_tool_calls ?m = []")
        case True
        with a t2 Inr show ?thesis
          by (auto simp: after_completion_def Let_def
              intro!: exI [of _ "[EvAssistant turn ?m (at_telemetry t)]"])
      next
        case False
        with a Inr obtain s3 where s3: "run_tools A turn c offered ?m s3 = (res, s')"
          "ls_sink s3 = ls_sink s2 @ [EvAssistant turn ?m (at_telemetry t)]"
          by (auto simp: after_completion_def Let_def)
        from run_tools_trace [OF s3(1)] obtain rs where
          "trace (ls_sink s') = trace (ls_sink s3) @ tool_events turn rs"
          "flow_agrees res (tool_events turn rs)" by blast
        with s3 t2 show ?thesis
          by (intro exI [of _ "EvAssistant turn ?m (at_telemetry t) # tool_events turn rs"])
             (cases "(res, tool_events turn rs)" rule: flow_agrees.cases; auto)
      qed
    qed
  qed
qed

section \<open>The verdict of a run\<close>

fun verdict_agrees :: "(step_error, loop_outcome) result \<Rightarrow> transcript_event list \<Rightarrow> bool" where
  "verdict_agrees (Inl e) es \<longleftrightarrow> True"
| "verdict_agrees (Inr Exhausted) es \<longleftrightarrow> aborts es = []"
| "verdict_agrees (Inr Finished) es \<longleftrightarrow> aborts es = [] \<and> finishes es"
| "verdict_agrees (Inr (Aborted reason)) es \<longleftrightarrow> aborts es \<noteq> [] \<and> reason = last (aborts es)"

definition as_outcome_result ::
  "(step_error, loop_outcome option) result \<Rightarrow> (step_error, loop_outcome) result" where
  "as_outcome_result res =
     (case res of Inl e \<Rightarrow> Inl e | Inr None \<Rightarrow> Inr Exhausted | Inr (Some v) \<Rightarrow> Inr v)"

lemma run_turns_trace:
  "run_turns A turns s = (res, s') \<Longrightarrow>
   \<exists>es. trace (ls_sink s') = trace (ls_sink s) @ es \<and> verdict_agrees (as_outcome_result res) es
      \<and> subseq (assistant_turns es) turns"
proof (induction turns arbitrary: s)
  case Nil
  then show ?case by (auto simp: as_outcome_result_def intro!: exI [of _ "[]"])
next
  case (Cons turn rest)
  obtain r s1 where t: "run_turn A turn s = (r, s1)" by (rule prod.exhaust)
  from run_turn_trace [OF t] obtain es where es:
    "trace (ls_sink s1) = trace (ls_sink s) @ es" "flow_agrees r es"
    "assistant_turns es = [] \<or> assistant_turns es = [turn]" by blast
  show ?case
  proof (cases "r = Inr FlowContinue")
    case True
    then have "run_turns A rest s1 = (res, s')" using Cons.prems t by simp
    from Cons.IH [OF this] obtain es' where es':
      "trace (ls_sink s') = trace (ls_sink s1) @ es'" "verdict_agrees (as_outcome_result res) es'"
      "subseq (assistant_turns es') rest" by blast
    have "aborts es = []" using es True by simp
    then have "verdict_agrees (as_outcome_result res) (es @ es')"
      using es'(2) by (cases "(as_outcome_result res, es')" rule: verdict_agrees.cases) auto
    moreover have "subseq (assistant_turns (es @ es')) (turn # rest)"
      using es(3) es'(3) by auto
    ultimately show ?thesis using es es' by (intro exI [of _ "es @ es'"]) simp
  next
    case False
    then have "s' = s1" "verdict_agrees (as_outcome_result res) es"
      using Cons.prems t es(2)
      by (cases "(r, es)" rule: flow_agrees.cases; auto simp: as_outcome_result_def)+
    then show ?thesis using es by (intro exI [of _ es]) auto
  qed
qed

lemma verdict_agrees_trace [simp]: "verdict_agrees res (trace es) = verdict_agrees res es"
  by (cases "(res, es)" rule: verdict_agrees.cases) auto

lemma run_loop_trace:
  "\<exists>es. trace (ls_sink (snd (run_loop A s))) = trace (ls_sink s) @ es
      \<and> verdict_agrees (fst (run_loop A s)) es
      \<and> subseq (assistant_turns es) [0..<ll_max_turns (ag_limits A)]"
proof -
  obtain r s' where t: "run_turns A [0..<ll_max_turns (ag_limits A)] s = (r, s')"
    by (rule prod.exhaust)
  from run_turns_trace [OF t] t show ?thesis
    by (auto simp: run_loop_def as_outcome_result_def exhausted_tail_def Let_def split_def
             split: sum.splits option.splits)
qed

text \<open>
  C6. The verdict of a run agrees with its transcript, whatever the policies do: it is Finished only
  if some tool call answered Finish and none answered Abort, Aborted with the reason of the last
  Abort the tools answered, and Exhausted only if no tool call answered Abort.
\<close>

theorem verdict_matches_transcript:
  "verdict_agrees (fst (run_loop A (initial_state r x policies messages)))
     (ls_sink (snd (run_loop A (initial_state r x policies messages))))"
proof -
  from run_loop_trace [of A "initial_state r x policies messages"] show ?thesis
    by (auto simp: initial_state_def)
qed

lemma subseq_set: "subseq xs ys \<Longrightarrow> set xs \<subseteq> set ys"
  by (induction rule: list_emb.induct) auto

lemma subseq_sorted_wrt: "subseq xs ys \<Longrightarrow> sorted_wrt P ys \<Longrightarrow> sorted_wrt P xs"
  by (induction rule: list_emb.induct) (auto dest: subseq_set)

text \<open>
  A run completes at most one model call per turn, in strictly increasing turn order and only on
  turns below the limit, so at most \<open>max_turns\<close> completions are paid for.
\<close>

theorem one_completion_per_turn:
  "sorted_wrt (<) (assistant_turns (ls_sink (snd (run_loop A (initial_state r x policies messages)))))
   \<and> list_all (\<lambda>t. t < ll_max_turns (ag_limits A))
       (assistant_turns (ls_sink (snd (run_loop A (initial_state r x policies messages)))))
   \<and> length (assistant_turns (ls_sink (snd (run_loop A (initial_state r x policies messages)))))
       \<le> ll_max_turns (ag_limits A)"
proof -
  let ?ts = "assistant_turns (ls_sink (snd (run_loop A (initial_state r x policies messages))))"
  have sub: "subseq ?ts [0..<ll_max_turns (ag_limits A)]"
    using run_loop_trace [of A "initial_state r x policies messages"]
    by (auto simp: initial_state_def)
  have "sorted_wrt (<) ?ts"
    by (rule subseq_sorted_wrt [OF sub sorted_wrt_upt])
  moreover have "list_all (\<lambda>t. t < ll_max_turns (ag_limits A)) ?ts"
    using subseq_set [OF sub] by (auto simp: list_all_iff)
  moreover have "length ?ts \<le> ll_max_turns (ag_limits A)"
    using list_emb_length [OF sub] by simp
  ultimately show ?thesis by blast
qed

section \<open>Every tool result answers a call\<close>

definition call_ids :: "tool_call_req list \<Rightarrow> string set" where
  "call_ids calls = set (map tc_id calls)"

text \<open>Reading a conversation left to right, every tool message must name the id of a tool call that
  an earlier message made; \<open>known\<close> holds the ids seen so far.\<close>

fun paired :: "string set \<Rightarrow> chat_message list \<Rightarrow> bool" where
  "paired known [] = True"
| "paired known (m # ms) \<longleftrightarrow>
     (if cm_role m = ''tool'' then (case cm_tool_call_id m of None \<Rightarrow> False | Some i \<Rightarrow> i \<in> known) else True)
     \<and> paired (known \<union> call_ids (cm_tool_calls m)) ms"

definition ids_of :: "chat_message list \<Rightarrow> string set" where
  "ids_of ms = (\<Union>m \<in> set ms. call_ids (cm_tool_calls m))"

lemma ids_of_simps [simp]:
  "ids_of [] = {}" "ids_of (m # ms) = call_ids (cm_tool_calls m) \<union> ids_of ms"
  "ids_of (ms @ ns) = ids_of ms \<union> ids_of ns"
  by (auto simp: ids_of_def)

lemma call_ids_Nil [simp]: "call_ids [] = {}"
  by (simp add: call_ids_def)

lemma paired_append [simp]:
  "paired known (ms @ ns) \<longleftrightarrow> paired known ms \<and> paired (known \<union> ids_of ms) ns"
  by (induction ms arbitrary: known) (auto simp: Un_assoc)

lemma paired_frames: "map frame_of ms = map frame_of ns \<Longrightarrow> paired known ms \<longleftrightarrow> paired known ns"
proof (induction ms arbitrary: ns known)
  case (Cons m ms)
  then obtain n ns' where "ns = n # ns'" "frame_of m = frame_of n" "map frame_of ms = map frame_of ns'"
    by (cases ns) auto
  with Cons.IH [OF this(3)] show ?case by (simp add: frame_of_def)
qed simp

lemma trim_frames:
  "map frame_of (fst (trim_tool_history J ms tools target)) = map frame_of ms"
  using trim_loop_frame [of target "estimate_tokens J ms tools" "take (length ms - 2) ms"]
  by (simp add: trim_front) (metis append_take_drop_id map_append)

lemma trim_action_paired:
  "paired known (tx_messages c) \<Longrightarrow>
   paired known (tx_messages (trim_action J base turn name target conv c))"
  using paired_frames [OF trim_frames, of known J "tx_messages c" base target]
  by (auto simp: trim_action_def Let_def split_def tx_push_def tx_narrow_def tx_record_def
      split: option.split)

lemma before_action_paired:
  "paired known (tx_messages c) \<Longrightarrow>
   paired known (tx_messages (before_action J base turn name c a))"
  by (cases a) (auto simp: trim_action_paired tx_push_def tx_narrow_def tx_record_def)

lemma before_actions_paired:
  "paired known (tx_messages c) \<Longrightarrow>
   paired known (tx_messages (foldl (before_action J base turn name) c as))"
  by (induction as arbitrary: c) (auto simp: before_action_paired)

lemma before_policies_paired:
  "paired known (tx_messages c) \<Longrightarrow>
   paired known (tx_messages (snd (before_policies A turn stats ps c)))"
  by (induction ps arbitrary: c) (auto simp: Let_def split_def before_actions_paired)

lemma begin_turn_paired:
  "paired known (ls_messages s) \<Longrightarrow> paired known (ls_messages (snd (begin_turn A turn s)))"
  by (simp add: begin_turn_def Let_def split_def before_policies_paired)

lemma after_actions_messages:
  "\<exists>ts. ac_messages (foldl (after_action turn name) c as) = ac_messages c @ map user_message ts"
proof (induction as arbitrary: c)
  case Nil
  show ?case by (auto intro: exI [of _ "[]"])
next
  case (Cons a as)
  have "\<exists>ts. ac_messages (after_action turn name c a) = ac_messages c @ map user_message ts"
    by (cases a) (auto intro: exI [of _ "[]"] exI [of _ "[t]" for t])
  with Cons [of "after_action turn name c a"] show ?case
    by (auto simp flip: map_append)
qed

lemma after_policies_messages:
  "\<exists>ts. ac_messages (snd (after_policies A turn conv x out ps c)) = ac_messages c @ map user_message ts"
proof (induction ps arbitrary: c)
  case Nil
  show ?case by (auto intro: exI [of _ "[]"])
next
  case (Cons p ps)
  then show ?case
    by (simp add: Let_def split_def)
       (metis (no_types, lifting) after_actions_messages append.assoc map_append)
qed

lemma paired_users [simp]: "paired known (map user_message ts)"
  by (induction ts) auto

lemma conclude_turn_messages:
  "\<exists>ts. ls_messages (snd (conclude_turn A turn conv out s)) = ls_messages s @ map user_message ts"
  using after_policies_messages [of A turn conv "ls_world s" out "ls_policies s"]
  by (simp add: conclude_turn_def finish_turn_def Let_def split_def split: option.split)
     (metis (no_types, lifting) after_ctx.select_convs(1))

lemma paired_answers:
  "call_ids (map cr_call rs) \<subseteq> known \<Longrightarrow> paired known (answers rs)"
  by (induction rs) (auto simp: call_ids_def split: tool_outcome.split)

lemma call_ids_take: "call_ids (take n calls) \<subseteq> call_ids calls"
  by (auto simp: call_ids_def dest: in_set_takeD)

lemma run_tools_paired:
  assumes "run_tools A turn c offered m s = (res, s')"
    and "paired {} (ls_messages s)" "call_ids (cm_tool_calls m) \<subseteq> ids_of (ls_messages s)"
  shows "paired {} (ls_messages s')"
  using assms(1)
proof (cases rule: run_tools_cases)
  case (batch_fails e rx)
  then show ?thesis using assms(2) by simp
next
  case (calls batch rx err cc rx')
  from run_calls_accumulates [OF calls(2)] obtain rs where rs:
    "cc_messages cc = ls_messages s @ answers rs"
    "map cr_call rs = take (length rs) (cm_tool_calls m)"
    by (auto simp: start_calls_def split: if_splits) (metis length_map map_snd_enumerate take_all_iff order_refl)+
  have "call_ids (map cr_call rs) \<subseteq> ids_of (ls_messages s)"
    using assms(3) call_ids_take unfolding rs(2) by blast
  then have p: "paired {} (cc_messages cc)"
    using assms(2) by (simp add: rs(1) paired_answers)
  show ?thesis
  proof (cases err)
    case (Some e)
    with calls p show ?thesis by (simp add: after_calls_def)
  next
    case None
    with calls p conclude_turn_messages [of A turn "tx_converging c" "outcome_of m cc" "after_calls cc rx' s"]
    show ?thesis by (auto simp: after_calls_def dest!: arg_cong [where f = snd])
  qed
qed

lemma run_turn_paired:
  assumes "run_turn A turn s = (res, s')" "paired {} (ls_messages s)"
  shows "paired {} (ls_messages s')"
proof -
  obtain c s1 where b: "begin_turn A turn s = (c, s1)" by (rule prod.exhaust)
  have p1: "paired {} (ls_messages s1)" using begin_turn_paired [OF assms(2), of A turn] b by simp
  show ?thesis
  proof (cases "tx_force_finish c")
    case True
    with assms b p1 show ?thesis by (simp add: run_turn_def)
  next
    case False
    define offered where "offered = view (ag_tools A) (tx_filter c)"
    obtain cmp r x where m: "call_model A turn (turn_request A (ls_messages s1) (view_specs offered))
        (ls_rt s1, ls_world s1) = (cmp, (r, x))" by (metis prod.exhaust)
    have a: "after_completion A turn c offered cmp (s1\<lparr>ls_rt := r, ls_world := x\<rparr>) = (res, s')"
      using assms b False m by (simp add: run_turn_def Let_def offered_def)
    show ?thesis
    proof (cases cmp)
      case (Inl e)
      with a p1 show ?thesis by (auto simp: after_completion_def Let_def split: if_splits)
    next
      case (Inr t)
      show ?thesis
      proof (cases "at_tool_calls t = []")
        case True
        with a p1 Inr show ?thesis by (auto simp: after_completion_def Let_def)
      next
        case False
        with a Inr obtain s3 where s3: "run_tools A turn c offered (assistant_message t) s3 = (res, s')"
          "ls_messages s3 = ls_messages s1 @ [assistant_message t]"
          by (auto simp: after_completion_def Let_def)
        show ?thesis
          by (rule run_tools_paired [OF s3(1)]) (simp_all add: s3(2) p1)
      qed
    qed
  qed
qed

lemma run_turns_paired:
  "paired {} (ls_messages s) \<Longrightarrow> paired {} (ls_messages (snd (run_turns A turns s)))"
proof (induction turns arbitrary: s)
  case (Cons turn rest)
  obtain r s1 where t: "run_turn A turn s = (r, s1)" by (rule prod.exhaust)
  from Cons.IH [OF run_turn_paired [OF t Cons.prems]] run_turn_paired [OF t Cons.prems]
  show ?case by (auto simp: t split: sum.split turn_flow.split)
qed simp

text \<open>
  In the conversation a run builds from a system prompt and user messages, whatever the
  policies inject or trim, every tool message carries the id of a tool call that an earlier
  assistant message made.
\<close>

theorem tool_results_answer_calls:
  "paired {} (ls_messages (snd (run_loop A
      (initial_state r x policies (system_message prompt # map user_message inputs)))))"
proof -
  let ?s = "initial_state r x policies (system_message prompt # map user_message inputs)"
  have "paired {} (ls_messages ?s)" by (simp add: initial_state_def message_defs)
  from run_turns_paired [OF this, of A "[0..<ll_max_turns (ag_limits A)]"] show ?thesis
    by (auto simp: run_loop_def exhausted_tail_def Let_def split_def split: sum.split option.split)
qed

section \<open>The circuit breaker\<close>

lemma before_action_force:
  "tx_force_finish (before_action J base turn name c a) \<longleftrightarrow> tx_force_finish c \<or> is_force_finish a"
  by (cases a) (auto simp: is_force_finish_def trim_action_def tx_narrow_def tx_push_def tx_record_def
      Let_def split_def split: option.split)

lemma before_actions_force:
  "tx_force_finish (foldl (before_action J base turn name) c as) \<longleftrightarrow>
     tx_force_finish c \<or> list_ex is_force_finish as"
  by (induction as arbitrary: c) (auto simp: before_action_force)

definition never_forces :: "('p, 'x) policy_ops \<Rightarrow> bool" where
  "never_forces ops \<longleftrightarrow> (\<forall>p st. \<not> list_ex is_force_finish (fst (po_before ops p st)))"

lemma before_policies_force:
  "never_forces (ag_ops A) \<Longrightarrow>
   tx_force_finish (snd (before_policies A turn stats ps c)) \<longleftrightarrow> tx_force_finish c"
  by (induction ps arbitrary: c) (auto simp: Let_def split_def before_actions_force never_forces_def)

lemma begin_turn_force: "never_forces (ag_ops A) \<Longrightarrow> \<not> tx_force_finish (fst (begin_turn A turn s))"
  by (simp add: begin_turn_def Let_def split_def before_policies_force)

lemma begin_turn_keeps:
  "ls_consecutive_failures (snd (begin_turn A turn s)) = ls_consecutive_failures s"
  "ls_rt (snd (begin_turn A turn s)) = ls_rt s" "ls_world (snd (begin_turn A turn s)) = ls_world s"
  by (simp_all add: begin_turn_def Let_def split_def)

text \<open>A model that is down: every request fails with the same transient error; the world counts the
  requests.\<close>

definition model_down :: "step_error \<Rightarrow> ('p, 'r, nat) agent \<Rightarrow> bool" where
  "model_down e A \<longleftrightarrow> is_transient e \<and> ag_step A = passthrough_step
     \<and> ag_model A = (\<lambda>request n. (Inl e, n + 1)) \<and> never_forces (ag_ops A)"

lemma run_turn_down:
  assumes "model_down e A"
  shows "\<exists>s'. run_turn A turn s =
           ((if ll_circuit_breaker_threshold (ag_limits A) > 0
               \<and> ls_consecutive_failures s + 1 \<ge> ll_circuit_breaker_threshold (ag_limits A)
             then Inl e else Inr FlowContinue), s')
         \<and> ls_world s' = ls_world s + 1
         \<and> ls_consecutive_failures s' = ls_consecutive_failures s + 1"
proof -
  have down: "is_transient e" "ag_step A = passthrough_step" "never_forces (ag_ops A)"
    "ag_model A = (\<lambda>request n. (Inl e, n + 1))"
    using assms by (simp_all add: model_down_def)
  show ?thesis
    using begin_turn_force [OF down(3), of turn s]
    by (simp add: run_turn_def Let_def split_def begin_turn_keeps call_model_def passthrough_step_def
        model_effect_def down after_completion_def)
qed

lemma run_turns_down:
  assumes "model_down e A"
    and "ll_circuit_breaker_threshold (ag_limits A) = 0
         \<or> ls_consecutive_failures s < ll_circuit_breaker_threshold (ag_limits A)"
  defines "k \<equiv> ll_circuit_breaker_threshold (ag_limits A) - ls_consecutive_failures s"
  shows "fst (run_turns A turns s) =
           (if 0 < ll_circuit_breaker_threshold (ag_limits A) \<and> k \<le> length turns then Inl e else Inr None)
       \<and> ls_world (snd (run_turns A turns s)) = ls_world s +
           (if 0 < ll_circuit_breaker_threshold (ag_limits A) then min k (length turns) else length turns)"
  using assms(2) unfolding k_def
proof (induction turns arbitrary: s)
  case Nil
  then show ?case by auto
next
  case (Cons turn rest)
  from run_turn_down [OF assms(1), of turn s] obtain s' where s': "run_turn A turn s =
           ((if ll_circuit_breaker_threshold (ag_limits A) > 0
               \<and> ls_consecutive_failures s + 1 \<ge> ll_circuit_breaker_threshold (ag_limits A)
             then Inl e else Inr FlowContinue), s')"
    "ls_world s' = ls_world s + 1" "ls_consecutive_failures s' = ls_consecutive_failures s + 1"
    by blast
  show ?case using Cons.IH [of s'] Cons.prems s' by (auto simp: min_def)
qed

text \<open>
  When the model is down, the circuit breaker stops the run with the model's own error after
  exactly \<open>circuit_breaker_threshold\<close> requests; with the breaker off (zero) or a threshold beyond
  the turn limit, the run ends Exhausted after one request per turn.
\<close>

theorem circuit_breaker_trips:
  assumes "model_down e A"
  shows "(fst (run_loop A (initial_state r x policies messages)),
          ls_world (snd (run_loop A (initial_state r x policies messages)))) =
         (let k = ll_circuit_breaker_threshold (ag_limits A); n = ll_max_turns (ag_limits A)
          in if 0 < k \<and> k \<le> n then (Inl e, x + k) else (Inr Exhausted, x + n))"
proof -
  let ?s = "initial_state r x policies messages"
  have s: "ls_consecutive_failures ?s = 0" "ls_world ?s = x" by (simp_all add: initial_state_def)
  have "ll_circuit_breaker_threshold (ag_limits A) = 0
        \<or> ls_consecutive_failures ?s < ll_circuit_breaker_threshold (ag_limits A)"
    by (auto simp: s)
  from run_turns_down [OF assms this, of "[0..<ll_max_turns (ag_limits A)]"] s show ?thesis
    by (auto simp: run_loop_def exhausted_tail_def Let_def split_def split: sum.split option.split)
qed

theorem circuit_breaker_trips_witness:
  "fst (run_loop (bare_agent passthrough_step (\<lambda>_ n. (Inl (Transient ''down'' None), n + 1)) []
          (loop_limits_default\<lparr>ll_circuit_breaker_threshold := 5\<rparr>))
        (initial_state () (0 :: nat) [] [user_message ''review''])) = Inl (Transient ''down'' None)"
proof -
  let ?A = "bare_agent passthrough_step (\<lambda>_ n. (Inl (Transient ''down'' None), n + 1)) []
              (loop_limits_default\<lparr>ll_circuit_breaker_threshold := 5\<rparr>) :: (unit, unit, nat) agent"
  have "model_down (Transient ''down'' None) ?A"
    by (simp add: model_down_def never_forces_def no_policy_ops_def)
  from circuit_breaker_trips [OF this, of "()" 0 "[]" "[user_message ''review'']"]
  show ?thesis by (simp add: loop_limits_default_def)
qed

section \<open>Filters advise, guards enforce\<close>

lemma read_indices_unguarded: "read_indices reg False offered calls = read_indices reg False offered' calls"
  by (simp add: read_indices_def)

lemma call_outcome_unguarded:
  "call_outcome A turn False offered batched i call rx = call_outcome A turn False offered' batched i call rx"
  by (simp add: call_outcome_def)

lemma run_calls_unguarded:
  "run_calls A turn False offered batched calls c rx = run_calls A turn False offered' batched calls c rx"
proof (induction calls arbitrary: c rx)
  case (Cons ic rest)
  then show ?case
    by (cases ic) (simp add: call_outcome_unguarded [of A turn offered batched _ _ rx offered']
        split: prod.split sum.split)
qed simp

text \<open>
  On a turn where no policy emitted \<open>GuardOffered\<close>, the tools offered to the model do not
  restrict what it can run: the outcome of the turn's calls is the same for any offered set. Narrowing
  a filter only changes what is advertised.
\<close>

theorem unguarded_filter_is_advisory:
  "run_tools A turn (c\<lparr>tx_guard_offered := False\<rparr>) offered m s =
   run_tools A turn (c\<lparr>tx_guard_offered := False\<rparr>) offered' m s"
  by (simp add: run_tools_def dispatch_view_def Let_def read_indices_unguarded [of _ offered _ offered']
      run_calls_unguarded [of _ _ offered _ _ _ _ offered'] split: prod.split sum.split)

text \<open>A tool outside the offered set, with its implementation replaced by \<open>h\<close>.\<close>

definition swap_unoffered ::
  "turn_filter \<Rightarrow> (tool_call_req \<Rightarrow> 'x \<Rightarrow> tool_outcome \<times> 'x) \<Rightarrow> 'x tool \<Rightarrow> 'x tool" where
  "swap_unoffered f h t = (if offers f t then t else t\<lparr>t_call := h\<rparr>)"

definition swap_tools ::
  "turn_filter \<Rightarrow> (tool_call_req \<Rightarrow> 'x \<Rightarrow> tool_outcome \<times> 'x) \<Rightarrow> ('p, 'r, 'x) agent \<Rightarrow> ('p, 'r, 'x) agent" where
  "swap_tools f h A = A\<lparr>ag_tools := map (swap_unoffered f h) (ag_tools A)\<rparr>"

lemma swap_keeps [simp]:
  "tool_name (swap_unoffered f h t) = tool_name t" "t_kind (swap_unoffered f h t) = t_kind t"
  "t_replay (swap_unoffered f h t) = t_replay t" "t_spec (swap_unoffered f h t) = t_spec t"
  by (simp_all add: swap_unoffered_def)

lemma swap_tools_simps [simp]:
  "ag_tools (swap_tools f h A) = map (swap_unoffered f h) (ag_tools A)"
  "ag_step (swap_tools f h A) = ag_step A" "ag_ops (swap_tools f h A) = ag_ops A"
  "ag_limits (swap_tools f h A) = ag_limits A" "ag_renderer (swap_tools f h A) = ag_renderer A"
  "ag_schedule (swap_tools f h A) = ag_schedule A"
  by (simp_all add: swap_tools_def)

lemma find_map_swap:
  "find_tool (map (swap_unoffered f h) reg) n = map_option (swap_unoffered f h) (find_tool reg n)"
  by (induction reg) (auto simp: find_tool_def)

lemma swap_lookup [simp]:
  "tool_kind_of (map (swap_unoffered f h) reg) n = tool_kind_of reg n"
  "tool_replay_of (map (swap_unoffered f h) reg) n = tool_replay_of reg n"
  by (simp_all add: tool_kind_of_def tool_replay_of_def find_map_swap option.map_comp comp_def)

lemma view_all: "view reg filter_all = reg"
  by (simp add: view_def filter_True offers_def filter_all_def)

lemma swap_counts [simp]:
  "read_indices (map (swap_unoffered f h) reg) g offered calls = read_indices reg g offered calls"
  "call_stats (map (swap_unoffered f h) reg) indices calls stats = call_stats reg indices calls stats"
  by (simp_all add: read_indices_def call_stats_def count_call_def [abs_def])

lemma swap_policy_state [simp]: "policy_turn_state (swap_tools f h A) = policy_turn_state A"
  by (intro ext) (simp add: policy_turn_state_def base_specs_def view_all view_specs_def comp_def)

lemma swap_after [simp]:
  "after_policies (swap_tools f h A) turn conv x out ps c = after_policies A turn conv x out ps c"
  by (induction ps arbitrary: c) simp_all

lemma swap_conclude [simp]: "conclude_turn (swap_tools f h A) turn conv out s = conclude_turn A turn conv out s"
  by (simp add: conclude_turn_def finish_turn_def Let_def split_def split: option.split)

lemma swap_write_effect:
  assumes "distinct (map tool_name (ag_tools A))"
    and "offers_name (view (ag_tools A) f) (call_name call)"
  shows "write_effect (swap_tools f h A) call = write_effect A call"
proof -
  obtain t where t: "t \<in> set (ag_tools A)" "offers f t" "tool_name t = call_name call"
    using assms(2) by (auto simp: offers_name_def view_specs_def view_def list_ex_iff)
  then have "find_tool (ag_tools A) (call_name call) = Some t"
    using find_tool_registered [OF assms(1), of t] by simp
  moreover from this have "find_tool (ag_tools (swap_tools f h A)) (call_name call) = Some t"
    using t by (simp add: find_map_swap swap_unoffered_def)
  ultimately show ?thesis
    by (intro ext) (simp add: write_effect_def view_all dispatch_def find_tool_def)
qed

lemma swap_call_outcome:
  assumes "distinct (map tool_name (ag_tools A))"
  shows "call_outcome (swap_tools f h A) turn True (view (ag_tools A) f) batched i call rx =
         call_outcome A turn True (view (ag_tools A) f) batched i call rx"
  using swap_write_effect [OF assms, of f call h]
  by (auto simp: call_outcome_def split: option.split)

lemma swap_run_calls:
  assumes "distinct (map tool_name (ag_tools A))"
  shows "run_calls (swap_tools f h A) turn True (view (ag_tools A) f) batched calls c rx =
         run_calls A turn True (view (ag_tools A) f) batched calls c rx"
proof (induction calls arbitrary: c rx)
  case (Cons ic rest)
  then show ?case
    by (cases ic) (simp add: swap_call_outcome [OF assms] note_outcome_def split: prod.split sum.split)
qed simp

text \<open>
  C32. On a guarded turn a tool outside the offered set is never executed, batched or not. In a registry that
  names each tool once (registration refuses a second tool of a name), replacing
  the implementations of all such tools by anything else leaves the turn's calls, their outcomes,
  the conversation, the journal and the world unchanged.
\<close>

theorem guarded_turn_runs_only_offered_tools:
  assumes "distinct (map tool_name (ag_tools A))"
  shows "run_tools (swap_tools f h A) turn (c\<lparr>tx_guard_offered := True\<rparr>) (view (ag_tools A) f) m s
       = run_tools A turn (c\<lparr>tx_guard_offered := True\<rparr>) (view (ag_tools A) f) m s"
  by (simp add: run_tools_def run_batch_def batch_effect_def [abs_def] dispatch_view_def Let_def
      swap_run_calls [OF assms] split: prod.split sum.split option.split)

theorem guarded_turn_runs_only_offered_tools_witness:
  "\<exists>A :: (unit, unit, nat) agent. list_ex (\<lambda>t. \<not> offers (without_kind filter_all WriteK) t) (ag_tools A)
     \<and> (\<forall>c m s. run_tools (swap_tools (without_kind filter_all WriteK) (\<lambda>c n. (Abort ''bad'', n + 1)) A) 0
           (c\<lparr>tx_guard_offered := True\<rparr>) (view (ag_tools A) (without_kind filter_all WriteK)) m s
         = run_tools A 0 (c\<lparr>tx_guard_offered := True\<rparr>)
             (view (ag_tools A) (without_kind filter_all WriteK)) m s)"
proof -
  let ?A = "bare_agent passthrough_step (\<lambda>_ n. (Inl (Transient ''down'' None), n))
     [sample_tool ''read'' (ReadOnlyK File) ReplayReadOnly, sample_tool ''post'' WriteK Idempotent]
     loop_limits_default :: (unit, unit, nat) agent"
  have d: "distinct (map tool_name (ag_tools ?A))" by simp
  show ?thesis
    by (rule exI [of _ ?A])
      (use guarded_turn_runs_only_offered_tools [OF d] in
        \<open>simp add: offers_def without_kind_def filter_all_def\<close>)
qed

section \<open>Batches\<close>

lemma concat_chunks: "0 < n \<Longrightarrow> concat (chunks n xs) = xs"
proof (induction n xs rule: chunks.induct)
  case (1 n xs)
  then show ?case by (subst chunks.simps) auto
qed

lemma chunk_bound: "0 < n \<Longrightarrow> c \<in> set (chunks n xs) \<Longrightarrow> length c \<le> n"
proof (induction n xs rule: chunks.induct)
  case (1 n xs)
  then show ?case by (subst (asm) (2) chunks.simps) (auto split: if_splits)
qed

lemma run_in_order_append:
  "run_in_order renderer dview calls (is @ js) x =
     (let (a, x') = run_in_order renderer dview calls is x;
          (b, x'') = run_in_order renderer dview calls js x'
      in (a @ b, x''))"
  by (induction "is" arbitrary: x) (simp_all add: split_def Let_def)

lemma mset_scheduled: "mset (scheduled sched x chunk) = mset chunk"
proof (cases "sort (sched x chunk) = sort chunk")
  case True
  then have "mset (sched x chunk) = mset chunk" by (metis mset_sort)
  then show ?thesis by (simp add: scheduled_def Let_def)
qed (simp add: scheduled_def Let_def)

text \<open>
  Calls that do not influence one another: running one changes neither what another answers nor, in
  the end, the world the two leave.
\<close>

definition call_answer :: "'x tool list \<Rightarrow> tool_call_req list \<Rightarrow> nat \<Rightarrow> 'x \<Rightarrow> dispatch_result" where
  "call_answer dview calls i x = fst (dispatch dview (calls ! i) x)"

definition call_world :: "'x tool list \<Rightarrow> tool_call_req list \<Rightarrow> nat \<Rightarrow> 'x \<Rightarrow> 'x" where
  "call_world dview calls i x = snd (dispatch dview (calls ! i) x)"

definition independent_calls :: "'x tool list \<Rightarrow> tool_call_req list \<Rightarrow> nat set \<Rightarrow> bool" where
  "independent_calls dview calls I \<longleftrightarrow> (\<forall>i\<in>I. \<forall>j\<in>I. \<forall>x. i \<noteq> j \<longrightarrow>
     call_answer dview calls i (call_world dview calls j x) = call_answer dview calls i x
     \<and> call_world dview calls i (call_world dview calls j x) = call_world dview calls j (call_world dview calls i x))"

lemma run_in_order_world: "snd (run_in_order renderer dview calls is x) = fold (call_world dview calls) is x"
  by (induction "is" arbitrary: x) (simp_all add: split_def Let_def call_world_def)

lemma independent_fold:
  assumes "independent_calls dview calls I" "set is \<subseteq> I" "i \<in> I" "i \<notin> set is"
  shows "call_answer dview calls i (fold (call_world dview calls) is x) = call_answer dview calls i x"
  using assms(2,4)
proof (induction "is" arbitrary: x)
  case (Cons j js)
  then have "call_answer dview calls i (call_world dview calls j x) = call_answer dview calls i x"
    using assms(1,3) by (auto simp: independent_calls_def)
  with Cons show ?case by simp
qed simp

lemma independent_run:
  assumes "independent_calls dview calls I" "set is \<subseteq> I" "distinct is"
  shows "fst (run_in_order renderer dview calls is x) =
           map (\<lambda>i. (i, render_dispatch (call_answer dview calls i x) renderer)) is"
  using assms(2,3)
proof (induction "is" rule: rev_induct)
  case (snoc i js)
  have "fst (dispatch dview (calls ! i) (fold (call_world dview calls) js x)) = call_answer dview calls i x"
    using independent_fold [OF assms(1), of js i x] snoc.prems by (simp add: call_answer_def)
  with snoc show ?case by (simp add: run_in_order_append split_def Let_def run_in_order_world)
qed simp

lemma independent_world:
  assumes "independent_calls dview calls I" "set js \<subseteq> I" "mset is = mset js"
  shows "fold (call_world dview calls) is = fold (call_world dview calls) js"
proof (rule fold_multiset_equiv [OF _ assms(3)])
  fix i j assume "i \<in> set is" "j \<in> set is"
  then have "i \<in> I" "j \<in> I" using assms(2) mset_eq_setD [OF assms(3)] by auto
  then show "call_world dview calls i \<circ> call_world dview calls j = call_world dview calls j \<circ> call_world dview calls i"
    using assms(1) by (cases "i = j") (auto simp: independent_calls_def fun_eq_iff)
qed

lemma independent_chunk:
  assumes "independent_calls dview calls I" "set chunk \<subseteq> I" "distinct chunk"
  shows "run_chunk sched renderer dview calls chunk x =
     (map (\<lambda>i. (i, render_dispatch (call_answer dview calls i x) renderer)) chunk, fold (call_world dview calls) chunk x)"
proof -
  let ?o = "scheduled sched x chunk"
  let ?f = "\<lambda>i. render_dispatch (call_answer dview calls i x) renderer"
  have o: "set ?o = set chunk" "distinct ?o"
    using mset_eq_setD [OF mset_scheduled] mset_eq_imp_distinct_iff [OF mset_scheduled] assms(3) by metis+
  have run: "run_in_order renderer dview calls ?o x = (map (\<lambda>i. (i, ?f i)) ?o, fold (call_world dview calls) chunk x)"
    using independent_run [OF assms(1), of ?o renderer x] o assms(2) run_in_order_world [of renderer dview calls ?o x]
      independent_world [OF assms(1,2) mset_scheduled, of sched x] by (metis prod.collapse)
  have "map_of (map (\<lambda>i. (i, ?f i)) ?o) i = Some (?f i)" if "i \<in> set chunk" for i
    using that o(1) by (simp add: map_of_map_restrict)
  then show ?thesis by (simp add: run_chunk_def run)
qed

lemma independent_chunks:
  assumes "independent_calls dview calls I"
  shows "set (concat cs) \<subseteq> I \<Longrightarrow> distinct (concat cs) \<Longrightarrow> run_chunks sched renderer dview calls cs x =
     (map (\<lambda>i. (i, render_dispatch (call_answer dview calls i x) renderer)) (concat cs),
      fold (call_world dview calls) (concat cs) x)"
proof (induction cs arbitrary: x)
  case (Cons c cs)
  let ?y = "fold (call_world dview calls) c x"
  have chunk: "run_chunk sched renderer dview calls c x =
     (map (\<lambda>i. (i, render_dispatch (call_answer dview calls i x) renderer)) c, ?y)"
    by (rule independent_chunk [OF assms]) (use Cons.prems in auto)
  have same: "call_answer dview calls i ?y = call_answer dview calls i x" if "i \<in> set (concat cs)" for i
    by (rule independent_fold [OF assms]) (use that Cons.prems in auto)
  have "run_chunks sched renderer dview calls cs ?y =
     (map (\<lambda>i. (i, render_dispatch (call_answer dview calls i ?y) renderer)) (concat cs),
      fold (call_world dview calls) (concat cs) ?y)"
    using Cons.prems by (intro Cons.IH) auto
  with chunk same show ?case by simp
qed simp

lemma distinct_read_indices: "distinct (read_indices reg guard offered calls)"
  unfolding read_indices_def by (intro distinct_map_filter) (simp add: enumerate_eq_zip)

text \<open>
  C40. The reads of a turn may run concurrently: if they do not influence one another, the batch
  answers every read with what it would answer alone in the world the batch starts in, labelled with
  its own index and in call order, and leaves the world that running them one by one leaves, for every
  batch size (zero included) and every order in which the scheduler lets the calls of a chunk act; and
  no chunk holds more than \<open>max(1, max_batch_size)\<close> calls. A call is one atomic action of the model.
\<close>

theorem concurrent_reads_are_sequential:
  assumes "independent_calls dview calls (set (read_indices reg guard offered calls))"
  shows "batch_effect A dview calls (read_indices reg guard offered calls) x =
     (Inr (BatchValue (map (\<lambda>i. (i, render_dispatch (fst (dispatch dview (calls ! i) x)) (ag_renderer A)))
              (read_indices reg guard offered calls))),
      fold (\<lambda>i y. snd (dispatch dview (calls ! i) y)) (read_indices reg guard offered calls) x)
   \<and> list_all (\<lambda>c. length c \<le> max 1 (ll_max_batch_size (ag_limits A)))
       (chunks (max (ll_max_batch_size (ag_limits A)) 1) (read_indices reg guard offered calls))"
proof -
  let ?is = "read_indices reg guard offered calls"
  let ?cs = "chunks (max (ll_max_batch_size (ag_limits A)) 1) ?is"
  have c: "concat ?cs = ?is" by (rule concat_chunks) simp
  have "run_chunks (ag_schedule A) (ag_renderer A) dview calls ?cs x =
     (map (\<lambda>i. (i, render_dispatch (call_answer dview calls i x) (ag_renderer A))) ?is, fold (call_world dview calls) ?is x)"
    using independent_chunks [OF assms, of ?cs] by (simp only: c distinct_read_indices subset_refl simp_thms)
  then show ?thesis
    by (auto simp: batch_effect_def call_answer_def call_world_def [abs_def] list_all_iff max.commute
        dest: chunk_bound [rotated])
qed

definition sample_call :: "string \<Rightarrow> string \<Rightarrow> tool_call_req" where
  "sample_call i name = \<lparr>tc_id = i, tc_kind = ''function'',
     tc_function = \<lparr>fc_name = name, fc_arguments = ''{}''\<rparr>, tc_extra = None\<rparr>"

definition echo_tool :: "nat tool" where
  "echo_tool = (sample_tool ''read'' (ReadOnlyK File) ReplayReadOnly)\<lparr>t_call := (\<lambda>c n. (Continue (tc_id c), n + 1))\<rparr>"

lemma dispatch_echo:
  "dispatch [echo_tool] (sample_call i ''read'') n = (Completed (Continue i), n + 1)"
  by (simp add: dispatch_def echo_tool_def sample_call_def find_tool_def sample_tool_def tool_spec_name_def
      tool_spec_function_def)

text \<open>Two reads, run backwards by the scheduler; the world counts the calls.\<close>

theorem concurrent_reads_are_sequential_witness:
  "batch_effect ((bare_agent passthrough_step (\<lambda>_ n. (Inl (Transient ''down'' None), n)) [echo_tool]
       loop_limits_default :: (unit, unit, nat) agent)\<lparr>ag_schedule := (\<lambda>_. rev)\<rparr>)
     [echo_tool] [sample_call ''a'' ''read'', sample_call ''b'' ''read''] [0, 1] 5
   = (Inr (BatchValue [(0, Continue ''a''), (1, Continue ''b'')]), 7)"
proof -
  let ?calls = "[sample_call ''a'' ''read'', sample_call ''b'' ''read'']"
  have i: "read_indices [echo_tool] False [] ?calls = [0, 1]" by code_simp
  have "independent_calls [echo_tool] ?calls (set (read_indices [echo_tool] False [] ?calls))"
    unfolding i by (auto simp: independent_calls_def call_answer_def call_world_def dispatch_echo)
  from concurrent_reads_are_sequential [OF this, of "(bare_agent passthrough_step (\<lambda>_ n. (Inl (Transient ''down'' None), n))
       [echo_tool] loop_limits_default :: (unit, unit, nat) agent)\<lparr>ag_schedule := (\<lambda>_. rev)\<rparr>" 5]
  show ?thesis by (simp add: i dispatch_echo)
qed

end
