(* ===== verification/Replay.thy ===== *)
theory Replay
  imports Loop_Driver
begin

text \<open>
  Resuming a checkpointed run. A worker that crashes is started again with the same conversation and
  policies and with the journal the first attempt left behind. The lemmas of this theory are proved
  for every runtime that satisfies the replay contract: turns that completed before the crash are
  answered from the journal, they touch neither the journal nor the world, and they rebuild exactly
  the state the first attempt had when it went on.
\<close>

section \<open>State moved to another journal and world\<close>

definition moved :: "'r \<Rightarrow> 'y \<Rightarrow> ('p, 'r, 'y) loop_state \<Rightarrow> ('p, 'r, 'y) loop_state" where
  "moved r y s = s\<lparr>ls_rt := r, ls_world := y\<rparr>"

lemma moved_simps [simp]:
  "ls_rt (moved r y s) = r" "ls_world (moved r y s) = y" "ls_policies (moved r y s) = ls_policies s"
  "ls_sink (moved r y s) = ls_sink s" "ls_messages (moved r y s) = ls_messages s"
  "ls_stats (moved r y s) = ls_stats s"
  "ls_consecutive_failures (moved r y s) = ls_consecutive_failures s"
  "ls_context_overflow (moved r y s) = ls_context_overflow s"
  "moved r y (moved q z s) = moved r y s"
  by (simp_all add: moved_def)

definition world_blind :: "('p, 'x) policy_ops \<Rightarrow> bool" where
  "world_blind ops \<longleftrightarrow> (\<forall>x y p st out. po_after ops x p st out = po_after ops y p st out)"

lemma after_policies_blind:
  assumes "world_blind (ag_ops A)"
  shows "after_policies A turn conv x out ps c = after_policies A turn conv y out ps c"
proof (induction ps arbitrary: c)
  case (Cons p ps)
  have "po_after (ag_ops A) x = po_after (ag_ops A) y"
    using assms by (intro ext) (auto simp: world_blind_def)
  with Cons show ?case by simp
qed simp

lemma conclude_turn_moved:
  assumes "world_blind (ag_ops A)"
  shows "conclude_turn A turn conv out (moved r y s) =
         (let (res, s') = conclude_turn A turn conv out s in (res, moved r y s'))"
  using after_policies_blind [OF assms, of turn conv y out _ _ "ls_world s"]
  by (simp add: conclude_turn_def finish_turn_def Let_def split_def moved_def split: option.split)

lemma conclude_turn_keeps:
  "ls_rt (snd (conclude_turn A turn conv out s)) = ls_rt s"
  "ls_world (snd (conclude_turn A turn conv out s)) = ls_world s"
  "ls_consecutive_failures (snd (conclude_turn A turn conv out s)) = ls_consecutive_failures s"
  "ls_context_overflow (snd (conclude_turn A turn conv out s)) = ls_context_overflow s"
  by (simp_all add: conclude_turn_def finish_turn_def Let_def split_def split: option.split)

lemma begin_turn_moved:
  "begin_turn A turn (moved r y s) = (let (c, s1) = begin_turn A turn s in (c, moved r y s1))"
  by (simp add: begin_turn_def Let_def split_def moved_def)

lemma begin_turn_same:
  "ls_consecutive_failures (snd (begin_turn A turn s)) = ls_consecutive_failures s"
  "ls_rt (snd (begin_turn A turn s)) = ls_rt s" "ls_world (snd (begin_turn A turn s)) = ls_world s"
  "ls_context_overflow (snd (begin_turn A turn s)) = ls_context_overflow s"
  by (simp_all add: begin_turn_def Let_def split_def)

section \<open>Clean turns\<close>

text \<open>
  The values the effects of an agent return (model turns, batches of tool outcomes, single tool
  outcomes) all satisfy \<open>ok\<close>: \<open>sound_model\<close> below. A turn is clean when its model call succeeded, or it stopped before the call: it leaves no failure
  count and no overflow flag behind. Failed model calls are not journaled.
\<close>

definition clean :: "('p, 'r, 'x) loop_state \<Rightarrow> bool" where
  "clean s \<longleftrightarrow> ls_consecutive_failures s = 0 \<and> \<not> ls_context_overflow s"

fun clean_prefix :: "('p, 'r, 'x) agent \<Rightarrow> nat list \<Rightarrow> ('p, 'r, 'x) loop_state \<Rightarrow> ('p, 'r, 'x) loop_state option" where
  "clean_prefix A [] s = Some s"
| "clean_prefix A (turn # rest) s =
     (case run_turn A turn s of
        (Inr FlowContinue, s') \<Rightarrow> if clean s' then clean_prefix A rest s' else None
      | _ \<Rightarrow> None)"

definition sound_model :: "(step_value \<Rightarrow> bool) \<Rightarrow> ('p, 'r, 'x) agent \<Rightarrow> bool" where
  "sound_model ok A \<longleftrightarrow>
     (\<forall>request x t x'. ag_model A request x = (Inr t, x') \<longrightarrow> ok (TurnValue t))
     \<and> (\<forall>dview calls indices x v x'. batch_effect A dview calls indices x = (Inr v, x') \<longrightarrow> ok v)
     \<and> (\<forall>call x v x'. write_effect A call x = (Inr v, x') \<longrightarrow> ok v)"

lemma sound_modelI:
  assumes "\<And>request x t x'. ag_model A request x = (Inr t, x') \<Longrightarrow> ok (TurnValue t)"
    and "\<And>b. ok (BatchValue b)" "\<And>v. ok (OutcomeValue v)"
  shows "sound_model ok A"
  using assms(1) unfolding sound_model_def
  by (auto simp: batch_effect_def write_effect_def Let_def assms(2,3) split: prod.splits)

context replaying_runtime
begin

definition runs_on :: "('p, 'r, 'x) agent \<Rightarrow> bool" where
  "runs_on A \<longleftrightarrow> ag_step A = step \<and> sound_model replayable A \<and> world_blind (ag_ops A)"

lemma sound_model_effect: "runs_on A \<Longrightarrow> sound_effect (Llm_turn turn) (model_effect A request)"
  by (auto simp: runs_on_def sound_model_def sound_effect_def model_effect_def
      split: prod.splits sum.splits)

lemma sound_batch_effect: "runs_on A \<Longrightarrow> sound_effect (Tools turn) (batch_effect A dview calls indices)"
  unfolding runs_on_def sound_model_def sound_effect_def
  by (auto, auto simp: batch_effect_def Let_def split: prod.splits)

lemma sound_write_effect: "runs_on A \<Longrightarrow> sound_effect (Write_tool turn i) (write_effect A call)"
  unfolding runs_on_def sound_model_def sound_effect_def
  by (auto, auto simp: write_effect_def Let_def split: prod.splits)

lemma as_turn_Inr: "as_turn res = Inr t \<Longrightarrow> res = Inr (TurnValue t)"
  by (cases res rule: as_turn.cases) auto

lemma as_batch_Inr: "as_batch res = Inr b \<Longrightarrow> res = Inr (BatchValue b)"
  by (cases res rule: as_batch.cases) auto

lemma as_outcome_Inr: "as_outcome res = Inr v \<Longrightarrow> res = Inr (OutcomeValue v)"
  by (cases res rule: as_outcome.cases) auto

text \<open>Each of the three steps of a turn: it grows the journal, and once done it repeats for free.\<close>

lemma call_model_step:
  assumes "runs_on A" "usable r" "call_model A turn request (r, x) = (res, (r', x'))"
  shows "extends r r'"
    and "res = Inr t \<Longrightarrow> extends r' r2 \<Longrightarrow> call_model A turn request' (r2, y) = (Inr t, (r2, y))"
proof -
  obtain out where o: "step (name_type (Llm_turn turn)) (Llm_turn turn) (model_effect A request) (r, x)
      = (out, (r', x'))" "res = as_turn out"
    using assms by (auto simp: call_model_def runs_on_def split: prod.splits)
  show "extends r r'" using step_extends [OF assms(2) sound_model_effect [OF assms(1)] o(1)] .
  assume "res = Inr t" "extends r' r2"
  with o have "step (name_type (Llm_turn turn)) (Llm_turn turn) (model_effect A request) (r, x)
      = (Inr (TurnValue t), (r', x'))" using as_turn_Inr [of out t] by auto
  from step_repeats [OF assms(2) sound_model_effect [OF assms(1)] this \<open>extends r' r2\<close>]
  show "call_model A turn request' (r2, y) = (Inr t, (r2, y))"
    using assms(1) by (simp add: call_model_def runs_on_def)
qed

lemma run_batch_step:
  assumes "runs_on A" "usable r" "run_batch A turn dview calls indices (r, x) = (res, (r', x'))"
  shows "extends r r'"
    and "res = Inr b \<Longrightarrow> extends r' r2 \<Longrightarrow> run_batch A turn dview calls indices (r2, y) = (Inr b, (r2, y))"
proof -
  consider (none) "indices = []" "r' = r" "res = Inr []"
    | (some) out where "indices \<noteq> []" "res = as_batch out"
        "step (name_type (Tools turn)) (Tools turn) (batch_effect A dview calls indices) (r, x) = (out, (r', x'))"
    using assms by (auto simp: run_batch_def runs_on_def split: prod.splits if_splits)
  note cases = this
  show "extends r r'"
  proof (cases rule: cases)
    case none
    with assms show ?thesis by (simp add: extends_refl)
  next
    case some
    from step_extends [OF assms(2) sound_batch_effect [OF assms(1)] some(3)] show ?thesis .
  qed
  assume res: "res = Inr b" and e: "extends r' r2"
  show "run_batch A turn dview calls indices (r2, y) = (Inr b, (r2, y))"
  proof (cases rule: cases)
    case none
    with res show ?thesis by (simp add: run_batch_def)
  next
    case some
    with res have "step (name_type (Tools turn)) (Tools turn) (batch_effect A dview calls indices) (r, x)
        = (Inr (BatchValue b), (r', x'))" using as_batch_Inr [of out b] by auto
    from step_repeats [OF assms(2) sound_batch_effect [OF assms(1)] this e] some(1) assms(1)
    show ?thesis by (simp add: run_batch_def runs_on_def)
  qed
qed

lemma call_outcome_step:
  assumes "runs_on A" "usable r"
    and "call_outcome A turn guard offered batched i call (r, x) = (res, (r', x'))"
  shows "extends r r'"
    and "res = Inr v \<Longrightarrow> extends r' r2 \<Longrightarrow>
         call_outcome A turn guard offered batched i call (r2, y) = (Inr v, (r2, y))"
proof -
  consider (still) "r' = r" "\<And>q z. call_outcome A turn guard offered batched i call (q, z) = (res, (q, z))"
    | (ran) out where "res = as_outcome out"
        "step (name_type (Write_tool turn (tc_id call))) (Write_tool turn (tc_id call))
           (write_effect A call) (r, x) = (out, (r', x'))"
        "\<And>q z. call_outcome A turn guard offered batched i call (q, z) =
           (let (o2, rx) = step OutcomeT (Write_tool turn (tc_id call)) (write_effect A call) (q, z)
            in (as_outcome o2, rx))"
    using assms(1,3)
    by (cases "batched i"; auto simp: call_outcome_def runs_on_def split: prod.splits if_splits)
  note cases = this
  show "extends r r'"
  proof (cases rule: cases)
    case still
    with assms show ?thesis by (simp add: extends_refl)
  next
    case ran
    from step_extends [OF assms(2) sound_write_effect [OF assms(1)] ran(2)] show ?thesis .
  qed
  assume res: "res = Inr v" and e: "extends r' r2"
  show "call_outcome A turn guard offered batched i call (r2, y) = (Inr v, (r2, y))"
  proof (cases rule: cases)
    case still
    with res show ?thesis by simp
  next
    case ran
    with res have "step (name_type (Write_tool turn (tc_id call))) (Write_tool turn (tc_id call))
        (write_effect A call) (r, x) = (Inr (OutcomeValue v), (r', x'))"
      using as_outcome_Inr [of out v] by auto
    from step_repeats [OF assms(2) sound_write_effect [OF assms(1)] this e] ran(3) [of r2 y]
    show ?thesis by simp
  qed
qed

lemma run_calls_step:
  assumes "runs_on A"
  shows "usable r \<Longrightarrow> run_calls A turn guard offered batched calls c (r, x) = (err, c', (r', x')) \<Longrightarrow>
         extends r r' \<and> (\<forall>r2 y. err = None \<longrightarrow> extends r' r2 \<longrightarrow>
            run_calls A turn guard offered batched calls c (r2, y) = (None, c', (r2, y)))"
proof (induction calls arbitrary: c r x)
  case Nil
  then show ?case by (auto simp: extends_refl)
next
  case (Cons ic rest)
  obtain i call where ic: "ic = (i, call)" by (cases ic)
  obtain res r1 x1 where k: "call_outcome A turn guard offered batched i call (r, x) = (res, (r1, x1))"
    by (metis prod.exhaust)
  note first = call_outcome_step [OF assms Cons.prems(1) k]
  show ?case
  proof (cases res)
    case (Inl e)
    with Cons.prems ic k first(1) show ?thesis by auto
  next
    case (Inr v)
    let ?c = "note_outcome A turn call v c"
    have rest: "run_calls A turn guard offered batched rest ?c (r1, x1) = (err, c', (r', x'))"
      using Cons.prems(2) ic k Inr by simp
    have "usable r1" using first(1) by (simp add: extends_def)
    from Cons.IH [OF this rest] have ih: "extends r1 r'"
      "\<And>r2 y. err = None \<Longrightarrow> extends r' r2 \<Longrightarrow>
         run_calls A turn guard offered batched rest ?c (r2, y) = (None, c', (r2, y))" by blast+
    have "run_calls A turn guard offered batched (ic # rest) c (r2, y) = (None, c', (r2, y))"
      if "err = None" "extends r' r2" for r2 y
      using first(2) [OF Inr extends_trans [OF ih(1) that(2)], of y] ih(2) [OF that] ic by simp
    with extends_trans [OF first(1) ih(1)] show ?thesis by blast
  qed
qed

lemma run_tools_step:
  assumes A: "runs_on A" and u: "usable (ls_rt s)"
    and t: "run_tools A turn c offered m s = (Inr flow, s')"
  shows "extends (ls_rt s) (ls_rt s')"
    and "extends (ls_rt s') r2 \<Longrightarrow> run_tools A turn c offered m (moved r2 y s) = (Inr flow, moved r2 y s')"
proof -
  let ?g = "tx_guard_offered c" and ?calls = "cm_tool_calls m" and ?v = "dispatch_view A c offered"
  let ?is = "read_indices (ag_tools A) ?g offered ?calls"
  let ?stats = "call_stats (ag_tools A) ?is ?calls (ls_stats s)"
  obtain batch r1 x1 err cc r3 x3 where
    b: "run_batch A turn ?v ?calls ?is (ls_rt s, ls_world s) = (Inr batch, (r1, x1))" and
    k: "run_calls A turn ?g offered (map_of (rev batch)) (enumerate 0 ?calls)
          (start_calls ?stats s) (r1, x1) = (err, cc, (r3, x3))" and
    d: "(Inr flow, s') = (case err of Some e \<Rightarrow> (Inl e, after_calls cc (r3, x3) s)
         | None \<Rightarrow> conclude_turn A turn (tx_converging c) (outcome_of m cc) (after_calls cc (r3, x3) s))"
    using t
  proof (cases rule: run_tools_cases)
    case (batch_fails e rx)
    then show ?thesis by simp
  next
    case (calls batch rx err cc rx')
    obtain r1 x1 r3 x3 where rx: "rx = (r1, x1)" "rx' = (r3, x3)" by (cases rx, cases rx')
    show ?thesis by (rule that [OF calls [unfolded rx]])
  qed
  have err: "err = None"
    and d': "conclude_turn A turn (tx_converging c) (outcome_of m cc) (after_calls cc (r3, x3) s)
             = (Inr flow, s')"
    using d by (auto split: option.splits)
  have rt: "ls_rt s' = r3"
    using conclude_turn_keeps(1) [of A turn "tx_converging c" "outcome_of m cc" "after_calls cc (r3, x3) s"]
    unfolding d' by (simp add: after_calls_def)
  note batch_step = run_batch_step [OF A u b]
  have "usable r1" using batch_step(1) by (simp add: extends_def)
  note calls_step = run_calls_step [OF A this k]
  show "extends (ls_rt s) (ls_rt s')"
    unfolding rt by (rule extends_trans [OF batch_step(1)]) (use calls_step in blast)
  assume "extends (ls_rt s') r2"
  then have e3: "extends r3 r2" by (simp add: rt)
  have e: "extends r3 r2" "extends r1 r2"
    by (rule e3, rule extends_trans [OF conjunct1 [OF calls_step] e3])
  have "start_calls ?stats (moved r2 y s) = start_calls ?stats s" by (simp add: start_calls_def)
  moreover have "after_calls cc (r2, y) (moved r2 y s) = moved r2 y (after_calls cc (r3, x3) s)"
    by (simp add: after_calls_def moved_def)
  moreover have "run_calls A turn ?g offered (map_of (rev batch)) (enumerate 0 ?calls)
      (start_calls ?stats s) (r2, y) = (None, cc, (r2, y))"
    using calls_step err e by blast
  moreover have "world_blind (ag_ops A)" using A by (simp add: runs_on_def)
  ultimately show "run_tools A turn c offered m (moved r2 y s) = (Inr flow, moved r2 y s')"
    using batch_step(2) [OF refl e(2), of y]
    by (simp add: run_tools_def Let_def conclude_turn_moved d')
qed

lemma run_turn_step:
  assumes A: "runs_on A" and u: "usable (ls_rt s)"
    and t: "run_turn A turn s = (Inr flow, s')" and c: "clean s'"
  shows "extends (ls_rt s) (ls_rt s')
       \<and> (extends (ls_rt s') r2 \<longrightarrow> run_turn A turn (moved r2 y s) = (Inr flow, moved r2 y s'))"
proof -
  obtain c0 s1 where b: "begin_turn A turn s = (c0, s1)" by (rule prod.exhaust)
  have b': "begin_turn A turn (moved r2 y s) = (c0, moved r2 y s1)" by (simp add: begin_turn_moved b)
  have s1: "ls_rt s1 = ls_rt s" using begin_turn_same(2) [of A turn s] b by simp
  show ?thesis
  proof (cases "tx_force_finish c0")
    case True
    with t b b' s1 u show ?thesis by (auto simp: run_turn_def extends_refl)
  next
    case False
    define offered where "offered = view (ag_tools A) (tx_filter c0)"
    define request where "request = turn_request A (ls_messages s1) (view_specs offered)"
    obtain cmp r x where m: "call_model A turn request (ls_rt s1, ls_world s1) = (cmp, (r, x))"
      by (metis prod.exhaust)
    have unfold: "run_turn A turn s = after_completion A turn c0 offered cmp (moved r x s1)"
      using b False m by (simp add: run_turn_def Let_def offered_def request_def moved_def)
    have u1: "usable (ls_rt s1)" using u s1 by simp
    note model_step = call_model_step [OF A u1 m]
    obtain a where a: "cmp = Inr a"
      using t c unfold by (cases cmp) (auto simp: after_completion_def Let_def clean_def split: if_splits)
    have unfold': "run_turn A turn (moved r2 y s) = after_completion A turn c0 offered (Inr a) (moved r2 y s1)"
      if "extends r r2"
      using b' False model_step(2) [OF a that, of request y] by (simp add: run_turn_def Let_def offered_def request_def moved_def)
    show ?thesis
    proof (cases "at_tool_calls a = []")
      case True
      with t unfold a have "ls_rt s' = r"
        by (auto simp: after_completion_def Let_def)
      moreover have "after_completion A turn c0 offered (Inr a) (moved r2 y s1) = (Inr flow, moved r2 y s')"
        using True t unfold a by (auto simp: after_completion_def Let_def moved_def)
      ultimately show ?thesis using model_step(1) s1 unfold' by simp
    next
      case False
      define s2 where "s2 = (moved r x s1)\<lparr>ls_consecutive_failures := 0,
          ls_sink := ls_sink s1 @ [EvAssistant turn (assistant_message a) (at_telemetry a)],
          ls_messages := ls_messages s1 @ [assistant_message a]\<rparr>"
      have tools: "run_tools A turn c0 offered (assistant_message a) s2 = (Inr flow, s')"
        using t unfold a False by (simp add: after_completion_def Let_def s2_def)
      have rt2: "ls_rt s2 = r" by (simp add: s2_def)
      have u2: "usable (ls_rt s2)" using model_step(1) rt2 by (simp add: extends_def)
      note tools_step = run_tools_step [OF A u2 tools]
      have "after_completion A turn c0 offered (Inr a) (moved r2 y s1)
            = run_tools A turn c0 offered (assistant_message a) (moved r2 y s2)"
        using False by (cases s1) (simp add: after_completion_def Let_def s2_def moved_def)
      then show ?thesis
        using tools_step unfold' model_step(1) extends_trans rt2 s1 by metis
    qed
  qed
qed

theorem resume_prefix:
  assumes A: "runs_on A"
  shows "usable (ls_rt s) \<Longrightarrow> clean_prefix A turns s = Some s' \<Longrightarrow>
    extends (ls_rt s) (ls_rt s') \<and> (\<forall>r2 y. extends (ls_rt s') r2 \<longrightarrow>
       run_turns A (turns @ rest) (moved r2 y s) = run_turns A rest (moved r2 y s'))"
proof (induction turns arbitrary: s)
  case Nil
  then show ?case by (auto simp: extends_refl)
next
  case (Cons turn turns)
  obtain s1 where s1: "run_turn A turn s = (Inr FlowContinue, s1)" "clean s1"
    "clean_prefix A turns s1 = Some s'"
    using Cons.prems(2) by (auto split: prod.splits sum.splits turn_flow.splits if_splits)
  have first: "extends (ls_rt s) (ls_rt s1)"
    "\<And>r2 y. extends (ls_rt s1) r2 \<Longrightarrow> run_turn A turn (moved r2 y s) = (Inr FlowContinue, moved r2 y s1)"
    using run_turn_step [OF A Cons.prems(1) s1(1,2)] by blast+
  have "usable (ls_rt s1)" using first(1) by (simp add: extends_def)
  from Cons.IH [OF this s1(3)] have ih: "extends (ls_rt s1) (ls_rt s')"
    "\<And>r2 y. extends (ls_rt s') r2 \<Longrightarrow>
       run_turns A (turns @ rest) (moved r2 y s1) = run_turns A rest (moved r2 y s')" by blast+
  have "run_turns A ((turn # turns) @ rest) (moved r2 y s) = run_turns A rest (moved r2 y s')"
    if "extends (ls_rt s') r2" for r2 y
    using first(2) [OF extends_trans [OF ih(1) that], of y] ih(2) [OF that, of y] by simp
  with extends_trans [OF first(1) ih(1)] show ?case by blast
qed

end

section \<open>Resuming over the in-memory store\<close>

lemma mem_journal:
  "mem.journal_of s n = (case s (step_name_text n) of None \<Rightarrow> None
     | Some (j, h) \<Rightarrow> deserialize_value (name_type n) j)"
  unfolding mem.journal_of_def replayed_value_def
  by (simp add: memory_ops_def memory_fetch_def split: option.split prod.split)

lemma mem_extends: "s \<subseteq>\<^sub>m s2 \<Longrightarrow> mem.extends s s2"
proof -
  assume le: "s \<subseteq>\<^sub>m s2"
  have "mem.journal_of s2 n = Some v" if "mem.journal_of s n = Some v" for n v
  proof -
    from that obtain jh where "s (step_name_text n) = Some jh"
      by (auto simp: mem_journal split: option.splits)
    moreover from this have "s2 (step_name_text n) = Some jh" using le by (auto simp: map_le_def dom_def)
    ultimately show ?thesis using that by (simp add: mem_journal)
  qed
  then show ?thesis unfolding mem.extends_def map_le_def by (auto simp: dom_def)
qed

lemma mem_runs_on:
  "ag_step A = checkpoint_step memory_ops hash \<Longrightarrow> sound_model plain_value A \<Longrightarrow> world_blind (ag_ops A) \<Longrightarrow>
   mem.runs_on hash A"
  by (auto simp: mem.runs_on_def sound_model_def mem.journalable_def)

lemma moved_initial: "moved r y (initial_state r0 x ps ms) = initial_state r y ps ms"
  by (simp add: moved_def initial_state_def)

lemma upt_split: "k \<le> n \<Longrightarrow> [0..<n] = [0..<k] @ [k..<n]"
  by (metis le_add_diff_inverse upt_add_eq_append zero_le)

text \<open>
  Crash recovery over the in-memory store: if the first attempt completed its first \<open>k\<close> turns cleanly, then a second
  attempt started from scratch on any journal that extends the one the first attempt had by then, and
  in any world, reaches turn \<open>k\<close> in exactly the state the first attempt had (conversation, transcript,
  policy states, statistics), with the journal and the world untouched: no model call and no tool of
  the replayed turns runs again.
\<close>

theorem resumed_run_continues:
  assumes "ag_step A = checkpoint_step memory_ops hash" "sound_model plain_value A"
    and "world_blind (ag_ops A)"
    and "clean_prefix A [0..<k] (initial_state j0 x policies messages) = Some s'"
    and "ls_rt s' \<subseteq>\<^sub>m j" "k \<le> ll_max_turns (ag_limits A)"
  shows "run_turns A [0..<ll_max_turns (ag_limits A)] (initial_state j y policies messages) =
         run_turns A [k..<ll_max_turns (ag_limits A)] (moved j y s')"
proof -
  have "run_turns A ([0..<k] @ [k..<ll_max_turns (ag_limits A)])
          (moved j y (initial_state j0 x policies messages)) =
        run_turns A [k..<ll_max_turns (ag_limits A)] (moved j y s')"
    using mem.resume_prefix [OF mem_runs_on [OF assms(1-3)] TrueI assms(4)] mem_extends [OF assms(5)]
    by blast
  then show ?thesis unfolding upt_split [OF assms(6)] by (simp add: moved_initial)
qed

text \<open>
  A run that finished cleanly replays for free: starting it again on its own journal (or a later
  one), in any world, returns the same verdict, transcript and conversation without running one
  effect.
\<close>

theorem finished_run_replays_for_free:
  assumes "ag_step A = checkpoint_step memory_ops hash" "sound_model plain_value A"
    and "world_blind (ag_ops A)"
    and "clean_prefix A [0..<k] (initial_state j0 x policies messages) = Some s1"
    and "run_turn A k s1 = (Inr (Return out), s2)" "clean s2"
    and "ls_rt s2 \<subseteq>\<^sub>m j" "k < ll_max_turns (ag_limits A)"
  shows "run_loop A (initial_state j y policies messages) = (Inr out, moved j y s2)"
proof -
  note on = mem_runs_on [OF assms(1-3)]
  note last = mem.run_turn_step [OF on TrueI assms(5,6)]
  have e2: "mem.extends (ls_rt s2) j" by (rule mem_extends [OF assms(7)])
  have e1: "mem.extends (ls_rt s1) j" using last e2 mem.extends_trans by blast
  have "run_turns A ([0..<k] @ [k..<ll_max_turns (ag_limits A)])
          (moved j y (initial_state j0 x policies messages)) =
        run_turns A [k..<ll_max_turns (ag_limits A)] (moved j y s1)"
    using mem.resume_prefix [OF on TrueI assms(4)] e1 by blast
  moreover have split: "[0..<ll_max_turns (ag_limits A)] = [0..<k] @ [k..<ll_max_turns (ag_limits A)]"
    by (rule upt_split) (use assms(8) in simp)
  ultimately have "run_turns A [0..<ll_max_turns (ag_limits A)] (initial_state j y policies messages) =
             run_turns A (k # [Suc k..<ll_max_turns (ag_limits A)]) (moved j y s1)"
    unfolding split by (simp add: moved_initial upt_conv_Cons [OF assms(8)])
  moreover have "run_turn A k (moved j y s1) = (Inr (Return out), moved j y s2)"
    using last e2 by blast
  ultimately show ?thesis by (simp add: run_loop_def)
qed

subsection \<open>A concrete crash\<close>

text \<open>
  The model posts a comment on its first turn and finishes on the second; the world counts the
  comments posted.
\<close>

definition demo_call :: "string \<Rightarrow> string \<Rightarrow> tool_call_req" where
  "demo_call i name = \<lparr>tc_id = i, tc_kind = ''function'',
     tc_function = \<lparr>fc_name = name, fc_arguments = ''{}''\<rparr>, tc_extra = None\<rparr>"

definition demo_turn :: "tool_call_req \<Rightarrow> assistant_turn" where
  "demo_turn call = \<lparr>at_content = None, at_tool_calls = [call], at_telemetry = None\<rparr>"

definition demo_model :: "chat_request \<Rightarrow> nat \<Rightarrow> (step_error, assistant_turn) result \<times> nat" where
  "demo_model request n =
     (Inr (demo_turn (if length (rq_messages request) = 1 then demo_call ''a'' ''post''
                      else demo_call ''b'' ''finish'')), n)"

definition demo_tools :: "nat tool_registry" where
  "demo_tools =
     [(sample_tool ''post'' WriteK Idempotent)\<lparr>t_call := (\<lambda>c n. (Continue ''posted'', n + 1))\<rparr>,
      (sample_tool ''finish'' TerminalK Idempotent)\<lparr>t_call := (\<lambda>c n. (Finish, n))\<rparr>]"

definition demo_agent :: "(unit, memory_store, nat) agent" where
  "demo_agent = bare_agent (checkpoint_step memory_ops (\<lambda>_. ''h'')) demo_model demo_tools loop_limits_default"

lemma demo_model_turns: "demo_model request x = (Inr t, x') \<Longrightarrow> plain_turn t"
  by (auto simp: demo_model_def plain_turn_def plain_call_def demo_turn_def demo_call_def split: if_splits)

lemma demo_sound:
  "ag_step demo_agent = checkpoint_step memory_ops (\<lambda>_. ''h'')" "sound_model plain_value demo_agent"
  "world_blind (ag_ops demo_agent)" "ll_max_turns (ag_limits demo_agent) = 40"
proof -
  show "sound_model plain_value demo_agent"
    using demo_model_turns by (intro sound_modelI) (auto simp: demo_agent_def plain_value_def)
qed (simp_all add: demo_agent_def world_blind_def no_policy_ops_def loop_limits_default_def)

lemma demo_run:
  "case clean_prefix demo_agent [0] (initial_state Map.empty 0 [] [user_message ''review'']) of
     None \<Rightarrow> False
   | Some s \<Rightarrow> ls_world s = 1 \<and>
       (case run_turn demo_agent 1 s of
          (Inr (Return Finished), s2) \<Rightarrow> clean s2 \<and> ls_world s2 = 1
        | _ \<Rightarrow> False)"
  by code_simp

lemma demo_obtain:
  obtains s1 s2 where
    "clean_prefix demo_agent [0..<1] (initial_state Map.empty 0 [] [user_message ''review'']) = Some s1"
    "ls_world s1 = 1" "run_turn demo_agent 1 s1 = (Inr (Return Finished), s2)" "clean s2" "ls_world s2 = 1"
  using demo_run
  by (auto simp del: clean_prefix.simps split: option.splits prod.splits sum.splits turn_flow.splits
      loop_outcome.splits)

theorem resumed_run_continues_witness:
  "\<exists>s. clean_prefix demo_agent [0..<1] (initial_state Map.empty 0 [] [user_message ''review'']) = Some s
     \<and> ls_world s = 1
     \<and> run_turns demo_agent [0..<40] (initial_state (ls_rt s) 7 [] [user_message ''review''])
       = run_turns demo_agent [1..<40] (moved (ls_rt s) 7 s)"
proof -
  obtain s1 s2 where s: "clean_prefix demo_agent [0..<1]
      (initial_state Map.empty 0 [] [user_message ''review'']) = Some s1" "ls_world s1 = 1"
    by (rule demo_obtain)
  from resumed_run_continues [OF demo_sound(1-3) s(1), of "ls_rt s1" 7] s show ?thesis
    by (simp add: demo_sound(4))
qed

theorem finished_run_replays_for_free_witness:
  "\<exists>j (s2 :: (unit, memory_store, nat) loop_state). fst (run_loop demo_agent (initial_state j 7 [] [user_message ''review''])) = Inr Finished
     \<and> ls_world (snd (run_loop demo_agent (initial_state j 7 [] [user_message ''review'']))) = 7
     \<and> ls_world s2 = 1 \<and> j = ls_rt s2"
proof -
  obtain s1 s2 where s: "clean_prefix demo_agent [0..<1]
      (initial_state Map.empty 0 [] [user_message ''review'']) = Some s1" "ls_world s1 = 1"
    "run_turn demo_agent 1 s1 = (Inr (Return Finished), s2)" "clean s2" "ls_world s2 = 1"
    by (rule demo_obtain)
  have "run_loop demo_agent (initial_state (ls_rt s2) 7 [] [user_message ''review''])
        = (Inr Finished, moved (ls_rt s2) 7 s2)"
    using finished_run_replays_for_free [OF demo_sound(1-3) s(1,3,4), of "ls_rt s2" 7]
    by (simp add: demo_sound(4))
  with s(5) show ?thesis by (intro exI [of _ "ls_rt s2"] exI [of _ s2] conjI) simp_all
qed

section \<open>At most once per call id\<close>

text \<open>
  Within a turn, a call id is executed at most once: after one call of the turn has been executed
  as a step, a later call of that turn with the same (non-blank) id, on any later journal and world,
  is answered with the first call's outcome and executes nothing, even if it names another tool or
  carries other arguments.
\<close>

theorem repeated_call_id_runs_once:
  assumes "ag_step A = checkpoint_step memory_ops hash" "sound_model plain_value A"
    and "world_blind (ag_ops A)"
    and "call_outcome A turn False offered Map.empty i call (j, x) = (Inr v, (j', x'))"
    and "\<not> is_blank (tc_id call)" "tc_id call2 = tc_id call" "j' \<subseteq>\<^sub>m j2"
  shows "call_outcome A turn False offered Map.empty i2 call2 (j2, y) = (Inr v, (j2, y))"
proof -
  note on = mem_runs_on [OF assms(1-3)]
  let ?n = "Write_tool turn (tc_id call)"
  obtain out where out: "checkpoint_step memory_ops hash (name_type ?n) ?n (write_effect A call) (j, x)
      = (out, (j', x'))" "as_outcome out = Inr v"
    using assms(1,4,5) by (auto simp: call_outcome_def split: prod.splits)
  have "out = Inr (OutcomeValue v)" using mem.as_outcome_Inr out(2) by blast
  with out(1) have "checkpoint_step memory_ops hash (name_type ?n) ?n (write_effect A call) (j, x)
      = (Inr (OutcomeValue v), (j', x'))" by simp
  from mem.step_repeats [OF TrueI mem.sound_write_effect [OF on] this mem_extends [OF assms(7)],
      of "write_effect A call2" y]
  show ?thesis using assms(1,5,6) by (simp add: call_outcome_def)
qed

theorem repeated_call_id_runs_once_witness:
  "\<exists>j. call_outcome demo_agent 0 False [] Map.empty 0 (demo_call ''a'' ''post'') (Map.empty, 0)
         = (Inr (Continue ''posted''), (j, 1))
     \<and> call_outcome demo_agent 0 False [] Map.empty 1 (demo_call ''a'' ''finish'') (j, 1)
         = (Inr (Continue ''posted''), (j, 1))"
proof -
  have "case call_outcome demo_agent 0 False [] Map.empty 0 (demo_call ''a'' ''post'') (Map.empty, 0) of
          (Inr (Continue s), (j, n)) \<Rightarrow> s = ''posted'' \<and> n = 1 | _ \<Rightarrow> False"
    by code_simp
  then obtain j where j: "call_outcome demo_agent 0 False [] Map.empty 0 (demo_call ''a'' ''post'')
      (Map.empty, 0) = (Inr (Continue ''posted''), (j, 1))"
    by (auto split: prod.splits sum.splits tool_outcome.splits)
  have "\<not> is_blank ''a''" by code_simp
  then have b: "\<not> is_blank (tc_id (demo_call ''a'' ''post''))" by (simp add: demo_call_def)
  have i: "tc_id (demo_call ''a'' ''finish'') = tc_id (demo_call ''a'' ''post'')"
    by (simp add: demo_call_def)
  from repeated_call_id_runs_once [OF demo_sound(1-3) j b i map_le_refl, of 1 1] j
  show ?thesis by blast
qed

end
