(* ===== verification/Ordered_Map.thy ===== *)
theory Ordered_Map
  imports Prelude "HOL-Library.Char_ord" "HOL-Library.List_Lexorder" "HOL-Library.Product_Lexorder"
begin

text \<open>
  The ordered maps and sets of the Rust standard library that the policies keep
  (\<open>BTreeMap\<close>, \<open>BTreeSet\<close>, and the hash maps the code reads in sorted order). A map is its list of
  entries in key order; strings are ordered by their bytes and pairs lexicographically, as in the code.
  The contract of a keyed map is a locale, interpreted on this representation.
\<close>

type_synonym ('k, 'v) btree = "('k \<times> 'v) list"

fun bt_put :: "'k::linorder \<Rightarrow> 'v \<Rightarrow> ('k, 'v) btree \<Rightarrow> ('k, 'v) btree" where
  "bt_put k v [] = [(k, v)]"
| "bt_put k v ((k', v') # m) =
     (if k < k' then (k, v) # (k', v') # m
      else if k = k' then (k, v) # m
      else (k', v') # bt_put k v m)"

definition bt_del :: "'k \<Rightarrow> ('k, 'v) btree \<Rightarrow> ('k, 'v) btree" where
  "bt_del k m = filter (\<lambda>(k', _). k' \<noteq> k) m"

definition bt_get :: "('k, 'v) btree \<Rightarrow> 'k \<Rightarrow> 'v option" where
  "bt_get m k = map_of m k"

definition bt_ok :: "('k::linorder, 'v) btree \<Rightarrow> bool" where
  "bt_ok m \<longleftrightarrow> sorted_wrt (<) (map fst m)"

definition bt_values :: "('k, 'v) btree \<Rightarrow> 'v list" where
  "bt_values m = map snd m"

section \<open>The contract of a keyed map\<close>

datatype ('k, 'v) edit = Put 'k 'v | Del 'k

fun last_edit :: "('k, 'v) edit list \<Rightarrow> 'k \<Rightarrow> 'v option option" where
  "last_edit [] k = None"
| "last_edit (e # es) k =
     (case last_edit es k of
        Some r \<Rightarrow> Some r
      | None \<Rightarrow> (case e of Put k' v \<Rightarrow> if k' = k then Some (Some v) else None
                 | Del k' \<Rightarrow> if k' = k then Some None else None))"

locale keyed_map =
  fixes get :: "'m \<Rightarrow> 'k \<Rightarrow> 'v option"
    and put :: "'k \<Rightarrow> 'v \<Rightarrow> 'm \<Rightarrow> 'm"
    and del :: "'k \<Rightarrow> 'm \<Rightarrow> 'm"
    and ok :: "'m \<Rightarrow> bool"
  assumes ok_put: "ok m \<Longrightarrow> ok (put k v m)"
    and ok_del: "ok m \<Longrightarrow> ok (del k m)"
    and get_put: "ok m \<Longrightarrow> get (put k v m) k' = (if k' = k then Some v else get m k')"
    and get_del: "ok m \<Longrightarrow> get (del k m) k' = (if k' = k then None else get m k')"
begin

fun apply_edit :: "'m \<Rightarrow> ('k, 'v) edit \<Rightarrow> 'm" where
  "apply_edit m (Put k v) = put k v m"
| "apply_edit m (Del k) = del k m"

lemma ok_edit: "ok m \<Longrightarrow> ok (apply_edit m e)"
  by (cases e) (auto simp: ok_put ok_del)

lemma get_edit:
  "ok m \<Longrightarrow> get (apply_edit m e) k =
     (case e of Put k' v \<Rightarrow> if k' = k then Some v else get m k
      | Del k' \<Rightarrow> if k' = k then None else get m k)"
  by (cases e) (auto simp: get_put get_del)

lemma ok_edits: "ok m \<Longrightarrow> ok (foldl apply_edit m es)"
  by (induction es arbitrary: m) (auto simp: ok_edit)

text \<open>The last edit of a key decides its entry.\<close>

lemma get_edits:
  "ok m \<Longrightarrow> get (foldl apply_edit m es) k = (case last_edit es k of Some r \<Rightarrow> r | None \<Rightarrow> get m k)"
proof (induction es arbitrary: m)
  case (Cons e es)
  then show ?case
    using Cons.IH [OF ok_edit [OF Cons.prems], of e] get_edit [OF Cons.prems, of e k]
    by (auto split: option.splits edit.splits)
qed simp

end

lemma bt_keys_put: "set (map fst (bt_put k v m)) = insert k (set (map fst m))"
proof (induction m)
  case (Cons e m)
  then show ?case by (cases e) (simp add: insert_commute)
qed simp

lemma bt_ok_put: "bt_ok m \<Longrightarrow> bt_ok (bt_put k v m)"
proof (induction m)
  case (Cons e m)
  obtain k' v' where e: "e = (k', v')" by (cases e)
  from Cons have "bt_ok (bt_put k v m)" by (simp add: bt_ok_def)
  with Cons.prems e bt_keys_put [of k v m] show ?case
    by (auto simp: bt_ok_def)
qed (simp add: bt_ok_def)

lemma bt_get_put: "bt_ok m \<Longrightarrow> bt_get (bt_put k v m) k' = (if k' = k then Some v else bt_get m k')"
proof (induction m)
  case (Cons e m)
  obtain k1 v1 where e: "e = (k1, v1)" by (cases e)
  from Cons have "bt_get (bt_put k v m) k' = (if k' = k then Some v else bt_get m k')"
    by (simp add: bt_ok_def)
  with e show ?case by (auto simp: bt_get_def)
qed (simp add: bt_get_def)

interpretation bt: keyed_map bt_get bt_put bt_del bt_ok
proof (unfold_locales, goal_cases)
  case (1 m k v)
  then show ?case by (rule bt_ok_put)
next
  case (2 m k)
  then show ?case
    by (auto simp: bt_ok_def bt_del_def sorted_wrt_map intro: sorted_wrt_filter)
next
  case (3 m k v k')
  then show ?case by (rule bt_get_put)
next
  case (4 m k k')
  show ?case by (induction m) (auto simp: bt_get_def bt_del_def)
qed

lemma bt_get_None: "bt_get m k = None \<longleftrightarrow> k \<notin> fst ` set m"
  by (simp add: bt_get_def map_of_eq_None_iff)

lemma bt_empty_get: "m = [] \<longleftrightarrow> (\<forall>k. bt_get m k = None)"
  by (cases m) (auto simp: bt_get_def)

section \<open>Ordered sets of strings\<close>

definition listed :: "string set \<Rightarrow> string list" where
  "listed s = sorted_list_of_set s"

lemma set_listed [simp]: "finite s \<Longrightarrow> set (listed s) = s"
  by (simp add: listed_def)

lemma length_listed [simp]: "length (listed s) = card s"
  by (simp add: listed_def)

lemma listed_empty [simp]: "finite s \<Longrightarrow> listed s = [] \<longleftrightarrow> s = {}"
  by (simp add: listed_def)

end
