(* ===== verification/Task_Queue.thy ===== *)
theory Task_Queue
  imports Ordered_Map
begin

text \<open>
  The work queue (\<open>services/control-plane/src/db/tasks.rs\<close>): the task table as the list of its rows in
  insertion order, and one function per query of the module. Each function is one SQL statement (or
  one transaction) and so one atomic step; \<open>now\<close> is the statement's clock in seconds, a fresh
  \<open>Uuid\<close> is an argument, rows locked by concurrent statements are the argument \<open>locked\<close>.

  The table's constraints (migrations 0001 and 0003) are part of the inserts: the primary key and the
  unique index on the natural key, in which a missing head counts as a value.
\<close>

section \<open>Rows\<close>

datatype task_status =
  Received | WaitingForIndex | Queued | Running | PostingResult
| Succeeded | Failed | TimedOut | Cancelled

record new_task =
  nt_repository_id :: int
  nt_installation_id :: int
  nt_delivery_id :: string
  nt_target_type :: string
  nt_target_id :: int
  nt_command :: string
  nt_base_sha :: "string option"
  nt_head_sha :: "string option"
  nt_run_epoch :: int
  nt_preset :: string
  nt_entry_point :: string
  nt_trigger_comment_id :: "int option"
  nt_trace_context :: "string option"
  nt_model_override :: "string option"
  nt_check_runs_enabled :: bool
  nt_run_after_secs :: "nat option"

text \<open>A row keeps what the request said (\<open>tk_task\<close>) beside its own lifecycle columns.\<close>

record task_row =
  tk_id :: string
  tk_task :: new_task
  tk_run_epoch :: int
  tk_status :: task_status
  tk_priority :: int
  tk_created_at :: nat
  tk_started_at :: "nat option"
  tk_completed_at :: "nat option"
  tk_attempts :: nat
  tk_run_after :: nat
  tk_lease_owner :: "string option"
  tk_lease_expires_at :: "nat option"
  tk_job_name :: "string option"
  tk_error_detail :: "string option"
  tk_indexed_sha :: "string option"
  tk_check_run_id :: "int option"
  tk_kind :: string

type_synonym tasks = "task_row list"

datatype sql_error = UniqueViolation | ForeignKeyViolation | CheckViolation | Unavailable

abbreviation repo_of :: "task_row \<Rightarrow> int" where "repo_of t \<equiv> nt_repository_id (tk_task t)"
abbreviation command_of :: "task_row \<Rightarrow> string" where "command_of t \<equiv> nt_command (tk_task t)"

definition is_active :: "task_status \<Rightarrow> bool" where
  "is_active s \<longleftrightarrow> s = Running \<or> s = PostingResult"

definition is_terminal :: "task_status \<Rightarrow> bool" where
  "is_terminal s \<longleftrightarrow> s = Succeeded \<or> s = Failed \<or> s = TimedOut \<or> s = Cancelled"

definition INDEX :: string where "INDEX = ''index''"
definition PULL_REQUEST :: string where "PULL_REQUEST = ''pull_request''"

definition natural_key :: "new_task \<Rightarrow> int \<Rightarrow> int \<times> string \<times> int \<times> string \<times> string option \<times> int" where
  "natural_key nt epoch =
     (nt_repository_id nt, nt_target_type nt, nt_target_id nt, nt_command nt, nt_head_sha nt, epoch)"

abbreviation row_key :: "task_row \<Rightarrow> int \<times> string \<times> int \<times> string \<times> string option \<times> int" where
  "row_key t \<equiv> natural_key (tk_task t) (tk_run_epoch t)"

text \<open>An \<open>UPDATE \<dots> WHERE\<close>, the ids its \<open>RETURNING\<close> yields, and a lookup by primary key.\<close>

definition update_where :: "('a \<Rightarrow> bool) \<Rightarrow> ('a \<Rightarrow> 'a) \<Rightarrow> 'a list \<Rightarrow> 'a list" where
  "update_where P f ts = map (\<lambda>t. if P t then f t else t) ts"

definition ids_where :: "(task_row \<Rightarrow> bool) \<Rightarrow> tasks \<Rightarrow> string list" where
  "ids_where P ts = map tk_id (filter P ts)"

definition get_row :: "tasks \<Rightarrow> string \<Rightarrow> task_row option" where
  "get_row ts i = find (\<lambda>t. tk_id t = i) ts"

section \<open>Creating tasks\<close>

definition index_in_flight :: "tasks \<Rightarrow> int \<Rightarrow> bool" where
  "index_in_flight ts repo = list_ex (\<lambda>ix. repo_of ix = repo \<and> command_of ix = INDEX
     \<and> tk_status ix \<in> {Queued, Running, PostingResult, WaitingForIndex}) ts"

definition initial_status :: "tasks \<Rightarrow> new_task \<Rightarrow> task_status" where
  "initial_status ts nt =
     (if nt_command nt \<noteq> INDEX \<and> index_in_flight ts (nt_repository_id nt) then WaitingForIndex else Queued)"

definition fresh_row :: "nat \<Rightarrow> string \<Rightarrow> new_task \<Rightarrow> int \<Rightarrow> nat \<Rightarrow> task_status \<Rightarrow> task_row" where
  "fresh_row now i nt epoch run_after status =
     \<lparr>tk_id = i, tk_task = nt, tk_run_epoch = epoch, tk_status = status, tk_priority = 100,
      tk_created_at = now, tk_started_at = None, tk_completed_at = None, tk_attempts = 0,
      tk_run_after = run_after, tk_lease_owner = None, tk_lease_expires_at = None, tk_job_name = None,
      tk_error_detail = None, tk_indexed_sha = None, tk_check_run_id = None, tk_kind = ''review''\<rparr>"

definition key_taken :: "tasks \<Rightarrow> new_task \<Rightarrow> int \<Rightarrow> bool" where
  "key_taken ts nt epoch = list_ex (\<lambda>t. row_key t = natural_key nt epoch) ts"

definition id_taken :: "tasks \<Rightarrow> string \<Rightarrow> bool" where
  "id_taken ts i = list_ex (\<lambda>t. tk_id t = i) ts"

definition create_task ::
  "nat \<Rightarrow> string \<Rightarrow> new_task \<Rightarrow> tasks \<Rightarrow> (sql_error, string option \<times> tasks) result" where
  "create_task now i nt ts =
     (if key_taken ts nt (nt_run_epoch nt) then Inr (None, ts)
      else if id_taken ts i then Inl UniqueViolation
      else Inr (Some i, ts @ [fresh_row now i nt (nt_run_epoch nt)
                 (now + (case nt_run_after_secs nt of None \<Rightarrow> 0 | Some s \<Rightarrow> s)) (initial_status ts nt)]))"

text \<open>The epoch of an explicit command: one above the largest of its natural key, zero for the first.\<close>

definition same_request :: "new_task \<Rightarrow> task_row \<Rightarrow> bool" where
  "same_request nt t \<longleftrightarrow> natural_key (tk_task t) 0 = natural_key nt 0"

definition next_epoch :: "tasks \<Rightarrow> new_task \<Rightarrow> int" where
  "next_epoch ts nt = foldl (\<lambda>m t. if same_request nt t then max m (tk_run_epoch t) else m) (- 1) ts + 1"

definition insert_explicit ::
  "nat \<Rightarrow> string \<Rightarrow> new_task \<Rightarrow> int \<Rightarrow> tasks \<Rightarrow> (sql_error, tasks) result" where
  "insert_explicit now i nt epoch ts =
     (if key_taken ts nt epoch \<or> id_taken ts i then Inl UniqueViolation
      else Inr (ts @ [fresh_row now i nt epoch now (initial_status ts nt)]))"

definition EXPLICIT_MAX_ATTEMPTS :: nat where "EXPLICIT_MAX_ATTEMPTS = 5"

text \<open>The retry loop: the epoch is read from the snapshot, the row inserted into the table as the
  concurrent deliveries \<open>race\<close> have left it by then. The \<open>ids\<close> are the fresh ids of the attempts.\<close>

function create_explicit_task ::
  "nat \<Rightarrow> (nat \<Rightarrow> string) \<Rightarrow> (nat \<Rightarrow> tasks \<Rightarrow> tasks) \<Rightarrow> new_task \<Rightarrow> nat \<Rightarrow> tasks
   \<Rightarrow> (sql_error, string) result \<times> tasks" where
  "create_explicit_task now ids race nt done_attempts ts =
     (let attempt = done_attempts + 1;
          epoch = next_epoch ts nt;
          ts' = race attempt ts
      in case insert_explicit now (ids attempt) nt epoch ts' of
           Inr ts'' \<Rightarrow> (Inr (ids attempt), ts'')
         | Inl e \<Rightarrow>
             if attempt < EXPLICIT_MAX_ATTEMPTS
             then create_explicit_task now ids race nt attempt ts'
             else (Inl e, ts'))"
  by pat_completeness auto
termination
  by (relation "measure (\<lambda>(_, _, _, _, n, _). EXPLICIT_MAX_ATTEMPTS - n)") auto

declare create_explicit_task.simps [simp del]

section \<open>Cancelling\<close>

definition cancelled_row :: "nat \<Rightarrow> task_row \<Rightarrow> task_row" where
  "cancelled_row now t =
     t\<lparr>tk_status := Cancelled, tk_completed_at := Some now, tk_lease_owner := None,
       tk_lease_expires_at := None\<rparr>"

definition cancel_where :: "nat \<Rightarrow> (task_row \<Rightarrow> bool) \<Rightarrow> tasks \<Rightarrow> string list \<times> tasks" where
  "cancel_where now P ts = (ids_where P ts, update_where P (cancelled_row now) ts)"

definition cancel_active_tasks_for_pr :: "nat \<Rightarrow> int \<Rightarrow> int \<Rightarrow> tasks \<Rightarrow> string list \<times> tasks" where
  "cancel_active_tasks_for_pr now repo pr =
     cancel_where now (\<lambda>t. repo_of t = repo \<and> nt_target_type (tk_task t) = PULL_REQUEST
       \<and> nt_target_id (tk_task t) = pr \<and> tk_status t \<in> {Queued, Running, PostingResult})"

definition cancel_superseded_pr_reviews ::
  "nat \<Rightarrow> int \<Rightarrow> int \<Rightarrow> string \<Rightarrow> tasks \<Rightarrow> string list \<times> tasks" where
  "cancel_superseded_pr_reviews now repo pr keep_head =
     cancel_where now (\<lambda>t. repo_of t = repo \<and> nt_target_type (tk_task t) = PULL_REQUEST
       \<and> nt_target_id (tk_task t) = pr \<and> nt_entry_point (tk_task t) \<in> {''pr_open'', ''pr_sync''}
       \<and> tk_status t \<in> {Queued, WaitingForIndex, Running, PostingResult}
       \<and> nt_head_sha (tk_task t) \<noteq> Some keep_head)"

definition cancel_active_tasks_for_repo :: "nat \<Rightarrow> int \<Rightarrow> tasks \<Rightarrow> string list \<times> tasks" where
  "cancel_active_tasks_for_repo now repo =
     cancel_where now (\<lambda>t. repo_of t = repo \<and> tk_status t \<in> {Queued, Running, PostingResult})"

definition cancel_task_by_id :: "nat \<Rightarrow> string \<Rightarrow> tasks \<Rightarrow> bool \<times> tasks" where
  "cancel_task_by_id now i ts =
     (let P = (\<lambda>t. tk_id t = i
                \<and> tk_status t \<in> {Received, WaitingForIndex, Queued, Running, PostingResult})
      in (list_ex P ts, update_where P (cancelled_row now) ts))"

section \<open>Dispatching and leasing\<close>

definition claim_key :: "task_row \<Rightarrow> int \<times> nat \<times> string" where
  "claim_key t = (- tk_priority t, tk_created_at t, tk_id t)"

definition due :: "nat \<Rightarrow> string set \<Rightarrow> task_row \<Rightarrow> bool" where
  "due now locked t \<longleftrightarrow> tk_status t = Queued \<and> tk_run_after t \<le> now \<and> tk_id t \<notin> locked"

definition next_due :: "nat \<Rightarrow> string set \<Rightarrow> tasks \<Rightarrow> task_row option" where
  "next_due now locked ts =
     (case filter (due now locked) ts of
        [] \<Rightarrow> None
      | t # rest \<Rightarrow> Some (foldl (\<lambda>best u. if claim_key u < claim_key best then u else best) t rest))"

definition claimed_row :: "nat \<Rightarrow> string \<Rightarrow> nat \<Rightarrow> task_row \<Rightarrow> task_row" where
  "claimed_row now owner lease t =
     t\<lparr>tk_status := Running, tk_attempts := tk_attempts t + 1, tk_started_at := Some now,
       tk_lease_owner := Some owner, tk_lease_expires_at := Some (now + lease)\<rparr>"

definition claim_next_task ::
  "nat \<Rightarrow> string \<Rightarrow> nat \<Rightarrow> string set \<Rightarrow> tasks \<Rightarrow> task_row option \<times> tasks" where
  "claim_next_task now owner lease locked ts =
     (case next_due now locked ts of
        None \<Rightarrow> (None, ts)
      | Some t \<Rightarrow> (Some (claimed_row now owner lease t),
                  update_where (\<lambda>u. tk_id u = tk_id t) (claimed_row now owner lease) ts))"

definition set_task_job :: "string \<Rightarrow> string \<Rightarrow> tasks \<Rightarrow> tasks" where
  "set_task_job i job = update_where (\<lambda>t. tk_id t = i) (\<lambda>t. t\<lparr>tk_job_name := Some job\<rparr>)"

definition clear_job_name :: "string \<Rightarrow> tasks \<Rightarrow> tasks" where
  "clear_job_name i = update_where (\<lambda>t. tk_id t = i) (\<lambda>t. t\<lparr>tk_job_name := None\<rparr>)"

definition active_id :: "string \<Rightarrow> task_row \<Rightarrow> bool" where
  "active_id i t \<longleftrightarrow> tk_id t = i \<and> is_active (tk_status t)"

definition release_task :: "nat \<Rightarrow> string \<Rightarrow> nat \<Rightarrow> tasks \<Rightarrow> bool \<times> tasks" where
  "release_task now i backoff ts =
     (list_ex (active_id i) ts,
      update_where (active_id i)
        (\<lambda>t. t\<lparr>tk_status := Queued, tk_lease_owner := None, tk_lease_expires_at := None,
               tk_started_at := None, tk_job_name := None, tk_run_after := now + backoff\<rparr>) ts)"

definition renew_lease :: "nat \<Rightarrow> string \<Rightarrow> nat \<Rightarrow> tasks \<Rightarrow> bool \<times> tasks" where
  "renew_lease now i lease ts =
     (list_ex (active_id i) ts,
      update_where (active_id i) (\<lambda>t. t\<lparr>tk_lease_expires_at := Some (now + lease)\<rparr>) ts)"

text \<open>A task is reapable when its lease has expired; a missing lease never compares as expired.\<close>

definition reapable :: "nat \<Rightarrow> task_row \<Rightarrow> bool" where
  "reapable now t \<longleftrightarrow> is_active (tk_status t)
     \<and> (case tk_lease_expires_at t of None \<Rightarrow> False | Some e \<Rightarrow> e < now)"

definition reap_key :: "task_row \<Rightarrow> nat \<times> nat \<times> string" where
  "reap_key t = (case tk_started_at t of None \<Rightarrow> (0, 0, tk_id t) | Some s \<Rightarrow> (1, s, tk_id t))"

definition list_reapable_tasks :: "nat \<Rightarrow> nat \<Rightarrow> tasks \<Rightarrow> task_row list" where
  "list_reapable_tasks now limit ts = take limit (sort_key reap_key (filter (reapable now) ts))"

definition list_cancelled_with_job :: "nat \<Rightarrow> tasks \<Rightarrow> task_row list" where
  "list_cancelled_with_job limit ts =
     take limit (filter (\<lambda>t. tk_status t = Cancelled \<and> tk_job_name t \<noteq> None) ts)"

section \<open>Status transitions\<close>

fun status_text :: "task_status \<Rightarrow> string" where
  "status_text Received = ''received''"
| "status_text WaitingForIndex = ''waiting_for_index''"
| "status_text Queued = ''queued''"
| "status_text Running = ''running''"
| "status_text PostingResult = ''posting_result''"
| "status_text Succeeded = ''succeeded''"
| "status_text Failed = ''failed''"
| "status_text TimedOut = ''timed_out''"
| "status_text Cancelled = ''cancelled''"

definition reportable_status :: "string \<Rightarrow> task_status option" where
  "reportable_status s =
     find (\<lambda>st. status_text st = s) [Running, PostingResult, Succeeded, Failed, TimedOut, Cancelled]"

definition is_runner_reportable_status :: "string \<Rightarrow> bool" where
  "is_runner_reportable_status s \<longleftrightarrow> reportable_status s \<noteq> None"

definition settled_row :: "nat \<Rightarrow> task_status \<Rightarrow> string option \<Rightarrow> task_row \<Rightarrow> task_row" where
  "settled_row now status detail t =
     t\<lparr>tk_status := status,
       tk_started_at := (if status = Running
                         then Some (case tk_started_at t of Some s \<Rightarrow> s | None \<Rightarrow> now) else tk_started_at t),
       tk_completed_at := (if is_terminal status then Some now else tk_completed_at t),
       tk_lease_owner := (if is_terminal status then None else tk_lease_owner t),
       tk_lease_expires_at := (if is_terminal status then None else tk_lease_expires_at t),
       tk_error_detail := (if status = Running then None
                           else case detail of Some d \<Rightarrow> Some d | None \<Rightarrow> tk_error_detail t)\<rparr>"

definition release_reviews_waiting_on_index :: "nat \<Rightarrow> string \<Rightarrow> tasks \<Rightarrow> tasks" where
  "release_reviews_waiting_on_index now i ts =
     (let repos = map repo_of (filter (\<lambda>t. tk_id t = i \<and> command_of t = INDEX) ts)
      in update_where (\<lambda>t. repo_of t \<in> set repos \<and> tk_status t = WaitingForIndex)
           (\<lambda>t. t\<lparr>tk_status := Queued, tk_run_after := max (tk_run_after t) now\<rparr>) ts)"

text \<open>The snapshots that retrieval may serve: repository and commit, with the completion time.\<close>

type_synonym snapshots = "((int \<times> string) \<times> nat) list"

definition put_snapshot :: "nat \<Rightarrow> int \<times> string \<Rightarrow> snapshots \<Rightarrow> snapshots" where
  "put_snapshot now k s = (k, now) # filter (\<lambda>(k', _). k' \<noteq> k) s"

definition complete_snapshot :: "nat \<Rightarrow> string \<Rightarrow> tasks \<Rightarrow> snapshots \<Rightarrow> snapshots" where
  "complete_snapshot now i ts s =
     (case get_row ts i of
        None \<Rightarrow> s
      | Some t \<Rightarrow> (case tk_indexed_sha t of
                     None \<Rightarrow> s
                   | Some sha \<Rightarrow> put_snapshot now (repo_of t, sha) s))"

definition set_task_status ::
  "nat \<Rightarrow> string \<Rightarrow> task_status \<Rightarrow> string option \<Rightarrow> tasks \<times> snapshots \<Rightarrow> bool \<times> tasks \<times> snapshots" where
  "set_task_status now i status detail db =
     (let (ts, s) = db;
          ts1 = update_where (\<lambda>t. tk_id t = i) (settled_row now status detail) ts;
          s1 = (if status = Succeeded then complete_snapshot now i ts1 s else s);
          ts2 = (if is_terminal status then release_reviews_waiting_on_index now i ts1 else ts1)
      in (id_taken ts i, ts2, s1))"

definition record_indexed_commit :: "string \<Rightarrow> string \<Rightarrow> tasks \<Rightarrow> tasks" where
  "record_indexed_commit i sha =
     update_where (\<lambda>t. tk_id t = i \<and> tk_indexed_sha t \<noteq> Some sha) (\<lambda>t. t\<lparr>tk_indexed_sha := Some sha\<rparr>)"

definition get_task_status :: "tasks \<Rightarrow> string \<Rightarrow> task_status option" where
  "get_task_status ts i = map_option tk_status (get_row ts i)"

definition set_check_run_external_id :: "string \<Rightarrow> int \<Rightarrow> tasks \<Rightarrow> tasks" where
  "set_check_run_external_id i n = update_where (\<lambda>t. tk_id t = i) (\<lambda>t. t\<lparr>tk_check_run_id := Some n\<rparr>)"

definition get_check_run_external_id :: "tasks \<Rightarrow> string \<Rightarrow> int option" where
  "get_check_run_external_id ts i = Option.bind (get_row ts i) tk_check_run_id"

definition set_task_kind :: "string \<Rightarrow> string \<Rightarrow> tasks \<Rightarrow> tasks" where
  "set_task_kind i kind = update_where (\<lambda>t. tk_id t = i) (\<lambda>t. t\<lparr>tk_kind := kind\<rparr>)"

definition same_head :: "task_row \<Rightarrow> task_row \<Rightarrow> bool" where
  "same_head a b \<longleftrightarrow> repo_of a = repo_of b \<and> nt_target_type (tk_task a) = nt_target_type (tk_task b)
     \<and> nt_target_id (tk_task a) = nt_target_id (tk_task b) \<and> nt_head_sha (tk_task a) = nt_head_sha (tk_task b)"

definition supersedes :: "task_row \<Rightarrow> task_row \<Rightarrow> bool" where
  "supersedes newer self \<longleftrightarrow> same_head newer self \<and> tk_status newer \<noteq> Cancelled
     \<and> (tk_created_at newer, tk_id newer) > (tk_created_at self, tk_id self)"

definition should_report_check_run :: "tasks \<Rightarrow> string \<Rightarrow> bool" where
  "should_report_check_run ts i =
     (case get_row ts i of None \<Rightarrow> True | Some self \<Rightarrow> \<not> list_ex (\<lambda>newer. supersedes newer self) ts)"

section \<open>What the statements keep\<close>

definition keeps_identity :: "(task_row \<Rightarrow> task_row) \<Rightarrow> bool" where
  "keeps_identity f \<longleftrightarrow>
     (\<forall>t. tk_id (f t) = tk_id t \<and> tk_task (f t) = tk_task t \<and> tk_run_epoch (f t) = tk_run_epoch t)"

definition row_ok :: "task_row \<Rightarrow> bool" where
  "row_ok t \<longleftrightarrow>
     (tk_lease_owner t = None \<and> tk_lease_expires_at t = None \<or> is_active (tk_status t))
     \<and> (is_terminal (tk_status t) \<longrightarrow> tk_completed_at t \<noteq> None)"

definition queue_ok :: "tasks \<Rightarrow> bool" where
  "queue_ok ts \<longleftrightarrow> distinct (map tk_id ts) \<and> distinct (map row_key ts) \<and> list_all row_ok ts"

lemma update_where_map:
  assumes "keeps_identity f"
  shows "map tk_id (update_where P f ts) = map tk_id ts"
    and "map row_key (update_where P f ts) = map row_key ts"
  using assms by (simp_all add: update_where_def keeps_identity_def)

lemma set_update_where: "set (update_where P f ts) = (\<lambda>t. if P t then f t else t) ` set ts"
  by (simp add: update_where_def)

lemma get_row_Some: "get_row ts i = Some t \<Longrightarrow> t \<in> set ts \<and> tk_id t = i"
  by (auto simp: get_row_def find_Some_iff)

lemma get_row_update:
  "keeps_identity f \<Longrightarrow> get_row (update_where P f ts) i =
     map_option (\<lambda>t. if P t then f t else t) (get_row ts i)"
  by (induction ts) (auto simp: get_row_def update_where_def keeps_identity_def)

lemma get_row_in:
  "distinct (map tk_id ts) \<Longrightarrow> t \<in> set ts \<Longrightarrow> get_row ts (tk_id t) = Some t"
  by (induction ts) (auto simp: get_row_def image_iff)

lemma update_ok:
  assumes "queue_ok ts" "keeps_identity f" "\<And>t. P t \<Longrightarrow> row_ok t \<Longrightarrow> row_ok (f t)"
  shows "queue_ok (update_where P f ts)"
  using assms update_where_map [OF assms(2), of P ts]
  by (auto simp: queue_ok_def list_all_iff set_update_where)

lemma statement_rows [simp]:
  "keeps_identity (cancelled_row now)" "row_ok (cancelled_row now t)"
  "keeps_identity (claimed_row now owner lease)" "row_ok (claimed_row now owner lease t)"
  "keeps_identity (settled_row now status detail)"
  by (simp_all add: keeps_identity_def cancelled_row_def claimed_row_def settled_row_def row_ok_def
      is_active_def is_terminal_def)

lemma settled_ok:
  "is_active status \<or> is_terminal status \<Longrightarrow> row_ok (settled_row now status detail t)"
  by (auto simp: row_ok_def settled_row_def is_active_def is_terminal_def)

lemma field_updates [simp]:
  "keeps_identity (\<lambda>t. t\<lparr>tk_job_name := v\<rparr>)" "keeps_identity (\<lambda>t. t\<lparr>tk_lease_expires_at := e\<rparr>)"
  "keeps_identity (\<lambda>t. t\<lparr>tk_indexed_sha := v2\<rparr>)" "keeps_identity (\<lambda>t. t\<lparr>tk_check_run_id := c\<rparr>)"
  "keeps_identity (\<lambda>t. t\<lparr>tk_kind := k\<rparr>)"
  "keeps_identity (\<lambda>t. t\<lparr>tk_status := s, tk_run_after := max (tk_run_after t) n\<rparr>)"
  "keeps_identity (\<lambda>t. t\<lparr>tk_status := s, tk_lease_owner := lo, tk_lease_expires_at := e,
     tk_started_at := st, tk_job_name := v, tk_run_after := r\<rparr>)"
  by (simp_all add: keeps_identity_def)

lemma insert_ok:
  assumes "queue_ok ts" "\<not> key_taken ts nt epoch" "\<not> id_taken ts i"
  shows "queue_ok (ts @ [fresh_row now i nt epoch run_after (initial_status ts nt)])"
  using assms
  by (auto simp: queue_ok_def key_taken_def id_taken_def list_ex_iff fresh_row_def row_ok_def
      initial_status_def is_terminal_def)

lemma release_waiting_ok: "queue_ok ts \<Longrightarrow> queue_ok (release_reviews_waiting_on_index now i ts)"
  unfolding release_reviews_waiting_on_index_def Let_def
  by (rule update_ok) (auto simp: row_ok_def is_active_def is_terminal_def)

lemma set_task_status_ok:
  assumes "queue_ok ts" "is_active status \<or> is_terminal status"
  shows "queue_ok (fst (snd (set_task_status now i status detail (ts, s))))"
proof -
  have "queue_ok (update_where (\<lambda>t. tk_id t = i) (settled_row now status detail) ts)"
    using assms by (intro update_ok) (simp_all add: settled_ok)
  then show ?thesis by (simp add: set_task_status_def Let_def release_waiting_ok)
qed

lemma reportable_active_or_terminal:
  "reportable_status wire = Some status \<Longrightarrow> is_active status \<or> is_terminal status"
  by (auto simp: reportable_status_def is_active_def is_terminal_def split: if_splits)

section \<open>The queue as a transition system\<close>

text \<open>One step per statement, at any time: what the webhook, the dispatcher, the reaper, the runner's
  reports and the admin actions do to the table.\<close>

inductive queue_step :: "tasks \<times> snapshots \<Rightarrow> tasks \<times> snapshots \<Rightarrow> bool" where
  Create: "create_task now i nt ts = Inr (res, ts') \<Longrightarrow> queue_step (ts, s) (ts', s)"
| Explicit: "insert_explicit now i nt epoch ts = Inr ts' \<Longrightarrow> queue_step (ts, s) (ts', s)"
| CancelWhere: "queue_step (ts, s) (snd (cancel_where now P ts), s)"
| CancelOne: "queue_step (ts, s) (snd (cancel_task_by_id now i ts), s)"
| Claim: "queue_step (ts, s) (snd (claim_next_task now owner lease locked ts), s)"
| SetJob: "queue_step (ts, s) (set_task_job i job ts, s)"
| ClearJob: "queue_step (ts, s) (clear_job_name i ts, s)"
| Release: "queue_step (ts, s) (snd (release_task now i backoff ts), s)"
| Renew: "queue_step (ts, s) (snd (renew_lease now i lease ts), s)"
| Report: "reportable_status wire = Some status \<Longrightarrow>
    queue_step (ts, s) (snd (set_task_status now i status detail (ts, s)))"
| Indexed: "queue_step (ts, s) (record_indexed_commit i sha ts, s)"
| CheckRun: "queue_step (ts, s) (set_check_run_external_id i n ts, s)"
| Kind: "queue_step (ts, s) (set_task_kind i kind ts, s)"

inductive_cases queue_stepE: "queue_step db db'"

lemma queue_step_ok: "queue_step db db' \<Longrightarrow> queue_ok (fst db) \<Longrightarrow> queue_ok (fst db')"
proof (induction rule: queue_step.induct)
  case (Create now i nt ts res ts' s)
  then show ?case by (auto simp: create_task_def insert_ok split: if_splits)
next
  case (Explicit now i nt epoch ts ts' s)
  then show ?case by (auto simp: insert_explicit_def insert_ok split: if_splits)
next
  case (Report wire status ts s now i detail)
  then show ?case
    using set_task_status_ok [OF _ reportable_active_or_terminal [OF Report(1)], of ts now i detail s]
    by simp
next
  case (Release ts s now i backoff)
  then show ?case
    by (auto simp: release_task_def row_ok_def is_terminal_def intro!: update_ok)
next
  case (Renew ts s now i lease)
  then show ?case
    by (auto simp: renew_lease_def row_ok_def active_id_def intro!: update_ok)
next
  case (CancelOne ts s now i)
  then show ?case by (simp add: cancel_task_by_id_def Let_def update_ok)
next
  case (Claim ts s now owner lease locked)
  then show ?case by (simp add: claim_next_task_def update_ok split: option.split)
next
  case (CancelWhere ts s now P)
  then show ?case by (simp add: cancel_where_def update_ok)
qed (auto simp: set_task_job_def clear_job_name_def record_indexed_commit_def
    set_check_run_external_id_def set_task_kind_def row_ok_def intro!: update_ok)

definition reachable_queue :: "tasks \<times> snapshots \<Rightarrow> bool" where
  "reachable_queue db \<longleftrightarrow> queue_step\<^sup>*\<^sup>* ([], []) db"

lemma reachable_ok: "reachable_queue db \<Longrightarrow> queue_ok (fst db)"
  unfolding reachable_queue_def
proof (induction rule: rtranclp_induct)
  case base
  show ?case by (simp add: queue_ok_def)
next
  case (step db db')
  then show ?case using queue_step_ok by blast
qed

text \<open>
  C3. However webhooks, dispatchers, the reaper and the runners interleave, at every moment no two
  tasks have the same id and no two answer the same request (target, command, head, epoch), only a
  task that is running or posting holds a lease, and a finished task has its completion time.
\<close>

theorem one_task_per_request:
  assumes "reachable_queue db"
  shows "distinct (map tk_id (fst db)) \<and> distinct (map row_key (fst db)) \<and> list_all row_ok (fst db)"
  using reachable_ok [OF assms] by (simp add: queue_ok_def)

section \<open>Claiming\<close>

lemma foldl_least:
  "(\<forall>u \<in> set (t # us). claim_key (foldl (\<lambda>best u. if claim_key u < claim_key best then u else best) t us)
       \<le> claim_key u)
   \<and> foldl (\<lambda>best u. if claim_key u < claim_key best then u else best) t us \<in> set (t # us)"
proof (induction us arbitrary: t)
  case (Cons u us)
  show ?case
    using Cons.IH [of "if claim_key u < claim_key t then u else t"]
    by (auto split: if_splits intro: order.trans less_imp_le)
qed simp

lemma next_due_Some:
  assumes "next_due now locked ts = Some t"
  shows "t \<in> set ts" "due now locked t" "u \<in> set ts \<Longrightarrow> due now locked u \<Longrightarrow> claim_key t \<le> claim_key u"
proof -
  obtain f rest where f: "filter (due now locked) ts = f # rest"
      "t = foldl (\<lambda>best u. if claim_key u < claim_key best then u else best) f rest"
    using assms by (auto simp: next_due_def split: list.splits)
  have "t \<in> set (filter (due now locked) ts)" using foldl_least [of f rest] f by simp
  then show "t \<in> set ts" "due now locked t" by auto
  assume "u \<in> set ts" "due now locked u"
  then have "u \<in> set (f # rest)" unfolding f(1) [symmetric] by simp
  then show "claim_key t \<le> claim_key u" using foldl_least [of f rest] f(2) by blast
qed

lemma next_due_None: "next_due now locked ts = None \<Longrightarrow> u \<in> set ts \<Longrightarrow> \<not> due now locked u"
  by (auto simp: next_due_def filter_empty_conv split: list.splits)

text \<open>
  C5. A claim takes the due task the queue order puts first (priority, then age, then id) and leases it:
  what it returns and stores is that task, running, started now, with one more attempt, owned by the
  caller until the lease ends, and nothing else of it changed; every other row stays. It fails only when no
  due task is free. The next claim, by any replica, then or while the first still holds its row lock, never
  returns the same task.
\<close>

theorem claim_takes_the_most_urgent:
  "case claim_next_task now owner lease locked ts of
     (None, ts') \<Rightarrow> ts' = ts \<and> \<not> list_ex (due now locked) ts
   | (Some c, ts') \<Rightarrow>
       list_ex (\<lambda>t. due now locked t \<and> list_all (\<lambda>u. claim_key t \<le> claim_key u) (filter (due now locked) ts)
         \<and> c = t\<lparr>tk_status := Running, tk_attempts := tk_attempts t + 1, tk_started_at := Some now,
                 tk_lease_owner := Some owner, tk_lease_expires_at := Some (now + lease)\<rparr>) ts
       \<and> c \<in> set ts' \<and> filter (\<lambda>u. tk_id u \<noteq> tk_id c) ts' = filter (\<lambda>u. tk_id u \<noteq> tk_id c) ts
       \<and> list_all (\<lambda>u. tk_status u = Running) (filter (\<lambda>u. tk_id u = tk_id c) ts')
       \<and> pred_option (\<lambda>c2. tk_id c2 \<noteq> tk_id c) (fst (claim_next_task now2 owner2 lease2 locked2 ts'))
       \<and> pred_option (\<lambda>c2. tk_id c2 \<noteq> tk_id c)
           (fst (claim_next_task now2 owner2 lease2 (insert (tk_id c) locked2) ts))"
proof (cases "next_due now locked ts")
  case None
  then show ?thesis using next_due_None [OF None] by (auto simp: claim_next_task_def list_ex_iff)
next
  case (Some t)
  let ?c = "claimed_row now owner lease t"
  let ?ts = "update_where (\<lambda>u. tk_id u = tk_id t) (claimed_row now owner lease) ts"
  have i: "tk_id (claimed_row now owner lease u) = tk_id u" "tk_status (claimed_row now owner lease u) = Running"
    for u by (simp_all add: claimed_row_def)
  have run: "tk_status u = Running" if "u \<in> set ?ts" "tk_id u = tk_id t" for u
    using that by (auto simp: set_update_where i split: if_splits)
  have later: "tk_id c2 \<noteq> tk_id ?c" if h: "fst (claim_next_task now2 owner2 lease2 l ?ts) = Some c2" for c2 l
  proof -
    obtain t2 where t2: "next_due now2 l ?ts = Some t2" "c2 = claimed_row now2 owner2 lease2 t2"
      using h by (auto simp: claim_next_task_def split: option.splits)
    then have "tk_status t2 = Queued" "t2 \<in> set ?ts" using next_due_Some [OF t2(1)] by (auto simp: due_def)
    then have "tk_id t2 \<noteq> tk_id t" using run by fastforce
    then show ?thesis using t2(2) by (simp add: claimed_row_def)
  qed
  have meanwhile: "tk_id c2 \<noteq> tk_id ?c"
    if h: "fst (claim_next_task now2 owner2 lease2 (insert (tk_id ?c) locked2) ts) = Some c2" for c2
  proof -
    obtain t2 where "next_due now2 (insert (tk_id ?c) locked2) ts = Some t2" "c2 = claimed_row now2 owner2 lease2 t2"
      using h by (auto simp: claim_next_task_def split: option.splits)
    then show ?thesis
      using next_due_Some(2) [of now2 "insert (tk_id ?c) locked2" ts t2]
      by (simp add: due_def claimed_row_def)
  qed
  have eq: "claim_next_task now owner lease locked ts = (Some ?c, ?ts)"
    by (simp add: claim_next_task_def Some)
  have "list_ex (\<lambda>t. due now locked t \<and> list_all (\<lambda>u. claim_key t \<le> claim_key u) (filter (due now locked) ts)
         \<and> ?c = t\<lparr>tk_status := Running, tk_attempts := tk_attempts t + 1, tk_started_at := Some now,
                  tk_lease_owner := Some owner, tk_lease_expires_at := Some (now + lease)\<rparr>) ts"
    using next_due_Some [OF Some] by (auto simp: list_ex_iff list_all_iff claimed_row_def)
  moreover have "?c \<in> set ?ts"
    using next_due_Some(1) [OF Some] by (auto simp: update_where_def)
  moreover have "filter (\<lambda>u. tk_id u \<noteq> tk_id ?c) ?ts = filter (\<lambda>u. tk_id u \<noteq> tk_id ?c) ts"
    by (induction ts) (auto simp: update_where_def i)
  moreover have "list_all (\<lambda>u. tk_status u = Running) (filter (\<lambda>u. tk_id u = tk_id ?c) ?ts)"
    using run by (auto simp: list_all_iff i)
  moreover have "pred_option (\<lambda>c2. tk_id c2 \<noteq> tk_id ?c) (fst (claim_next_task now2 owner2 lease2 locked2 ?ts))"
    using later by (simp add: option.pred_set)
  moreover have "pred_option (\<lambda>c2. tk_id c2 \<noteq> tk_id ?c)
      (fst (claim_next_task now2 owner2 lease2 (insert (tk_id ?c) locked2) ts))"
    using meanwhile by (simp add: option.pred_set)
  ultimately show ?thesis unfolding eq by simp
qed

theorem one_task_per_request_witness:
  "\<exists>db. reachable_queue db \<and> length (fst db) = 2 \<and> distinct (map tk_id (fst db))"
proof -
  define nt where "nt = \<lparr>nt_repository_id = 7, nt_installation_id = 1, nt_delivery_id = ''d'',
    nt_target_type = PULL_REQUEST, nt_target_id = 3, nt_command = ''review'', nt_base_sha = None,
    nt_head_sha = Some ''abc'', nt_run_epoch = 0, nt_preset = ''fast'', nt_entry_point = ''pr_open'',
    nt_trigger_comment_id = None, nt_trace_context = None, nt_model_override = None, nt_check_runs_enabled = True, nt_run_after_secs = None\<rparr>"
  obtain t1 where t1: "create_task 0 ''a'' nt [] = Inr (Some ''a'', [t1])"
      "tk_id t1 = ''a''" "tk_run_epoch t1 = 0" "tk_task t1 = nt"
    by (auto simp: create_task_def key_taken_def id_taken_def nt_def fresh_row_def)
  obtain t2 where t2: "insert_explicit 1 ''b'' nt 1 [t1] = Inr [t1, t2]"
    using t1 by (auto simp: insert_explicit_def key_taken_def id_taken_def natural_key_def)
  have "queue_step ([], []) ([t1], [])" by (rule Create [OF t1(1)])
  moreover have "queue_step ([t1], []) ([t1, t2], [])" by (rule Explicit [OF t2])
  ultimately have r: "reachable_queue ([t1, t2], [])"
    unfolding reachable_queue_def by (meson rtranclp.rtrancl_into_rtrancl rtranclp.rtrancl_refl)
  from r one_task_per_request [OF r] show ?thesis by (intro exI [of _ "([t1, t2], [])"]) simp
qed

section \<open>Explicit commands\<close>

lemma foldl_epoch:
  "m \<le> foldl (\<lambda>m t. if same_request nt t then max m (tk_run_epoch t) else m) m ts
   \<and> (t \<in> set ts \<longrightarrow> same_request nt t \<longrightarrow>
        tk_run_epoch t \<le> foldl (\<lambda>m t. if same_request nt t then max m (tk_run_epoch t) else m) m ts)"
proof (induction ts arbitrary: m)
  case (Cons u ts)
  show ?case using Cons.IH [of "if same_request nt u then max m (tk_run_epoch u) else m"] by auto
qed simp

lemma next_epoch_free: "\<not> key_taken ts nt (next_epoch ts nt)"
  using foldl_epoch [of "- 1" nt ts]
  by (fastforce simp: key_taken_def list_ex_iff next_epoch_def same_request_def natural_key_def)

lemma get_row_append:
  "\<not> id_taken ts (tk_id t) \<Longrightarrow> get_row (ts @ [t]) (tk_id t) = Some t"
  by (induction ts) (auto simp: get_row_def id_taken_def)

text \<open>
  An explicit command always lands a task: if on one of the five attempts no concurrent delivery
  slips in between reading the epoch and inserting (and the fresh ids are fresh), the loop returns an
  id, and the table then holds a task of that id for the request, queued or waiting for the index.
\<close>

theorem explicit_command_lands:
  assumes "done_attempts < k" "k \<le> EXPLICIT_MAX_ATTEMPTS" "\<And>us. race k us = us"
    and "\<And>n us m. \<not> id_taken us (ids m) \<Longrightarrow> \<not> id_taken (race n us) (ids m)" "\<And>n. \<not> id_taken ts (ids n)"
  shows "case create_explicit_task now ids race nt done_attempts ts of
      (Inl e, ts') \<Rightarrow> False
    | (Inr i, ts') \<Rightarrow> (case get_row ts' i of None \<Rightarrow> False
        | Some t \<Rightarrow> tk_task t = nt \<and> tk_status t \<in> {Queued, WaitingForIndex})"
  using assms(1,5)
proof (induction "EXPLICIT_MAX_ATTEMPTS - done_attempts" arbitrary: done_attempts ts)
  case 0
  then show ?case using assms(2) by simp
next
  case (Suc n)
  let ?a = "done_attempts + 1" and ?e = "next_epoch ts nt"
  let ?ts = "race ?a ts"
  have fresh: "\<not> id_taken ?ts (ids m)" for m using Suc.prems(2) assms(4) by blast
  show ?case
  proof (cases "key_taken ?ts nt ?e")
    case False
    let ?t = "fresh_row now (ids ?a) nt ?e now (initial_status ?ts nt)"
    have "create_explicit_task now ids race nt done_attempts ts = (Inr (ids ?a), ?ts @ [?t])"
      using False fresh by (subst create_explicit_task.simps) (simp add: insert_explicit_def Let_def)
    moreover have "get_row (?ts @ [?t]) (ids ?a) = Some ?t"
      using get_row_append [of ?ts ?t] fresh by (simp add: fresh_row_def)
    ultimately show ?thesis by (simp add: fresh_row_def initial_status_def)
  next
    case True
    then have "?a \<noteq> k" using assms(3) next_epoch_free by metis
    then have a: "?a < k" "?a < EXPLICIT_MAX_ATTEMPTS" using Suc.prems(1) assms(2) by auto
    then have "create_explicit_task now ids race nt done_attempts ts = create_explicit_task now ids race nt ?a ?ts"
      using True by (subst create_explicit_task.simps) (simp add: insert_explicit_def Let_def)
    then show ?thesis using Suc.hyps(1) [of ?a ?ts] Suc.hyps(2) a fresh by simp
  qed
qed

definition sample_request :: new_task where
  "sample_request = \<lparr>nt_repository_id = 7, nt_installation_id = 1, nt_delivery_id = ''d'',
    nt_target_type = PULL_REQUEST, nt_target_id = 3, nt_command = ''review'', nt_base_sha = None,
    nt_head_sha = Some ''abc'', nt_run_epoch = 0, nt_preset = ''fast'', nt_entry_point = ''pr_open'',
    nt_trigger_comment_id = None, nt_trace_context = None, nt_model_override = None, nt_check_runs_enabled = True, nt_run_after_secs = None\<rparr>"

theorem explicit_command_lands_witness:
  "case create_explicit_task 9 (\<lambda>n. ''id'' @ dec n)
      (\<lambda>n us. if n = 1 then us @ [fresh_row 8 ''rival'' sample_request (next_epoch us sample_request) 8 Queued] else us)
      sample_request 0 [] of
      (Inl e, ts') \<Rightarrow> False
    | (Inr i, ts') \<Rightarrow> (case get_row ts' i of None \<Rightarrow> False
        | Some t \<Rightarrow> tk_task t = sample_request \<and> tk_status t \<in> {Queued, WaitingForIndex})"
  by (rule explicit_command_lands [where k = 2])
    (auto simp: EXPLICIT_MAX_ATTEMPTS_def id_taken_def fresh_row_def)

section \<open>Waiting for the index\<close>

text \<open>Settling an index task through its status report releases every task of its repository that
  waits, whatever the terminal status; a debounced task keeps its later due time.\<close>

lemma index_settlement_releases:
  assumes "is_terminal status" "t \<in> set ts" "tk_id t = i" "command_of t = INDEX"
    and "u \<in> set (fst (snd (set_task_status now i status detail (ts, s))))" "repo_of u = repo_of t"
  shows "tk_status u \<noteq> WaitingForIndex"
proof -
  let ?ts = "update_where (\<lambda>u. tk_id u = i) (settled_row now status detail) ts"
  let ?t = "settled_row now status detail t"
  have "?t \<in> set ?ts" "tk_id ?t = i" "command_of ?t = INDEX" "repo_of ?t = repo_of t"
    using assms(2-4) by (auto simp: set_update_where settled_row_def)
  then have "repo_of u \<in> repo_of ` {x \<in> set ?ts. tk_id x = i \<and> command_of x = INDEX}"
    using assms(6) by (metis (mono_tags, lifting) image_eqI mem_Collect_eq)
  moreover have "u \<in> set (release_reviews_waiting_on_index now i ?ts)"
    using assms(1,5) by (simp add: set_task_status_def Let_def)
  ultimately show ?thesis
    by (auto simp: release_reviews_waiting_on_index_def Let_def set_update_where [of _ _ ?ts] split: if_splits)
qed

text \<open>Cancelling the index task through the admin action or with its repository does not: the reviews
  parked behind it stay parked, with no index in flight that could release them.\<close>

lemma cancelled_index_strands_reviews:
  assumes "ts = [fresh_row 0 ''ix'' (sample_request\<lparr>nt_command := INDEX\<rparr>) 0 0 Queued,
                 fresh_row 1 ''rv'' sample_request 0 1 WaitingForIndex]"
  shows "map tk_status (snd (cancel_task_by_id now ''ix'' ts)) = [Cancelled, WaitingForIndex]"
    and "map tk_status (snd (cancel_active_tasks_for_repo now 7 ts)) = [Cancelled, WaitingForIndex]"
    and "index_in_flight (snd (cancel_task_by_id now ''ix'' ts)) 7 = False"
    and "next_due later {} (snd (cancel_task_by_id now ''ix'' ts)) = None"
  by (simp_all add: assms fresh_row_def cancel_task_by_id_def cancel_active_tasks_for_repo_def cancel_where_def
      update_where_def cancelled_row_def sample_request_def index_in_flight_def INDEX_def next_due_def due_def)

section \<open>A report on a finished task\<close>

text \<open>
  A status report is applied to whatever row it names, finished or not: after a task was cancelled,
  a late \<open>running\<close> report makes it active again, without a lease, and from then on the reaper never
  lists it and no dispatcher claims it, at any time, until some other report settles it.
\<close>

theorem late_report_strands_a_cancelled_task:
  assumes "reachable_queue (ts, s)" "get_row ts i = Some t" "tk_status t = Cancelled"
  shows "(let ts' = fst (snd (set_task_status now i Running detail (ts, s)))
     in get_task_status ts' i = Some Running
        \<and> i \<notin> set (map tk_id (list_reapable_tasks later limit ts'))
        \<and> pred_option (\<lambda>c. tk_id c \<noteq> i) (fst (claim_next_task later owner lease locked ts')))"
proof -
  let ?ts = "update_where (\<lambda>u. tk_id u = i) (settled_row now Running detail) ts"
  have ok: "distinct (map tk_id ts)" "row_ok t"
    using reachable_ok [OF assms(1)] get_row_Some [OF assms(2)] by (auto simp: queue_ok_def list_all_iff)
  have t': "get_row ?ts i = Some (settled_row now Running detail t)"
    using assms(2) get_row_Some [OF assms(2)] by (simp add: get_row_update)
  have only: "u = settled_row now Running detail t" if "u \<in> set ?ts" "tk_id u = i" for u
    using get_row_in [of ?ts u] that t' ok(1) update_where_map(1) [OF statement_rows(5)] by simp
  have "tk_lease_expires_at t = None" using ok(2) assms(3) by (simp add: row_ok_def is_active_def)
  then have n: "\<not> reapable later u \<and> \<not> due later l u" if "u \<in> set ?ts" "tk_id u = i" for u l
    using only [OF that] by (simp add: reapable_def due_def settled_row_def is_terminal_def)
  have "fst (snd (set_task_status now i Running detail (ts, s))) = ?ts"
    by (simp add: set_task_status_def is_terminal_def)
  moreover have "i \<notin> set (map tk_id (list_reapable_tasks later limit ?ts))"
    using n set_take_subset [of limit "sort_key reap_key (filter (reapable later) ?ts)"]
    by (fastforce simp: list_reapable_tasks_def)
  moreover have "tk_id c \<noteq> i" if h: "fst (claim_next_task later owner lease locked ?ts) = Some c" for c
  proof -
    obtain u where u: "next_due later locked ?ts = Some u" "c = claimed_row later owner lease u"
      using h by (auto simp: claim_next_task_def split: option.splits)
    then show ?thesis using next_due_Some(1,2) [OF u(1)] n by (auto simp: claimed_row_def)
  qed
  ultimately show ?thesis
    using t' by (simp add: get_task_status_def Let_def option.pred_set settled_row_def)
qed


theorem late_report_strands_a_cancelled_task_witness:
  "\<exists>ts. (let ts' = fst (snd (set_task_status 9 ''a'' Running None (ts, [])))
     in get_task_status ts' ''a'' = Some Running
        \<and> ''a'' \<notin> set (map tk_id (list_reapable_tasks 99999 50 ts'))
        \<and> pred_option (\<lambda>c. tk_id c \<noteq> ''a'') (fst (claim_next_task 99999 ''w'' 60 {} ts')))"
proof -
  obtain t where t: "create_task 0 ''a'' sample_request [] = Inr (Some ''a'', [t])" "tk_id t = ''a''"
      "tk_status t = Queued"
    by (auto simp: create_task_def key_taken_def id_taken_def sample_request_def fresh_row_def
        initial_status_def index_in_flight_def)
  let ?ts = "snd (cancel_task_by_id 5 ''a'' [t])"
  have "queue_step ([], []) ([t], [])" by (rule Create [OF t(1)])
  moreover have "queue_step ([t], []) (?ts, [])" by (rule CancelOne)
  ultimately have r: "reachable_queue (?ts, [])"
    unfolding reachable_queue_def by (meson rtranclp.rtrancl_into_rtrancl rtranclp.rtrancl_refl)
  have "get_row ?ts ''a'' = Some (cancelled_row 5 t)"
    using t by (simp add: cancel_task_by_id_def update_where_def get_row_def cancelled_row_def)
  from late_report_strands_a_cancelled_task [OF r this]
  show ?thesis by (intro exI [of _ ?ts]) (simp add: cancelled_row_def)
qed

end
