(* ===== verification/Durable_Steps.thy ===== *)
theory Durable_Steps
  imports Step_Runtime Task_Queue
begin

text \<open>
  The journal of a run as production keeps it: the \<open>durable_step\<close> table and its statements
  (\<open>db/durable_step.rs\<close>), the two handlers of the internal API (\<open>http/internal.rs\<close>), the agent's client
  and its store (\<open>agent-clients/src/control_plane/durable_step.rs\<close>, \<open>checkpoint.rs\<close>), composed into the
  store the checkpointing runtime runs on. The database's \<open>jsonb\<close> cast and the hash are parameters.
\<close>

section \<open>Replies of the internal API\<close>

datatype 'a http_reply =
  Ok_Json 'a
| No_Content
| Bad_Request string
| Not_Found string
| Internal_Error string
| Bad_Gateway string
| Service_Unavailable string

text \<open>The database as a handler sees it: not configured, not answering, or answering.\<close>

datatype db_link = No_Pool | Down | Up

section \<open>The table\<close>

record step_row =
  sr_task :: string
  sr_run_epoch :: int
  sr_step :: string
  sr_result :: "string option"
  sr_content_hash :: string
  sr_created_at :: nat

type_synonym step_table = "step_row list"

definition run_epoch_of :: "tasks \<Rightarrow> string \<Rightarrow> int option" where
  "run_epoch_of ts i = map_option tk_run_epoch (get_row ts i)"

definition of_run :: "string \<Rightarrow> int \<Rightarrow> step_row \<Rightarrow> bool" where
  "of_run task e r \<longleftrightarrow> sr_task r = task \<and> sr_run_epoch r = e"

definition has_durable_steps :: "string \<Rightarrow> int \<Rightarrow> step_table \<Rightarrow> bool" where
  "has_durable_steps task e tab = list_ex (of_run task e) tab"

text \<open>The cast to \<open>jsonb\<close> fails on text that is not JSON and otherwise stores its normal form; the row
  keeps its creation time when it is overwritten.\<close>

definition upsert_durable_step ::
  "(string \<Rightarrow> string option) \<Rightarrow> nat \<Rightarrow> string \<Rightarrow> int \<Rightarrow> string \<Rightarrow> string \<Rightarrow> string \<Rightarrow> step_table
   \<Rightarrow> (sql_error, step_table) result" where
  "upsert_durable_step jsonb now task e step result_json hash tab =
     (case jsonb result_json of
        None \<Rightarrow> Inl CheckViolation
      | Some stored \<Rightarrow>
          (let key = (\<lambda>r. of_run task e r \<and> sr_step r = step) in
           Inr (if list_ex key tab
                then update_where key (\<lambda>r. r\<lparr>sr_result := Some stored, sr_content_hash := hash\<rparr>) tab
                else tab @ [\<lparr>sr_task = task, sr_run_epoch = e, sr_step = step, sr_result = Some stored,
                             sr_content_hash = hash, sr_created_at = now\<rparr>])))"

definition fetch_durable_step :: "string \<Rightarrow> int \<Rightarrow> string \<Rightarrow> step_table \<Rightarrow> (string option \<times> string) option" where
  "fetch_durable_step task e step tab =
     map_option (\<lambda>r. (sr_result r, sr_content_hash r)) (find (\<lambda>r. of_run task e r \<and> sr_step r = step) tab)"

definition purge_durable_steps :: "string \<Rightarrow> int \<Rightarrow> step_table \<Rightarrow> nat \<times> step_table" where
  "purge_durable_steps task e tab = (length (filter (of_run task e) tab), filter (\<lambda>r. \<not> of_run task e r) tab)"

text \<open>The sweep's retention is a validated, positive number of whole seconds (\<open>queue/replay.rs\<close>).\<close>

definition expired_step :: "nat \<Rightarrow> int \<Rightarrow> step_row \<Rightarrow> bool" where
  "expired_step now retention r \<longleftrightarrow> int (sr_created_at r) < int now - retention"

definition sweep_durable_steps :: "nat \<Rightarrow> int \<Rightarrow> step_table \<Rightarrow> nat \<times> step_table" where
  "sweep_durable_steps now retention tab =
     (if retention \<le> 0 then (0, tab)
      else (length (filter (expired_step now retention) tab), filter (\<lambda>r. \<not> expired_step now retention r) tab))"

definition DEFAULT_RETENTION :: int where "DEFAULT_RETENTION = 6 * 60 * 60"

datatype replay_config_error = NonPositive int | NotAnInteger string

definition retention_from_secs :: "int \<Rightarrow> (replay_config_error, int) result" where
  "retention_from_secs secs = (if secs \<le> 0 then Inl (NonPositive secs) else Inr secs)"

text \<open>\<open>parse_i64\<close> is the standard library's integer parser.\<close>

definition retention_from_env ::
  "(string \<Rightarrow> int option) \<Rightarrow> string option \<Rightarrow> (replay_config_error, int) result" where
  "retention_from_env parse_i64 var =
     (case var of
        None \<Rightarrow> Inr DEFAULT_RETENTION
      | Some raw \<Rightarrow> (case parse_i64 (trim raw) of
                      None \<Rightarrow> Inl (NotAnInteger raw)
                    | Some secs \<Rightarrow> retention_from_secs secs))"

section \<open>The handlers\<close>

definition upsert_step ::
  "serde \<Rightarrow> (string \<Rightarrow> string option) \<Rightarrow> nat \<Rightarrow> db_link \<Rightarrow> tasks \<Rightarrow> string \<Rightarrow> string \<Rightarrow> json \<Rightarrow> string
   \<Rightarrow> step_table \<Rightarrow> json http_reply \<times> step_table" where
  "upsert_step J jsonb now link ts i step value hash tab =
     (case link of
        No_Pool \<Rightarrow> (Service_Unavailable ''no database'', tab)
      | Down \<Rightarrow> (Internal_Error ''query error'', tab)
      | Up \<Rightarrow>
          (case run_epoch_of ts i of
             None \<Rightarrow> (Not_Found ''task not found'', tab)
           | Some e \<Rightarrow>
               (case upsert_durable_step jsonb now i e step (to_text J value) hash tab of
                  Inl _ \<Rightarrow> (Internal_Error ''store error'', tab)
                | Inr tab' \<Rightarrow> (No_Content, tab'))))"

definition stored_step :: "json \<Rightarrow> string \<Rightarrow> json" where
  "stored_step value hash = JObj [(''result'', value), (''content_hash'', JStr hash)]"

definition fetch_step :: "serde \<Rightarrow> db_link \<Rightarrow> tasks \<Rightarrow> string \<Rightarrow> string \<Rightarrow> step_table \<Rightarrow> json http_reply" where
  "fetch_step J link ts i step tab =
     (case link of
        No_Pool \<Rightarrow> Service_Unavailable ''no database''
      | Down \<Rightarrow> Internal_Error ''query error''
      | Up \<Rightarrow>
          (case run_epoch_of ts i of
             None \<Rightarrow> Not_Found ''task not found''
           | Some e \<Rightarrow>
               (case fetch_durable_step i e step tab of
                  None \<Rightarrow> Not_Found ''step not journaled''
                | Some (None, hash) \<Rightarrow> Ok_Json (stored_step JNull hash)
                | Some (Some stored, hash) \<Rightarrow>
                    (case from_text J stored of
                       None \<Rightarrow> Internal_Error ''corrupted store data''
                     | Some value \<Rightarrow> Ok_Json (stored_step value hash)))))"

section \<open>The agent's store\<close>

text \<open>\<open>send\<close> is a JSON value as the other side of the HTTP exchange reads it.\<close>

definition send :: "serde \<Rightarrow> json \<Rightarrow> json option" where
  "send J v = from_text J (to_text J v)"

definition http_failed :: step_error where
  "http_failed = Transient ''control plane rejected the request'' None"

definition store_upsert ::
  "serde \<Rightarrow> (string \<Rightarrow> string option) \<Rightarrow> nat \<Rightarrow> db_link \<Rightarrow> tasks \<Rightarrow> string
   \<Rightarrow> step_table \<Rightarrow> string \<Rightarrow> json \<Rightarrow> string \<Rightarrow> (step_error, unit) result \<times> step_table" where
  "store_upsert J jsonb now link ts i tab step value hash =
     (case send J value of
        None \<Rightarrow> (Inl http_failed, tab)
      | Some v \<Rightarrow>
          (case upsert_step J jsonb now link ts i step v hash tab of
             (No_Content, tab') \<Rightarrow> (Inr (), tab')
           | (Ok_Json _, tab') \<Rightarrow> (Inr (), tab')
           | (_, tab') \<Rightarrow> (Inl http_failed, tab')))"

definition store_fetch ::
  "serde \<Rightarrow> db_link \<Rightarrow> tasks \<Rightarrow> string \<Rightarrow> step_table \<Rightarrow> string \<Rightarrow> (step_error, json option) result" where
  "store_fetch J link ts i tab step =
     (case fetch_step J link ts i step tab of
        Not_Found _ \<Rightarrow> Inr None
      | Ok_Json reply \<Rightarrow>
          (case Option.bind (send J reply) (\<lambda>r. Option.bind (json_get r ''content_hash'') as_str) of
             None \<Rightarrow> Inl http_failed
           | Some _ \<Rightarrow> (case Option.bind (send J reply) (\<lambda>r. json_get r ''result'') of
                         None \<Rightarrow> Inl http_failed
                       | Some v \<Rightarrow> Inr (Some v)))
      | _ \<Rightarrow> Inl http_failed)"

definition control_plane_store ::
  "serde \<Rightarrow> (string \<Rightarrow> string option) \<Rightarrow> nat \<Rightarrow> db_link \<Rightarrow> tasks \<Rightarrow> string \<Rightarrow> step_table store_ops" where
  "control_plane_store J jsonb now link ts i =
     \<lparr>so_fetch = store_fetch J link ts i, so_upsert = store_upsert J jsonb now link ts i\<rparr>"

section \<open>The contract holds\<close>

text \<open>What the store needs of a value: the JSON texts on its way (request, \<open>jsonb\<close> column, response)
  all parse back to it, whatever the hash beside it.\<close>

definition storable_value :: "serde \<Rightarrow> (string \<Rightarrow> string option) \<Rightarrow> json \<Rightarrow> bool" where
  "storable_value J jsonb v \<longleftrightarrow>
     send J v = Some v \<and> Option.bind (jsonb (to_text J v)) (from_text J) = Some v
     \<and> (\<forall>h. send J (stored_step v h) = Some (stored_step v h))"

lemma fetch_update:
  assumes "\<And>r. Q (f r) = Q r" "\<And>r. P (f r) = P r"
  shows "find Q (update_where P f tab) =
     map_option (\<lambda>r. if P r then f r else r) (find Q tab)"
  using assms by (induction tab) (auto simp: update_where_def)

lemma find_append_end: "find P (xs @ ys) = (case find P xs of None \<Rightarrow> find P ys | Some x \<Rightarrow> Some x)"
  by (induction xs) auto

lemma find_ex: "list_ex P xs \<longleftrightarrow> find P xs \<noteq> None"
  by (auto simp: find_None_iff list_ex_iff)

lemma fetch_after_upsert:
  assumes "upsert_durable_step jsonb now task e step txt hash tab = Inr tab'"
  shows "fetch_durable_step task' e' step' tab' =
     (if task' = task \<and> e' = e \<and> step' = step then map_option (\<lambda>t. (Some t, hash)) (jsonb txt)
      else fetch_durable_step task' e' step' tab)"
proof -
  let ?key = "\<lambda>r. of_run task e r \<and> sr_step r = step"
  let ?q = "\<lambda>r. of_run task' e' r \<and> sr_step r = step'"
  obtain stored where st: "jsonb txt = Some stored" using assms
    by (auto simp: upsert_durable_step_def split: option.splits)
  let ?f = "\<lambda>r. r\<lparr>sr_result := Some stored, sr_content_hash := hash\<rparr>"
  have u: "find ?q (update_where ?key ?f tab) = map_option (\<lambda>r. if ?key r then ?f r else r) (find ?q tab)"
    by (rule fetch_update) (simp_all add: of_run_def)
  have other: "?key r \<longleftrightarrow> task' = task \<and> e' = e \<and> step' = step" if "?q r" for r
    using that by (auto simp: of_run_def)
  have found: "find ?q tab = Some r \<Longrightarrow> ?q r" for r by (auto simp: find_Some_iff)
  show ?thesis
  proof (cases "list_ex ?key tab")
    case True
    then have tab': "tab' = update_where ?key ?f tab" using assms st by (simp add: upsert_durable_step_def)
    show ?thesis
    proof (cases "task' = task \<and> e' = e \<and> step' = step")
      case same: True
      then have q: "?q = ?key" by simp
      then obtain r where r: "find ?q tab = Some r" using True by (auto simp: find_ex)
      have "?key r" using found [OF r] same by simp
      then have "find ?q tab' = Some (?f r)" unfolding tab' u r by simp
      then show ?thesis using same st by (simp add: fetch_durable_step_def)
    next
      case False
      have "find ?q tab' = find ?q tab"
        unfolding tab' u using found other False by (cases "find ?q tab") auto
      then show ?thesis using False by (auto simp: fetch_durable_step_def)
    qed
  next
    case False
    then have tab': "tab' = tab @ [\<lparr>sr_task = task, sr_run_epoch = e, sr_step = step, sr_result = Some stored,
                             sr_content_hash = hash, sr_created_at = now\<rparr>]"
      using assms st by (simp add: upsert_durable_step_def)
    have "find ?key tab = None" using False by (simp add: find_ex)
    then show ?thesis using st
      by (auto simp: fetch_durable_step_def tab' find_append_end of_run_def split: option.split)
  qed
qed

lemma store_fetch_stored:
  assumes "run_epoch_of ts i = Some e" "fetch_durable_step i e step tab = Some (Some stored, hash)"
    "from_text J stored = Some v" "send J (stored_step v hash) = Some (stored_step v hash)"
  shows "store_fetch J Up ts i tab step = Inr (Some v)"
  using assms by (simp add: store_fetch_def fetch_step_def stored_step_def)

interpretation cp: durable_store "control_plane_store J jsonb now Up ts i" "storable_value J jsonb"
  "\<lambda>_. run_epoch_of ts i \<noteq> None"
proof (unfold_locales, goal_cases)
  case (1 s k v h)
  then show ?case .
next
  case (2 s v k h)
  then obtain e where e: "run_epoch_of ts i = Some e" by blast
  obtain stored where st: "jsonb (to_text J v) = Some stored" "from_text J stored = Some v"
    using 2(2) by (auto simp: storable_value_def bind_eq_Some_conv)
  obtain tab' where tab': "upsert_durable_step jsonb now i e k (to_text J v) h s = Inr tab'"
    using st(1) by (auto simp: upsert_durable_step_def Let_def)
  have up: "snd (store_upsert J jsonb now Up ts i s k v h) = tab'"
    using 2(2) e tab' by (simp add: store_upsert_def upsert_step_def storable_value_def)
  have "store_fetch J Up ts i tab' k = Inr (Some v)"
    using 2(2) st fetch_after_upsert [OF tab', of i e k]
    by (intro store_fetch_stored [OF e]) (auto simp: storable_value_def)
  then show ?case by (simp add: control_plane_store_def up)
next
  case (3 s k' k v h)
  then obtain e where e: "run_epoch_of ts i = Some e" by blast
  have "fetch_durable_step i e k' (snd (store_upsert J jsonb now Up ts i s k v h)) = fetch_durable_step i e k' s"
    using 3(2) e fetch_after_upsert [where task' = i and e' = e and step' = k']
    by (auto simp: store_upsert_def upsert_step_def split: option.split sum.split)
  then show ?case by (simp add: control_plane_store_def store_fetch_def fetch_step_def e)
qed

section \<open>Other traffic on the table\<close>

definition keeps_step :: "string \<Rightarrow> int \<Rightarrow> string \<Rightarrow> step_table \<Rightarrow> step_table \<Rightarrow> bool" where
  "keeps_step task e step tab tab' \<longleftrightarrow> fetch_durable_step task e step tab' = fetch_durable_step task e step tab"

lemma kept_by_upsert:
  "upsert_durable_step jsonb now task' e' step' txt h tab = Inr tab' \<Longrightarrow>
     task' \<noteq> task \<or> e' \<noteq> e \<or> step' \<noteq> step \<Longrightarrow> keeps_step task e step tab tab'"
  by (auto simp: keeps_step_def fetch_after_upsert)

lemma find_filter: "(\<And>r. r \<in> set tab \<Longrightarrow> Q r \<Longrightarrow> P r) \<Longrightarrow> find Q (filter P tab) = find Q tab"
  by (induction tab) auto

lemma kept_by_purge:
  "task' \<noteq> task \<or> e' \<noteq> e \<Longrightarrow> keeps_step task e step tab (snd (purge_durable_steps task' e' tab))"
  unfolding keeps_step_def fetch_durable_step_def purge_durable_steps_def snd_conv
  by (subst find_filter) (auto simp: of_run_def)

lemma kept_by_sweep:
  assumes "list_all (\<lambda>r. int now \<le> int (sr_created_at r) + retention) (filter (\<lambda>r. of_run task e r \<and> sr_step r = step) tab)"
  shows "keeps_step task e step tab (snd (sweep_durable_steps now retention tab))"
proof (cases "retention \<le> 0")
  case False
  have "find (\<lambda>r. of_run task e r \<and> sr_step r = step) (filter (\<lambda>r. \<not> expired_step now retention r) tab)
      = find (\<lambda>r. of_run task e r \<and> sr_step r = step) tab"
    using assms by (intro find_filter) (fastforce simp: list_all_iff expired_step_def)
  then show ?thesis using False by (simp add: keeps_step_def fetch_durable_step_def sweep_durable_steps_def)
qed (simp add: keeps_step_def sweep_durable_steps_def)

text \<open>
  The statements other requests issue between two attempts of a run \<open>(task, e)\<close> whose steps \<open>K\<close> are
  journaled: any upsert but one of these steps, purges of other runs (an earlier epoch of the task, or
  another task), and sweeps at a time when the rows of these steps are still within the retention.
\<close>

inductive traffic :: "string \<Rightarrow> int \<Rightarrow> string set \<Rightarrow> step_table \<Rightarrow> step_table \<Rightarrow> bool"
  for task :: string and e :: int and K :: "string set" and tab :: step_table where
  quiet: "traffic task e K tab tab"
| upserted: "traffic task e K tab tab1 \<Longrightarrow> task' \<noteq> task \<or> e' \<noteq> e \<or> step' \<notin> K
    \<Longrightarrow> upsert_durable_step jsonb now task' e' step' txt h tab1 = Inr tab2 \<Longrightarrow> traffic task e K tab tab2"
| purged: "traffic task e K tab tab1 \<Longrightarrow> task' \<noteq> task \<or> e' \<noteq> e
    \<Longrightarrow> traffic task e K tab (snd (purge_durable_steps task' e' tab1))"
| swept: "traffic task e K tab tab1
    \<Longrightarrow> list_all (\<lambda>r. int now \<le> int (sr_created_at r) + retention) (filter (\<lambda>r. of_run task e r \<and> sr_step r \<in> K) tab1)
    \<Longrightarrow> traffic task e K tab (snd (sweep_durable_steps now retention tab1))"

lemma traffic_keeps:
  assumes "traffic task e K tab tab'" "step \<in> K"
  shows "keeps_step task e step tab tab'"
  using assms(1)
proof induction
  case quiet
  then show ?case by (simp add: keeps_step_def)
next
  case (upserted tab1 task' e' step' jsonb now body h tab2)
  have "keeps_step task e step tab1 tab2"
    using upserted.hyps assms(2) by (intro kept_by_upsert) auto
  with upserted.IH show ?case by (simp add: keeps_step_def)
next
  case (purged tab1 task' e')
  from kept_by_purge [OF purged.hyps(2), of step tab1] purged.IH show ?case by (simp add: keeps_step_def)
next
  case (swept tab1 now retention)
  have "keeps_step task e step tab1 (snd (sweep_durable_steps now retention tab1))"
    using swept.hyps(2) assms(2) by (intro kept_by_sweep) (auto simp: list_all_iff)
  with swept.IH show ?case by (simp add: keeps_step_def)
qed

section \<open>What the journal gives a run\<close>

lemma fetched: "so_fetch (control_plane_store J jsonb now link ts i) = store_fetch J link ts i"
  by (simp add: control_plane_store_def)

lemma journal_fetch:
  "cp.journal_of J jsonb now ts i tab n =
     (case store_fetch J Up ts i tab (step_name_text n) of
        Inr (Some value) \<Rightarrow> deserialize_value (name_type n) value
      | _ \<Rightarrow> None)"
  by (simp add: cp.journal_of_def replayed_value_def fetched split: sum.split option.split)

text \<open>
  The journal fails open: with no database, an unreachable one or an unknown task, every step simply
  runs, with its own result and error, and the table is left alone; no store fault reaches the run.
\<close>

lemma journal_fails_open:
  "link = Up \<and> run_epoch_of ts i \<noteq> None
   \<or> checkpoint_step (control_plane_store J jsonb now link ts i) hash ty n f (tab, x) = (fst (f x), (tab, snd (f x)))"
  by (cases link; cases "run_epoch_of ts i")
    (auto simp: checkpoint_step_def control_plane_store_def replayed_value_def store_fetch_def fetch_step_def
      store_upsert_def upsert_step_def split: prod.splits sum.splits option.splits)

text \<open>
  C34. A step whose value reached the journal is answered from it. Suppose the step ran while the
  database answered and its value was stored (the value survives the JSON texts on its way to the
  \<open>jsonb\<close> column and back). After any other traffic on the table (\<open>traffic\<close>: other runs' and other
  steps' upserts, purges of other runs, sweeps within the retention of its row), asking for the step
  again under the same run epoch, in any world and with any effect, depends only on the database: if
  it answers, the stored value is returned and nothing runs; if it does not, the step simply runs
  again (the journal fails open), with its own result, and the table is left alone.
\<close>

theorem journaled_step_never_reruns:
  assumes "run_epoch_of ts i = Some e" "fetch_durable_step i e (step_name_text n) tab = None"
    and "f x = (Inr v, x')" "plain_value v" "value_type v = name_type n"
    and "serialize_value v = Some j" "storable_value J jsonb j"
    and "checkpoint_step (control_plane_store J jsonb now Up ts i) hash (name_type n) n f (tab, x) = (res, (mid, z))"
    and "traffic i e {step_name_text n} mid tab'" "run_epoch_of ts' i = Some e"
  shows "res = Inr v \<and> z = x'
     \<and> checkpoint_step (control_plane_store J jsonb now' link ts' i) hash' (name_type n) n g (tab', y)
       = (if link = Up then (Inr v, (tab', y)) else (fst (g y), (tab', snd (g y))))"
proof -
  let ?ops = "control_plane_store J jsonb now Up ts i"
  have u: "run_epoch_of ts i \<noteq> None" "run_epoch_of ts' i \<noteq> None" using assms(1,10) by simp_all
  have none: "cp.journal_of J jsonb now ts i tab n = None"
    using assms(1,2) by (simp add: journal_fetch store_fetch_def fetch_step_def)
  have ok: "cp.journalable J jsonb v" using assms(4,6,7) by (simp add: cp.journalable_def)
  from cp.execute [where f = f and x = x and hash = hash, OF u(1) none assms(3) ok assms(5)] obtain r where
    r: "checkpoint_step ?ops hash (name_type n) n f (tab, x) = (Inr v, (r, x'))"
      "cp.journal_of J jsonb now ts i r = (cp.journal_of J jsonb now ts i tab)(n \<mapsto> v)" by blast
  have first: "res = Inr v" "mid = r" "z = x'" using assms(8) r(1) by simp_all
  have "keeps_step i e (step_name_text n) mid tab'" using traffic_keeps [OF assms(9)] by simp
  then have "store_fetch J Up ts' i tab' (step_name_text n) = store_fetch J Up ts i r (step_name_text n)"
    using assms(1,10) first by (simp add: store_fetch_def fetch_step_def keeps_step_def)
  moreover have "cp.journal_of J jsonb now ts i r n = Some v" using r(2) by simp
  ultimately have "cp.journal_of J jsonb now' ts' i tab' n = Some v" by (simp add: journal_fetch)
  from cp.replay [OF u(2) this] first journal_fails_open [of link ts' i] show ?thesis by auto
qed

definition demo_serde :: serde where
  "demo_serde = \<lparr>to_text = (\<lambda>v. case v of JObj [_, (_, JStr h)] \<Rightarrow> ''O'' @ h | _ \<Rightarrow> ''F''),
     from_text = (\<lambda>s. case s of [] \<Rightarrow> None
        | c # h \<Rightarrow> if c = CHR ''O'' then Some (stored_step (JStr ''Finish'') h) else Some (JStr ''Finish''))\<rparr>"

theorem journaled_step_never_reruns_witness:
  "\<exists>tab. length tab = 1
     \<and> checkpoint_step (control_plane_store demo_serde Some 9 Up [fresh_row 0 ''t'' sample_request 0 0 Running] ''t'')
         (\<lambda>_. ''h'') (name_type (Write_tool 0 ''c'')) (Write_tool 0 ''c'') (\<lambda>n. (Inl (Terminal ''ran''), n + 1)) (tab, 5 :: nat)
       = (Inr (OutcomeValue Finish), (tab, 5))"
proof -
  let ?ts = "[fresh_row 0 ''t'' sample_request 0 0 Running]"
  let ?r = "checkpoint_step (control_plane_store demo_serde Some 1 Up ?ts ''t'') (\<lambda>_. ''h'')
      (name_type (Write_tool 0 ''c'')) (Write_tool 0 ''c'') (\<lambda>n. (Inr (OutcomeValue Finish), n + 1)) ([], 0 :: nat)"
  have e: "run_epoch_of ?ts ''t'' = Some 0" by (simp add: run_epoch_of_def get_row_def fresh_row_def)
  have s: "serialize_value (OutcomeValue Finish) = Some (JStr ''Finish'')" by simp
  have st: "storable_value demo_serde Some (JStr ''Finish'')"
    by (simp add: storable_value_def send_def demo_serde_def stored_step_def)
  have "length (fst (snd ?r)) = 1"
    by (simp add: checkpoint_step_def replayed_value_def control_plane_store_def store_fetch_def fetch_step_def e
        fetch_durable_step_def store_upsert_def upsert_step_def upsert_durable_step_def send_def demo_serde_def)
  moreover have "traffic ''t'' 0 {step_name_text (Write_tool 0 ''c'')} (fst (snd ?r))
      (snd (purge_durable_steps ''other'' 0 (fst (snd ?r))))"
    by (rule traffic.purged [OF traffic.quiet]) simp
  moreover have "snd (purge_durable_steps ''other'' 0 (fst (snd ?r))) = fst (snd ?r)"
    by (simp add: checkpoint_step_def replayed_value_def control_plane_store_def store_fetch_def fetch_step_def e
        fetch_durable_step_def store_upsert_def upsert_step_def upsert_durable_step_def send_def demo_serde_def
        purge_durable_steps_def of_run_def)
  ultimately show ?thesis
    using journaled_step_never_reruns [OF e _ _ _ _ s st _ _ e, where n = "Write_tool 0 ''c''" and tab = "[]"
        and f = "\<lambda>n. (Inr (OutcomeValue Finish), n + 1)" and x = "0 :: nat" and x' = 1 and now = 1
        and res = "fst ?r" and mid = "fst (snd ?r)" and z = "snd (snd ?r)"
        and tab' = "fst (snd ?r)" and hash = "\<lambda>_. ''h''" and hash' = "\<lambda>_. ''h''" and now' = 9 and link = Up
        and g = "\<lambda>n. (Inl (Terminal ''ran''), n + 1)" and y = "5 :: nat"]
    by (intro exI [of _ "fst (snd ?r)"])
      (simp add: fetch_durable_step_def plain_value_def)
qed

text \<open>
  The retention guard: a configured retention is refused with a typed error exactly when it is not a
  whole number of seconds or not positive, and under any accepted one the sweep keeps every row
  written within the window, so no configuration sweeps a run in flight.
\<close>

theorem retention_is_guarded:
  "case retention_from_env parse_i64 var of
     Inl (NotAnInteger raw) \<Rightarrow> var = Some raw \<and> parse_i64 (trim raw) = None
   | Inl (NonPositive secs) \<Rightarrow> secs \<le> 0 \<and> Option.bind var (\<lambda>raw. parse_i64 (trim raw)) = Some secs
   | Inr retention \<Rightarrow> 0 < retention
       \<and> snd (sweep_durable_steps now retention tab) = filter (\<lambda>r. int now - int (sr_created_at r) \<le> retention) tab"
proof -
  have f: "(\<lambda>r. \<not> expired_step now s r) = (\<lambda>r. int now - int (sr_created_at r) \<le> s)" for s
    by (auto simp: expired_step_def)
  have d: "0 < DEFAULT_RETENTION" by (simp add: DEFAULT_RETENTION_def)
  show ?thesis
    using d by (auto simp: retention_from_env_def retention_from_secs_def sweep_durable_steps_def f
        split: option.split)
qed

end
