(* ===== verification/Finish_Budget.thy ===== *)
theory Finish_Budget
  imports Loop_Properties
begin

text \<open>
  Why a run that wants to finish does finish. The contract says of a set of policies that each can
  reject only so many finishes; the loop's client lemma says that a model that keeps calling a
  terminal tool is then let through after at most that many bounces, however the policies narrow,
  nudge or trim.
\<close>

locale bouncing_policies =
  fixes ops :: "('p, 'x) policy_ops"
    and left :: "'p \<Rightarrow> nat"
    and ok :: "'p \<Rightarrow> bool"
  assumes ok_before: "ok p \<Longrightarrow> ok (snd (po_before ops p st))"
    and left_before: "ok p \<Longrightarrow> left (snd (po_before ops p st)) = left p"
    and no_force: "ok p \<Longrightarrow> \<not> list_ex is_force_finish (fst (po_before ops p st))"
    and no_guard: "ok p \<Longrightarrow> GuardOffered \<notin> set (fst (po_before ops p st))"
    and ok_after: "ok p \<Longrightarrow> ok (snd (po_after ops x p st out))"
    and left_after: "ok p \<Longrightarrow> left (snd (po_after ops x p st out))
          + (if rejects (fst (po_after ops x p st out)) then 1 else 0) \<le> left p"

definition total_left :: "('p \<Rightarrow> nat) \<Rightarrow> 'p list \<Rightarrow> nat" where
  "total_left left ps = sum_list (map left ps)"

text \<open>An agent whose model answers every request with calls to one terminal tool that accepts.\<close>

definition insists_on :: "string \<Rightarrow> ('p, 'r, 'x) agent \<Rightarrow> bool" where
  "insists_on nm A \<longleftrightarrow>
     ag_step A = passthrough_step
     \<and> (\<forall>request x. \<exists>t x'. ag_model A request x = (Inr t, x') \<and> at_tool_calls t \<noteq> []
           \<and> list_all (\<lambda>c. call_name c = nm) (at_tool_calls t))
     \<and> (\<exists>tool. find_tool (ag_tools A) nm = Some tool \<and> t_kind tool = TerminalK
           \<and> t_replay tool = Idempotent \<and> (\<forall>c w. fst (t_call tool c w) = Finish))"

lemma after_action_reject:
  "ac_reject (after_action turn name c a) \<longleftrightarrow> ac_reject c \<or> is_reject a"
  by (cases a) auto

lemma after_actions_reject:
  "ac_reject (foldl (after_action turn name) c as) \<longleftrightarrow> ac_reject c \<or> rejects as"
  by (induction as arbitrary: c) (auto simp: after_action_reject)

lemma before_action_guard:
  "tx_guard_offered (before_action J base turn name c a) \<longleftrightarrow> tx_guard_offered c \<or> a = GuardOffered"
  by (cases a) (auto simp: trim_action_def tx_narrow_def tx_push_def tx_record_def Let_def split_def
      split: option.split)

lemma before_actions_guard:
  "tx_guard_offered (foldl (before_action J base turn name) c as) \<longleftrightarrow>
     tx_guard_offered c \<or> GuardOffered \<in> set as"
  by (induction as arbitrary: c) (auto simp: before_action_guard)

text \<open>The calls of an insisting model all come back as \<open>Finish\<close>.\<close>

lemma insist_outcome:
  assumes "insists_on nm A" "call_name call = nm"
  shows "\<exists>x'. call_outcome A turn False offered Map.empty i call (r, x) = (Inr Finish, (r, x'))"
proof -
  obtain tool where t: "find_tool (ag_tools A) nm = Some tool" "t_replay tool = Idempotent"
    "\<And>c w. fst (t_call tool c w) = Finish"
    using assms(1) by (auto simp: insists_on_def)
  then have "tool_replay_of (ag_tools A) nm = Some Idempotent" by (simp add: tool_replay_of_def)
  moreover have "\<exists>x'. write_effect A call x = (Inr (OutcomeValue Finish), x')"
    using t assms(2) by (auto simp: write_effect_def view_all dispatch_def find_tool_def split_def Let_def)
  moreover have "ag_step A = passthrough_step" using assms(1) by (simp add: insists_on_def)
  ultimately show ?thesis using assms(2) by (auto simp: call_outcome_def passthrough_step_def)
qed

lemma insist_run_calls:
  assumes "insists_on nm A"
  shows "list_all (\<lambda>(i, c). call_name c = nm) calls \<Longrightarrow>
    \<exists>cc x'. run_calls A turn False offered Map.empty calls c0 (r, x) = (None, cc, (r, x'))
       \<and> (cc_finish cc \<longleftrightarrow> cc_finish c0 \<or> calls \<noteq> []) \<and> cc_abort cc = cc_abort c0"
proof (induction calls arbitrary: c0 x)
  case (Cons ic rest)
  obtain i call where ic: "ic = (i, call)" "call_name call = nm" using Cons.prems by (cases ic) auto
  obtain x1 where "call_outcome A turn False offered Map.empty i call (r, x) = (Inr Finish, (r, x1))"
    using insist_outcome [OF assms ic(2)] by blast
  moreover obtain cc x' where "run_calls A turn False offered Map.empty rest
      (note_outcome A turn call Finish c0) (r, x1) = (None, cc, (r, x'))"
    "cc_finish cc" "cc_abort cc = cc_abort c0"
    using Cons.IH [of "note_outcome A turn call Finish c0" x1] Cons.prems
    by (auto simp: note_outcome_simps)
  ultimately show ?case using ic by auto
qed auto

lemma insist_no_reads:
  assumes "insists_on nm A" "list_all (\<lambda>c. call_name c = nm) calls"
  shows "read_indices (ag_tools A) guard offered calls = []"
proof -
  have "tool_kind_of (ag_tools A) nm = Some TerminalK"
    using assms(1) by (auto simp: insists_on_def tool_kind_of_def)
  then show ?thesis
    using assms(2) by (auto simp: read_indices_def filter_empty_conv is_read_only_def list_all_iff
        in_set_enumerate_eq)
qed

context bouncing_policies
begin

lemma before_policies_ok:
  assumes "ag_ops A = ops"
  shows "list_all ok ps \<Longrightarrow>
    list_all ok (fst (before_policies A turn stats ps c))
    \<and> total_left left (fst (before_policies A turn stats ps c)) = total_left left ps
    \<and> (tx_force_finish (snd (before_policies A turn stats ps c)) \<longleftrightarrow> tx_force_finish c)
    \<and> (tx_guard_offered (snd (before_policies A turn stats ps c)) \<longleftrightarrow> tx_guard_offered c)"
  by (induction ps arbitrary: c)
     (auto simp: assms Let_def split_def total_left_def ok_before left_before no_force no_guard
       before_actions_force before_actions_guard)

lemma after_policies_left:
  assumes "ag_ops A = ops"
  shows "list_all ok ps \<Longrightarrow>
    list_all ok (fst (after_policies A turn conv x out ps c))
    \<and> total_left left (fst (after_policies A turn conv x out ps c))
        + (if ac_reject (snd (after_policies A turn conv x out ps c)) \<and> \<not> ac_reject c then 1 else 0)
      \<le> total_left left ps"
proof (induction ps arbitrary: c)
  case (Cons p ps)
  let ?st = "policy_turn_state A turn (ac_messages c) (ac_stats c) conv"
  let ?r = "po_after ops x p ?st out"
  let ?c = "foldl (after_action turn (po_name ops p)) c (fst ?r)"
  have ok: "ok p" "list_all ok ps" using Cons.prems by simp_all
  from Cons.IH [OF ok(2), of ?c] left_after [OF ok(1), of x ?st out] ok_after [OF ok(1), of x ?st out]
  show ?case
    by (auto simp: assms Let_def split_def total_left_def after_actions_reject split: if_splits)
qed (simp add: total_left_def)

text \<open>
  One turn of an insisting model without the guard: it finishes, or a policy has spent a bounce.
\<close>

lemma conclude_finishes:
  assumes "ag_ops A = ops" "list_all ok (ls_policies s)"
    and "to_finish_requested out" "to_abort_reason out = None"
  shows "\<exists>s'. (conclude_turn A turn conv out s = (Inr (Return Finished), s')
        \<or> conclude_turn A turn conv out s = (Inr FlowContinue, s') \<and> list_all ok (ls_policies s')
          \<and> total_left left (ls_policies s') < total_left left (ls_policies s))"
proof -
  let ?c0 = "\<lparr>ac_messages = ls_messages s, ac_sink = ls_sink s, ac_stats = ls_stats s, ac_reject = False\<rparr>"
  from after_policies_left [OF assms(1,2), of turn conv "ls_world s" out ?c0] assms(3,4)
  show ?thesis
    by (cases "ac_reject (snd (after_policies A turn conv (ls_world s) out (ls_policies s) ?c0))")
       (auto simp: conclude_turn_def finish_turn_def Let_def split_def)
qed

lemma insist_turn:
  assumes "ag_ops A = ops" "insists_on nm A" "list_all ok (ls_policies s)"
  shows "\<exists>s'. (run_turn A turn s = (Inr (Return Finished), s')
        \<or> run_turn A turn s = (Inr FlowContinue, s') \<and> list_all ok (ls_policies s')
          \<and> total_left left (ls_policies s') < total_left left (ls_policies s))"
proof -
  obtain c s1 where b: "begin_turn A turn s = (c, s1)" by (rule prod.exhaust)
  have s1: "list_all ok (ls_policies s1)" "total_left left (ls_policies s1) = total_left left (ls_policies s)"
    "\<not> tx_force_finish c" "\<not> tx_guard_offered c"
    using b before_policies_ok [OF assms(1,3), of turn "ls_stats s"]
    by (auto simp: begin_turn_def Let_def split_def)
  define offered where "offered = view (ag_tools A) (tx_filter c)"
  define request where "request = turn_request A (ls_messages s1) (view_specs offered)"
  obtain t x1 where m: "ag_model A request (ls_world s1) = (Inr t, x1)" "at_tool_calls t \<noteq> []"
    "list_all (\<lambda>c. call_name c = nm) (at_tool_calls t)"
    using assms(2) unfolding insists_on_def by blast
  have step: "ag_step A = passthrough_step" using assms(2) by (simp add: insists_on_def)
  have call: "call_model A turn request (ls_rt s1, ls_world s1) = (Inr t, (ls_rt s1, x1))"
    by (simp add: call_model_def step passthrough_step_def model_effect_def m)
  let ?m = "assistant_message t" and ?calls = "at_tool_calls t"
  define s2 where "s2 = s1\<lparr>ls_world := x1, ls_consecutive_failures := 0,
      ls_sink := ls_sink s1 @ [EvAssistant turn ?m (at_telemetry t)],
      ls_messages := ls_messages s1 @ [?m]\<rparr>"
  have turn: "run_turn A turn s = run_tools A turn c offered ?m s2"
    using b s1(3) call m(2)
    by (simp add: run_turn_def Let_def after_completion_def offered_def [symmetric]
        request_def [symmetric] s2_def)
  have idx: "read_indices (ag_tools A) False offered ?calls = []"
    by (rule insist_no_reads [OF assms(2) m(3)])
  have "list_all (\<lambda>(i, c). call_name c = nm) (enumerate 0 ?calls)"
    using m(3) by (auto simp: list_all_iff in_set_enumerate_eq)
  from insist_run_calls [OF assms(2) this, of turn offered
      "start_calls (call_stats (ag_tools A) [] ?calls (ls_stats s2)) s2" "ls_rt s2" "ls_world s2"]
  obtain cc x' where k: "run_calls A turn False offered Map.empty (enumerate 0 ?calls)
      (start_calls (call_stats (ag_tools A) [] ?calls (ls_stats s2)) s2) (ls_rt s2, ls_world s2)
      = (None, cc, (ls_rt s2, x'))" "cc_finish cc" "cc_abort cc = None"
    using m(2) by (cases ?calls) (auto simp: start_calls_def)
  have "run_tools A turn c offered ?m s2
        = conclude_turn A turn (tx_converging c) (outcome_of ?m cc) (after_calls cc (ls_rt s2, x') s2)"
    using s1(4) idx k(1) by (simp add: run_tools_def Let_def run_batch_def)
  moreover have pol: "ls_policies (after_calls cc (ls_rt s2, x') s2) = ls_policies s1"
    by (simp add: after_calls_def s2_def)
  ultimately show ?thesis
    using conclude_finishes [of A "after_calls cc (ls_rt s2, x') s2" "outcome_of ?m cc" turn "tx_converging c"]
      assms(1) s1(1,2) k(2,3) turn
    by (simp add: outcome_of_def)
qed

lemma insist_turns:
  assumes "ag_ops A = ops" "insists_on nm A"
  shows "list_all ok (ls_policies s) \<Longrightarrow> total_left left (ls_policies s) < length turns \<Longrightarrow>
         fst (run_turns A turns s) = Inr (Some Finished)"
proof (induction turns arbitrary: s)
  case (Cons turn rest)
  from insist_turn [OF assms Cons.prems(1), of turn] obtain s' where
    "run_turn A turn s = (Inr (Return Finished), s')
     \<or> run_turn A turn s = (Inr FlowContinue, s') \<and> list_all ok (ls_policies s')
       \<and> total_left left (ls_policies s') < total_left left (ls_policies s)" by blast
  then show ?case using Cons.IH [of s'] Cons.prems(2) by auto
qed simp

lemma insisting_run_finishes:
  assumes "ag_ops A = ops" "insists_on nm A" "list_all ok (ls_policies s)"
    and "total_left left (ls_policies s) < ll_max_turns (ag_limits A)"
  shows "fst (run_loop A s) = Inr Finished"
  using insist_turns [OF assms(1-3), of "[0..<ll_max_turns (ag_limits A)]"] assms(4)
  by (auto simp: run_loop_def split_def split: sum.split option.split prod.split)

end

end
