(* ===== verification/Loop_Policies.thy ===== *)
theory Loop_Policies
  imports Loop_Driver
begin

text \<open>
  The generic policies of the loop (\<open>services/agent-loop/src/policy.rs\<close>): trimming the context window,
  winding down near the end of a budget, the read budgets and the half-way reminder. A policy is its
  object (a record of the struct's fields) and its hook; hooks that a policy does not override return
  no action.
\<close>

text \<open>The two symbols the nudges start with and the dash, as UTF-8 bytes.\<close>

definition hourglass :: string where
  "hourglass = [CHR 0xE2, CHR 0x8F, CHR 0xB3]"

definition page_icon :: string where
  "page_icon = [CHR 0xF0, CHR 0x9F, CHR 0x93, CHR 0x84]"

definition lens_icon :: string where
  "lens_icon = [CHR 0xF0, CHR 0x9F, CHR 0x94, CHR 0x8E]"

definition em_dash :: string where
  "em_dash = [CHR 0xE2, CHR 0x80, CHR 0x94]"

definition ellipsis_char :: string where
  "ellipsis_char = [CHR 0xE2, CHR 0x80, CHR 0xA6]"

definition stop_advice :: string where
  "stop_advice = ''. Stop investigating '' @ em_dash
     @ '' record any remaining findings now with add_review_comment/add_comment, then call `finish` with your overall verdict. (The investigation tools are no longer available.)''"

section \<open>Context window\<close>

record context_window_trim =
  cw_context_window :: "nat option"
  cw_announced :: bool

definition context_window_trim_new :: "nat option \<Rightarrow> context_window_trim" where
  "context_window_trim_new window = \<lparr>cw_context_window = window, cw_announced = False\<rparr>"

text \<open>
  The code computes the target as the floor of \<open>window * 0.75\<close> in double precision, which is exact
  for every window below \<open>2^51\<close> tokens.
\<close>

definition trim_target :: "nat \<Rightarrow> nat" where
  "trim_target window = 3 * window div 4"

definition context_window_trim_before ::
  "serde \<Rightarrow> context_window_trim \<Rightarrow> turn_state \<Rightarrow> policy_action list \<times> context_window_trim" where
  "context_window_trim_before J p st =
     (case cw_context_window p of
        None \<Rightarrow> ([], p)
      | Some window \<Rightarrow>
          (let target = trim_target window;
               estimate = estimate_tokens J (st_messages st) (st_base_tools st)
           in if estimate < target then ([], p)
              else
                (let preview = fst (trim_tool_history J (st_messages st) (st_base_tools st) target);
                     remains_over = estimate_tokens J preview (st_base_tools st) \<ge> target;
                     (convergence, announced) =
                       (if cw_announced p
                        then (if remains_over then Some (convergence_filter, None, None) else None,
                              cw_announced p)
                        else if remains_over
                        then (Some (convergence_filter,
                                    Some (Nudge (hourglass @ '' Context budget nearly full'' @ stop_advice)),
                                    Some (JObj [(''reason'', JStr ''Context budget nearly full'')])),
                              True)
                        else (None, cw_announced p))
                 in ([TrimHistory target convergence], p\<lparr>cw_announced := announced\<rparr>))))"

section \<open>Wind-down\<close>

record wind_down =
  wd_max_turns :: nat
  wd_max_batches :: nat
  wd_announced :: bool
  wd_disabled :: bool
  wd_assembly_filter :: turn_filter

definition wind_down_new :: "nat \<Rightarrow> nat \<Rightarrow> wind_down" where
  "wind_down_new max_turns max_batches =
     \<lparr>wd_max_turns = max_turns, wd_max_batches = max_batches, wd_announced = False,
      wd_disabled = False, wd_assembly_filter = filter_all\<rparr>"

definition wind_down_with_filter :: "wind_down \<Rightarrow> turn_filter \<Rightarrow> wind_down" where
  "wind_down_with_filter p f = p\<lparr>wd_assembly_filter := f\<rparr>"

definition wind_down_before :: "wind_down \<Rightarrow> turn_state \<Rightarrow> policy_action list \<times> wind_down" where
  "wind_down_before p st =
     (if wd_disabled p \<or> st_converging st then ([], p)
      else
        (let boundary = winddown_turn (wd_max_turns p);
             batches_spent = batches (st_stats st) \<ge> wd_max_batches p
         in if st_turn st < boundary \<and> \<not> batches_spent then ([], p)
            else
              (let narrowed = narrow convergence_filter (wd_assembly_filter p)
               in if \<not> wd_announced p
                  then
                    (let reason =
                       (if batches_spent \<and> st_turn st < boundary
                        then ''Investigation batch budget spent ('' @ dec (batches (st_stats st)) @ ''/''
                               @ dec (wd_max_batches p) @ '' batches)''
                        else ''Turn budget almost spent (turn '' @ dec (st_turn st) @ ''/''
                               @ dec (wd_max_turns p) @ '')'')
                     in ([Record None (JObj [(''reason'', JStr reason)]),
                          Converge narrowed (Nudge (hourglass @ '' '' @ reason @ stop_advice))],
                         p\<lparr>wd_announced := True\<rparr>))
                  else ([Narrow narrowed], p))))"

section \<open>Read budgets\<close>

record read_budgets =
  rb_max_files :: nat
  rb_max_searches :: nat
  rb_files_announced :: bool
  rb_searches_announced :: bool
  rb_disabled :: bool

definition read_budgets_new :: "nat \<Rightarrow> nat \<Rightarrow> read_budgets" where
  "read_budgets_new max_files max_searches =
     \<lparr>rb_max_files = max_files, rb_max_searches = max_searches, rb_files_announced = False,
      rb_searches_announced = False, rb_disabled = False\<rparr>"

definition files_nudge :: "nat \<Rightarrow> string" where
  "files_nudge n = page_icon @ '' You've read '' @ dec n
     @ '' files (the read_file budget). Stop opening files '' @ em_dash
     @ '' work from what you have, record findings, and head toward `finish`.''"

definition searches_nudge :: "nat \<Rightarrow> string" where
  "searches_nudge n = lens_icon @ '' You've run '' @ dec n
     @ '' searches (the retrieval budget). Stop searching '' @ em_dash
     @ '' record findings from what you've found and head toward `finish`.''"

definition read_budgets_before :: "read_budgets \<Rightarrow> turn_state \<Rightarrow> policy_action list \<times> read_budgets" where
  "read_budgets_before p st =
     (if rb_disabled p \<or> st_converging st then ([], p)
      else
        (let files = files_read (st_stats st);
             searched = searches (st_stats st);
             files_spent = files \<ge> rb_max_files p;
             searches_spent = searched \<ge> rb_max_searches p;
             file_actions =
               (if files_spent
                then Narrow (without_kind filter_all (ReadOnlyK File)) #
                     (if rb_files_announced p then []
                      else [Record (Some ''read_file_budget'') (JObj [(''files_read'', JInt (int files))]),
                            Inject (Nudge (files_nudge files))])
                else []);
             search_actions =
               (if searches_spent
                then Narrow (without_kind filter_all (ReadOnlyK Retrieval)) #
                     (if rb_searches_announced p then []
                      else [Record (Some ''retrieval_budget'') (JObj [(''searches'', JInt (int searched))]),
                            Inject (Nudge (searches_nudge searched))])
                else [])
         in (file_actions @ search_actions,
             p\<lparr>rb_files_announced := rb_files_announced p \<or> files_spent,
               rb_searches_announced := rb_searches_announced p \<or> searches_spent\<rparr>)))"

section \<open>Half-way reminder\<close>

record turn_budget =
  tb_halfway :: nat
  tb_announced :: bool
  tb_disabled :: bool

definition turn_budget_new :: "nat \<Rightarrow> turn_budget" where
  "turn_budget_new max_turns = \<lparr>tb_halfway = max_turns div 2, tb_announced = False, tb_disabled = False\<rparr>"

definition turn_budget_before :: "turn_budget \<Rightarrow> turn_state \<Rightarrow> policy_action list \<times> turn_budget" where
  "turn_budget_before p st =
     (if tb_disabled p \<or> tb_announced p \<or> st_converging st \<or> tb_halfway p = 0 \<or> st_turn st < tb_halfway p
      then ([], p)
      else
        ([Record None (JObj []),
          Inject (Nudge (''You're past halfway on your turn budget '' @ em_dash
            @ '' start converging: record what you've found and head toward `finish`.''))],
         p\<lparr>tb_announced := True\<rparr>))"

section \<open>Converging turns offer only tools that record or end\<close>

definition converging_ok :: "turn_ctx \<Rightarrow> bool" where
  "converging_ok c \<longleftrightarrow> tx_converging c \<longrightarrow>
     blocked_kinds convergence_filter \<subseteq> blocked_kinds (tx_filter c)"

lemma narrow_blocked [simp]: "blocked_kinds (narrow f g) = blocked_kinds f \<union> blocked_kinds g"
  by (simp add: narrow_def)

text \<open>A converging action that carries the convergence filter.\<close>

definition converges_fully :: "policy_action \<Rightarrow> bool" where
  "converges_fully a \<longleftrightarrow>
     (case a of
        Converge f _ \<Rightarrow> blocked_kinds convergence_filter \<subseteq> blocked_kinds f
      | TrimHistory _ (Some (f, _, _)) \<Rightarrow> blocked_kinds convergence_filter \<subseteq> blocked_kinds f
      | _ \<Rightarrow> True)"

lemma trim_action_shape:
  "tx_filter (trim_action J base turn name target conv c) =
     (if estimate_tokens J (fst (trim_tool_history J (tx_messages c) base target)) base \<ge> target
      then (case conv of None \<Rightarrow> tx_filter c | Some (f, _, _) \<Rightarrow> narrow (tx_filter c) f)
      else tx_filter c)"
  "tx_converging (trim_action J base turn name target conv c) \<longleftrightarrow>
     tx_converging c \<or> conv \<noteq> None
       \<and> estimate_tokens J (fst (trim_tool_history J (tx_messages c) base target)) base \<ge> target"
  by (auto simp: trim_action_def Let_def split_def tx_narrow_def tx_push_def tx_record_def
      split: option.split)

lemma before_action_converging_ok:
  assumes "converging_ok c" "converges_fully a"
  shows "converging_ok (before_action J base turn name c a)"
  using assms
  by (cases a) (auto simp: converging_ok_def converges_fully_def trim_action_shape tx_narrow_def
      tx_push_def tx_record_def split: option.splits if_splits)

lemma before_actions_converging_ok:
  "converging_ok c \<Longrightarrow> list_all converges_fully as \<Longrightarrow>
   converging_ok (foldl (before_action J base turn name) c as)"
  by (induction as arbitrary: c) (auto simp: before_action_converging_ok)

lemma loop_policies_converge_fully:
  "list_all converges_fully (fst (context_window_trim_before J p st))"
  "list_all converges_fully (fst (wind_down_before w st))"
  "list_all converges_fully (fst (read_budgets_before b st))"
  "list_all converges_fully (fst (turn_budget_before t st))"
  by (auto simp: context_window_trim_before_def wind_down_before_def read_budgets_before_def
      turn_budget_before_def converges_fully_def Let_def split: option.split)

lemma loop_policies_never_reject:
  "\<not> rejects (fst (context_window_trim_before J p st))" "\<not> rejects (fst (wind_down_before w st))"
  "\<not> rejects (fst (read_budgets_before b st))" "\<not> rejects (fst (turn_budget_before t st))"
  by (auto simp: context_window_trim_before_def wind_down_before_def read_budgets_before_def
      turn_budget_before_def Let_def split: option.split)

lemma loop_policies_never_force:
  "\<not> list_ex is_force_finish (fst (context_window_trim_before J p st))"
  "\<not> list_ex is_force_finish (fst (wind_down_before w st))"
  "\<not> list_ex is_force_finish (fst (read_budgets_before b st))"
  "\<not> list_ex is_force_finish (fst (turn_budget_before t st))"
  by (auto simp: context_window_trim_before_def wind_down_before_def read_budgets_before_def
      turn_budget_before_def is_force_finish_def Let_def split: option.split)

end
