(* ===== verification/Path_Signal.thy ===== *)
theory Path_Signal
  imports Prelude
begin

text \<open>
  Which changed files carry hand-written review signal
  (\<open>services/review-agent/src/path_signal.rs\<close>), and the normal form of a repository path
  (\<open>normalize_repo_path\<close> of \<open>policies/mod.rs\<close>).
\<close>

datatype file_signal = Source | LockOrVendor | Generated | TestCode | ConfigOrDocs

fun is_low_signal :: "file_signal \<Rightarrow> bool" where
  "is_low_signal s \<longleftrightarrow> s \<noteq> Source"

fun signal_label :: "file_signal \<Rightarrow> string" where
  "signal_label Source = ''source''"
| "signal_label LockOrVendor = ''lockfile/vendored''"
| "signal_label Generated = ''generated''"
| "signal_label TestCode = ''test''"
| "signal_label ConfigOrDocs = ''config/docs''"

definition ends_with_any :: "string \<Rightarrow> string list \<Rightarrow> bool" where
  "ends_with_any s ends = list_ex (ends_with s) ends"

definition lock_files :: "string list" where
  "lock_files =
     [''Cargo.lock'', ''package-lock.json'', ''pnpm-lock.yaml'', ''yarn.lock'', ''npm-shrinkwrap.json'',
      ''bun.lockb'', ''composer.lock'', ''Gemfile.lock'', ''poetry.lock'', ''Pipfile.lock'', ''go.sum'',
      ''flake.lock'', ''Chart.lock'']"

definition noise_suffixes :: "string list" where
  "noise_suffixes = [''.min.js'', ''.min.css'', ''.map'', ''.snap'', ''.bundle.js'']"

definition is_lock_or_vendor :: "string \<Rightarrow> bool" where
  "is_lock_or_vendor name \<longleftrightarrow> name \<in> set lock_files \<or> ends_with_any name noise_suffixes"

definition generated_suffixes :: "string list" where
  "generated_suffixes =
     [''.g.dart'', ''.freezed.dart'', ''.gr.dart'', ''.config.dart'', ''.pb.go'', ''.pb.gw.go'',
      ''_pb2.py'', ''_pb2_grpc.py'', ''.generated.ts'', ''.generated.go'']"

definition path_segments :: "string \<Rightarrow> string list" where
  "path_segments path = split_on (CHR ''/'') path"

definition is_generated :: "string \<Rightarrow> string \<Rightarrow> bool" where
  "is_generated path name \<longleftrightarrow>
     ends_with name ''.json'' \<and> list_ex (\<lambda>seg. seg = ''.sqlx'') (path_segments path)
     \<or> ends_with_any name generated_suffixes
     \<or> starts_with name ''app_localizations'' \<and> ends_with name ''.dart''
     \<or> ends_with name ''.arb''"

definition test_suffixes :: "string list" where
  "test_suffixes =
     [''_test.go'', ''_test.dart'', ''_test.py'', ''.test.ts'', ''.test.tsx'', ''.test.js'', ''.test.jsx'',
      ''.spec.ts'', ''.spec.tsx'', ''.spec.js'', ''_spec.rb'']"

definition test_dir_segments :: "string list" where
  "test_dir_segments = [''__tests__'', ''__snapshots__'', ''tests'', ''test'']"

definition is_test :: "string \<Rightarrow> string \<Rightarrow> bool" where
  "is_test path name \<longleftrightarrow>
     ends_with_any name test_suffixes
     \<or> starts_with name ''test_'' \<and> ends_with name ''.py''
     \<or> list_ex (\<lambda>seg. seg \<in> set test_dir_segments) (path_segments path)"

definition doc_suffixes :: "string list" where
  "doc_suffixes = [''.md'', ''.mdx'', ''.rst'']"

definition data_suffixes :: "string list" where
  "data_suffixes = [''.yml'', ''.yaml'', ''.json'', ''.toml'', ''.ini'', ''.conf'', ''.cfg'', ''.env'']"

definition config_segment :: "string \<Rightarrow> bool" where
  "config_segment segment \<longleftrightarrow>
     (let seg = to_ascii_lowercase segment
      in seg = ''config'' \<or> seg = ''configs'' \<or> ends_with seg ''-config'' \<or> ends_with seg ''_config'')"

definition is_config_or_docs :: "string \<Rightarrow> string \<Rightarrow> bool" where
  "is_config_or_docs path name \<longleftrightarrow>
     (let lower = to_ascii_lowercase name
      in if ends_with_any lower doc_suffixes then True
         else if \<not> ends_with_any lower data_suffixes then False
         else list_ex config_segment (path_segments path))"

definition basename_of :: "string \<Rightarrow> string" where
  "basename_of p = last (path_segments p)"

definition forward_slashes :: "string \<Rightarrow> string" where
  "forward_slashes path = replace_char (CHR 0x5C) (CHR ''/'') path"

definition classify_path :: "string \<Rightarrow> file_signal" where
  "classify_path path =
     (let p = (if CHR 0x5C \<in> set path then forward_slashes path else path);
          name = basename_of p
      in if is_lock_or_vendor name then LockOrVendor
         else if is_generated p name then Generated
         else if is_test p name then TestCode
         else if is_config_or_docs p name then ConfigOrDocs
         else Source)"

definition normalize_repo_path :: "string \<Rightarrow> string" where
  "normalize_repo_path path =
     trim_start_matches (trim_start_matches (trim (forward_slashes path)) ''./'') ''/''"

section \<open>Only whole directory names count\<close>

lemma forward_slashes_absent [simp]: "CHR 0x5C \<notin> set p \<Longrightarrow> forward_slashes p = p"
  by (simp add: forward_slashes_def)

lemma forward_slashes_removes [simp]: "CHR 0x5C \<notin> set (forward_slashes p)"
  by (simp add: forward_slashes_def)

lemma classify_forward: "classify_path path = classify_path (forward_slashes path)"
  by (simp add: classify_path_def)

lemma path_segments_prefix [simp]:
  "CHR ''/'' \<notin> set d \<Longrightarrow> path_segments (d @ CHR ''/'' # p) = d # path_segments p"
  by (simp add: path_segments_def split_on_append_sep split_on_no_sep)

lemma basename_prefix [simp]:
  "CHR ''/'' \<notin> set d \<Longrightarrow> basename_of (d @ CHR ''/'' # p) = basename_of p"
  by (simp add: basename_of_def path_segments_def split_on_append_sep)

definition plain_segment :: "string \<Rightarrow> bool" where
  "plain_segment d \<longleftrightarrow> CHR ''/'' \<notin> set d \<and> CHR 0x5C \<notin> set d \<and> d \<noteq> ''.sqlx''
     \<and> d \<notin> set test_dir_segments \<and> \<not> config_segment d"

lemma forward_slashes_prefix:
  "CHR 0x5C \<notin> set d \<Longrightarrow> forward_slashes (d @ CHR ''/'' # p) = d @ CHR ''/'' # forward_slashes p"
  using replace_char_absent [of "CHR 0x5C" d "CHR ''/''"]
  by (simp add: forward_slashes_def replace_char_def)

lemma classify_slashed:
  "CHR 0x5C \<notin> set p \<Longrightarrow> classify_path p =
     (if is_lock_or_vendor (basename_of p) then LockOrVendor
      else if is_generated p (basename_of p) then Generated
      else if is_test p (basename_of p) then TestCode
      else if is_config_or_docs p (basename_of p) then ConfigOrDocs
      else Source)"
  by (simp add: classify_path_def Let_def)

text \<open>
  A file's review signal does not depend on the directories it lies in, nor on the separator used
  to spell the path, except for directories named exactly as a query cache, a test directory or a
  configuration directory: putting a path under any other directory keeps its class.
\<close>

theorem plain_directory_is_irrelevant:
  assumes "plain_segment d"
  shows "classify_path (d @ CHR ''/'' # path) = classify_path path
       \<and> classify_path (d @ CHR 0x5C # path) = classify_path path"
proof -
  have d: "CHR ''/'' \<notin> set d" "CHR 0x5C \<notin> set d" using assms by (simp_all add: plain_segment_def)
  have core: "classify_path (d @ CHR ''/'' # q) = classify_path q" if "CHR 0x5C \<notin> set q" for q
    using assms that d
    by (simp add: classify_slashed is_generated_def is_test_def is_config_or_docs_def Let_def
        plain_segment_def)
  have "classify_path (d @ CHR ''/'' # path) = classify_path path"
    using core [of "forward_slashes path"] classify_forward [of path]
      classify_forward [of "d @ CHR ''/'' # path"] forward_slashes_prefix [OF d(2), of path] by simp
  moreover have "forward_slashes (d @ CHR 0x5C # path) = forward_slashes (d @ CHR ''/'' # path)"
    by (simp add: forward_slashes_def replace_char_def)
  then have "classify_path (d @ CHR 0x5C # path) = classify_path (d @ CHR ''/'' # path)"
    by (metis classify_forward)
  ultimately show ?thesis by simp
qed

theorem plain_directory_is_irrelevant_witness:
  "classify_path (''latest'' @ CHR ''/'' # ''policy.rs'') = Source
   \<and> classify_path (''latest'' @ CHR 0x5C # ''policy.rs'') = Source
   \<and> classify_path (''latest'' @ CHR ''/'' # ''tests/a.rs'') = TestCode"
proof -
  have p: "plain_segment ''latest''" by code_simp
  have "classify_path ''policy.rs'' = Source" "classify_path ''tests/a.rs'' = TestCode"
    by code_simp+
  with plain_directory_is_irrelevant [OF p, of "''policy.rs''"]
    plain_directory_is_irrelevant [OF p, of "''tests/a.rs''"]
  show ?thesis by simp
qed

end
