(* ===== verification/Review_Tools.thy ===== *)
theory Review_Tools
  imports Ordered_Map Path_Signal Chat
begin

text \<open>
  What the review policies share: the tool names (\<open>services/review-agent/src/tools\<close>), reading a field of
  a tool call's raw JSON arguments and the rendering of a refusal (\<open>policies/mod.rs\<close>).
\<close>

definition READ_FILE :: string where "READ_FILE = ''read_file''"
definition ADD_REVIEW_COMMENT :: string where "ADD_REVIEW_COMMENT = ''add_review_comment''"
definition RETRACT_FINDING :: string where "RETRACT_FINDING = ''retract_finding''"
definition FINISH :: string where "FINISH = ''finish''"
definition RUN_SAST :: string where "RUN_SAST = ''run_sast''"
definition GRAPH_FIND_SYMBOL :: string where "GRAPH_FIND_SYMBOL = ''lightbridge_graph_find_symbol''"
definition GRAPH_GET_CALLERS :: string where "GRAPH_GET_CALLERS = ''lightbridge_graph_get_callers''"
definition VECTOR_SEMANTIC_SEARCH :: string where
  "VECTOR_SEMANTIC_SEARCH = ''lightbridge_vector_semantic_search''"

lemmas tool_name_defs = READ_FILE_def ADD_REVIEW_COMMENT_def RETRACT_FINDING_def FINISH_def RUN_SAST_def

lemma tool_names_distinct [simp]:
  "READ_FILE \<noteq> ADD_REVIEW_COMMENT" "ADD_REVIEW_COMMENT \<noteq> READ_FILE" "READ_FILE \<noteq> FINISH"
  "FINISH \<noteq> READ_FILE" "ADD_REVIEW_COMMENT \<noteq> FINISH" "FINISH \<noteq> ADD_REVIEW_COMMENT"
  "RETRACT_FINDING \<noteq> READ_FILE" "READ_FILE \<noteq> RETRACT_FINDING"
  "RETRACT_FINDING \<noteq> ADD_REVIEW_COMMENT" "ADD_REVIEW_COMMENT \<noteq> RETRACT_FINDING"
  by (simp_all add: tool_name_defs)

definition arg_field :: "serde \<Rightarrow> string \<Rightarrow> string \<Rightarrow> string option" where
  "arg_field J arguments key =
     (case from_text J arguments of
        None \<Rightarrow> None
      | Some v \<Rightarrow> Option.bind (json_get v key) as_str)"

definition arg_int_field :: "serde \<Rightarrow> string \<Rightarrow> string \<Rightarrow> int option" where
  "arg_int_field J arguments key =
     (case from_text J arguments of
        None \<Rightarrow> None
      | Some v \<Rightarrow> Option.bind (json_get v key) as_i64)"

text \<open>Whether an outcome is the tool's report of success with the given opening words.\<close>

definition reports :: "string \<Rightarrow> tool_outcome \<Rightarrow> bool" where
  "reports opening outcome = (case outcome of Continue message \<Rightarrow> starts_with message opening | _ \<Rightarrow> False)"


definition unwrap_or_default :: "string option \<Rightarrow> string" where
  "unwrap_or_default s = (case s of None \<Rightarrow> [] | Some t \<Rightarrow> t)"

definition fast_refusal :: "string \<Rightarrow> string" where
  "fast_refusal name =
     ''`'' @ name @ ''` is not available in this fast review pass '' @ [CHR 0xE2, CHR 0x80, CHR 0x94]
     @ '' review the diff directly, record any findings with add_review_comment, then call finish.''"

fun render_fast_refusal :: "(string \<Rightarrow> string) \<Rightarrow> dispatch_refusal \<Rightarrow> tool_outcome" where
  "render_fast_refusal dbg (NotOffered nm) = Continue (fast_refusal nm)"
| "render_fast_refusal dbg (MissingCallId nm) =
     Continue (''error: tool '' @ dbg nm
       @ '' requires a non-empty call id for deduplication. Re-call the tool.'')"

section \<open>The contract of a gate that can bounce a finish\<close>

text \<open>
  A gate observes the turns one by one and may reject the finish a turn requests. The loop and the
  supervisor rely on its budget: every rejection uses up one of the bounces it has left, and nothing
  gives a bounce back.
\<close>

fun gate_run ::
  "('g \<Rightarrow> 'i \<Rightarrow> policy_action list \<times> 'g) \<Rightarrow> 'g \<Rightarrow> 'i list \<Rightarrow> bool list \<times> 'g" where
  "gate_run after g [] = ([], g)"
| "gate_run after g (i # is) =
     (let (actions, g') = after g i; (bs, g'') = gate_run after g' is
      in (rejects actions # bs, g''))"

definition bounces_in :: "bool list \<Rightarrow> nat" where
  "bounces_in bs = length (filter id bs)"

lemma bounces_in_simps [simp]:
  "bounces_in [] = 0" "bounces_in (b # bs) = (if b then 1 else 0) + bounces_in bs"
  by (simp_all add: bounces_in_def)

locale bouncing_gate =
  fixes after :: "'g \<Rightarrow> 'i \<Rightarrow> policy_action list \<times> 'g"
    and left :: "'g \<Rightarrow> nat"
    and ok :: "'g \<Rightarrow> bool"
  assumes ok_after: "ok g \<Longrightarrow> ok (snd (after g i))"
    and left_after: "ok g \<Longrightarrow>
      left (snd (after g i)) + (if rejects (fst (after g i)) then 1 else 0) \<le> left g"
begin

lemma bounces_bounded:
  "ok g \<Longrightarrow> bounces_in (fst (gate_run after g is)) + left (snd (gate_run after g is)) \<le> left g"
proof (induction "is" arbitrary: g)
  case (Cons i "is")
  from Cons.IH [OF ok_after [OF Cons.prems], of i] left_after [OF Cons.prems, of i]
  show ?case by (auto simp: split_def Let_def split: if_splits)
qed simp

lemma no_bounce_left: "ok g \<Longrightarrow> left g = 0 \<Longrightarrow> \<not> rejects (fst (after g i))"
  using left_after [of g i] by (auto split: if_splits)

end

end
