(* ===== verification/Coverage.thy ===== *)
theory Coverage
  imports Review_Tools Budget
begin

text \<open>
  The coverage gate (\<open>services/review-agent/src/policies/coverage.rs\<close>): it bounces a premature
  \<open>finish\<close> while changed source files are neither opened nor commented on, up to a cap, and amends
  the summary with what was never examined.

  Rust's \<open>char::is_alphanumeric\<close> on a character beyond ASCII is the parameter \<open>wide_alnum\<close>, a
  predicate on the text that ends in that character.
\<close>

section \<open>Citations\<close>

definition path_char :: "char \<Rightarrow> bool" where
  "path_char c \<longleftrightarrow> is_ascii_alnum c \<or> c \<in> {CHR ''_'', CHR ''-'', CHR ''.'', CHR ''/''}"

definition boundary_ok :: "(string \<Rightarrow> bool) \<Rightarrow> string \<Rightarrow> bool" where
  "boundary_ok wide_alnum before =
     (if before = [] then True
      else if (of_char (last before) :: nat) < 128 then \<not> path_char (last before)
      else \<not> wide_alnum before)"

text \<open>The disjoint matches of a pattern, left to right: the text before and after each.\<close>

function match_splits :: "string \<Rightarrow> string \<Rightarrow> string \<Rightarrow> (string \<times> string) list" where
  "match_splits needle before rest =
     (if prefix needle rest
      then (before, drop (length needle) rest) #
        (if needle = []
         then (case rest of [] \<Rightarrow> [] | c # cs \<Rightarrow> match_splits needle (before @ [c]) cs)
         else match_splits needle (before @ needle) (drop (length needle) rest))
      else (case rest of [] \<Rightarrow> [] | c # cs \<Rightarrow> match_splits needle (before @ [c]) cs))"
  by auto

termination
  by (relation "measure (\<lambda>(n, b, r). length r)") (auto simp: prefix_def)

declare match_splits.simps [simp del]

definition cited_at :: "(string \<Rightarrow> bool) \<Rightarrow> string \<Rightarrow> string \<Rightarrow> bool" where
  "cited_at wide_alnum before after \<longleftrightarrow>
     boundary_ok wide_alnum before
     \<and> (case after of c # d # _ \<Rightarrow> c = CHR '':'' \<and> is_digit d | _ \<Rightarrow> False)"

definition cites :: "(string \<Rightarrow> bool) \<Rightarrow> string \<Rightarrow> string \<Rightarrow> bool" where
  "cites wide_alnum text needle =
     list_ex (\<lambda>(before, after). cited_at wide_alnum before after) (match_splits needle [] text)"

definition cites_path_with_line :: "(string \<Rightarrow> bool) \<Rightarrow> string \<Rightarrow> string \<Rightarrow> bool" where
  "cites_path_with_line wide_alnum text path \<longleftrightarrow>
     cites wide_alnum text path
     \<or> (basename_of path \<noteq> path \<and> cites wide_alnum text (basename_of path))"

section \<open>The texts of the gate\<close>

definition COVERAGE_MAX_LISTED :: nat where "COVERAGE_MAX_LISTED = 15"

definition coverage_file_list :: "string list \<Rightarrow> string" where
  "coverage_file_list uncovered =
     join_with nl (map (\<lambda>f. ''- '' @ f) (take COVERAGE_MAX_LISTED uncovered))
     @ (if length uncovered > COVERAGE_MAX_LISTED
        then nl @ ''- '' @ [CHR 0xE2, CHR 0x80, CHR 0xA6] @ '' and ''
             @ dec (length uncovered - COVERAGE_MAX_LISTED) @ '' more''
        else [])"

definition coverage_nudge :: "string list \<Rightarrow> bool \<Rightarrow> string" where
  "coverage_nudge uncovered stalled =
     (let listed = coverage_file_list uncovered
      in if stalled
         then ''You called `finish` again without opening ANY of the files you were just asked to review. A summary claiming these files were reviewed would be false ''
              @ dash @ '' do not write one. These changed files are still unexamined:'' @ nl @ listed @ nl @ nl
              @ ''Open them with read_file (or record a finding on them with add_review_comment) before you finish. If a file is genuinely not reviewable in depth (a lockfile, a generated artifact), leave it unopened but name it as NOT reviewed in your final summary. Only claim work you actually did.''
         else ''Before you finish: these changed files don't yet have a finding and you haven't opened them:''
              @ nl @ listed @ nl @ nl
              @ ''Review each one across all relevant dimensions '' @ dash
              @ '' correctness, security, quality, style, performance '' @ dash
              @ '' not only the first issue you found. Open each with read_file, record anything worth raising with add_review_comment, then call `finish`. If a file is genuinely not reviewable in depth (a lockfile, a generated artifact), you may leave it unopened ''
              @ dash @ '' but then name it as NOT reviewed in your final summary; never claim coverage you did not do.'')"

definition coverage_disclosure :: "nat \<Rightarrow> nat \<Rightarrow> string list \<Rightarrow> string" where
  "coverage_disclosure engaged changed uncovered =
     ''> '' @ [CHR 0xE2, CHR 0x9A, CHR 0xA0, CHR 0xEF, CHR 0xB8, CHR 0x8F]
     @ '' **Coverage note (automated):** this run examined '' @ dec engaged @ '' of '' @ dec changed
     @ '' changed files. Never opened or commented on:'' @ nl
     @ join_with nl (map (\<lambda>l. ''> '' @ l) (str_lines (coverage_file_list uncovered)))"

fun count_label :: "string \<Rightarrow> (string \<times> nat) list \<Rightarrow> (string \<times> nat) list" where
  "count_label l [] = [(l, 1)]"
| "count_label l ((l', n) # cs) = (if l' = l then (l', n + 1) # cs else (l', n) # count_label l cs)"

definition low_signal_summary :: "(string \<times> file_signal) list \<Rightarrow> string option" where
  "low_signal_summary low_signal =
     (if low_signal = [] then None
      else
        (let counts = foldl (\<lambda>cs (_, signal). count_label (signal_label signal) cs) [] low_signal;
             parts = join_with '', ''
               (map (\<lambda>(label, n). dec n @ '' '' @ label) (sort_key fst counts))
         in Some (''> '' @ [CHR 0xE2, CHR 0x84, CHR 0xB9, CHR 0xEF, CHR 0xB8, CHR 0x8F] @ '' ''
              @ dec (length low_signal)
              @ '' additional changed file(s) carry low review signal and aren't counted above: ''
              @ parts @ ''.'')))"

section \<open>The gate\<close>

text \<open>The amended summary is a cell shared with the caller in the code; here it is the last field.\<close>

record coverage_gate =
  cg_changed :: "string set"
  cg_low_signal :: "(string \<times> file_signal) list"
  cg_engaged :: "string set"
  cg_max_bounces :: nat
  cg_bounces :: nat
  cg_engaged_at_last_bounce :: nat
  cg_winddown :: nat
  cg_summary :: "string option"
  cg_amended :: "string option"

definition coverage_gate_new :: "string list \<Rightarrow> nat \<Rightarrow> nat \<Rightarrow> coverage_gate" where
  "coverage_gate_new changed_files max_bounces max_turns =
     (let paths = map normalize_repo_path changed_files
      in \<lparr>cg_changed = set (filter (\<lambda>p. classify_path p = Source) paths),
          cg_low_signal = map (\<lambda>p. (p, classify_path p)) (filter (\<lambda>p. classify_path p \<noteq> Source) paths),
          cg_engaged = {}, cg_max_bounces = max_bounces, cg_bounces = 0,
          cg_engaged_at_last_bounce = 0, cg_winddown = winddown_turn max_turns,
          cg_summary = None, cg_amended = None\<rparr>)"

definition engage_field :: "serde \<Rightarrow> string \<Rightarrow> string \<Rightarrow> coverage_gate \<Rightarrow> coverage_gate" where
  "engage_field J arguments key g =
     (case arg_field J arguments key of
        None \<Rightarrow> g
      | Some path \<Rightarrow> g\<lparr>cg_engaged := insert (normalize_repo_path path) (cg_engaged g)\<rparr>)"

definition cited_text :: "serde \<Rightarrow> string \<Rightarrow> string" where
  "cited_text J arguments =
     join_with nl (List.map_filter (arg_field J arguments) [''evidence'', ''body'', ''suggestion''])"

definition engage_cited :: "(string \<Rightarrow> bool) \<Rightarrow> string \<Rightarrow> coverage_gate \<Rightarrow> coverage_gate" where
  "engage_cited wide_alnum text g =
     (if text = [] then g
      else g\<lparr>cg_engaged := cg_engaged g \<union>
               Set.filter (cites_path_with_line wide_alnum text) (cg_changed g - cg_engaged g)\<rparr>)"

definition coverage_result ::
  "serde \<Rightarrow> (string \<Rightarrow> bool) \<Rightarrow> coverage_gate \<Rightarrow> tool_call_result \<Rightarrow> coverage_gate" where
  "coverage_result J wide_alnum g r =
     (let nm = call_name (cr_call r); arguments = call_arguments (cr_call r)
      in if nm = READ_FILE then engage_field J arguments ''path'' g
         else if nm = ADD_REVIEW_COMMENT
         then engage_cited wide_alnum (cited_text J arguments) (engage_field J arguments ''file'' g)
         else if nm = FINISH \<and> cr_outcome r = Finish
         then g\<lparr>cg_summary := arg_field J arguments ''summary''\<rparr>
         else g)"

definition coverage_update ::
  "serde \<Rightarrow> (string \<Rightarrow> bool) \<Rightarrow> coverage_gate \<Rightarrow> turn_outcome \<Rightarrow> coverage_gate" where
  "coverage_update J wide_alnum g outcome = foldl (coverage_result J wide_alnum) g (to_results outcome)"

definition uncovered_set :: "coverage_gate \<Rightarrow> string set" where
  "uncovered_set g = cg_changed g - cg_engaged g"

definition uncovered_files :: "coverage_gate \<Rightarrow> string list" where
  "uncovered_files g = listed (uncovered_set g)"

definition disclose :: "coverage_gate \<Rightarrow> bool \<times> coverage_gate" where
  "disclose g =
     (case cg_summary g of
        None \<Rightarrow> (False, g)
      | Some summary \<Rightarrow>
          (let uncovered = uncovered_files g; note = low_signal_summary (cg_low_signal g)
           in if uncovered = [] \<and> note = None then (False, g)
              else
                (let a1 = (if uncovered = [] then summary
                           else summary @ nl @ nl
                             @ coverage_disclosure (card (cg_changed g) - length uncovered)
                                 (card (cg_changed g)) uncovered);
                     a2 = (case note of None \<Rightarrow> a1
                           | Some n \<Rightarrow> a1 @ (if uncovered = [] then nl @ nl else nl @ ''>'' @ nl) @ n)
                 in (True, g\<lparr>cg_amended := Some a2\<rparr>))))"

definition coverage_after ::
  "serde \<Rightarrow> (string \<Rightarrow> bool) \<Rightarrow> coverage_gate \<Rightarrow> turn_state \<Rightarrow> turn_outcome
   \<Rightarrow> policy_action list \<times> coverage_gate" where
  "coverage_after J wide_alnum g0 st outcome =
     (let g = coverage_update J wide_alnum g0 outcome
      in if \<not> to_finish_requested outcome \<or> st_turn st \<ge> cg_winddown g \<or> cg_bounces g \<ge> cg_max_bounces g
         then ([], g)
         else
           (let uncovered = uncovered_files g
            in if uncovered = [] then ([], g)
               else
                 (let stalled = (cg_bounces g > 0 \<and> card (cg_engaged g) = cg_engaged_at_last_bounce g);
                      g' = g\<lparr>cg_bounces := cg_bounces g + 1,
                             cg_engaged_at_last_bounce := card (cg_engaged g)\<rparr>
                  in ([Record (Some ''coverage_bounce'')
                         (JObj [(''bounce'', JInt (int (cg_bounces g'))),
                                (''stalled'', JBool stalled),
                                (''uncovered'', JArr (map JStr uncovered))]),
                       RejectFinish (Nudge (coverage_nudge uncovered stalled))], g'))))"

definition coverage_flush :: "coverage_gate \<Rightarrow> policy_action list \<times> coverage_gate" where
  "coverage_flush g =
     (let (disclosed, g') = disclose g
      in (if disclosed then [Record (Some ''coverage_disclosure'') (JObj [])] else [], g'))"

section \<open>Citations are whole tokens\<close>

lemma match_splits_sound:
  "(b, a) \<in> set (match_splits needle pre rest) \<Longrightarrow> \<exists>m. b = pre @ m \<and> rest = m @ needle @ a"
proof (induction needle pre rest rule: match_splits.induct)
  case (1 needle pre rest)
  have "(b = pre \<and> rest = needle @ a)
        \<or> (\<exists>p r. rest = p @ r \<and> (\<exists>m. b = (pre @ p) @ m \<and> r = m @ needle @ a))"
  proof (cases "prefix needle rest")
    case True
    then obtain r where r: "rest = needle @ r" by (auto simp: prefix_def)
    show ?thesis
    proof (cases "needle = []")
      case True
      with "1.prems" "1.IH"(1) \<open>prefix needle rest\<close> r show ?thesis
        by (subst (asm) match_splits.simps) (cases rest; auto; metis append_Cons append_Nil)
    next
      case False
      with "1.prems" "1.IH"(2) \<open>prefix needle rest\<close> r show ?thesis
        by (subst (asm) match_splits.simps) (auto; metis append.assoc)
    qed
  next
    case False
    with "1.prems" "1.IH"(3) show ?thesis
      by (subst (asm) match_splits.simps) (cases rest; auto; metis append_Cons append_Nil)
  qed
  then show ?case by auto
qed

lemma path_char_ascii: "path_char c \<Longrightarrow> (of_char c :: nat) < 128"
  by (auto simp: path_char_def is_ascii_alnum_def Let_def)

lemma boundary_rejects: "m \<noteq> [] \<Longrightarrow> path_char (last m) \<Longrightarrow> \<not> boundary_ok wa (pre @ m)"
  by (simp add: boundary_ok_def path_char_ascii)

lemma match_splits_complete:
  "needle \<noteq> [] \<Longrightarrow> list_all path_char needle \<Longrightarrow> rest = m @ needle @ a \<Longrightarrow> boundary_ok wa (pre @ m) \<Longrightarrow>
   (pre @ m, a) \<in> set (match_splits needle pre rest)"
proof (induction needle pre rest arbitrary: m rule: match_splits.induct)
  case (1 needle pre rest)
  note unfold = match_splits.simps [of needle pre rest]
  show ?case
  proof (cases "prefix needle rest")
    case True
    then obtain r where r: "rest = needle @ r" by (auto simp: prefix_def)
    show ?thesis
    proof (cases "m = []")
      case True
      with "1.prems" r show ?thesis by (subst unfold) auto
    next
      case False
      have "length needle \<le> length m"
      proof (rule ccontr)
        assume "\<not> length needle \<le> length m"
        then have "m = take (length m) needle"
          using "1.prems"(3) r by (metis append_eq_append_conv_if le_cases append_eq_conv_conj)
        then have "last m \<in> set needle" using False by (metis in_set_takeD last_in_set)
        with "1.prems" False boundary_rejects show False by (auto simp: list_all_iff)
      qed
      then obtain m' where m': "m = needle @ m'" using "1.prems"(3) r
        by (metis append_eq_append_conv_if append_take_drop_id)
      have "(pre @ needle @ m', a) \<in> set (match_splits needle (pre @ needle) (drop (length needle) rest))"
        using "1.IH"(2) [OF True "1.prems"(1,1,2), of m'] "1.prems" m' by simp
      with True "1.prems"(1) m' show ?thesis by (subst unfold) simp
    qed
  next
    case False
    with "1.prems" obtain c m' where m': "m = c # m'" by (cases m) auto
    with "1.prems" False "1.IH"(3) [of c "m' @ needle @ a" m'] show ?thesis
      by (subst unfold) auto
  qed
qed

definition cited :: "(string \<Rightarrow> bool) \<Rightarrow> string \<Rightarrow> string \<Rightarrow> bool" where
  "cited wide_alnum text needle \<longleftrightarrow>
     (\<exists>before d rest. text = before @ needle @ CHR '':'' # d # rest
        \<and> boundary_ok wide_alnum before \<and> is_digit d)"

lemma cites_sound: "cites wa text needle \<Longrightarrow> cited wa text needle"
proof -
  assume "cites wa text needle"
  then obtain before after where a: "(before, after) \<in> set (match_splits needle [] text)"
    "cited_at wa before after"
    by (auto simp: cites_def list_ex_iff)
  from a(2) obtain d rest where "after = CHR '':'' # d # rest" "is_digit d" "boundary_ok wa before"
    by (auto simp: cited_at_def split: list.splits)
  moreover from match_splits_sound [OF a(1)] have "text = before @ needle @ after" by simp
  ultimately show ?thesis unfolding cited_def by blast
qed

text \<open>
  For a path made of the characters paths are made of, a finding's text counts as citing it by
  name exactly when the text contains the name as a whole token (not preceded by a path character)
  followed by a colon and a digit; what the search skips over can never hide a citation.
\<close>

theorem citation_is_exact:
  assumes "path \<noteq> []" "list_all path_char path"
  shows "cites wide_alnum text path \<longleftrightarrow>
    (\<exists>before d rest. text = before @ path @ CHR '':'' # d # rest
       \<and> boundary_ok wide_alnum before \<and> is_digit d)"
proof
  assume "cites wide_alnum text path"
  then show "\<exists>before d rest. text = before @ path @ CHR '':'' # d # rest
       \<and> boundary_ok wide_alnum before \<and> is_digit d"
    using cites_sound by (simp add: cited_def)
next
  assume "\<exists>before d rest. text = before @ path @ CHR '':'' # d # rest
       \<and> boundary_ok wide_alnum before \<and> is_digit d"
  then obtain before d rest where t: "text = before @ path @ CHR '':'' # d # rest"
    "boundary_ok wide_alnum before" "is_digit d" by blast
  from match_splits_complete [OF assms t(1), of wide_alnum "[]"] t(2)
  have "(before, CHR '':'' # d # rest) \<in> set (match_splits path [] text)" by simp
  with t show "cites wide_alnum text path"
    by (auto simp: cites_def cited_at_def list_ex_iff intro!: bexI)
qed

theorem citation_is_exact_witness:
  "cites (\<lambda>_. False) ''see (main.rs:10)'' ''main.rs'' \<and> \<not> cites (\<lambda>_. False) ''remain.rs:10'' ''main.rs''
   \<and> \<not> cites_path_with_line (\<lambda>_. False) ''services/a/mod.rs:42'' ''services/b/mod.rs''"
proof -
  have p: "''main.rs'' \<noteq> []" "list_all path_char ''main.rs''" by code_simp+
  have "''see (main.rs:10)'' = ''see ('' @ ''main.rs'' @ CHR '':'' # CHR ''1'' # ''0)''
        \<and> boundary_ok (\<lambda>_. False) ''see ('' \<and> is_digit (CHR ''1'')" by code_simp
  then have "cites (\<lambda>_. False) ''see (main.rs:10)'' ''main.rs''"
    using citation_is_exact [OF p, of "\<lambda>_. False" "''see (main.rs:10)''"] by blast
  moreover have "\<not> cites (\<lambda>_. False) ''remain.rs:10'' ''main.rs''
    \<and> \<not> cites_path_with_line (\<lambda>_. False) ''services/a/mod.rs:42'' ''services/b/mod.rs''" by code_simp
  ultimately show ?thesis by simp
qed

section \<open>What the gate does\<close>

lemma engage_field_simps [simp]:
  "cg_changed (engage_field J args key g) = cg_changed g"
  "cg_low_signal (engage_field J args key g) = cg_low_signal g"
  "cg_max_bounces (engage_field J args key g) = cg_max_bounces g"
  "cg_bounces (engage_field J args key g) = cg_bounces g"
  "cg_winddown (engage_field J args key g) = cg_winddown g"
  "cg_summary (engage_field J args key g) = cg_summary g"
  "cg_amended (engage_field J args key g) = cg_amended g"
  by (simp_all add: engage_field_def split: option.split)

lemma engage_cited_simps [simp]:
  "cg_changed (engage_cited wa t g) = cg_changed g" "cg_low_signal (engage_cited wa t g) = cg_low_signal g"
  "cg_max_bounces (engage_cited wa t g) = cg_max_bounces g"
  "cg_bounces (engage_cited wa t g) = cg_bounces g" "cg_winddown (engage_cited wa t g) = cg_winddown g"
  "cg_summary (engage_cited wa t g) = cg_summary g" "cg_amended (engage_cited wa t g) = cg_amended g"
  by (simp_all add: engage_cited_def)

text \<open>What observing a result never touches, and how it grows the engaged set.\<close>

definition credited :: "serde \<Rightarrow> (string \<Rightarrow> bool) \<Rightarrow> string set \<Rightarrow> tool_call_result \<Rightarrow> string set" where
  "credited J wide_alnum changed r =
     (let args = call_arguments (cr_call r); named = \<lambda>key. normalize_repo_path ` set_option (arg_field J args key)
      in if call_name (cr_call r) = READ_FILE then named ''path''
         else if call_name (cr_call r) = ADD_REVIEW_COMMENT
         then named ''file'' \<union>
           (if cited_text J args = [] then {}
            else Set.filter (cites_path_with_line wide_alnum (cited_text J args)) changed)
         else {})"

lemma coverage_result_fixed:
  "cg_changed (coverage_result J wa g r) = cg_changed g"
  "cg_low_signal (coverage_result J wa g r) = cg_low_signal g"
  "cg_max_bounces (coverage_result J wa g r) = cg_max_bounces g"
  "cg_bounces (coverage_result J wa g r) = cg_bounces g"
  "cg_winddown (coverage_result J wa g r) = cg_winddown g"
  "cg_amended (coverage_result J wa g r) = cg_amended g"
  by (simp_all add: coverage_result_def Let_def)

lemma coverage_result_engaged:
  "cg_engaged (coverage_result J wa g r) = cg_engaged g \<union> credited J wa (cg_changed g) r"
  by (auto simp: coverage_result_def credited_def engage_field_def engage_cited_def Let_def
      split: option.splits)

lemma coverage_update_fixed:
  "cg_changed (coverage_update J wa g out) = cg_changed g"
  "cg_low_signal (coverage_update J wa g out) = cg_low_signal g"
  "cg_max_bounces (coverage_update J wa g out) = cg_max_bounces g"
  "cg_bounces (coverage_update J wa g out) = cg_bounces g"
  "cg_winddown (coverage_update J wa g out) = cg_winddown g"
  "cg_amended (coverage_update J wa g out) = cg_amended g"
proof -
  have "cg_changed (foldl (coverage_result J wa) g rs) = cg_changed g
      \<and> cg_low_signal (foldl (coverage_result J wa) g rs) = cg_low_signal g
      \<and> cg_max_bounces (foldl (coverage_result J wa) g rs) = cg_max_bounces g
      \<and> cg_bounces (foldl (coverage_result J wa) g rs) = cg_bounces g
      \<and> cg_winddown (foldl (coverage_result J wa) g rs) = cg_winddown g
      \<and> cg_amended (foldl (coverage_result J wa) g rs) = cg_amended g" for rs
    by (induction rs arbitrary: g) (simp_all add: coverage_result_fixed)
  then show "cg_changed (coverage_update J wa g out) = cg_changed g"
    "cg_low_signal (coverage_update J wa g out) = cg_low_signal g"
    "cg_max_bounces (coverage_update J wa g out) = cg_max_bounces g"
    "cg_bounces (coverage_update J wa g out) = cg_bounces g"
    "cg_winddown (coverage_update J wa g out) = cg_winddown g"
    "cg_amended (coverage_update J wa g out) = cg_amended g"
    by (simp_all add: coverage_update_def)
qed

lemma coverage_update_engaged:
  "cg_engaged (coverage_update J wa g out) =
     cg_engaged g \<union> (\<Union>r \<in> set (to_results out). credited J wa (cg_changed g) r)"
proof -
  have "cg_engaged (foldl (coverage_result J wa) g rs) =
          cg_engaged g \<union> (\<Union>r \<in> set rs. credited J wa (cg_changed g) r)" for rs
    by (induction rs arbitrary: g) (auto simp: coverage_result_engaged coverage_result_fixed)
  then show ?thesis by (simp add: coverage_update_def)
qed

definition finite_gate :: "coverage_gate \<Rightarrow> bool" where
  "finite_gate g \<longleftrightarrow> finite (cg_changed g)"

lemma finite_uncovered: "finite_gate g \<Longrightarrow> finite (uncovered_set g)"
  by (simp add: finite_gate_def uncovered_set_def)

lemma finite_new: "finite_gate (coverage_gate_new fs b t)"
  by (simp add: finite_gate_def coverage_gate_new_def Let_def)

lemma finite_after: "finite_gate (snd (coverage_after J wa g st out)) = finite_gate g"
  by (simp add: coverage_after_def finite_gate_def coverage_update_fixed Let_def)

lemma coverage_after_keeps:
  "cg_max_bounces (snd (coverage_after J wa g st out)) = cg_max_bounces g"
  "cg_winddown (snd (coverage_after J wa g st out)) = cg_winddown g"
  "cg_changed (snd (coverage_after J wa g st out)) = cg_changed g"
  "cg_low_signal (snd (coverage_after J wa g st out)) = cg_low_signal g"
  "cg_amended (snd (coverage_after J wa g st out)) = cg_amended g"
  by (simp_all add: coverage_after_def coverage_update_fixed Let_def)

lemma coverage_after_rejects:
  assumes "finite_gate g"
  shows "rejects (fst (coverage_after J wa g st out)) \<longleftrightarrow>
     to_finish_requested out \<and> st_turn st < cg_winddown g \<and> cg_bounces g < cg_max_bounces g
     \<and> uncovered_set (coverage_update J wa g out) \<noteq> {}"
  using finite_uncovered [of "coverage_update J wa g out"] assms
  by (auto simp: coverage_after_def coverage_update_fixed Let_def uncovered_files_def finite_gate_def
      uncovered_set_def)

lemma coverage_after_bounces:
  assumes "finite_gate g"
  shows "cg_bounces (snd (coverage_after J wa g st out)) =
     cg_bounces g + (if rejects (fst (coverage_after J wa g st out)) then 1 else 0)"
  using coverage_after_rejects [OF assms] assms finite_uncovered [of "coverage_update J wa g out"]
  by (auto simp: coverage_after_def coverage_update_fixed Let_def uncovered_files_def finite_gate_def
      uncovered_set_def)

definition coverage_step ::
  "serde \<Rightarrow> (string \<Rightarrow> bool) \<Rightarrow> coverage_gate \<Rightarrow> turn_state \<times> turn_outcome
   \<Rightarrow> policy_action list \<times> coverage_gate" where
  "coverage_step J wide_alnum g i = coverage_after J wide_alnum g (fst i) (snd i)"

definition coverage_left :: "coverage_gate \<Rightarrow> nat" where
  "coverage_left g = cg_max_bounces g - cg_bounces g"

interpretation cov: bouncing_gate "coverage_step J wide_alnum" coverage_left finite_gate
  for J wide_alnum
proof (unfold_locales, goal_cases)
  case (1 g i)
  then show ?case by (simp add: coverage_step_def finite_after)
next
  case (2 g i)
  then show ?case
    using coverage_after_rejects [OF 2, of J wide_alnum "fst i" "snd i"]
      coverage_after_bounces [OF 2, of J wide_alnum "fst i" "snd i"]
    by (auto simp: coverage_step_def coverage_left_def coverage_after_keeps split: if_splits)
qed

text \<open>A bounce is timely when it answers a requested finish before the given turn.\<close>

definition timely :: "nat \<Rightarrow> turn_state \<times> turn_outcome \<Rightarrow> bool \<Rightarrow> bool" where
  "timely limit i bounced \<longleftrightarrow>
     (bounced \<longrightarrow> to_finish_requested (snd i) \<and> st_turn (fst i) < limit)"

lemma coverage_run_turns:
  "finite_gate g \<Longrightarrow> list_all2 (timely (cg_winddown g)) turns (fst (gate_run (coverage_step J wa) g turns))"
proof (induction turns arbitrary: g)
  case (Cons i turns)
  let ?g = "snd (coverage_step J wa g i)"
  have "finite_gate ?g" using Cons.prems by (rule cov.ok_after)
  moreover have "cg_winddown ?g = cg_winddown g"
    by (simp add: coverage_step_def coverage_after_keeps)
  ultimately have "list_all2 (timely (cg_winddown g)) turns (fst (gate_run (coverage_step J wa) ?g turns))"
    using Cons.IH [of ?g] by simp
  moreover have "timely (cg_winddown g) i (rejects (fst (coverage_step J wa g i)))"
    using coverage_after_rejects [OF Cons.prems, of J wa "fst i" "snd i"]
    by (simp add: timely_def coverage_step_def)
  ultimately show ?case by (simp add: split_def Let_def)
qed simp

text \<open>
  Whatever the model does, a coverage gate bounces at most \<open>max_bounces\<close> finishes, each of them a
  requested finish on a turn before the wind-down turn.
\<close>

theorem coverage_bounces_are_bounded:
  "bounces_in (fst (gate_run (coverage_step J wide_alnum) (coverage_gate_new files max_bounces max_turns) turns))
     \<le> max_bounces
   \<and> list_all2 (timely (winddown_turn max_turns)) turns
       (fst (gate_run (coverage_step J wide_alnum) (coverage_gate_new files max_bounces max_turns) turns))"
proof -
  let ?g = "coverage_gate_new files max_bounces max_turns"
  have "coverage_left ?g = max_bounces" "cg_winddown ?g = winddown_turn max_turns"
    by (simp_all add: coverage_gate_new_def coverage_left_def Let_def)
  with cov.bounces_bounded [OF finite_new, of J wide_alnum files max_bounces max_turns turns]
    coverage_run_turns [OF finite_new, of files max_bounces max_turns turns J wide_alnum]
  show ?thesis by simp
qed

text \<open>
  A finish that the gate lets through before wind-down, with bounces left, means full coverage:
  the gate rejects exactly the requested finishes, before wind-down and under the cap, of a run in
  which some changed source file was neither read, nor commented on, nor cited by line in a finding,
  on this turn or before.
\<close>

theorem coverage_rejects_exactly_gaps:
  "rejects (fst (coverage_after J wide_alnum (coverage_gate_new files b n \<lparr>cg_engaged := E, cg_bounces := k\<rparr>) st outcome))
   \<longleftrightarrow> to_finish_requested outcome \<and> st_turn st < winddown_turn n \<and> k < b
     \<and> \<not> {p \<in> normalize_repo_path ` set files. classify_path p = Source}
          \<subseteq> E \<union> (\<Union>r \<in> set (to_results outcome). credited J wide_alnum
                 {p \<in> normalize_repo_path ` set files. classify_path p = Source} r)"
proof -
  let ?g = "coverage_gate_new files b n \<lparr>cg_engaged := E, cg_bounces := k\<rparr>"
  have g: "finite_gate ?g" "cg_bounces ?g = k" "cg_max_bounces ?g = b" "cg_winddown ?g = winddown_turn n"
    "cg_changed ?g = {p \<in> normalize_repo_path ` set files. classify_path p = Source}" "cg_engaged ?g = E"
    by (auto simp: coverage_gate_new_def finite_gate_def Let_def)
  show ?thesis
    unfolding coverage_after_rejects [OF g(1)] uncovered_set_def coverage_update_engaged
      coverage_update_fixed g by blast
qed

lemma low_signal_summary_None [simp]: "low_signal_summary low = None \<longleftrightarrow> low = []"
  by (simp add: low_signal_summary_def Let_def)

lemma low_signal_summary_Nil [simp]: "low_signal_summary [] = None"
  by simp

definition examined_phrase :: "coverage_gate \<Rightarrow> string" where
  "examined_phrase g = '' this run examined '' @ dec (card (cg_changed g) - card (uncovered_set g)) @ '' of ''
     @ dec (card (cg_changed g)) @ '' changed files.''"

lemma disclosure_says:
  "sublist (examined_phrase g)
     (coverage_disclosure (card (cg_changed g) - card (uncovered_set g)) (card (cg_changed g)) u)"
proof -
  let ?l = "''> '' @ [CHR 0xE2, CHR 0x9A, CHR 0xA0, CHR 0xEF, CHR 0xB8, CHR 0x8F]
     @ '' **Coverage note (automated):**''"
  let ?r = "'' Never opened or commented on:'' @ nl
     @ join_with nl (map (\<lambda>l. ''> '' @ l) (str_lines (coverage_file_list u)))"
  have "coverage_disclosure (card (cg_changed g) - card (uncovered_set g)) (card (cg_changed g)) u
        = ?l @ examined_phrase g @ ?r"
    by (simp add: coverage_disclosure_def examined_phrase_def)
  then show ?thesis by (metis sublist_appendI)
qed

lemma disclosure_flush:
  assumes "finite_gate g"
  shows "case cg_summary g of
      None \<Rightarrow> coverage_flush g = ([], g)
    | Some summary \<Rightarrow>
        if uncovered_set g = {} \<and> cg_low_signal g = [] then coverage_flush g = ([], g)
        else (\<exists>note. coverage_flush g = ([Record (Some ''coverage_disclosure'') (JObj [])],
                         g\<lparr>cg_amended := Some (summary @ nl @ nl @ note)\<rparr>)
               \<and> (uncovered_set g = {} \<or> sublist (examined_phrase g) note))"
proof (cases "cg_summary g")
  case None
  then show ?thesis by (simp add: coverage_flush_def disclose_def)
next
  case (Some summary)
  have fin: "finite (uncovered_set g)" using finite_uncovered [OF assms] .
  let ?u = "uncovered_files g"
  let ?d = "coverage_disclosure (card (cg_changed g) - card (uncovered_set g)) (card (cg_changed g)) ?u"
  have u: "?u = [] \<longleftrightarrow> uncovered_set g = {}" "length ?u = card (uncovered_set g)"
    using fin by (simp_all add: uncovered_files_def)
  consider (nothing) "?u = []" "cg_low_signal g = []"
    | (low) n where "?u = []" "low_signal_summary (cg_low_signal g) = Some n"
    | (gap) "?u \<noteq> []" "low_signal_summary (cg_low_signal g) = None"
    | (both) n where "?u \<noteq> []" "low_signal_summary (cg_low_signal g) = Some n"
    by (cases "low_signal_summary (cg_low_signal g)") auto
  then show ?thesis
  proof cases
    case nothing
    with Some u show ?thesis by (simp add: coverage_flush_def disclose_def)
  next
    case low
    then have "cg_low_signal g \<noteq> []" by (metis low_signal_summary_None option.distinct(1))
    with low Some u show ?thesis by (simp add: coverage_flush_def disclose_def Let_def) blast
  next
    case gap
    with Some u disclosure_says [of g ?u] show ?thesis
      by (auto simp: coverage_flush_def disclose_def Let_def intro!: exI [of _ ?d])
  next
    case both
    have "sublist (examined_phrase g) (?d @ nl @ ''>'' @ nl @ n)"
      using disclosure_says [of g ?u] by (metis sublist_append)
    with both Some u show ?thesis
      by (auto simp: coverage_flush_def disclose_def Let_def intro!: exI [of _ "?d @ nl @ ''>'' @ nl @ n"])
  qed
qed

lemma flush_amends:
  assumes "finite_gate g" "cg_summary g = Some summary" "uncovered_set g \<noteq> {}"
  shows "\<exists>note. cg_amended (snd (coverage_flush g)) = Some (summary @ nl @ nl @ note)"
proof -
  from disclosure_flush [OF assms(1)] assms(2,3) obtain n where
    "coverage_flush g = ([Record (Some ''coverage_disclosure'') (JObj [])],
       g\<lparr>cg_amended := Some (summary @ nl @ nl @ n)\<rparr>)" by auto
  then show ?thesis by simp
qed

text \<open>
  Flushing the gate at a finish or at exhaustion discloses exactly when there is something to say:
  without a finish summary it does nothing; with full coverage and no excluded file it leaves the
  summary alone; otherwise it appends a note to the model's own summary, and the note states how many
  of the changed source files were examined whenever some were not.
\<close>

theorem disclosure_is_honest:
  assumes "finite_gate g"
  shows "case cg_summary g of
      None \<Rightarrow> coverage_flush g = ([], g)
    | Some summary \<Rightarrow>
        if uncovered_set g = {} \<and> cg_low_signal g = [] then coverage_flush g = ([], g)
        else (\<exists>note. coverage_flush g = ([Record (Some ''coverage_disclosure'') (JObj [])],
                         g\<lparr>cg_amended := Some (summary @ nl @ nl @ note)\<rparr>)
               \<and> (uncovered_set g = {} \<or> sublist (examined_phrase g) note))"
  by (rule disclosure_flush [OF assms])

theorem disclosure_is_honest_witness:
  "\<exists>note. coverage_flush ((coverage_gate_new [''src/a.rs'', ''src/b.rs''] 1 10)
       \<lparr>cg_engaged := {''src/a.rs''}, cg_summary := Some ''ok''\<rparr>)
     = ([Record (Some ''coverage_disclosure'') (JObj [])],
        (coverage_gate_new [''src/a.rs'', ''src/b.rs''] 1 10)
          \<lparr>cg_engaged := {''src/a.rs''}, cg_summary := Some ''ok'',
           cg_amended := Some (''ok'' @ nl @ nl @ note)\<rparr>)"
proof -
  let ?g = "(coverage_gate_new [''src/a.rs'', ''src/b.rs''] 1 10)
       \<lparr>cg_engaged := {''src/a.rs''}, cg_summary := Some ''ok''\<rparr>"
  have f: "finite_gate ?g" by (simp add: finite_gate_def coverage_gate_new_def Let_def)
  have "normalize_repo_path ''src/b.rs'' = ''src/b.rs'' \<and> classify_path ''src/b.rs'' = Source"
    by code_simp
  then have "''src/b.rs'' \<in> uncovered_set ?g"
    by (auto simp: uncovered_set_def coverage_gate_new_def Let_def)
  then have u: "uncovered_set ?g \<noteq> {}" by blast
  from disclosure_is_honest [OF f] u show ?thesis by auto
qed

end
