(* ===== verification/Refute.thy ===== *)
theory Refute
  imports Review_Tools
begin

text \<open>
  The refute gate (\<open>services/review-agent/src/policies/refute.rs\<close>): the first finish requested while a
  P0 or P1 finding is outstanding is bounced once for re-verification, and the turn after the bounce
  is given the retrieval tools back.
\<close>

definition reverify_tool_filter :: turn_filter where
  "reverify_tool_filter =
     force_names filter_all [READ_FILE, GRAPH_FIND_SYMBOL, GRAPH_GET_CALLERS, VECTOR_SEMANTIC_SEARCH]"

definition absence_markers :: "string list" where
  "absence_markers =
     [''never sent'', ''never set'', ''never included'', ''never present'', ''never populated'',
      ''never applied'', ''never has'', ''not sent'', ''not set'', ''not present'', ''not included'',
      ''not populated'', ''not applied'', ''not have'', ''no longer sent'', ''no longer set'',
      ''no longer included'', ''without'', ''missing'', ''lacks'', ''omits'', ''omitted'', ''sends no'',
      ''sent no'', ''send no'', ''includes no'', ''contains no'', ''doesn't send'', ''does not send'',
      ''doesn't set'', ''does not set'', ''doesn't include'', ''does not include'', ''doesn't have'',
      ''does not have'', ''fails to send'', ''fails to set'', ''fails to include'']"

definition is_absence_claim :: "string \<Rightarrow> bool" where
  "is_absence_claim text =
     (let lower = lower_for_search text in list_ex (\<lambda>marker. str_contains lower marker) absence_markers)"

definition ENGAGED_MAX_LISTED :: nat where "ENGAGED_MAX_LISTED = 15"

record finding =
  fi_file :: string
  fi_line :: int
  fi_title :: string
  fi_absence_claim :: bool


definition absence_directive :: "finding list \<Rightarrow> string set \<Rightarrow> string" where
  "absence_directive findings engaged =
     (let quoted = join_with nl (map (\<lambda>f. ''- '' @ [CHR 0x22] @ fi_title f @ [CHR 0x22] @ '' at ''
             @ fi_file f @ '':'' @ dec_int (fi_line f)) findings);
          already_read =
            (if engaged = {} then ''(no files read yet)''
             else
               (let shown = take ENGAGED_MAX_LISTED (listed engaged);
                    more = card engaged - length shown
                in join_with '', '' shown
                   @ (if more > 0 then '', '' @ [CHR 0xE2, CHR 0x80, CHR 0xA6] @ '' and '' @ dec more @ '' more''
                      else [])))
      in nl @ nl @ ''The following finding(s) claim something is never sent/set/present:'' @ nl @ quoted
         @ nl @ nl @ ''This bug class is almost always disproven by a file you have NOT opened '' @ dash
         @ '' a transport interceptor, middleware, base-options builder, or config default that injects the value upstream of the call site you cited ''
         @ dash @ '' not by the call site itself. Re-reading what you've already engaged ('' @ already_read
         @ '') will only re-confirm what you already believe; it proves nothing. Before keeping any of these, search for the identifier across the client/transport layer (read_file, lightbridge_graph_find_symbol, lightbridge_graph_get_callers, lightbridge_vector_semantic_search) in files outside that set. If a real search turns up no disconfirming file, keep the finding; if it does, retract it.'')"

record refute_gate =
  rg_findings :: "(string \<times> int, finding) btree"
  rg_engaged :: "string set"
  rg_bounced :: bool
  rg_force_reverify_next_turn :: bool

definition refute_gate_new :: refute_gate where
  "refute_gate_new =
     \<lparr>rg_findings = [], rg_engaged = {}, rg_bounced = False, rg_force_reverify_next_turn = False\<rparr>"

definition refute_before :: "refute_gate \<Rightarrow> policy_action list \<times> refute_gate" where
  "refute_before g =
     (if \<not> rg_force_reverify_next_turn g then ([], g)
      else ([Record (Some ''refute_reverify_tools_forced'') (JObj []), Narrow reverify_tool_filter],
            g\<lparr>rg_force_reverify_next_turn := False\<rparr>))"

definition refute_result :: "serde \<Rightarrow> refute_gate \<Rightarrow> tool_call_result \<Rightarrow> refute_gate" where
  "refute_result J g r =
     (let nm = call_name (cr_call r); args = call_arguments (cr_call r)
      in if nm = READ_FILE then
           (case arg_field J args ''path'' of
              None \<Rightarrow> g
            | Some path \<Rightarrow> g\<lparr>rg_engaged := insert (normalize_repo_path path) (rg_engaged g)\<rparr>)
         else if nm = ADD_REVIEW_COMMENT \<and> reports ''recorded finding'' (cr_outcome r) then
           (let fl = unwrap_or_default (map_option normalize_repo_path (arg_field J args ''file''));
                g1 = g\<lparr>rg_engaged := insert fl (rg_engaged g)\<rparr>
            in if arg_field J args ''priority'' \<in> {Some ''P0'', Some ''P1''} then
                 (let line = (case arg_int_field J args ''line'' of None \<Rightarrow> 0 | Some i \<Rightarrow> i);
                      title = unwrap_or_default (arg_field J args ''title'');
                      body = unwrap_or_default (arg_field J args ''body'');
                      evidence = unwrap_or_default (arg_field J args ''evidence'');
                      claim = (is_absence_claim title \<or> is_absence_claim body \<or> is_absence_claim evidence)
                  in g1\<lparr>rg_findings := bt_put (fl, line)
                          \<lparr>fi_file = fl, fi_line = line, fi_title = title, fi_absence_claim = claim\<rparr>
                          (rg_findings g1)\<rparr>)
               else g1)
         else if nm = RETRACT_FINDING \<and> reports ''retracted finding'' (cr_outcome r) then
           (case (map_option normalize_repo_path (arg_field J args ''file''), arg_int_field J args ''line'') of
              (Some fl, Some line) \<Rightarrow> g\<lparr>rg_findings := bt_del (fl, line) (rg_findings g)\<rparr>
            | _ \<Rightarrow> g)
         else g)"

definition refute_update :: "serde \<Rightarrow> refute_gate \<Rightarrow> turn_outcome \<Rightarrow> refute_gate" where
  "refute_update J g outcome = foldl (refute_result J) g (to_results outcome)"

definition refute_message :: "finding list \<Rightarrow> string set \<Rightarrow> string" where
  "refute_message absence_findings engaged =
     ''Before you finish: you recorded P0/P1 finding(s). Re-verify each one '' @ dash
     @ '' but don't just re-read the evidence you already cited, since that only ever confirms itself; actively look for evidence that would DISPROVE the claim, not just evidence that supports it. For any whose claim does NOT hold, call `retract_finding(file, line)`. A confidently-wrong blocker costs more trust than a missed nit.''
     @ (if absence_findings = [] then [] else absence_directive absence_findings engaged)
     @ '' Keep only what you can prove, then call `finish`.''"

definition refute_after ::
  "serde \<Rightarrow> refute_gate \<Rightarrow> turn_outcome \<Rightarrow> policy_action list \<times> refute_gate" where
  "refute_after J g0 outcome =
     (let g = refute_update J g0 outcome
      in if rg_bounced g \<or> rg_findings g = [] \<or> \<not> to_finish_requested outcome then ([], g)
         else
           (let absence_findings = filter fi_absence_claim (bt_values (rg_findings g))
            in ([Record None
                   (JObj [(''absence_claims'', JInt (int (length absence_findings))),
                          (''p0p1'', JInt (int (length (rg_findings g))))]),
                 RejectFinish (Nudge (refute_message absence_findings (rg_engaged g)))],
                g\<lparr>rg_bounced := True, rg_force_reverify_next_turn := True\<rparr>)))"

section \<open>Outstanding findings\<close>

text \<open>What one result does to the outstanding findings, as edits of a keyed map.\<close>

definition refute_edits :: "serde \<Rightarrow> tool_call_result \<Rightarrow> (string \<times> int, unit) edit list" where
  "refute_edits J r =
     (let nm = call_name (cr_call r); args = call_arguments (cr_call r);
          fl = map_option normalize_repo_path (arg_field J args ''file'')
      in if nm = ADD_REVIEW_COMMENT \<and> reports ''recorded finding'' (cr_outcome r)
            \<and> arg_field J args ''priority'' \<in> {Some ''P0'', Some ''P1''}
         then [Put (unwrap_or_default fl, case arg_int_field J args ''line'' of None \<Rightarrow> 0 | Some i \<Rightarrow> i) ()]
         else if nm = RETRACT_FINDING \<and> reports ''retracted finding'' (cr_outcome r)
         then (case (fl, arg_int_field J args ''line'') of (Some f, Some l) \<Rightarrow> [Del (f, l)] | _ \<Rightarrow> [])
         else [])"

definition keys_of :: "('k, 'v) btree \<Rightarrow> ('k, unit) btree" where
  "keys_of m = map (\<lambda>(k, v). (k, ())) m"

lemma keys_of_put: "keys_of (bt_put k v m) = bt_put k () (keys_of m)"
  by (induction m) (auto simp: keys_of_def)

lemma keys_of_del: "keys_of (bt_del k m) = bt_del k (keys_of m)"
  by (induction m) (auto simp: keys_of_def bt_del_def)

lemma keys_of_Nil [simp]: "keys_of m = [] \<longleftrightarrow> m = []"
  by (simp add: keys_of_def)

lemma refute_result_keys:
  "keys_of (rg_findings (refute_result J g r)) = foldl bt.apply_edit (keys_of (rg_findings g)) (refute_edits J r)"
  by (auto simp: refute_result_def refute_edits_def Let_def keys_of_put keys_of_del
      split: option.split prod.split)

lemma refute_update_keys:
  "keys_of (rg_findings (refute_update J g out)) =
     foldl bt.apply_edit (keys_of (rg_findings g)) (concat (map (refute_edits J) (to_results out)))"
proof -
  have "keys_of (rg_findings (foldl (refute_result J) g rs)) =
          foldl bt.apply_edit (keys_of (rg_findings g)) (concat (map (refute_edits J) rs))" for rs
    by (induction rs arbitrary: g) (simp_all add: refute_result_keys)
  then show ?thesis by (simp add: refute_update_def)
qed

lemma refute_update_flags:
  "rg_bounced (refute_update J g out) = rg_bounced g"
  "rg_force_reverify_next_turn (refute_update J g out) = rg_force_reverify_next_turn g"
proof -
  have one: "rg_bounced (refute_result J h r) = rg_bounced h
      \<and> rg_force_reverify_next_turn (refute_result J h r) = rg_force_reverify_next_turn h" for h r
    by (auto simp: refute_result_def Let_def split: option.split)
  have "rg_bounced (foldl (refute_result J) g rs) = rg_bounced g
      \<and> rg_force_reverify_next_turn (foldl (refute_result J) g rs) = rg_force_reverify_next_turn g" for rs
    by (induction rs arbitrary: g) (simp_all add: one)
  then show "rg_bounced (refute_update J g out) = rg_bounced g"
    "rg_force_reverify_next_turn (refute_update J g out) = rg_force_reverify_next_turn g"
    by (simp_all add: refute_update_def)
qed

lemma refute_after_rejects:
  "rejects (fst (refute_after J g out)) \<longleftrightarrow>
     \<not> rg_bounced g \<and> to_finish_requested out \<and> rg_findings (refute_update J g out) \<noteq> []"
  by (simp add: refute_after_def Let_def refute_update_flags)

lemma refute_after_bounced:
  "rg_bounced (snd (refute_after J g out)) \<longleftrightarrow> rg_bounced g \<or> rejects (fst (refute_after J g out))"
  by (simp add: refute_after_def Let_def refute_update_flags)

definition refute_left :: "refute_gate \<Rightarrow> nat" where
  "refute_left g = (if rg_bounced g then 0 else 1)"

interpretation refute: bouncing_gate "refute_after J" refute_left "\<lambda>_. True" for J
  by unfold_locales
     (auto simp: refute_left_def refute_after_bounced refute_after_rejects split: if_splits)

text \<open>The gate after a history of observed turns.\<close>

definition refute_history :: "serde \<Rightarrow> turn_outcome list \<Rightarrow> refute_gate" where
  "refute_history J outs = foldl (\<lambda>g out. snd (refute_after J g out)) refute_gate_new outs"

definition history_edits :: "serde \<Rightarrow> turn_outcome list \<Rightarrow> (string \<times> int, unit) edit list" where
  "history_edits J outs = concat (map (\<lambda>out. concat (map (refute_edits J) (to_results out))) outs)"

lemma refute_history_keys:
  "keys_of (rg_findings (refute_history J outs)) = foldl bt.apply_edit [] (history_edits J outs)"
proof -
  have one: "rg_findings (snd (refute_after J g out)) = rg_findings (refute_update J g out)" for g out
    by (simp add: refute_after_def Let_def)
  have "keys_of (rg_findings (foldl (\<lambda>g out. snd (refute_after J g out)) g outs)) =
          foldl bt.apply_edit (keys_of (rg_findings g)) (history_edits J outs)" for g
    by (induction outs arbitrary: g) (simp_all add: history_edits_def one refute_update_keys)
  then show ?thesis by (simp add: refute_history_def refute_gate_new_def keys_of_def)
qed

text \<open>A P0/P1 finding is outstanding when its last edit recorded it.\<close>

definition outstanding :: "serde \<Rightarrow> turn_outcome list \<Rightarrow> string \<times> int \<Rightarrow> bool" where
  "outstanding J outs k \<longleftrightarrow> last_edit (history_edits J outs) k = Some (Some ())"


lemma findings_outstanding:
  "rg_findings (refute_history J outs) \<noteq> [] \<longleftrightarrow> (\<exists>k. outstanding J outs k)"
proof -
  have ok: "bt_ok ([] :: (string \<times> int, unit) btree)" by (simp add: bt_ok_def)
  have "rg_findings (refute_history J outs) \<noteq> [] \<longleftrightarrow> keys_of (rg_findings (refute_history J outs)) \<noteq> []"
    by simp
  also have "\<dots> \<longleftrightarrow> (\<exists>k. bt_get (foldl bt.apply_edit [] (history_edits J outs)) k \<noteq> None)"
    unfolding refute_history_keys by (subst bt_empty_get) simp
  also have "\<dots> \<longleftrightarrow> (\<exists>k. outstanding J outs k)"
  proof -
    have "bt_get (foldl bt.apply_edit [] (history_edits J outs)) k \<noteq> None \<longleftrightarrow> outstanding J outs k" for k
      unfolding bt.get_edits [OF ok] outstanding_def
      by (cases "last_edit (history_edits J outs) k") (auto simp: bt_get_def)
    then show ?thesis by simp
  qed
  finally show ?thesis .
qed

lemma refute_history_bounced:
  "rg_bounced (refute_history J outs) \<longleftrightarrow>
     bounces_in (fst (gate_run (refute_after J) refute_gate_new outs)) \<noteq> 0"
proof -
  have "rg_bounced (foldl (\<lambda>g out. snd (refute_after J g out)) g outs) \<longleftrightarrow>
          rg_bounced g \<or> bounces_in (fst (gate_run (refute_after J) g outs)) \<noteq> 0" for g
    by (induction outs arbitrary: g) (auto simp: split_def Let_def refute_after_bounced)
  then show ?thesis by (simp add: refute_history_def refute_gate_new_def)
qed

lemma refute_update_history:
  "rg_findings (refute_history J (outs @ [out])) = rg_findings (refute_update J (refute_history J outs) out)"
  by (simp add: refute_history_def refute_after_def Let_def)

text \<open>
  The refute gate bounces exactly the first finish that is requested while a P0 or P1 finding is
  outstanding, where a finding is outstanding when its last recording at its file and line was not
  followed by a successful retraction; after that one bounce no finish of the run is held back by it.
\<close>

theorem refute_bounces_first_unproven_finish:
  "(rejects (fst (refute_after J (refute_history J outs) out)) \<longleftrightarrow>
      bounces_in (fst (gate_run (refute_after J) refute_gate_new outs)) = 0
      \<and> to_finish_requested out \<and> (\<exists>k. outstanding J (outs @ [out]) k))
   \<and> bounces_in (fst (gate_run (refute_after J) refute_gate_new outs)) \<le> 1"
proof -
  have "bounces_in (fst (gate_run (refute_after J) refute_gate_new outs)) \<le> 1"
    using refute.bounces_bounded [OF TrueI, of J refute_gate_new outs] by (simp add: refute_left_def refute_gate_new_def)
  then show ?thesis
    unfolding refute_after_rejects findings_outstanding [symmetric] refute_update_history
    by (auto simp: refute_history_bounced)
qed

text \<open>
  The turn after the gate's bounce offers the retrieval tools the bounce asks for, whatever the
  other policies narrow before or after it, and only that turn: the gate asks for them exactly when
  its last observed turn was the one it bounced, and never twice in a row.
\<close>

theorem reverify_turn_can_read:
  "offers (foldl narrow f (before @ reverify_tool_filter # after)) t
     = (tool_name t \<in> {READ_FILE, GRAPH_FIND_SYMBOL, GRAPH_GET_CALLERS, VECTOR_SEMANTIC_SEARCH}
        \<or> offers (foldl narrow f (before @ after)) t)
   \<and> (Narrow reverify_tool_filter \<in> set (fst (refute_before (snd (refute_after J (snd (refute_before g)) out))))
       \<longleftrightarrow> rejects (fst (refute_after J (snd (refute_before g)) out)))
   \<and> fst (refute_before (snd (refute_before g))) = []"
proof -
  have forced: "forces reverify_tool_filter t \<longleftrightarrow>
      tool_name t \<in> {READ_FILE, GRAPH_FIND_SYMBOL, GRAPH_GET_CALLERS, VECTOR_SEMANTIC_SEARCH}"
    "permits reverify_tool_filter t"
    by (auto simp: forces_def permits_def reverify_tool_filter_def filter_defs)
  have "offers (foldl narrow f (before @ reverify_tool_filter # after)) t
     = (tool_name t \<in> {READ_FILE, GRAPH_FIND_SYMBOL, GRAPH_GET_CALLERS, VECTOR_SEMANTIC_SEARCH}
        \<or> offers (foldl narrow f (before @ after)) t)"
    using tf.offered_foldl [of f "before @ reverify_tool_filter # after" t]
      tf.offered_foldl [of f "before @ after" t] forced by auto
  moreover have "fst (refute_before (snd (refute_before g))) = []"
    by (simp add: refute_before_def)
  moreover have "Narrow reverify_tool_filter
      \<in> set (fst (refute_before (snd (refute_after J (snd (refute_before g)) out))))
       \<longleftrightarrow> rejects (fst (refute_after J (snd (refute_before g)) out))"
    using refute_update_flags [of J "snd (refute_before g)" out]
    by (auto simp: refute_before_def refute_after_def Let_def split: if_splits)
  ultimately show ?thesis by blast
qed

end
