(* ===== verification/Sast_Anchor.thy ===== *)
theory Sast_Anchor
  imports Review_Tools
begin

text \<open>
  The SAST anchor gate (\<open>services/review-agent/src/policies/sast_anchor.rs\<close>): a verdict on a scanner
  finding must be recorded at a line the scanner flagged; a misplaced one bounces the finish once.
  The feed that the \<open>run_sast\<close> tool fills is the list of leads pushed so far. The two hash maps
  of the code are kept in key order, the order in which the code reports them.
\<close>

record sast_lead =
  sl_file :: string
  sl_line :: nat
  sl_rule_id :: string

type_synonym coords = "(nat \<times> string) list"

definition is_sast_verdict :: "string \<Rightarrow> string list \<Rightarrow> bool" where
  "is_sast_verdict text rule_ids =
     (let lower = to_ascii_lowercase text
      in str_contains lower ''false positive'' \<or> str_contains lower ''false-positive''
         \<or> list_ex (\<lambda>i. str_contains lower (to_ascii_lowercase i)) rule_ids)"

definition real_coords :: "string \<Rightarrow> coords \<Rightarrow> string" where
  "real_coords fl coords =
     join_with '', '' (map (\<lambda>(line, rule). fl @ '':'' @ dec line @ '' (`'' @ rule @ ''`)'') coords)"

record sast_anchor_gate =
  sg_merged :: nat
  sg_leads :: "(string, coords) btree"
  sg_outstanding :: "(string \<times> int, coords) btree"
  sg_bounced :: bool

definition sast_anchor_new :: sast_anchor_gate where
  "sast_anchor_new = \<lparr>sg_merged = 0, sg_leads = [], sg_outstanding = [], sg_bounced = False\<rparr>"

definition add_lead :: "(string, coords) btree \<Rightarrow> sast_lead \<Rightarrow> (string, coords) btree" where
  "add_lead leads lead =
     (let fl = normalize_repo_path (sl_file lead);
          coords = (case bt_get leads fl of None \<Rightarrow> [] | Some cs \<Rightarrow> cs)
      in bt_put fl (coords @ [(sl_line lead, sl_rule_id lead)]) leads)"

definition sync_leads :: "sast_lead list \<Rightarrow> sast_anchor_gate \<Rightarrow> sast_anchor_gate" where
  "sync_leads sink g =
     (let start = min (sg_merged g) (length sink)
      in g\<lparr>sg_leads := foldl add_lead (sg_leads g) (drop start sink), sg_merged := length sink\<rparr>)"

definition str_field :: "json \<Rightarrow> string \<Rightarrow> string option" where
  "str_field v key = Option.bind (json_get v key) as_str"

text \<open>The coordinate a call's arguments name, when they parse and name one.\<close>

definition coordinate :: "json \<Rightarrow> (string \<times> int) option" where
  "coordinate v =
     (case (map_option normalize_repo_path (str_field v ''file''), Option.bind (json_get v ''line'') as_i64) of
        (Some fl, Some line) \<Rightarrow> Some (fl, line)
      | _ \<Rightarrow> None)"

definition verdict_text :: "json \<Rightarrow> string" where
  "verdict_text v =
     unwrap_or_default (str_field v ''title'') @ '' '' @ unwrap_or_default (str_field v ''body'') @ '' ''
     @ unwrap_or_default (str_field v ''evidence'')"

definition anchor_result ::
  "serde \<Rightarrow> sast_anchor_gate \<Rightarrow> tool_call_result \<Rightarrow> sast_anchor_gate" where
  "anchor_result J g r =
     (let nm = call_name (cr_call r); args = call_arguments (cr_call r)
      in if nm = ADD_REVIEW_COMMENT \<and> reports ''recorded finding'' (cr_outcome r) then
           (case from_text J args of
              None \<Rightarrow> g
            | Some parsed \<Rightarrow>
                (case coordinate parsed of
                   None \<Rightarrow> g
                 | Some (fl, line) \<Rightarrow>
                     (case bt_get (sg_leads g) fl of
                        None \<Rightarrow> g
                      | Some coords \<Rightarrow>
                          if list_ex (\<lambda>(l, _). int l = line) coords
                          then g\<lparr>sg_outstanding := bt_del (fl, line) (sg_outstanding g)\<rparr>
                          else if is_sast_verdict (verdict_text parsed) (map snd coords)
                          then g\<lparr>sg_outstanding := bt_put (fl, line) coords (sg_outstanding g)\<rparr>
                          else g\<lparr>sg_outstanding := bt_del (fl, line) (sg_outstanding g)\<rparr>)))
         else if nm = RETRACT_FINDING \<and> reports ''retracted finding'' (cr_outcome r) then
           (case from_text J args of
              None \<Rightarrow> g
            | Some parsed \<Rightarrow>
                (case coordinate parsed of
                   None \<Rightarrow> g
                 | Some k \<Rightarrow> g\<lparr>sg_outstanding := bt_del k (sg_outstanding g)\<rparr>))
         else g)"

definition anchor_update ::
  "serde \<Rightarrow> sast_anchor_gate \<Rightarrow> turn_outcome \<Rightarrow> sast_anchor_gate" where
  "anchor_update J g outcome = foldl (anchor_result J) g (to_results outcome)"

definition violation_line :: "(string \<times> int) \<times> coords \<Rightarrow> string" where
  "violation_line v =
     (let ((fl, line), coords) = v
      in ''- you wrote a SAST verdict at '' @ fl @ '':'' @ dec_int line @ '', but opengrep flagged ''
         @ real_coords fl coords @ '' '' @ [CHR 0xE2, CHR 0x80, CHR 0x94] @ '' not that line.'')"

definition violation_detail :: "(string \<times> int) \<times> coords \<Rightarrow> json" where
  "violation_detail v =
     (let ((fl, line), coords) = v
      in JObj [(''actual'', JStr (real_coords fl coords)), (''wrong'', JStr (fl @ '':'' @ dec_int line))])"

definition anchor_message :: "((string \<times> int) \<times> coords) list \<Rightarrow> string" where
  "anchor_message violations =
     ''Before you finish: a recorded finding claims a SAST verdict ('' @ [CHR 0x22] @ ''false positive''
     @ [CHR 0x22] @ '' or an opengrep rule id) on a line opengrep never flagged ''
     @ [CHR 0xE2, CHR 0x80, CHR 0x94] @ '' that's an unverified guess, not a triage:'' @ nl
     @ join_with nl (map violation_line violations) @ nl @ nl
     @ ''For each: call `read_file` on the EXACT flagged line named above, quote what it actually contains, and reason from that ''
     @ [CHR 0xE2, CHR 0x80, CHR 0x94]
     @ '' never a nearby or similar-looking line. Then `retract_finding` the wrong-anchored one; only record a new finding at the real coordinate if you can prove your verdict against its real content.''"

definition anchor_after ::
  "serde \<Rightarrow> sast_lead list \<Rightarrow> sast_anchor_gate \<Rightarrow> turn_outcome \<Rightarrow> policy_action list \<times> sast_anchor_gate" where
  "anchor_after J sink g0 outcome =
     (let g1 = sync_leads sink g0
      in if sg_leads g1 = [] then ([], g1)
         else
           (let g = anchor_update J g1 outcome
            in if sg_bounced g \<or> sg_outstanding g = [] \<or> \<not> to_finish_requested outcome then ([], g)
               else
                 ([Record (Some ''sast_anchor_bounce'')
                     (JObj [(''violations'', JArr (map violation_detail (sg_outstanding g)))]),
                   RejectFinish (Nudge (anchor_message (sg_outstanding g)))],
                  g\<lparr>sg_bounced := True\<rparr>)))"

section \<open>The gate's leads are the feed, regrouped\<close>

definition regroup :: "sast_lead list \<Rightarrow> (string, coords) btree" where
  "regroup sink = foldl add_lead [] sink"

definition flagged :: "sast_lead list \<Rightarrow> string \<Rightarrow> coords" where
  "flagged sink fl =
     map (\<lambda>l. (sl_line l, sl_rule_id l)) (filter (\<lambda>l. normalize_repo_path (sl_file l) = fl) sink)"

lemma regroup_ok: "bt_ok (regroup sink)"
proof -
  have "bt_ok m \<Longrightarrow> bt_ok (foldl add_lead m ls)" for m ls
    by (induction ls arbitrary: m) (auto simp: add_lead_def Let_def bt.ok_put)
  then show ?thesis by (simp add: regroup_def bt_ok_def)
qed

lemma regroup_snoc: "regroup (sink @ [l]) = add_lead (regroup sink) l"
  by (simp add: regroup_def)

lemma regroup_get:
  "bt_get (regroup sink) fl = (if flagged sink fl = [] then None else Some (flagged sink fl))"
proof (induction sink rule: rev_induct)
  case Nil
  show ?case by (simp add: regroup_def flagged_def bt_get_def)
next
  case (snoc l sink)
  show ?case
    using snoc.IH
    by (auto simp: regroup_snoc add_lead_def Let_def bt.get_put [OF regroup_ok] flagged_def
        split: option.splits if_splits)
qed

definition synced :: "sast_lead list \<Rightarrow> sast_anchor_gate \<Rightarrow> bool" where
  "synced sink g \<longleftrightarrow> sg_merged g = length sink \<and> sg_leads g = regroup sink"

lemma sync_grows: "synced sink g \<Longrightarrow> synced (sink @ fresh) (sync_leads (sink @ fresh) g)"
  by (simp add: synced_def sync_leads_def Let_def regroup_def)

lemma anchor_result_fixed:
  "sg_merged (anchor_result J g r) = sg_merged g" "sg_leads (anchor_result J g r) = sg_leads g"
  "sg_bounced (anchor_result J g r) = sg_bounced g"
  by (auto simp: anchor_result_def Let_def split: option.splits)

lemma anchor_update_fixed:
  "sg_merged (anchor_update J g out) = sg_merged g" "sg_leads (anchor_update J g out) = sg_leads g"
  "sg_bounced (anchor_update J g out) = sg_bounced g"
proof -
  have "sg_merged (foldl (anchor_result J) g rs) = sg_merged g
      \<and> sg_leads (foldl (anchor_result J) g rs) = sg_leads g
      \<and> sg_bounced (foldl (anchor_result J) g rs) = sg_bounced g" for rs
    by (induction rs arbitrary: g) (simp_all add: anchor_result_fixed)
  then show "sg_merged (anchor_update J g out) = sg_merged g"
    "sg_leads (anchor_update J g out) = sg_leads g" "sg_bounced (anchor_update J g out) = sg_bounced g"
    by (simp_all add: anchor_update_def)
qed

lemma sync_leads_fixed [simp]:
  "sg_bounced (sync_leads sink g) = sg_bounced g" "sg_outstanding (sync_leads sink g) = sg_outstanding g"
  by (simp_all add: sync_leads_def Let_def)

lemma anchor_after_bounced:
  "rejects (fst (anchor_after J sink g out)) \<Longrightarrow> \<not> sg_bounced g \<and> to_finish_requested out"
  "sg_bounced (snd (anchor_after J sink g out)) \<longleftrightarrow> sg_bounced g \<or> rejects (fst (anchor_after J sink g out))"
  by (auto simp: anchor_after_def Let_def anchor_update_fixed split: if_splits)

definition anchor_left :: "sast_anchor_gate \<Rightarrow> nat" where
  "anchor_left g = (if sg_bounced g then 0 else 1)"

definition anchor_step ::
  "serde \<Rightarrow> sast_anchor_gate \<Rightarrow> sast_lead list \<times> turn_outcome \<Rightarrow> policy_action list \<times> sast_anchor_gate" where
  "anchor_step J g i = anchor_after J (fst i) g (snd i)"

interpretation anchor: bouncing_gate "anchor_step J" anchor_left "\<lambda>_. True" for J
  by unfold_locales
     (auto simp: anchor_left_def anchor_step_def anchor_after_bounced split: if_splits)

lemma anchor_after_synced:
  "synced sink g \<Longrightarrow> synced (sink @ fresh) (snd (anchor_after J (sink @ fresh) g out))"
  using sync_grows [of sink g fresh]
  by (auto simp: anchor_after_def Let_def synced_def anchor_update_fixed)

section \<open>What the gate holds against a run\<close>

text \<open>Every outstanding verdict sits in a file the scanner flagged, at a line it had not flagged when
  the verdict was recorded.\<close>

definition misanchored :: "sast_lead list \<Rightarrow> (string \<times> int) \<times> coords \<Rightarrow> bool" where
  "misanchored sink v \<longleftrightarrow>
     (let ((fl, line), coords) = v
      in coords \<noteq> [] \<and> prefix coords (flagged sink fl) \<and> \<not> list_ex (\<lambda>(l, _). int l = line) coords)"

lemma set_bt_put: "set (bt_put k v m) \<subseteq> insert (k, v) (set m)"
  by (induction m) (auto split: if_splits)

lemma anchor_result_misanchored:
  assumes "sg_leads g = regroup sink" "list_all (misanchored sink) (sg_outstanding g)"
  shows "list_all (misanchored sink) (sg_outstanding (anchor_result J g r))"
proof -
  have put: "list_all (misanchored sink) (bt_put (fl, line) cs (sg_outstanding g))"
    if "bt_get (regroup sink) fl = Some cs" "\<not> list_ex (\<lambda>(l, _). int l = line) cs" for fl line cs
  proof -
    have "misanchored sink ((fl, line), cs)"
      using that by (auto simp: misanchored_def regroup_get split: if_splits)
    with assms(2) set_bt_put [of "(fl, line)" cs "sg_outstanding g"] show ?thesis
      by (auto simp: list_all_iff)
  qed
  have del: "list_all (misanchored sink) (bt_del k (sg_outstanding g))" for k
    using assms(2) by (auto simp: bt_del_def list_all_iff)
  show ?thesis
    using assms put del
    by (simp add: anchor_result_def Let_def split: option.split prod.split)
qed

lemma anchor_update_misanchored:
  assumes "sg_leads g = regroup sink" "list_all (misanchored sink) (sg_outstanding g)"
  shows "list_all (misanchored sink) (sg_outstanding (anchor_update J g out))"
proof -
  have "sg_leads g = regroup sink \<Longrightarrow> list_all (misanchored sink) (sg_outstanding g) \<Longrightarrow>
        list_all (misanchored sink) (sg_outstanding (foldl (anchor_result J) g rs))" for rs
    by (induction rs arbitrary: g) (simp_all add: anchor_result_misanchored anchor_result_fixed)
  with assms show ?thesis by (simp add: anchor_update_def)
qed

lemma misanchored_mono: "misanchored sink v \<Longrightarrow> misanchored (sink @ fresh) v"
  by (auto simp: misanchored_def flagged_def Let_def prefix_def split: prod.splits)

text \<open>The gate over a history: at each observed turn the feed has grown by some leads.\<close>

fun anchor_history ::
  "serde \<Rightarrow> sast_lead list \<Rightarrow> sast_anchor_gate \<Rightarrow> (sast_lead list \<times> turn_outcome) list
   \<Rightarrow> sast_lead list \<times> sast_anchor_gate" where
  "anchor_history J sink g [] = (sink, g)"
| "anchor_history J sink g ((fresh, out) # rest) =
     anchor_history J (sink @ fresh) (snd (anchor_after J (sink @ fresh) g out)) rest"

lemma anchor_after_outstanding:
  assumes "synced sink g" "list_all (misanchored sink) (sg_outstanding g)"
  shows "list_all (misanchored (sink @ fresh)) (sg_outstanding (snd (anchor_after J (sink @ fresh) g out)))"
proof -
  let ?g = "sync_leads (sink @ fresh) g"
  have "sg_leads ?g = regroup (sink @ fresh)" using sync_grows [OF assms(1), of fresh] by (simp add: synced_def)
  moreover have "list_all (misanchored (sink @ fresh)) (sg_outstanding ?g)"
    using assms(2) misanchored_mono by (auto simp: list_all_iff)
  ultimately show ?thesis
    using anchor_update_misanchored [of ?g "sink @ fresh" J out]
    by (auto simp: anchor_after_def Let_def)
qed

lemma anchor_history_invariant:
  "synced sink g \<Longrightarrow> list_all (misanchored sink) (sg_outstanding g) \<Longrightarrow>
   (case anchor_history J sink g turns of (sink', g') \<Rightarrow>
      synced sink' g' \<and> list_all (misanchored sink') (sg_outstanding g')
      \<and> sink' = sink @ concat (map fst turns))"
proof (induction turns arbitrary: sink g)
  case (Cons turn turns)
  obtain fresh out where turn: "turn = (fresh, out)" by (cases turn)
  from Cons.IH [OF anchor_after_synced [OF Cons.prems(1), of fresh J out]
      anchor_after_outstanding [OF Cons.prems, of fresh J out]]
  show ?case by (auto simp: turn split: prod.splits)
qed simp

text \<open>
  However the scanner's feed grows during a run, merging it turn by turn gives the gate exactly
  the flagged coordinates of the whole feed, file by file and in feed order; and every verdict it holds
  outstanding is in a flagged file at a line the scanner had not flagged when the verdict was recorded,
  with the coordinates the nudge names being ones the scanner reported for that file.
\<close>

theorem anchor_tracks_the_feed:
  "case anchor_history J [] sast_anchor_new turns of (sink, g) \<Rightarrow>
     sink = concat (map fst turns)
     \<and> bt_get (sg_leads g) fl = (if flagged sink fl = [] then None else Some (flagged sink fl))
     \<and> list_all (misanchored sink) (sg_outstanding g)"
proof -
  have "synced [] sast_anchor_new" "list_all (misanchored []) (sg_outstanding sast_anchor_new)"
    by (simp_all add: synced_def sast_anchor_new_def regroup_def)
  from anchor_history_invariant [OF this, of turns J] show ?thesis
    by (auto simp: synced_def regroup_get split: prod.splits)
qed

text \<open>
  The anchor gate bounces at most one finish of a run: the first one requested while a misplaced
  verdict is outstanding. It stays silent as long as the scanner has reported nothing.
\<close>

theorem anchor_bounces_once:
  "bounces_in (fst (gate_run (anchor_step J) sast_anchor_new turns)) \<le> 1
   \<and> (rejects (fst (anchor_after J sink g out)) \<longleftrightarrow>
        \<not> sg_bounced g \<and> to_finish_requested out \<and> sg_leads (sync_leads sink g) \<noteq> []
        \<and> sg_outstanding (anchor_update J (sync_leads sink g) out) \<noteq> [])
   \<and> fst (anchor_after J [] sast_anchor_new out) = []"
proof -
  have "bounces_in (fst (gate_run (anchor_step J) sast_anchor_new turns)) \<le> 1"
    using anchor.bounces_bounded [OF TrueI, of J sast_anchor_new turns]
    by (simp add: anchor_left_def sast_anchor_new_def)
  moreover have "fst (anchor_after J [] sast_anchor_new out) = []"
    by (simp add: anchor_after_def sync_leads_def sast_anchor_new_def)
  moreover have "rejects (fst (anchor_after J sink g out)) \<longleftrightarrow>
        \<not> sg_bounced g \<and> to_finish_requested out \<and> sg_leads (sync_leads sink g) \<noteq> []
        \<and> sg_outstanding (anchor_update J (sync_leads sink g) out) \<noteq> []"
    by (auto simp: anchor_after_def Let_def anchor_update_fixed)
  ultimately show ?thesis by blast
qed

end
