(* ===== verification/Review_Nudges.thy ===== *)
theory Review_Nudges
  imports Review_Tools
begin

text \<open>
  The two review policies that never bounce a finish: the guard against recording on the same line
  over and over (\<open>policies/scratchpad.rs\<close>) and the nudge towards \<open>finish\<close> once a finding is recorded
  (\<open>policies/finding_nudge.rs\<close>).
\<close>

section \<open>The same-line guard\<close>

text \<open>\<open>as i32\<close> keeps the low 32 bits, read as a signed number.\<close>

definition as_i32 :: "int \<Rightarrow> int" where
  "as_i32 i = sint (word_of_int i :: 32 word)"

record scratchpad_guard =
  sp_last_location :: "(string \<times> int) option"
  sp_repeats :: nat
  sp_suppress_next :: bool

definition scratchpad_new :: scratchpad_guard where
  "scratchpad_new = \<lparr>sp_last_location = None, sp_repeats = 0, sp_suppress_next = False\<rparr>"

definition scratchpad_before ::
  "scratchpad_guard \<Rightarrow> turn_state \<Rightarrow> policy_action list \<times> scratchpad_guard" where
  "scratchpad_before p st =
     (if \<not> sp_suppress_next p then ([], p)
      else ([Narrow (only_names (filter (\<lambda>nm. nm \<noteq> ADD_REVIEW_COMMENT) (map tool_spec_name (st_base_tools st))))],
            p\<lparr>sp_suppress_next := False\<rparr>))"

definition recorded_finding :: "tool_call_result \<Rightarrow> bool" where
  "recorded_finding r \<longleftrightarrow>
     call_name (cr_call r) = ADD_REVIEW_COMMENT \<and> reports ''recorded finding'' (cr_outcome r)"

definition raw_location :: "serde \<Rightarrow> tool_call_result \<Rightarrow> (string \<times> int) option" where
  "raw_location J r =
     (let args = call_arguments (cr_call r)
      in map_option (\<lambda>fl. (fl, as_i32 (case arg_int_field J args ''line'' of None \<Rightarrow> 0 | Some i \<Rightarrow> i)))
           (arg_field J args ''file''))"

definition scratchpad_result :: "serde \<Rightarrow> scratchpad_guard \<Rightarrow> tool_call_result \<Rightarrow> scratchpad_guard" where
  "scratchpad_result J p r =
     (if \<not> recorded_finding r then p
      else
        (let location = raw_location J r
         in if location \<noteq> None \<and> location = sp_last_location p
            then p\<lparr>sp_repeats := sp_repeats p + 1\<rparr>
            else p\<lparr>sp_repeats := 0, sp_last_location := location\<rparr>))"

definition scratchpad_nudge :: string where
  "scratchpad_nudge =
     ''You've recorded on the same line several times '' @ [CHR 0xE2, CHR 0x80, CHR 0x94]
     @ '' that's a loop, and the buffer keeps only the last one. `add_review_comment` is for a FINAL finding you can prove, not for notes. Investigate with `read_file` (or `report_progress` to jot a note), then record the finding once ''
     @ [CHR 0xE2, CHR 0x80, CHR 0x94]
     @ '' or call `finish`. (add_review_comment is unavailable next turn.)''"

definition scratchpad_after ::
  "serde \<Rightarrow> scratchpad_guard \<Rightarrow> turn_outcome \<Rightarrow> policy_action list \<times> scratchpad_guard" where
  "scratchpad_after J p0 outcome =
     (let p = foldl (scratchpad_result J) p0 (to_results outcome)
      in if sp_repeats p < 2 then ([], p)
         else ([Record None (JObj []), Inject (Nudge scratchpad_nudge)],
               p\<lparr>sp_repeats := 0, sp_suppress_next := True\<rparr>))"

section \<open>The nudge towards finish\<close>

record finding_nudge =
  fn_findings :: nat
  fn_nudged :: bool

definition finding_nudge_new :: finding_nudge where
  "finding_nudge_new = \<lparr>fn_findings = 0, fn_nudged = False\<rparr>"

definition finding_nudge_text :: string where
  "finding_nudge_text =
     ''You have recorded at least one finding. When your investigation is complete, call `finish` with your overall verdict to post everything you've buffered ''
     @ [CHR 0xE2, CHR 0x80, CHR 0x94]
     @ '' don't keep investigating past the point of useful work.''"

definition finding_nudge_after :: "finding_nudge \<Rightarrow> turn_outcome \<Rightarrow> policy_action list \<times> finding_nudge" where
  "finding_nudge_after p0 outcome =
     (let found = fn_findings p0 + length (filter recorded_finding (to_results outcome));
          p = p0\<lparr>fn_findings := found\<rparr>
      in if fn_nudged p \<or> found = 0 \<or> to_finish_requested outcome then ([SetFindings found], p)
         else ([SetFindings found, Record None (JObj [(''findings'', JInt (int found))]),
                Inject (Nudge finding_nudge_text)],
               p\<lparr>fn_nudged := True\<rparr>))"

section \<open>Neither policy holds back a finish\<close>

lemma nudges_never_reject [simp]:
  "\<not> rejects (fst (scratchpad_before p st))" "\<not> rejects (fst (scratchpad_after J p out))"
  "\<not> rejects (fst (finding_nudge_after q out))"
  by (simp_all add: scratchpad_before_def scratchpad_after_def finding_nudge_after_def Let_def)

text \<open>The guard after a history of turns, each preceded by its before-turn hook.\<close>

definition scratchpad_turn ::
  "serde \<Rightarrow> turn_state \<Rightarrow> scratchpad_guard \<Rightarrow> turn_outcome \<Rightarrow> scratchpad_guard" where
  "scratchpad_turn J st p out = snd (scratchpad_after J (snd (scratchpad_before p st)) out)"

lemma scratchpad_result_suppress [simp]:
  "sp_suppress_next (scratchpad_result J p r) = sp_suppress_next p"
  by (simp add: scratchpad_result_def Let_def)

lemma scratchpad_results_suppress [simp]:
  "sp_suppress_next (foldl (scratchpad_result J) p rs) = sp_suppress_next p"
  by (induction rs arbitrary: p) simp_all

lemma all_same_location:
  assumes "list_all (\<lambda>r. recorded_finding r \<and> raw_location J r = Some loc) rs"
  shows "sp_last_location p = Some loc \<Longrightarrow>
    foldl (scratchpad_result J) p rs = p\<lparr>sp_repeats := sp_repeats p + length rs\<rparr>"
  using assms by (induction rs arbitrary: p) (auto simp: scratchpad_result_def Let_def)

text \<open>
  Three consecutive findings recorded at one location within a turn trip the guard, whatever the
  guard had seen before: it nudges, and on the next turn, and only then, it asks for a filter that
  leaves \<open>add_review_comment\<close> out and keeps every other registered tool.
\<close>

theorem same_line_loop_is_broken:
  assumes "list_all (\<lambda>r. recorded_finding r \<and> raw_location J r = Some loc) rs" "3 \<le> length rs"
    and "to_results out = before @ rs"
  shows "(let p1 = scratchpad_turn J st p out; (actions, p2) = scratchpad_before p1 st2
          in Inject (Nudge scratchpad_nudge) \<in> set (fst (scratchpad_after J (snd (scratchpad_before p st)) out))
             \<and> actions = [Narrow (only_names (filter (\<lambda>nm. nm \<noteq> ADD_REVIEW_COMMENT)
                             (map tool_spec_name (st_base_tools st2))))]
             \<and> fst (scratchpad_before p2 st3) = [])"
proof -
  obtain r rs' where rs: "rs = r # rs'" "2 \<le> length rs'" using assms(2) by (cases rs) auto
  let ?p0 = "foldl (scratchpad_result J) (snd (scratchpad_before p st)) before"
  let ?p1 = "scratchpad_result J ?p0 r"
  have "sp_last_location ?p1 = Some loc"
    using assms(1) rs by (auto simp: scratchpad_result_def Let_def)
  then have "foldl (scratchpad_result J) (snd (scratchpad_before p st)) (to_results out)
      = ?p1\<lparr>sp_repeats := sp_repeats ?p1 + length rs'\<rparr>"
    using assms rs all_same_location [of J loc rs' ?p1] by simp
  then have "2 \<le> sp_repeats (foldl (scratchpad_result J) (snd (scratchpad_before p st)) (to_results out))"
    using rs by simp
  then show ?thesis
    by (simp add: scratchpad_turn_def scratchpad_after_def Let_def scratchpad_before_def)
qed

definition sample_serde :: serde where
  "sample_serde = \<lparr>to_text = (\<lambda>_. []),
     from_text = (\<lambda>s. Some (JObj [(''file'', JStr s), (''line'', JInt 7)]))\<rparr>"

definition sample_finding :: tool_call_result where
  "sample_finding =
     \<lparr>cr_call = \<lparr>tc_id = ''i'', tc_kind = ''function'',
        tc_function = \<lparr>fc_name = ADD_REVIEW_COMMENT, fc_arguments = ''a.rs''\<rparr>, tc_extra = None\<rparr>,
      cr_kind = Some WriteK, cr_outcome = Continue ''recorded finding 1''\<rparr>"

theorem same_line_loop_is_broken_witness:
  "Inject (Nudge scratchpad_nudge) \<in> set (fst (scratchpad_after sample_serde
      (snd (scratchpad_before scratchpad_new
        \<lparr>st_turn = 3, st_max_turns = 9, st_messages = [], st_base_tools = [], st_stats = stats_default,
         st_converging = False\<rparr>))
      \<lparr>to_assistant = user_message [], to_results = [] @ [sample_finding, sample_finding, sample_finding],
       to_finish_requested = False, to_abort_reason = None\<rparr>))"
proof -
  have "recorded_finding sample_finding \<and> raw_location sample_serde sample_finding = Some (''a.rs'', 7)"
    by code_simp
  then have l: "list_all (\<lambda>r. recorded_finding r \<and> raw_location sample_serde r = Some (''a.rs'', 7))
      [sample_finding, sample_finding, sample_finding]" by simp
  show ?thesis
    using same_line_loop_is_broken [OF l, of
        "\<lparr>to_assistant = user_message [], to_results = [] @ [sample_finding, sample_finding, sample_finding],
          to_finish_requested = False, to_abort_reason = None\<rparr>" "[]"
        "\<lparr>st_turn = 3, st_max_turns = 9, st_messages = [], st_base_tools = [], st_stats = stats_default,
          st_converging = False\<rparr>" scratchpad_new]
    by (simp add: Let_def split_def)
qed

end
