(* ===== verification/Review_Flow.thy ===== *)
theory Review_Flow
  imports Finish_Budget Loop_Policies Coverage Refute Sast_Anchor Review_Nudges
begin

text \<open>
  One review (\<open>services/review-agent/src/flows.rs\<close>): the nine policies in their frozen order, the loop
  over them, and the post-loop flush of the coverage disclosure.
\<close>

section \<open>The policy objects\<close>

datatype review_policy =
    PolTrim context_window_trim
  | PolWindDown wind_down
  | PolReads read_budgets
  | PolTurns turn_budget
  | PolScratchpad scratchpad_guard
  | PolCoverage coverage_gate
  | PolRefute refute_gate
  | PolAnchor sast_anchor_gate
  | PolNudge finding_nudge

fun review_policy_name :: "review_policy \<Rightarrow> string" where
  "review_policy_name (PolTrim _) = ''context_trim''"
| "review_policy_name (PolWindDown _) = ''wind_down''"
| "review_policy_name (PolReads _) = ''read_budgets''"
| "review_policy_name (PolTurns _) = ''halfway''"
| "review_policy_name (PolScratchpad _) = ''scratchpad_guard''"
| "review_policy_name (PolCoverage _) = ''coverage_gate''"
| "review_policy_name (PolRefute _) = ''refute''"
| "review_policy_name (PolAnchor _) = ''sast_anchor''"
| "review_policy_name (PolNudge _) = ''finding_finish_nudge''"

fun review_before :: "serde \<Rightarrow> review_policy \<Rightarrow> turn_state \<Rightarrow> policy_action list \<times> review_policy" where
  "review_before J (PolTrim p) st = map_prod id PolTrim (context_window_trim_before J p st)"
| "review_before J (PolWindDown p) st = map_prod id PolWindDown (wind_down_before p st)"
| "review_before J (PolReads p) st = map_prod id PolReads (read_budgets_before p st)"
| "review_before J (PolTurns p) st = map_prod id PolTurns (turn_budget_before p st)"
| "review_before J (PolScratchpad p) st = map_prod id PolScratchpad (scratchpad_before p st)"
| "review_before J (PolRefute p) st = map_prod id PolRefute (refute_before p)"
| "review_before J (PolCoverage p) st = ([], PolCoverage p)"
| "review_before J (PolAnchor p) st = ([], PolAnchor p)"
| "review_before J (PolNudge p) st = ([], PolNudge p)"

text \<open>\<open>sink_of\<close> reads the feed that the \<open>run_sast\<close> tool of the run has filled.\<close>

fun review_after ::
  "serde \<Rightarrow> (string \<Rightarrow> bool) \<Rightarrow> ('x \<Rightarrow> sast_lead list) \<Rightarrow> 'x \<Rightarrow> review_policy \<Rightarrow> turn_state
   \<Rightarrow> turn_outcome \<Rightarrow> policy_action list \<times> review_policy" where
  "review_after J wide_alnum sink_of x (PolScratchpad p) st out =
     map_prod id PolScratchpad (scratchpad_after J p out)"
| "review_after J wide_alnum sink_of x (PolCoverage p) st out =
     map_prod id PolCoverage (coverage_after J wide_alnum p st out)"
| "review_after J wide_alnum sink_of x (PolRefute p) st out = map_prod id PolRefute (refute_after J p out)"
| "review_after J wide_alnum sink_of x (PolAnchor p) st out =
     map_prod id PolAnchor (anchor_after J (sink_of x) p out)"
| "review_after J wide_alnum sink_of x (PolNudge p) st out = map_prod id PolNudge (finding_nudge_after p out)"
| "review_after J wide_alnum sink_of x p st out = ([], p)"

fun review_flush :: "review_policy \<Rightarrow> policy_action list \<times> review_policy" where
  "review_flush (PolCoverage p) = map_prod id PolCoverage (coverage_flush p)"
| "review_flush p = ([], p)"

definition review_ops ::
  "serde \<Rightarrow> (string \<Rightarrow> bool) \<Rightarrow> ('x \<Rightarrow> sast_lead list) \<Rightarrow> (review_policy, 'x) policy_ops" where
  "review_ops J wide_alnum sink_of =
     \<lparr>po_name = review_policy_name, po_before = review_before J,
      po_after = review_after J wide_alnum sink_of,
      po_finish = (\<lambda>p _ _. review_flush p), po_exhausted = (\<lambda>p _. review_flush p)\<rparr>"

section \<open>The run\<close>

record review_run_params =
  rp_max_turns :: nat
  rp_max_batch_size :: nat
  rp_max_batches :: nat
  rp_max_files_read :: nat
  rp_max_searches :: nat
  rp_max_coverage_bounces :: nat
  rp_circuit_breaker_threshold :: nat
  rp_context_window :: "nat option"
  rp_diff_present :: bool
  rp_diff_files :: "string list"

definition tool_def_names :: "string list" where
  "tool_def_names =
     [''lightbridge_vector_semantic_search'', ''lightbridge_graph_find_symbol'',
      ''lightbridge_graph_get_callers'', ''lightbridge_graph_semantic_search'', ''read_file'',
      ''add_review_comment'', ''retract_finding'', ''add_comment'', ''finish'', ''report_progress'',
      ''abort'', ''run_sast'']"

definition winddown_filter :: "bool \<Rightarrow> turn_filter" where
  "winddown_filter diff_present =
     (if diff_present then filter_all
      else only_names (filter (\<lambda>nm. nm \<noteq> RETRACT_FINDING) tool_def_names))"

definition review_policies :: "review_run_params \<Rightarrow> review_policy list" where
  "review_policies p =
     [PolTrim (context_window_trim_new (rp_context_window p)),
      PolWindDown (wind_down_with_filter (wind_down_new (rp_max_turns p) (rp_max_batches p))
                     (winddown_filter (rp_diff_present p))),
      PolReads (read_budgets_new (rp_max_files_read p) (rp_max_searches p)),
      PolTurns (turn_budget_new (rp_max_turns p)),
      PolScratchpad scratchpad_new,
      PolCoverage (coverage_gate_new (rp_diff_files p) (rp_max_coverage_bounces p) (rp_max_turns p)),
      PolRefute refute_gate_new,
      PolAnchor sast_anchor_new,
      PolNudge finding_nudge_new]"

definition review_no_tool_nudge :: string where
  "review_no_tool_nudge =
     ''Use the tools to investigate and record findings with `add_review_comment` (or a reply with `add_comment`), then call `finish` with your verdict (or `abort`). Do not reply in prose.''"

definition review_limits :: "review_run_params \<Rightarrow> loop_limits" where
  "review_limits p =
     \<lparr>ll_max_turns = rp_max_turns p, ll_max_batch_size = rp_max_batch_size p,
      ll_circuit_breaker_threshold = rp_circuit_breaker_threshold p,
      ll_no_tool_nudge = review_no_tool_nudge\<rparr>"

text \<open>What the host injects into a review.\<close>

record ('r, 'x) review_host =
  rh_step :: "('r, 'x) step_runtime"
  rh_model :: "chat_request \<Rightarrow> 'x \<Rightarrow> (step_error, assistant_turn) result \<times> 'x"
  rh_registry :: "'x tool_registry"
  rh_serde :: serde
  rh_wide_alnum :: "string \<Rightarrow> bool"
  rh_sink_of :: "'x \<Rightarrow> sast_lead list"
  rh_debug :: "string \<Rightarrow> string"
  rh_post_summary :: "string \<Rightarrow> 'x \<Rightarrow> 'x"
  rh_schedule :: "'x \<Rightarrow> nat list \<Rightarrow> nat list"

definition review_agent ::
  "('r, 'x) review_host \<Rightarrow> conversation \<Rightarrow> review_run_params \<Rightarrow> (review_policy, 'r, 'x) agent" where
  "review_agent H conv p =
     \<lparr>ag_step = rh_step H, ag_model = rh_model H, ag_tools = rh_registry H,
      ag_ops = review_ops (rh_serde H) (rh_wide_alnum H) (rh_sink_of H),
      ag_limits = review_limits p, ag_renderer = render_fast_refusal (rh_debug H),
      ag_serde = rh_serde H, ag_request = cv_request conv, ag_initial_filter = cv_initial_filter conv,
      ag_schedule = rh_schedule H\<rparr>"

fun amended_of :: "review_policy list \<Rightarrow> string option" where
  "amended_of [] = None"
| "amended_of (PolCoverage g # ps) = cg_amended g"
| "amended_of (_ # ps) = amended_of ps"

definition run_review ::
  "('r, 'x) review_host \<Rightarrow> conversation \<Rightarrow> review_run_params \<Rightarrow> 'r \<Rightarrow> 'x
   \<Rightarrow> (step_error, loop_outcome) result \<times> (review_policy, 'r, 'x) loop_state" where
  "run_review H conv p r x =
     (case run_loop (review_agent H conv p)
             (initial_state r x (review_policies p) (cv_messages conv)) of
        (Inl e, s) \<Rightarrow> (Inl e, s)
      | (Inr outcome, s) \<Rightarrow>
          (Inr outcome,
           case amended_of (ls_policies s) of
             None \<Rightarrow> s
           | Some amended \<Rightarrow> s\<lparr>ls_world := rh_post_summary H amended (ls_world s)\<rparr>))"

section \<open>The bounce budget of a review\<close>

fun review_left :: "review_policy \<Rightarrow> nat" where
  "review_left (PolCoverage g) = coverage_left g"
| "review_left (PolRefute g) = refute_left g"
| "review_left (PolAnchor g) = anchor_left g"
| "review_left _ = 0"

fun review_ok :: "review_policy \<Rightarrow> bool" where
  "review_ok (PolCoverage g) = finite_gate g"
| "review_ok _ = True"

lemma refute_before_bounced [simp]: "rg_bounced (snd (refute_before g)) = rg_bounced g"
  by (simp add: refute_before_def)

lemma no_guard_actions:
  "GuardOffered \<notin> set (fst (context_window_trim_before J p st))"
  "GuardOffered \<notin> set (fst (wind_down_before w st))"
  "GuardOffered \<notin> set (fst (read_budgets_before b st))"
  "GuardOffered \<notin> set (fst (turn_budget_before t st))"
  "GuardOffered \<notin> set (fst (scratchpad_before s st))" "GuardOffered \<notin> set (fst (refute_before r))"
  by (auto simp: context_window_trim_before_def wind_down_before_def read_budgets_before_def
      turn_budget_before_def scratchpad_before_def refute_before_def Let_def split: option.splits)

lemma review_never_forces:
  "\<not> list_ex is_force_finish (fst (scratchpad_before s st))"
  "\<not> list_ex is_force_finish (fst (refute_before r))"
  by (auto simp: scratchpad_before_def refute_before_def is_force_finish_def)

interpretation review: bouncing_policies "review_ops J wide_alnum sink_of" review_left review_ok
  for J wide_alnum sink_of
proof (unfold_locales, goal_cases)
  case (1 p st)
  then show ?case by (cases p) (simp_all add: review_ops_def)
next
  case (2 p st)
  then show ?case by (cases p) (simp_all add: review_ops_def refute_left_def)
next
  case (3 p st)
  then show ?case
    by (cases p) (simp_all add: review_ops_def loop_policies_never_force review_never_forces)
next
  case (4 p st)
  then show ?case by (cases p) (simp_all add: review_ops_def no_guard_actions)
next
  case (5 p x st out)
  then show ?case by (cases p) (simp_all add: review_ops_def finite_after)
next
  case (6 p x st out)
  then show ?case
    using cov.left_after [of _ J wide_alnum "(st, out)"] refute.left_after [OF TrueI, of J _ out]
      anchor.left_after [OF TrueI, of J _ "(sink_of x, out)"]
    by (cases p) (auto simp: review_ops_def coverage_step_def anchor_step_def)
qed

lemma review_initial:
  "list_all review_ok (review_policies p)"
  "total_left review_left (review_policies p) = rp_max_coverage_bounces p + 2"
  by (simp_all add: review_policies_def total_left_def finite_gate_def coverage_left_def refute_left_def
      anchor_left_def coverage_gate_new_def refute_gate_new_def sast_anchor_new_def Let_def)

lemma run_review_outcome:
  "fst (run_review H conv p r x) =
     fst (run_loop (review_agent H conv p) (initial_state r x (review_policies p) (cv_messages conv)))"
  by (auto simp: run_review_def split: prod.split sum.split option.split)

text \<open>
  C33. The gates cannot trap a review: under the pass-through runtime (the default; a resumed run under
  the checkpointing one is the concern of the replay theorems), if the model answers every turn with \<open>finish\<close> calls that the
  tool accepts, the run ends Finished whenever its turn limit exceeds the coverage bounces by more than
  two (one bounce each for the refute and the anchor gate), whatever the diff, the findings or the
  scanner's feed are.
\<close>

theorem insisting_review_finishes:
  assumes "insists_on FINISH (review_agent H conv p)"
    and "rp_max_coverage_bounces p + 2 < rp_max_turns p"
  shows "fst (run_review H conv p r x) = Inr Finished"
  unfolding run_review_outcome
  by (rule review.insisting_run_finishes [OF _ assms(1)])
     (use assms(2) review_initial [of p] in
       \<open>simp_all add: review_agent_def initial_state_def review_limits_def\<close>)

definition sample_host :: "(unit, nat) review_host" where
  "sample_host =
     \<lparr>rh_step = passthrough_step,
      rh_model = (\<lambda>_ n. (Inr \<lparr>at_content = None, at_tool_calls =
         [\<lparr>tc_id = ''f'', tc_kind = ''function'',
           tc_function = \<lparr>fc_name = FINISH, fc_arguments = ''x''\<rparr>, tc_extra = None\<rparr>],
         at_telemetry = None\<rparr>, n)),
      rh_registry = [(sample_tool FINISH TerminalK Idempotent)\<lparr>t_call := (\<lambda>c n. (Finish, n + 1))\<rparr>],
      rh_serde = \<lparr>to_text = (\<lambda>_. []), from_text = (\<lambda>_. Some (JObj [(''summary'', JStr ''fine'')]))\<rparr>,
      rh_wide_alnum = (\<lambda>_. False), rh_sink_of = (\<lambda>_. []), rh_debug = id,
      rh_post_summary = (\<lambda>_ n. n), rh_schedule = (\<lambda>_ chunk. chunk)\<rparr>"

definition sample_conversation :: conversation where
  "sample_conversation =
     conversation_new [system_message ''review'', user_message ''diff'']
       \<lparr>ro_model = ''m'', ro_temperature = None, ro_top_p = None, ro_max_tokens = None,
        ro_stream = None, ro_extra = []\<rparr>"

definition sample_params :: review_run_params where
  "sample_params =
     \<lparr>rp_max_turns = 10, rp_max_batch_size = 4, rp_max_batches = 8, rp_max_files_read = 20,
      rp_max_searches = 20, rp_max_coverage_bounces = 2, rp_circuit_breaker_threshold = 3,
      rp_context_window = None, rp_diff_present = True, rp_diff_files = [''src/a.rs'']\<rparr>"

lemma sample_insists: "insists_on FINISH (review_agent sample_host sample_conversation sample_params)"
proof -
  let ?t = "(sample_tool FINISH TerminalK Idempotent)\<lparr>t_call := (\<lambda>c (n :: nat). (Finish, n + 1))\<rparr>"
  have n: "tool_name ?t = FINISH"
    by (simp add: sample_tool_def tool_spec_name_def tool_spec_function_def)
  show ?thesis
    unfolding insists_on_def
    by (intro conjI exI [of _ ?t]) (simp_all add: review_agent_def sample_host_def find_tool_def n)
qed

theorem insisting_review_finishes_witness:
  "fst (run_review sample_host sample_conversation sample_params () 0) = Inr Finished"
  by (rule insisting_review_finishes [OF sample_insists]) (simp add: sample_params_def)

section \<open>Wind-down\<close>

definition narrowed :: "turn_ctx \<Rightarrow> bool" where
  "narrowed c \<longleftrightarrow> blocked_kinds convergence_filter \<subseteq> blocked_kinds (tx_filter c)"

lemma before_action_blocked:
  "blocked_kinds (tx_filter c) \<subseteq> blocked_kinds (tx_filter (before_action J base turn name c a))"
  by (cases a) (auto simp: trim_action_shape tx_narrow_def tx_push_def tx_record_def split: option.split)

lemma before_actions_blocked:
  "blocked_kinds (tx_filter c) \<subseteq> blocked_kinds (tx_filter (foldl (before_action J base turn name) c as))"
proof (induction as arbitrary: c)
  case (Cons a as)
  then show ?case using before_action_blocked by fastforce
qed simp

lemma narrowed_actions: "narrowed c \<Longrightarrow> narrowed (foldl (before_action J base turn name) c as)"
  using before_actions_blocked [of c J base turn name as] by (auto simp: narrowed_def)

lemma before_policies_narrowed:
  "narrowed c \<Longrightarrow> narrowed (snd (before_policies A turn stats ps c))"
  by (induction ps arbitrary: c) (auto simp: Let_def split_def narrowed_actions)

definition winding_down :: "nat \<Rightarrow> review_policy \<Rightarrow> bool" where
  "winding_down turn p \<longleftrightarrow>
     (case p of PolWindDown w \<Rightarrow> \<not> wd_disabled w \<and> winddown_turn (wd_max_turns w) \<le> turn | _ \<Rightarrow> False)"

lemma review_before_converges: "list_all converges_fully (fst (review_before J p st))"
  by (cases p) (auto simp: loop_policies_converge_fully scratchpad_before_def refute_before_def
      converges_fully_def)

lemma wind_down_narrows:
  assumes "winding_down turn p" "converging_ok c"
  shows "narrowed (foldl (before_action J' base turn name) c
           (fst (review_before J p (policy_turn_state A turn (tx_messages c) stats (tx_converging c)))))"
proof (cases "tx_converging c")
  case True
  then show ?thesis using assms(2) by (intro narrowed_actions) (simp add: converging_ok_def narrowed_def)
next
  case False
  from assms(1) obtain w where w: "p = PolWindDown w" "\<not> wd_disabled w"
    "winddown_turn (wd_max_turns w) \<le> turn" by (auto simp: winding_down_def split: review_policy.splits)
  with False show ?thesis
    by (auto simp: wind_down_before_def policy_turn_state_def Let_def narrowed_def tx_narrow_def
        tx_push_def tx_record_def)
qed

lemma before_policies_winds_down:
  assumes "ag_ops A = review_ops J wide_alnum sink_of"
  shows "converging_ok c \<Longrightarrow> list_ex (winding_down turn) ps \<Longrightarrow>
         narrowed (snd (before_policies A turn stats ps c))"
proof (induction ps arbitrary: c)
  case (Cons p ps)
  let ?as = "fst (review_before J p (policy_turn_state A turn (tx_messages c) stats (tx_converging c)))"
  let ?c = "foldl (before_action (ag_serde A) (base_specs A) turn (review_policy_name p)) c ?as"
  have ok: "converging_ok ?c"
    by (rule before_actions_converging_ok [OF Cons.prems(1) review_before_converges])
  have "narrowed (snd (before_policies A turn stats ps ?c))"
  proof (cases "winding_down turn p")
    case True
    show ?thesis by (rule before_policies_narrowed [OF wind_down_narrows [OF True Cons.prems(1)]])
  next
    case False
    then show ?thesis using Cons.IH [OF ok] Cons.prems(2) by simp
  qed
  then show ?case by (simp add: assms review_ops_def Let_def split_def)
qed simp

text \<open>
  From the wind-down turn on, a review offers the model only tools that record or end: on every
  turn at or past the boundary of an enabled wind-down policy, whatever the other policies do, a tool
  of any other kind is offered only if some filter forces it by name (the refute gate's
  re-verification set).
\<close>

theorem winddown_offers_only_closing_tools:
  assumes "ag_ops A = review_ops J wide_alnum sink_of"
    and "list_ex (winding_down turn) (ls_policies s)"
  shows "t_kind t \<in> {WriteK, TerminalK} \<or> forces (tx_filter (fst (begin_turn A turn s))) t
         \<or> \<not> offers (tx_filter (fst (begin_turn A turn s))) t"
proof -
  let ?c0 = "\<lparr>tx_filter = ag_initial_filter A, tx_converging = False, tx_guard_offered = False,
              tx_force_finish = False, tx_messages = ls_messages s, tx_sink = ls_sink s\<rparr>"
  have "narrowed (snd (before_policies A turn (ls_stats s) (ls_policies s) ?c0))"
    by (rule before_policies_winds_down [OF assms(1) _ assms(2)]) (simp add: converging_ok_def)
  then have n: "narrowed (fst (begin_turn A turn s))"
    by (simp add: begin_turn_def Let_def split_def)
  show ?thesis
  proof (cases "t_kind t \<in> {WriteK, TerminalK}")
    case False
    then have "t_kind t \<in> blocked_kinds convergence_filter"
      by (cases "t_kind t") (auto simp: convergence_filter_def filter_defs, metis read_kind.exhaust)
    with n have "\<not> permits (tx_filter (fst (begin_turn A turn s))) t"
      by (auto simp: narrowed_def permits_def)
    then show ?thesis by (auto simp: offers_alt)
  qed simp
qed

theorem winddown_offers_only_closing_tools_witness:
  "\<not> offers (tx_filter (fst (begin_turn (review_agent sample_host sample_conversation sample_params) 8
        (initial_state () (0 :: nat) (review_policies sample_params) [])))) 
     (sample_tool READ_FILE (ReadOnlyK File) ReplayReadOnly :: nat tool)"
proof -
  let ?A = "review_agent sample_host sample_conversation sample_params"
  let ?s = "initial_state () (0 :: nat) (review_policies sample_params) []"
  have o: "ag_ops ?A = review_ops (rh_serde sample_host) (rh_wide_alnum sample_host) (rh_sink_of sample_host)"
    by (simp add: review_agent_def)
  have w: "list_ex (winding_down 8) (ls_policies ?s)" by code_simp
  have "\<not> forces (tx_filter (fst (begin_turn ?A 8 ?s)))
          (sample_tool READ_FILE (ReadOnlyK File) ReplayReadOnly :: nat tool)" by code_simp
  with winddown_offers_only_closing_tools [OF o w,
      of "sample_tool READ_FILE (ReadOnlyK File) ReplayReadOnly :: nat tool"]
  show ?thesis by simp
qed

end
