(* ===== verification/Replay_Journal.thy ===== *)
theory Replay_Journal
  imports Replay Durable_Steps Review_Flow
begin

text \<open>
  Resuming a run over the journal production keeps: the agent's store
  (\<open>agent-clients/src/control_plane/durable_step.rs\<close>) against the \<open>durable_step\<close> table. Every statement of
  an attempt runs at its own time and on the task table as it then is; the journal is usable while the
  database answers and the task stays in its run epoch.
\<close>

section \<open>The store of an attempt\<close>












text \<open>The review's policies decide from the transcript alone when no scanner fills the anchor gate's feed.\<close>

lemma review_is_blind_without_feed:
  assumes "\<And>x. sink_of x = leads"
  shows "world_blind (review_ops J wide_alnum sink_of)"
proof -
  have "review_after J wide_alnum sink_of x p st out = review_after J wide_alnum sink_of y p st out" for x y p st out
    by (cases p) (simp_all add: assms)
  then show ?thesis by (simp add: world_blind_def review_ops_def)
qed


section \<open>A concrete crash\<close>

text \<open>
  A self-delimiting text for JSON values, so that a concrete \<open>serde\<close> reads back every value it prints;
  the parser takes the remaining length as its fuel.
\<close>

fun print_chars :: "string \<Rightarrow> string" where
  "print_chars [] = ''.''"
| "print_chars (c # cs) = CHR '','' # c # print_chars cs"

fun read_chars :: "string \<Rightarrow> (string \<times> string) option" where
  "read_chars [] = None"
| "read_chars [k] = (if k = CHR ''.'' then Some ([], []) else None)"
| "read_chars (k # c # r) =
     (if k = CHR ''.'' then Some ([], c # r) else map_option (\<lambda>(cs, r'). (c # cs, r')) (read_chars r))"

lemma read_print_chars [simp]: "read_chars (print_chars cs @ r) = Some (cs, r)"
  by (induction cs) (cases r, simp_all)














end
