(* ===== verification/Rust_Text.thy ===== *)
theory Rust_Text
  imports Prelude
begin

text \<open>
  The operations of \<open>str\<close> that the parsers and renderers of several components share: splitting at
  the first or last occurrence of a pattern, words between white space, replacing a substring,
  counting characters, and reading a \<open>u32\<close>.
\<close>

section \<open>Splitting once and counting characters\<close>

fun split_once :: "string \<Rightarrow> string \<Rightarrow> (string \<times> string) option" where
  "split_once pat s =
     (if prefix pat s then Some ([], drop (length pat) s)
      else (case s of [] \<Rightarrow> None
            | c # cs \<Rightarrow> map_option (\<lambda>(a, b). (c # a, b)) (split_once pat cs)))"

declare split_once.simps [simp del]

definition rsplit_once :: "string \<Rightarrow> string \<Rightarrow> (string \<times> string) option" where
  "rsplit_once pat s = map_option (\<lambda>(a, b). (rev b, rev a)) (split_once (rev pat) (rev s))"

definition strip_prefix :: "string \<Rightarrow> string \<Rightarrow> string option" where
  "strip_prefix pat s = (if prefix pat s then Some (drop (length pat) s) else None)"

text \<open>A byte that does not continue a character starts one.\<close>

definition starts_char :: "char \<Rightarrow> bool" where
  "starts_char c \<longleftrightarrow> (let n = of_char c :: nat in n < 128 \<or> 192 \<le> n)"

definition count_chars :: "string \<Rightarrow> nat" where
  "count_chars s = length (filter starts_char s)"

fun take_chars :: "nat \<Rightarrow> string \<Rightarrow> string" where
  "take_chars n [] = []"
| "take_chars n (c # cs) =
     (if starts_char c then (if n = 0 then [] else c # take_chars (n - 1) cs)
      else c # take_chars n cs)"

text \<open>\<open>str::parse::<u32>\<close>: an optional plus sign, then at least one digit, and no overflow.\<close>

definition parse_u32 :: "string \<Rightarrow> nat option" where
  "parse_u32 s =
     (let digits = (case s of c # cs \<Rightarrow> if c = CHR ''+'' then cs else s | [] \<Rightarrow> [])
      in if digits \<noteq> [] \<and> list_all is_digit digits \<and> undec digits < 2 ^ 32
         then Some (undec digits) else None)"

section \<open>Words and substrings\<close>

text \<open>\<open>str::split_whitespace\<close>: the non-empty pieces between white space.\<close>

function ws_pieces :: "string \<Rightarrow> string \<Rightarrow> string list" where
  "ws_pieces acc s =
     (case leading_ws whitespace_seqs s of
        Some w \<Rightarrow> (if w = [] then [] else rev acc # ws_pieces [] (drop (length w) s))
      | None \<Rightarrow> (case s of [] \<Rightarrow> [rev acc] | c # cs \<Rightarrow> ws_pieces (c # acc) cs))"
  by pat_completeness auto
termination
proof (relation "measure (\<lambda>(_, s). length s)")
  fix acc s w
  assume "leading_ws whitespace_seqs s = Some w" "w \<noteq> []"
  then have "prefix w s" "0 < length w" by (auto simp: leading_ws_def find_Some_iff)
  then show "(([], drop (length w) s), (acc, s)) \<in> measure (\<lambda>(_, s). length s)"
    using prefix_length_le [of w s] by (simp del: length_greater_0_conv)
qed auto

declare ws_pieces.simps [simp del]

definition split_whitespace :: "string \<Rightarrow> string list" where
  "split_whitespace s = filter (\<lambda>w. w \<noteq> []) (ws_pieces [] s)"

text \<open>\<open>str::find\<close> split into the text before the match and the text after it is \<open>split_once\<close>;
  \<open>str::replace\<close> rewrites the disjoint matches from left to right (the pattern is never empty).\<close>

function replace_str :: "string \<Rightarrow> string \<Rightarrow> string \<Rightarrow> string" where
  "replace_str pat new s =
     (if pat = [] then s
      else if prefix pat s then new @ replace_str pat new (drop (length pat) s)
      else (case s of [] \<Rightarrow> [] | c # cs \<Rightarrow> c # replace_str pat new cs))"
  by pat_completeness auto
termination
  by (relation "measure (\<lambda>(_, _, s). length s)") (auto simp: prefix_def)

declare replace_str.simps [simp del]

lemma replace_str_absent:
  "\<not> sublist pat s \<Longrightarrow> replace_str pat new s = s"
proof (induction pat new s rule: replace_str.induct)
  case (1 pat new s)
  then show ?case
    by (subst replace_str.simps) (auto split: list.splits simp: sublist_Cons_right)
qed

definition eq_ignore_ascii_case :: "string \<Rightarrow> string \<Rightarrow> bool" where
  "eq_ignore_ascii_case a b \<longleftrightarrow> to_ascii_lowercase a = to_ascii_lowercase b"

definition unlines :: "string list \<Rightarrow> string" where
  "unlines ls = concat (map (\<lambda>l. l @ [CHR 0x0A]) ls)"

section \<open>Splitting finds what was joined\<close>

lemma split_once_head: "pat \<noteq> [] \<Longrightarrow> hd pat \<notin> set a \<Longrightarrow> split_once pat (a @ pat @ b) = Some (a, b)"
proof (induction a)
  case Nil
  then show ?case by (subst split_once.simps) simp
next
  case (Cons c a)
  then have "\<not> prefix pat (c # a @ pat @ b)" by (cases pat) auto
  with Cons show ?case by (subst split_once.simps) simp
qed

lemma prefix_avoids: "prefix pat (u @ c # v) \<Longrightarrow> c \<notin> set pat \<Longrightarrow> prefix pat u"
proof (induction u arbitrary: pat)
  case Nil
  then show ?case by (cases pat) auto
next
  case (Cons y u)
  show ?case
  proof (cases pat)
    case (Cons p ps)
    with Cons.prems have "prefix ps (u @ c # v)" "c \<notin> set ps" "p = y" by auto
    then show ?thesis using Cons.IH [of ps] Cons by simp
  qed simp
qed

lemma split_once_guarded:
  assumes "pat \<noteq> []" "c \<notin> set pat" "set x \<inter> set pat = {}"
  shows "\<not> sublist pat a \<Longrightarrow> split_once pat (a @ c # x @ pat @ b) = Some (a @ c # x, b)"
proof (induction a)
  case Nil
  have "hd pat \<notin> set (c # x)" using assms by (cases pat) auto
  from split_once_head [OF assms(1) this, of b] show ?case by simp
next
  case (Cons y a)
  have "\<not> prefix pat (y # a)" using Cons.prems by (metis prefix_imp_sublist)
  then have "\<not> prefix pat ((y # a) @ c # x @ pat @ b)"
    using prefix_avoids [of pat "y # a" c "x @ pat @ b"] assms(2) by blast
  moreover have "\<not> sublist pat a" using Cons.prems by (simp add: sublist_Cons_right)
  ultimately show ?case using Cons.IH by (subst split_once.simps) simp
qed

lemma rsplit_once_last:
  "pat \<noteq> [] \<Longrightarrow> last pat \<notin> set b \<Longrightarrow> rsplit_once pat (a @ pat @ b) = Some (a, b)"
  using split_once_head [of "rev pat" "rev b" "rev a"] by (simp add: rsplit_once_def hd_rev)

lemma strip_prefix_append [simp]: "strip_prefix p (p @ s) = Some s"
  by (simp add: strip_prefix_def)

lemma set_strip_leading: "set (strip_leading seqs s) \<subseteq> set s"
proof (induction seqs s rule: strip_leading.induct)
  case (1 seqs s)
  show ?case
  proof (cases "leading_ws seqs s")
    case None
    then show ?thesis by (subst strip_leading.simps) simp
  next
    case (Some w)
    with 1 have "w \<noteq> [] \<Longrightarrow> set (strip_leading seqs (drop (length w) s)) \<subseteq> set s"
      using set_drop_subset by fastforce
    with Some show ?thesis by (subst strip_leading.simps) simp
  qed
qed

lemma set_trim: "set (trim s) \<subseteq> set s"
  using set_strip_leading [of "map rev whitespace_seqs" "rev (trim_start s)"]
    set_strip_leading [of whitespace_seqs s]
  by (auto simp: trim_def trim_end_def trim_start_def)

lemma set_take_chars: "set (take_chars n s) \<subseteq> set s"
  by (induction n s rule: take_chars.induct) auto

lemma str_lines_no_newline: "l \<in> set (str_lines s) \<Longrightarrow> CHR 0x0A \<notin> set l"
  using split_on_parts [of _ "CHR 0x0A" s]
  by (auto simp: str_lines_def strip_cr_def Let_def split: if_splits dest!: in_set_butlastD)

lemma dec_no_newline: "CHR 0x0A \<notin> set (dec n)"
  by (rule digit_not_in_dec) (simp add: is_digit_def)

lemma split_unlines:
  "list_all (\<lambda>l. CHR 0x0A \<notin> set l) ls \<Longrightarrow> split_on (CHR 0x0A) (unlines ls) = ls @ [[]]"
proof (induction ls)
  case (Cons l ls)
  then show ?case
    by (simp add: unlines_def split_on_append_sep split_on_no_sep)
qed (simp add: unlines_def)

lemma str_lines_unlines:
  "list_all (\<lambda>l. CHR 0x0A \<notin> set l) ls \<Longrightarrow> str_lines (unlines ls) = map strip_cr ls"
  by (simp add: str_lines_def split_unlines)

lemma parse_dec: "n < 2 ^ 32 \<Longrightarrow> parse_u32 (dec n) = Some n"
proof -
  assume n: "n < 2 ^ 32"
  obtain c cs where c: "dec n = c # cs" using dec_nonempty by (cases "dec n") auto
  have "is_digit c" using dec_digits [of n] c by simp
  then have "c \<noteq> CHR ''+''" by (auto simp: is_digit_def)
  then show ?thesis
    using n c dec_digits [of n] undec_dec [of n] by (simp add: parse_u32_def)
qed

lemma split_once_skip:
  "hd pat \<notin> set w \<Longrightarrow> pat \<noteq> [] \<Longrightarrow>
     split_once pat (w @ t) = map_option (\<lambda>(a, b). (w @ a, b)) (split_once pat t)"
proof (induction w)
  case Nil
  show ?case by (cases "split_once pat t") auto
next
  case (Cons c w)
  then have "\<not> prefix pat (c # w @ t)" by (cases pat) auto
  then have "split_once pat ((c # w) @ t) = map_option (\<lambda>(a, b). (c # a, b)) (split_once pat (w @ t))"
    by (subst split_once.simps) simp
  then show ?case using Cons by (cases "split_once pat t") auto
qed

end
