(* ===== verification/Digest.thy ===== *)
theory Digest
  imports Rust_Text
begin

text \<open>
  The text through which scanner findings travel between processes
  (\<open>services/agent-sast/src/lib.rs\<close>, \<open>finding.rs\<close>): \<open>digest\<close> renders them for the model, and
  \<open>parse_digest_leads\<close> recovers the coordinates from the text.
\<close>

section \<open>Findings and leads\<close>

definition truncate_chars :: "string \<Rightarrow> nat \<Rightarrow> string" where
  "truncate_chars s limit =
     (if count_chars s \<le> limit then s
      else take_chars (limit - 1) s @ [CHR 0xE2, CHR 0x80, CHR 0xA6])"

record sast_finding =
  sf_file :: string
  sf_line :: nat
  sf_rule_id :: string
  sf_message :: string
  sf_priority :: string
  sf_help_uri :: "string option"

record digest_lead =
  dl_file :: string
  dl_line :: nat
  dl_rule_id :: string

definition digest_sep :: string where
  "digest_sep = [CHR 0x20, CHR 0xE2, CHR 0x80, CHR 0x94, CHR 0x20]"

definition digest_header_lines :: "string list" where
  "digest_header_lines =
     [''## Deterministic SAST findings (opengrep)'', [],
      ''A static-analysis pass already flagged the lines below, and they **will be posted** to this review independently of you. Do NOT re-report them as your own findings. You MAY investigate a lead further ''
        @ [CHR 0xE2, CHR 0x80, CHR 0x94]
        @ '' confirm exploitability, trace a tainted input, or note if one is a false positive ''
        @ [CHR 0xE2, CHR 0x80, CHR 0x94] @ '' but spend your budget on issues opengrep cannot catch.'', [],
      ''**Before writing ANY confirm/refute verdict about one of these findings** ''
        @ [CHR 0xE2, CHR 0x80, CHR 0x94] @ '' in particular before calling one a false positive ''
        @ [CHR 0xE2, CHR 0x80, CHR 0x94]
        @ '' call `read_file` on the EXACT `file`/line listed below (e.g. `start_line` = `end_line` = that line) and quote what it actually contains in your `evidence`. Reason from that real content, never from memory or a nearby/similar-looking line. A verdict recorded at a different line than the one listed is wrong by construction, even if the code you actually looked at happens to look similar ''
        @ [CHR 0xE2, CHR 0x80, CHR 0x94]
        @ '' go back and read the exact line before you record anything about it.'']"

definition digest_message :: "sast_finding \<Rightarrow> string" where
  "digest_message f =
     truncate_chars (trim (case str_lines (sf_message f) of [] \<Rightarrow> [] | l # _ \<Rightarrow> l)) 140"

definition digest_bullet :: "sast_finding \<Rightarrow> string" where
  "digest_bullet f =
     ''- ['' @ sf_priority f @ ''] '' @ sf_file f @ '':'' @ dec (sf_line f) @ digest_sep
     @ digest_message f @ '' (`'' @ sf_rule_id f @ ''`)''"

definition digest :: "sast_finding list \<Rightarrow> string option" where
  "digest findings =
     (if findings = [] then None
      else Some (unlines digest_header_lines @ unlines (map digest_bullet findings)))"

definition parse_digest_line :: "string \<Rightarrow> digest_lead option" where
  "parse_digest_line l =
     (case strip_prefix ''- ['' (trim_start l) of None \<Rightarrow> None
      | Some after_bracket \<Rightarrow>
     (case split_once ''] '' after_bracket of None \<Rightarrow> None
      | Some (_, rest) \<Rightarrow>
     (case split_once digest_sep rest of None \<Rightarrow> None
      | Some (coord, tail) \<Rightarrow>
     (case rsplit_once '':'' coord of None \<Rightarrow> None
      | Some (fl, line_str) \<Rightarrow>
     (case parse_u32 (trim line_str) of None \<Rightarrow> None
      | Some line_no \<Rightarrow>
          (let rule_id =
             (case rsplit_once ''(`'' tail of None \<Rightarrow> []
              | Some (_, r) \<Rightarrow> (case rsplit_once ''`)'' r of None \<Rightarrow> [] | Some (i, _) \<Rightarrow> trim i))
           in Some \<lparr>dl_file = trim fl, dl_line = line_no, dl_rule_id = rule_id\<rparr>))))))"

definition parse_digest_leads :: "string \<Rightarrow> digest_lead list" where
  "parse_digest_leads text = List.map_filter parse_digest_line (str_lines text)"

text \<open>The inline comment a finding is buffered as.\<close>

definition sast_title :: "sast_finding \<Rightarrow> string" where
  "sast_title f =
     (let summary = (case find (\<lambda>l. l \<noteq> []) (map trim (str_lines (sf_message f))) of
                       None \<Rightarrow> sf_rule_id f | Some l \<Rightarrow> l)
      in [CHR 0xF0, CHR 0x9F, CHR 0x94, CHR 0x8D] @ '' opengrep: '' @ truncate_chars summary 120)"

definition sast_body :: "sast_finding \<Rightarrow> string" where
  "sast_body f =
     trim (sf_message f) @ [CHR 0x0A, CHR 0x0A] @ ''_Detected by opengrep rule `'' @ sf_rule_id f @ ''` ''
     @ [CHR 0xE2, CHR 0x80, CHR 0x94]
     @ '' a deterministic static-analysis match. Verify before acting; suppress a false positive with an `opengrep-ignore` comment._''
     @ (case sf_help_uri f of None \<Rightarrow> []
        | Some uri \<Rightarrow> if is_blank uri then [] else [CHR 0x0A, CHR 0x0A] @ ''[Rule reference]('' @ uri @ '')'')"

section \<open>The round trip\<close>

text \<open>
  A finding the digest can carry: no delimiter of the format inside the fields it delimits. The
  message is arbitrary.
\<close>

definition digestible :: "sast_finding \<Rightarrow> bool" where
  "digestible f \<longleftrightarrow>
     CHR '']'' \<notin> set (sf_priority f) \<and> CHR 0x0A \<notin> set (sf_priority f)
     \<and> CHR 0x0A \<notin> set (sf_file f) \<and> trim (sf_file f) = sf_file f \<and> \<not> str_contains (sf_file f) digest_sep
     \<and> sf_line f < 2 ^ 32
     \<and> CHR 0x0A \<notin> set (sf_rule_id f) \<and> CHR ''`'' \<notin> set (sf_rule_id f) \<and> CHR ''('' \<notin> set (sf_rule_id f)
     \<and> trim (sf_rule_id f) = sf_rule_id f"

definition lead_of :: "sast_finding \<Rightarrow> digest_lead" where
  "lead_of f = \<lparr>dl_file = sf_file f, dl_line = sf_line f, dl_rule_id = sf_rule_id f\<rparr>"

lemma truncate_no_newline: "CHR 0x0A \<notin> set s \<Longrightarrow> CHR 0x0A \<notin> set (truncate_chars s n)"
  using set_take_chars [of "n - 1" s] by (auto simp: truncate_chars_def)

lemma digest_message_no_newline: "CHR 0x0A \<notin> set (digest_message f)"
proof (cases "str_lines (sf_message f)")
  case Nil
  then show ?thesis by (simp add: digest_message_def truncate_chars_def count_chars_def)
next
  case (Cons l ls)
  then have "CHR 0x0A \<notin> set l" using str_lines_no_newline [of l "sf_message f"] by simp
  then have "CHR 0x0A \<notin> set (trim l)" using set_trim by blast
  then show ?thesis using Cons truncate_no_newline by (simp add: digest_message_def)
qed

lemma digest_bullet_no_newline: "digestible f \<Longrightarrow> CHR 0x0A \<notin> set (digest_bullet f)"
  using digest_message_no_newline dec_no_newline
  by (simp add: digest_bullet_def digestible_def digest_sep_def)

lemma dec_trim: "trim (dec n) = dec n"
proof (rule trim_id)
  have "is_digit (hd (dec n))" "is_digit (last (dec n))"
    using dec_digits [of n] by (auto simp: list_all_iff)
  then show "dec n = [] \<or> hd (dec n) \<notin> set ws_first \<and> last (dec n) \<notin> set ws_last"
    by (auto simp: ws_first_def ws_last_def whitespace_seqs_def is_digit_def)
qed

lemma bullet_trim_start: "trim_start (digest_bullet f) = digest_bullet f"
  by (rule trim_start_id) (simp add: digest_bullet_def ws_first_def whitespace_seqs_def)

lemma dec_apart: "set (dec n) \<inter> set digest_sep = {}"
proof -
  have "c \<notin> set (dec n)" if "c \<in> set digest_sep" for c
    using that by (intro digit_not_in_dec) (auto simp: digest_sep_def is_digit_def)
  then show ?thesis by blast
qed

lemma rule_recovered:
  assumes "CHR ''`'' \<notin> set rule" "CHR ''('' \<notin> set rule"
  shows "rsplit_once ''(`'' (m @ '' (`'' @ rule @ ''`)'') = Some (m @ '' '', rule @ ''`)'')"
    and "rsplit_once ''`)'' (rule @ ''`)'') = Some (rule, [])"
proof -
  have "split_once ''`('' ('')`'' @ rev rule @ ''`('' @ '' '' @ rev m) = Some ('')`'' @ rev rule, '' '' @ rev m)"
  proof (cases "rev rule")
    case Nil
    then show ?thesis by (simp add: split_once.simps)
  next
    case (Cons r rs)
    then have r: "r \<noteq> CHR ''(''" "CHR ''`'' \<notin> set (rev rule)" using assms by (auto simp: rev_eq_Cons_iff)
    have "split_once ''`('' (rev rule @ ''`('' @ '' '' @ rev m) = Some (rev rule, '' '' @ rev m)"
      by (rule split_once_head) (use r in auto)
    with r Cons show ?thesis
      by (subst split_once.simps) (simp, subst split_once.simps, simp)
  qed
  then show "rsplit_once ''(`'' (m @ '' (`'' @ rule @ ''`)'') = Some (m @ '' '', rule @ ''`)'')"
    by (simp add: rsplit_once_def)
  show "rsplit_once ''`)'' (rule @ ''`)'') = Some (rule, [])"
    by (simp add: rsplit_once_def split_once.simps)
qed

lemma parse_bullet:
  assumes "digestible f"
  shows "parse_digest_line (digest_bullet f) = Some (lead_of f)"
proof -
  let ?coord = "sf_file f @ '':'' @ dec (sf_line f)"
  let ?tail = "digest_message f @ '' (`'' @ sf_rule_id f @ ''`)''"
  let ?rest = "?coord @ digest_sep @ ?tail"
  have b: "digest_bullet f = ''- ['' @ sf_priority f @ ''] '' @ ?rest"
    by (simp add: digest_bullet_def)
  have s1: "split_once ''] '' (sf_priority f @ ''] '' @ ?rest) = Some (sf_priority f, ?rest)"
    by (rule split_once_head) (use assms in \<open>simp_all add: digestible_def\<close>)
  have "split_once digest_sep (sf_file f @ CHR '':'' # dec (sf_line f) @ digest_sep @ ?tail)
        = Some (sf_file f @ CHR '':'' # dec (sf_line f), ?tail)"
    by (rule split_once_guarded)
       (use assms dec_apart in \<open>auto simp: digestible_def digest_sep_def str_contains_sublist\<close>)
  then have s2: "split_once digest_sep ?rest = Some (?coord, ?tail)" by simp
  have s3: "rsplit_once '':'' ?coord = Some (sf_file f, dec (sf_line f))"
    by (rule rsplit_once_last) (auto intro!: digit_not_in_dec simp: is_digit_def)
  have p1: "strip_prefix ''- ['' (trim_start (digest_bullet f)) = Some (sf_priority f @ ''] '' @ ?rest)"
    unfolding bullet_trim_start unfolding b by (rule strip_prefix_append)
  have d: "CHR ''`'' \<notin> set (sf_rule_id f)" "CHR ''('' \<notin> set (sf_rule_id f)" "sf_line f < 2 ^ 32"
    "trim (sf_file f) = sf_file f" "trim (sf_rule_id f) = sf_rule_id f"
    using assms by (simp_all add: digestible_def)
  show ?thesis
    unfolding parse_digest_line_def p1 option.case s1 prod.case s2 s3 dec_trim parse_dec [OF d(3)]
      rule_recovered(1) [OF d(1,2)] rule_recovered(2) [OF d(1,2)] Let_def d(4,5) lead_of_def
    by (rule refl)
qed

text \<open>
  Whatever the findings' messages say, the coordinates a scan found survive the trip through the
  digest text: parsing the digest of any list of findings whose fields avoid the format's delimiters
  gives back their files, lines and rule ids, in order and with none added; the header contributes
  nothing, and no findings give no digest.
\<close>

theorem digest_round_trip:
  assumes "list_all digestible findings"
  shows "(case digest findings of None \<Rightarrow> [] | Some text \<Rightarrow> parse_digest_leads text) = map lead_of findings"
proof (cases "findings = []")
  case True
  then show ?thesis by (simp add: digest_def)
next
  case False
  have header: "list_all (\<lambda>l. CHR 0x0A \<notin> set l) digest_header_lines
      \<and> List.map_filter parse_digest_line (map strip_cr digest_header_lines) = []" by code_simp
  have no_nl: "list_all (\<lambda>l. CHR 0x0A \<notin> set l) (digest_header_lines @ map digest_bullet findings)"
    using header assms digest_bullet_no_newline by (auto simp: list_all_iff)
  have cr: "strip_cr (digest_bullet f) = digest_bullet f" for f
    by (simp add: digest_bullet_def strip_cr_def)
  have "unlines digest_header_lines @ unlines (map digest_bullet findings)
        = unlines (digest_header_lines @ map digest_bullet findings)"
    by (simp add: unlines_def)
  then have "parse_digest_leads (unlines digest_header_lines @ unlines (map digest_bullet findings))
        = List.map_filter parse_digest_line (map strip_cr (digest_header_lines @ map digest_bullet findings))"
    by (simp add: parse_digest_leads_def str_lines_unlines [OF no_nl])
  also have "\<dots> = List.map_filter parse_digest_line (map strip_cr digest_header_lines)
      @ List.map_filter parse_digest_line (map digest_bullet findings)"
    by (simp add: List.map_filter_def cr comp_def)
  also have "\<dots> = List.map_filter parse_digest_line (map digest_bullet findings)"
    using header by simp
  also have "\<dots> = map lead_of findings"
    using assms by (induction findings) (simp_all add: List.map_filter_simps parse_bullet)
  finally show ?thesis using False by (simp add: digest_def)
qed

theorem digest_round_trip_witness:
  "list_all digestible
     [\<lparr>sf_file = ''src/a b.rs'', sf_line = 216, sf_rule_id = ''generic.secrets.key'',
       sf_message = ''bad (`x`) - [P1] c:3'', sf_priority = ''P1'', sf_help_uri = None\<rparr>]
   \<and> (case digest [\<lparr>sf_file = ''src/a b.rs'', sf_line = 216, sf_rule_id = ''generic.secrets.key'',
       sf_message = ''bad (`x`) - [P1] c:3'', sf_priority = ''P1'', sf_help_uri = None\<rparr>] of
        None \<Rightarrow> [] | Some text \<Rightarrow> parse_digest_leads text)
     = [\<lparr>dl_file = ''src/a b.rs'', dl_line = 216, dl_rule_id = ''generic.secrets.key''\<rparr>]"
proof -
  let ?f = "\<lparr>sf_file = ''src/a b.rs'', sf_line = 216, sf_rule_id = ''generic.secrets.key'',
       sf_message = ''bad (`x`) - [P1] c:3'', sf_priority = ''P1'', sf_help_uri = None\<rparr>"
  have "trim ''src/a b.rs'' = ''src/a b.rs'' \<and> \<not> str_contains ''src/a b.rs'' digest_sep
    \<and> trim ''generic.secrets.key'' = ''generic.secrets.key''" by code_simp
  then have "list_all digestible [?f]" by (simp add: digestible_def)
  from this digest_round_trip [OF this] show ?thesis by (simp add: lead_of_def)
qed

end
