(* ===== verification/Review_Gates.thy ===== *)
theory Review_Gates
  imports Review_Flow Digest
begin

text \<open>
  The same gates driven over the cycles of an external agent
  (\<open>services/review-agent/src/opencode/gates.rs\<close>): each observed cycle is fed to the coverage, refute
  and anchor gates, and a finish is accepted, or rejected with their nudges.
\<close>

definition gate_turn_state :: "nat \<Rightarrow> nat \<Rightarrow> turn_state" where
  "gate_turn_state turn max_turns =
     \<lparr>st_turn = turn, st_max_turns = max_turns, st_messages = [], st_base_tools = [],
      st_stats = stats_default, st_converging = False\<rparr>"

datatype gate_decision =
    Proceed
  | RejectedFinish string
  | Accept "string option"

record review_gates =
  gt_coverage :: coverage_gate
  gt_refute :: refute_gate
  gt_anchor :: sast_anchor_gate
  gt_sast_leads :: "sast_lead list"
  gt_max_turns :: nat
  gt_cycle :: nat

definition review_gates_new :: "string list \<Rightarrow> nat \<Rightarrow> nat \<Rightarrow> review_gates" where
  "review_gates_new diff_files max_coverage_bounces max_turns =
     \<lparr>gt_coverage = coverage_gate_new diff_files max_coverage_bounces max_turns,
      gt_refute = refute_gate_new, gt_anchor = sast_anchor_new, gt_sast_leads = [],
      gt_max_turns = max_turns, gt_cycle = 0\<rparr>"

definition lead_from_digest :: "digest_lead \<Rightarrow> sast_lead" where
  "lead_from_digest l = \<lparr>sl_file = dl_file l, sl_line = dl_line l, sl_rule_id = dl_rule_id l\<rparr>"

definition recovered_leads :: "turn_outcome \<Rightarrow> sast_lead list" where
  "recovered_leads outcome =
     concat (map (\<lambda>r. if call_name (cr_call r) \<noteq> RUN_SAST then []
        else (case cr_outcome r of
                Continue text \<Rightarrow> map lead_from_digest (parse_digest_leads text)
              | _ \<Rightarrow> [])) (to_results outcome))"

definition ingest_sast_leads :: "turn_outcome \<Rightarrow> sast_lead list \<Rightarrow> sast_lead list" where
  "ingest_sast_leads outcome sink = sink @ recovered_leads outcome"

definition reject_nudges :: "policy_action list \<Rightarrow> string list" where
  "reject_nudges as = List.map_filter
     (\<lambda>a. case a of RejectFinish n \<Rightarrow> Some (nudge_text n) | _ \<Rightarrow> None) as"

text \<open>What each gate answers to a cycle; the anchor gate sees the leads of this very cycle.\<close>

definition cycle_coverage ::
  "serde \<Rightarrow> (string \<Rightarrow> bool) \<Rightarrow> review_gates \<Rightarrow> turn_outcome \<Rightarrow> policy_action list \<times> coverage_gate" where
  "cycle_coverage J wide_alnum g outcome =
     coverage_after J wide_alnum (gt_coverage g) (gate_turn_state (gt_cycle g) (gt_max_turns g)) outcome"

definition cycle_refute :: "serde \<Rightarrow> review_gates \<Rightarrow> turn_outcome \<Rightarrow> policy_action list \<times> refute_gate" where
  "cycle_refute J g outcome = refute_after J (gt_refute g) outcome"

definition cycle_anchor ::
  "serde \<Rightarrow> review_gates \<Rightarrow> turn_outcome \<Rightarrow> policy_action list \<times> sast_anchor_gate" where
  "cycle_anchor J g outcome =
     anchor_after J (ingest_sast_leads outcome (gt_sast_leads g)) (gt_anchor g) outcome"

definition observe_cycle ::
  "serde \<Rightarrow> (string \<Rightarrow> bool) \<Rightarrow> review_gates \<Rightarrow> turn_outcome \<Rightarrow> gate_decision \<times> review_gates" where
  "observe_cycle J wide_alnum g outcome =
     (let (coverage_actions, coverage) = cycle_coverage J wide_alnum g outcome;
          (refute_actions, refute) = cycle_refute J g outcome;
          (sast_actions, anchor) = cycle_anchor J g outcome;
          g' = g\<lparr>gt_coverage := coverage, gt_refute := refute, gt_anchor := anchor,
                 gt_sast_leads := ingest_sast_leads outcome (gt_sast_leads g),
                 gt_cycle := gt_cycle g + 1\<rparr>
      in if to_abort_reason outcome \<noteq> None \<or> \<not> to_finish_requested outcome then (Proceed, g')
         else
           (let nudges = reject_nudges (coverage_actions @ refute_actions @ sast_actions)
            in if nudges \<noteq> [] then (RejectedFinish (join_with (nl @ nl) nudges), g')
               else
                 (let (_, coverage') = coverage_flush coverage
                  in (Accept (cg_amended coverage'), g'\<lparr>gt_coverage := coverage'\<rparr>))))"

definition gates_exhausted :: "review_gates \<Rightarrow> string option \<times> review_gates" where
  "gates_exhausted g =
     (let (_, coverage) = coverage_flush (gt_coverage g)
      in (cg_amended coverage, g\<lparr>gt_coverage := coverage\<rparr>))"

section \<open>The gates as one bouncing gate\<close>

definition cycle_actions :: "gate_decision \<Rightarrow> policy_action list" where
  "cycle_actions d = (case d of RejectedFinish text \<Rightarrow> [RejectFinish (Nudge text)] | _ \<Rightarrow> [])"

definition cycle_step ::
  "serde \<Rightarrow> (string \<Rightarrow> bool) \<Rightarrow> review_gates \<Rightarrow> turn_outcome \<Rightarrow> policy_action list \<times> review_gates" where
  "cycle_step J wide_alnum g outcome =
     (let (d, g') = observe_cycle J wide_alnum g outcome in (cycle_actions d, g'))"

definition gates_left :: "review_gates \<Rightarrow> nat" where
  "gates_left g = coverage_left (gt_coverage g) + refute_left (gt_refute g) + anchor_left (gt_anchor g)"

lemma reject_nudges_iff: "reject_nudges as \<noteq> [] \<longleftrightarrow> rejects as"
proof (induction as)
  case (Cons a as)
  then show ?case
    by (cases a) (auto simp: reject_nudges_def List.map_filter_simps)
qed (simp add: reject_nudges_def List.map_filter_simps)

lemma flush_keeps:
  "coverage_left (snd (coverage_flush g)) = coverage_left g"
  "finite_gate (snd (coverage_flush g)) = finite_gate g"
  by (simp_all add: coverage_flush_def disclose_def coverage_left_def finite_gate_def Let_def split_def
      split: option.split)

lemma observe_cycle_shape:
  "gt_refute (snd (observe_cycle J wa g out)) = snd (cycle_refute J g out)"
  "gt_anchor (snd (observe_cycle J wa g out)) = snd (cycle_anchor J g out)"
  "gt_coverage (snd (observe_cycle J wa g out)) = snd (cycle_coverage J wa g out)
   \<or> gt_coverage (snd (observe_cycle J wa g out)) = snd (coverage_flush (snd (cycle_coverage J wa g out)))"
  "(\<exists>text. fst (observe_cycle J wa g out) = RejectedFinish text) \<longleftrightarrow>
     to_abort_reason out = None \<and> to_finish_requested out
     \<and> (rejects (fst (cycle_coverage J wa g out)) \<or> rejects (fst (cycle_refute J g out))
        \<or> rejects (fst (cycle_anchor J g out)))"
  using reject_nudges_iff [of "fst (cycle_coverage J wa g out) @ fst (cycle_refute J g out)
      @ fst (cycle_anchor J g out)"]
  by (simp_all add: observe_cycle_def Let_def split_def)

interpretation gates: bouncing_gate "cycle_step J wide_alnum" gates_left "\<lambda>g. finite_gate (gt_coverage g)"
  for J wide_alnum
proof (unfold_locales, goal_cases)
  case (1 g i)
  then show ?case
    using observe_cycle_shape(3) [of J wide_alnum g i]
    by (auto simp: cycle_step_def cycle_coverage_def split_def Let_def flush_keeps finite_after)
next
  case (2 g i)
  let ?st = "gate_turn_state (gt_cycle g) (gt_max_turns g)"
  let ?leads = "ingest_sast_leads i (gt_sast_leads g)"
  have rej: "rejects (fst (cycle_step J wide_alnum g i)) \<longleftrightarrow>
      (\<exists>text. fst (observe_cycle J wide_alnum g i) = RejectedFinish text)"
    by (auto simp: cycle_step_def cycle_actions_def split_def Let_def split: gate_decision.splits)
  have "coverage_left (gt_coverage (snd (observe_cycle J wide_alnum g i)))
      = coverage_left (snd (cycle_coverage J wide_alnum g i))"
    using observe_cycle_shape(3) [of J wide_alnum g i] flush_keeps(1) by metis
  moreover have "gates_left (snd (cycle_step J wide_alnum g i)) =
      gates_left (snd (observe_cycle J wide_alnum g i))"
    by (simp add: cycle_step_def split_def Let_def)
  ultimately show ?case
    using cov.left_after [OF 2, of J wide_alnum "(?st, i)"] refute.left_after [OF TrueI, of J "gt_refute g" i]
      anchor.left_after [OF TrueI, of J "gt_anchor g" "(?leads, i)"]
      observe_cycle_shape(4) [of J wide_alnum g i]
    unfolding rej
    by (auto simp: gates_left_def coverage_step_def anchor_step_def observe_cycle_shape(1,2)
        cycle_coverage_def cycle_refute_def cycle_anchor_def split: if_splits)
qed

fun decisions :: "serde \<Rightarrow> (string \<Rightarrow> bool) \<Rightarrow> review_gates \<Rightarrow> turn_outcome list \<Rightarrow> gate_decision list" where
  "decisions J wide_alnum g [] = []"
| "decisions J wide_alnum g (out # cycles) =
     (let (d, g') = observe_cycle J wide_alnum g out in d # decisions J wide_alnum g' cycles)"

definition wants_finish :: "turn_outcome \<Rightarrow> bool" where
  "wants_finish out \<longleftrightarrow> to_abort_reason out = None \<and> to_finish_requested out"

definition is_accepted :: "gate_decision \<Rightarrow> bool" where
  "is_accepted d = (case d of Accept _ \<Rightarrow> True | _ \<Rightarrow> False)"

definition is_rejected :: "gate_decision \<Rightarrow> bool" where
  "is_rejected d = (case d of RejectedFinish _ \<Rightarrow> True | _ \<Rightarrow> False)"

lemma observe_cycle_answers:
  "is_accepted (fst (observe_cycle J wa g out)) \<or> is_rejected (fst (observe_cycle J wa g out)) \<longleftrightarrow> wants_finish out"
  "\<not> (is_accepted d \<and> is_rejected d)"
  by (auto simp: observe_cycle_def is_accepted_def is_rejected_def wants_finish_def Let_def split_def
      split: gate_decision.splits)

lemma rejections_are_bounces:
  "length (filter is_rejected (decisions J wa g cycles)) = bounces_in (fst (gate_run (cycle_step J wa) g cycles))"
proof (induction cycles arbitrary: g)
  case (Cons out cycles)
  have "rejects (fst (cycle_step J wa g out)) \<longleftrightarrow> is_rejected (fst (observe_cycle J wa g out))"
    by (auto simp: cycle_step_def cycle_actions_def is_rejected_def split_def Let_def split: gate_decision.splits)
  with Cons show ?case by (simp add: split_def Let_def cycle_step_def)
qed simp

lemma answers_are_requests:
  "list_all2 (\<lambda>d out. (is_accepted d \<or> is_rejected d) = wants_finish out) (decisions J wa g cycles) cycles"
  by (induction cycles arbitrary: g) (simp_all add: split_def Let_def observe_cycle_answers(1))

lemma answer_counts:
  "list_all2 (\<lambda>d out. (is_accepted d \<or> is_rejected d) = wants_finish out) ds cycles \<Longrightarrow>
     length (filter is_accepted ds) + length (filter is_rejected ds) = length (filter wants_finish cycles)"
  by (induction rule: list_all2_induct) (use observe_cycle_answers(2) in auto)

text \<open>
  C39. Driven over an external agent's cycles the gates cannot withhold acceptance for ever. A cycle is
  answered with an acceptance or a rejection exactly when it asks for a finish and no tool aborted; at
  most \<open>max_coverage_bounces + 2\<close> of the answers are rejections over the whole review, whatever the
  agent does; so all but that many finish requests are accepted, and the first acceptance comes at the
  latest with request number \<open>max_coverage_bounces + 3\<close>. (The driver may run out of its own
  \<open>max_cycles\<close> before an agent has asked that often; it is not part of the gates.)
\<close>

theorem gates_reject_boundedly:
  "let ds = decisions J wide_alnum (review_gates_new files max_bounces max_turns) cycles in
     list_all2 (\<lambda>d out. (is_accepted d \<or> is_rejected d) = wants_finish out) ds cycles
     \<and> length (filter is_rejected ds) \<le> max_bounces + 2
     \<and> length (filter wants_finish cycles) \<le> length (filter is_accepted ds) + (max_bounces + 2)"
proof -
  let ?g = "review_gates_new files max_bounces max_turns"
  let ?ds = "decisions J wide_alnum ?g cycles"
  have "finite_gate (gt_coverage ?g)" by (simp add: review_gates_new_def finite_new)
  from gates.bounces_bounded [OF this, of J wide_alnum cycles]
  have "length (filter is_rejected ?ds) \<le> gates_left ?g" by (simp add: rejections_are_bounces)
  also have "gates_left ?g = max_bounces + 2"
    by (simp add: gates_left_def review_gates_new_def coverage_left_def coverage_gate_new_def
        refute_left_def refute_gate_new_def anchor_left_def sast_anchor_new_def Let_def)
  finally show ?thesis
    using answer_counts [OF answers_are_requests, of J wide_alnum ?g cycles] answers_are_requests
    by (auto simp: Let_def)
qed

text \<open>
  The decision on a cycle, over the three gates: it proceeds on an abort or without a finish
  request, rejects exactly when some gate rejects, and otherwise accepts with the coverage disclosure,
  which is present as soon as the finish carried a summary and some changed source file was never
  examined.
\<close>

theorem cycle_decision_is_exact:
  assumes "finite_gate (gt_coverage g)"
  shows "(case fst (observe_cycle J wide_alnum g outcome) of
      Proceed \<Rightarrow> to_abort_reason outcome \<noteq> None \<or> \<not> to_finish_requested outcome
    | RejectedFinish text \<Rightarrow> to_abort_reason outcome = None \<and> to_finish_requested outcome
        \<and> (rejects (fst (cycle_coverage J wide_alnum g outcome)) \<or> rejects (fst (cycle_refute J g outcome))
           \<or> rejects (fst (cycle_anchor J g outcome)))
    | Accept disclosure \<Rightarrow> to_abort_reason outcome = None \<and> to_finish_requested outcome
        \<and> \<not> rejects (fst (cycle_coverage J wide_alnum g outcome))
        \<and> \<not> rejects (fst (cycle_refute J g outcome)) \<and> \<not> rejects (fst (cycle_anchor J g outcome))
        \<and> (case cg_summary (snd (cycle_coverage J wide_alnum g outcome)) of
             None \<Rightarrow> True
           | Some summary \<Rightarrow> uncovered_set (snd (cycle_coverage J wide_alnum g outcome)) = {}
               \<or> (\<exists>note. disclosure = Some (summary @ nl @ nl @ note))))"
proof -
  let ?c = "snd (cycle_coverage J wide_alnum g outcome)"
  have "finite_gate ?c" using assms by (simp add: cycle_coverage_def finite_after)
  then have flush: "case cg_summary ?c of None \<Rightarrow> True
      | Some summary \<Rightarrow> uncovered_set ?c = {} \<or> (\<exists>note. cg_amended (snd (coverage_flush ?c)) = Some (summary @ nl @ nl @ note))"
    using flush_amends [of ?c] by (auto split: option.split)
  show ?thesis
    using flush reject_nudges_iff [of "fst (cycle_coverage J wide_alnum g outcome)
        @ fst (cycle_refute J g outcome) @ fst (cycle_anchor J g outcome)"]
    by (auto simp: observe_cycle_def Let_def split_def)
qed

definition finishes_nothing :: "turn_outcome \<Rightarrow> bool" where
  "finishes_nothing out \<longleftrightarrow> \<not> list_ex (\<lambda>r. cr_outcome r = Finish) (to_results out)"

lemma coverage_result_summary:
  "cr_outcome r \<noteq> Finish \<Longrightarrow> cg_summary (coverage_result J wa g r) = cg_summary g"
  by (simp add: coverage_result_def Let_def)

lemma coverage_update_summary:
  assumes "finishes_nothing out"
  shows "cg_summary (coverage_update J wa g out) = cg_summary g"
proof -
  have "\<not> list_ex (\<lambda>r. cr_outcome r = Finish) rs \<Longrightarrow>
        cg_summary (foldl (coverage_result J wa) g rs) = cg_summary g" for rs
    by (induction rs arbitrary: g) (simp_all add: coverage_result_summary)
  with assms show ?thesis by (simp add: coverage_update_def finishes_nothing_def)
qed

lemma flush_without_summary: "cg_summary g = None \<Longrightarrow> snd (coverage_flush g) = g"
  by (simp add: coverage_flush_def disclose_def)

definition silent :: "review_gates \<Rightarrow> bool" where
  "silent g \<longleftrightarrow> cg_summary (gt_coverage g) = None \<and> cg_amended (gt_coverage g) = None"

lemma silent_cycle:
  assumes "silent g" "finishes_nothing out"
  shows "silent (snd (cycle_step J wa g out))"
proof -
  have "cg_summary (snd (cycle_coverage J wa g out)) = None" "cg_amended (snd (cycle_coverage J wa g out)) = None"
    using assms coverage_update_summary [OF assms(2), of J wa "gt_coverage g"]
    by (simp_all add: cycle_coverage_def silent_def coverage_after_def coverage_update_fixed Let_def)
  with observe_cycle_shape(3) [of J wa g out] show ?thesis
    by (auto simp: silent_def cycle_step_def split_def Let_def flush_without_summary)
qed

lemma silent_run:
  "silent g \<Longrightarrow> list_all finishes_nothing cycles \<Longrightarrow> silent (snd (gate_run (cycle_step J wa) g cycles))"
  by (induction cycles arbitrary: g) (simp_all add: silent_cycle split_def Let_def)

text \<open>
  A review that ends without any finish having reached the gates discloses nothing, however many
  changed files were never opened: the disclosure amends a summary, and without a finish there is
  none. So a truncated run whose agent never called \<open>finish\<close> is not told apart from full coverage here.
\<close>

theorem exhausted_without_finish_is_silent:
  assumes "list_all finishes_nothing cycles"
  shows "fst (gates_exhausted (snd (gate_run (cycle_step J wide_alnum)
           (review_gates_new files max_bounces max_turns) cycles))) = None"
proof -
  have "silent (review_gates_new files max_bounces max_turns)"
    by (simp add: silent_def review_gates_new_def coverage_gate_new_def Let_def)
  from silent_run [OF this assms] show ?thesis
    by (simp add: gates_exhausted_def silent_def split_def Let_def flush_without_summary)
qed

theorem exhausted_without_finish_is_silent_witness:
  "fst (gates_exhausted (snd (gate_run (cycle_step sample_serde (\<lambda>_. False))
      (review_gates_new [''src/a.rs''] 2 10)
      [\<lparr>to_assistant = user_message [], to_results = [sample_finding], to_finish_requested = False,
        to_abort_reason = None\<rparr>]))) = None
   \<and> uncovered_set (gt_coverage (review_gates_new [''src/a.rs''] 2 10)) = {''src/a.rs''}"
proof -
  have l: "list_all finishes_nothing [\<lparr>to_assistant = user_message [], to_results = [sample_finding],
      to_finish_requested = False, to_abort_reason = None\<rparr>]"
    by (simp add: finishes_nothing_def sample_finding_def)
  have "uncovered_set (gt_coverage (review_gates_new [''src/a.rs''] 2 10)) = {''src/a.rs''}" by code_simp
  with exhausted_without_finish_is_silent [OF l] show ?thesis by simp
qed

theorem cycle_decision_is_exact_witness:
  "fst (observe_cycle sample_serde (\<lambda>_. False) (review_gates_new [''src/a.rs''] 2 10)
     \<lparr>to_assistant = user_message [], to_results = [], to_finish_requested = True, to_abort_reason = None\<rparr>)
   \<notin> {Proceed, Accept None}"
proof -
  let ?g = "review_gates_new [''src/a.rs''] 2 10"
  let ?o = "\<lparr>to_assistant = user_message [], to_results = [], to_finish_requested = True, to_abort_reason = None\<rparr>"
  have f: "finite_gate (gt_coverage ?g)" by (simp add: review_gates_new_def finite_new)
  have "rejects (fst (cycle_coverage sample_serde (\<lambda>_. False) ?g ?o))" by code_simp
  with cycle_decision_is_exact [OF f, of ?o sample_serde "\<lambda>_. False"] show ?thesis
    by (auto split: gate_decision.splits)
qed

end
