(* ===== verification/Review_Render.thy ===== *)
theory Review_Render
  imports Rust_Text
begin

text \<open>
  A finding as the control plane receives it, and the texts it posts
  (\<open>services/control-plane/src/review.rs\<close>): level badges, the inline comment body, the review bodies,
  the answer, the failure notice, and the check output; with the filter that strips a model's
  reasoning and control tokens before anything is posted.
\<close>

section \<open>Findings\<close>

record review_finding =
  rf_file :: string
  rf_line :: nat
  rf_start_line :: "nat option"
  rf_priority :: "string option"
  rf_category :: "string option"
  rf_severity :: "string option"
  rf_title :: string
  rf_body :: string
  rf_suggestion :: "string option"
  rf_resources :: "string list"

definition legacy_priority :: "string option \<Rightarrow> string" where
  "legacy_priority severity =
     (case severity of
        None \<Rightarrow> ''P2''
      | Some s0 \<Rightarrow>
          (let s = trim s0
           in if eq_ignore_ascii_case s ''error'' \<or> eq_ignore_ascii_case s ''critical'' then ''P0''
              else if eq_ignore_ascii_case s ''warning'' \<or> eq_ignore_ascii_case s ''warn''
                      \<or> eq_ignore_ascii_case s ''high'' then ''P1''
              else ''P2''))"

definition finding_priority :: "review_finding \<Rightarrow> string" where
  "finding_priority f =
     (case rf_priority f of
        None \<Rightarrow> legacy_priority (rf_severity f)
      | Some p0 \<Rightarrow>
          (let p = trim p0
           in if eq_ignore_ascii_case p ''P0'' then ''P0''
              else if eq_ignore_ascii_case p ''P1'' then ''P1''
              else if eq_ignore_ascii_case p ''P2'' then ''P2''
              else legacy_priority (rf_severity f)))"

definition finding_category :: "review_finding \<Rightarrow> string" where
  "finding_category f =
     (case rf_category f of
        None \<Rightarrow> ''correctness''
      | Some c \<Rightarrow> if trim c = [] then ''correctness'' else trim c)"

definition badge_label :: "string \<Rightarrow> string" where
  "badge_label label =
     (let cleaned = map (\<lambda>c. if is_ascii_alnum c then c else CHR '' '') label;
          token = join_with ''_'' (split_whitespace cleaned)
      in if token = [] then ''finding'' else token)"

definition level_badges :: "review_finding \<Rightarrow> string" where
  "level_badges f =
     (let p = finding_priority f;
          c = badge_label (finding_category f);
          pc = (if p = ''P0'' then ''red'' else if p = ''P1'' then ''orange'' else ''lightgrey'');
          cc = (if eq_ignore_ascii_case (finding_category f) ''security'' then ''red'' else ''blue'')
      in ''!['' @ p @ ''](https://img.shields.io/badge/'' @ p @ ''-'' @ pc @ '') !['' @ c
         @ ''](https://img.shields.io/badge/'' @ c @ ''-'' @ cc @ '')'')"

section \<open>Model artifacts\<close>

lemma split_once_length:
  "split_once pat s = Some (a, b) \<Longrightarrow> length a + length pat + length b = length s"
proof (induction pat s arbitrary: a b rule: split_once.induct)
  case (1 pat s)
  show ?case
  proof (cases "prefix pat s")
    case True
    then show ?thesis using "1.prems" prefix_length_le [OF True] by (subst (asm) split_once.simps) auto
  next
    case False
    then obtain c cs where s: "s = c # cs" using "1.prems" by (cases s) (auto simp: split_once.simps)
    then obtain a' where "split_once pat cs = Some (a', b)" "a = c # a'"
      using "1.prems" False by (subst (asm) split_once.simps) auto
    then show ?thesis using "1.IH" [OF False s] s by simp
  qed
qed

function remove_spans :: "string \<Rightarrow> string \<Rightarrow> string \<Rightarrow> string" where
  "remove_spans op cl rest =
     (if op = [] then rest
      else case split_once op rest of
        None \<Rightarrow> rest
      | Some (visible, after) \<Rightarrow>
          (case split_once cl after of
             None \<Rightarrow> visible
           | Some (_, rest') \<Rightarrow> visible @ remove_spans op cl rest'))"
  by pat_completeness auto

termination
proof (relation "measure (\<lambda>(_, _, s). length s)")
  fix op cl rest visible after hidden rest' :: string and p q
  assume "op \<noteq> []" "split_once op rest = Some p" "(visible, after) = p"
    "split_once cl after = Some q" "(hidden, rest') = q"
  then show "((op, cl, rest'), (op, cl, rest)) \<in> measure (\<lambda>(_, _, s). length s)"
    using split_once_length [of op rest visible after] split_once_length [of cl after hidden rest']
    by (cases op) auto
qed simp

declare remove_spans.simps [simp del]

definition think_open :: string where "think_open = ''<think>''"
definition think_close :: string where "think_close = ''</think>''"
definition pipe_open :: string where "pipe_open = [CHR 0x3C, CHR 0xEF, CHR 0xBD, CHR 0x9C]"
definition pipe_close :: string where "pipe_close = [CHR 0xEF, CHR 0xBD, CHR 0x9C, CHR 0x3E]"

definition drop_orphan_reasoning :: "string \<Rightarrow> string" where
  "drop_orphan_reasoning s =
     (case split_once think_close s of
        Some (before, after) \<Rightarrow> if str_contains before think_open then s else after
      | None \<Rightarrow> s)"

definition strip_model_artifacts :: "string \<Rightarrow> string" where
  "strip_model_artifacts t =
     (let s = remove_spans ''<|'' ''|>''
                (remove_spans pipe_open pipe_close
                  (remove_spans think_open think_close (drop_orphan_reasoning t)))
      in trim (replace_str think_close [] (replace_str think_open [] s)))"

lemma remove_spans_step:
  assumes "CHR ''<'' \<notin> set v" "CHR ''<'' \<notin> set h"
  shows "remove_spans think_open think_close (v @ think_open @ h @ think_close @ s)
       = v @ remove_spans think_open think_close s"
proof -
  have "split_once think_open (v @ think_open @ h @ think_close @ s) = Some (v, h @ think_close @ s)"
    by (rule split_once_head) (use assms in \<open>simp_all add: think_open_def\<close>)
  moreover have "split_once think_close (h @ think_close @ s) = Some (h, s)"
    by (rule split_once_head) (use assms in \<open>simp_all add: think_close_def\<close>)
  ultimately show ?thesis
    by (subst remove_spans.simps) (simp add: think_open_def)
qed

lemma split_once_absent: "hd pat \<notin> set s \<Longrightarrow> pat \<noteq> [] \<Longrightarrow> split_once pat s = None"
proof (induction s)
  case (Cons c s)
  then have "\<not> prefix pat (c # s)" by (cases pat) auto
  then show ?case using Cons by (subst split_once.simps) simp
qed (simp add: split_once.simps)

lemma remove_spans_absent: "hd op \<notin> set s \<Longrightarrow> op \<noteq> [] \<Longrightarrow> remove_spans op cl s = s"
  by (subst remove_spans.simps) (simp add: split_once_absent)

lemma no_close_in_open:
  "CHR ''<'' \<notin> set v \<Longrightarrow> CHR ''<'' \<notin> set u \<Longrightarrow> split_once think_close (v @ think_open @ u) = None"
proof (induction v)
  case Nil
  have "split_once think_close u = None"
    by (rule split_once_absent) (use Nil in \<open>simp_all add: think_close_def\<close>)
  moreover have "split_once think_close (''think>'' @ u) = None"
    by (rule split_once_absent) (use Nil in \<open>simp_all add: think_close_def\<close>)
  ultimately show ?case
    by (simp add: think_open_def split_once.simps [of think_close "CHR ''<'' # s" for s])
      (simp add: think_close_def)
next
  case (Cons c v)
  then show ?case by (subst split_once.simps) (simp add: think_close_def)
qed

lemma remove_spans_dangling:
  assumes "CHR ''<'' \<notin> set v" "CHR ''<'' \<notin> set u"
  shows "remove_spans think_open think_close (v @ think_open @ u) = v"
proof -
  have "split_once think_open (v @ think_open @ u) = Some (v, u)"
    by (rule split_once_head) (use assms in \<open>simp_all add: think_open_def\<close>)
  moreover have "split_once think_close u = None"
    by (rule split_once_absent) (use assms in \<open>simp_all add: think_close_def\<close>)
  ultimately show ?thesis by (subst remove_spans.simps) (simp add: think_open_def)
qed

text \<open>What a model that leaks its reasoning sends: possibly the tail of a block whose opening was
  lost, then visible pieces each followed by a reasoning block, then the rest of the answer, then
  possibly a block that is never closed.\<close>

definition leaked_text ::
  "string option \<Rightarrow> (string \<times> string) list \<Rightarrow> string \<Rightarrow> string option \<Rightarrow> string" where
  "leaked_text orphan blocks answer dangling =
     (case orphan of None \<Rightarrow> [] | Some r \<Rightarrow> r @ think_close)
     @ concat (map (\<lambda>(v, h). v @ think_open @ h @ think_close) blocks)
     @ answer @ (case dangling of None \<Rightarrow> [] | Some r \<Rightarrow> think_open @ r)"

definition bracket_free :: "string \<Rightarrow> bool" where
  "bracket_free s \<longleftrightarrow> CHR ''<'' \<notin> set s"

lemma blocks_removed:
  assumes "list_all (\<lambda>(v, h). bracket_free v \<and> bracket_free h) blocks" "bracket_free answer"
    and "pred_option bracket_free dangling"
  shows "remove_spans think_open think_close (leaked_text None blocks answer dangling)
       = concat (map fst blocks) @ answer"
  using assms
proof (induction blocks)
  case Nil
  show ?case
  proof (cases dangling)
    case None
    then show ?thesis
      using Nil by (simp add: leaked_text_def bracket_free_def remove_spans_absent think_open_def)
  next
    case (Some r)
    then show ?thesis
      using Nil remove_spans_dangling by (simp add: leaked_text_def bracket_free_def)
  qed
next
  case (Cons b blocks)
  obtain v h where b: "b = (v, h)" by (cases b)
  then show ?case
    using Cons remove_spans_step [of v h] by (simp add: leaked_text_def bracket_free_def)
qed

lemma orphan_dropped:
  assumes "list_all (\<lambda>(v, h). bracket_free v \<and> bracket_free h) blocks" "bracket_free answer"
    and "pred_option bracket_free dangling" "pred_option bracket_free orphan"
  shows "drop_orphan_reasoning (leaked_text orphan blocks answer dangling)
       = leaked_text None blocks answer dangling"
proof (cases orphan)
  case (Some r)
  have "split_once think_close (r @ think_close @ leaked_text None blocks answer dangling)
      = Some (r, leaked_text None blocks answer dangling)"
    by (rule split_once_head) (use assms Some in \<open>simp_all add: think_close_def bracket_free_def\<close>)
  moreover have "\<not> str_contains r think_open"
  proof -
    have "CHR ''<'' \<notin> set r" using assms Some by (simp add: bracket_free_def)
    then show ?thesis
      by (auto simp: str_contains_sublist think_open_def sublist_def)
  qed
  ultimately show ?thesis by (simp add: Some drop_orphan_reasoning_def leaked_text_def)
next
  case None
  show ?thesis
  proof (cases blocks)
    case Nil
    have "split_once think_close (leaked_text None [] answer dangling) = None"
      using assms no_close_in_open [of answer] split_once_absent [of think_close answer]
      by (cases dangling) (auto simp: leaked_text_def bracket_free_def think_close_def)
    then show ?thesis by (simp add: None Nil drop_orphan_reasoning_def)
  next
    case (Cons b bs)
    obtain v h where b: "b = (v, h)" by (cases b)
    have vh: "CHR ''<'' \<notin> set v" "CHR ''<'' \<notin> set h" using assms b Cons by (auto simp: bracket_free_def)
    have "sublist think_open a" if "split_once think_close (v @ think_open @ h @ think_close @ s) = Some (a, z)"
      for a z s
    proof -
      have "split_once think_close (''think>'' @ h @ think_close @ s) = Some (''think>'' @ h, s)"
        using split_once_head [of think_close "''think>'' @ h" s] vh by (simp add: think_close_def)
      then have "split_once think_close (think_open @ h @ think_close @ s) = Some (think_open @ h, s)"
        by (simp add: think_open_def split_once.simps [of think_close "CHR ''<'' # s" for s])
          (simp add: think_close_def)
      moreover have "split_once think_close (v @ think_open @ h @ think_close @ s)
          = map_option (\<lambda>(a, b). (v @ a, b)) (split_once think_close (think_open @ h @ think_close @ s))"
        by (rule split_once_skip) (use vh in \<open>simp_all add: think_close_def\<close>)
      ultimately have "a = v @ think_open @ h" using that by simp
      then show ?thesis by (auto simp: sublist_def)
    qed
    then show ?thesis
      by (auto simp: None Cons b drop_orphan_reasoning_def leaked_text_def str_contains_sublist
          split: option.split)
  qed
qed

lemma bracket_free_clean:
  assumes "bracket_free s"
  shows "trim (replace_str think_close [] (replace_str think_open []
           (remove_spans ''<|'' ''|>'' (remove_spans pipe_open pipe_close s)))) = trim s"
proof -
  have "\<not> sublist think_open s" "\<not> sublist think_close s"
    using assms by (auto simp: bracket_free_def sublist_def think_open_def think_close_def)
  then show ?thesis
    using assms by (simp add: remove_spans_absent replace_str_absent pipe_open_def bracket_free_def)
qed

text \<open>
  The filter on well-formed leaks: in a text free of other angle brackets, in which visible pieces and
  closed reasoning blocks alternate, possibly after the tail of a block whose opening was lost and before
  one that is never closed, it leaves the visible pieces alone, trimmed. It is one pass, and it is not
  applied to every text that is posted (titles of findings outside the diff, and suggestions, are not filtered).
\<close>

theorem wellformed_leak_is_stripped:
  assumes "list_all (\<lambda>(v, h). bracket_free v \<and> bracket_free h) blocks" "bracket_free answer"
    and "pred_option bracket_free orphan" "pred_option bracket_free dangling"
  shows "strip_model_artifacts (leaked_text orphan blocks answer dangling)
       = trim (concat (map fst blocks) @ answer)"
proof -
  have "bracket_free (concat (map fst blocks) @ answer)"
    using assms(1,2) by (fastforce simp: bracket_free_def list_all_iff)
  then show ?thesis
    using orphan_dropped [OF assms(1,2,4,3)] blocks_removed [OF assms(1,2,4)] bracket_free_clean
    by (simp add: strip_model_artifacts_def Let_def)
qed

theorem wellformed_leak_is_stripped_witness:
  "strip_model_artifacts ''hm</think>Looks <think>maybe not</think>fine.<think>or'' = ''Looks fine.''"
proof -
  have "trim (''Looks '' @ ''fine.'') = ''Looks fine.''" by code_simp
  then show ?thesis
    using wellformed_leak_is_stripped [of "[(''Looks '', ''maybe not'')]" "''fine.''" "Some ''hm''" "Some ''or''"]
    by (simp add: leaked_text_def bracket_free_def think_open_def think_close_def)
qed

text \<open>The filter is one pass: tokens nested in one another reassemble, so its result can still
  contain a control token.\<close>

lemma nested_tokens_survive:
  "strip_model_artifacts ''<think></think></thi</think>nk>'' = ''</think>''"
  by code_simp

section \<open>Comment and review bodies\<close>

definition robot :: string where "robot = [CHR 0xF0, CHR 0x9F, CHR 0xA4, CHR 0x96]"
definition thumbs_up :: string where "thumbs_up = [CHR 0xF0, CHR 0x9F, CHR 0x91, CHR 0x8D]"
definition thumbs_down :: string where "thumbs_down = [CHR 0xF0, CHR 0x9F, CHR 0x91, CHR 0x8E]"
definition quote_mark :: string where "quote_mark = [CHR 0x27]"

definition FEEDBACK_FOOTER :: string where
  "FEEDBACK_FOOTER = nl @ nl @ ''> Was this useful? React '' @ thumbs_up @ ''/'' @ thumbs_down @ '' to give us feedback''"

definition REVIEW_DISCLOSURE :: string where
  "REVIEW_DISCLOSURE = nl @ nl @ ''---'' @ nl @ ''_'' @ robot @ '' AI-generated review '' @ dash @ '' treat it as untrusted, verify before acting; a human owns the final decision ([AI governance](https://adorsys-gis.github.io/ai-governance/))._''"

definition resource_links :: "review_finding \<Rightarrow> string list" where
  "resource_links f = filter (\<lambda>r. \<not> is_blank r) (rf_resources f)"

definition resources_block :: "review_finding \<Rightarrow> string" where
  "resources_block f =
     (if resource_links f = [] then []
      else nl @ nl @ ''**Resources**'' @ nl @ concat (map (\<lambda>l. ''- '' @ l @ nl) (resource_links f)))"

definition inline_body :: "review_finding \<Rightarrow> string" where
  "inline_body f =
     level_badges f @ nl @ nl @ ''**'' @ strip_model_artifacts (rf_title f) @ ''**'' @ nl @ nl
     @ strip_model_artifacts (rf_body f)
     @ (case rf_suggestion f of None \<Rightarrow> []
        | Some s \<Rightarrow> nl @ nl @ ''```suggestion'' @ nl @ trim_end s @ nl @ ''```'')
     @ resources_block f @ FEEDBACK_FOOTER"

definition render_finding :: "review_finding \<Rightarrow> string" where
  "render_finding f =
     nl @ ''- '' @ level_badges f @ nl @ nl @ ''  **'' @ strip_model_artifacts (rf_title f) @ ''** '' @ dash
     @ '' `'' @ rf_file f @ '':'' @ dec (rf_line f) @ ''`'' @ nl @ nl @ ''  ''
     @ replace_str nl (nl @ ''  '') (strip_model_artifacts (rf_body f))
     @ concat (map (\<lambda>l. nl @ nl @ ''  - '' @ l) (resource_links f))"

definition finding_sections :: "review_finding list \<Rightarrow> review_finding list \<Rightarrow> string" where
  "finding_sections deferred out_of_scope =
     (if deferred = [] then []
      else nl @ nl @ ''### Notes on changed files'' @ nl @ ''_Findings on this PR'' @ quote_mark @ ''s changes that couldn'' @ quote_mark @ ''t be pinned to a diff line._'' @ nl
        @ concat (map render_finding deferred))
     @ (if out_of_scope = [] then []
        else nl @ nl @ ''<details>'' @ nl @ ''<summary>'' @ dec (length out_of_scope)
          @ '' pre-existing observation(s) about code outside this PR'' @ quote_mark @ ''s diff (informational '' @ dash @ '' not findings on this change)</summary>'' @ nl
          @ concat (map (\<lambda>f. nl @ ''- **'' @ rf_title f @ ''** '' @ dash @ '' `'' @ rf_file f @ ''`'')
              out_of_scope)
          @ nl @ ''</details>'')"

definition render_body :: "string \<Rightarrow> review_finding list \<Rightarrow> review_finding list \<Rightarrow> string" where
  "render_body summary deferred out_of_scope =
     ''## Lightbridge review'' @ nl @ nl @ strip_model_artifacts summary
     @ finding_sections deferred out_of_scope @ REVIEW_DISCLOSURE"

definition render_fast_body ::
  "string \<Rightarrow> string option \<Rightarrow> review_finding list \<Rightarrow> review_finding list \<Rightarrow> string" where
  "render_fast_body handle summary deferred out_of_scope =
     ''> '' @ [CHR 0xF0, CHR 0x9F, CHR 0x85, CHR 0xB5] @ '' **Fast automated pass** '' @ dash @ '' SAST + a quick, diff-scoped look (no repo-wide retrieval). For a deeper, repo-aware review, ''
     @ (if trim handle = [] then ''mention me on this PR''
        else ''mention @'' @ trim handle @ '' on this PR'') @ ''.''
     @ (case summary of None \<Rightarrow> []
        | Some s \<Rightarrow> if trim s = [] then [] else nl @ nl @ strip_model_artifacts (trim s))
     @ finding_sections deferred out_of_scope @ REVIEW_DISCLOSURE"

definition render_answer_body :: "string \<Rightarrow> string" where
  "render_answer_body answer =
     ''## Lightbridge answer'' @ nl @ nl @ strip_model_artifacts answer
     @ nl @ nl @ ''---'' @ nl @ ''_'' @ robot @ '' AI-generated answer '' @ dash @ '' treat it as untrusted, verify before acting; a human owns the final decision ([AI governance](https://adorsys-gis.github.io/ai-governance/))._''
     @ FEEDBACK_FOOTER"

definition render_failure_notice :: string where
  "render_failure_notice =
     ''## Lightbridge review'' @ nl @ nl @ [CHR 0xE2, CHR 0x9A, CHR 0xA0] @ [CHR 0xEF, CHR 0xB8, CHR 0x8F] @ '' Something went wrong and I couldn'' @ quote_mark @ ''t finish '' @ dash @ '' nothing was posted.'' @ nl @ nl @ ''Re-mention me on this PR (or push a new commit) to try again.'' @ nl @ nl @ ''---'' @ nl @ ''_'' @ robot @ '' AI-generated notice '' @ dash @ '' treat it as untrusted, verify before acting; a human owns the final decision ([AI governance](https://adorsys-gis.github.io/ai-governance/))._''"

section \<open>Check output\<close>

datatype check_conclusion = CSuccess | CFailure | CNeutral | CCancelled | CTimedOut

record check_facts =
  ck_inline_n :: nat
  ck_deferred_n :: nat
  ck_out_of_scope_n :: nat
  ck_deduped_n :: nat
  ck_verdict :: string

definition facts_total :: "check_facts \<Rightarrow> nat" where
  "facts_total k = ck_inline_n k + ck_deferred_n k + ck_out_of_scope_n k"

definition plural :: "nat \<Rightarrow> string" where
  "plural n = (if n = 1 then [] else ''s'')"

definition check_title :: "check_conclusion \<Rightarrow> nat \<Rightarrow> string" where
  "check_title conclusion n =
     (case conclusion of
        CFailure \<Rightarrow> ''Review did not complete''
      | CTimedOut \<Rightarrow> ''Review timed out''
      | CCancelled \<Rightarrow> ''Review cancelled''
      | _ \<Rightarrow> if n = 0 then ''No findings'' else dec n @ '' finding'' @ plural n)"

definition check_summary :: "check_conclusion \<Rightarrow> check_facts \<Rightarrow> string" where
  "check_summary conclusion k =
     (let n = facts_total k
      in (if 0 < n then
            ''**'' @ dec n @ '' finding'' @ plural n @ ''** '' @ dash @ '' '' @ dec (ck_inline_n k)
            @ '' inline, '' @ dec (ck_deferred_n k) @ '' deferred, '' @ dec (ck_out_of_scope_n k)
            @ '' out of scope.'' @ nl @ nl
          else if conclusion = CSuccess then ''No findings on this diff.'' @ nl @ nl else [])
         @ (if 0 < ck_deduped_n k then
              ''_'' @ dec (ck_deduped_n k) @ '' finding'' @ plural (ck_deduped_n k)
              @ '' already posted on this commit '' @ (if ck_deduped_n k = 1 then ''was'' else ''were'')
              @ '' not repeated (ADR-0065)._'' @ nl @ nl
            else [])
         @ (if conclusion = CFailure
            then ''The run could not complete '' @ dash @ '' the posted note explains what happened.'' @ nl @ nl
            else [])
         @ trim (ck_verdict k))"

definition render_check_output :: "check_conclusion \<Rightarrow> check_facts option \<Rightarrow> string \<times> string" where
  "render_check_output conclusion facts =
     (case facts of
        None \<Rightarrow>
          (case conclusion of
             CFailure \<Rightarrow> (''Review did not complete'',
               ''The review run failed before it could post a review. Re-mention the bot on this PR (or push a new commit) to try again.'')
           | CTimedOut \<Rightarrow> (''Review timed out'',
               ''The review run stopped reporting before it could post a review. Re-mention the bot on this PR (or push a new commit) to try again.'')
           | CCancelled \<Rightarrow> (''Review cancelled'', ''The review run was cancelled.'')
           | _ \<Rightarrow> (''Review complete'', ''No pull-request review was posted for this run.''))
      | Some k \<Rightarrow>
          (let title = check_title conclusion (facts_total k);
               summary = trim_end (check_summary conclusion k)
           in (title, if summary = [] then title else summary)))"

text \<open>A check never reads as broken: its title and its summary always say something.\<close>

lemma check_output_says_something:
  "fst (render_check_output conclusion facts) \<noteq> [] \<and> snd (render_check_output conclusion facts) \<noteq> []"
  by (auto simp: render_check_output_def check_title_def Let_def split: option.split check_conclusion.split)

end
