(* ===== verification/Diff_Lines.thy ===== *)
theory Diff_Lines
  imports Rust_Text
begin

text \<open>
  Which lines of a changed file a review comment may sit on
  (\<open>services/control-plane/src/review.rs\<close>): the line sets read off a unified-diff patch, and the
  nearest added line to a target.

  A line number is a \<open>u32\<close>; it is a natural number here, below \<open>2^32\<close>, and the one addition that
  can leave the range is written with the wrap-around of the release profile.
\<close>

section \<open>Reading a patch\<close>

record diff_lines =
  df_added :: "nat set"
  df_all :: "nat set"

definition no_lines :: diff_lines where
  "no_lines = \<lparr>df_added = {}, df_all = {}\<rparr>"

fun drop_trailing :: "(char \<Rightarrow> bool) \<Rightarrow> string \<Rightarrow> string" where
  "drop_trailing p s = rev (dropWhile p (rev s))"

definition parse_hunk_new_start :: "string \<Rightarrow> nat option" where
  "parse_hunk_new_start l =
     (case strip_prefix ''@@ '' l of None \<Rightarrow> None
      | Some rest \<Rightarrow>
     (case split_on (CHR ''+'') rest of
        _ # after_plus # _ \<Rightarrow>
          parse_u32 (drop_trailing (\<lambda>c. \<not> is_digit c)
            (takeWhile (\<lambda>c. c \<noteq> CHR '','' \<and> c \<noteq> CHR '' '') after_plus))
      | _ \<Rightarrow> None))"

definition next_line :: "nat \<Rightarrow> nat" where
  "next_line n = (n + 1) mod 2 ^ 32"

definition diff_line_step :: "diff_lines \<times> nat \<Rightarrow> string \<Rightarrow> diff_lines \<times> nat" where
  "diff_line_step acc raw =
     (let (d, new_line) = acc
      in case parse_hunk_new_start raw of
           Some start \<Rightarrow> (d, start)
         | None \<Rightarrow>
             (case raw of
                [] \<Rightarrow> (d, new_line)
              | c # _ \<Rightarrow>
                  if c = CHR ''+'' then
                    (d\<lparr>df_added := insert new_line (df_added d), df_all := insert new_line (df_all d)\<rparr>,
                     next_line new_line)
                  else if c = CHR '' '' then
                    (d\<lparr>df_all := insert new_line (df_all d)\<rparr>, next_line new_line)
                  else (d, new_line)))"

definition diff_lines_of :: "string \<Rightarrow> diff_lines" where
  "diff_lines_of patch = fst (foldl diff_line_step (no_lines, 0) (str_lines patch))"

lemma added_in_all_step:
  "df_added (fst acc) \<subseteq> df_all (fst acc) \<Longrightarrow>
     df_added (fst (diff_line_step acc raw)) \<subseteq> df_all (fst (diff_line_step acc raw))"
  by (cases raw) (auto simp: diff_line_step_def Let_def split_def split: option.split)

lemma finite_step:
  "finite (df_all (fst acc)) \<Longrightarrow> finite (df_all (fst (diff_line_step acc raw)))"
  by (cases raw) (auto simp: diff_line_step_def Let_def split_def split: option.split)

lemma added_in_all: "df_added (diff_lines_of patch) \<subseteq> df_all (diff_lines_of patch)"
proof -
  have "df_added (fst (foldl diff_line_step acc ls)) \<subseteq> df_all (fst (foldl diff_line_step acc ls))"
    if "df_added (fst acc) \<subseteq> df_all (fst acc)" for acc ls
    using that by (induction ls arbitrary: acc) (simp_all add: added_in_all_step)
  then show ?thesis by (simp add: diff_lines_of_def no_lines_def)
qed

lemma finite_lines [simp]: "finite (df_all (diff_lines_of patch))"
proof -
  have "finite (df_all (fst (foldl diff_line_step acc ls)))"
    if "finite (df_all (fst acc))" for acc ls
    using that by (induction ls arbitrary: acc) (simp_all add: finite_step)
  then show ?thesis by (simp add: diff_lines_of_def no_lines_def)
qed

lemma finite_added [simp]: "finite (df_added (diff_lines_of patch))"
  using added_in_all finite_lines finite_subset by blast

section \<open>The nearest added line\<close>

definition at_or_before :: "nat set \<Rightarrow> nat \<Rightarrow> nat option" where
  "at_or_before added target =
     (let s = Set.filter (\<lambda>l. l \<le> target) added in if s = {} then None else Some (Max s))"

definition at_or_after :: "nat set \<Rightarrow> nat \<Rightarrow> nat option" where
  "at_or_after added target =
     (let s = Set.filter (\<lambda>l. target \<le> l) added in if s = {} then None else Some (Min s))"

definition nearest_added_line :: "nat \<Rightarrow> nat set \<Rightarrow> nat \<Rightarrow> nat option" where
  "nearest_added_line target added max_delta =
     (case (at_or_before added target, at_or_after added target) of
        (Some b, Some a) \<Rightarrow>
          (let db = target - b; da = a - target
           in if db \<le> da then (if db \<le> max_delta then Some b else None)
              else (if da \<le> max_delta then Some a else None))
      | (Some b, None) \<Rightarrow> (if target - b \<le> max_delta then Some b else None)
      | (None, Some a) \<Rightarrow> (if a - target \<le> max_delta then Some a else None)
      | (None, None) \<Rightarrow> None)"

definition distance :: "nat \<Rightarrow> nat \<Rightarrow> nat" where
  "distance a b = (a - b) + (b - a)"

lemma before_None: "at_or_before added target = None \<Longrightarrow> x \<in> added \<Longrightarrow> target < x"
  by (auto simp: at_or_before_def Let_def not_le [symmetric] split: if_splits)

lemma after_None: "at_or_after added target = None \<Longrightarrow> x \<in> added \<Longrightarrow> x < target"
  by (auto simp: at_or_after_def Let_def not_le [symmetric] split: if_splits)

lemma before_Some:
  assumes "finite added" "at_or_before added target = Some b"
  shows "b \<in> added \<and> b \<le> target \<and> (x \<in> added \<longrightarrow> x \<le> target \<longrightarrow> x \<le> b)"
proof -
  let ?s = "Set.filter (\<lambda>l. l \<le> target) added"
  have s: "?s \<noteq> {}" "b = Max ?s" "finite ?s"
    using assms by (auto simp: at_or_before_def Let_def split: if_splits)
  then have "b \<in> ?s" using Max_in by metis
  moreover have "x \<le> b" if "x \<in> ?s" using s that by simp
  ultimately show ?thesis by auto
qed

lemma after_Some:
  assumes "finite added" "at_or_after added target = Some a"
  shows "a \<in> added \<and> target \<le> a \<and> (x \<in> added \<longrightarrow> target \<le> x \<longrightarrow> a \<le> x)"
proof -
  let ?s = "Set.filter (\<lambda>l. target \<le> l) added"
  have s: "?s \<noteq> {}" "a = Min ?s" "finite ?s"
    using assms by (auto simp: at_or_after_def Let_def split: if_splits)
  then have "a \<in> ?s" using Min_in by metis
  moreover have "a \<le> x" if "x \<in> ?s" using s that by simp
  ultimately show ?thesis by auto
qed

text \<open>The clamp finds an added line at least distance, within the window, the earlier one on a tie;
  it fails only when the window holds none.\<close>

lemma nearest_added_line_Some:
  assumes "finite added" "nearest_added_line target added delta = Some l"
  shows "l \<in> added" "distance l target \<le> delta"
    and "x \<in> added \<Longrightarrow> distance l target < distance x target
           \<or> distance l target = distance x target \<and> l \<le> x"
proof -
  consider (both) bv av where "at_or_before added target = Some bv" "at_or_after added target = Some av"
    | (before) bv where "at_or_before added target = Some bv" "at_or_after added target = None"
    | (after) av where "at_or_before added target = None" "at_or_after added target = Some av"
    using assms(2) by (auto simp: nearest_added_line_def split: option.splits)
  then have "l \<in> added \<and> distance l target \<le> delta \<and>
    (x \<in> added \<longrightarrow> distance l target < distance x target
           \<or> distance l target = distance x target \<and> l \<le> x)"
  proof cases
    case both
    then show ?thesis
      using assms(2) both before_Some [OF assms(1) both(1), of x] after_Some [OF assms(1) both(2), of x]
        linear [of x target]
      by (fastforce simp: nearest_added_line_def distance_def Let_def split: if_splits)
  next
    case before
    then show ?thesis
      using assms(2) before before_Some [OF assms(1) before(1), of x] after_None [OF before(2), of x]
      by (fastforce simp: nearest_added_line_def distance_def split: if_splits)
  next
    case after
    then show ?thesis
      using assms(2) after after_Some [OF assms(1) after(2), of x] before_None [OF after(1), of x]
      by (fastforce simp: nearest_added_line_def distance_def split: if_splits)
  qed
  then show "l \<in> added" "distance l target \<le> delta"
    and "x \<in> added \<Longrightarrow> distance l target < distance x target
           \<or> distance l target = distance x target \<and> l \<le> x"
    by blast+
qed

lemma nearest_added_line_None:
  assumes "finite added" "nearest_added_line target added delta = None" "x \<in> added"
  shows "delta < distance x target"
  using assms(2,3) before_None [of added target x] after_None [of added target x]
    before_Some [OF assms(1), of target _ x] after_Some [OF assms(1), of target _ x] linear [of x target]
  by (fastforce simp: nearest_added_line_def distance_def Let_def split: if_splits option.splits)

section \<open>Reading back a rendered patch\<close>

text \<open>A reference form of a patch: hunks with a start line, whose lines carry their kind; and its
  text, as a platform renders it. The text before the plus sign of a hunk header is arbitrary, and so
  are the lines' contents.\<close>

datatype line_kind = AddedLine | ContextLine | RemovedLine | NoNewlineMark

record hunk =
  hk_before :: string
  hk_start :: nat
  hk_after :: string
  hk_lines :: "(line_kind \<times> string) list"

fun render_line :: "line_kind \<times> string \<Rightarrow> string" where
  "render_line (AddedLine, t) = CHR ''+'' # t"
| "render_line (ContextLine, t) = CHR '' '' # t"
| "render_line (RemovedLine, t) = CHR ''-'' # t"
| "render_line (NoNewlineMark, t) = CHR 0x5C # t"

definition hunk_header :: "hunk \<Rightarrow> string" where
  "hunk_header h = ''@@ '' @ hk_before h @ ''+'' @ dec (hk_start h) @ hk_after h"

definition render_hunk :: "hunk \<Rightarrow> string list" where
  "render_hunk h = hunk_header h # map render_line (hk_lines h)"

definition render_patch :: "hunk list \<Rightarrow> string" where
  "render_patch hs = join_with [ascii_lf] (concat (map render_hunk hs))"

fun numbered :: "nat \<Rightarrow> (line_kind \<times> string) list \<Rightarrow> (nat \<times> line_kind) list" where
  "numbered n [] = []"
| "numbered n ((k, t) # ls) =
     (if k = AddedLine \<or> k = ContextLine then (n, k) # numbered (n + 1) ls else numbered n ls)"

definition new_side :: "hunk list \<Rightarrow> (nat \<times> line_kind) list" where
  "new_side hs = concat (map (\<lambda>h. numbered (hk_start h) (hk_lines h)) hs)"

definition hunk_ok :: "hunk \<Rightarrow> bool" where
  "hunk_ok h \<longleftrightarrow>
     CHR ''+'' \<notin> set (hk_before h) \<and> ascii_lf \<notin> set (hk_before h @ hk_after h)
     \<and> (hk_after h = [] \<or> hd (hk_after h) = CHR '','' \<or> hd (hk_after h) = CHR '' '')
     \<and> hk_start h + length (hk_lines h) < 2 ^ 32
     \<and> list_all (\<lambda>(k, t). ascii_lf \<notin> set t) (hk_lines h)"

lemma split_on_join:
  "list_all (\<lambda>l. c \<notin> set l) ls \<Longrightarrow> ls \<noteq> [] \<Longrightarrow> split_on c (join_with [c] ls) = ls"
  by (induction "[c]" ls rule: join_with.induct) (auto simp: split_on_no_sep split_on_append_sep)

lemma str_lines_join:
  "list_all (\<lambda>l. ascii_lf \<notin> set l \<and> l \<noteq> []) ls \<Longrightarrow> str_lines (join_with [ascii_lf] ls) = map strip_cr ls"
proof (cases "ls = []")
  case False
  assume "list_all (\<lambda>l. ascii_lf \<notin> set l \<and> l \<noteq> []) ls"
  then have "list_all (\<lambda>l. ascii_lf \<notin> set l) ls" "last ls \<noteq> []"
    using False by (auto simp: list_all_iff)
  with split_on_join [OF _ False] show ?thesis by (simp add: str_lines_def)
qed (simp add: str_lines_def)

lemma strip_cr_append: "y \<noteq> [] \<Longrightarrow> strip_cr (x @ y) = x @ strip_cr y"
  by (simp add: strip_cr_def butlast_append)

lemma strip_cr_Cons: "strip_cr (c # t) = (if t = [] \<and> c = CHR 0x0D then [] else c # (if t = [] then [] else strip_cr t))"
  by (simp add: strip_cr_def)

lemma is_digit_carriage: "\<not> is_digit (CHR 0x0D)"
  by (simp add: is_digit_def)

lemma render_line_plain:
  "ascii_lf \<notin> set t \<Longrightarrow> ascii_lf \<notin> set (render_line (k, t)) \<and> render_line (k, t) \<noteq> []"
  by (cases k) auto

lemma dec_takes:
  assumes "after = [] \<or> hd after = CHR '','' \<or> hd after = CHR '' ''"
  shows "takeWhile (\<lambda>c. c \<noteq> CHR '','' \<and> c \<noteq> CHR '' '') (dec n @ after) = dec n"
proof -
  have "\<And>c. c \<in> set (dec n) \<Longrightarrow> c \<noteq> CHR '','' \<and> c \<noteq> CHR '' ''"
    using dec_digits [of n] by (auto simp: list_all_iff is_digit_def)
  then have "takeWhile (\<lambda>c. c \<noteq> CHR '','' \<and> c \<noteq> CHR '' '') (dec n @ after) =
      dec n @ takeWhile (\<lambda>c. c \<noteq> CHR '','' \<and> c \<noteq> CHR '' '') after"
    by (simp add: takeWhile_append2)
  then show ?thesis using assms by (cases after) auto
qed

lemma drop_trailing_dec: "drop_trailing (\<lambda>c. \<not> is_digit c) (dec n) = dec n"
proof -
  have "is_digit (last (dec n))" using dec_digits [of n] by (auto simp: list_all_iff)
  then show ?thesis by (cases "dec n" rule: rev_cases) auto
qed

lemma header_parses:
  assumes "CHR ''+'' \<notin> set before" "after = [] \<or> hd after = CHR '','' \<or> hd after = CHR '' ''" "n < 2 ^ 32"
  shows "parse_hunk_new_start (''@@ '' @ before @ ''+'' @ dec n @ after) = Some n"
proof -
  have plain: "takeWhile (\<lambda>c. c \<noteq> CHR ''+'') (dec n) = dec n" "CHR ''+'' \<notin> set (dec n)"
    using dec_digits [of n] by (auto simp: list_all_iff is_digit_def)
  obtain x xs where x: "split_on (CHR ''+'') (dec n @ after) = x # xs"
    by (cases "split_on (CHR ''+'') (dec n @ after)") auto
  have s: "split_on (CHR ''+'') (before @ CHR ''+'' # dec n @ after) = before # x # xs"
    using assms(1) x by (simp add: split_on_append_sep split_on_no_sep)
  have xn: "x = dec n @ takeWhile (\<lambda>c. c \<noteq> CHR ''+'') after"
  proof -
    have hd_split: "hd (split_on c s) = takeWhile (\<lambda>d. d \<noteq> c) s" for c and s :: string
      by (induction s) (auto split: list.split)
    have "takeWhile (\<lambda>d. d \<noteq> c) (a @ b) = a @ takeWhile (\<lambda>d. d \<noteq> c) b" if "c \<notin> set a" for c and a b :: string
      using that by (induction a) auto
    then show ?thesis
      using hd_split [of "CHR ''+''" "dec n @ after"] x plain(2) by simp
  qed
  have "takeWhile (\<lambda>c. c \<noteq> CHR '','' \<and> c \<noteq> CHR '' '') x = dec n"
    unfolding xn using assms(2) by (intro dec_takes) (cases after; auto)
  then show ?thesis
    using s drop_trailing_dec [of n] parse_dec [OF assms(3)]
    by (simp add: parse_hunk_new_start_def strip_prefix_def)
qed

lemma header_step:
  assumes "hunk_ok h"
  shows "diff_line_step (d, n) (strip_cr (hunk_header h)) = (d, hk_start h)"
proof -
  have "\<exists>after. strip_cr (hunk_header h) = ''@@ '' @ hk_before h @ ''+'' @ dec (hk_start h) @ after
      \<and> (after = [] \<or> hd after = CHR '','' \<or> hd after = CHR '' '')"
  proof (cases "hk_after h")
    case Nil
    have "last (dec (hk_start h)) \<noteq> CHR 0x0D"
      using digit_not_in_dec [of "CHR 0x0D" "hk_start h"] last_in_set [of "dec (hk_start h)"]
      by (metis dec_nonempty is_digit_carriage)
    then have "strip_cr (dec (hk_start h)) = dec (hk_start h)" by (simp add: strip_cr_def)
    then show ?thesis
      using Nil strip_cr_append [of "dec (hk_start h)" "''@@ '' @ hk_before h @ ''+''"]
      by (intro exI [of _ "[]"]) (simp add: hunk_header_def)
  next
    case (Cons c cs)
    then have "c = CHR '','' \<or> c = CHR '' ''" using assms by (auto simp: hunk_ok_def)
    then show ?thesis
      using Cons strip_cr_append [of "hk_after h" "''@@ '' @ hk_before h @ ''+'' @ dec (hk_start h)"]
      by (intro exI [of _ "strip_cr (hk_after h)"]) (auto simp: hunk_header_def strip_cr_Cons)
  qed
  then obtain after where a: "strip_cr (hunk_header h) = ''@@ '' @ hk_before h @ ''+'' @ dec (hk_start h) @ after"
      "after = [] \<or> hd after = CHR '','' \<or> hd after = CHR '' ''" by blast
  have "parse_hunk_new_start (strip_cr (hunk_header h)) = Some (hk_start h)"
    unfolding a(1) using assms a(2) by (intro header_parses) (auto simp: hunk_ok_def)
  then show ?thesis by (simp add: diff_line_step_def)
qed

lemma line_step:
  assumes "n + 1 < 2 ^ 32"
  shows "diff_line_step (d, n) (strip_cr (render_line (k, t))) =
    (case k of
       AddedLine \<Rightarrow> (d\<lparr>df_added := insert n (df_added d), df_all := insert n (df_all d)\<rparr>, n + 1)
     | ContextLine \<Rightarrow> (d\<lparr>df_all := insert n (df_all d)\<rparr>, n + 1)
     | _ \<Rightarrow> (d, n))"
proof -
  have "next_line n = n + 1" using assms by (simp add: next_line_def)
  moreover have "parse_hunk_new_start (c # u) = None" if "c \<noteq> CHR ''@''" for c u
    using that by (simp add: parse_hunk_new_start_def strip_prefix_def)
  ultimately show ?thesis
    by (cases k) (auto simp: strip_cr_Cons diff_line_step_def)
qed

text \<open>Adding a rendered run of numbered lines to the sets.\<close>

definition add_numbered :: "diff_lines \<Rightarrow> (nat \<times> line_kind) list \<Rightarrow> diff_lines" where
  "add_numbered d ns =
     \<lparr>df_added = df_added d \<union> {n. (n, AddedLine) \<in> set ns}, df_all = df_all d \<union> fst ` set ns\<rparr>"

lemma add_numbered_Nil [simp]: "add_numbered d [] = d"
  by (simp add: add_numbered_def)

lemma add_numbered_append [simp]: "add_numbered d (a @ b) = add_numbered (add_numbered d a) b"
  by (auto simp: add_numbered_def)

lemma lines_add:
  "n + length ls < 2 ^ 32 \<Longrightarrow>
     fst (foldl diff_line_step (d, n) (map (strip_cr \<circ> render_line) ls)) = add_numbered d (numbered n ls)"
proof (induction ls arbitrary: d n)
  case (Cons l ls)
  obtain k t where l: "l = (k, t)" by (cases l)
  have n: "n + 1 < 2 ^ 32" "n + 1 + length ls < 2 ^ 32" "n + length ls < 2 ^ 32" using Cons.prems by auto
  show ?case
    using line_step [OF n(1), of d k t] Cons.IH [OF n(2)] Cons.IH [OF n(3)]
    by (cases k) (auto simp: l add_numbered_def)
qed simp

lemma hunks_add:
  "list_all hunk_ok hs \<Longrightarrow>
     fst (foldl diff_line_step (d, n) (map strip_cr (concat (map render_hunk hs)))) =
       add_numbered d (new_side hs)"
proof (induction hs arbitrary: d n)
  case (Cons h hs)
  let ?ls = "map (strip_cr \<circ> render_line) (hk_lines h)"
  obtain d' n' where m: "foldl diff_line_step (d, hk_start h) ?ls = (d', n')"
    by (cases "foldl diff_line_step (d, hk_start h) ?ls")
  have "d' = add_numbered d (numbered (hk_start h) (hk_lines h))"
    using lines_add [of "hk_start h" "hk_lines h" d] m Cons.prems by (simp add: hunk_ok_def)
  then show ?case
    using Cons m header_step [of h d n] by (simp add: render_hunk_def new_side_def)
qed (simp add: new_side_def)

lemma rendered_nonempty: "list_all hunk_ok hs \<Longrightarrow>
   list_all (\<lambda>l. ascii_lf \<notin> set l \<and> l \<noteq> []) (concat (map render_hunk hs))"
proof (induction hs)
  case (Cons h hs)
  have "list_all (\<lambda>l. ascii_lf \<notin> set l \<and> l \<noteq> []) (map render_line ls)"
    if "list_all (\<lambda>(k, t). ascii_lf \<notin> set t) ls" for ls
    using that render_line_plain by (induction ls) auto
  moreover have "ascii_lf \<notin> set (dec n)" for n
    by (rule digit_not_in_dec) (simp add: is_digit_def)
  ultimately show ?case
    using Cons by (simp add: render_hunk_def hunk_header_def hunk_ok_def)
qed simp

lemma rendered_patch_lines:
  assumes "list_all hunk_ok hs"
  shows "diff_lines_of (render_patch hs) = add_numbered no_lines (new_side hs)"
  using hunks_add [OF assms, of no_lines 0] str_lines_join [OF rendered_nonempty [OF assms]]
  by (simp add: diff_lines_of_def render_patch_def)

end
