(* ===== verification/Review_Scope.thy ===== *)
theory Review_Scope
  imports Review_Render Diff_Lines Ordered_Map "HOL-Library.Multiset"
begin

text \<open>
  What the control plane does with the findings a run submits
  (\<open>services/control-plane/src/review.rs\<close>): suppress those already posted
  (\<open>dedup_against_posted\<close>), then place every other one as an inline comment, as a note in the body,
  or as an out-of-scope observation (\<open>validate\<close>).

  The hash maps of occurrence counts are multisets. The Unicode \<open>to_lowercase\<close> of a title is the
  parameter \<open>lower\<close>.
\<close>

section \<open>Suppressing what is already posted\<close>

definition normalize_path :: "string \<Rightarrow> string" where
  "normalize_path path =
     trim_start_matches (trim_start_matches (replace_char (CHR 0x5C) (CHR ''/'') path) ''./'') ''/''"

type_synonym exact_key = "string \<times> nat \<times> string"
type_synonym wide_key = "string \<times> string"

definition dedup_key :: "(string \<Rightarrow> string) \<Rightarrow> string \<Rightarrow> nat \<Rightarrow> string \<Rightarrow> exact_key" where
  "dedup_key lower file line title =
     (normalize_path file, line, lower (join_with '' '' (split_whitespace title)))"

definition pr_dedup_key :: "(string \<Rightarrow> string) \<Rightarrow> string \<Rightarrow> string \<Rightarrow> wide_key" where
  "pr_dedup_key lower file title = (let (f, _, t) = dedup_key lower file 0 title in (f, t))"

record posted_findings =
  pf_same_head :: "exact_key multiset"
  pf_pr_wide :: "wide_key multiset"

definition nothing_posted :: posted_findings where
  "nothing_posted = \<lparr>pf_same_head = {#}, pf_pr_wide = {#}\<rparr>"

definition posted_add ::
  "(string \<Rightarrow> string) \<Rightarrow> string \<Rightarrow> nat \<Rightarrow> string \<Rightarrow> bool \<Rightarrow> bool \<Rightarrow> posted_findings \<Rightarrow> posted_findings" where
  "posted_add lower file line title same_head pr_wide p =
     \<lparr>pf_same_head = (if same_head then add_mset (dedup_key lower file line title) (pf_same_head p)
                      else pf_same_head p),
      pf_pr_wide = (if pr_wide then add_mset (pr_dedup_key lower file title) (pf_pr_wide p)
                    else pf_pr_wide p)\<rparr>"

definition posted_is_empty :: "posted_findings \<Rightarrow> bool" where
  "posted_is_empty p \<longleftrightarrow> pf_same_head p = {#} \<and> pf_pr_wide p = {#}"

abbreviation exact_of :: "(string \<Rightarrow> string) \<Rightarrow> review_finding \<Rightarrow> exact_key" where
  "exact_of lower f \<equiv> dedup_key lower (rf_file f) (rf_line f) (rf_title f)"

abbreviation wide_of :: "(string \<Rightarrow> string) \<Rightarrow> review_finding \<Rightarrow> wide_key" where
  "wide_of lower f \<equiv> pr_dedup_key lower (rf_file f) (rf_title f)"

text \<open>One pass over the findings, consuming the budgets as they match.\<close>

fun dedup_pass ::
  "(string \<Rightarrow> string) \<Rightarrow> posted_findings \<Rightarrow> review_finding list \<Rightarrow> review_finding list \<times> nat" where
  "dedup_pass lower p [] = ([], 0)"
| "dedup_pass lower p (f # fs) =
     (if exact_of lower f \<in># pf_same_head p then
        (let (kept, n) = dedup_pass lower (p\<lparr>pf_same_head := pf_same_head p - {#exact_of lower f#}\<rparr>) fs
         in (kept, n + 1))
      else if wide_of lower f \<in># pf_pr_wide p then
        (let (kept, n) = dedup_pass lower (p\<lparr>pf_pr_wide := pf_pr_wide p - {#wide_of lower f#}\<rparr>) fs
         in (kept, n + 1))
      else (let (kept, n) = dedup_pass lower p fs in (f # kept, n)))"

definition dedup_against_posted ::
  "(string \<Rightarrow> string) \<Rightarrow> review_finding list \<Rightarrow> posted_findings \<Rightarrow> review_finding list \<times> nat" where
  "dedup_against_posted lower findings p =
     (if posted_is_empty p then (findings, 0) else dedup_pass lower p findings)"

lemma dedup_pass_empty [simp]:
  "pf_same_head p = {#} \<Longrightarrow> pf_pr_wide p = {#} \<Longrightarrow> dedup_pass lower p fs = (fs, 0)"
  by (induction fs) simp_all

lemma dedup_is_pass: "dedup_against_posted lower fs p = dedup_pass lower p fs"
  by (simp add: dedup_against_posted_def posted_is_empty_def)

definition occurrences :: "('k \<Rightarrow> bool) \<Rightarrow> 'k list \<Rightarrow> nat" where
  "occurrences P xs = length (filter P xs)"

lemma occurrences_simps [simp]:
  "occurrences P [] = 0" "occurrences P (x # xs) = (if P x then 1 else 0) + occurrences P xs"
  by (simp_all add: occurrences_def)

definition wide_part :: "exact_key \<Rightarrow> wide_key" where
  "wide_part k = (fst k, snd (snd k))"

lemma wide_part_exact [simp]: "wide_part (exact_of lower f) = wide_of lower f"
  by (simp add: wide_part_def pr_dedup_key_def dedup_key_def)

text \<open>The suppression budget of a key: how often it was posted on this commit, at any line, plus
  how often elsewhere on the pull request.\<close>

definition budget :: "posted_findings \<Rightarrow> wide_key \<Rightarrow> nat" where
  "budget p w = count (image_mset wide_part (pf_same_head p)) w + count (pf_pr_wide p) w"

lemma budget_same_head:
  "exact_of lower f \<in># pf_same_head p \<Longrightarrow>
     budget p w = (if wide_of lower f = w then 1 else 0)
       + budget (p\<lparr>pf_same_head := pf_same_head p - {#exact_of lower f#}\<rparr>) w"
  by (auto simp: budget_def dest!: multi_member_split)

lemma budget_pr_wide:
  "wide_of lower f \<in># pf_pr_wide p \<Longrightarrow>
     budget p w = (if wide_of lower f = w then 1 else 0)
       + budget (p\<lparr>pf_pr_wide := pf_pr_wide p - {#wide_of lower f#}\<rparr>) w"
  by (auto simp: budget_def dest!: multi_member_split)

lemma dedup_pass_counts:
  "length (fst (dedup_pass lower p fs)) + snd (dedup_pass lower p fs) = length fs"
  by (induction fs arbitrary: p) (simp_all add: Let_def split_def)

lemma dedup_pass_subseq: "subseq (fst (dedup_pass lower p fs)) fs"
  by (induction fs arbitrary: p) (auto simp: Let_def split_def)

lemma dedup_pass_bound:
  "occurrences (\<lambda>f. wide_of lower f = w) fs
     \<le> occurrences (\<lambda>f. wide_of lower f = w) (fst (dedup_pass lower p fs)) + budget p w"
proof (induction fs arbitrary: p)
  case (Cons f fs)
  consider (same) "exact_of lower f \<in># pf_same_head p"
    | (wide) "exact_of lower f \<notin># pf_same_head p" "wide_of lower f \<in># pf_pr_wide p"
    | (new) "exact_of lower f \<notin># pf_same_head p" "wide_of lower f \<notin># pf_pr_wide p" by blast
  then show ?case
  proof cases
    case same
    then show ?thesis
      using Cons.IH [of "p\<lparr>pf_same_head := pf_same_head p - {#exact_of lower f#}\<rparr>"]
        budget_same_head [OF same, of w]
      by (simp add: Let_def split_def)
  next
    case wide
    then show ?thesis
      using Cons.IH [of "p\<lparr>pf_pr_wide := pf_pr_wide p - {#wide_of lower f#}\<rparr>"]
        budget_pr_wide [OF wide(2), of w]
      by (simp add: Let_def split_def)
  next
    case new
    then show ?thesis using Cons.IH [of p] by (simp add: Let_def split_def)
  qed
qed simp

text \<open>Everything posted on the same commit that a run finds again is suppressed.\<close>

lemma dedup_pass_covered:
  "mset (map (exact_of lower) fs) \<subseteq># pf_same_head p \<Longrightarrow> dedup_pass lower p fs = ([], length fs)"
proof (induction fs arbitrary: p)
  case (Cons f fs)
  have "exact_of lower f \<in># pf_same_head p"
    using Cons.prems by (simp add: insert_subset_eq_iff)
  moreover have "mset (map (exact_of lower) fs) \<subseteq># pf_same_head p - {#exact_of lower f#}"
    using Cons.prems by (simp add: insert_subset_eq_iff)
  ultimately show ?case using Cons.IH by simp
qed simp

text \<open>
  Suppression never hides a new occurrence: of the findings a run submits for one file and title,
  at most as many are dropped as findings with that file and title were posted before; the others are
  kept, in order, and what is counted as dropped is exactly what is missing.
\<close>

theorem new_occurrences_survive:
  "occurrences (\<lambda>f. wide_of lower f = w) findings
     \<le> occurrences (\<lambda>f. wide_of lower f = w) (fst (dedup_against_posted lower findings p)) + budget p w
   \<and> subseq (fst (dedup_against_posted lower findings p)) findings
   \<and> length (fst (dedup_against_posted lower findings p)) + snd (dedup_against_posted lower findings p)
       = length findings"
  by (simp add: dedup_is_pass dedup_pass_bound dedup_pass_subseq dedup_pass_counts)

section \<open>Placing the findings\<close>

type_synonym change_set = "(string, diff_lines) btree"

record inline_comment =
  ic_path :: string
  ic_line :: nat
  ic_start_line :: "nat option"
  ic_body :: string

record validated_review =
  vr_inline :: "inline_comment list"
  vr_deferred :: "review_finding list"
  vr_out_of_scope :: "review_finding list"

definition CLAMP_MAX_DELTA :: nat where "CLAMP_MAX_DELTA = 5"

definition normalized :: "review_finding \<Rightarrow> review_finding" where
  "normalized f = f\<lparr>rf_file := normalize_path (rf_file f)\<rparr>"

definition resolve_anchor :: "diff_lines option \<Rightarrow> nat \<Rightarrow> nat option" where
  "resolve_anchor file_diff line =
     (case file_diff of
        None \<Rightarrow> None
      | Some d \<Rightarrow>
          if line \<in> df_added d then Some line
          else if line \<in> df_all d then nearest_added_line line (df_added d) CLAMP_MAX_DELTA
          else None)"

definition validated_range_start :: "review_finding \<Rightarrow> nat set option \<Rightarrow> nat option" where
  "validated_range_start f file_lines =
     (case rf_start_line f of
        None \<Rightarrow> None
      | Some start \<Rightarrow>
          if start = 0 \<or> rf_line f < start then None
          else (case file_lines of
                  None \<Rightarrow> None
                | Some ls \<Rightarrow>
                    if list_all (\<lambda>l. l \<in> ls) [start..<rf_line f + 1] then Some start else None))"

definition comment_at :: "review_finding \<Rightarrow> nat set option \<Rightarrow> nat \<Rightarrow> inline_comment" where
  "comment_at f file_lines line =
     (if line \<noteq> rf_line f
      then \<lparr>ic_path = rf_file f, ic_line = line, ic_start_line = None,
            ic_body = inline_body (f\<lparr>rf_line := line, rf_start_line := None, rf_suggestion := None\<rparr>)\<rparr>
      else \<lparr>ic_path = rf_file f, ic_line = line,
            ic_start_line = validated_range_start f file_lines, ic_body = inline_body f\<rparr>)"

definition validate_step ::
  "change_set \<Rightarrow> exact_key set \<times> validated_review \<Rightarrow> review_finding \<Rightarrow> exact_key set \<times> validated_review" where
  "validate_step diff acc f0 =
     (let (seen, r) = acc;
          f = normalized f0;
          file_diff = bt_get diff (rf_file f)
      in if diff \<noteq> [] \<and> file_diff = None then
           (let key = (rf_file f, rf_line f, rf_title f)
            in if key \<in> seen then (seen, r)
               else (insert key seen, r\<lparr>vr_out_of_scope := vr_out_of_scope r @ [f]\<rparr>))
         else
           (let anchor = resolve_anchor file_diff (rf_line f);
                key = (rf_file f, case anchor of Some l \<Rightarrow> l | None \<Rightarrow> rf_line f, rf_title f)
            in if key \<in> seen then (seen, r)
               else (insert key seen,
                 case anchor of
                   Some l \<Rightarrow>
                     if 0 < l
                     then r\<lparr>vr_inline := vr_inline r @ [comment_at f (map_option df_all file_diff) l]\<rparr>
                     else r\<lparr>vr_deferred := vr_deferred r @ [f]\<rparr>
                 | None \<Rightarrow> r\<lparr>vr_deferred := vr_deferred r @ [f]\<rparr>)))"

definition empty_review :: validated_review where
  "empty_review = \<lparr>vr_inline = [], vr_deferred = [], vr_out_of_scope = []\<rparr>"

definition validate :: "review_finding list \<Rightarrow> change_set \<Rightarrow> validated_review" where
  "validate findings diff = snd (foldl (validate_step diff) ({}, empty_review) findings)"

section \<open>The placement, finding by finding\<close>

text \<open>The reference form: where one finding goes, and the slot under which it counts as a repetition
  of an earlier one. Only the first finding of a slot is placed.\<close>

definition outside :: "change_set \<Rightarrow> review_finding \<Rightarrow> bool" where
  "outside diff f \<longleftrightarrow> diff \<noteq> [] \<and> bt_get diff (rf_file (normalized f)) = None"

definition anchor_of :: "change_set \<Rightarrow> review_finding \<Rightarrow> nat option" where
  "anchor_of diff f = resolve_anchor (bt_get diff (rf_file (normalized f))) (rf_line f)"

definition inline_of :: "change_set \<Rightarrow> review_finding \<Rightarrow> inline_comment option" where
  "inline_of diff f =
     (case anchor_of diff f of
        Some l \<Rightarrow>
          if 0 < l \<and> \<not> outside diff f
          then Some (comment_at (normalized f) (map_option df_all (bt_get diff (rf_file (normalized f)))) l)
          else None
      | None \<Rightarrow> None)"

definition slot :: "change_set \<Rightarrow> review_finding \<Rightarrow> exact_key" where
  "slot diff f =
     (rf_file (normalized f),
      if outside diff f then rf_line f
      else (case anchor_of diff f of Some l \<Rightarrow> l | None \<Rightarrow> rf_line f),
      rf_title f)"

fun firsts :: "('a \<Rightarrow> 'k) \<Rightarrow> 'k set \<Rightarrow> 'a list \<Rightarrow> 'a list" where
  "firsts key seen [] = []"
| "firsts key seen (x # xs) =
     (if key x \<in> seen then firsts key seen xs else x # firsts key (insert (key x) seen) xs)"

lemma firsts_keys: "key ` set (firsts key seen xs) = key ` set xs - seen"
  by (induction xs arbitrary: seen) auto

lemma firsts_distinct: "distinct (map key (firsts key seen xs))"
proof (induction xs arbitrary: seen)
  case (Cons x xs)
  have "key x \<notin> key ` set (firsts key (insert (key x) seen) xs)" by (simp add: firsts_keys)
  then show ?case using Cons by simp
qed simp

lemma firsts_subseq: "subseq (firsts key seen xs) xs"
  by (induction xs arbitrary: seen) auto

lemma length_firsts: "length (firsts key {} xs) = card (key ` set xs)"
proof -
  have "length (firsts key {} xs) = card (set (map key (firsts key {} xs)))"
    using distinct_card [OF firsts_distinct, of key "{}" xs] by simp
  then show ?thesis by (simp add: firsts_keys)
qed

definition place :: "change_set \<Rightarrow> validated_review \<Rightarrow> review_finding \<Rightarrow> validated_review" where
  "place diff r f =
     (if outside diff f then r\<lparr>vr_out_of_scope := vr_out_of_scope r @ [normalized f]\<rparr>
      else case inline_of diff f of
        Some c \<Rightarrow> r\<lparr>vr_inline := vr_inline r @ [c]\<rparr>
      | None \<Rightarrow> r\<lparr>vr_deferred := vr_deferred r @ [normalized f]\<rparr>)"

lemma normalized_fields [simp]:
  "rf_line (normalized f) = rf_line f" "rf_title (normalized f) = rf_title f"
  by (simp_all add: normalized_def)

lemma validate_step_place:
  "validate_step diff (seen, r) f =
     (if slot diff f \<in> seen then (seen, r) else (insert (slot diff f) seen, place diff r f))"
  by (auto simp: validate_step_def slot_def place_def inline_of_def outside_def anchor_of_def Let_def
      split: option.split)

lemma validate_run:
  "snd (foldl (validate_step diff) (seen, r) fs) = foldl (place diff) r (firsts (slot diff) seen fs)"
  by (induction fs arbitrary: seen r) (simp_all add: validate_step_place)

lemma place_run:
  "foldl (place diff) r fs =
     \<lparr>vr_inline = vr_inline r @ List.map_filter (inline_of diff) (filter (\<lambda>f. \<not> outside diff f) fs),
      vr_deferred = vr_deferred r
        @ map normalized (filter (\<lambda>f. \<not> outside diff f \<and> inline_of diff f = None) fs),
      vr_out_of_scope = vr_out_of_scope r @ map normalized (filter (outside diff) fs)\<rparr>"
  by (induction fs arbitrary: r) (auto simp: place_def map_filter_simps split: option.split)

lemma validate_functional:
  "validate findings diff =
     (let us = firsts (slot diff) {} findings
      in \<lparr>vr_inline = List.map_filter (inline_of diff) (filter (\<lambda>f. \<not> outside diff f) us),
          vr_deferred = map normalized (filter (\<lambda>f. \<not> outside diff f \<and> inline_of diff f = None) us),
          vr_out_of_scope = map normalized (filter (outside diff) us)\<rparr>)"
  by (simp add: validate_def validate_run place_run empty_review_def Let_def)

text \<open>
  No finding is dropped silently: of the findings submitted, the first of each slot (file, line it
  would be anchored at, title) is placed exactly once, as a comment on the diff, as a note in the
  body, or as an out-of-scope observation, each list in submission order; every other finding repeats
  the slot of a placed one.
\<close>

theorem every_finding_is_placed:
  "(let us = firsts (slot diff) {} findings; r = validate findings diff
    in vr_inline r = List.map_filter (inline_of diff) (filter (\<lambda>f. \<not> outside diff f) us)
       \<and> vr_deferred r = map normalized (filter (\<lambda>f. \<not> outside diff f \<and> inline_of diff f = None) us)
       \<and> vr_out_of_scope r = map normalized (filter (outside diff) us)
       \<and> length (vr_inline r) + length (vr_deferred r) + length (vr_out_of_scope r)
           = card (slot diff ` set findings)
       \<and> subseq us findings \<and> slot diff ` set us = slot diff ` set findings)"
proof -
  have "length (List.map_filter g (filter (\<lambda>f. \<not> P f) us))
      + length (filter (\<lambda>f. \<not> P f \<and> g f = None) us) + length (filter P us) = length us"
    for P and g :: "review_finding \<Rightarrow> inline_comment option" and us
    by (induction us) (auto simp: map_filter_simps split: option.split)
  then show ?thesis
    using firsts_subseq [of "slot diff" "{}" findings] firsts_keys [of "slot diff" "{}" findings]
      length_firsts [of "slot diff" findings]
    by (simp add: validate_functional Let_def)
qed

section \<open>The change set of a pull request\<close>

definition add_patch :: "change_set \<Rightarrow> string \<times> string option \<Rightarrow> change_set" where
  "add_patch m file =
     (case snd file of None \<Rightarrow> m | Some patch \<Rightarrow> bt_put (fst file) (diff_lines_of patch) m)"

definition commentable :: "(string \<times> string option) list \<Rightarrow> change_set" where
  "commentable files = foldl add_patch [] files"

definition commentable_lines :: "diff_lines \<Rightarrow> bool" where
  "commentable_lines d \<longleftrightarrow> finite (df_added d)"

definition postable :: "change_set \<Rightarrow> inline_comment \<Rightarrow> bool" where
  "postable diff c =
     (case bt_get diff (ic_path c) of
        None \<Rightarrow> False
      | Some d \<Rightarrow>
          ic_line c \<in> df_added d \<and> 0 < ic_line c
          \<and> (case ic_start_line c of None \<Rightarrow> True
             | Some s \<Rightarrow> 0 < s \<and> s \<le> ic_line c \<and> list_all (\<lambda>l. l \<in> df_all d) [s..<ic_line c + 1]))"

lemma resolve_anchor_added:
  "resolve_anchor (Some d) line = Some l \<Longrightarrow> finite (df_added d) \<Longrightarrow> l \<in> df_added d"
  using nearest_added_line_Some(1) by (auto simp: resolve_anchor_def split: if_splits)

lemma range_start_valid:
  "validated_range_start f (Some ls) = Some s \<Longrightarrow>
     0 < s \<and> s \<le> rf_line f \<and> list_all (\<lambda>l. l \<in> ls) [s..<rf_line f + 1]"
  by (auto simp: validated_range_start_def split: option.splits if_splits)

lemma inline_postable:
  assumes "inline_of diff f = Some c" "\<And>d. bt_get diff (rf_file (normalized f)) = Some d \<Longrightarrow> finite (df_added d)"
  shows "postable diff c"
proof -
  obtain l d where l: "anchor_of diff f = Some l" "0 < l" "bt_get diff (rf_file (normalized f)) = Some d"
      "c = comment_at (normalized f) (Some (df_all d)) l"
    using assms(1) by (auto simp: inline_of_def anchor_of_def resolve_anchor_def split: option.splits if_splits)
  have "l \<in> df_added d"
    using l(1,3) assms(2) [OF l(3)] resolve_anchor_added by (simp add: anchor_of_def)
  then show ?thesis
    using l range_start_valid [of "normalized f" "df_all d"]
    by (auto simp: postable_def comment_at_def split: option.split)
qed

definition lines_finite :: "change_set \<Rightarrow> bool" where
  "lines_finite m \<longleftrightarrow> bt_ok m \<and> (\<forall>p d. bt_get m p = Some d \<longrightarrow> finite (df_added d))"

lemma add_patch_finite: "lines_finite m \<Longrightarrow> lines_finite (add_patch m f)"
  by (cases "snd f") (auto simp: add_patch_def lines_finite_def bt_ok_put bt_get_put split: if_splits)

lemma commentable_finite: "bt_get (commentable files) p = Some d \<Longrightarrow> finite (df_added d)"
proof -
  have "lines_finite (foldl add_patch m files)" if "lines_finite m" for m
    using that by (induction files arbitrary: m) (simp_all add: add_patch_finite)
  moreover have "lines_finite []" by (simp add: lines_finite_def bt_ok_def bt_get_def)
  ultimately have "lines_finite (commentable files)" by (simp add: commentable_def)
  then show "bt_get (commentable files) p = Some d \<Longrightarrow> finite (df_added d)"
    by (simp add: lines_finite_def)
qed

lemma validated_postable:
  "list_all (postable (commentable files)) (vr_inline (validate findings (commentable files)))"
  using inline_postable commentable_finite
  by (fastforce simp: validate_functional Let_def list_all_iff map_filter_def)

text \<open>For a pull request whose patches are rendered hunks, the line sets are those of the hunks.\<close>

abbreviation rendered_files :: "(string \<times> hunk list) list \<Rightarrow> (string \<times> string option) list" where
  "rendered_files files \<equiv> map (\<lambda>(p, hs). (p, Some (render_patch hs))) files"

lemma commentable_rendered:
  assumes "bt_ok m" "distinct (map fst files)" "list_all (\<lambda>(_, hs). list_all hunk_ok hs) files"
  shows "bt_get (foldl add_patch m (rendered_files files)) p =
     (case map_of files p of Some hs \<Rightarrow> Some (add_numbered no_lines (new_side hs)) | None \<Rightarrow> bt_get m p)"
  using assms
proof (induction files arbitrary: m)
  case (Cons f files)
  obtain q hs where f: "f = (q, hs)" by (cases f)
  have q: "map_of files q = None" "add_patch m (q, Some (render_patch hs)) = bt_put q (add_numbered no_lines (new_side hs)) m"
    using Cons.prems f by (auto simp: map_of_eq_None_iff rendered_patch_lines add_patch_def)
  have "bt_get (foldl add_patch (bt_put q (add_numbered no_lines (new_side hs)) m) (rendered_files files)) p =
     (case map_of files p of Some hs \<Rightarrow> Some (add_numbered no_lines (new_side hs))
      | None \<Rightarrow> bt_get (bt_put q (add_numbered no_lines (new_side hs)) m) p)"
    using Cons.IH Cons.prems by (simp add: bt_ok_put)
  then show ?case
    using q Cons.prems by (auto simp: f bt_get_put split: option.split)
qed simp

text \<open>
  C31. Every inline comment sits where the platforms accept one: for a pull request whose patches are
  any well-formed hunks, each comment's line is a line its file's patch adds, and a ranged comment
  starts at or before that line with every line of the range visible in the diff.
\<close>

theorem inline_comments_sit_on_added_lines:
  assumes "distinct (map fst files)" "list_all (\<lambda>(_, hs). list_all hunk_ok hs) files"
  shows "list_all (\<lambda>c. case map_of files (ic_path c) of
      None \<Rightarrow> False
    | Some hs \<Rightarrow>
        (ic_line c, AddedLine) \<in> set (new_side hs) \<and> 0 < ic_line c
        \<and> (case ic_start_line c of None \<Rightarrow> True
           | Some s \<Rightarrow> 0 < s \<and> s \<le> ic_line c \<and> set [s..<ic_line c + 1] \<subseteq> fst ` set (new_side hs)))
    (vr_inline (validate findings (commentable (rendered_files files))))"
proof -
  have g: "bt_get (commentable (rendered_files files)) p =
      map_option (\<lambda>hs. add_numbered no_lines (new_side hs)) (map_of files p)" for p
    using commentable_rendered [of "[]" files p] assms
    by (simp add: commentable_def bt_ok_def bt_get_def split: option.split)
  show ?thesis
    using validated_postable [of "rendered_files files" findings]
    by (fastforce simp: list_all_iff postable_def g add_numbered_def no_lines_def split: option.splits)
qed

definition sample_hunks :: "hunk list" where
  "sample_hunks = [\<lparr>hk_before = ''-1,2 '', hk_start = 10, hk_after = '',3 @@ fn main'',
     hk_lines = [(ContextLine, ''let a = 1;''), (RemovedLine, ''old''), (AddedLine, ''new''), (AddedLine, ''newer'')]\<rparr>]"

definition sample_review_finding :: review_finding where
  "sample_review_finding =
     \<lparr>rf_file = ''./src/a.rs'', rf_line = 12, rf_start_line = Some 11, rf_priority = Some ''p0'',
      rf_category = None, rf_severity = None, rf_title = ''Leak'', rf_body = ''It leaks.'',
      rf_suggestion = None, rf_resources = []\<rparr>"

lemma sample_placed:
  "map (\<lambda>c. (ic_path c, ic_line c, ic_start_line c))
     (vr_inline (validate [sample_review_finding] (commentable (rendered_files [(''src/a.rs'', sample_hunks)]))))
   = [(''src/a.rs'', 12, Some 11)]"
proof -
  let ?d = "commentable (rendered_files [(''src/a.rs'', sample_hunks)])"
  have ok: "list_all hunk_ok sample_hunks" by (simp add: sample_hunks_def hunk_ok_def)
  have d: "?d = [(''src/a.rs'', add_numbered no_lines (new_side sample_hunks))]"
    using rendered_patch_lines [OF ok] by (simp add: commentable_def add_patch_def)
  have f: "rf_file (normalized sample_review_finding) = ''src/a.rs''" by code_simp
  have n: "12 \<in> df_added (add_numbered no_lines (new_side sample_hunks))"
      "list_all (\<lambda>l. l \<in> df_all (add_numbered no_lines (new_side sample_hunks))) [11..<13]"
    by (auto simp: add_numbered_def no_lines_def new_side_def sample_hunks_def upt_rec)
  have i: "inline_of ?d sample_review_finding = Some (comment_at (normalized sample_review_finding)
      (Some (df_all (add_numbered no_lines (new_side sample_hunks)))) 12)"
    using n f d by (simp add: inline_of_def anchor_of_def outside_def resolve_anchor_def bt_get_def)
      (simp add: sample_review_finding_def)
  have "\<not> outside ?d sample_review_finding" using d f by (simp add: outside_def bt_get_def)
  then show ?thesis
    using i f n(2) by (simp add: validate_functional Let_def map_filter_simps comment_at_def
        validated_range_start_def) (simp add: sample_review_finding_def normalized_def)
qed

theorem inline_comments_sit_on_added_lines_witness:
  "list_all (\<lambda>c. case map_of [(''src/a.rs'', sample_hunks)] (ic_path c) of
      None \<Rightarrow> False
    | Some hs \<Rightarrow>
        (ic_line c, AddedLine) \<in> set (new_side hs) \<and> 0 < ic_line c
        \<and> (case ic_start_line c of None \<Rightarrow> True
           | Some s \<Rightarrow> 0 < s \<and> s \<le> ic_line c \<and> set [s..<ic_line c + 1] \<subseteq> fst ` set (new_side hs)))
    (vr_inline (validate [sample_review_finding] (commentable (rendered_files [(''src/a.rs'', sample_hunks)]))))
   \<and> length (vr_inline (validate [sample_review_finding]
       (commentable (rendered_files [(''src/a.rs'', sample_hunks)])))) = 1"
proof (rule conjI)
  have "list_all (\<lambda>(_, hs). list_all hunk_ok hs) [(''src/a.rs'', sample_hunks)]"
    by (simp add: sample_hunks_def hunk_ok_def)
  then show "list_all (\<lambda>c. case map_of [(''src/a.rs'', sample_hunks)] (ic_path c) of
      None \<Rightarrow> False
    | Some hs \<Rightarrow>
        (ic_line c, AddedLine) \<in> set (new_side hs) \<and> 0 < ic_line c
        \<and> (case ic_start_line c of None \<Rightarrow> True
           | Some s \<Rightarrow> 0 < s \<and> s \<le> ic_line c \<and> set [s..<ic_line c + 1] \<subseteq> fst ` set (new_side hs)))
    (vr_inline (validate [sample_review_finding] (commentable (rendered_files [(''src/a.rs'', sample_hunks)]))))"
    by (intro inline_comments_sit_on_added_lines) simp_all
  show "length (vr_inline (validate [sample_review_finding]
       (commentable (rendered_files [(''src/a.rs'', sample_hunks)])))) = 1"
    using arg_cong [OF sample_placed, of length] by simp
qed

end
