(* ===== verification/Keyed_Insert.thy ===== *)
theory Keyed_Insert
  imports Main
begin

text \<open>
  The contract of \<open>INSERT \<dots> ON CONFLICT (key) DO NOTHING\<close>, which several tables rely on for their
  idempotence: the first row of a key stays, every later insert under that key is a no-op. The lemmas
  hold for every table that keeps it.
\<close>

locale keyed_insert =
  fixes put :: "'k \<Rightarrow> 'r \<Rightarrow> 's \<Rightarrow> bool \<times> 's"
    and get :: "'s \<Rightarrow> 'k \<Rightarrow> 'r option"
  assumes put_new: "get s k = None \<Longrightarrow> fst (put k r s) \<and> get (snd (put k r s)) = (get s)(k \<mapsto> r)"
    and put_taken: "get s k = Some r' \<Longrightarrow> \<not> fst (put k r s) \<and> get (snd (put k r s)) = get s"
begin

definition put_all :: "('k \<times> 'r) list \<Rightarrow> 's \<Rightarrow> 's" where
  "put_all rows s = fold (\<lambda>(k, r) s. snd (put k r s)) rows s"

lemma first_wins:
  "get (snd (put k r s)) k' =
     (if k' = k then Some (case get s k of None \<Rightarrow> r | Some r' \<Rightarrow> r') else get s k')"
  using put_new [of s k r] put_taken [of s k _ r] by (cases "get s k") auto

lemma inserted_iff: "fst (put k r s) \<longleftrightarrow> get s k = None"
  using put_new [of s k r] put_taken [of s k _ r] by (cases "get s k") auto

lemma put_again: "\<not> fst (put k r' (snd (put k r s)))" "get (snd (put k r' (snd (put k r s)))) = get (snd (put k r s))"
proof -
  obtain q where "get (snd (put k r s)) k = Some q" by (simp add: first_wins)
  then show "\<not> fst (put k r' (snd (put k r s)))"
    "get (snd (put k r' (snd (put k r s)))) = get (snd (put k r s))"
    using put_taken by blast+
qed

text \<open>After any sequence of inserts a key holds what it held before, else its first row.\<close>

lemma get_put_all:
  "get (put_all rows s) k = (case get s k of Some r \<Rightarrow> Some r | None \<Rightarrow> map_of rows k)"
proof (induction rows arbitrary: s)
  case (Cons p rows)
  obtain k1 r1 where p: "p = (k1, r1)" by (cases p)
  have step: "put_all (p # rows) s = put_all rows (snd (put k1 r1 s))" by (simp add: put_all_def p)
  show ?case unfolding step Cons.IH first_wins by (auto simp: p split: option.split)
qed (simp add: put_all_def split: option.split)

lemma put_all_replay: "get (put_all rows (put_all rows s)) = get (put_all rows s)"
  by (rule ext) (auto simp: get_put_all split: option.split)

end

text \<open>An append-only table of rows with a key column keeps the contract.\<close>

definition row_of :: "('row \<Rightarrow> 'k) \<Rightarrow> 'row list \<Rightarrow> 'k \<Rightarrow> 'row option" where
  "row_of key rows k = find (\<lambda>r. key r = k) rows"

lemma row_of_append:
  "row_of key (rows @ [r]) k = (case row_of key rows k of Some r' \<Rightarrow> Some r' | None \<Rightarrow> if key r = k then Some r else None)"
  by (induction rows) (auto simp: row_of_def)

lemma row_of_None: "row_of key rows k = None \<longleftrightarrow> k \<notin> set (map key rows)"
  by (auto simp: row_of_def find_None_iff)

lemma row_of_Some: "row_of key rows k = Some r \<Longrightarrow> r \<in> set rows \<and> key r = k"
  by (auto simp: row_of_def find_Some_iff)

lemma row_of_in: "distinct (map key rows) \<Longrightarrow> r \<in> set rows \<Longrightarrow> row_of key rows (key r) = Some r"
  by (induction rows) (auto simp: row_of_def image_iff)

end
