(* ===== verification/Outbox.thy ===== *)
theory Outbox
  imports Keyed_Insert Task_Queue Review_Render Codec "HOL-Library.Monad_Syntax"
begin

text \<open>
  The egress outbox (\<open>services/control-plane/src/outbox.rs\<close>, \<open>db/outbox.rs\<close>,
  \<open>queue/outbox_sweeper.rs\<close>): the table of posting intents, the statements on it, and the producers with
  their dedup keys and payloads. Times are in seconds; the table's constraints (unique dedup key, the
  closed set of kinds, the reference to a task) are part of the insert, and the id sequence advances on
  every insert attempt, as it does in the database.
\<close>

section \<open>Platforms\<close>

datatype platform = GitHub | GitLab | Bitbucket

fun platform_text :: "platform \<Rightarrow> string" where
  "platform_text GitHub = ''github''"
| "platform_text GitLab = ''gitlab''"
| "platform_text Bitbucket = ''bitbucket''"

definition platform_parse :: "string \<Rightarrow> platform option" where
  "platform_parse s =
     (let l = to_ascii_lowercase s in
      if l = ''github'' then Some GitHub
      else if l = ''gitlab'' then Some GitLab
      else if l = ''bitbucket'' then Some Bitbucket
      else None)"

section \<open>Rows\<close>

datatype outbox_status = Pending | Posted | DeadLettered

text \<open>What a producer asks for, and the row that carries it.\<close>

record intent =
  in_platform :: platform
  in_task_id :: "string option"
  in_installation_id :: int
  in_owner :: string
  in_repo :: string
  in_kind :: string
  in_payload :: json

record outbox_row =
  ob_id :: nat
  ob_intent :: intent
  ob_dedup_key :: string
  ob_trace_context :: "string option"
  ob_status :: outbox_status
  ob_attempts :: nat
  ob_last_error :: "string option"
  ob_next_attempt_at :: nat
  ob_created_at :: nat
  ob_posted_at :: "nat option"
  ob_platform_ref_id :: "int option"

record outbox_table =
  ob_rows :: "outbox_row list"
  ob_seq :: nat

definition OUTBOX_KINDS :: "string list" where
  "OUTBOX_KINDS = [''review'', ''reply'', ''reaction'', ''label'', ''failure_notice'', ''pr_open'',
                   ''check_run_start'', ''check_run_resolve'']"

definition OUTBOX_MAX_ATTEMPTS :: nat where "OUTBOX_MAX_ATTEMPTS = 6"

section \<open>Statements\<close>

definition new_outbox_row ::
  "nat \<Rightarrow> nat \<Rightarrow> string option \<Rightarrow> intent \<Rightarrow> string \<Rightarrow> outbox_row" where
  "new_outbox_row now n trace i key =
     \<lparr>ob_id = n, ob_intent = i, ob_dedup_key = key, ob_trace_context = trace, ob_status = Pending,
      ob_attempts = 0, ob_last_error = None, ob_next_attempt_at = now, ob_created_at = now,
      ob_posted_at = None, ob_platform_ref_id = None\<rparr>"

definition outbox_insert ::
  "nat \<Rightarrow> string option \<Rightarrow> string \<Rightarrow> intent \<Rightarrow> outbox_table \<Rightarrow> bool \<times> outbox_table" where
  "outbox_insert now trace key i ob =
     (let n = Suc (ob_seq ob); ob1 = ob\<lparr>ob_seq := n\<rparr> in
      case row_of ob_dedup_key (ob_rows ob) key of
        Some _ \<Rightarrow> (False, ob1)
      | None \<Rightarrow> (True, ob1\<lparr>ob_rows := ob_rows ob @ [new_outbox_row now n trace i key]\<rparr>))"

definition task_trace :: "tasks \<Rightarrow> string option \<Rightarrow> string option" where
  "task_trace ts tid =
     Option.bind tid (\<lambda>i. Option.bind (get_row ts i) (\<lambda>t. nt_trace_context (tk_task t)))"

definition references_task :: "tasks \<Rightarrow> intent \<Rightarrow> bool" where
  "references_task ts i = (case in_task_id i of None \<Rightarrow> True | Some t \<Rightarrow> id_taken ts t)"

definition enqueue_outbox_post ::
  "nat \<Rightarrow> tasks \<Rightarrow> intent \<Rightarrow> string \<Rightarrow> outbox_table \<Rightarrow> (sql_error, bool) result \<times> outbox_table" where
  "enqueue_outbox_post now ts i key ob =
     (if in_kind i \<notin> set OUTBOX_KINDS then (Inl CheckViolation, ob\<lparr>ob_seq := Suc (ob_seq ob)\<rparr>)
      else case outbox_insert now (task_trace ts (in_task_id i)) key i ob of
             (False, ob') \<Rightarrow> (Inr False, ob')
           | (True, ob') \<Rightarrow> if references_task ts i then (Inr True, ob')
                            else (Inl ForeignKeyViolation, ob\<lparr>ob_seq := Suc (ob_seq ob)\<rparr>))"

definition ob_due :: "nat \<Rightarrow> outbox_row \<Rightarrow> bool" where
  "ob_due now r \<longleftrightarrow> ob_status r = Pending \<and> ob_next_attempt_at r \<le> now"

definition claim_outbox_batch :: "nat \<Rightarrow> nat \<Rightarrow> outbox_table \<Rightarrow> outbox_row list" where
  "claim_outbox_batch now limit ob =
     take limit (sort_key (\<lambda>r. (ob_created_at r, ob_id r)) (filter (ob_due now) (ob_rows ob)))"

definition posted_row :: "nat \<Rightarrow> int option \<Rightarrow> outbox_row \<Rightarrow> outbox_row" where
  "posted_row now ref r = r\<lparr>ob_status := Posted, ob_posted_at := Some now, ob_platform_ref_id := ref\<rparr>"

definition failed_row :: "nat \<Rightarrow> string \<Rightarrow> outbox_row \<Rightarrow> outbox_row" where
  "failed_row now error r =
     (let n = ob_attempts r + 1 in
      r\<lparr>ob_attempts := n, ob_last_error := Some error,
        ob_status := (if n \<ge> OUTBOX_MAX_ATTEMPTS then DeadLettered else Pending),
        ob_next_attempt_at := now + 60 * (n * n)\<rparr>)"

definition mark_outbox_posted :: "nat \<Rightarrow> nat \<Rightarrow> int option \<Rightarrow> outbox_table \<Rightarrow> outbox_table" where
  "mark_outbox_posted now n ref ob =
     ob\<lparr>ob_rows := update_where (\<lambda>r. ob_id r = n) (posted_row now ref) (ob_rows ob)\<rparr>"

definition mark_outbox_failed :: "nat \<Rightarrow> nat \<Rightarrow> string \<Rightarrow> outbox_table \<Rightarrow> outbox_table" where
  "mark_outbox_failed now n error ob =
     ob\<lparr>ob_rows := update_where (\<lambda>r. ob_id r = n) (failed_row now error) (ob_rows ob)\<rparr>"

text \<open>The two deletes of the retention sweep. A day count that does not fit the statement's 32-bit
  cast is an error of the statement and is not modelled; a time before the epoch never compares.\<close>

definition older_than :: "nat \<Rightarrow> int \<Rightarrow> nat \<Rightarrow> bool" where
  "older_than now days at_time \<longleftrightarrow> int at_time < int now - 86400 * days"

definition posted_expired :: "nat \<Rightarrow> int \<Rightarrow> outbox_row \<Rightarrow> bool" where
  "posted_expired now days r \<longleftrightarrow>
     ob_status r = Posted \<and> (case ob_posted_at r of None \<Rightarrow> False | Some p \<Rightarrow> older_than now days p)"

definition failed_expired :: "nat \<Rightarrow> int \<Rightarrow> outbox_row \<Rightarrow> bool" where
  "failed_expired now days r \<longleftrightarrow> ob_status r = DeadLettered \<and> older_than now days (ob_created_at r)"

definition delete_where :: "(outbox_row \<Rightarrow> bool) \<Rightarrow> outbox_table \<Rightarrow> nat \<times> outbox_table" where
  "delete_where P ob = (length (filter P (ob_rows ob)), ob\<lparr>ob_rows := filter (\<lambda>r. \<not> P r) (ob_rows ob)\<rparr>)"

definition prune_outbox :: "nat \<Rightarrow> int \<Rightarrow> int \<Rightarrow> outbox_table \<Rightarrow> (nat \<times> nat) \<times> outbox_table" where
  "prune_outbox now posted_days failed_days ob =
     (let (n, ob1) = (if posted_days > 0 then delete_where (posted_expired now posted_days) ob else (0, ob));
          (m, ob2) = (if failed_days > 0 then delete_where (failed_expired now failed_days) ob1 else (0, ob1))
      in ((n, m), ob2))"


section \<open>Producers\<close>

record target =
  tg_task_id :: "string option"
  tg_platform :: platform
  tg_installation_id :: int
  tg_owner :: string
  tg_repo :: string

definition key_prefix :: "target \<Rightarrow> int \<Rightarrow> string" where
  "key_prefix t issue =
     (case tg_task_id t of
        Some i \<Rightarrow> i
      | None \<Rightarrow> tg_owner t @ ''/'' @ tg_repo t @ ''#'' @ dec_int issue)"

definition target_intent :: "target \<Rightarrow> string \<Rightarrow> json \<Rightarrow> intent" where
  "target_intent t kind payload =
     \<lparr>in_platform = tg_platform t, in_task_id = tg_task_id t, in_installation_id = tg_installation_id t,
      in_owner = tg_owner t, in_repo = tg_repo t, in_kind = kind, in_payload = payload\<rparr>"

text \<open>An enqueue: the time, the task table its trace context is read from, and the outbox.\<close>

type_synonym enqueue = "nat \<Rightarrow> tasks \<Rightarrow> outbox_table \<Rightarrow> (sql_error, bool) result \<times> outbox_table"

definition enqueue_intent :: "target \<Rightarrow> string \<Rightarrow> json \<Rightarrow> string \<Rightarrow> enqueue" where
  "enqueue_intent t kind payload key now ts = enqueue_outbox_post now ts (target_intent t kind payload) key"

record review_comment_payload =
  rc_path :: string
  rc_line :: nat
  rc_start_line :: "nat option"
  rc_body :: string

record review_payload =
  rp_pr :: int
  rp_body :: string
  rp_summary :: string
  rp_comments :: "review_comment_payload list"
  rp_inline_n :: int
  rp_deferred_n :: int
  rp_out_of_scope_n :: int
  rp_findings_json :: json
  rp_label_findings :: bool
  rp_label_error :: bool

definition jnat :: "nat \<Rightarrow> json" where "jnat n = JInt (int n)"

definition encode_comment :: "review_comment_payload \<Rightarrow> json" where
  "encode_comment c =
     JObj ([(''path'', JStr (rc_path c)), (''line'', jnat (rc_line c))]
           @ opt_field ''start_line'' jnat (rc_start_line c) @ [(''body'', JStr (rc_body c))])"

definition encode_review :: "review_payload \<Rightarrow> json" where
  "encode_review p =
     JObj [(''pr'', JInt (rp_pr p)), (''body'', JStr (rp_body p)), (''summary'', JStr (rp_summary p)),
           (''comments'', JArr (map encode_comment (rp_comments p))), (''inline_n'', JInt (rp_inline_n p)),
           (''deferred_n'', JInt (rp_deferred_n p)), (''out_of_scope_n'', JInt (rp_out_of_scope_n p)),
           (''findings_json'', rp_findings_json p), (''label_findings'', JBool (rp_label_findings p)),
           (''label_error'', JBool (rp_label_error p))]"

definition enqueue_review :: "target \<Rightarrow> review_payload \<Rightarrow> enqueue" where
  "enqueue_review t p =
     enqueue_intent t ''review'' (encode_review p) (key_prefix t (rp_pr p) @ '':review'')"

definition enqueue_reply :: "target \<Rightarrow> int \<Rightarrow> string \<Rightarrow> string \<Rightarrow> enqueue" where
  "enqueue_reply t issue body target_type =
     enqueue_intent t ''reply''
       (JObj [(''issue'', JInt issue), (''body'', JStr body), (''target_type'', JStr target_type)])
       (key_prefix t issue @ '':reply'')"

definition reaction_payload :: "int \<Rightarrow> string \<Rightarrow> int option \<Rightarrow> string \<Rightarrow> json" where
  "reaction_payload issue content comment_id target_type =
     (case comment_id of
        Some cid \<Rightarrow> JObj [(''issue'', JInt issue), (''content'', JStr content), (''comment_id'', JInt cid),
                          (''target_type'', JStr target_type)]
      | None \<Rightarrow> JObj [(''issue'', JInt issue), (''content'', JStr content), (''target_type'', JStr target_type)])"

definition enqueue_reaction :: "target \<Rightarrow> int \<Rightarrow> string \<Rightarrow> int option \<Rightarrow> string \<Rightarrow> enqueue" where
  "enqueue_reaction t issue content comment_id target_type =
     enqueue_intent t ''reaction'' (reaction_payload issue content comment_id target_type)
       (key_prefix t issue @ '':reaction:'' @ content)"

definition enqueue_verdict_reaction :: "target \<Rightarrow> int \<Rightarrow> string \<Rightarrow> int option \<Rightarrow> string \<Rightarrow> enqueue" where
  "enqueue_verdict_reaction t issue content comment_id target_type =
     enqueue_intent t ''reaction'' (reaction_payload issue content comment_id target_type)
       (key_prefix t issue @ '':reaction:verdict'')"

definition enqueue_failure_notice :: "target \<Rightarrow> int \<Rightarrow> string \<Rightarrow> enqueue" where
  "enqueue_failure_notice t issue target_type =
     enqueue_intent t ''failure_notice''
       (JObj [(''issue'', JInt issue), (''body'', JStr render_failure_notice), (''target_type'', JStr target_type)])
       (key_prefix t issue @ '':failure_notice'')"

definition enqueue_check_run_start :: "target \<Rightarrow> int \<Rightarrow> string \<Rightarrow> enqueue" where
  "enqueue_check_run_start t pr head_sha =
     enqueue_intent t ''check_run_start'' (JObj [(''pr'', JInt pr), (''head_sha'', JStr head_sha)])
       (key_prefix t pr @ '':check_run:start'')"

fun conclusion_text :: "check_conclusion \<Rightarrow> string" where
  "conclusion_text CSuccess = ''success''"
| "conclusion_text CFailure = ''failure''"
| "conclusion_text CNeutral = ''neutral''"
| "conclusion_text CCancelled = ''cancelled''"
| "conclusion_text CTimedOut = ''timed_out''"

definition enqueue_check_run_resolve ::
  "target \<Rightarrow> int \<Rightarrow> string \<Rightarrow> check_conclusion \<Rightarrow> string \<Rightarrow> string \<Rightarrow> enqueue" where
  "enqueue_check_run_resolve t pr head_sha conclusion title summary =
     enqueue_intent t ''check_run_resolve''
       (JObj [(''pr'', JInt pr), (''head_sha'', JStr head_sha), (''conclusion'', JStr (conclusion_text conclusion)),
              (''title'', JStr title), (''summary'', JStr summary)])
       (key_prefix t pr @ '':check_run:resolve'')"

record pr_open_payload =
  po_branch :: string
  po_base :: "string option"
  po_title :: string
  po_body :: string
  po_content_hash :: string

definition encode_pr_open :: "pr_open_payload \<Rightarrow> json" where
  "encode_pr_open p =
     JObj ([(''branch'', JStr (po_branch p))] @ opt_field ''base'' JStr (po_base p)
           @ [(''title'', JStr (po_title p)), (''body'', JStr (po_body p)),
              (''content_hash'', JStr (po_content_hash p))])"

definition pr_open_dedup_key :: "string \<Rightarrow> int \<Rightarrow> string" where
  "pr_open_dedup_key task_id run_epoch = task_id @ '':'' @ dec_int run_epoch @ '':pr_open''"

definition enqueue_pr_open :: "target \<Rightarrow> string \<Rightarrow> int \<Rightarrow> pr_open_payload \<Rightarrow> enqueue" where
  "enqueue_pr_open t task_id run_epoch p =
     enqueue_intent (t\<lparr>tg_task_id := Some task_id\<rparr>) ''pr_open'' (encode_pr_open p)
       (pr_open_dedup_key task_id run_epoch)"

section \<open>What consumers read back\<close>

definition as_u32 :: "json \<Rightarrow> nat option" where
  "as_u32 j = (case j of JInt i \<Rightarrow> if 0 \<le> i \<and> i < 2 ^ 32 then Some (nat i) else None | _ \<Rightarrow> None)"

definition as_i32 :: "json \<Rightarrow> int option" where
  "as_i32 j = (case j of JInt i \<Rightarrow> if - (2 ^ 31) \<le> i \<and> i < 2 ^ 31 then Some i else None | _ \<Rightarrow> None)"

definition decode_comment :: "json \<Rightarrow> review_comment_payload option" where
  "decode_comment j =
     do {
       path \<leftarrow> need j ''path'' as_str;
       line \<leftarrow> need j ''line'' as_u32;
       start \<leftarrow> need_option j ''start_line'' as_u32;
       body \<leftarrow> need j ''body'' as_str;
       Some \<lparr>rc_path = path, rc_line = line, rc_start_line = start, rc_body = body\<rparr>
     }"

fun as_bool :: "json \<Rightarrow> bool option" where
  "as_bool (JBool b) = Some b"
| "as_bool _ = None"

definition decode_review :: "json \<Rightarrow> review_payload option" where
  "decode_review j =
     do {
       pr \<leftarrow> need j ''pr'' as_i64;
       body \<leftarrow> need j ''body'' as_str;
       summary \<leftarrow> need j ''summary'' as_str;
       comments \<leftarrow> need j ''comments'' (decode_list decode_comment);
       inline_n \<leftarrow> need j ''inline_n'' as_i32;
       deferred_n \<leftarrow> need j ''deferred_n'' as_i32;
       out_of_scope_n \<leftarrow> need j ''out_of_scope_n'' as_i32;
       findings \<leftarrow> need j ''findings_json'' Some;
       label_findings \<leftarrow> need j ''label_findings'' as_bool;
       label_error \<leftarrow> need j ''label_error'' as_bool;
       Some \<lparr>rp_pr = pr, rp_body = body, rp_summary = summary, rp_comments = comments,
             rp_inline_n = inline_n, rp_deferred_n = deferred_n, rp_out_of_scope_n = out_of_scope_n,
             rp_findings_json = findings, rp_label_findings = label_findings, rp_label_error = label_error\<rparr>
     }"

definition conclusion_of :: "string \<Rightarrow> check_conclusion option" where
  "conclusion_of s = find (\<lambda>c. conclusion_text c = s) [CSuccess, CFailure, CNeutral, CCancelled, CTimedOut]"

record check_run_resolve_payload =
  cr_pr :: int
  cr_head_sha :: string
  cr_conclusion :: check_conclusion
  cr_title :: string
  cr_summary :: string

definition decode_check_run_start :: "json \<Rightarrow> (int \<times> string) option" where
  "decode_check_run_start j =
     do { pr \<leftarrow> need j ''pr'' as_i64; sha \<leftarrow> need j ''head_sha'' as_str; Some (pr, sha) }"

definition decode_check_run_resolve :: "json \<Rightarrow> check_run_resolve_payload option" where
  "decode_check_run_resolve j =
     do {
       pr \<leftarrow> need j ''pr'' as_i64;
       sha \<leftarrow> need j ''head_sha'' as_str;
       conclusion \<leftarrow> need j ''conclusion'' (\<lambda>v. Option.bind (as_str v) conclusion_of);
       title \<leftarrow> need_default j ''title'' '''' as_str;
       summary \<leftarrow> need j ''summary'' as_str;
       Some \<lparr>cr_pr = pr, cr_head_sha = sha, cr_conclusion = conclusion, cr_title = title, cr_summary = summary\<rparr>
     }"

definition decode_pr_open :: "json \<Rightarrow> pr_open_payload option" where
  "decode_pr_open j =
     do {
       branch \<leftarrow> need j ''branch'' as_str;
       base \<leftarrow> need_option j ''base'' as_str;
       title \<leftarrow> need j ''title'' as_str;
       body \<leftarrow> need j ''body'' as_str;
       content_hash \<leftarrow> need j ''content_hash'' as_str;
       Some \<lparr>po_branch = branch, po_base = base, po_title = title, po_body = body,
             po_content_hash = content_hash\<rparr>
     }"

section \<open>The insert is an idempotent keyed insert\<close>

definition intent_of :: "outbox_table \<Rightarrow> string \<Rightarrow> intent option" where
  "intent_of ob key = map_option ob_intent (row_of ob_dedup_key (ob_rows ob) key)"

lemma intent_of_rows: "ob_rows ob = ob_rows ob' \<Longrightarrow> intent_of ob = intent_of ob'"
  by (simp add: intent_of_def fun_eq_iff)

interpretation posts: keyed_insert "outbox_insert now trace" intent_of
proof
  fix s key r
  assume "intent_of s key = None"
  then show "fst (outbox_insert now trace key r s)
      \<and> intent_of (snd (outbox_insert now trace key r s)) = (intent_of s)(key \<mapsto> r)"
    by (auto simp: outbox_insert_def Let_def intent_of_def fun_eq_iff row_of_append new_outbox_row_def
        split: option.split)
next
  fix s key r r'
  assume "intent_of s key = Some r'"
  then show "\<not> fst (outbox_insert now trace key r s)
      \<and> intent_of (snd (outbox_insert now trace key r s)) = intent_of s"
    by (auto simp: outbox_insert_def Let_def intent_of_def split: option.splits)
qed

lemma enqueue_idempotent:
  assumes "intent_of ob key = Some i"
  shows "intent_of (snd (enqueue_outbox_post now ts i' key ob)) = intent_of ob"
    and "fst (enqueue_outbox_post now ts i' key ob) \<noteq> Inr True"
  using posts.put_taken [OF assms, of now "task_trace ts (in_task_id i')" i']
  by (auto simp: enqueue_outbox_post_def intent_of_rows [of "_\<lparr>ob_seq := _\<rparr>"] split: prod.split bool.split)

lemma enqueue_row:
  "fst (enqueue_outbox_post now ts i key ob) = Inr b \<Longrightarrow>
     b = (intent_of ob key = None)
     \<and> intent_of (snd (enqueue_outbox_post now ts i key ob)) key
         = Some (case intent_of ob key of None \<Rightarrow> i | Some i' \<Rightarrow> i')"
  using posts.first_wins [of now "task_trace ts (in_task_id i)" key i ob key]
    posts.inserted_iff [of now "task_trace ts (in_task_id i)" key i ob]
  by (auto simp: enqueue_outbox_post_def split: prod.splits bool.splits if_splits)

end
