(* ===== verification/Outbox_Properties.thy ===== *)
theory Outbox_Properties
  imports Outbox
begin

text \<open>
  What the outbox keeps under every interleaving of its producers, the single consumer and the
  retention sweep; the retry schedule of one row; what the sweep may delete; and that the payloads
  survive the trip through the table.
\<close>

section \<open>Invariant\<close>

definition outbox_row_ok :: "outbox_row \<Rightarrow> bool" where
  "outbox_row_ok r \<longleftrightarrow>
     in_kind (ob_intent r) \<in> set OUTBOX_KINDS
     \<and> (ob_status r = DeadLettered \<longleftrightarrow> ob_attempts r = OUTBOX_MAX_ATTEMPTS)
     \<and> ob_attempts r \<le> OUTBOX_MAX_ATTEMPTS
     \<and> (ob_status r = Posted \<longrightarrow> ob_posted_at r \<noteq> None)"

definition outbox_ok :: "outbox_table \<Rightarrow> bool" where
  "outbox_ok ob \<longleftrightarrow>
     distinct (map ob_dedup_key (ob_rows ob)) \<and> distinct (map ob_id (ob_rows ob))
     \<and> list_all (\<lambda>r. ob_id r \<le> ob_seq ob \<and> outbox_row_ok r) (ob_rows ob)"

definition pending_id :: "outbox_table \<Rightarrow> nat \<Rightarrow> bool" where
  "pending_id ob n \<longleftrightarrow> list_ex (\<lambda>r. ob_id r = n \<and> ob_status r = Pending) (ob_rows ob)"

definition empty_outbox :: outbox_table where "empty_outbox = \<lparr>ob_rows = [], ob_seq = 0\<rparr>"

text \<open>The consumer is a single replica and settles only rows it claimed, which are pending until it
  does; producers and the sweep run at any time.\<close>

inductive outbox_step :: "outbox_table \<Rightarrow> outbox_table \<Rightarrow> bool" where
  Enqueue: "outbox_step ob (snd (enqueue_outbox_post now ts i key ob))"
| Settle: "pending_id ob n \<Longrightarrow> outbox_step ob (mark_outbox_posted now n ref ob)"
| Back_Off: "pending_id ob n \<Longrightarrow> outbox_step ob (mark_outbox_failed now n error ob)"
| Sweep: "outbox_step ob (snd (prune_outbox now posted_days failed_days ob))"

definition reachable_outbox :: "outbox_table \<Rightarrow> bool" where
  "reachable_outbox ob \<longleftrightarrow> outbox_step\<^sup>*\<^sup>* empty_outbox ob"

lemma row_updates [simp]:
  "ob_id (posted_row now ref r) = ob_id r" "ob_dedup_key (posted_row now ref r) = ob_dedup_key r"
  "ob_id (failed_row now e r) = ob_id r" "ob_dedup_key (failed_row now e r) = ob_dedup_key r"
  "ob_intent (posted_row now ref r) = ob_intent r" "ob_intent (failed_row now e r) = ob_intent r"
  by (simp_all add: posted_row_def failed_row_def Let_def)

lemma enqueue_cases:
  "snd (enqueue_outbox_post now ts i key ob) = ob\<lparr>ob_seq := Suc (ob_seq ob)\<rparr>
   \<or> (in_kind i \<in> set OUTBOX_KINDS \<and> key \<notin> set (map ob_dedup_key (ob_rows ob))
      \<and> snd (enqueue_outbox_post now ts i key ob) =
          ob\<lparr>ob_seq := Suc (ob_seq ob),
             ob_rows := ob_rows ob @ [new_outbox_row now (Suc (ob_seq ob)) (task_trace ts (in_task_id i)) i key]\<rparr>)"
  by (auto simp: enqueue_outbox_post_def outbox_insert_def Let_def row_of_None [symmetric]
      simp del: set_map split: option.split)

lemma enqueue_ok: "outbox_ok ob \<Longrightarrow> outbox_ok (snd (enqueue_outbox_post now ts i key ob))"
  using enqueue_cases [of now ts i key ob]
  by (fastforce simp: outbox_ok_def list_all_iff new_outbox_row_def outbox_row_ok_def OUTBOX_MAX_ATTEMPTS_def)

lemma update_map:
  "(\<And>r. key (f r) = key r) \<Longrightarrow> map key (update_where P f rs) = map key rs"
  by (simp add: update_where_def)

lemma pending_unique:
  assumes "outbox_ok ob" "pending_id ob n" "r \<in> set (ob_rows ob)" "ob_id r = n"
  shows "ob_status r = Pending"
proof -
  obtain r' where r': "r' \<in> set (ob_rows ob)" "ob_id r' = n" "ob_status r' = Pending"
    using assms(2) by (auto simp: pending_id_def list_ex_iff)
  have "r' = r" using assms(1,3,4) r'(1,2) by (auto simp: outbox_ok_def distinct_map dest: inj_onD)
  with r' show ?thesis by simp
qed

lemma settle_ok:
  assumes "outbox_ok ob" "pending_id ob n"
  shows "outbox_ok (mark_outbox_posted now n ref ob)" "outbox_ok (mark_outbox_failed now n error ob)"
proof -
  have p: "outbox_row_ok (posted_row now ref r)" "outbox_row_ok (failed_row now error r)"
    if "r \<in> set (ob_rows ob)" "ob_id r = n" for r
  proof -
    have "ob_status r = Pending" using pending_unique assms that by blast
    moreover have "outbox_row_ok r" using assms(1) that by (auto simp: outbox_ok_def list_all_iff)
    ultimately show "outbox_row_ok (posted_row now ref r)" "outbox_row_ok (failed_row now error r)"
      by (auto simp: outbox_row_ok_def posted_row_def failed_row_def Let_def OUTBOX_MAX_ATTEMPTS_def)
  qed
  show "outbox_ok (mark_outbox_posted now n ref ob)" "outbox_ok (mark_outbox_failed now n error ob)"
    using assms(1) p by (auto simp: outbox_ok_def mark_outbox_posted_def mark_outbox_failed_def update_map
        list_all_iff set_update_where)
qed

lemma prune_rows:
  "ob_rows (snd (prune_outbox now pd fd ob)) =
     filter (\<lambda>r. \<not> (pd > 0 \<and> posted_expired now pd r) \<and> \<not> (fd > 0 \<and> failed_expired now fd r)) (ob_rows ob)"
  "ob_seq (snd (prune_outbox now pd fd ob)) = ob_seq ob"
  by (simp_all add: prune_outbox_def delete_where_def conj_commute)

lemma prune_ok: "outbox_ok ob \<Longrightarrow> outbox_ok (snd (prune_outbox now pd fd ob))"
  by (auto simp: outbox_ok_def prune_rows list_all_iff distinct_map intro: inj_on_subset)

lemma outbox_step_ok: "outbox_step ob ob' \<Longrightarrow> outbox_ok ob \<Longrightarrow> outbox_ok ob'"
  by (induction rule: outbox_step.induct) (simp_all add: enqueue_ok settle_ok prune_ok)

lemma reachable_outbox_ok: "reachable_outbox ob \<Longrightarrow> outbox_ok ob"
  unfolding reachable_outbox_def
  by (induction rule: rtranclp_induct) (auto simp: outbox_ok_def empty_outbox_def dest: outbox_step_ok [unfolded outbox_ok_def])

section \<open>Keys\<close>

lemma target_key: "tg_task_id t = Some i \<Longrightarrow> key_prefix t issue = i"
  by (simp add: key_prefix_def)

text \<open>What the program enqueues: the calls of its producers, with any contents.\<close>

inductive producer :: "enqueue \<Rightarrow> bool" where
  Review: "producer (enqueue_review t p)"
| Reply: "producer (enqueue_reply t issue body tt)"
| Reaction: "producer (enqueue_reaction t issue content cid tt)"
| Verdict: "producer (enqueue_verdict_reaction t issue content cid tt)"
| Notice: "producer (enqueue_failure_notice t issue tt)"
| Start: "producer (enqueue_check_run_start t pr sha)"
| Resolve: "producer (enqueue_check_run_resolve t pr sha c title summary)"
| Open: "producer (enqueue_pr_open t i epoch po)"

inductive program_step :: "outbox_table \<Rightarrow> outbox_table \<Rightarrow> bool" where
  Produce: "producer enq \<Longrightarrow> program_step ob (snd (enq now ts ob))"
| Consume: "pending_id ob n \<Longrightarrow> program_step ob (mark_outbox_posted now n ref ob)"
| Fail: "pending_id ob n \<Longrightarrow> program_step ob (mark_outbox_failed now n error ob)"
| Prune: "program_step ob (snd (prune_outbox now posted_days failed_days ob))"

text \<open>The key a task's intents of one kind share.\<close>

definition task_key :: "string \<Rightarrow> string option" where
  "task_key kind = map_of [(''review'', '':review''), (''reply'', '':reply''), (''failure_notice'', '':failure_notice''),
     (''check_run_start'', '':check_run:start''), (''check_run_resolve'', '':check_run:resolve'')] kind"

lemma producer_keyed:
  "producer enq \<Longrightarrow> \<exists>t kind payload key. enq = enqueue_intent t kind payload key
     \<and> (\<forall>i what. tg_task_id t = Some i \<longrightarrow> task_key kind = Some what \<longrightarrow> key = i @ what)"
proof (induction rule: producer.induct)
  case (Review t p)
  show ?case unfolding enqueue_review_def
    by (intro exI conjI, rule refl) (simp add: key_prefix_def task_key_def)
next
  case (Reply t issue body tt)
  show ?case unfolding enqueue_reply_def
    by (intro exI conjI, rule refl) (simp add: key_prefix_def task_key_def)
next
  case (Reaction t issue content cid tt)
  show ?case unfolding enqueue_reaction_def
    by (intro exI conjI, rule refl) (simp add: key_prefix_def task_key_def)
next
  case (Verdict t issue content cid tt)
  show ?case unfolding enqueue_verdict_reaction_def
    by (intro exI conjI, rule refl) (simp add: key_prefix_def task_key_def)
next
  case (Notice t issue tt)
  show ?case unfolding enqueue_failure_notice_def
    by (intro exI conjI, rule refl) (simp add: key_prefix_def task_key_def)
next
  case (Start t pr sha)
  show ?case unfolding enqueue_check_run_start_def
    by (intro exI conjI, rule refl) (simp add: key_prefix_def task_key_def)
next
  case (Resolve t pr sha c title summary)
  show ?case unfolding enqueue_check_run_resolve_def
    by (intro exI conjI, rule refl) (simp add: key_prefix_def task_key_def)
next
  case (Open t i epoch po)
  show ?case unfolding enqueue_pr_open_def
    by (intro exI conjI, rule refl) (simp add: key_prefix_def task_key_def)
qed

lemma program_step_is_step: "program_step ob ob' \<Longrightarrow> outbox_step ob ob'"
proof (induction rule: program_step.induct)
  case (Produce enq ob now ts)
  then obtain t kind payload key where "enq = enqueue_intent t kind payload key" using producer_keyed by blast
  then show ?case by (simp add: enqueue_intent_def outbox_step.Enqueue)
qed (auto intro: outbox_step.intros)

definition keyed_by_task :: "outbox_row \<Rightarrow> bool" where
  "keyed_by_task r \<longleftrightarrow> (\<forall>i what. in_task_id (ob_intent r) = Some i \<longrightarrow> task_key (in_kind (ob_intent r)) = Some what
     \<longrightarrow> ob_dedup_key r = i @ what)"

lemma keyed_marks [simp]:
  "keyed_by_task (posted_row now ref r) = keyed_by_task r" "keyed_by_task (failed_row now e r) = keyed_by_task r"
  by (simp_all add: keyed_by_task_def)

lemma keyed_enqueue:
  assumes "producer enq" "list_all keyed_by_task (ob_rows ob)"
  shows "list_all keyed_by_task (ob_rows (snd (enq now ts ob)))"
proof -
  obtain t kind payload key where enq: "enq = enqueue_intent t kind payload key"
    and key: "\<forall>i what. tg_task_id t = Some i \<longrightarrow> task_key kind = Some what \<longrightarrow> key = i @ what"
    using producer_keyed[OF assms(1)] by blast
  have "keyed_by_task (new_outbox_row now n tr (target_intent t kind payload) key)" for n tr
    using key by (simp add: keyed_by_task_def new_outbox_row_def target_intent_def)
  then show ?thesis
    using enqueue_cases[of now ts "target_intent t kind payload" key ob] assms(2)
    by (auto simp: enq enqueue_intent_def)
qed

lemma program_step_keyed: "program_step ob ob' \<Longrightarrow> list_all keyed_by_task (ob_rows ob) \<Longrightarrow> list_all keyed_by_task (ob_rows ob')"
proof (induction rule: program_step.induct)
  case (Produce enq ob now ts)
  then show ?case by (rule keyed_enqueue)
qed (auto simp: list_all_iff mark_outbox_posted_def mark_outbox_failed_def update_where_def prune_outbox_def
      delete_where_def Let_def split: prod.splits if_splits)

lemma program_reaches:
  assumes "program_step\<^sup>*\<^sup>* empty_outbox ob"
  shows "reachable_outbox ob \<and> list_all keyed_by_task (ob_rows ob)"
  using assms
proof (induction rule: rtranclp_induct)
  case base
  then show ?case by (simp add: reachable_outbox_def empty_outbox_def)
next
  case (step y z)
  then show ?case
    using program_step_is_step program_step_keyed unfolding reachable_outbox_def by (meson rtranclp.rtrancl_into_rtrancl)
qed

text \<open>
  C23. However the program's producers, the consumer and the sweep interleave, the outbox holds for each task
  at most one review, one reply, one failure notice, one check start and one check resolution at a time,
  whatever their contents, and at most one verdict reaction under its key; and a row is dead-lettered exactly
  when it has used up its attempts, never more.
\<close>

theorem one_intent_per_key:
  assumes "program_step\<^sup>*\<^sup>* empty_outbox ob"
    and "kind \<in> {''review'', ''reply'', ''failure_notice'', ''check_run_start'', ''check_run_resolve''}"
  shows "length (filter (\<lambda>r. in_kind (ob_intent r) = kind \<and> in_task_id (ob_intent r) = Some i) (ob_rows ob)) \<le> 1
     \<and> length (filter (\<lambda>r. ob_dedup_key r = i @ '':reaction:verdict'') (ob_rows ob)) \<le> 1
     \<and> list_all (\<lambda>r. (ob_status r = DeadLettered) = (ob_attempts r = OUTBOX_MAX_ATTEMPTS)
                      \<and> ob_attempts r \<le> OUTBOX_MAX_ATTEMPTS) (ob_rows ob)"
proof (intro conjI)
  have ok: "outbox_ok ob" and keyed: "list_all keyed_by_task (ob_rows ob)"
    using program_reaches[OF assms(1)] reachable_outbox_ok by blast+
  have one: "length (filter P (ob_rows ob)) \<le> 1" if "\<And>r. r \<in> set (ob_rows ob) \<Longrightarrow> P r \<Longrightarrow> ob_dedup_key r = k" for P k
  proof -
    have "distinct (map ob_dedup_key (filter P (ob_rows ob)))" using ok by (simp add: outbox_ok_def distinct_map_filter)
    moreover have "set (map ob_dedup_key (filter P (ob_rows ob))) \<subseteq> {k}" using that by auto
    ultimately have "length (map ob_dedup_key (filter P (ob_rows ob))) \<le> card {k}"
      by (metis card_mono distinct_card finite.emptyI finite.insertI)
    then show ?thesis by simp
  qed
  obtain what where "task_key kind = Some what" using assms(2) by (auto simp: task_key_def)
  then show "length (filter (\<lambda>r. in_kind (ob_intent r) = kind \<and> in_task_id (ob_intent r) = Some i) (ob_rows ob)) \<le> 1"
    using keyed by (intro one[of _ "i @ what"]) (auto simp: list_all_iff keyed_by_task_def)
  show "length (filter (\<lambda>r. ob_dedup_key r = i @ '':reaction:verdict'') (ob_rows ob)) \<le> 1"
    by (rule one) simp
  show "list_all (\<lambda>r. (ob_status r = DeadLettered) = (ob_attempts r = OUTBOX_MAX_ATTEMPTS)
                      \<and> ob_attempts r \<le> OUTBOX_MAX_ATTEMPTS) (ob_rows ob)"
    using ok by (auto simp: outbox_ok_def outbox_row_ok_def list_all_iff)
qed

theorem one_intent_per_key_witness:
  "\<exists>ob. program_step\<^sup>*\<^sup>* empty_outbox ob \<and> length (ob_rows ob) = 1
     \<and> length (filter (\<lambda>r. in_kind (ob_intent r) = ''reply'' \<and> in_task_id (ob_intent r) = Some ''t'') (ob_rows ob)) \<le> 1"
proof -
  define t where "t = \<lparr>tg_task_id = Some ''t'', tg_platform = GitHub, tg_installation_id = 1, tg_owner = ''o'',
    tg_repo = ''r''\<rparr>"
  let ?ts = "[fresh_row 0 ''t'' sample_request 0 0 Queued]"
  let ?ob = "snd (enqueue_reply t 3 ''hello'' ''pull_request'' 0 ?ts empty_outbox)"
  have "program_step empty_outbox ?ob" by (rule Produce) (rule Reply)
  then have r: "program_step\<^sup>*\<^sup>* empty_outbox ?ob" by simp
  have "length (ob_rows ?ob) = 1"
    by (simp add: enqueue_reply_def enqueue_intent_def enqueue_outbox_post_def outbox_insert_def empty_outbox_def row_of_def
        Let_def OUTBOX_KINDS_def target_intent_def references_task_def t_def id_taken_def fresh_row_def)
  then show ?thesis using r one_intent_per_key [OF r, of "''reply''" "''t''"] by blast
qed

text \<open>The first verdict of a task stands: a later, different one leaves the outbox's intents alone.\<close>

lemma first_verdict_stands:
  assumes "fst (enqueue_verdict_reaction t issue first cid tt now ts ob) = Inr b"
  shows "intent_of (snd (enqueue_verdict_reaction t issue second cid' tt' now' ts'
             (snd (enqueue_verdict_reaction t issue first cid tt now ts ob))))
     = intent_of (snd (enqueue_verdict_reaction t issue first cid tt now ts ob))"
  using enqueue_row [OF assms [unfolded enqueue_verdict_reaction_def enqueue_intent_def]]
  by (auto simp: enqueue_verdict_reaction_def enqueue_intent_def intro!: enqueue_idempotent(1))

section \<open>The retry schedule\<close>

text \<open>Deliveries of one row that all fail, each at a time the row is due.\<close>

fun due_each :: "nat list \<Rightarrow> outbox_row \<Rightarrow> bool" where
  "due_each [] r = True"
| "due_each (n # ns) r = (ob_due n r \<and> due_each ns (failed_row n '''' r))"

definition retries :: "nat list \<Rightarrow> outbox_row \<Rightarrow> outbox_row" where
  "retries ns r = fold (\<lambda>n. failed_row n '''') ns r"

text \<open>Squares of the minutes waited after the attempts \<open>a + 1 \<dots> 5\<close>.\<close>

fun wait_after :: "nat \<Rightarrow> nat \<Rightarrow> nat" where
  "wait_after a 0 = 0"
| "wait_after a (Suc k) = 60 * ((a + 1) * (a + 1)) + wait_after (a + 1) k"

lemma due_each_bounds:
  assumes "due_each ns r" "ob_attempts r < OUTBOX_MAX_ATTEMPTS" "ob_status r = Pending"
  shows "ob_attempts r + length ns \<le> OUTBOX_MAX_ATTEMPTS
     \<and> ob_attempts (retries ns r) = ob_attempts r + length ns
     \<and> (ob_status (retries ns r) = (if ob_attempts r + length ns = OUTBOX_MAX_ATTEMPTS then DeadLettered else Pending))
     \<and> (ns \<noteq> [] \<longrightarrow> last ns \<ge> hd ns + wait_after (ob_attempts r) (length ns - 1) \<and> hd ns \<ge> ob_next_attempt_at r)"
  using assms
proof (induction ns arbitrary: r)
  case Nil
  then show ?case by (simp add: retries_def)
next
  case (Cons n ns)
  let ?r = "failed_row n '''' r"
  have a: "ob_attempts ?r = ob_attempts r + 1" by (simp add: failed_row_def Let_def)
  have due: "ob_next_attempt_at r \<le> n" "due_each ns ?r" using Cons.prems(1) by (auto simp: ob_due_def)
  show ?case
  proof (cases "ob_attempts ?r < OUTBOX_MAX_ATTEMPTS")
    case True
    have p: "ob_status ?r = Pending" "ob_next_attempt_at ?r = n + 60 * ((ob_attempts r + 1) * (ob_attempts r + 1))"
      using True by (simp_all add: failed_row_def Let_def)
    note IH = Cons.IH [OF due(2) True p(1)]
    show ?thesis
    proof (cases ns)
      case Nil
      then show ?thesis using True p a due by (simp add: retries_def)
    next
      case (Cons m ms)
      then show ?thesis using IH p a due by (simp add: retries_def)
    qed
  next
    case False
    then have p: "ob_status ?r = DeadLettered" by (simp add: failed_row_def Let_def)
    then have "ns = []" using due(2) by (cases ns) (auto simp: ob_due_def)
    then show ?thesis using p a False due Cons.prems(2) by (simp add: retries_def)
  qed
qed

text \<open>
  A fresh intent whose deliveries all fail is tried at most six times, is dead-lettered by the sixth
  failure and not before, and its sixth attempt comes at least 55 minutes (1 + 4 + 9 + 16 + 25) after
  its first.
\<close>

theorem six_attempts_then_dead:
  assumes "due_each ns (new_outbox_row now n trace i key)"
  shows "length ns \<le> 6
     \<and> ob_status (retries ns (new_outbox_row now n trace i key)) = (if length ns = 6 then DeadLettered else Pending)
     \<and> list_all (\<lambda>m. now \<le> m) (take 1 ns)
     \<and> (length ns = 6 \<longrightarrow> last ns \<ge> hd ns + 55 * 60)"
proof -
  let ?r = "new_outbox_row now n trace i key"
  have r: "ob_attempts ?r = 0" "ob_status ?r = Pending" "ob_next_attempt_at ?r = now"
    by (simp_all add: new_outbox_row_def)
  have m: "OUTBOX_MAX_ATTEMPTS = 6" by (simp add: OUTBOX_MAX_ATTEMPTS_def)
  have "wait_after 0 (Suc (Suc (Suc (Suc (Suc 0))))) = 55 * 60" by simp
  then have w: "wait_after 0 5 = 55 * 60" by (simp add: numeral_eq_Suc)
  note b = due_each_bounds [OF assms, unfolded r m]
  have "list_all (\<lambda>m. now \<le> m) (take 1 ns)" using b by (cases ns) simp_all
  moreover have "last ns \<ge> hd ns + 55 * 60" if "length ns = 6"
  proof -
    have "ns \<noteq> []" "length ns - 1 = 5" using that by auto
    then show ?thesis using b w by simp
  qed
  ultimately show ?thesis using b by simp
qed

theorem six_attempts_then_dead_witness:
  "last [0, 60, 300, 840, 1800, 3300] \<ge> hd [0, 60, 300, 840, 1800, 3300::nat] + 55 * 60"
  using six_attempts_then_dead [of "[0, 60, 300, 840, 1800, 3300]" 0 1 None
      "target_intent \<lparr>tg_task_id = None, tg_platform = GitHub, tg_installation_id = 1, tg_owner = ''o'',
         tg_repo = ''r''\<rparr> ''reply'' JNull" "''k''"]
  by (simp add: ob_due_def new_outbox_row_def failed_row_def Let_def OUTBOX_MAX_ATTEMPTS_def)

section \<open>Retention\<close>

text \<open>
  The retention sweep never touches a pending intent, whatever its age, and removes exactly the
  delivered rows past the delivered window and the dead-lettered rows past theirs; a window of zero or
  less removes nothing of its kind, so no configuration empties the table.
\<close>

theorem sweep_keeps_pending:
  "let ob' = snd (prune_outbox now pd fd ob) in
     filter (\<lambda>r. ob_status r = Pending) (ob_rows ob') = filter (\<lambda>r. ob_status r = Pending) (ob_rows ob)
     \<and> filter (\<lambda>r. ob_status r = Posted) (ob_rows ob') =
         filter (\<lambda>r. ob_status r = Posted
           \<and> (pd \<le> 0 \<or> (case ob_posted_at r of None \<Rightarrow> True | Some p \<Rightarrow> int now \<le> int p + 86400 * pd))) (ob_rows ob)
     \<and> filter (\<lambda>r. ob_status r = DeadLettered) (ob_rows ob') =
         filter (\<lambda>r. ob_status r = DeadLettered \<and> (fd \<le> 0 \<or> int now \<le> int (ob_created_at r) + 86400 * fd)) (ob_rows ob)"
  unfolding Let_def prune_rows filter_filter
  by (intro conjI filter_cong refl)
    (auto simp: posted_expired_def failed_expired_def older_than_def split: option.splits)

section \<open>Payloads\<close>

definition comment_fits :: "review_comment_payload \<Rightarrow> bool" where
  "comment_fits c \<longleftrightarrow> rc_line c < 2 ^ 32 \<and> pred_option (\<lambda>s. s < 2 ^ 32) (rc_start_line c)"

definition review_fits :: "review_payload \<Rightarrow> bool" where
  "review_fits p \<longleftrightarrow> list_all comment_fits (rp_comments p)
     \<and> list_all (\<lambda>n. - (2 ^ 31) \<le> n \<and> n < 2 ^ 31) [rp_inline_n p, rp_deferred_n p, rp_out_of_scope_n p]"

lemma as_u32_nat: "n < 2 ^ 32 \<Longrightarrow> as_u32 (jnat n) = Some n"
  by (simp add: as_u32_def jnat_def)

lemma comment_roundtrip: "comment_fits c \<Longrightarrow> decode_comment (encode_comment c) = Some c"
  by (cases c; cases "rc_start_line c")
    (simp_all add: comment_fits_def decode_comment_def encode_comment_def need_def need_option_def opt_field_def
      as_u32_def jnat_def)

lemma those_decoded: "list_all (\<lambda>x. f x = Some (g x)) xs \<Longrightarrow> those (map f xs) = Some (map g xs)"
  by (induction xs) simp_all

lemma comments_roundtrip:
  "list_all comment_fits cs \<Longrightarrow> those (map (decode_comment \<circ> encode_comment) cs) = Some cs"
  using those_decoded [of "decode_comment \<circ> encode_comment" id cs]
  by (auto simp: list_all_iff comment_roundtrip)

lemma review_roundtrip: "review_fits p \<Longrightarrow> decode_review (encode_review p) = Some p"
  by (cases p) (simp add: review_fits_def decode_review_def encode_review_def need_def as_i32_def
      comments_roundtrip)

lemma conclusion_roundtrip: "conclusion_of (conclusion_text c) = Some c"
  by (cases c) (simp_all add: conclusion_of_def)

lemma check_run_resolve_roundtrip:
  "decode_check_run_resolve
     (JObj [(''pr'', JInt pr), (''head_sha'', JStr sha), (''conclusion'', JStr (conclusion_text c)),
            (''title'', JStr title), (''summary'', JStr summary)])
   = Some \<lparr>cr_pr = pr, cr_head_sha = sha, cr_conclusion = c, cr_title = title, cr_summary = summary\<rparr>"
  by (simp add: decode_check_run_resolve_def need_def need_default_def conclusion_roundtrip)

lemma check_run_start_roundtrip:
  "decode_check_run_start (JObj [(''pr'', JInt pr), (''head_sha'', JStr sha)]) = Some (pr, sha)"
  by (simp add: decode_check_run_start_def need_def)

lemma pr_open_roundtrip: "decode_pr_open (encode_pr_open p) = Some p"
  by (cases p; cases "po_base p") (simp_all add: decode_pr_open_def encode_pr_open_def need_def need_option_def opt_field_def)

text \<open>
  C35. A grouped review survives the outbox: what the consumer decodes from the row of an accepted
  enqueue is the payload the producer shaped, inline comments, optional range starts and all, provided
  its line numbers fit 32 bits and its counts fit the signed 32-bit columns.
\<close>

theorem review_survives_the_outbox:
  assumes "review_fits p" "intent_of ob (key_prefix t (rp_pr p) @ '':review'') = None"
    and "fst (enqueue_review t p now ts ob) = Inr b"
  shows "b \<and> map_option (decode_review \<circ> in_payload)
           (intent_of (snd (enqueue_review t p now ts ob)) (key_prefix t (rp_pr p) @ '':review'')) = Some (Some p)"
  using enqueue_row [OF assms(3) [unfolded enqueue_review_def enqueue_intent_def]] assms(2) review_roundtrip [OF assms(1)]
  by (simp add: enqueue_review_def enqueue_intent_def target_intent_def)

theorem review_survives_the_outbox_witness:
  "map_option (decode_review \<circ> in_payload)
     (intent_of (snd (enqueue_review
        \<lparr>tg_task_id = None, tg_platform = GitLab, tg_installation_id = 1, tg_owner = ''o'', tg_repo = ''r''\<rparr>
        \<lparr>rp_pr = 3, rp_body = ''b'', rp_summary = ''s'',
          rp_comments = [\<lparr>rc_path = ''a.rs'', rc_line = 4, rc_start_line = Some 2, rc_body = ''x''\<rparr>],
          rp_inline_n = 1, rp_deferred_n = 0, rp_out_of_scope_n = 0, rp_findings_json = JArr [],
          rp_label_findings = True, rp_label_error = False\<rparr> 0 [] empty_outbox)) ''o/r#3:review'')
   = Some (Some \<lparr>rp_pr = 3, rp_body = ''b'', rp_summary = ''s'',
          rp_comments = [\<lparr>rc_path = ''a.rs'', rc_line = 4, rc_start_line = Some 2, rc_body = ''x''\<rparr>],
          rp_inline_n = 1, rp_deferred_n = 0, rp_out_of_scope_n = 0, rp_findings_json = JArr [],
          rp_label_findings = True, rp_label_error = False\<rparr>)"
  (is "map_option _ (intent_of (snd (enqueue_review ?t ?p 0 [] _)) _) = _")
proof -
  have k: "key_prefix ?t (rp_pr ?p) @ '':review'' = ''o/r#3:review''"
    by code_simp
  have e: "intent_of empty_outbox key = None" for key by (simp add: intent_of_def empty_outbox_def row_of_def)
  have "fst (enqueue_review ?t ?p 0 [] empty_outbox) = Inr True"
    by (simp add: enqueue_review_def enqueue_intent_def enqueue_outbox_post_def outbox_insert_def empty_outbox_def
        row_of_def Let_def OUTBOX_KINDS_def target_intent_def references_task_def)
  from review_survives_the_outbox [OF _ e this, unfolded k] show ?thesis
    by (simp add: review_fits_def comment_fits_def)
qed

end
