(* ===== verification/Pending_Review.thy ===== *)
theory Pending_Review
  imports Keyed_Insert Task_Queue
begin

text \<open>
  The review buffer of a run (\<open>db/pending_actions.rs\<close> and its handlers in \<open>http/internal.rs\<close>): what the
  agent's write tools accumulate before the run is finalized. The table's partial unique indexes are
  part of the statements; reading it back is proved to be the abstract buffer the tools describe.
\<close>

section \<open>The table\<close>

datatype pending_action = Inline_Action | Comment_Action | Summary_Action

record pending_row =
  pa_id :: nat
  pa_task :: string
  pa_action :: pending_action
  pa_file :: "string option"
  pa_line :: "int option"
  pa_title :: "string option"
  pa_priority :: "string option"
  pa_category :: "string option"
  pa_suggestion :: "string option"
  pa_body :: string
  pa_run_epoch :: "int option"
  pa_call_id :: "string option"

record pending_table =
  pt_rows :: "pending_row list"
  pt_seq :: nat

record pending_inline =
  pi_file :: string
  pi_line :: int
  pi_title :: "string option"
  pi_priority :: "string option"
  pi_category :: "string option"
  pi_suggestion :: "string option"
  pi_body :: string

record pending_review =
  pv_inline :: "pending_inline list"
  pv_comments :: "string list"
  pv_summary :: "string option"

definition pending_is_empty :: "pending_review \<Rightarrow> bool" where
  "pending_is_empty p \<longleftrightarrow> pv_inline p = [] \<and> pv_comments p = [] \<and> pv_summary p = None"

definition keep_rows :: "(pending_row \<Rightarrow> bool) \<Rightarrow> pending_table \<Rightarrow> pending_table" where
  "keep_rows P pt = pt\<lparr>pt_rows := filter P (pt_rows pt)\<rparr>"

definition add_row :: "(nat \<Rightarrow> pending_row) \<Rightarrow> pending_table \<Rightarrow> pending_table" where
  "add_row f pt = pt\<lparr>pt_rows := pt_rows pt @ [f (Suc (pt_seq pt))], pt_seq := Suc (pt_seq pt)\<rparr>"

definition at_location :: "string \<Rightarrow> string \<Rightarrow> int \<Rightarrow> pending_row \<Rightarrow> bool" where
  "at_location task file line r \<longleftrightarrow>
     pa_task r = task \<and> pa_action r = Inline_Action \<and> pa_file r = Some file \<and> pa_line r = Some line"

definition delete_pending_inline :: "string \<Rightarrow> string \<Rightarrow> int \<Rightarrow> pending_table \<Rightarrow> pending_table" where
  "delete_pending_inline task file line = keep_rows (\<lambda>r. \<not> at_location task file line r)"

definition clear_pending_review :: "string \<Rightarrow> pending_table \<Rightarrow> pending_table" where
  "clear_pending_review task = keep_rows (\<lambda>r. pa_task r \<noteq> task)"

definition clear_pending_action :: "string \<Rightarrow> pending_action \<Rightarrow> pending_table \<Rightarrow> pending_table" where
  "clear_pending_action task action = keep_rows (\<lambda>r. \<not> (pa_task r = task \<and> pa_action r = action))"

definition with_inline :: "pending_inline \<Rightarrow> pending_row \<Rightarrow> pending_row" where
  "with_inline p r =
     r\<lparr>pa_title := pi_title p, pa_priority := pi_priority p, pa_category := pi_category p,
       pa_suggestion := pi_suggestion p, pa_body := pi_body p\<rparr>"

definition inline_row :: "string \<Rightarrow> pending_inline \<Rightarrow> nat \<Rightarrow> pending_row" where
  "inline_row task p n =
     \<lparr>pa_id = n, pa_task = task, pa_action = Inline_Action, pa_file = Some (pi_file p),
      pa_line = Some (pi_line p), pa_title = pi_title p, pa_priority = pi_priority p,
      pa_category = pi_category p, pa_suggestion = pi_suggestion p, pa_body = pi_body p,
      pa_run_epoch = None, pa_call_id = None\<rparr>"

definition text_row :: "string \<Rightarrow> pending_action \<Rightarrow> int option \<Rightarrow> string option \<Rightarrow> string \<Rightarrow> nat \<Rightarrow> pending_row" where
  "text_row task action run_epoch call_id body n =
     \<lparr>pa_id = n, pa_task = task, pa_action = action, pa_file = None, pa_line = None, pa_title = None,
      pa_priority = None, pa_category = None, pa_suggestion = None, pa_body = body,
      pa_run_epoch = run_epoch, pa_call_id = call_id\<rparr>"

definition upsert_pending_inline :: "string \<Rightarrow> pending_inline \<Rightarrow> pending_table \<Rightarrow> pending_table" where
  "upsert_pending_inline task p pt =
     (let here = at_location task (pi_file p) (pi_line p) in
      if list_ex here (pt_rows pt)
      then pt\<lparr>pt_rows := update_where here (with_inline p) (pt_rows pt), pt_seq := Suc (pt_seq pt)\<rparr>
      else add_row (inline_row task p) pt)"

text \<open>A repeated call conflicts only when both the epoch and the call id are known: a missing epoch
  is distinct from every other in the unique index, and rows without a call id are not in it.\<close>

definition same_call :: "string \<Rightarrow> int option \<Rightarrow> string option \<Rightarrow> pending_row \<Rightarrow> bool" where
  "same_call task run_epoch call_id r \<longleftrightarrow>
     pa_task r = task \<and> pa_action r = Comment_Action \<and> run_epoch \<noteq> None \<and> call_id \<noteq> None
     \<and> pa_run_epoch r = run_epoch \<and> pa_call_id r = call_id"

definition add_pending_comment ::
  "string \<Rightarrow> int option \<Rightarrow> string option \<Rightarrow> string \<Rightarrow> pending_table \<Rightarrow> pending_table" where
  "add_pending_comment task run_epoch call_id body pt =
     (if list_ex (same_call task run_epoch call_id) (pt_rows pt) then pt\<lparr>pt_seq := Suc (pt_seq pt)\<rparr>
      else add_row (text_row task Comment_Action run_epoch call_id body) pt)"

definition is_summary :: "string \<Rightarrow> pending_row \<Rightarrow> bool" where
  "is_summary task r \<longleftrightarrow> pa_task r = task \<and> pa_action r = Summary_Action"

definition upsert_pending_summary :: "string \<Rightarrow> string \<Rightarrow> pending_table \<Rightarrow> pending_table" where
  "upsert_pending_summary task body pt =
     (if list_ex (is_summary task) (pt_rows pt)
      then pt\<lparr>pt_rows := update_where (is_summary task) (\<lambda>r. r\<lparr>pa_body := body\<rparr>) (pt_rows pt),
              pt_seq := Suc (pt_seq pt)\<rparr>
      else add_row (text_row task Summary_Action None None body) pt)"

definition inline_of :: "pending_row \<Rightarrow> pending_inline" where
  "inline_of r =
     \<lparr>pi_file = the (pa_file r), pi_line = the (pa_line r), pi_title = pa_title r,
      pi_priority = pa_priority r, pi_category = pa_category r, pi_suggestion = pa_suggestion r,
      pi_body = pa_body r\<rparr>"

definition select_action :: "string \<Rightarrow> pending_action \<Rightarrow> pending_table \<Rightarrow> pending_row list" where
  "select_action task action pt =
     sort_key pa_id (filter (\<lambda>r. pa_task r = task \<and> pa_action r = action) (pt_rows pt))"

definition load_pending_review :: "string \<Rightarrow> pending_table \<Rightarrow> pending_review" where
  "load_pending_review task pt =
     \<lparr>pv_inline = map inline_of (select_action task Inline_Action pt),
      pv_comments = map pa_body (select_action task Comment_Action pt),
      pv_summary = (case filter (is_summary task) (pt_rows pt) of [] \<Rightarrow> None | r # _ \<Rightarrow> Some (pa_body r))\<rparr>"

section \<open>The abstract buffer\<close>

text \<open>What the tools promise: one finding per location, refined in place; replies in call order;
  one summary, the last one set.\<close>

definition same_place :: "pending_inline \<Rightarrow> pending_inline \<Rightarrow> bool" where
  "same_place p q \<longleftrightarrow> pi_file p = pi_file q \<and> pi_line p = pi_line q"

definition buffer_inline :: "pending_inline \<Rightarrow> pending_review \<Rightarrow> pending_review" where
  "buffer_inline p b =
     b\<lparr>pv_inline := (if list_ex (same_place p) (pv_inline b)
                     then update_where (same_place p) (\<lambda>_. p) (pv_inline b)
                     else pv_inline b @ [p])\<rparr>"

definition buffer_retract :: "string \<Rightarrow> int \<Rightarrow> pending_review \<Rightarrow> pending_review" where
  "buffer_retract file line b =
     b\<lparr>pv_inline := filter (\<lambda>q. \<not> (pi_file q = file \<and> pi_line q = line)) (pv_inline b)\<rparr>"

definition buffer_reply :: "string \<Rightarrow> pending_review \<Rightarrow> pending_review" where
  "buffer_reply body b = b\<lparr>pv_comments := pv_comments b @ [body]\<rparr>"

definition buffer_summary :: "string \<Rightarrow> pending_review \<Rightarrow> pending_review" where
  "buffer_summary body b = b\<lparr>pv_summary := Some body\<rparr>"

definition empty_buffer :: pending_review where
  "empty_buffer = \<lparr>pv_inline = [], pv_comments = [], pv_summary = None\<rparr>"

section \<open>Well-formed tables\<close>

definition pending_row_ok :: "pending_row \<Rightarrow> bool" where
  "pending_row_ok r \<longleftrightarrow> (pa_action r = Inline_Action \<longrightarrow> pa_file r \<noteq> None \<and> pa_line r \<noteq> None)"

definition pending_ok :: "pending_table \<Rightarrow> bool" where
  "pending_ok pt \<longleftrightarrow>
     sorted_wrt (\<lambda>a b. pa_id a < pa_id b) (pt_rows pt)
     \<and> list_all (\<lambda>r. pa_id r \<le> pt_seq pt \<and> pending_row_ok r) (pt_rows pt)
     \<and> distinct (map (\<lambda>r. (pa_task r, pa_file r, pa_line r)) (filter (\<lambda>r. pa_action r = Inline_Action) (pt_rows pt)))
     \<and> distinct (map pa_task (filter (\<lambda>r. pa_action r = Summary_Action) (pt_rows pt)))"

lemma sorted_select:
  assumes "pending_ok pt"
  shows "select_action task action pt = filter (\<lambda>r. pa_task r = task \<and> pa_action r = action) (pt_rows pt)"
proof -
  have "sorted_wrt (\<lambda>a b. pa_id a < pa_id b) (filter (\<lambda>r. pa_task r = task \<and> pa_action r = action) (pt_rows pt))"
    using assms by (simp add: pending_ok_def sorted_wrt_filter)
  then have "sorted (map pa_id (filter (\<lambda>r. pa_task r = task \<and> pa_action r = action) (pt_rows pt)))"
    unfolding sorted_map by (rule sorted_wrt_mono_rel [rotated]) simp
  then show ?thesis by (simp add: select_action_def sorted_sort_id sort_key_id_if_sorted)
qed

lemma load_ok:
  assumes "pending_ok pt"
  shows "load_pending_review task pt =
     \<lparr>pv_inline = map inline_of (filter (\<lambda>r. pa_task r = task \<and> pa_action r = Inline_Action) (pt_rows pt)),
      pv_comments = map pa_body (filter (\<lambda>r. pa_task r = task \<and> pa_action r = Comment_Action) (pt_rows pt)),
      pv_summary = (case filter (is_summary task) (pt_rows pt) of [] \<Rightarrow> None | r # _ \<Rightarrow> Some (pa_body r))\<rparr>"
  by (simp add: load_pending_review_def sorted_select [OF assms])

section \<open>The statements keep the table well formed\<close>

lemma filter_update_where:
  "(\<And>r. Q (f r) = Q r) \<Longrightarrow> filter Q (update_where P f rs) = update_where P f (filter Q rs)"
  by (induction rs) (simp_all add: update_where_def)

lemma map_update_where: "(\<And>r. g (f r) = g r) \<Longrightarrow> map g (update_where P f rs) = map g rs"
  by (simp add: update_where_def)

lemma update_where_id: "list_all (\<lambda>r. \<not> P r) rs \<Longrightarrow> update_where P f rs = rs"
  by (induction rs) (simp_all add: update_where_def)

lemma with_inline_simps [simp]:
  "pa_id (with_inline p r) = pa_id r" "pa_task (with_inline p r) = pa_task r"
  "pa_action (with_inline p r) = pa_action r" "pa_file (with_inline p r) = pa_file r"
  "pa_line (with_inline p r) = pa_line r" "pending_row_ok (with_inline p r) = pending_row_ok r"
  by (simp_all add: with_inline_def pending_row_ok_def)

lemma distinct_keep: "distinct (map g (filter Q rs)) \<Longrightarrow> distinct (map g (filter Q (filter P rs)))"
  using distinct_map_filter [of g "filter Q rs" P] by (simp add: conj_commute)

lemma keep_ok: "pending_ok pt \<Longrightarrow> pending_ok (keep_rows P pt)"
  by (auto simp: pending_ok_def keep_rows_def sorted_wrt_filter list_all_iff simp del: filter_filter
      intro: distinct_keep)

lemma sorted_update:
  assumes "\<And>r. pa_id (f r) = pa_id r" "sorted_wrt (\<lambda>a b. pa_id a < pa_id b) rs"
  shows "sorted_wrt (\<lambda>a b. pa_id a < pa_id b) (update_where P f rs)"
  using assms by (induction rs) (auto simp: update_where_def)

lemma update_pending_ok:
  assumes "pending_ok pt" "\<And>r. pa_id (f r) = pa_id r" "\<And>r. pa_task (f r) = pa_task r"
    "\<And>r. pa_action (f r) = pa_action r" "\<And>r. pa_file (f r) = pa_file r" "\<And>r. pa_line (f r) = pa_line r"
  shows "pending_ok (pt\<lparr>pt_rows := update_where P f (pt_rows pt), pt_seq := Suc (pt_seq pt)\<rparr>)"
proof -
  have "sorted_wrt (\<lambda>a b. pa_id a < pa_id b) (update_where P f (pt_rows pt))"
    using assms by (intro sorted_update) (simp_all add: pending_ok_def)
  moreover have "list_all (\<lambda>r. pa_id r \<le> Suc (pt_seq pt) \<and> pending_row_ok r) (update_where P f (pt_rows pt))"
    using assms by (auto simp: pending_ok_def list_all_iff set_update_where pending_row_ok_def le_Suc_eq)
  ultimately show ?thesis
    using assms by (simp add: pending_ok_def filter_update_where map_update_where)
qed

lemma add_row_ok:
  assumes "pending_ok pt" "\<And>n. pa_id (f n) = n" "\<And>n. pending_row_ok (f n)"
    "\<And>n. pa_action (f n) = Inline_Action \<Longrightarrow>
       list_all (\<lambda>r. \<not> (pa_action r = Inline_Action \<and> pa_task r = pa_task (f n) \<and> pa_file r = pa_file (f n)
          \<and> pa_line r = pa_line (f n))) (pt_rows pt)"
    "\<And>n. pa_action (f n) = Summary_Action \<Longrightarrow>
       list_all (\<lambda>r. \<not> (pa_action r = Summary_Action \<and> pa_task r = pa_task (f n))) (pt_rows pt)"
  shows "pending_ok (add_row f pt)"
  using assms(1-3) assms(4) [of "Suc (pt_seq pt)"] assms(5) [of "Suc (pt_seq pt)"]
  by (auto simp: pending_ok_def add_row_def sorted_wrt_append list_all_iff le_imp_less_Suc image_iff le_Suc_eq)

lemma upsert_inline_ok: "pending_ok pt \<Longrightarrow> pending_ok (upsert_pending_inline task p pt)"
  unfolding upsert_pending_inline_def Let_def
  by (auto intro!: update_pending_ok add_row_ok
      simp: inline_row_def pending_row_ok_def list_ex_iff list_all_iff at_location_def)

lemma upsert_summary_ok: "pending_ok pt \<Longrightarrow> pending_ok (upsert_pending_summary task body pt)"
  unfolding upsert_pending_summary_def
  by (auto intro!: update_pending_ok add_row_ok
      simp: text_row_def pending_row_ok_def list_ex_iff list_all_iff is_summary_def)

lemma seq_ok: "pending_ok pt \<Longrightarrow> pending_ok (pt\<lparr>pt_seq := Suc (pt_seq pt)\<rparr>)"
  by (auto simp: pending_ok_def list_all_iff le_Suc_eq)

lemma add_comment_ok: "pending_ok pt \<Longrightarrow> pending_ok (add_pending_comment task e c body pt)"
  unfolding add_pending_comment_def
  by (auto intro!: add_row_ok seq_ok simp: text_row_def pending_row_ok_def)

section \<open>Reading back is the abstract buffer\<close>

definition rows_of :: "string \<Rightarrow> pending_action \<Rightarrow> pending_table \<Rightarrow> pending_row list" where
  "rows_of task action pt = filter (\<lambda>r. pa_task r = task \<and> pa_action r = action) (pt_rows pt)"

lemma is_summary_rows: "filter (is_summary task) (pt_rows pt) = rows_of task Summary_Action pt"
  by (auto simp: rows_of_def is_summary_def intro: filter_cong)

lemma load_rows:
  "pending_ok pt \<Longrightarrow> load_pending_review task pt =
     \<lparr>pv_inline = map inline_of (rows_of task Inline_Action pt),
      pv_comments = map pa_body (rows_of task Comment_Action pt),
      pv_summary = (case rows_of task Summary_Action pt of [] \<Rightarrow> None | r # _ \<Rightarrow> Some (pa_body r))\<rparr>"
  by (simp add: load_ok is_summary_rows rows_of_def)

lemma rows_of_add [simp]:
  "rows_of task action (add_row f pt) = rows_of task action pt
     @ (if pa_task (f (Suc (pt_seq pt))) = task \<and> pa_action (f (Suc (pt_seq pt))) = action
        then [f (Suc (pt_seq pt))] else [])"
  by (simp add: rows_of_def add_row_def)

lemma rows_of_seq [simp]: "rows_of task action (pt\<lparr>pt_seq := n\<rparr>) = rows_of task action pt"
  by (simp add: rows_of_def)

lemma rows_of_update:
  assumes "\<And>r. pa_task (f r) = pa_task r" "\<And>r. pa_action (f r) = pa_action r"
  shows "rows_of task action (pt\<lparr>pt_rows := update_where P f (pt_rows pt)\<rparr>)
     = update_where P f (rows_of task action pt)"
  using assms by (simp add: rows_of_def filter_update_where)

lemma rows_of_keep: "rows_of task action (keep_rows P pt) = filter P (rows_of task action pt)"
  by (simp add: rows_of_def keep_rows_def filter_filter conj_commute)

lemma location_inline:
  "pending_ok pt \<Longrightarrow> r \<in> set (rows_of task Inline_Action pt) \<Longrightarrow>
     at_location task file line r \<longleftrightarrow> pi_file (inline_of r) = file \<and> pi_line (inline_of r) = line"
  by (auto simp: rows_of_def pending_ok_def list_all_iff pending_row_ok_def at_location_def inline_of_def)

lemma inline_with_inline:
  "at_location task (pi_file p) (pi_line p) r \<Longrightarrow> inline_of (with_inline p r) = p"
  by (simp add: at_location_def inline_of_def with_inline_def)

lemma no_location:
  "action \<noteq> Inline_Action \<or> task' \<noteq> task \<Longrightarrow>
     update_where (at_location task file line) f (rows_of task' action pt) = rows_of task' action pt"
  by (intro update_where_id) (auto simp: rows_of_def list_all_iff at_location_def)

lemma one_summary:
  assumes "pending_ok pt"
  shows "length (rows_of task Summary_Action pt) \<le> 1"
proof -
  let ?s = "filter (\<lambda>r. pa_action r = Summary_Action) (pt_rows pt)"
  have "rows_of task Summary_Action pt = filter (\<lambda>r. pa_task r = task) ?s"
    by (simp add: rows_of_def filter_filter conj_commute)
  moreover have "distinct (map pa_task ?s)" using assms by (simp add: pending_ok_def)
  then have "distinct (map pa_task (filter (\<lambda>r. pa_task r = task) ?s))" by (rule distinct_map_filter)
  then have "card (set (map pa_task (filter (\<lambda>r. pa_task r = task) ?s))) = length (filter (\<lambda>r. pa_task r = task) ?s)"
    by (metis distinct_card length_map)
  moreover have "card (set (map pa_task (filter (\<lambda>r. pa_task r = task) ?s))) \<le> card {task}"
    by (rule card_mono) auto
  ultimately show ?thesis by simp
qed

lemma load_upsert_inline:
  assumes "pending_ok pt"
  shows "load_pending_review task' (upsert_pending_inline task p pt) =
     (if task' = task then buffer_inline p (load_pending_review task pt) else load_pending_review task' pt)"
proof -
  let ?here = "at_location task (pi_file p) (pi_line p)"
  let ?rows = "rows_of task Inline_Action pt"
  note L = load_rows [OF upsert_inline_ok [OF assms, of task p]] load_rows [OF assms]
  have ex: "list_ex ?here (pt_rows pt) \<longleftrightarrow> list_ex (same_place p) (map inline_of ?rows)"
  proof -
    have "list_ex ?here (pt_rows pt) \<longleftrightarrow> list_ex ?here ?rows"
      by (auto simp: list_ex_iff rows_of_def at_location_def)
    also have "\<dots> \<longleftrightarrow> list_ex (same_place p) (map inline_of ?rows)"
      using location_inline [OF assms] by (force simp: list_ex_iff same_place_def)
    finally show ?thesis .
  qed
  have upd: "map inline_of (update_where ?here (with_inline p) ?rows)
      = update_where (same_place p) (\<lambda>_. p) (map inline_of ?rows)"
    using location_inline [OF assms] inline_with_inline [of task p]
    by (auto simp: update_where_def same_place_def)
  have rows: "rows_of t a (upsert_pending_inline task p pt) =
     (if list_ex ?here (pt_rows pt) then update_where ?here (with_inline p) (rows_of t a pt)
      else rows_of t a pt @ (if t = task \<and> a = Inline_Action then [inline_row task p (Suc (pt_seq pt))] else []))" for t a
    by (auto simp: upsert_pending_inline_def Let_def rows_of_update inline_row_def)
  have i: "inline_of (inline_row task p n) = p" for n by (simp add: inline_of_def inline_row_def)
  show ?thesis unfolding L rows buffer_inline_def
    by (cases "list_ex ?here (pt_rows pt)") (auto simp: ex upd no_location i)
qed

lemma load_retract:
  assumes "pending_ok pt"
  shows "load_pending_review task' (delete_pending_inline task file line pt) =
     (if task' = task then buffer_retract file line (load_pending_review task pt) else load_pending_review task' pt)"
proof -
  note L = load_rows [OF keep_ok [OF assms]] load_rows [OF assms]
  have other: "filter (\<lambda>r. \<not> at_location task file line r) (rows_of t a pt) = rows_of t a pt"
    if "t \<noteq> task \<or> a \<noteq> Inline_Action" for t a
    using that by (intro filter_True) (auto simp: rows_of_def at_location_def)
  have "map inline_of (filter (\<lambda>r. \<not> at_location task file line r) (rows_of task Inline_Action pt))
      = filter (\<lambda>q. \<not> (pi_file q = file \<and> pi_line q = line)) (map inline_of (rows_of task Inline_Action pt))"
    unfolding filter_map using location_inline [OF assms]
    by (intro arg_cong [where f = "map inline_of"] filter_cong) auto
  then show ?thesis
    unfolding delete_pending_inline_def L rows_of_keep buffer_retract_def by (simp add: other)
qed

lemma load_comment:
  assumes "pending_ok pt"
  shows "load_pending_review task' (add_pending_comment task e c body pt) =
     (if task' = task \<and> \<not> list_ex (same_call task e c) (pt_rows pt)
      then buffer_reply body (load_pending_review task pt) else load_pending_review task' pt)"
  unfolding load_rows [OF add_comment_ok [OF assms]] load_rows [OF assms] buffer_reply_def
  by (auto simp: add_pending_comment_def text_row_def)

lemma load_summary:
  assumes "pending_ok pt"
  shows "load_pending_review task' (upsert_pending_summary task body pt) =
     (if task' = task then buffer_summary body (load_pending_review task pt) else load_pending_review task' pt)"
proof -
  note L = load_rows [OF upsert_summary_ok [OF assms, of task body]] load_rows [OF assms]
  have ex: "list_ex (is_summary task) (pt_rows pt) \<longleftrightarrow> rows_of task Summary_Action pt \<noteq> []"
    unfolding is_summary_rows [symmetric] by (simp add: filter_empty_conv list_ex_iff)
  have upd: "update_where (is_summary task) f (rows_of t a pt) = rows_of t a pt"
    if "t \<noteq> task \<or> a \<noteq> Summary_Action" for f t a
    using that by (intro update_where_id) (auto simp: rows_of_def list_all_iff is_summary_def)
  have mine: "update_where (is_summary task) f (rows_of task Summary_Action pt) = map f (rows_of task Summary_Action pt)" for f
    by (auto simp: update_where_def rows_of_def is_summary_def)
  have rows: "rows_of t a (upsert_pending_summary task body pt) =
     (if rows_of task Summary_Action pt \<noteq> []
      then update_where (is_summary task) (\<lambda>r. r\<lparr>pa_body := body\<rparr>) (rows_of t a pt)
      else rows_of t a pt @ (if t = task \<and> a = Summary_Action
             then [text_row task Summary_Action None None body (Suc (pt_seq pt))] else []))" for t a
    by (auto simp: upsert_pending_summary_def ex rows_of_update text_row_def)
  show ?thesis unfolding L rows buffer_summary_def
    by (auto simp: upd mine text_row_def split: list.splits)
qed

lemma load_clear:
  assumes "pending_ok pt"
  shows "load_pending_review task' (clear_pending_review task pt) =
     (if task' = task then empty_buffer else load_pending_review task' pt)"
proof -
  note L = load_rows [OF keep_ok [OF assms]] load_rows [OF assms]
  have "filter (\<lambda>r. pa_task r \<noteq> task) (rows_of task a pt) = []" for a
    by (auto simp: rows_of_def filter_empty_conv)
  moreover have "filter (\<lambda>r. pa_task r \<noteq> task) (rows_of t a pt) = rows_of t a pt" if "t \<noteq> task" for t a
    using that by (intro filter_True) (auto simp: rows_of_def)
  ultimately show ?thesis
    unfolding clear_pending_review_def L rows_of_keep empty_buffer_def by simp
qed

section \<open>Tool calls\<close>

datatype buffer_call =
  Add_Inline pending_inline
| Retract string int
| Add_Reply "string option" string
| Set_Summary string

fun apply_call :: "string \<Rightarrow> int option \<Rightarrow> buffer_call \<Rightarrow> pending_table \<Rightarrow> pending_table" where
  "apply_call task e (Add_Inline p) = upsert_pending_inline task p"
| "apply_call task e (Retract file line) = delete_pending_inline task file line"
| "apply_call task e (Add_Reply c body) = add_pending_comment task e c body"
| "apply_call task e (Set_Summary body) = upsert_pending_summary task body"

definition apply_calls :: "string \<Rightarrow> int option \<Rightarrow> buffer_call list \<Rightarrow> pending_table \<Rightarrow> pending_table" where
  "apply_calls task e cs = fold (apply_call task e) cs"

lemma apply_call_ok: "pending_ok pt \<Longrightarrow> pending_ok (apply_call task e c pt)"
  by (cases c) (simp_all add: upsert_inline_ok add_comment_ok upsert_summary_ok delete_pending_inline_def keep_ok)

lemma apply_calls_ok: "pending_ok pt \<Longrightarrow> pending_ok (apply_calls task e cs pt)"
  by (induction cs arbitrary: pt) (simp_all add: apply_calls_def apply_call_ok)

text \<open>What the buffer shows for calls whose replies carry distinct ids, or none.\<close>

fun show_call :: "buffer_call \<Rightarrow> pending_review \<Rightarrow> pending_review" where
  "show_call (Add_Inline p) b = buffer_inline p b"
| "show_call (Retract file line) b = buffer_retract file line b"
| "show_call (Add_Reply c body) b = buffer_reply body b"
| "show_call (Set_Summary body) b = buffer_summary body b"

definition reply_ids :: "buffer_call list \<Rightarrow> string list" where
  "reply_ids cs = List.map_filter (\<lambda>c. case c of Add_Reply i _ \<Rightarrow> i | _ \<Rightarrow> None) cs"

definition empty_pending :: pending_table where "empty_pending = \<lparr>pt_rows = [], pt_seq = 0\<rparr>"

definition call_ids :: "string \<Rightarrow> pending_table \<Rightarrow> string option set" where
  "call_ids task pt = pa_call_id ` set (rows_of task Comment_Action pt)"

section \<open>A run's calls\<close>

lemma fresh_reply:
  "i = None \<or> e = None \<or> i \<notin> call_ids task pt \<Longrightarrow> \<not> list_ex (same_call task e i) (pt_rows pt)"
  by (auto simp: list_ex_iff same_call_def call_ids_def rows_of_def)

lemma call_ids_apply:
  assumes "pending_ok pt"
  shows "call_ids task (apply_call task e c pt) \<subseteq>
     call_ids task pt \<union> (case c of Add_Reply i _ \<Rightarrow> {i} | _ \<Rightarrow> {})"
proof (cases c)
  case (Add_Inline p)
  have "rows_of task Comment_Action (upsert_pending_inline task p pt) = rows_of task Comment_Action pt"
    by (auto simp: upsert_pending_inline_def Let_def rows_of_update inline_row_def no_location)
  then show ?thesis using Add_Inline by (simp add: call_ids_def)
next
  case (Retract path line)
  then show ?thesis by (auto simp: call_ids_def delete_pending_inline_def rows_of_keep)
next
  case (Add_Reply i body)
  then show ?thesis by (auto simp: call_ids_def add_pending_comment_def text_row_def)
next
  case (Set_Summary body)
  have "update_where (is_summary task) f (rows_of task Comment_Action pt) = rows_of task Comment_Action pt" for f
    by (intro update_where_id) (auto simp: rows_of_def list_all_iff is_summary_def)
  then have "rows_of task Comment_Action (upsert_pending_summary task body pt) = rows_of task Comment_Action pt"
    by (auto simp: upsert_pending_summary_def rows_of_update text_row_def)
  then show ?thesis using Set_Summary by (simp add: call_ids_def)
qed

lemma load_call:
  assumes "pending_ok pt" "\<And>i body. c = Add_Reply (Some i) body \<Longrightarrow> Some i \<notin> call_ids task pt"
  shows "load_pending_review task' (apply_call task e c pt) =
     (if task' = task then show_call c (load_pending_review task pt) else load_pending_review task' pt)"
proof (cases c)
  case (Add_Reply i body)
  have "\<not> list_ex (same_call task e i) (pt_rows pt)"
    using assms(2) Add_Reply by (intro fresh_reply) (cases i; auto)
  then show ?thesis by (simp add: Add_Reply load_comment [OF assms(1)])
qed (simp_all add: load_upsert_inline load_retract load_summary assms(1))

lemma load_calls:
  assumes "pending_ok pt" "distinct (reply_ids cs)" "Some ` set (reply_ids cs) \<inter> call_ids task pt = {}"
  shows "load_pending_review task' (apply_calls task e cs pt) =
     (if task' = task then fold show_call cs (load_pending_review task pt) else load_pending_review task' pt)"
  using assms
proof (induction cs arbitrary: pt)
  case (Cons c cs)
  have r: "reply_ids (c # cs) = (case c of Add_Reply (Some i) _ \<Rightarrow> [i] | _ \<Rightarrow> []) @ reply_ids cs" for c
    by (auto simp: reply_ids_def List.map_filter_def split: buffer_call.splits option.splits)
  have now: "load_pending_review t (apply_call task e c pt) =
     (if t = task then show_call c (load_pending_review task pt) else load_pending_review t pt)" for t
    using Cons.prems by (intro load_call) (auto simp: r)
  have "Some ` set (reply_ids cs) \<inter> call_ids task (apply_call task e c pt) = {}"
    using Cons.prems call_ids_apply [OF Cons.prems(1), of task e c]
    by (fastforce simp: r split: buffer_call.splits option.splits)
  moreover have "distinct (reply_ids cs)" using Cons.prems(2) by (simp add: r)
  ultimately show ?case
    using Cons.IH [OF apply_call_ok [OF Cons.prems(1)]] now
    by (simp add: apply_calls_def)
qed (simp add: apply_calls_def)

text \<open>
  C28. The buffer table refines the tools' contract: after a fresh start of the task and any calls of
  its run (replies with distinct ids, or none), what the flush reads is exactly the abstract buffer of
  those calls (one finding per location, refined in place and gone when retracted; replies in call
  order; the last summary), and every other task's buffer reads as before.
\<close>

theorem flush_reads_the_calls:
  assumes "pending_ok pt" "distinct (reply_ids cs)"
  shows "load_pending_review task (apply_calls task e cs (clear_pending_review task pt)) = fold show_call cs empty_buffer
     \<and> (other = task \<or> load_pending_review other (apply_calls task e cs (clear_pending_review task pt))
          = load_pending_review other pt)"
proof -
  have ok: "pending_ok (clear_pending_review task pt)"
    using assms(1) by (simp add: clear_pending_review_def keep_ok)
  have "call_ids task (clear_pending_review task pt) = {}"
    by (auto simp: call_ids_def clear_pending_review_def rows_of_def keep_rows_def)
  then show ?thesis
    using load_calls [OF ok assms(2), of task] load_clear [OF assms(1), of _ task] by auto
qed

theorem flush_reads_the_calls_witness:
  "pv_comments (load_pending_review ''t'' (apply_calls ''t'' (Some 0)
      [Add_Reply (Some ''c1'') ''a'', Add_Reply (Some ''c2'') ''b'', Set_Summary ''s'']
      (clear_pending_review ''t'' empty_pending))) = [''a'', ''b'']"
proof -
  have "pending_ok empty_pending" by (simp add: pending_ok_def empty_pending_def)
  from flush_reads_the_calls [OF this, of "[Add_Reply (Some ''c1'') ''a'', Add_Reply (Some ''c2'') ''b'', Set_Summary ''s'']"
      "''t''" "Some 0" "''u''"]
  show ?thesis
    by (simp add: reply_ids_def List.map_filter_def buffer_reply_def buffer_summary_def empty_buffer_def)
qed

text \<open>A call that is repeated, as a resumed run may repeat its last one.\<close>

definition replay_safe :: "int option \<Rightarrow> buffer_call \<Rightarrow> bool" where
  "replay_safe e c = (case c of Add_Reply i _ \<Rightarrow> i \<noteq> None \<and> e \<noteq> None | _ \<Rightarrow> True)"

lemma upsert_twice: "update_where P (\<lambda>_. p) (update_where P (\<lambda>_. p) qs) = update_where P (\<lambda>_. p) qs"
  by (auto simp: update_where_def)

lemma buffer_inline_twice: "buffer_inline p (buffer_inline p b) = buffer_inline p b"
proof (cases "list_ex (same_place p) (pv_inline b)")
  case True
  have s: "same_place p p" by (simp add: same_place_def)
  have "list_ex (same_place p) (update_where (same_place p) (\<lambda>_. p) (pv_inline b))"
    using True s by (auto simp: list_ex_iff update_where_def)
  then show ?thesis using True by (simp add: buffer_inline_def upsert_twice)
next
  case False
  have s: "same_place p p" by (simp add: same_place_def)
  have "update_where (same_place p) (\<lambda>_. p) (pv_inline b) = pv_inline b"
    using False by (intro update_where_id) (simp add: list_all_iff list_ex_iff)
  then show ?thesis using False s by (simp add: buffer_inline_def update_where_def)
qed

text \<open>
  Repeating a write call leaves what the flush reads unchanged: the resumed run that executes its
  last call again adds no second finding, reply or summary, provided a reply carries its call id and
  the task's epoch is known.
\<close>

theorem repeated_call_is_silent:
  assumes "pending_ok pt" "replay_safe e c"
  shows "load_pending_review task' (apply_call task e c (apply_call task e c pt))
     = load_pending_review task' (apply_call task e c pt)"
proof (cases c)
  case (Add_Inline p)
  then show ?thesis
    by (simp add: load_upsert_inline [OF upsert_inline_ok [OF assms(1)]] load_upsert_inline [OF assms(1)] buffer_inline_twice)
next
  case (Retract path line)
  have ok: "pending_ok (delete_pending_inline task path line pt)"
    using assms(1) by (simp add: delete_pending_inline_def keep_ok)
  then show ?thesis using Retract by (simp add: load_retract [OF ok] load_retract [OF assms(1)] buffer_retract_def)
next
  case (Add_Reply i body)
  have "list_ex (same_call task e i) (pt_rows (add_pending_comment task e i body pt))"
    using assms(2) Add_Reply
    by (auto simp: add_pending_comment_def add_row_def text_row_def same_call_def replay_safe_def)
  then show ?thesis using Add_Reply by (simp add: load_comment [OF add_comment_ok [OF assms(1)]])
next
  case (Set_Summary body)
  then show ?thesis
    by (simp add: load_summary [OF upsert_summary_ok [OF assms(1)]] load_summary [OF assms(1)] buffer_summary_def)
qed

theorem repeated_call_is_silent_witness:
  "load_pending_review ''t'' (apply_call ''t'' (Some 1) (Add_Reply (Some ''c'') ''hi'')
       (apply_call ''t'' (Some 1) (Add_Reply (Some ''c'') ''hi'') empty_pending))
     = load_pending_review ''t'' (apply_call ''t'' (Some 1) (Add_Reply (Some ''c'') ''hi'') empty_pending)"
  by (rule repeated_call_is_silent) (simp_all add: pending_ok_def empty_pending_def replay_safe_def)

end
