(* ===== verification/Control_Db.thy ===== *)
theory Control_Db
  imports Outbox_Properties Pending_Review Durable_Steps
begin

text \<open>
  The control plane's database as one record of its tables, with the statements that join several of
  them: the task context (\<open>db/tasks.rs\<close>), the posted reviews and comment ids (\<open>db/reviews.rs\<close>), the
  reactions on them (\<open>db/feedback.rs\<close>) and the offloaded patches (\<open>db/durable_step.rs\<close>). Statements return
  the rows in insertion order where the query leaves the order open.
\<close>

section \<open>Tables\<close>

text \<open>The approval status of a repository is \<open>pending\<close>, \<open>approved\<close> or \<open>disabled\<close>.\<close>

datatype repo_status = Awaiting | Approved | Disabled

record repository =
  re_id :: int
  re_platform :: platform
  re_platform_repo_id :: int
  re_owner :: string
  re_name :: string
  re_default_branch :: string
  re_installation_id :: "int option"
  re_status :: repo_status
  re_approved_at :: "nat option"
  re_approved_by :: "string option"

record review_row =
  rw_task_id :: string
  rw_summary :: string
  rw_body :: string
  rw_inline_count :: int
  rw_deferred_count :: int
  rw_out_of_scope_count :: int
  rw_findings :: json
  rw_review_url :: "string option"
  rw_platform_review_id :: "int option"
  rw_created_at :: nat

record comment_ref =
  cm_platform_comment_id :: int
  cm_kind :: string
  cm_file :: "string option"
  cm_line :: "int option"

record comment_row =
  cw_task_id :: string
  cw_ref :: comment_ref
  cw_created_at :: nat

record feedback_row =
  fb_task_id :: string
  fb_comment_id :: int
  fb_kind :: string
  fb_reactor :: string
  fb_reaction :: string

record control_db =
  cd_tasks :: tasks
  cd_snapshots :: snapshots
  cd_repos :: "repository list"
  cd_outbox :: outbox_table
  cd_reviews :: "review_row list"
  cd_comments :: "comment_row list"
  cd_feedback :: "feedback_row list"
  cd_pending :: pending_table
  cd_steps :: step_table
  cd_blobs :: "(string \<times> string) list"

section \<open>Task context\<close>

record task_context =
  cx_id :: string
  cx_repository_id :: int
  cx_installation_id :: int
  cx_owner :: string
  cx_name :: string
  cx_default_branch :: string
  cx_platform :: platform
  cx_target_type :: string
  cx_target_id :: int
  cx_command_text :: string
  cx_kind :: string
  cx_preset :: string
  cx_entry_point :: string
  cx_base_sha :: "string option"
  cx_head_sha :: "string option"
  cx_trigger_comment_id :: "int option"
  cx_model_override :: "string option"
  cx_check_runs_enabled :: bool

definition get_task_context :: "control_db \<Rightarrow> string \<Rightarrow> task_context option" where
  "get_task_context db i =
     (case get_row (cd_tasks db) i of
        None \<Rightarrow> None
      | Some t \<Rightarrow>
          map_option (\<lambda>r. let nt = tk_task t in
             \<lparr>cx_id = tk_id t, cx_repository_id = nt_repository_id nt, cx_installation_id = nt_installation_id nt,
              cx_owner = re_owner r, cx_name = re_name r, cx_default_branch = re_default_branch r,
              cx_platform = re_platform r, cx_target_type = nt_target_type nt, cx_target_id = nt_target_id nt,
              cx_command_text = nt_command nt, cx_kind = tk_kind t, cx_preset = nt_preset nt,
              cx_entry_point = nt_entry_point nt, cx_base_sha = nt_base_sha nt, cx_head_sha = nt_head_sha nt,
              cx_trigger_comment_id = nt_trigger_comment_id nt, cx_model_override = nt_model_override nt,
              cx_check_runs_enabled = nt_check_runs_enabled nt\<rparr>)
            (find (\<lambda>r. re_id r = repo_of t) (cd_repos db)))"

definition target_of :: "string \<Rightarrow> task_context \<Rightarrow> target" where
  "target_of i c =
     \<lparr>tg_task_id = Some i, tg_platform = cx_platform c, tg_installation_id = cx_installation_id c,
      tg_owner = cx_owner c, tg_repo = cx_name c\<rparr>"

text \<open>An enqueue into the database's own outbox.\<close>

definition enqueue_db ::
  "nat \<Rightarrow> enqueue \<Rightarrow> control_db \<Rightarrow> (sql_error, bool) result \<times> control_db" where
  "enqueue_db now enq db =
     (let (res, ob) = enq now (cd_tasks db) (cd_outbox db) in (res, db\<lparr>cd_outbox := ob\<rparr>))"

section \<open>Reviews\<close>

definition upsert_review :: "review_row \<Rightarrow> review_row list \<Rightarrow> review_row list" where
  "upsert_review w ws =
     (if list_ex (\<lambda>x. rw_task_id x = rw_task_id w) ws
      then update_where (\<lambda>x. rw_task_id x = rw_task_id w) (\<lambda>_. w) ws
      else ws @ [w])"

definition insert_review_if_absent :: "review_row \<Rightarrow> review_row list \<Rightarrow> bool \<times> review_row list" where
  "insert_review_if_absent w ws =
     (if list_ex (\<lambda>x. rw_task_id x = rw_task_id w) ws then (False, ws) else (True, ws @ [w]))"

definition get_review :: "review_row list \<Rightarrow> string \<Rightarrow> review_row option" where
  "get_review ws i = row_of rw_task_id ws i"

definition get_review_url :: "review_row list \<Rightarrow> string \<Rightarrow> string option" where
  "get_review_url ws i = Option.bind (get_review ws i) rw_review_url"

definition for_task :: "string \<Rightarrow> outbox_row \<Rightarrow> bool" where
  "for_task i r \<longleftrightarrow> in_task_id (ob_intent r) = Some i"

definition has_review_intent_or_posted_review :: "control_db \<Rightarrow> string \<Rightarrow> bool" where
  "has_review_intent_or_posted_review db i \<longleftrightarrow>
     list_ex (\<lambda>r. for_task i r \<and> in_kind (ob_intent r) = ''review'') (ob_rows (cd_outbox db))
     \<or> list_ex (\<lambda>w. rw_task_id w = i \<and> rw_platform_review_id w \<noteq> None) (cd_reviews db)"

definition PRIOR_REVIEWS_CAP :: nat where "PRIOR_REVIEWS_CAP = 20"

text \<open>A review of the given target by another task.\<close>

definition reviews_target :: "tasks \<Rightarrow> int \<Rightarrow> string \<Rightarrow> int \<Rightarrow> string \<Rightarrow> review_row \<Rightarrow> bool" where
  "reviews_target ts repo target_type target_id i w =
     (case get_row ts (rw_task_id w) of
        None \<Rightarrow> False
      | Some t \<Rightarrow> repo_of t = repo \<and> nt_target_type (tk_task t) = target_type
                 \<and> nt_target_id (tk_task t) = target_id \<and> rw_task_id w \<noteq> i)"

definition all_prior_reviews_for_target ::
  "control_db \<Rightarrow> int \<Rightarrow> string \<Rightarrow> int \<Rightarrow> string \<Rightarrow> (nat \<times> string \<times> json) list" where
  "all_prior_reviews_for_target db repo target_type target_id i =
     (let prior = sort_key (\<lambda>w. (rw_created_at w, rw_task_id w))
                    (filter (reviews_target (cd_tasks db) repo target_type target_id i) (cd_reviews db))
      in take PRIOR_REVIEWS_CAP
           (rev (map (\<lambda>(n, w). (n + 1, rw_summary w, rw_findings w)) (List.enumerate 0 prior))))"

fun json_elements :: "json \<Rightarrow> json list" where
  "json_elements (JArr js) = js"
| "json_elements _ = []"

definition target_has_prior_findings :: "control_db \<Rightarrow> int \<Rightarrow> string \<Rightarrow> int \<Rightarrow> string \<Rightarrow> bool" where
  "target_has_prior_findings db repo target_type target_id i =
     list_ex (\<lambda>w. reviews_target (cd_tasks db) repo target_type target_id i w \<and> json_elements (rw_findings w) \<noteq> [])
       (cd_reviews db)"

definition head_of :: "tasks \<Rightarrow> string \<Rightarrow> string option" where
  "head_of ts i = Option.bind (get_row ts i) (\<lambda>t. nt_head_sha (tk_task t))"

definition queued_review_of :: "tasks \<Rightarrow> int \<Rightarrow> string \<Rightarrow> int \<Rightarrow> string \<Rightarrow> outbox_row \<Rightarrow> bool" where
  "queued_review_of ts repo target_type target_id i r \<longleftrightarrow>
     in_kind (ob_intent r) = ''review'' \<and> ob_status r = Pending
     \<and> (case in_task_id (ob_intent r) of
          None \<Rightarrow> False
        | Some j \<Rightarrow> (case get_row ts j of
                       None \<Rightarrow> False
                     | Some t \<Rightarrow> repo_of t = repo \<and> nt_target_type (tk_task t) = target_type
                                \<and> nt_target_id (tk_task t) = target_id \<and> j \<noteq> i))"

text \<open>A missing \<open>findings_json\<close> is SQL's \<open>NULL\<close>, which reads back as no findings.\<close>

definition posted_findings_for_target ::
  "control_db \<Rightarrow> int \<Rightarrow> string \<Rightarrow> int \<Rightarrow> string \<Rightarrow> (string option \<times> json) list" where
  "posted_findings_for_target db repo target_type target_id i =
     map (\<lambda>w. (head_of (cd_tasks db) (rw_task_id w), rw_findings w))
       (filter (reviews_target (cd_tasks db) repo target_type target_id i) (cd_reviews db))
     @ map (\<lambda>r. (Option.bind (in_task_id (ob_intent r)) (head_of (cd_tasks db)),
                 case json_get (in_payload (ob_intent r)) ''findings_json'' of None \<Rightarrow> JNull | Some v \<Rightarrow> v))
         (filter (queued_review_of (cd_tasks db) repo target_type target_id i) (ob_rows (cd_outbox db)))"

section \<open>Comments and reactions\<close>

definition store_review_comments ::
  "nat \<Rightarrow> string \<Rightarrow> comment_ref list \<Rightarrow> comment_row list \<Rightarrow> comment_row list" where
  "store_review_comments now i cs tab =
     fold (\<lambda>c tab.
        if list_ex (\<lambda>w. cm_kind (cw_ref w) = cm_kind c
             \<and> cm_platform_comment_id (cw_ref w) = cm_platform_comment_id c) tab
        then tab
        else tab @ [\<lparr>cw_task_id = i, cw_ref = c, cw_created_at = now\<rparr>]) cs tab"

definition has_responded_or_pending_content :: "control_db \<Rightarrow> string \<Rightarrow> bool" where
  "has_responded_or_pending_content db i \<longleftrightarrow>
     list_ex (\<lambda>w. rw_task_id w = i) (cd_reviews db)
     \<or> list_ex (\<lambda>w. cw_task_id w = i) (cd_comments db)
     \<or> list_ex (\<lambda>r. for_task i r \<and> in_kind (ob_intent r) \<in> {''review'', ''reply''}
                   \<and> ob_status r \<in> {Pending, Posted}) (ob_rows (cd_outbox db))"

definition feedback_key :: "string \<Rightarrow> string \<Rightarrow> string" where
  "feedback_key reactor reaction = reactor @ ''|'' @ reaction"

definition on_comment :: "int \<Rightarrow> string \<Rightarrow> feedback_row \<Rightarrow> bool" where
  "on_comment n kind f \<longleftrightarrow> fb_comment_id f = n \<and> fb_kind f = kind"

definition reconcile_comment_feedback ::
  "string \<Rightarrow> int \<Rightarrow> string \<Rightarrow> (string \<times> string) list \<Rightarrow> feedback_row list \<Rightarrow> feedback_row list" where
  "reconcile_comment_feedback i n kind reactions tab =
     (let inserted = fold (\<lambda>(reactor, reaction) tab.
            if list_ex (\<lambda>f. on_comment n kind f \<and> fb_reactor f = reactor \<and> fb_reaction f = reaction) tab
            then tab
            else tab @ [\<lparr>fb_task_id = i, fb_comment_id = n, fb_kind = kind, fb_reactor = reactor,
                         fb_reaction = reaction\<rparr>]) reactions tab;
          present = map (\<lambda>(u, c). feedback_key u c) reactions
      in filter (\<lambda>f. \<not> (on_comment n kind f \<and> feedback_key (fb_reactor f) (fb_reaction f) \<notin> set present)) inserted)"

section \<open>Offloaded patches\<close>

definition put_pr_open_blob :: "string \<Rightarrow> string \<Rightarrow> (string \<times> string) list \<Rightarrow> bool \<times> (string \<times> string) list" where
  "put_pr_open_blob hash patch tab =
     (if list_ex (\<lambda>(h, _). h = hash) tab then (False, tab) else (True, tab @ [(hash, patch)]))"

definition get_pr_open_blob :: "(string \<times> string) list \<Rightarrow> string \<Rightarrow> string option" where
  "get_pr_open_blob tab hash = map_option snd (row_of fst tab hash)"

section \<open>The keyed inserts keep the shared contract\<close>

lemma blob_taken: "list_ex (\<lambda>(h, _). h = hash) tab \<longleftrightarrow> get_pr_open_blob tab hash \<noteq> None"
  by (force simp: get_pr_open_blob_def row_of_None list_ex_iff)

interpretation blobs: keyed_insert put_pr_open_blob get_pr_open_blob
  by unfold_locales
    (auto simp: put_pr_open_blob_def blob_taken, auto simp: get_pr_open_blob_def row_of_append fun_eq_iff
      split: option.splits)

section \<open>Reactions mirror the platform\<close>

lemma feedback_key_inj:
  "CHR ''|'' \<notin> set u \<Longrightarrow> CHR ''|'' \<notin> set u' \<Longrightarrow> feedback_key u c = feedback_key u' c' \<longleftrightarrow> u = u' \<and> c = c'"
  by (auto simp: feedback_key_def append_eq_append_conv2 append_eq_Cons_conv Cons_eq_append_conv)

definition reactions_on :: "int \<Rightarrow> string \<Rightarrow> feedback_row list \<Rightarrow> (string \<times> string) set" where
  "reactions_on n kind tab = (\<lambda>f. (fb_reactor f, fb_reaction f)) ` set (filter (on_comment n kind) tab)"

definition insert_reaction ::
  "string \<Rightarrow> int \<Rightarrow> string \<Rightarrow> string \<times> string \<Rightarrow> feedback_row list \<Rightarrow> feedback_row list" where
  "insert_reaction i n kind = (\<lambda>(reactor, reaction) tab.
     if list_ex (\<lambda>f. on_comment n kind f \<and> fb_reactor f = reactor \<and> fb_reaction f = reaction) tab then tab
     else tab @ [\<lparr>fb_task_id = i, fb_comment_id = n, fb_kind = kind, fb_reactor = reactor, fb_reaction = reaction\<rparr>])"

lemma reactions_insert: "reactions_on n kind (insert_reaction i n kind p tab) = insert p (reactions_on n kind tab)"
proof (cases p)
  case (Pair a b)
  show ?thesis
  proof (cases "list_ex (\<lambda>f. on_comment n kind f \<and> fb_reactor f = a \<and> fb_reaction f = b) tab")
    case True
    then have "(a, b) \<in> reactions_on n kind tab" by (force simp: reactions_on_def list_ex_iff)
    then show ?thesis using True by (simp add: Pair insert_reaction_def insert_absorb)
  next
    case False
    then show ?thesis by (simp add: Pair insert_reaction_def reactions_on_def on_comment_def)
  qed
qed

lemma others_insert:
  "filter (\<lambda>f. \<not> on_comment n kind f) (insert_reaction i n kind p tab) = filter (\<lambda>f. \<not> on_comment n kind f) tab"
  by (cases p) (simp add: insert_reaction_def on_comment_def)

lemma reactions_inserts:
  "reactions_on n kind (fold (insert_reaction i n kind) ps tab) = set ps \<union> reactions_on n kind tab
   \<and> filter (\<lambda>f. \<not> on_comment n kind f) (fold (insert_reaction i n kind) ps tab)
       = filter (\<lambda>f. \<not> on_comment n kind f) tab"
  by (induction ps arbitrary: tab) (auto simp: reactions_insert others_insert)

text \<open>
  One poll makes the stored reactions of a comment exactly the platform's current set, withdrawn
  ones gone, and leaves every other comment's alone, provided no login contains the key separator.
\<close>

theorem poll_mirrors_reactions:
  assumes "\<forall>(u, c) \<in> set reactions \<union> reactions_on n kind tab. CHR ''|'' \<notin> set u"
  shows "reactions_on n kind (reconcile_comment_feedback i n kind reactions tab) = set reactions
     \<and> filter (\<lambda>f. \<not> on_comment n kind f) (reconcile_comment_feedback i n kind reactions tab)
         = filter (\<lambda>f. \<not> on_comment n kind f) tab"
proof -
  let ?ins = "fold (insert_reaction i n kind) reactions tab"
  let ?present = "map (\<lambda>(u, c). feedback_key u c) reactions"
  have eq: "reconcile_comment_feedback i n kind reactions tab =
      filter (\<lambda>f. \<not> (on_comment n kind f \<and> feedback_key (fb_reactor f) (fb_reaction f) \<notin> set ?present)) ?ins"
    by (simp add: reconcile_comment_feedback_def insert_reaction_def Let_def)
  have key: "feedback_key (fb_reactor f) (fb_reaction f) \<in> set ?present \<longleftrightarrow> (fb_reactor f, fb_reaction f) \<in> set reactions"
    if "f \<in> set ?ins" "on_comment n kind f" for f
  proof -
    have "(fb_reactor f, fb_reaction f) \<in> reactions_on n kind ?ins" using that by (auto simp: reactions_on_def)
    then have "CHR ''|'' \<notin> set (fb_reactor f)" using assms reactions_inserts [of n kind i reactions tab] by auto
    moreover have "CHR ''|'' \<notin> set u" if "(u, c) \<in> set reactions" for u c using assms that by auto
    ultimately show ?thesis by (force simp: feedback_key_inj)
  qed
  have kept: "reconcile_comment_feedback i n kind reactions tab =
      filter (\<lambda>f. \<not> (on_comment n kind f \<and> (fb_reactor f, fb_reaction f) \<notin> set reactions)) ?ins"
    unfolding eq by (rule filter_cong [OF refl]) (use key in blast)
  have "reactions_on n kind (reconcile_comment_feedback i n kind reactions tab)
      = reactions_on n kind ?ins \<inter> set reactions"
    unfolding kept reactions_on_def by auto
  then have "reactions_on n kind (reconcile_comment_feedback i n kind reactions tab) = set reactions"
    using reactions_inserts [of n kind i reactions tab] by auto
  moreover have "filter (\<lambda>f. \<not> on_comment n kind f) (reconcile_comment_feedback i n kind reactions tab)
      = filter (\<lambda>f. \<not> on_comment n kind f) ?ins"
    unfolding kept filter_filter by (rule filter_cong) auto
  ultimately show ?thesis using reactions_inserts [of n kind i reactions tab] by simp
qed

theorem poll_mirrors_reactions_witness:
  "reactions_on 7 ''inline'' (reconcile_comment_feedback ''t'' 7 ''inline'' [(''ann'', ''-1'')]
      [\<lparr>fb_task_id = ''t'', fb_comment_id = 7, fb_kind = ''inline'', fb_reactor = ''bob'', fb_reaction = ''+1''\<rparr>])
   = {(''ann'', ''-1'')}"
  using poll_mirrors_reactions [of "[(''ann'', ''-1'')]" 7 "''inline''"
      "[\<lparr>fb_task_id = ''t'', fb_comment_id = 7, fb_kind = ''inline'', fb_reactor = ''bob'', fb_reaction = ''+1''\<rparr>]" "''t''"]
  by (simp add: reactions_on_def on_comment_def)

end
