(* ===== verification/Reconciler.thy ===== *)
theory Reconciler
  imports Control_Db
begin

text \<open>
  The egress consumer (\<open>queue/reconciler.rs\<close>): one delivery per outbox row through the platform the row
  names, the bookkeeping that follows it, and the drain loop. The platform is a record of its calls on
  a world of its own (\<open>integrations/platform.rs\<close>); which of a delivery's own queries fail is the argument
  \<open>up\<close>; the hash that guards offloaded patches is a parameter.
\<close>

section \<open>The platform's interface\<close>

record repo_ref =
  rr_platform :: platform
  rr_full_name :: string
  rr_platform_repo_id :: int
  rr_installation_id :: int

definition owner_repo :: "repo_ref \<Rightarrow> string \<times> string" where
  "owner_repo r = (case rsplit_once ''/'' (rr_full_name r) of Some p \<Rightarrow> p | None \<Rightarrow> (rr_full_name r, ''''))"

record platform_comment =
  pc_path :: string
  pc_line :: nat
  pc_side :: string
  pc_start_line :: "nat option"
  pc_start_side :: "string option"
  pc_body :: string

record review_post =
  po_pr_number :: int
  po_review_body :: string
  po_comments :: "platform_comment list"
  po_labels :: "string list"

datatype reaction_target = On_Issue int | On_Comment int "int option"

record posted =
  ps_id :: "int option"
  ps_html_url :: "string option"

record posted_comment_ref =
  pr_id :: int
  pr_path :: "string option"
  pr_line :: "int option"

record check_run_resolution =
  ck_head_sha :: string
  ck_external_id :: "int option"
  ck_conclusion :: check_conclusion
  ck_title :: string
  ck_summary :: string
  ck_details_url :: "string option"

record 'w code_platform =
  api_post_review :: "repo_ref \<Rightarrow> review_post \<Rightarrow> 'w \<Rightarrow> (string, posted) result \<times> 'w"
  api_post_comment :: "repo_ref \<Rightarrow> int \<Rightarrow> string \<Rightarrow> string option \<Rightarrow> 'w \<Rightarrow> (string, posted) result \<times> 'w"
  api_add_reaction :: "repo_ref \<Rightarrow> reaction_target \<Rightarrow> string \<Rightarrow> string option \<Rightarrow> 'w \<Rightarrow> (string, unit) result \<times> 'w"
  api_add_labels :: "repo_ref \<Rightarrow> int \<Rightarrow> string list \<Rightarrow> 'w \<Rightarrow> (string, unit) result \<times> 'w"
  api_start_check_run :: "repo_ref \<Rightarrow> string \<Rightarrow> 'w \<Rightarrow> (string, int option) result \<times> 'w"
  api_resolve_check_run :: "repo_ref \<Rightarrow> check_run_resolution \<Rightarrow> 'w \<Rightarrow> (string, unit) result \<times> 'w"
  api_list_review_comments :: "repo_ref \<Rightarrow> int \<Rightarrow> int \<Rightarrow> 'w \<Rightarrow> (string, posted_comment_ref list) result \<times> 'w"

record review_section =
  rs_reactions :: "bool option"
  rs_label_reviewed :: "string option"
  rs_label_findings :: "string option"
  rs_label_error :: "string option"

definition reactions_enabled :: "review_section \<Rightarrow> bool" where
  "reactions_enabled r = (case rs_reactions r of None \<Rightarrow> True | Some b \<Rightarrow> b)"

text \<open>The queries a delivery makes besides claiming and marking; each is made at most once.\<close>

datatype delivery_query =
  Q_Responded | Q_Record_Comment | Q_Stale | Q_Set_Check_Run | Q_Check_Run_Id | Q_Review_Url
| Q_Upsert_Review | Q_Store_Comments | Q_Blob | Q_Mark

section \<open>Delivering one intent\<close>

definition quoted :: "string \<Rightarrow> string" where "quoted s = [CHR 0x22] @ s @ [CHR 0x22]"

definition payload_i64 :: "json \<Rightarrow> string \<Rightarrow> (string, int) result" where
  "payload_i64 v key = (case Option.bind (json_get v key) as_i64 of
     Some n \<Rightarrow> Inr n | None \<Rightarrow> Inl (''outbox payload missing i64 '' @ quoted key))"

definition payload_str :: "json \<Rightarrow> string \<Rightarrow> (string, string) result" where
  "payload_str v key = (case Option.bind (json_get v key) as_str of
     Some s \<Rightarrow> Inr s | None \<Rightarrow> Inl (''outbox payload missing str '' @ quoted key))"

type_synonym 'w delivery = "control_db \<Rightarrow> 'w \<Rightarrow> (string, int option) result \<times> control_db \<times> 'w"

definition record_comment ::
  "(delivery_query \<Rightarrow> bool) \<Rightarrow> nat \<Rightarrow> string option \<Rightarrow> int option \<Rightarrow> string \<Rightarrow> control_db \<Rightarrow> control_db" where
  "record_comment up now task_id n kind db =
     (case (task_id, n) of
        (Some i, Some cid) \<Rightarrow>
          if up Q_Record_Comment \<and> id_taken (cd_tasks db) i
          then db\<lparr>cd_comments := store_review_comments now i
                 [\<lparr>cm_platform_comment_id = cid, cm_kind = kind, cm_file = None, cm_line = None\<rparr>] (cd_comments db)\<rparr>
          else db
      | _ \<Rightarrow> db)"

definition deliver_reaction :: "'w code_platform \<Rightarrow> repo_ref \<Rightarrow> json \<Rightarrow> string option \<Rightarrow> 'w delivery" where
  "deliver_reaction P repo payload noteable db w =
     (case payload_str payload ''content'' of
        Inl e \<Rightarrow> (Inl e, db, w)
      | Inr content \<Rightarrow>
          (let react = (\<lambda>target. case api_add_reaction P repo target content noteable w of
                 (Inl e, w') \<Rightarrow> (Inl e, db, w') | (Inr _, w') \<Rightarrow> (Inr None, db, w')) in
           case Option.bind (json_get payload ''comment_id'') as_i64 of
             Some cid \<Rightarrow> react (On_Comment cid (Option.bind (json_get payload ''issue'') as_i64))
           | None \<Rightarrow> (case payload_i64 payload ''issue'' of
                        Inl e \<Rightarrow> (Inl e, db, w)
                      | Inr issue \<Rightarrow> react (On_Issue issue))))"

definition deliver_comment ::
  "(delivery_query \<Rightarrow> bool) \<Rightarrow> nat \<Rightarrow> 'w code_platform \<Rightarrow> repo_ref \<Rightarrow> string option \<Rightarrow> json \<Rightarrow> string option
   \<Rightarrow> string \<Rightarrow> 'w delivery" where
  "deliver_comment up now P repo task_id payload noteable kind db w =
     (case payload_i64 payload ''issue'' of
        Inl e \<Rightarrow> (Inl e, db, w)
      | Inr issue \<Rightarrow>
          (case payload_str payload ''body'' of
             Inl e \<Rightarrow> (Inl e, db, w)
           | Inr body \<Rightarrow>
               (case api_post_comment P repo issue body noteable w of
                  (Inl e, w') \<Rightarrow> (Inl e, db, w')
                | (Inr p, w') \<Rightarrow> (Inr (ps_id p), record_comment up now task_id (ps_id p) kind db, w'))))"

definition responded :: "(delivery_query \<Rightarrow> bool) \<Rightarrow> string option \<Rightarrow> control_db \<Rightarrow> bool" where
  "responded up task_id db =
     (case task_id of
        None \<Rightarrow> False
      | Some i \<Rightarrow> up Q_Responded \<and> has_responded_or_pending_content db i)"

definition check_run_task_is_stale :: "(delivery_query \<Rightarrow> bool) \<Rightarrow> string option \<Rightarrow> control_db \<Rightarrow> bool" where
  "check_run_task_is_stale up task_id db =
     (case task_id of
        None \<Rightarrow> False
      | Some i \<Rightarrow> up Q_Stale \<and> \<not> should_report_check_run (cd_tasks db) i)"

definition deliver_check_run_start ::
  "(delivery_query \<Rightarrow> bool) \<Rightarrow> 'w code_platform \<Rightarrow> repo_ref \<Rightarrow> intent \<Rightarrow> 'w delivery" where
  "deliver_check_run_start up P repo i db w =
     (if check_run_task_is_stale up (in_task_id i) db then (Inr None, db, w)
      else case decode_check_run_start (in_payload i) of
        None \<Rightarrow> (Inl ''invalid payload'', db, w)
      | Some (pr, sha) \<Rightarrow>
          (case api_start_check_run P repo sha w of
             (Inl e, w') \<Rightarrow> (Inl e, db, w')
           | (Inr external, w') \<Rightarrow>
               (Inr external,
                (case (in_task_id i, external) of
                   (Some task, Some n) \<Rightarrow>
                     if up Q_Set_Check_Run then db\<lparr>cd_tasks := set_check_run_external_id task n (cd_tasks db)\<rparr> else db
                 | _ \<Rightarrow> db), w')))"

definition deliver_check_run_resolve ::
  "(delivery_query \<Rightarrow> bool) \<Rightarrow> 'w code_platform \<Rightarrow> repo_ref \<Rightarrow> intent \<Rightarrow> 'w delivery" where
  "deliver_check_run_resolve up P repo i db w =
     (if check_run_task_is_stale up (in_task_id i) db then (Inr None, db, w)
      else case decode_check_run_resolve (in_payload i) of
        None \<Rightarrow> (Inl ''invalid payload'', db, w)
      | Some p \<Rightarrow>
          (let resolution =
             \<lparr>ck_head_sha = cr_head_sha p,
              ck_external_id = (if up Q_Check_Run_Id
                                then Option.bind (in_task_id i) (get_check_run_external_id (cd_tasks db)) else None),
              ck_conclusion = cr_conclusion p, ck_title = cr_title p, ck_summary = cr_summary p,
              ck_details_url = (if up Q_Review_Url
                                then Option.bind (in_task_id i) (get_review_url (cd_reviews db)) else None)\<rparr> in
           case api_resolve_check_run P repo resolution w of
             (Inl e, w') \<Rightarrow> (Inl e, db, w')
           | (Inr _, w') \<Rightarrow> (Inr None, db, w')))"

definition platform_comment_of :: "review_comment_payload \<Rightarrow> platform_comment" where
  "platform_comment_of c =
     \<lparr>pc_path = rc_path c, pc_line = rc_line c, pc_side = ''RIGHT'', pc_start_line = rc_start_line c,
      pc_start_side = map_option (\<lambda>_. ''RIGHT'') (rc_start_line c), pc_body = rc_body c\<rparr>"

definition outcome_labels :: "review_section \<Rightarrow> review_payload \<Rightarrow> string list" where
  "outcome_labels cfg p =
     (case rs_label_reviewed cfg of None \<Rightarrow> [] | Some l \<Rightarrow> [l])
     @ (case rs_label_findings cfg of None \<Rightarrow> [] | Some l \<Rightarrow> if rp_label_findings p then [l] else [])
     @ (case rs_label_error cfg of None \<Rightarrow> [] | Some l \<Rightarrow> if rp_label_error p then [l] else [])"

definition persist_posted_review ::
  "(delivery_query \<Rightarrow> bool) \<Rightarrow> nat \<Rightarrow> string \<Rightarrow> review_payload \<Rightarrow> posted \<Rightarrow> control_db \<Rightarrow> control_db" where
  "persist_posted_review up now i p ps db =
     (if up Q_Upsert_Review \<and> id_taken (cd_tasks db) i
      then db\<lparr>cd_reviews := upsert_review
             \<lparr>rw_task_id = i, rw_summary = rp_summary p, rw_body = rp_body p, rw_inline_count = rp_inline_n p,
              rw_deferred_count = rp_deferred_n p, rw_out_of_scope_count = rp_out_of_scope_n p,
              rw_findings = rp_findings_json p, rw_review_url = ps_html_url ps,
              rw_platform_review_id = ps_id ps, rw_created_at = now\<rparr> (cd_reviews db)\<rparr>
      else db)"

text \<open>A line number is truncated to 32 bits as \<open>as i32\<close> does.\<close>

definition as_i32_wrap :: "int \<Rightarrow> int" where
  "as_i32_wrap n = (n + 2 ^ 31) mod 2 ^ 32 - 2 ^ 31"

definition inline_ref :: "posted_comment_ref \<Rightarrow> comment_ref" where
  "inline_ref c = \<lparr>cm_platform_comment_id = pr_id c, cm_kind = ''inline'', cm_file = pr_path c,
     cm_line = map_option as_i32_wrap (pr_line c)\<rparr>"

definition fetch_inline_ids ::
  "(delivery_query \<Rightarrow> bool) \<Rightarrow> nat \<Rightarrow> 'w code_platform \<Rightarrow> repo_ref \<Rightarrow> string \<Rightarrow> int \<Rightarrow> int
   \<Rightarrow> control_db \<Rightarrow> 'w \<Rightarrow> control_db \<times> 'w" where
  "fetch_inline_ids up now P repo i pr review_id db w =
     (case api_list_review_comments P repo pr review_id w of
        (Inl _, w') \<Rightarrow> (db, w')
      | (Inr refs, w') \<Rightarrow>
          (if up Q_Store_Comments \<and> id_taken (cd_tasks db) i
           then db\<lparr>cd_comments := store_review_comments now i (map inline_ref refs) (cd_comments db)\<rparr> else db, w'))"

definition deliver_review ::
  "(delivery_query \<Rightarrow> bool) \<Rightarrow> nat \<Rightarrow> 'w code_platform \<Rightarrow> review_section \<Rightarrow> repo_ref \<Rightarrow> intent \<Rightarrow> 'w delivery" where
  "deliver_review up now P cfg repo i db w =
     (case decode_review (in_payload i) of
        None \<Rightarrow> (Inl ''invalid payload'', db, w)
      | Some p \<Rightarrow>
          (case api_post_review P repo
                  \<lparr>po_pr_number = rp_pr p, po_review_body = rp_body p,
                   po_comments = map platform_comment_of (rp_comments p), po_labels = []\<rparr> w of
             (Inl e, w1) \<Rightarrow> (Inl e, db, w1)
           | (Inr ps, w1) \<Rightarrow>
               (let (db2, w2) =
                  (case in_task_id i of
                     None \<Rightarrow> (db, w1)
                   | Some task \<Rightarrow>
                       (let db1 = persist_posted_review up now task p ps db in
                        case ps_id ps of
                          None \<Rightarrow> (db1, w1)
                        | Some review_id \<Rightarrow> fetch_inline_ids up now P repo task (rp_pr p) review_id db1 w1));
                    labels = outcome_labels cfg p;
                    w3 = (if labels = [] then w2 else snd (api_add_labels P repo (rp_pr p) labels w2))
                in (Inr (ps_id ps), db2, w3))))"

text \<open>Opening a pull request is refused after the patch has been verified: the push is not activated.\<close>

definition deliver_pr_open ::
  "(delivery_query \<Rightarrow> bool) \<Rightarrow> (string \<Rightarrow> string) \<Rightarrow> intent \<Rightarrow> 'w delivery" where
  "deliver_pr_open up sha256 i db w =
     (case decode_pr_open (in_payload i) of
        None \<Rightarrow> (Inl ''invalid payload'', db, w)
      | Some p \<Rightarrow>
          (if \<not> up Q_Blob then (Inl ''query error'', db, w)
           else case get_pr_open_blob (cd_blobs db) (po_content_hash p) of
             None \<Rightarrow> (Inl (''pr_open blob '' @ po_content_hash p @ '' was pruned before delivery''), db, w)
           | Some patch \<Rightarrow>
               (if sha256 patch \<noteq> po_content_hash p
                then (Inl (''pr_open blob hash mismatch (offload corruption): expected '' @ po_content_hash p
                           @ '', got '' @ sha256 patch), db, w)
                else (Inl ''open-mode pr_open egress is not activated (ADR-0088)'', db, w))))"

definition deliver ::
  "(delivery_query \<Rightarrow> bool) \<Rightarrow> (string \<Rightarrow> string) \<Rightarrow> nat \<Rightarrow> 'w code_platform \<Rightarrow> review_section \<Rightarrow> repo_ref
   \<Rightarrow> intent \<Rightarrow> 'w delivery" where
  "deliver up sha256 now P cfg repo i db w =
     (let payload = in_payload i;
          noteable = Option.bind (json_get payload ''target_type'') as_str;
          kind = in_kind i in
      if kind = ''reaction'' then deliver_reaction P repo payload noteable db w
      else if kind = ''reply'' then deliver_comment up now P repo (in_task_id i) payload noteable ''reply'' db w
      else if kind = ''failure_notice'' then
        (if responded up (in_task_id i) db then (Inr None, db, w)
         else deliver_comment up now P repo (in_task_id i) payload noteable ''failure_notice'' db w)
      else if kind = ''review'' then deliver_review up now P cfg repo i db w
      else if kind = ''check_run_start'' then deliver_check_run_start up P repo i db w
      else if kind = ''check_run_resolve'' then deliver_check_run_resolve up P repo i db w
      else if kind = ''pr_open'' then deliver_pr_open up sha256 i db w
      else (Inl (''unknown outbox kind '' @ quoted kind), db, w))"

section \<open>Draining\<close>

definition DRAIN_BATCH :: nat where "DRAIN_BATCH = 50"

definition row_repo :: "outbox_row \<Rightarrow> repo_ref" where
  "row_repo r = (let i = ob_intent r in
     \<lparr>rr_platform = in_platform i, rr_full_name = in_owner i @ ''/'' @ in_repo i, rr_platform_repo_id = 0,
      rr_installation_id = in_installation_id i\<rparr>)"

record 'w reconciler =
  rc_platforms :: "platform \<Rightarrow> 'w code_platform option"
  rc_review :: review_section
  rc_sha256 :: "string \<Rightarrow> string"

text \<open>One row: its delivery, then the mark, whose own failure is only logged. The step wrapper around
  the transition is the passthrough runtime.\<close>

definition mark_row :: "bool \<Rightarrow> (outbox_table \<Rightarrow> outbox_table) \<Rightarrow> control_db \<Rightarrow> control_db" where
  "mark_row ok f db = (if ok then db\<lparr>cd_outbox := f (cd_outbox db)\<rparr> else db)"

definition drain_row ::
  "'w reconciler \<Rightarrow> (delivery_query \<Rightarrow> bool) \<Rightarrow> nat \<Rightarrow> outbox_row \<Rightarrow> control_db \<times> 'w \<Rightarrow> bool \<times> control_db \<times> 'w" where
  "drain_row R up now r = (\<lambda>(db, w).
     case rc_platforms R (in_platform (ob_intent r)) of
       None \<Rightarrow> (False, mark_row (up Q_Mark) (mark_outbox_failed now (ob_id r) ''no platform implementation'') db, w)
     | Some P \<Rightarrow>
         (case deliver up (rc_sha256 R) now P (rc_review R) (row_repo r) (ob_intent r) db w of
            (Inr ref, db', w') \<Rightarrow>
              (ref \<noteq> None, mark_row (up Q_Mark) (mark_outbox_posted now (ob_id r) ref) db', w')
          | (Inl e, db', w') \<Rightarrow>
              (False, mark_row (up Q_Mark) (mark_outbox_failed now (ob_id r) e) db', w')))"

fun drain_rows ::
  "'w reconciler \<Rightarrow> (nat \<Rightarrow> delivery_query \<Rightarrow> bool) \<Rightarrow> nat \<Rightarrow> outbox_row list \<Rightarrow> control_db \<times> 'w
   \<Rightarrow> nat \<times> control_db \<times> 'w" where
  "drain_rows R up now [] s = (0, s)"
| "drain_rows R up now (r # rs) s =
     (let (b, s') = drain_row R (up (ob_id r)) now r s;
          (n, s'') = drain_rows R up now rs s'
      in ((if b then 1 else 0) + n, s''))"

definition drain_once ::
  "'w reconciler \<Rightarrow> bool \<Rightarrow> (nat \<Rightarrow> delivery_query \<Rightarrow> bool) \<Rightarrow> nat \<Rightarrow> control_db \<times> 'w
   \<Rightarrow> (sql_error, nat) result \<times> control_db \<times> 'w" where
  "drain_once R claim_ok up now s =
     (if \<not> claim_ok then (Inl Unavailable, s)
      else let (n, s') = drain_rows R up now (claim_outbox_batch now DRAIN_BATCH (cd_outbox (fst s))) s
           in (Inr n, s'))"

text \<open>The loop that drains batch after batch until one posts nothing; \<open>clock k\<close> is the time of pass
  \<open>k\<close>. It may not end, so it is fuelled; running out of fuel is \<open>None\<close>.\<close>

fun drain_all ::
  "nat \<Rightarrow> 'w reconciler \<Rightarrow> (nat \<Rightarrow> bool) \<Rightarrow> (nat \<Rightarrow> nat \<Rightarrow> delivery_query \<Rightarrow> bool) \<Rightarrow> (nat \<Rightarrow> nat) \<Rightarrow> nat
   \<Rightarrow> control_db \<times> 'w \<Rightarrow> (control_db \<times> 'w) option" where
  "drain_all 0 R claim_ok up clock k s = None"
| "drain_all (Suc fuel) R claim_ok up clock k s =
     (case drain_once R (claim_ok k) (up k) (clock k) s of
        (Inl _, s') \<Rightarrow> Some s'
      | (Inr n, s') \<Rightarrow> if n = 0 then Some s' else drain_all fuel R claim_ok up clock (Suc k) s')"

end
