(* ===== verification/Queue_Workers.thy ===== *)
theory Queue_Workers
  imports Control_Db Reconciler
begin

text \<open>
  The dispatcher and the reaper (\<open>queue/dispatcher.rs\<close>, \<open>queue/reaper.rs\<close>): claiming due tasks and launching
  a Job for each, and reconciling tasks whose lease has run out with what became of their Jobs. The
  cluster is a record of its calls on a world of its own; which queries the database answers is the
  argument \<open>up\<close>. The step wrapper around a dispatch is the passthrough runtime.
\<close>

section \<open>The cluster\<close>

datatype job_liveness = Job_Active | Job_Succeeded | Job_Failed | Job_Gone

record 'w task_launcher =
  tl_launch :: "task_row \<Rightarrow> 'w \<Rightarrow> (string, string) result \<times> 'w"
  tl_job_liveness :: "string \<Rightarrow> 'w \<Rightarrow> (string, job_liveness) result \<times> 'w"
  tl_delete_job :: "string \<Rightarrow> 'w \<Rightarrow> (string, unit) result \<times> 'w"

text \<open>Liveness as it is read off a Job's conditions (\<open>integrations/k8s.rs\<close>), \<open>None\<close> being no Job.\<close>

definition liveness_of :: "(string \<times> string) list option \<Rightarrow> job_liveness" where
  "liveness_of job =
     (case job of
        None \<Rightarrow> Job_Gone
      | Some conditions \<Rightarrow>
          (let is_true = (\<lambda>c. list_ex (\<lambda>(ty, status). ty = c \<and> status = ''True'') conditions) in
           if is_true ''Complete'' then Job_Succeeded
           else if is_true ''Failed'' then Job_Failed
           else Job_Active))"

definition job_name_of :: "string \<Rightarrow> string" where
  "job_name_of i = ''lightbridge-agent-'' @ i"

datatype worker_query =
  W_Set_Job | W_Release | W_Renew | W_Status | W_Clear_Job | W_Context | W_Reaction | W_Notice | W_Check

abbreviation on_tasks :: "(tasks \<Rightarrow> tasks) \<Rightarrow> control_db \<Rightarrow> control_db" where
  "on_tasks f db \<equiv> db\<lparr>cd_tasks := f (cd_tasks db)\<rparr>"

definition apply_status :: "nat \<Rightarrow> string \<Rightarrow> task_status \<Rightarrow> string option \<Rightarrow> control_db \<Rightarrow> control_db" where
  "apply_status now i status detail db =
     (let (_, ts, s) = set_task_status now i status detail (cd_tasks db, cd_snapshots db)
      in db\<lparr>cd_tasks := ts, cd_snapshots := s\<rparr>)"

text \<open>An enqueue whose failure is only logged.\<close>

definition best_effort :: "bool \<Rightarrow> nat \<Rightarrow> enqueue \<Rightarrow> control_db \<Rightarrow> control_db" where
  "best_effort ok now enq db = (if ok then snd (enqueue_db now enq db) else db)"

section \<open>Dispatcher configuration\<close>

record dispatcher_section =
  ds_claim_lease :: "nat option"
  ds_poll_fallback :: "nat option"
  ds_launch_backoff :: "nat option"
  ds_reap_interval :: "nat option"
  ds_prune_interval :: "nat option"
  ds_purge_interval :: "nat option"
  ds_posted_retention :: "int option"
  ds_failed_retention :: "int option"
  ds_payload_retention :: "int option"
  ds_payload_batch :: "int option"

record dispatcher_config =
  dc_claim_lease :: nat
  dc_poll_fallback :: nat
  dc_launch_backoff :: nat
  dc_reap_interval :: nat
  dc_prune_interval :: nat
  dc_purge_interval :: nat
  dc_posted_retention :: int
  dc_failed_retention :: int
  dc_a2a_ttl :: int
  dc_a2a_batch :: int
  dc_payload_retention :: int
  dc_payload_batch :: int

definition secs_or :: "nat option \<Rightarrow> nat \<Rightarrow> nat" where
  "secs_or v dflt = (case v of Some s \<Rightarrow> if s > 0 then s else dflt | None \<Rightarrow> dflt)"

definition days_or :: "int option \<Rightarrow> int \<Rightarrow> int" where
  "days_or v dflt = (case v of Some d \<Rightarrow> if d > 0 then d else dflt | None \<Rightarrow> dflt)"

text \<open>\<open>env\<close> is the process environment, \<open>parse_i64\<close> the standard library's integer parser; a missing
  section is the section with every field unset.\<close>

definition no_section :: dispatcher_section where
  "no_section = \<lparr>ds_claim_lease = None, ds_poll_fallback = None, ds_launch_backoff = None,
     ds_reap_interval = None, ds_prune_interval = None, ds_purge_interval = None,
     ds_posted_retention = None, ds_failed_retention = None, ds_payload_retention = None,
     ds_payload_batch = None\<rparr>"

definition from_file_with_env ::
  "(string \<Rightarrow> int option) \<Rightarrow> (string \<Rightarrow> string option) \<Rightarrow> dispatcher_section option \<Rightarrow> dispatcher_config" where
  "from_file_with_env parse_i64 env section_opt =
     (let s = (case section_opt of Some s \<Rightarrow> s | None \<Rightarrow> no_section);
          env_days = (\<lambda>name. days_or (Option.bind (env name) parse_i64)) in
      \<lparr>dc_claim_lease = secs_or (ds_claim_lease s) 60,
       dc_poll_fallback = secs_or (ds_poll_fallback s) 5,
       dc_launch_backoff = secs_or (ds_launch_backoff s) 30,
       dc_reap_interval = secs_or (ds_reap_interval s) 30,
       dc_prune_interval = secs_or (ds_prune_interval s) 600,
       dc_purge_interval = secs_or (ds_purge_interval s) 600,
       dc_posted_retention = days_or (ds_posted_retention s) 7,
       dc_failed_retention = days_or (ds_failed_retention s) 30,
       dc_a2a_ttl = env_days ''A2A_TASK_TTL_DAYS'' 30,
       dc_a2a_batch = env_days ''A2A_TASK_SWEEP_BATCH'' 500,
       dc_payload_retention = days_or (ds_payload_retention s) 7,
       dc_payload_batch = days_or (ds_payload_batch s) 5000\<rparr>)"

section \<open>Dispatching\<close>

definition react_work_started ::
  "(worker_query \<Rightarrow> bool) \<Rightarrow> nat \<Rightarrow> review_section \<Rightarrow> task_row \<Rightarrow> control_db \<Rightarrow> control_db" where
  "react_work_started up now cfg t db =
     (if \<not> reactions_enabled cfg \<or> command_of t = INDEX \<or> \<not> up W_Context then db
      else case get_task_context db (tk_id t) of
        None \<Rightarrow> db
      | Some c \<Rightarrow>
          (if cx_target_type c \<noteq> PULL_REQUEST \<and> cx_trigger_comment_id c = None then db
           else best_effort (up W_Reaction) now
                  (enqueue_reaction (target_of (tk_id t) c) (cx_target_id c) ''eyes'' (cx_trigger_comment_id c)
                     (cx_target_type c)) db))"

definition start_check_run_signal ::
  "(worker_query \<Rightarrow> bool) \<Rightarrow> nat \<Rightarrow> task_row \<Rightarrow> control_db \<Rightarrow> control_db" where
  "start_check_run_signal up now t db =
     (if command_of t = INDEX \<or> nt_target_type (tk_task t) \<noteq> PULL_REQUEST then db
      else case nt_head_sha (tk_task t) of
        None \<Rightarrow> db
      | Some head_sha \<Rightarrow>
          (if \<not> up W_Context then db
           else case get_task_context db (tk_id t) of
             None \<Rightarrow> db
           | Some c \<Rightarrow>
               (if \<not> cx_check_runs_enabled c then db
                else best_effort (up W_Check) now
                       (enqueue_check_run_start (target_of (tk_id t) c) (cx_target_id c) head_sha) db)))"

definition dispatch_task ::
  "(worker_query \<Rightarrow> bool) \<Rightarrow> nat \<Rightarrow> 'w task_launcher \<Rightarrow> dispatcher_config \<Rightarrow> review_section \<Rightarrow> task_row
   \<Rightarrow> control_db \<times> 'w \<Rightarrow> control_db \<times> 'w" where
  "dispatch_task up now L dc cfg t = (\<lambda>(db, w).
     case tl_launch L t w of
       (Inr job, w') \<Rightarrow>
         (let db1 = (if up W_Set_Job then on_tasks (set_task_job (tk_id t) job) db else db);
              db2 = react_work_started up now cfg t db1;
              db3 = start_check_run_signal up now t db2
          in (db3, w'))
     | (Inl _, w') \<Rightarrow>
         ((if up W_Release then on_tasks (\<lambda>ts. snd (release_task now (tk_id t) (dc_launch_backoff dc) ts)) db else db), w'))"

text \<open>The claim loop, fuelled because it runs as long as tasks are due: pass \<open>k\<close> claims at \<open>clock k\<close>,
  skipping the rows other replicas have locked then; a claim that fails ends it.\<close>

fun dispatch_drain ::
  "nat \<Rightarrow> (nat \<Rightarrow> bool) \<Rightarrow> (nat \<Rightarrow> string set) \<Rightarrow> (nat \<Rightarrow> worker_query \<Rightarrow> bool) \<Rightarrow> (nat \<Rightarrow> nat) \<Rightarrow> string
   \<Rightarrow> 'w task_launcher \<Rightarrow> dispatcher_config \<Rightarrow> review_section \<Rightarrow> nat \<Rightarrow> control_db \<times> 'w \<Rightarrow> (control_db \<times> 'w) option" where
  "dispatch_drain 0 claim_ok locked up clock owner L dc cfg k s = None"
| "dispatch_drain (Suc fuel) claim_ok locked up clock owner L dc cfg k s =
     (if \<not> claim_ok k then Some s
      else case claim_next_task (clock k) owner (dc_claim_lease dc) (locked k) (cd_tasks (fst s)) of
        (None, _) \<Rightarrow> Some s
      | (Some t, ts) \<Rightarrow>
          dispatch_drain fuel claim_ok locked up clock owner L dc cfg (Suc k)
            (dispatch_task (up k) (clock k) L dc cfg t ((fst s)\<lparr>cd_tasks := ts\<rparr>, snd s)))"

section \<open>Reaping\<close>

definition MAX_ATTEMPTS :: nat where "MAX_ATTEMPTS = 5"
definition LEASE_RENEWAL :: nat where "LEASE_RENEWAL = 120"
definition REAP_BATCH :: nat where "REAP_BATCH = 100"

datatype reap_action = Renew_Lease | Mark_Succeeded | Requeue | Give_Up

fun decide :: "job_liveness \<Rightarrow> nat \<Rightarrow> nat \<Rightarrow> reap_action" where
  "decide Job_Active attempts max_attempts = Renew_Lease"
| "decide Job_Succeeded attempts max_attempts = Mark_Succeeded"
| "decide Job_Failed attempts max_attempts = (if attempts < max_attempts then Requeue else Give_Up)"
| "decide Job_Gone attempts max_attempts = (if attempts < max_attempts then Requeue else Give_Up)"

definition requeue_backoff :: "nat \<Rightarrow> nat" where
  "requeue_backoff attempts = min (15 * 2 ^ (min (max attempts 1) 16 - 1)) 600"

definition reap_detail :: string where
  "reap_detail = ''Stuck task exhausted retries; failed by the reaper after its Job stopped reporting.''"

definition delete_dead_job :: "'w task_launcher \<Rightarrow> task_row \<Rightarrow> 'w \<Rightarrow> 'w" where
  "delete_dead_job L t w = (case tk_job_name t of None \<Rightarrow> w | Some name \<Rightarrow> snd (tl_delete_job L name w))"

definition enqueue_resolution ::
  "bool \<Rightarrow> nat \<Rightarrow> string \<Rightarrow> task_context \<Rightarrow> check_conclusion \<Rightarrow> string \<times> string \<Rightarrow> control_db \<Rightarrow> control_db" where
  "enqueue_resolution ok now i c conclusion output db =
     (case cx_head_sha c of
        None \<Rightarrow> db
      | Some head_sha \<Rightarrow>
          (if \<not> cx_check_runs_enabled c then db
           else best_effort ok now
                  (enqueue_check_run_resolve (target_of i c) (cx_target_id c) head_sha conclusion (fst output)
                     (snd output)) db))"

text \<open>The reaction, the notice and the check resolution of a failed pull-request task. The reaper and
  the status report of a failing run enqueue the same three.\<close>

definition enqueue_failure ::
  "(worker_query \<Rightarrow> bool) \<Rightarrow> nat \<Rightarrow> review_section \<Rightarrow> string \<Rightarrow> check_conclusion \<Rightarrow> control_db \<Rightarrow> control_db" where
  "enqueue_failure up now cfg i conclusion db =
     (if \<not> up W_Context then db
      else case get_task_context db i of
        None \<Rightarrow> db
      | Some c \<Rightarrow>
          (if cx_target_type c \<noteq> PULL_REQUEST then db
           else
             (let db1 = (if reactions_enabled cfg
                         then best_effort (up W_Reaction) now
                                (enqueue_reaction (target_of i c) (cx_target_id c) ''confused''
                                   (cx_trigger_comment_id c) (cx_target_type c)) db
                         else db);
                  db2 = best_effort (up W_Notice) now
                          (enqueue_failure_notice (target_of i c) (cx_target_id c) (cx_target_type c)) db1
              in enqueue_resolution (up W_Check) now i c conclusion (render_check_output conclusion None) db2)))"

definition enqueue_reaper_failure_notice ::
  "(worker_query \<Rightarrow> bool) \<Rightarrow> nat \<Rightarrow> review_section \<Rightarrow> string \<Rightarrow> control_db \<Rightarrow> control_db" where
  "enqueue_reaper_failure_notice up now cfg i db = enqueue_failure up now cfg i CTimedOut db"

definition reap_act ::
  "(worker_query \<Rightarrow> bool) \<Rightarrow> nat \<Rightarrow> 'w task_launcher \<Rightarrow> review_section \<Rightarrow> task_row \<Rightarrow> reap_action
   \<Rightarrow> control_db \<times> 'w \<Rightarrow> control_db \<times> 'w" where
  "reap_act up now L cfg t action = (\<lambda>(db, w).
     case action of
       Renew_Lease \<Rightarrow>
         ((if up W_Renew then on_tasks (\<lambda>ts. snd (renew_lease now (tk_id t) LEASE_RENEWAL ts)) db else db), w)
     | Mark_Succeeded \<Rightarrow> ((if up W_Status then apply_status now (tk_id t) Succeeded None db else db), w)
     | Requeue \<Rightarrow>
         ((if up W_Release
           then on_tasks (\<lambda>ts. snd (release_task now (tk_id t) (requeue_backoff (tk_attempts t)) ts)) db
           else db), delete_dead_job L t w)
     | Give_Up \<Rightarrow>
         ((if up W_Status
           then enqueue_reaper_failure_notice up now cfg (tk_id t)
                  (apply_status now (tk_id t) Failed (Some reap_detail) db)
           else db), delete_dead_job L t w))"

definition reap_task ::
  "(worker_query \<Rightarrow> bool) \<Rightarrow> nat \<Rightarrow> 'w task_launcher \<Rightarrow> review_section \<Rightarrow> task_row \<Rightarrow> control_db \<times> 'w
   \<Rightarrow> control_db \<times> 'w" where
  "reap_task up now L cfg t = (\<lambda>(db, w).
     case tk_job_name t of
       None \<Rightarrow> reap_act up now L cfg t (decide Job_Gone (tk_attempts t) MAX_ATTEMPTS) (db, w)
     | Some name \<Rightarrow>
         (case tl_job_liveness L name w of
            (Inl _, w') \<Rightarrow> (db, w')
          | (Inr liveness, w') \<Rightarrow> reap_act up now L cfg t (decide liveness (tk_attempts t) MAX_ATTEMPTS) (db, w')))"

definition stop_cancelled ::
  "(worker_query \<Rightarrow> bool) \<Rightarrow> 'w task_launcher \<Rightarrow> task_row \<Rightarrow> control_db \<times> 'w \<Rightarrow> control_db \<times> 'w" where
  "stop_cancelled up L t = (\<lambda>(db, w).
     case tk_job_name t of
       None \<Rightarrow> (db, w)
     | Some name \<Rightarrow>
         (case tl_delete_job L name w of
            (Inr _, w') \<Rightarrow> ((if up W_Clear_Job then on_tasks (clear_job_name (tk_id t)) db else db), w')
          | (Inl _, w') \<Rightarrow> (db, w')))"

text \<open>A cycle. The two listings may fail (\<open>answers\<close>); the queries of task \<open>i\<close> fail as \<open>up i\<close> says.\<close>

definition reap_once ::
  "bool \<times> bool \<Rightarrow> (string \<Rightarrow> worker_query \<Rightarrow> bool) \<Rightarrow> nat \<Rightarrow> 'w task_launcher \<Rightarrow> review_section
   \<Rightarrow> control_db \<times> 'w \<Rightarrow> (sql_error, unit) result \<times> control_db \<times> 'w" where
  "reap_once answers up now L cfg s =
     (if \<not> fst answers then (Inl Unavailable, s)
      else let candidates = list_reapable_tasks now REAP_BATCH (cd_tasks (fst s)) in
        if candidates = [] then (Inr (), s)
        else let s1 = fold (\<lambda>t. reap_task (up (tk_id t)) now L cfg t) candidates s in
          if \<not> snd answers then (Inl Unavailable, s1)
          else (Inr (), fold (\<lambda>t. stop_cancelled (up (tk_id t)) L t)
                          (list_cancelled_with_job REAP_BATCH (cd_tasks (fst s1))) s1))"

end
