(* ===== verification/Settings.thy ===== *)
theory Settings
  imports Control_Db
begin

text \<open>
  What a repository may configure (\<open>settings.rs\<close>, \<open>preset.rs\<close>, \<open>model.rs\<close>): the overrides stored in the
  database (\<open>db/repo_settings.rs\<close>, \<open>db/model_overrides.rs\<close>), the block of the repository's own config file,
  and the precedence between them and the built-in defaults. Every value keeps the layer it came from.
  Durations are seconds. A config file is decoded by the \<open>jsonc\<close> parser, which is a parameter.
\<close>

section \<open>Trigger settings\<close>

datatype push_strategy = Supersede | Debounce | Every
datatype dedup_scope = Scope_Pr | Scope_Commit

definition parse_strategy :: "string \<Rightarrow> push_strategy option" where
  "parse_strategy s =
     (let w = to_ascii_lowercase (trim s) in
      if w = ''supersede'' then Some Supersede
      else if w = ''debounce'' then Some Debounce
      else if w = ''every'' then Some Every else None)"

definition parse_scope :: "string \<Rightarrow> dedup_scope option" where
  "parse_scope s =
     (let w = to_ascii_lowercase (trim s) in
      if w = ''pr'' then Some Scope_Pr else if w = ''commit'' then Some Scope_Commit else None)"

datatype layer = Layer_Default | Layer_File | Layer_Db

record 'a sourced =
  so_value :: 'a
  so_source :: layer

record resolved_settings =
  rs_check_run_reporting :: "bool sourced"
  rs_review_on_pr_open :: "bool sourced"
  rs_review_on_push :: "bool sourced"
  rs_push_strategy :: "push_strategy sourced"
  rs_push_debounce :: "nat sourced"
  rs_dedup_scope :: "dedup_scope sourced"

text \<open>The \<open>triggers\<close> block of the config file, and the override row.\<close>

record triggers_config =
  tr_check_runs :: "bool option"
  tr_review_on_open :: "bool option"
  tr_review_on_push :: "bool option"
  tr_push_strategy :: "string option"
  tr_push_debounce_seconds :: "int option"
  tr_dedup_scope :: "string option"

record settings_row =
  sr_check_run_reporting :: "bool option"
  sr_review_on_pr_open :: "bool option"
  sr_review_on_push :: "bool option"
  sr_push_strategy :: "string option"
  sr_push_debounce_seconds :: "int option"
  sr_dedup_scope :: "string option"

definition DEFAULT_CHECK_RUN_REPORTING :: bool where "DEFAULT_CHECK_RUN_REPORTING = True"
definition DEFAULT_REVIEW_ON_PR_OPEN :: bool where "DEFAULT_REVIEW_ON_PR_OPEN = True"
definition DEFAULT_REVIEW_ON_PUSH :: bool where "DEFAULT_REVIEW_ON_PUSH = False"
definition DEFAULT_PUSH_STRATEGY :: push_strategy where "DEFAULT_PUSH_STRATEGY = Supersede"
definition DEFAULT_PUSH_DEBOUNCE :: nat where "DEFAULT_PUSH_DEBOUNCE = 90"
definition DEFAULT_DEDUP_SCOPE :: dedup_scope where "DEFAULT_DEDUP_SCOPE = Scope_Pr"
definition DEBOUNCE_MIN_SECS :: nat where "DEBOUNCE_MIN_SECS = 10"
definition DEBOUNCE_MAX_SECS :: nat where "DEBOUNCE_MAX_SECS = 900"

definition debounce_seconds_in_range :: "int \<Rightarrow> bool" where
  "debounce_seconds_in_range secs \<longleftrightarrow>
     DEBOUNCE_MIN_SECS \<le> nat (max secs 0) \<and> nat (max secs 0) \<le> DEBOUNCE_MAX_SECS \<and> 0 \<le> secs"

definition clamp_debounce :: "int \<Rightarrow> nat" where
  "clamp_debounce secs = min (max (nat (max secs 0)) DEBOUNCE_MIN_SECS) DEBOUNCE_MAX_SECS"

fun pick_value :: "'a option \<Rightarrow> 'a option \<Rightarrow> 'a \<Rightarrow> 'a sourced" where
  "pick_value (Some v) _ _ = \<lparr>so_value = v, so_source = Layer_Db\<rparr>"
| "pick_value None (Some v) _ = \<lparr>so_value = v, so_source = Layer_File\<rparr>"
| "pick_value None None dflt = \<lparr>so_value = dflt, so_source = Layer_Default\<rparr>"

text \<open>A text is parsed layer by layer; an unrecognised one falls through.\<close>

definition pick_enum :: "string option \<Rightarrow> string option \<Rightarrow> 'a \<Rightarrow> (string \<Rightarrow> 'a option) \<Rightarrow> 'a sourced" where
  "pick_enum db path dflt parse =
     (case Option.bind db parse of
        Some v \<Rightarrow> \<lparr>so_value = v, so_source = Layer_Db\<rparr>
      | None \<Rightarrow> (case Option.bind path parse of
                  Some v \<Rightarrow> \<lparr>so_value = v, so_source = Layer_File\<rparr>
                | None \<Rightarrow> \<lparr>so_value = dflt, so_source = Layer_Default\<rparr>))"

definition merge_settings :: "triggers_config option \<Rightarrow> settings_row option \<Rightarrow> resolved_settings" where
  "merge_settings path db =
     \<lparr>rs_check_run_reporting =
        pick_value (Option.bind db sr_check_run_reporting) (Option.bind path tr_check_runs)
          DEFAULT_CHECK_RUN_REPORTING,
      rs_review_on_pr_open =
        pick_value (Option.bind db sr_review_on_pr_open) (Option.bind path tr_review_on_open)
          DEFAULT_REVIEW_ON_PR_OPEN,
      rs_review_on_push =
        pick_value (Option.bind db sr_review_on_push) (Option.bind path tr_review_on_push)
          DEFAULT_REVIEW_ON_PUSH,
      rs_push_strategy =
        pick_enum (Option.bind db sr_push_strategy) (Option.bind path tr_push_strategy)
          DEFAULT_PUSH_STRATEGY parse_strategy,
      rs_push_debounce =
        pick_value (map_option clamp_debounce (Option.bind db sr_push_debounce_seconds))
          (map_option clamp_debounce (Option.bind path tr_push_debounce_seconds)) DEFAULT_PUSH_DEBOUNCE,
      rs_dedup_scope =
        pick_enum (Option.bind db sr_dedup_scope) (Option.bind path tr_dedup_scope)
          DEFAULT_DEDUP_SCOPE parse_scope\<rparr>"

section \<open>Presets\<close>

datatype entry_point = PrOpen | PrSync | Mention | A2a | Mcp

fun entry_text :: "entry_point \<Rightarrow> string" where
  "entry_text PrOpen = ''pr_open''"
| "entry_text PrSync = ''pr_sync''"
| "entry_text Mention = ''mention''"
| "entry_text A2a = ''a2a''"
| "entry_text Mcp = ''mcp''"

fun platform_default_preset :: "entry_point \<Rightarrow> string" where
  "platform_default_preset PrOpen = ''fast''"
| "platform_default_preset PrSync = ''fast''"
| "platform_default_preset _ = ''deep''"

record preset_config =
  pf_preset :: "string option"
  pf_entry_points :: "(string \<times> string) list"
  pf_triggers :: "triggers_config option"

definition preset_from_config :: "preset_config option \<Rightarrow> entry_point \<Rightarrow> string" where
  "preset_from_config config entry =
     (case config of
        None \<Rightarrow> platform_default_preset entry
      | Some c \<Rightarrow>
          (case al_lookup (pf_entry_points c) (entry_text entry) of
             Some preset \<Rightarrow> preset
           | None \<Rightarrow> (case pf_preset c of Some preset \<Rightarrow> preset | None \<Rightarrow> platform_default_preset entry)))"

definition MAX_CONFIG_BYTES :: nat where "MAX_CONFIG_BYTES = 64 * 1024"

text \<open>The fetch's answer is an error, no file, or its text; the parser's an error or an optional config.\<close>

definition fetch_repo_preset_config ::
  "(string \<Rightarrow> preset_config option option) \<Rightarrow> (string, string option) result \<Rightarrow> preset_config option" where
  "fetch_repo_preset_config parse answer =
     (case answer of
        Inl _ \<Rightarrow> None
      | Inr None \<Rightarrow> None
      | Inr (Some body) \<Rightarrow>
          if MAX_CONFIG_BYTES < length body then None
          else (case parse body of Some config \<Rightarrow> config | None \<Rightarrow> None))"

section \<open>Stored overrides\<close>

type_synonym settings_table = "(int \<times> settings_row) list"

definition get_repo_settings :: "settings_table \<Rightarrow> int \<Rightarrow> settings_row option" where
  "get_repo_settings tab repo = al_lookup tab repo"

record settings_patch =
  sp_check_run_reporting :: "bool option option"
  sp_review_on_pr_open :: "bool option option"
  sp_review_on_push :: "bool option option"
  sp_push_strategy :: "string option option"
  sp_push_debounce_seconds :: "int option option"
  sp_dedup_scope :: "string option option"

definition patch_is_empty :: "settings_patch \<Rightarrow> bool" where
  "patch_is_empty p \<longleftrightarrow> sp_check_run_reporting p = None \<and> sp_review_on_pr_open p = None
     \<and> sp_review_on_push p = None \<and> sp_push_strategy p = None \<and> sp_push_debounce_seconds p = None
     \<and> sp_dedup_scope p = None"

fun patch_column :: "'a option option \<Rightarrow> 'a option \<Rightarrow> 'a option" where
  "patch_column None old = old"
| "patch_column (Some v) _ = v"

definition patched_row :: "settings_patch \<Rightarrow> settings_row option \<Rightarrow> settings_row" where
  "patched_row p old =
     \<lparr>sr_check_run_reporting = patch_column (sp_check_run_reporting p) (Option.bind old sr_check_run_reporting),
      sr_review_on_pr_open = patch_column (sp_review_on_pr_open p) (Option.bind old sr_review_on_pr_open),
      sr_review_on_push = patch_column (sp_review_on_push p) (Option.bind old sr_review_on_push),
      sr_push_strategy = patch_column (sp_push_strategy p) (Option.bind old sr_push_strategy),
      sr_push_debounce_seconds =
        patch_column (sp_push_debounce_seconds p) (Option.bind old sr_push_debounce_seconds),
      sr_dedup_scope = patch_column (sp_dedup_scope p) (Option.bind old sr_dedup_scope)\<rparr>"

text \<open>The column checks of migration 0036.\<close>

definition settings_row_ok :: "settings_row \<Rightarrow> bool" where
  "settings_row_ok r \<longleftrightarrow>
     (case sr_push_strategy r of None \<Rightarrow> True | Some s \<Rightarrow> s \<in> {''supersede'', ''debounce'', ''every''})
     \<and> (case sr_push_debounce_seconds r of None \<Rightarrow> True | Some n \<Rightarrow> 10 \<le> n \<and> n \<le> 900)
     \<and> (case sr_dedup_scope r of None \<Rightarrow> True | Some s \<Rightarrow> s \<in> {''pr'', ''commit''})"

definition set_repo_settings ::
  "int \<Rightarrow> settings_patch \<Rightarrow> settings_table \<Rightarrow> (sql_error, settings_table) result" where
  "set_repo_settings repo p tab =
     (let row = patched_row p (get_repo_settings tab repo) in
      if settings_row_ok row then Inr ((repo, row) # filter (\<lambda>(k, _). k \<noteq> repo) tab)
      else Inl CheckViolation)"

type_synonym model_table = "(int \<times> string) list"

definition get_model_override :: "model_table \<Rightarrow> int \<Rightarrow> string option" where
  "get_model_override tab k = al_lookup tab k"

definition set_model_override :: "int \<Rightarrow> string \<Rightarrow> model_table \<Rightarrow> model_table" where
  "set_model_override k model tab = (k, model) # filter (\<lambda>(k', _). k' \<noteq> k) tab"

definition clear_model_override :: "int \<Rightarrow> model_table \<Rightarrow> bool \<times> model_table" where
  "clear_model_override k tab = (get_model_override tab k \<noteq> None, filter (\<lambda>(k', _). k' \<noteq> k) tab)"

text \<open>A failed lookup counts as no override.\<close>

definition resolve_model_override ::
  "bool \<Rightarrow> bool \<Rightarrow> model_table \<Rightarrow> model_table \<Rightarrow> int \<Rightarrow> int \<Rightarrow> string option" where
  "resolve_model_override up_repo up_org repos orgs repo installation =
     (case (if up_repo then get_model_override repos repo else None) of
        Some model \<Rightarrow> Some model
      | None \<Rightarrow> if up_org then get_model_override orgs installation else None)"

text \<open>The debug rendering of a text is the standard library's, a parameter.\<close>

definition validate_model_allowlist :: "(string \<Rightarrow> string) \<Rightarrow> string list \<Rightarrow> string \<Rightarrow> (string, unit) result" where
  "validate_model_allowlist debug allowlist model =
     (if allowlist = [] then
        Inl (''no model allowlist is configured; an operator must set control-plane.json's ''
             @ ''model.allowlist before any model override can be written'')
      else if list_ex (\<lambda>a. a = model) allowlist then Inr ()
      else Inl (''model '' @ debug model @ '' is not in the configured allowlist: [''
                @ join_with '', '' allowlist @ '']''))"

definition read_db_settings :: "bool \<Rightarrow> settings_table \<Rightarrow> int \<Rightarrow> settings_row option" where
  "read_db_settings up tab repo = (if up then get_repo_settings tab repo else None)"

definition resolve_preset_and_settings ::
  "(string \<Rightarrow> preset_config option option) \<Rightarrow> (string, string option) result option \<Rightarrow> bool \<Rightarrow> settings_table
   \<Rightarrow> entry_point \<Rightarrow> int \<Rightarrow> string \<times> resolved_settings" where
  "resolve_preset_and_settings parse answer up tab entry repo =
     (let config = Option.bind answer (fetch_repo_preset_config parse)
      in (preset_from_config config entry,
          merge_settings (Option.bind config pf_triggers) (read_db_settings up tab repo)))"

definition resolve_repo_settings_db_only :: "bool \<Rightarrow> settings_table \<Rightarrow> int \<Rightarrow> resolved_settings" where
  "resolve_repo_settings_db_only up tab repo = merge_settings None (read_db_settings up tab repo)"

definition resolve_repo_settings ::
  "(string \<Rightarrow> preset_config option option) \<Rightarrow> (string, string option) result option \<Rightarrow> bool \<Rightarrow> settings_table
   \<Rightarrow> int \<Rightarrow> resolved_settings" where
  "resolve_repo_settings parse answer up tab repo =
     merge_settings (Option.bind (Option.bind answer (fetch_repo_preset_config parse)) pf_triggers)
       (read_db_settings up tab repo)"

section \<open>What resolution guarantees\<close>

lemma strategy_texts:
  "parse_strategy ''supersede'' = Some Supersede" "parse_strategy ''debounce'' = Some Debounce"
  "parse_strategy ''every'' = Some Every" "parse_scope ''pr'' = Some Scope_Pr"
  "parse_scope ''commit'' = Some Scope_Commit"
  by (simp_all add: parse_strategy_def parse_scope_def trim_id ws_first_def ws_last_def whitespace_seqs_def
        to_ascii_lowercase_def ascii_lower_def)

lemma pick_value_cases:
  "so_value (pick_value a b c) = (case a of Some v \<Rightarrow> v | None \<Rightarrow> case b of Some v \<Rightarrow> v | None \<Rightarrow> c)"
  by (cases a; cases b) auto

lemma clamp_bounds: "10 \<le> clamp_debounce s" "clamp_debounce s \<le> 900"
  by (auto simp: clamp_debounce_def DEBOUNCE_MIN_SECS_def DEBOUNCE_MAX_SECS_def)

lemma clamp_in_range: "debounce_seconds_in_range s \<Longrightarrow> clamp_debounce s = nat s"
  by (auto simp: clamp_debounce_def debounce_seconds_in_range_def)

lemma in_range_iff: "debounce_seconds_in_range s \<longleftrightarrow> 10 \<le> s \<and> s \<le> 900"
  by (auto simp: debounce_seconds_in_range_def DEBOUNCE_MIN_SECS_def DEBOUNCE_MAX_SECS_def max_def)

lemma debounce_bounds:
  "10 \<le> so_value (rs_push_debounce (merge_settings path db))
   \<and> so_value (rs_push_debounce (merge_settings path db)) \<le> 900"
  by (auto simp: merge_settings_def pick_value_cases clamp_bounds DEFAULT_PUSH_DEBOUNCE_def split: option.splits)

lemma al_lookup_put: "al_lookup ((k, v) # filter (\<lambda>(k', _). k' \<noteq> k) tab) k = Some v"
  by simp

lemma settings_written:
  assumes "set_repo_settings repo p tab = Inr tab'"
  shows "get_repo_settings tab' repo = Some (patched_row p (get_repo_settings tab repo))"
    and "settings_row_ok (patched_row p (get_repo_settings tab repo))"
  using assms by (auto simp: set_repo_settings_def get_repo_settings_def Let_def split: if_splits)

lemma stored_strategy:
  "settings_row_ok r \<Longrightarrow> sr_push_strategy r = Some s \<Longrightarrow> \<exists>v. parse_strategy s = Some v"
  by (auto simp: settings_row_ok_def strategy_texts)

lemma stored_scope:
  "settings_row_ok r \<Longrightarrow> sr_dedup_scope r = Some s \<Longrightarrow> \<exists>v. parse_scope s = Some v"
  by (auto simp: settings_row_ok_def strategy_texts)

lemma stored_debounce:
  "settings_row_ok r \<Longrightarrow> sr_push_debounce_seconds r = Some n \<Longrightarrow> clamp_debounce n = nat n"
  by (auto simp: settings_row_ok_def in_range_iff intro: clamp_in_range)

text \<open>
  An accepted override takes effect: when a patch has been stored for a repository, every field it
  sets resolves to exactly the value it set, as coming from the database, whatever the repository's
  config file says and whatever was stored before. In particular a strategy or a scope the table
  accepts is one the resolution recognises, and an accepted quiet period is not clamped.
\<close>

theorem stored_override_takes_effect:
  assumes "set_repo_settings repo p tab = Inr tab'"
    and "r = resolve_repo_settings parse answer True tab' repo"
  shows "(\<forall>v. sp_check_run_reporting p = Some (Some v) \<longrightarrow>
              rs_check_run_reporting r = \<lparr>so_value = v, so_source = Layer_Db\<rparr>)
       \<and> (\<forall>v. sp_review_on_pr_open p = Some (Some v) \<longrightarrow>
              rs_review_on_pr_open r = \<lparr>so_value = v, so_source = Layer_Db\<rparr>)
       \<and> (\<forall>v. sp_review_on_push p = Some (Some v) \<longrightarrow>
              rs_review_on_push r = \<lparr>so_value = v, so_source = Layer_Db\<rparr>)
       \<and> (\<forall>v. sp_push_strategy p = Some (Some v) \<longrightarrow>
              so_source (rs_push_strategy r) = Layer_Db \<and> parse_strategy v = Some (so_value (rs_push_strategy r)))
       \<and> (\<forall>v. sp_push_debounce_seconds p = Some (Some v) \<longrightarrow>
              so_source (rs_push_debounce r) = Layer_Db \<and> int (so_value (rs_push_debounce r)) = v)
       \<and> (\<forall>v. sp_dedup_scope p = Some (Some v) \<longrightarrow>
              so_source (rs_dedup_scope r) = Layer_Db \<and> parse_scope v = Some (so_value (rs_dedup_scope r)))"
proof -
  let ?row = "patched_row p (get_repo_settings tab repo)"
  note w = settings_written[OF assms(1)]
  have r: "r = merge_settings (Option.bind (Option.bind answer (fetch_repo_preset_config parse)) pf_triggers)
                 (Some ?row)"
    using assms(2) w(1) by (simp add: resolve_repo_settings_def read_db_settings_def)
  have "sp_push_strategy p = Some (Some v) \<Longrightarrow> \<exists>x. parse_strategy v = Some x" for v
    using stored_strategy[OF w(2)] by (simp add: patched_row_def)
  moreover have "sp_dedup_scope p = Some (Some v) \<Longrightarrow> \<exists>x. parse_scope v = Some x" for v
    using stored_scope[OF w(2)] by (simp add: patched_row_def)
  moreover have "sp_push_debounce_seconds p = Some (Some v) \<Longrightarrow> clamp_debounce v = nat v \<and> 10 \<le> v" for v
    using stored_debounce[OF w(2)] w(2) by (simp add: patched_row_def settings_row_ok_def)
  ultimately show ?thesis
    by (fastforce simp: r merge_settings_def pick_enum_def patched_row_def)
qed

text \<open>A repository that configures nothing, and a patch that asks for debounced reviews on push.\<close>

definition debounce_patch :: settings_patch where
  "debounce_patch = \<lparr>sp_check_run_reporting = None, sp_review_on_pr_open = None,
     sp_review_on_push = Some (Some True), sp_push_strategy = Some (Some ''debounce''),
     sp_push_debounce_seconds = Some (Some 60), sp_dedup_scope = Some None\<rparr>"

lemma stored_override_takes_effect_witness:
  "\<exists>tab'. set_repo_settings 7 debounce_patch [] = Inr tab'
     \<and> so_value (rs_review_on_push (resolve_repo_settings (\<lambda>_. None) None True tab' 7))
     \<and> so_value (rs_push_debounce (resolve_repo_settings (\<lambda>_. None) None True tab' 7)) = 60"
proof -
  obtain tab' where t: "set_repo_settings 7 debounce_patch [] = Inr tab'"
    by (auto simp: set_repo_settings_def patched_row_def debounce_patch_def get_repo_settings_def
          settings_row_ok_def Let_def)
  show ?thesis
    using stored_override_takes_effect[OF t refl, of "\<lambda>_. None" None] t
    by (auto simp: debounce_patch_def)
qed

end
