(* ===== verification/Finalize.thy ===== *)
theory Finalize
  imports Review_Scope Queue_Workers Settings
begin

text \<open>
  Finalizing a run (\<open>http/internal.rs\<close>): the buffered review is read back, deduplicated against what the
  pull request already shows, placed on the diff, rendered and queued for egress, together with the
  verdict reaction and the check's conclusion; and the runner's status reports, which reset the buffer
  of a fresh attempt and announce a failed one. \<open>up\<close> says which of the handler's queries the database
  answers, \<open>now\<close> is its clock.
\<close>

section \<open>Findings on the wire\<close>

definition encode_finding :: "review_finding \<Rightarrow> json" where
  "encode_finding f =
     JObj ([(''file'', JStr (rf_file f)), (''line'', jnat (rf_line f))]
           @ opt_field ''start_line'' jnat (rf_start_line f)
           @ opt_field ''priority'' JStr (rf_priority f)
           @ opt_field ''category'' JStr (rf_category f)
           @ opt_field ''severity'' JStr (rf_severity f)
           @ [(''title'', JStr (rf_title f)), (''body'', JStr (rf_body f)),
              (''suggestion'', case rf_suggestion f of None \<Rightarrow> JNull | Some s \<Rightarrow> JStr s),
              (''resources'', JArr (map JStr (rf_resources f)))])"

definition decode_finding :: "json \<Rightarrow> review_finding option" where
  "decode_finding j =
     do {
       path \<leftarrow> need j ''file'' as_str;
       line \<leftarrow> need j ''line'' as_u32;
       start \<leftarrow> need_option j ''start_line'' as_u32;
       priority \<leftarrow> need_option j ''priority'' as_str;
       category \<leftarrow> need_option j ''category'' as_str;
       severity \<leftarrow> need_option j ''severity'' as_str;
       title \<leftarrow> need j ''title'' as_str;
       body \<leftarrow> need j ''body'' as_str;
       suggestion \<leftarrow> need_option j ''suggestion'' as_str;
       resources \<leftarrow> need_default j ''resources'' [] (decode_list as_str);
       Some \<lparr>rf_file = path, rf_line = line, rf_start_line = start, rf_priority = priority,
             rf_category = category, rf_severity = severity, rf_title = title, rf_body = body,
             rf_suggestion = suggestion, rf_resources = resources\<rparr>
     }"

definition stored_findings :: "json \<Rightarrow> review_finding list" where
  "stored_findings j = (case decode_list decode_finding j of None \<Rightarrow> [] | Some fs \<Rightarrow> fs)"

section \<open>The policies\<close>

definition DEFAULT_CLEAN_SUMMARY :: string where
  "DEFAULT_CLEAN_SUMMARY = ''No issues found '' @ dash @ '' the change looks good.''"

definition REACTION_CLEAN :: string where "REACTION_CLEAN = ''+1''"
definition REACTION_FINDINGS :: string where "REACTION_FINDINGS = ''-1''"

definition posts_pr_review :: "string \<Rightarrow> bool \<Rightarrow> bool \<Rightarrow> bool \<Rightarrow> bool" where
  "posts_pr_review target_type has_inline has_summary buffer_empty \<longleftrightarrow>
     target_type = PULL_REQUEST \<and> (has_inline \<or> has_summary \<or> buffer_empty)"

record finalize_decision =
  fp_suppress_clean_post :: bool
  fp_verdict :: "string option"
  fp_react_confused :: bool

definition finalize_policy :: "string option \<Rightarrow> bool \<Rightarrow> bool \<Rightarrow> finalize_decision" where
  "finalize_policy outcome has_findings reactions =
     (let finished = (outcome = Some ''finished''); aborted = (outcome = Some ''aborted'') in
      \<lparr>fp_suppress_clean_post = (finished \<and> \<not> has_findings \<and> reactions),
       fp_verdict =
         (if \<not> reactions \<or> aborted then None
          else if has_findings then Some REACTION_FINDINGS
          else if finished then Some REACTION_CLEAN
          else None),
       fp_react_confused = (reactions \<and> aborted)\<rparr>)"

definition resolve_check_conclusion :: "bool \<Rightarrow> bool \<Rightarrow> check_conclusion" where
  "resolve_check_conclusion aborted queued_review =
     (if aborted then CFailure else if queued_review then CNeutral else CSuccess)"

definition effective_summary :: "string option \<Rightarrow> nat \<Rightarrow> bool \<Rightarrow> bool \<Rightarrow> string" where
  "effective_summary real_summary deduped_n all_deduped across_commits =
     (case real_summary of
        Some s \<Rightarrow> s
      | None \<Rightarrow>
          if all_deduped
          then ''No new findings '' @ dash @ '' '' @ dec deduped_n @ '' prior finding(s) on this ''
               @ (if across_commits then ''PR'' else ''commit'') @ '' still stand.''
          else DEFAULT_CLEAN_SUMMARY)"

text \<open>The outcome field of the request body, an object or (as the derived reader also takes it) a one-element
  array; an unreadable body has none.\<close>

definition finalize_outcome :: "serde \<Rightarrow> string \<Rightarrow> string option" where
  "finalize_outcome J body =
     (case from_text J body of
        Some (JObj obj) \<Rightarrow> Option.bind (need_option (JObj obj) ''outcome'' as_str) id
      | Some (JArr [outcome]) \<Rightarrow> as_str outcome
      | _ \<Rightarrow> None)"

section \<open>Shaping the review\<close>

definition buffered_finding :: "pending_inline \<Rightarrow> review_finding" where
  "buffered_finding p =
     \<lparr>rf_file = pi_file p, rf_line = nat (max (pi_line p) 0), rf_start_line = None,
      rf_priority = pi_priority p, rf_category = pi_category p, rf_severity = None,
      rf_title = (case pi_title p of None \<Rightarrow> '''' | Some t \<Rightarrow> t), rf_body = pi_body p,
      rf_suggestion = pi_suggestion p, rf_resources = []\<rparr>"

definition posted_of ::
  "(string \<Rightarrow> string) \<Rightarrow> dedup_scope \<Rightarrow> string option \<Rightarrow> (string option \<times> json) list \<Rightarrow> posted_findings \<times> bool" where
  "posted_of lower scope head rows =
     foldl (\<lambda>(posted, across) (posted_head, arr).
        let same_head = (posted_head \<noteq> None \<and> posted_head = head);
            pr_wide = (\<not> same_head \<and> scope = Scope_Pr)
        in (foldl (\<lambda>p f. posted_add lower (rf_file f) (rf_line f) (rf_title f) same_head pr_wide p) posted
              (stored_findings arr),
            across \<or> pr_wide))
       (nothing_posted, False) rows"

definition in_scope :: "change_set \<Rightarrow> review_finding \<Rightarrow> bool" where
  "in_scope diff f \<longleftrightarrow> bt_get diff (normalize_path (rf_file f)) \<noteq> None \<or> bt_get diff (rf_file f) \<noteq> None"

definition review_comment_of :: "inline_comment \<Rightarrow> review_comment_payload" where
  "review_comment_of c =
     \<lparr>rc_path = ic_path c, rc_line = ic_line c, rc_start_line = ic_start_line c, rc_body = ic_body c\<rparr>"

text \<open>What the handler has of the application state: the settings' reactions toggle, the platforms'
  diff reads, and the bot handles (of GitHub, and of the two project registries).\<close>

type_synonym fetch_files = "repo_ref \<Rightarrow> int \<Rightarrow> (string, (string \<times> string option) list) result"

record app_state =
  ap_pool :: bool
  ap_review :: review_section
  ap_platforms :: "platform \<Rightarrow> fetch_files option"
  ap_app_handle :: string
  ap_gitlab :: "(int \<Rightarrow> string option) option"
  ap_bitbucket :: "(int \<Rightarrow> string option) option"

definition review_handle :: "app_state \<Rightarrow> task_context \<Rightarrow> (string, string) result" where
  "review_handle app c =
     (case cx_platform c of
        GitHub \<Rightarrow> Inr (ap_app_handle app)
      | GitLab \<Rightarrow>
          (case Option.bind (ap_gitlab app) (\<lambda>r. r (cx_installation_id c)) of
             None \<Rightarrow> Inl ''gitlab project not configured'' | Some h \<Rightarrow> Inr h)
      | Bitbucket \<Rightarrow>
          (case Option.bind (ap_bitbucket app) (\<lambda>r. r (cx_installation_id c)) of
             None \<Rightarrow> Inl ''bitbucket project not configured'' | Some h \<Rightarrow> Inr h))"

definition repo_ref_of :: "task_context \<Rightarrow> repo_ref" where
  "repo_ref_of c =
     \<lparr>rr_platform = cx_platform c, rr_full_name = cx_owner c @ ''/'' @ cx_name c,
      rr_platform_repo_id = cx_repository_id c, rr_installation_id = cx_installation_id c\<rparr>"

record shaped_review =
  sh_payload :: review_payload
  sh_facts :: check_facts
  sh_has_findings :: bool

definition shape_review ::
  "(string \<Rightarrow> string) \<Rightarrow> app_state \<Rightarrow> dedup_scope \<Rightarrow> task_context \<Rightarrow> fetch_files \<Rightarrow> (string option \<times> json) list
   \<Rightarrow> pending_review \<Rightarrow> (json http_reply, shaped_review) result" where
  "shape_review lower app scope c fetch prior p =
     (let found = map buffered_finding (pv_inline p);
          (posted, across) = posted_of lower scope (cx_head_sha c) prior;
          (findings, deduped_n) = dedup_against_posted lower found posted;
          real_summary = Option.bind (pv_summary p) (\<lambda>s. if trim s = [] then None else Some (trim s));
          all_deduped = (0 < deduped_n \<and> findings = []);
          summary = effective_summary real_summary deduped_n all_deduped (across \<and> 0 < deduped_n)
      in case fetch (repo_ref_of c) (cx_target_id c) of
        Inl _ \<Rightarrow> Inl (Bad_Gateway ''could not fetch PR files'')
      | Inr files \<Rightarrow>
          (let diff = commentable files;
               v = validate findings diff;
               body = (if cx_entry_point c = ''pr_open''
                       then map_sum id (\<lambda>handle. render_fast_body handle
                              (if all_deduped then Some summary else real_summary) (vr_deferred v) (vr_out_of_scope v))
                              (review_handle app c)
                       else Inr (render_body summary (vr_deferred v) (vr_out_of_scope v)))
           in case body of
             Inl e \<Rightarrow> Inl (Service_Unavailable e)
           | Inr text_body \<Rightarrow>
               Inr \<lparr>sh_payload =
                      \<lparr>rp_pr = cx_target_id c, rp_body = text_body, rp_summary = summary,
                       rp_comments = map review_comment_of (vr_inline v),
                       rp_inline_n = int (length (vr_inline v)), rp_deferred_n = int (length (vr_deferred v)),
                       rp_out_of_scope_n = int (length (vr_out_of_scope v)),
                       rp_findings_json = JArr (map encode_finding findings),
                       rp_label_findings = list_ex (in_scope diff) findings,
                       rp_label_error = list_ex (\<lambda>f. finding_priority f = ''P0'' \<and> in_scope diff f) findings\<rparr>,
                    sh_facts =
                      \<lparr>ck_inline_n = length (vr_inline v), ck_deferred_n = length (vr_deferred v),
                       ck_out_of_scope_n = length (vr_out_of_scope v), ck_deduped_n = deduped_n,
                       ck_verdict = summary\<rparr>,
                    sh_has_findings = (found \<noteq> [])\<rparr>))"

section \<open>Queueing what was shaped\<close>

datatype finalize_query =
  F_Context | F_Buffer | F_Posted | F_Priors | F_Guard | F_Persist | F_Reply | F_Review | F_Verdict
| F_Confused | F_Check | F_Kind | F_Purge | F_Clear_Comments | F_Clear_Inline | F_Clear_Summary

definition try_enqueue ::
  "bool \<Rightarrow> nat \<Rightarrow> enqueue \<Rightarrow> control_db \<Rightarrow> (sql_error, bool) result \<times> control_db" where
  "try_enqueue ok now enq db = (if ok then enqueue_db now enq db else (Inl Unavailable, db))"

definition clear_action :: "bool \<Rightarrow> string \<Rightarrow> pending_action \<Rightarrow> control_db \<Rightarrow> control_db" where
  "clear_action ok i action db =
     (if ok then db\<lparr>cd_pending := clear_pending_action i action (cd_pending db)\<rparr> else db)"

definition clear_review_rows :: "(finalize_query \<Rightarrow> bool) \<Rightarrow> string \<Rightarrow> control_db \<Rightarrow> control_db" where
  "clear_review_rows up i db =
     clear_action (up F_Clear_Summary) i Summary_Action (clear_action (up F_Clear_Inline) i Inline_Action db)"

text \<open>The buffered replies: dropped beside a review, otherwise one reply intent.\<close>

definition flush_reply ::
  "(finalize_query \<Rightarrow> bool) \<Rightarrow> nat \<Rightarrow> string \<Rightarrow> task_context \<Rightarrow> pending_review \<Rightarrow> bool \<Rightarrow> control_db
   \<Rightarrow> (json http_reply, bool) result \<times> control_db" where
  "flush_reply up now i c p post_pr_review db =
     (if pv_comments p = [] then (Inr False, db)
      else if post_pr_review then (Inr False, clear_action (up F_Clear_Comments) i Comment_Action db)
      else
        (let body = render_answer_body (join_with (nl @ nl @ ''---'' @ nl @ nl) (pv_comments p)) in
         case try_enqueue (up F_Reply) now
                (enqueue_reply (target_of i c) (cx_target_id c) body (cx_target_type c)) db of
           (Inr _, db1) \<Rightarrow> (Inr True, clear_action (up F_Clear_Comments) i Comment_Action db1)
         | (Inl _, db1) \<Rightarrow> (Inl (Internal_Error ''could not queue reply''), db1)))"

definition clean_review_row :: "nat \<Rightarrow> string \<Rightarrow> review_payload \<Rightarrow> review_row" where
  "clean_review_row now i p =
     \<lparr>rw_task_id = i, rw_summary = rp_summary p, rw_body = rp_body p, rw_inline_count = 0,
      rw_deferred_count = 0, rw_out_of_scope_count = 0, rw_findings = rp_findings_json p,
      rw_review_url = None, rw_platform_review_id = None, rw_created_at = now\<rparr>"

text \<open>The silent clean pass, and the posted review.\<close>

definition finish_silently ::
  "(finalize_query \<Rightarrow> bool) \<Rightarrow> nat \<Rightarrow> string \<Rightarrow> task_context \<Rightarrow> review_payload \<Rightarrow> control_db
   \<Rightarrow> (json http_reply, bool) result \<times> control_db" where
  "finish_silently up now i c p db =
     (if \<not> up F_Guard then (Inl (Internal_Error ''query error''), db)
      else if has_review_intent_or_posted_review db i then (Inr False, clear_review_rows up i db)
      else if \<not> up F_Persist then (Inl (Internal_Error ''could not persist review''), db)
      else
        (let db1 = db\<lparr>cd_reviews := snd (insert_review_if_absent (clean_review_row now i p) (cd_reviews db))\<rparr> in
         case try_enqueue (up F_Verdict) now
                (enqueue_verdict_reaction (target_of i c) (cx_target_id c) REACTION_CLEAN
                   (cx_trigger_comment_id c) (cx_target_type c)) db1 of
           (Inr _, db2) \<Rightarrow> (Inr False, clear_review_rows up i db2)
         | (Inl _, db2) \<Rightarrow> (Inl (Internal_Error ''could not queue reaction''), db2)))"

definition finish_with_review ::
  "(finalize_query \<Rightarrow> bool) \<Rightarrow> nat \<Rightarrow> string \<Rightarrow> task_context \<Rightarrow> finalize_decision \<Rightarrow> review_payload \<Rightarrow> control_db
   \<Rightarrow> (json http_reply, bool) result \<times> control_db" where
  "finish_with_review up now i c policy p db =
     (case try_enqueue (up F_Review) now (enqueue_review (target_of i c) p) db of
        (Inl _, db1) \<Rightarrow> (Inl (Internal_Error ''could not queue review''), db1)
      | (Inr _, db1) \<Rightarrow>
          (let db2 = clear_review_rows up i db1;
               db3 = (case fp_verdict policy of
                        None \<Rightarrow> db2
                      | Some content \<Rightarrow>
                          snd (try_enqueue (up F_Verdict) now
                                 (enqueue_verdict_reaction (target_of i c) (cx_target_id c) content
                                    (cx_trigger_comment_id c) (cx_target_type c)) db2));
               db4 = (if fp_react_confused policy
                      then snd (try_enqueue (up F_Confused) now
                                  (enqueue_reaction (target_of i c) (cx_target_id c) ''confused''
                                     (cx_trigger_comment_id c) (cx_target_type c)) db3)
                      else db3)
           in (Inr True, db4)))"

definition queue_review ::
  "(finalize_query \<Rightarrow> bool) \<Rightarrow> nat \<Rightarrow> string \<Rightarrow> task_context \<Rightarrow> finalize_decision \<Rightarrow> review_payload \<Rightarrow> control_db
   \<Rightarrow> (json http_reply, bool) result \<times> control_db" where
  "queue_review up now i c policy p db =
     (if fp_suppress_clean_post policy \<and> up F_Priors
         \<and> \<not> target_has_prior_findings db (cx_repository_id c) (cx_target_type c) (cx_target_id c) i
      then finish_silently up now i c p db
      else finish_with_review up now i c policy p db)"

text \<open>The review of a run that posts one: its rows of earlier findings, the shaping, the queueing.\<close>

definition flush_review ::
  "(string \<Rightarrow> string) \<Rightarrow> (finalize_query \<Rightarrow> bool) \<Rightarrow> nat \<Rightarrow> app_state \<Rightarrow> dedup_scope \<Rightarrow> fetch_files \<Rightarrow> string option
   \<Rightarrow> string \<Rightarrow> task_context \<Rightarrow> pending_review \<Rightarrow> control_db
   \<Rightarrow> (json http_reply, bool \<times> check_facts) result \<times> control_db" where
  "flush_review lower up now app scope fetch outcome i c p db =
     (let prior = (if up F_Posted
                   then posted_findings_for_target db (cx_repository_id c) (cx_target_type c) (cx_target_id c) i
                   else [])
      in case shape_review lower app scope c fetch prior p of
           Inl reply \<Rightarrow> (Inl reply, db)
         | Inr sh \<Rightarrow>
             (let policy = finalize_policy outcome (sh_has_findings sh) (reactions_enabled (ap_review app)) in
              case queue_review up now i c policy (sh_payload sh) db of
                (Inl reply, db1) \<Rightarrow> (Inl reply, db1)
              | (Inr queued, db1) \<Rightarrow> (Inr (queued, sh_facts sh), db1)))"

definition run_kind :: "bool \<Rightarrow> bool \<Rightarrow> string" where
  "run_kind has_inline queued_reply =
     (if has_inline then if queued_reply then ''mixed'' else ''review''
      else if queued_reply then ''ask'' else ''review'')"

definition finalized :: "string \<Rightarrow> bool \<Rightarrow> bool \<Rightarrow> json" where
  "finalized kind queued_review queued_reply =
     JObj [(''kind'', JStr kind), (''review'', JBool queued_review), (''reply'', JBool queued_reply)]"

text \<open>The tail of the handler, whose failures are only logged: the check, the kind, the journal.\<close>

definition close_run ::
  "(finalize_query \<Rightarrow> bool) \<Rightarrow> nat \<Rightarrow> string option \<Rightarrow> string \<Rightarrow> task_context \<Rightarrow> string \<Rightarrow> bool \<Rightarrow> check_facts option
   \<Rightarrow> control_db \<Rightarrow> control_db" where
  "close_run up now outcome i c kind queued_review facts db =
     (let conclusion = resolve_check_conclusion (outcome = Some ''aborted'') queued_review;
          db1 = (if cx_target_type c = PULL_REQUEST
                 then enqueue_resolution (up F_Check) now i c conclusion (render_check_output conclusion facts) db
                 else db);
          db2 = (if up F_Kind then on_tasks (set_task_kind i kind) db1 else db1)
      in case run_epoch_of (cd_tasks db2) i of
           Some e \<Rightarrow> if up F_Purge then db2\<lparr>cd_steps := snd (purge_durable_steps i e (cd_steps db2))\<rparr> else db2
         | None \<Rightarrow> db2)"

definition finalize_review ::
  "serde \<Rightarrow> (string \<Rightarrow> string) \<Rightarrow> (finalize_query \<Rightarrow> bool) \<Rightarrow> nat \<Rightarrow> app_state \<Rightarrow> dedup_scope \<Rightarrow> string \<Rightarrow> string
   \<Rightarrow> control_db \<Rightarrow> json http_reply \<times> control_db" where
  "finalize_review J lower up now app scope i body db =
     (let outcome = finalize_outcome J body in
      if \<not> ap_pool app then (Service_Unavailable ''no database'', db)
      else if \<not> up F_Context then (Internal_Error ''query error'', db)
      else case get_task_context db i of
        None \<Rightarrow> (Not_Found ''task not found'', db)
      | Some c \<Rightarrow>
          if \<not> up F_Buffer then (Internal_Error ''query error'', db)
          else
            (let p = load_pending_review i (cd_pending db) in
             case ap_platforms app (cx_platform c) of
               None \<Rightarrow> (Service_Unavailable ''platform not configured for this task'', db)
             | Some fetch \<Rightarrow>
                 (let has_inline = (pv_inline p \<noteq> []);
                      post_pr_review = posts_pr_review (cx_target_type c) has_inline (pv_summary p \<noteq> None)
                                         (pending_is_empty p)
                  in case flush_reply up now i c p post_pr_review db of
                       (Inl reply, db1) \<Rightarrow> (reply, db1)
                     | (Inr queued_reply, db1) \<Rightarrow>
                         (let kind = run_kind has_inline queued_reply in
                          if \<not> post_pr_review then
                            (Ok_Json (finalized kind False queued_reply),
                             close_run up now outcome i c kind False None db1)
                          else case flush_review lower up now app scope fetch outcome i c p db1 of
                            (Inl reply, db2) \<Rightarrow> (reply, db2)
                          | (Inr (queued_review, facts), db2) \<Rightarrow>
                              (Ok_Json (finalized kind queued_review queued_reply),
                               close_run up now outcome i c kind queued_review (Some facts) db2)))))"

section \<open>Status reports\<close>

definition is_fresh_attempt :: "bool \<Rightarrow> bool \<Rightarrow> control_db \<Rightarrow> string \<Rightarrow> bool" where
  "is_fresh_attempt up_epoch up_steps db i =
     (if \<not> up_epoch then True
      else case run_epoch_of (cd_tasks db) i of
        None \<Rightarrow> True
      | Some e \<Rightarrow> if up_steps then \<not> has_durable_steps i e (cd_steps db) else True)"

datatype status_query = S_Set | S_Epoch | S_Steps | S_Clear

text \<open>The failure follow-up runs as a task of its own after the reply; it is the second effect here.\<close>

definition handle_review_failure ::
  "(worker_query \<Rightarrow> bool) \<Rightarrow> nat \<Rightarrow> review_section \<Rightarrow> string \<Rightarrow> check_conclusion \<Rightarrow> control_db \<Rightarrow> control_db" where
  "handle_review_failure up now cfg i conclusion db = enqueue_failure up now cfg i conclusion db"

definition set_status ::
  "(status_query \<Rightarrow> bool) \<Rightarrow> (worker_query \<Rightarrow> bool) \<Rightarrow> nat \<Rightarrow> bool \<Rightarrow> review_section \<Rightarrow> string \<Rightarrow> string
   \<Rightarrow> string option \<Rightarrow> control_db \<Rightarrow> json http_reply \<times> control_db" where
  "set_status up wup now pool cfg i wire detail db =
     (if \<not> pool then (Service_Unavailable ''no database'', db)
      else case reportable_status wire of
        None \<Rightarrow> (Bad_Request ''unsupported status'', db)
      | Some status \<Rightarrow>
          if \<not> up S_Set then (Internal_Error ''update error'', db)
          else if \<not> id_taken (cd_tasks db) i then (Not_Found ''task not found'', db)
          else
            (let db1 = apply_status now i status detail db;
                 db2 = (if status = Running \<and> is_fresh_attempt (up S_Epoch) (up S_Steps) db1 i \<and> up S_Clear
                        then db1\<lparr>cd_pending := clear_pending_review i (cd_pending db1)\<rparr> else db1)
             in (No_Content,
                 if status = Failed then handle_review_failure wup now cfg i CFailure db2
                 else if status = TimedOut then handle_review_failure wup now cfg i CTimedOut db2
                 else db2)))"

definition get_status :: "db_link \<Rightarrow> string \<Rightarrow> control_db \<Rightarrow> json http_reply" where
  "get_status link i db =
     (case link of
        No_Pool \<Rightarrow> Service_Unavailable ''no database''
      | Down \<Rightarrow> Internal_Error ''query error''
      | Up \<Rightarrow> (case get_task_status (cd_tasks db) i of
                 None \<Rightarrow> Not_Found ''task not found''
               | Some s \<Rightarrow> Ok_Json (JObj [(''status'', JStr (status_text s))])))"

definition superseded_note :: "string \<times> string" where
  "superseded_note =
     (''Review superseded'',
      ''A newer commit was pushed to this pull request before this review finished; it was cancelled in favor of the newer run.'')"

definition resolve_cancelled_check_run ::
  "(worker_query \<Rightarrow> bool) \<Rightarrow> nat \<Rightarrow> string \<Rightarrow> control_db \<Rightarrow> control_db" where
  "resolve_cancelled_check_run up now i db =
     (if \<not> up W_Context then db
      else case get_task_context db i of
        None \<Rightarrow> db
      | Some c \<Rightarrow> enqueue_resolution (up W_Check) now i c CCancelled superseded_note db)"

section \<open>The buffering handlers\<close>

definition write_reply :: "db_link \<Rightarrow> string \<Rightarrow> 'a \<Rightarrow> 'a \<Rightarrow> json http_reply \<times> 'a" where
  "write_reply link failure tab tab' =
     (case link of
        No_Pool \<Rightarrow> (Service_Unavailable ''no database'', tab)
      | Down \<Rightarrow> (Internal_Error failure, tab)
      | Up \<Rightarrow> (No_Content, tab'))"

definition retract_inline ::
  "db_link \<Rightarrow> string \<Rightarrow> string \<Rightarrow> int \<Rightarrow> pending_table \<Rightarrow> json http_reply \<times> pending_table" where
  "retract_inline link i path line pt = write_reply link ''retract error'' pt (delete_pending_inline i path line pt)"

definition clear_inline :: "db_link \<Rightarrow> string \<Rightarrow> pending_table \<Rightarrow> json http_reply \<times> pending_table" where
  "clear_inline link i pt = write_reply link ''clear error'' pt (clear_pending_action i Inline_Action pt)"

definition add_review_comment ::
  "db_link \<Rightarrow> string \<Rightarrow> pending_inline \<Rightarrow> pending_table \<Rightarrow> json http_reply \<times> pending_table" where
  "add_review_comment link i a pt = write_reply link ''buffer error'' pt (upsert_pending_inline i a pt)"

definition set_review_summary ::
  "db_link \<Rightarrow> string \<Rightarrow> string \<Rightarrow> pending_table \<Rightarrow> json http_reply \<times> pending_table" where
  "set_review_summary link i body pt = write_reply link ''buffer error'' pt (upsert_pending_summary i body pt)"

text \<open>A reply is keyed by the run the server resolves; if that lookup fails the reply is appended
  without a key.\<close>

definition add_review_reply ::
  "bool \<Rightarrow> db_link \<Rightarrow> tasks \<Rightarrow> string \<Rightarrow> string \<Rightarrow> string option \<Rightarrow> pending_table \<Rightarrow> json http_reply \<times> pending_table" where
  "add_review_reply up_epoch link ts i body call_id pt =
     (if link = No_Pool then (Service_Unavailable ''no database'', pt)
      else if up_epoch \<and> run_epoch_of ts i = None then (Not_Found ''task not found'', pt)
      else write_reply link ''buffer error'' pt
             (add_pending_comment i (if up_epoch then run_epoch_of ts i else None) call_id body pt))"

end
