(* ===== verification/Reconciler_Properties.thy ===== *)
theory Reconciler_Properties
  imports Reconciler "HOL-Library.Multiset"
begin

text \<open>
  What the egress consumer guarantees: deliveries do not touch the queue they come from, every payload a
  producer shapes is deliverable, an apology never overtakes a review, and the drain ends when its marks
  succeed. The last section shows what happens when they do not.
\<close>

section \<open>Deliveries leave the outbox alone\<close>

lemma record_comment_keeps [simp]:
  "cd_outbox (record_comment up now t n k db) = cd_outbox db"
  "cd_tasks (record_comment up now t n k db) = cd_tasks db"
  by (simp_all add: record_comment_def split: option.split)

lemma deliver_reaction_keeps: "deliver_reaction P repo payload nt db w = (r, db', w') \<Longrightarrow> db' = db"
  by (auto simp: deliver_reaction_def Let_def split: sum.splits prod.splits option.splits)

lemma deliver_comment_keeps:
  "deliver_comment up now P repo t payload nt k db w = (r, db', w') \<Longrightarrow> cd_outbox db' = cd_outbox db"
  by (auto simp: deliver_comment_def split: sum.splits prod.splits)

lemma deliver_review_keeps:
  "deliver_review up now P cfg repo i db w = (r, db', w') \<Longrightarrow> cd_outbox db' = cd_outbox db"
  by (auto simp: deliver_review_def Let_def persist_posted_review_def fetch_inline_ids_def
      split: sum.splits prod.splits option.splits if_splits)

lemma deliver_check_run_keeps:
  "deliver_check_run_start up P repo i db w = (r, db', w') \<Longrightarrow> cd_outbox db' = cd_outbox db"
  "deliver_check_run_resolve up P repo i db w = (r, db', w') \<Longrightarrow> db' = db"
  by (auto simp: deliver_check_run_start_def deliver_check_run_resolve_def Let_def
      split: sum.splits prod.splits option.splits if_splits)

lemma deliver_pr_open_keeps: "deliver_pr_open up sha256 i db w = (r, db', w') \<Longrightarrow> db' = db"
  by (auto simp: deliver_pr_open_def split: option.splits if_splits)

lemma deliver_keeps: "deliver up sha256 now P cfg repo i db w = (r, db', w') \<Longrightarrow> cd_outbox db' = cd_outbox db"
  by (auto simp: deliver_def Let_def split: if_splits
      dest: deliver_reaction_keeps deliver_comment_keeps deliver_review_keeps deliver_check_run_keeps deliver_pr_open_keeps)

lemma drain_row_outbox:
  "drain_row R up now r (db, w) = (b, db', w') \<Longrightarrow>
     cd_outbox db' = cd_outbox db \<and> \<not> up Q_Mark
     \<or> (\<exists>ref. cd_outbox db' = mark_outbox_posted now (ob_id r) ref (cd_outbox db))
     \<or> \<not> b \<and> (\<exists>e. cd_outbox db' = mark_outbox_failed now (ob_id r) e (cd_outbox db))"
  by (auto simp: drain_row_def mark_row_def split: option.splits prod.splits sum.splits if_splits dest!: deliver_keeps)

section \<open>An apology never overtakes a review\<close>

definition promises_content :: "string \<Rightarrow> outbox_row \<Rightarrow> bool" where
  "promises_content i r \<longleftrightarrow> for_task i r \<and> in_kind (ob_intent r) \<in> {''review'', ''reply''}
     \<and> ob_status r \<in> {Pending, Posted}"

lemma promised:
  "r \<in> set (ob_rows (cd_outbox db)) \<Longrightarrow> promises_content i r \<Longrightarrow> has_responded_or_pending_content db i"
  by (auto simp: has_responded_or_pending_content_def promises_content_def list_ex_iff)

lemma drain_row_promise:
  assumes "outbox_ok (cd_outbox db)" "r \<in> set (ob_rows (cd_outbox db))" "promises_content i r"
    "ob_attempts r + 1 < OUTBOX_MAX_ATTEMPTS" "drain_row R up now r (db, w) = (b, db', w')"
  shows "has_responded_or_pending_content db' i"
proof -
  have "promises_content i (posted_row now ref r)" "promises_content i (failed_row now e r)" for ref e
    using assms(3,4) by (auto simp: promises_content_def for_task_def posted_row_def failed_row_def Let_def)
  moreover have "posted_row now ref r \<in> set (ob_rows (mark_outbox_posted now (ob_id r) ref (cd_outbox db)))"
    "failed_row now e r \<in> set (ob_rows (mark_outbox_failed now (ob_id r) e (cd_outbox db)))" for ref e
    using assms(2) by (auto simp: mark_outbox_posted_def mark_outbox_failed_def set_update_where)
  ultimately show ?thesis
    using drain_row_outbox [OF assms(5)] assms(2,3) promised [of _ db' i] by (elim disjE exE conjE) metis+
qed

text \<open>
  C25. While a task's review or reply still has a delivery attempt to come, its failure notice is
  consumed silently: whatever becomes of the row being delivered (posted, backed off, or left unmarked by
  a failing database), a notice of the same task handled after it posts nothing and changes nothing,
  provided the database answers the notice's own check; if that check fails the notice goes out like any
  comment.
\<close>

theorem notice_never_overtakes_a_review:
  assumes "outbox_ok (cd_outbox db)" "r \<in> set (ob_rows (cd_outbox db))" "promises_content i r"
    and "ob_attempts r + 1 < OUTBOX_MAX_ATTEMPTS" "drain_row R up now r (db, w) = (b, db', w')"
    and "in_kind n = ''failure_notice''" "in_task_id n = Some i"
  shows "deliver up' sha256 later P cfg repo n db' v =
    (if up' Q_Responded then (Inr None, db', v)
     else deliver_comment up' later P repo (Some i) (in_payload n)
            (Option.bind (json_get (in_payload n) ''target_type'') as_str) ''failure_notice'' db' v)"
  using drain_row_promise [OF assms(1-5)] assms(6,7) by (simp add: deliver_def responded_def Let_def)

text \<open>And it is not withheld for good: once the content is dead-lettered and nothing of the task was
  ever recorded as posted, the notice goes out.\<close>

lemma notice_after_dead_letter:
  assumes "list_all (\<lambda>w. rw_task_id w \<noteq> i) (cd_reviews db)" "list_all (\<lambda>c. cw_task_id c \<noteq> i) (cd_comments db)"
    "list_all (\<lambda>r. \<not> promises_content i r) (ob_rows (cd_outbox db))"
    "in_kind n = ''failure_notice''" "in_task_id n = Some i"
  shows "deliver up sha256 now P cfg repo n db w =
     deliver_comment up now P repo (Some i) (in_payload n)
       (Option.bind (json_get (in_payload n) ''target_type'') as_str) ''failure_notice'' db w"
proof -
  have "\<not> has_responded_or_pending_content db i"
    using assms(1-3) by (auto simp: has_responded_or_pending_content_def promises_content_def list_ex_iff list_all_iff)
  then show ?thesis using assms(4,5) by (simp add: deliver_def responded_def Let_def)
qed

section \<open>What producers shape, the consumer can read\<close>

text \<open>The intents the producers build, with any arguments.\<close>

inductive produced :: "intent \<Rightarrow> bool" where
  Review: "review_fits p \<Longrightarrow> produced (target_intent t ''review'' (encode_review p))"
| Reply: "produced (target_intent t ''reply''
    (JObj [(''issue'', JInt issue), (''body'', JStr body), (''target_type'', JStr tt)]))"
| Reaction: "produced (target_intent t ''reaction'' (reaction_payload issue content cid tt))"
| Notice: "produced (target_intent t ''failure_notice''
    (JObj [(''issue'', JInt issue), (''body'', JStr render_failure_notice), (''target_type'', JStr tt)]))"
| Start: "produced (target_intent t ''check_run_start'' (JObj [(''pr'', JInt pr), (''head_sha'', JStr sha)]))"
| Resolve: "produced (target_intent t ''check_run_resolve''
    (JObj [(''pr'', JInt pr), (''head_sha'', JStr sha), (''conclusion'', JStr (conclusion_text c)),
           (''title'', JStr title), (''summary'', JStr summary)]))"
| Open: "produced (target_intent t ''pr_open'' (encode_pr_open po))"

text \<open>Every intent a producer puts into the outbox is one of these.\<close>

lemma row_of_enqueued:
  "r \<in> set (ob_rows (snd (enqueue_outbox_post now ts i key ob))) \<Longrightarrow> r \<in> set (ob_rows ob) \<or> ob_intent r = i"
  using enqueue_cases [of now ts i key ob] by (auto simp: new_outbox_row_def)

lemma producers_produce:
  "list_all (\<lambda>r. produced (ob_intent r)) (ob_rows ob) \<Longrightarrow>
     enq \<in> {enqueue_reply t issue body tt, enqueue_reaction t issue content cid tt,
            enqueue_verdict_reaction t issue content cid tt, enqueue_failure_notice t issue tt,
            enqueue_check_run_start t issue sha, enqueue_check_run_resolve t issue sha c title summary,
            enqueue_pr_open t i epoch po}
     \<or> (\<exists>p. review_fits p \<and> enq = enqueue_review t p) \<Longrightarrow>
     list_all (\<lambda>r. produced (ob_intent r)) (ob_rows (snd (enq now ts ob)))"
  by (auto simp: list_all_iff enqueue_reply_def enqueue_reaction_def enqueue_verdict_reaction_def
      enqueue_failure_notice_def enqueue_check_run_start_def enqueue_check_run_resolve_def enqueue_review_def
      enqueue_pr_open_def enqueue_intent_def dest!: row_of_enqueued)
    (rule produced.intros; assumption?)+

text \<open>A platform that accepts everything it is asked.\<close>

definition accepting :: "'w code_platform \<Rightarrow> bool" where
  "accepting P \<longleftrightarrow>
     (\<forall>repo post w. is_ok (fst (api_post_review P repo post w)))
     \<and> (\<forall>repo n body nt w. is_ok (fst (api_post_comment P repo n body nt w)))
     \<and> (\<forall>repo target c nt w. is_ok (fst (api_add_reaction P repo target c nt w)))
     \<and> (\<forall>repo sha w. is_ok (fst (api_start_check_run P repo sha w)))
     \<and> (\<forall>repo res w. is_ok (fst (api_resolve_check_run P repo res w)))"

lemma accepting_calls:
  assumes "accepting P"
  shows "api_post_review P repo post w \<noteq> (Inl e, w')" "api_post_comment P repo n body nt w \<noteq> (Inl e, w')"
    "api_add_reaction P repo target c nt w \<noteq> (Inl e, w')" "api_start_check_run P repo sha w \<noteq> (Inl e, w')"
    "api_resolve_check_run P repo res w \<noteq> (Inl e, w')"
  using assms unfolding accepting_def by (metis fst_conv sum.disc(1))+

text \<open>
  C24. Every payload the producers shape, with the numbers of a review in range, is one the consumer can read:
  on a platform that is there and accepts its calls, the delivery of a produced intent succeeds, whatever the
  database answers, except that of a proposal to open a pull request, which always fails, since it is not
  activated. (A row whose platform has no implementation is backed off before any delivery, outside of this.)
\<close>

theorem produced_intents_deliver:
  assumes "produced i" "accepting P"
  shows "is_ok (fst (deliver up sha256 now P cfg repo i db w)) \<longleftrightarrow> in_kind i \<noteq> ''pr_open''"
  using assms(1)
proof cases
  case (Review p t)
  then show ?thesis using accepting_calls(1) [OF assms(2)]
    by (auto simp: deliver_def Let_def target_intent_def deliver_review_def review_roundtrip split: prod.split sum.split)
next
  case (Reply t issue body tt)
  then show ?thesis using accepting_calls(2) [OF assms(2)]
    by (auto simp: deliver_def Let_def target_intent_def deliver_comment_def payload_i64_def payload_str_def
        split: prod.split sum.split)
next
  case (Reaction t issue content cid tt)
  then show ?thesis using accepting_calls(3) [OF assms(2)]
    by (cases cid) (auto simp: deliver_def Let_def target_intent_def deliver_reaction_def reaction_payload_def
        payload_i64_def payload_str_def split: prod.split sum.split)
next
  case (Notice t issue tt)
  then show ?thesis using accepting_calls(2) [OF assms(2)]
    by (auto simp: deliver_def Let_def target_intent_def deliver_comment_def payload_i64_def payload_str_def
        split: prod.split sum.split)
next
  case (Start t pr sha)
  then show ?thesis using accepting_calls(4) [OF assms(2)]
    by (auto simp: deliver_def Let_def target_intent_def deliver_check_run_start_def check_run_start_roundtrip
        split: prod.split sum.split)
next
  case (Resolve t pr sha c title summary)
  then show ?thesis using accepting_calls(5) [OF assms(2)]
    by (auto simp: deliver_def Let_def target_intent_def deliver_check_run_resolve_def check_run_resolve_roundtrip
        split: prod.split sum.split)
next
  case (Open t po)
  then show ?thesis by (auto simp: deliver_def Let_def target_intent_def deliver_pr_open_def split: option.split)
qed

text \<open>A platform for the witnesses: it accepts everything, gives each post the next number and keeps the
  number of posts as its world.\<close>

definition counting_platform :: "nat code_platform" where
  "counting_platform =
     \<lparr>api_post_review = (\<lambda>_ _ n. (Inr \<lparr>ps_id = Some (int n), ps_html_url = None\<rparr>, n + 1)),
      api_post_comment = (\<lambda>_ _ _ _ n. (Inr \<lparr>ps_id = Some (int n), ps_html_url = None\<rparr>, n + 1)),
      api_add_reaction = (\<lambda>_ _ _ _ n. (Inr (), n)), api_add_labels = (\<lambda>_ _ _ n. (Inr (), n)),
      api_start_check_run = (\<lambda>_ _ n. (Inr None, n)), api_resolve_check_run = (\<lambda>_ _ n. (Inr (), n)),
      api_list_review_comments = (\<lambda>_ _ _ n. (Inr [], n))\<rparr>"

lemma counting_accepts: "accepting counting_platform"
  by (simp add: accepting_def counting_platform_def)

definition empty_db :: control_db where
  "empty_db = \<lparr>cd_tasks = [], cd_snapshots = [], cd_repos = [], cd_outbox = empty_outbox, cd_reviews = [],
     cd_comments = [], cd_feedback = [], cd_pending = empty_pending, cd_steps = [], cd_blobs = []\<rparr>"

definition sample_target :: target where
  "sample_target = \<lparr>tg_task_id = Some ''t'', tg_platform = GitHub, tg_installation_id = 1, tg_owner = ''o'',
     tg_repo = ''r''\<rparr>"

definition no_labels :: review_section where
  "no_labels = \<lparr>rs_reactions = None, rs_label_reviewed = None, rs_label_findings = None, rs_label_error = None\<rparr>"

theorem produced_intents_deliver_witness:
  "is_ok (fst (deliver (\<lambda>_. True) id 0 counting_platform no_labels
     \<lparr>rr_platform = GitHub, rr_full_name = ''o/r'', rr_platform_repo_id = 0, rr_installation_id = 1\<rparr>
     (target_intent sample_target ''reaction'' (reaction_payload 3 ''eyes'' None ''pull_request'')) empty_db 0))"
  by (subst produced_intents_deliver) (simp_all add: produced.Reaction counting_accepts, simp add: target_intent_def)

section \<open>The drain ends\<close>

definition pending_count :: "outbox_table \<Rightarrow> nat" where
  "pending_count ob = length (filter (\<lambda>r. ob_status r = Pending) (ob_rows ob))"

lemma filter_update_le:
  "(\<And>x. x \<in> set xs \<Longrightarrow> P x \<Longrightarrow> Q (f x) \<Longrightarrow> Q x) \<Longrightarrow>
     length (filter Q (update_where P f xs)) \<le> length (filter Q xs)"
  by (induction xs) (auto simp: update_where_def)

lemma filter_update_less:
  assumes "\<And>x. x \<in> set xs \<Longrightarrow> P x \<Longrightarrow> \<not> Q (f x)" "list_ex (\<lambda>x. P x \<and> Q x) xs"
  shows "length (filter Q (update_where P f xs)) < length (filter Q xs)"
  using assms
proof (induction xs)
  case (Cons x xs)
  have le: "length (filter Q (update_where P f xs)) \<le> length (filter Q xs)"
    using Cons.prems(1) by (intro filter_update_le) auto
  show ?case
  proof (cases "P x \<and> Q x")
    case True
    then show ?thesis using le Cons.prems(1) by (simp add: update_where_def)
  next
    case False
    then have "length (filter Q (update_where P f xs)) < length (filter Q xs)"
      using Cons by auto
    then show ?thesis using False Cons.prems(1) [of x] by (auto simp: update_where_def)
  qed
qed simp

lemma mark_count:
  assumes "outbox_ok ob" "pending_id ob n"
  shows "pending_count (mark_outbox_posted now n ref ob) < pending_count ob"
    and "pending_count (mark_outbox_failed now n e ob) \<le> pending_count ob"
proof -
  show "pending_count (mark_outbox_posted now n ref ob) < pending_count ob"
    using assms(2) by (auto simp: pending_count_def mark_outbox_posted_def pending_id_def posted_row_def
        intro!: filter_update_less)
  show "pending_count (mark_outbox_failed now n e ob) \<le> pending_count ob"
    using pending_unique [OF assms]
    by (auto simp: pending_count_def mark_outbox_failed_def intro!: filter_update_le)
qed

lemma mark_other:
  "m \<noteq> n \<Longrightarrow> pending_id (mark_outbox_posted now n ref ob) m = pending_id ob m"
  "m \<noteq> n \<Longrightarrow> pending_id (mark_outbox_failed now n e ob) m = pending_id ob m"
  by (auto simp: pending_id_def mark_outbox_posted_def mark_outbox_failed_def list_ex_iff set_update_where
      posted_row_def failed_row_def Let_def)

lemma drain_rows_count:
  assumes "outbox_ok (cd_outbox (fst s))" "list_all (\<lambda>r. pending_id (cd_outbox (fst s)) (ob_id r)) rs"
    "distinct (map ob_id rs)" "\<And>m. up m Q_Mark" "drain_rows R up now rs s = (n, s')"
  shows "outbox_ok (cd_outbox (fst s')) \<and> pending_count (cd_outbox (fst s')) + n \<le> pending_count (cd_outbox (fst s))"
  using assms
proof (induction rs arbitrary: s n)
  case (Cons r rs)
  obtain db w where s: "s = (db, w)" by (cases s)
  obtain b db1 w1 where one: "drain_row R (up (ob_id r)) now r (db, w) = (b, db1, w1)"
    by (cases "drain_row R (up (ob_id r)) now r (db, w)")
  obtain m where rest: "drain_rows R up now rs (db1, w1) = (m, s')" "n = (if b then 1 else 0) + m"
    using Cons.prems(5) by (auto simp: s one split: prod.splits)
  have ok: "outbox_ok (cd_outbox db)" "pending_id (cd_outbox db) (ob_id r)" using Cons.prems(1,2) by (simp_all add: s)
  consider (posted) ref where "cd_outbox db1 = mark_outbox_posted now (ob_id r) ref (cd_outbox db)"
    | (failed) e where "cd_outbox db1 = mark_outbox_failed now (ob_id r) e (cd_outbox db)" "\<not> b"
    using drain_row_outbox [OF one] Cons.prems(4) by blast
  then have step: "outbox_ok (cd_outbox db1)
      \<and> pending_count (cd_outbox db1) + (if b then 1 else 0) \<le> pending_count (cd_outbox db)
      \<and> (\<forall>k. k \<noteq> ob_id r \<longrightarrow> pending_id (cd_outbox db1) k = pending_id (cd_outbox db) k)"
  proof cases
    case (posted ref)
    then show ?thesis using settle_ok(1) [OF ok, of now ref] mark_count(1) [OF ok, of now ref] by (simp add: mark_other)
  next
    case (failed e)
    then show ?thesis using settle_ok(2) [OF ok, of now e] mark_count(2) [OF ok, of now e] by (simp add: mark_other)
  qed
  have "list_all (\<lambda>r. pending_id (cd_outbox db1) (ob_id r)) rs"
    using Cons.prems(2,3) step by (auto simp: s list_all_iff) (metis image_eqI)
  then have "outbox_ok (cd_outbox (fst s')) \<and> pending_count (cd_outbox (fst s')) + m \<le> pending_count (cd_outbox db1)"
    using Cons.IH [of "(db1, w1)" m] step Cons.prems(3,4) rest(1) by simp
  then show ?case using step rest(2) by (simp add: s)
qed simp

lemma claimed_pending:
  assumes "outbox_ok ob"
  shows "list_all (\<lambda>r. pending_id ob (ob_id r)) (claim_outbox_batch now limit ob)"
    and "distinct (map ob_id (claim_outbox_batch now limit ob))"
proof -
  let ?sorted = "sort_key (\<lambda>r. (ob_created_at r, ob_id r)) (filter (ob_due now) (ob_rows ob))"
  have "mset (map ob_id ?sorted) = mset (map ob_id (filter (ob_due now) (ob_rows ob)))" by simp
  moreover have "distinct (map ob_id (filter (ob_due now) (ob_rows ob)))"
    using assms by (simp add: outbox_ok_def distinct_map_filter)
  ultimately have "distinct (map ob_id ?sorted)" by (metis mset_eq_imp_distinct_iff)
  then show "distinct (map ob_id (claim_outbox_batch now limit ob))"
    unfolding claim_outbox_batch_def take_map [symmetric] by (rule distinct_take)
  show "list_all (\<lambda>r. pending_id ob (ob_id r)) (claim_outbox_batch now limit ob)"
    using set_take_subset [of limit ?sorted]
    by (auto simp: list_all_iff claim_outbox_batch_def pending_id_def list_ex_iff ob_due_def)
qed

text \<open>
  C26. The egress drain ends: when its marks succeed it makes at most one pass more than there are
  pending intents, whatever the platforms answer, whichever of the deliveries' own queries fail, and
  however the clock moves, because every pass but the last settles an intent for good.
\<close>

theorem drain_ends:
  assumes "outbox_ok (cd_outbox (fst s))" "\<And>k m. up k m Q_Mark" "pending_count (cd_outbox (fst s)) < fuel"
  shows "drain_all fuel R claim_ok up clock k s \<noteq> None"
  using assms(1,3)
proof (induction fuel arbitrary: k s)
  case (Suc fuel)
  show ?case
  proof (cases "claim_ok k")
    case True
    let ?rs = "claim_outbox_batch (clock k) DRAIN_BATCH (cd_outbox (fst s))"
    obtain n s' where d: "drain_rows R (up k) (clock k) ?rs s = (n, s')"
      by (cases "drain_rows R (up k) (clock k) ?rs s")
    have "outbox_ok (cd_outbox (fst s')) \<and> pending_count (cd_outbox (fst s')) + n \<le> pending_count (cd_outbox (fst s))"
      using drain_rows_count [OF Suc.prems(1) claimed_pending [OF Suc.prems(1)] _ d] assms(2) by blast
    then show ?thesis using Suc.IH [of s' "Suc k"] Suc.prems(2) d True by (auto simp: drain_once_def)
  qed (simp add: drain_once_def)
qed simp

text \<open>One due reply in the outbox, to be posted on the counting platform.\<close>

definition one_reply :: control_db where
  "one_reply = empty_db\<lparr>cd_outbox := \<lparr>ob_rows = [new_outbox_row 0 1 None
     (target_intent (sample_target\<lparr>tg_task_id := None\<rparr>) ''reply''
        (JObj [(''issue'', JInt 3), (''body'', JStr ''hi''), (''target_type'', JStr ''issue'')])) ''o/r#3:reply''],
     ob_seq = 1\<rparr>\<rparr>"

definition counting_reconciler :: "nat reconciler" where
  "counting_reconciler = \<lparr>rc_platforms = (\<lambda>_. Some counting_platform), rc_review = no_labels, rc_sha256 = id\<rparr>"

lemma one_reply_ok: "outbox_ok (cd_outbox one_reply)" "pending_count (cd_outbox one_reply) = 1"
  by (simp_all add: one_reply_def outbox_ok_def outbox_row_ok_def new_outbox_row_def target_intent_def OUTBOX_KINDS_def
      OUTBOX_MAX_ATTEMPTS_def pending_count_def)

theorem drain_ends_witness:
  "drain_all 2 counting_reconciler (\<lambda>_. True) (\<lambda>_ _ _. True) id 0 (one_reply, 0) \<noteq> None"
  by (rule drain_ends) (simp_all add: one_reply_ok)

section \<open>A mark that fails\<close>

text \<open>
  A delivery is undone by the failure of its mark: as long as the database answers the claim but
  refuses the mark, the drain posts the same intent again in every pass, once per pass, and never ends.
\<close>

theorem unmarked_reply_is_posted_again:
  "drain_once counting_reconciler True (\<lambda>_ q. q \<noteq> Q_Mark) now (one_reply, n) = (Inr 1, (one_reply, n + 1))
   \<and> drain_all fuel counting_reconciler (\<lambda>_. True) (\<lambda>_ _ q. q \<noteq> Q_Mark) clock k (one_reply, n) = None"
proof -
  have one: "drain_once counting_reconciler True (\<lambda>_ q. q \<noteq> Q_Mark) now (one_reply, n) = (Inr 1, (one_reply, n + 1))"
    for now n
  proof -
    have "claim_outbox_batch now DRAIN_BATCH (cd_outbox one_reply) = ob_rows (cd_outbox one_reply)"
      by (simp add: claim_outbox_batch_def one_reply_def DRAIN_BATCH_def ob_due_def new_outbox_row_def)
    then show ?thesis
      by (simp add: drain_once_def one_reply_def drain_row_def counting_reconciler_def deliver_def target_intent_def
          deliver_comment_def payload_i64_def payload_str_def new_outbox_row_def counting_platform_def
          record_comment_def mark_row_def sample_target_def Let_def)
  qed
  moreover have "drain_all fuel counting_reconciler (\<lambda>_. True) (\<lambda>_ _ q. q \<noteq> Q_Mark) clock k (one_reply, n) = None"
    by (induction fuel arbitrary: k n) (simp_all add: one)
  ultimately show ?thesis by blast
qed

text \<open>The witness of the notice property: a pending review, and the notice of the same task.\<close>

theorem notice_never_overtakes_a_review_witness:
  "\<exists>db'. deliver (\<lambda>_. True) id 9 counting_platform no_labels
       \<lparr>rr_platform = GitHub, rr_full_name = ''o/r'', rr_platform_repo_id = 0, rr_installation_id = 1\<rparr>
       (target_intent sample_target ''failure_notice'' JNull) db' 4 = (Inr None, db', 4)"
proof -
  let ?r = "new_outbox_row 0 1 None (target_intent sample_target ''review'' JNull) ''t:review''"
  let ?db = "empty_db\<lparr>cd_outbox := \<lparr>ob_rows = [?r], ob_seq = 1\<rparr>\<rparr>"
  obtain b db' w' where d: "drain_row counting_reconciler (\<lambda>_. True) 0 ?r (?db, 0) = (b, db', w')"
    by (cases "drain_row counting_reconciler (\<lambda>_. True) 0 ?r (?db, 0)")
  have "outbox_ok (cd_outbox ?db)"
    by (simp add: outbox_ok_def outbox_row_ok_def new_outbox_row_def target_intent_def OUTBOX_KINDS_def OUTBOX_MAX_ATTEMPTS_def)
  from notice_never_overtakes_a_review [OF this _ _ _ d, of "''t''" "target_intent sample_target ''failure_notice'' JNull"
      "\<lambda>_. True" id 9 counting_platform no_labels
      "\<lparr>rr_platform = GitHub, rr_full_name = ''o/r'', rr_platform_repo_id = 0, rr_installation_id = 1\<rparr>" 4]
  show ?thesis
    by (intro exI [of _ db'])
      (simp add: new_outbox_row_def promises_content_def for_task_def target_intent_def sample_target_def OUTBOX_MAX_ATTEMPTS_def)
qed

end
