(* ===== verification/Worker_Properties.thy ===== *)
theory Worker_Properties
  imports Queue_Workers Reconciler_Properties
begin

text \<open>
  What the dispatcher and the reaper guarantee: the reaper follows the Job, the claim loop ends even when
  every launch fails, every check that was opened is resolved on failure, and a cycle with nothing to
  reap leaves the Jobs of cancelled tasks running.
\<close>

section \<open>Configuration\<close>

lemma defaulted_positive:
  "0 < dflt \<Longrightarrow> 0 < secs_or v dflt" "0 < d \<Longrightarrow> 0 < days_or v' d"
  by (simp_all add: secs_or_def days_or_def split: option.split)

text \<open>Whatever the configuration file and the environment hold, no interval, lease, retention or batch
  of the dispatcher is zero or negative.\<close>

lemma dispatcher_config_positive:
  "let c = from_file_with_env parse_i64 env section_opt in
     0 < dc_claim_lease c \<and> 0 < dc_poll_fallback c \<and> 0 < dc_launch_backoff c \<and> 0 < dc_reap_interval c
     \<and> 0 < dc_prune_interval c \<and> 0 < dc_purge_interval c \<and> 0 < dc_posted_retention c
     \<and> 0 < dc_failed_retention c \<and> 0 < dc_a2a_ttl c \<and> 0 < dc_a2a_batch c
     \<and> 0 < dc_payload_retention c \<and> 0 < dc_payload_batch c"
  by (simp add: from_file_with_env_def Let_def defaulted_positive)

section \<open>Enqueues leave the task table alone\<close>

lemma enqueue_db_keeps [simp]:
  "cd_tasks (snd (enqueue_db now enq db)) = cd_tasks db" "cd_repos (snd (enqueue_db now enq db)) = cd_repos db"
  by (simp_all add: enqueue_db_def split: prod.split)

lemma best_effort_keeps [simp]:
  "cd_tasks (best_effort ok now enq db) = cd_tasks db" "cd_repos (best_effort ok now enq db) = cd_repos db"
  by (simp_all add: best_effort_def)

lemma enqueue_resolution_keeps [simp]: "cd_tasks (enqueue_resolution ok now i c concl output db) = cd_tasks db"
  by (simp add: enqueue_resolution_def split: option.split)

lemma enqueue_failure_keeps [simp]: "cd_tasks (enqueue_failure up now cfg i concl db) = cd_tasks db"
  by (simp add: enqueue_failure_def Let_def split: option.split)

lemma signals_keep [simp]:
  "cd_tasks (react_work_started up now cfg t db) = cd_tasks db"
  "cd_tasks (start_check_run_signal up now t db) = cd_tasks db"
  by (simp_all add: react_work_started_def start_check_run_signal_def split: option.split)

section \<open>The reaper follows the Job\<close>

lemma requeue_backoff_bounds: "15 \<le> requeue_backoff n" "requeue_backoff n \<le> 600"
  by (simp_all add: requeue_backoff_def)

lemma reaped_row:
  assumes "t \<in> set (list_reapable_tasks now limit ts)"
  shows "t \<in> set ts" "is_active (tk_status t)"
  using assms set_take_subset [of limit "sort_key reap_key (filter (reapable now) ts)"]
  by (auto simp: list_reapable_tasks_def reapable_def)

lemma get_row_settled:
  assumes "get_row ts i = Some t" "is_terminal status"
  shows "get_row (fst (snd (set_task_status now i status detail (ts, s)))) i = Some (settled_row now status detail t)"
  using assms
  by (simp add: set_task_status_def Let_def release_reviews_waiting_on_index_def get_row_update)
    (auto simp: get_row_Some settled_row_def is_terminal_def dest: get_row_Some)

lemma get_row_active:
  assumes "get_row ts i = Some t" "is_active (tk_status t)" "keeps_identity f"
  shows "get_row (update_where (active_id i) f ts) i = Some (f t)"
  using assms get_row_Some [OF assms(1)] by (simp add: get_row_update active_id_def)

lemma apply_status_tasks:
  "cd_tasks (apply_status now i status detail db)
     = fst (snd (set_task_status now i status detail (cd_tasks db, cd_snapshots db)))"
  by (simp add: apply_status_def split: prod.split)

text \<open>What is known of a task's Job (one without a recorded Job counts as gone), and the write that follows.\<close>

definition found_liveness :: "'w task_launcher \<Rightarrow> task_row \<Rightarrow> 'w \<Rightarrow> (string, job_liveness) result \<times> 'w" where
  "found_liveness L t w =
     (case tk_job_name t of None \<Rightarrow> (Inr Job_Gone, w) | Some job \<Rightarrow> tl_job_liveness L job w)"

definition needed_write :: "job_liveness \<Rightarrow> nat \<Rightarrow> worker_query" where
  "needed_write lv attempts =
     (if lv = Job_Active then W_Renew else if lv = Job_Succeeded \<or> 5 \<le> attempts then W_Status else W_Release)"

text \<open>
  C11. The reaper follows the Job: for a task whose lease ran out, an unanswered liveness call changes
  nothing; a live Job gets its lease renewed and the row is otherwise untouched; a completed one settles
  the task as succeeded; a dead one, or one never recorded, is requeued, without its Job and between 15 s and
  ten minutes later, while it has had fewer than five attempts, and failed after that. Once that write went
  through the task is no longer reapable; if it failed the row is as it was, for the next cycle.
\<close>

theorem reaper_follows_the_job:
  assumes "reachable_queue (cd_tasks db, cd_snapshots db)"
    and "t \<in> set (list_reapable_tasks now limit (cd_tasks db))"
  shows "case found_liveness L t w of
      (Inl e, w') \<Rightarrow> reap_task up now L cfg t (db, w) = (db, w')
    | (Inr lv, w') \<Rightarrow>
        (case get_row (cd_tasks (fst (reap_task up now L cfg t (db, w)))) (tk_id t) of
           None \<Rightarrow> False
         | Some u \<Rightarrow>
             if \<not> up (needed_write lv (tk_attempts t)) then u = t
             else \<not> reapable now u
               \<and> (case lv of
                    Job_Active \<Rightarrow> u = t\<lparr>tk_lease_expires_at := Some (now + 120)\<rparr>
                  | Job_Succeeded \<Rightarrow> tk_status u = Succeeded
                  | _ \<Rightarrow>
                      (if tk_attempts t < 5
                       then tk_status u = Queued \<and> tk_attempts u = tk_attempts t \<and> tk_job_name u = None
                         \<and> now + 15 \<le> tk_run_after u \<and> tk_run_after u \<le> now + 600
                       else tk_status u = Failed)))"
proof -
  have row: "get_row (cd_tasks db) (tk_id t) = Some t" "is_active (tk_status t)"
    using reachable_ok [OF assms(1)] reaped_row [OF assms(2)] by (simp_all add: queue_ok_def get_row_in)
  have idle: "\<not> reapable now (settled_row now st d t)" if "is_terminal st" for st d
    using that by (simp add: reapable_def settled_row_def)
  have settled: "get_row (fst (snd (set_task_status now (tk_id t) st d (cd_tasks db, cd_snapshots db)))) (tk_id t)
      = Some (settled_row now st d t)" "tk_status (settled_row now st d t) = st" if "is_terminal st" for st d
    using get_row_settled [OF row(1) that] by (simp_all add: settled_row_def)
  have final: "is_terminal Succeeded" "is_terminal Failed" by (simp_all add: is_terminal_def)
  obtain r w' where call: "found_liveness L t w = (r, w')" by fastforce
  show ?thesis
  proof (cases r)
    case (Inl e)
    then show ?thesis using call by (auto simp: reap_task_def found_liveness_def split: option.splits)
  next
    case (Inr lv)
    have act: "reap_task up now L cfg t (db, w) = reap_act up now L cfg t (decide lv (tk_attempts t) MAX_ATTEMPTS) (db, w')"
      using call Inr by (auto simp: reap_task_def found_liveness_def split: option.splits)
    have renewed: "get_row (cd_tasks (fst (reap_act up now L cfg t Renew_Lease (db, w')))) (tk_id t)
        = Some (if up W_Renew then t\<lparr>tk_lease_expires_at := Some (now + 120)\<rparr> else t)"
      using row(1) get_row_active [OF row, of "\<lambda>t. t\<lparr>tk_lease_expires_at := Some (now + 120)\<rparr>"]
      by (simp add: reap_act_def renew_lease_def LEASE_RENEWAL_def)
    have succeeded: "get_row (cd_tasks (fst (reap_act up now L cfg t Mark_Succeeded (db, w')))) (tk_id t)
        = Some (if up W_Status then settled_row now Succeeded None t else t)"
      using row(1) settled [OF final(1)] by (simp add: reap_act_def apply_status_tasks)
    have failed: "get_row (cd_tasks (fst (reap_act up now L cfg t Give_Up (db, w')))) (tk_id t)
        = Some (if up W_Status then settled_row now Failed (Some reap_detail) t else t)"
      using row(1) settled [OF final(2)]
      by (simp add: reap_act_def apply_status_tasks enqueue_reaper_failure_notice_def)
    have requeued: "get_row (cd_tasks (fst (reap_act up now L cfg t Requeue (db, w')))) (tk_id t)
        = Some (if up W_Release then t\<lparr>tk_status := Queued, tk_lease_owner := None, tk_lease_expires_at := None,
               tk_started_at := None, tk_job_name := None, tk_run_after := now + requeue_backoff (tk_attempts t)\<rparr> else t)"
      using row(1) get_row_active [OF row, of "\<lambda>u. u\<lparr>tk_status := Queued, tk_lease_owner := None,
          tk_lease_expires_at := None, tk_started_at := None, tk_job_name := None,
          tk_run_after := now + requeue_backoff (tk_attempts t)\<rparr>"]
      by (simp add: reap_act_def release_task_def)
    show ?thesis
      using Inr call renewed succeeded failed requeued idle [OF final(1)] idle [OF final(2)] settled(2) [OF final(1)]
        settled(2) [OF final(2)] requeue_backoff_bounds [of "tk_attempts t"]
      by (cases lv) (simp_all add: act MAX_ATTEMPTS_def reapable_def is_active_def needed_write_def)
  qed
qed

definition stub_launcher :: "job_liveness \<Rightarrow> bool \<Rightarrow> nat task_launcher" where
  "stub_launcher lv accepts =
     \<lparr>tl_launch = (\<lambda>t n. (if accepts then Inr (job_name_of (tk_id t)) else Inl ''quota'', Suc n)),
      tl_job_liveness = (\<lambda>_ n. (Inr lv, n)), tl_delete_job = (\<lambda>_ n. (Inr (), Suc n))\<rparr>"

definition running_row :: task_row where
  "running_row = (claimed_row 10 ''w'' 60 (fresh_row 0 ''a'' sample_request 0 0 Queued))\<lparr>tk_job_name := Some ''job-a''\<rparr>"

lemma running_reachable: "reachable_queue ([running_row], [])"
proof -
  let ?t = "fresh_row 0 ''a'' sample_request 0 0 Queued"
  have "create_task 0 ''a'' sample_request [] = Inr (Some ''a'', [?t])"
    by (simp add: create_task_def key_taken_def id_taken_def sample_request_def fresh_row_def
        initial_status_def index_in_flight_def)
  then have "queue_step ([], []) ([?t], [])" by (rule Create)
  moreover have "queue_step ([?t], []) ([claimed_row 10 ''w'' 60 ?t], [])"
    using Claim [of "[?t]" "[]" 10 "''w''" 60 "{}"]
    by (simp add: claim_next_task_def next_due_def due_def fresh_row_def update_where_def)
  moreover have "queue_step ([claimed_row 10 ''w'' 60 ?t], []) ([running_row], [])"
    using SetJob [of "[claimed_row 10 ''w'' 60 ?t]" "[]" "''a''" "''job-a''"]
    by (simp add: set_task_job_def update_where_def running_row_def claimed_row_def fresh_row_def)
  ultimately show ?thesis
    unfolding reachable_queue_def by (meson rtranclp.rtrancl_into_rtrancl rtranclp.rtrancl_refl)
qed

definition with_tasks :: "tasks \<Rightarrow> control_db" where
  "with_tasks ts = empty_db\<lparr>cd_tasks := ts, cd_snapshots := []\<rparr>"

theorem reaper_follows_the_job_witness:
  "case get_row (cd_tasks (fst (reap_task (\<lambda>_. True) 100 (stub_launcher Job_Gone True) no_labels running_row
       (with_tasks [running_row], 0)))) (tk_id running_row) of
     None \<Rightarrow> False | Some u \<Rightarrow> \<not> reapable 100 u \<and> tk_status u = Queued \<and> tk_attempts u = 1"
proof -
  have "reachable_queue (cd_tasks (with_tasks [running_row]), cd_snapshots (with_tasks [running_row]))"
    using running_reachable by (simp add: with_tasks_def)
  moreover have "running_row \<in> set (list_reapable_tasks 100 100 (cd_tasks (with_tasks [running_row])))"
    by (simp add: with_tasks_def list_reapable_tasks_def reapable_def is_active_def running_row_def claimed_row_def)
  moreover have "found_liveness (stub_launcher Job_Gone True) running_row 0 = (Inr Job_Gone, 0)" "tk_attempts running_row = 1"
    by (simp_all add: found_liveness_def stub_launcher_def running_row_def claimed_row_def fresh_row_def)
  ultimately show ?thesis
    using reaper_follows_the_job [where db = "with_tasks [running_row]" and t = running_row and now = 100
        and limit = 100 and L = "stub_launcher Job_Gone True" and w = 0 and up = "\<lambda>_. True" and cfg = no_labels]
    by (simp split: option.splits)
qed

section \<open>Cancelled Jobs of a quiet queue\<close>

text \<open>
  A cycle stops the Jobs of cancelled tasks only if it also found an expired lease: on a queue whose
  leases are all current (or that runs nothing at all) it returns success at once, and every cancelled
  task keeps its Job, however many cycles run.
\<close>

theorem quiet_reaper_leaves_cancelled_jobs:
  assumes "list_reapable_tasks now REAP_BATCH (cd_tasks (fst s)) = []"
  shows "((\<lambda>st. snd (reap_once (True, True) up now L cfg st)) ^^ cycles) s = s
    \<and> fst (reap_once (True, True) up now L cfg s) = Inr ()"
proof -
  have "reap_once (True, True) up now L cfg s = (Inr (), s)" using assms by (simp add: reap_once_def)
  then show ?thesis by (induction cycles) simp_all
qed

theorem quiet_reaper_leaves_cancelled_jobs_witness:
  "\<exists>s. list_cancelled_with_job REAP_BATCH (cd_tasks (fst s)) \<noteq> []
     \<and> ((\<lambda>st. snd (reap_once (True, True) (\<lambda>_ _. True) 500 (stub_launcher Job_Active True) no_labels st)) ^^ 20) s = s
     \<and> fst (reap_once (True, True) (\<lambda>_ _. True) 500 (stub_launcher Job_Active True) no_labels s) = Inr ()"
proof -
  let ?s = "(with_tasks [cancelled_row 20 running_row], 0)"
  have "list_reapable_tasks 500 REAP_BATCH (cd_tasks (fst ?s)) = []"
    by (simp add: list_reapable_tasks_def with_tasks_def reapable_def cancelled_row_def is_active_def)
  from quiet_reaper_leaves_cancelled_jobs
    [OF this, where up = "\<lambda>_ _. True" and L = "stub_launcher Job_Active True" and cfg = no_labels and cycles = 20]
  have "((\<lambda>st. snd (reap_once (True, True) (\<lambda>_ _. True) 500 (stub_launcher Job_Active True) no_labels st)) ^^ 20) ?s = ?s
     \<and> fst (reap_once (True, True) (\<lambda>_ _. True) 500 (stub_launcher Job_Active True) no_labels ?s) = Inr ()" .
  moreover have "list_cancelled_with_job REAP_BATCH (cd_tasks (fst ?s)) \<noteq> []"
    by (simp add: list_cancelled_with_job_def with_tasks_def cancelled_row_def running_row_def REAP_BATCH_def)
  ultimately show ?thesis by blast
qed

section \<open>The claim loop ends\<close>

definition claimable :: "nat \<Rightarrow> tasks \<Rightarrow> nat" where
  "claimable horizon ts = length (filter (\<lambda>t. tk_status t = Queued \<and> tk_run_after t < horizon) ts)"

lemma claimable_update:
  assumes "\<And>t. P t \<Longrightarrow> \<not> (tk_status (f t) = Queued \<and> tk_run_after (f t) < horizon)"
  shows "claimable horizon (update_where P f ts) \<le> claimable horizon ts"
    and "t \<in> set ts \<Longrightarrow> P t \<Longrightarrow> tk_status t = Queued \<Longrightarrow> tk_run_after t < horizon \<Longrightarrow>
      claimable horizon (update_where P f ts) < claimable horizon ts"
proof -
  show le: "claimable horizon (update_where P f ts) \<le> claimable horizon ts" for ts
    using assms by (induction ts) (auto simp: claimable_def update_where_def)
  show "t \<in> set ts \<Longrightarrow> P t \<Longrightarrow> tk_status t = Queued \<Longrightarrow> tk_run_after t < horizon \<Longrightarrow>
      claimable horizon (update_where P f ts) < claimable horizon ts"
  proof (induction ts)
    case (Cons u ts)
    then show ?case using assms le [of ts] by (cases "t = u") (auto simp: claimable_def update_where_def)
  qed simp
qed

lemma dispatch_claimable:
  assumes "horizon \<le> now + dc_launch_backoff dc"
  shows "claimable horizon (cd_tasks (fst (dispatch_task up now L dc cfg t (db, w)))) \<le> claimable horizon (cd_tasks db)"
proof -
  have job: "claimable horizon (set_task_job i job ts) = claimable horizon ts" for i job ts
    by (induction ts) (auto simp: claimable_def set_task_job_def update_where_def)
  have "claimable horizon (snd (release_task now i (dc_launch_backoff dc) ts)) \<le> claimable horizon ts" for i ts
    using assms by (simp add: release_task_def claimable_update(1))
  then show ?thesis by (simp add: dispatch_task_def Let_def job split: prod.split sum.split)
qed

text \<open>
  The dispatcher's claim loop ends, even if every launch fails: as long as the clock does not move
  past the launch backoff while it runs, each pass takes one of the tasks that were due, so fuel above
  their number is enough whatever the launcher, the database and the other replicas answer.
\<close>

theorem claim_loop_ends:
  assumes "\<And>j. clock j < horizon" "\<And>j. horizon \<le> clock j + dc_launch_backoff dc"
    and "claimable horizon (cd_tasks (fst s)) < fuel"
  shows "\<exists>s'. dispatch_drain fuel claim_ok locked up clock owner L dc cfg k s = Some s'
    \<and> claimable horizon (cd_tasks (fst s')) \<le> claimable horizon (cd_tasks (fst s))"
  using assms(3)
proof (induction fuel arbitrary: k s)
  case (Suc fuel)
  let ?claim = "claim_next_task (clock k) owner (dc_claim_lease dc) (locked k) (cd_tasks (fst s))"
  show ?case
  proof (cases "claim_ok k \<and> fst ?claim \<noteq> None")
    case False
    then have "dispatch_drain (Suc fuel) claim_ok locked up clock owner L dc cfg k s = Some s"
      by (auto split: prod.splits)
    then show ?thesis by (intro exI [of _ s]) simp
  next
    case True
    then obtain t where t: "next_due (clock k) (locked k) (cd_tasks (fst s)) = Some t"
      by (auto simp: claim_next_task_def split: option.splits)
    let ?c = "claimed_row (clock k) owner (dc_claim_lease dc)"
    let ?ts = "update_where (\<lambda>u. tk_id u = tk_id t) ?c (cd_tasks (fst s))"
    let ?s = "dispatch_task (up k) (clock k) L dc cfg (?c t) ((fst s)\<lparr>cd_tasks := ?ts\<rparr>, snd s)"
    have "tk_run_after t < horizon"
      using next_due_Some(2) [OF t] assms(1) [of k] by (simp add: due_def)
    then have "claimable horizon ?ts < claimable horizon (cd_tasks (fst s))"
      using next_due_Some(1,2) [OF t] by (intro claimable_update(2)) (auto simp: claimed_row_def due_def)
    then have less: "claimable horizon (cd_tasks (fst ?s)) < claimable horizon (cd_tasks (fst s))"
      using dispatch_claimable [OF assms(2) [of k], where up = "up k" and L = L and cfg = cfg and t = "?c t"
          and db = "(fst s)\<lparr>cd_tasks := ?ts\<rparr>" and w = "snd s"] by simp
    then have "\<exists>s'. dispatch_drain fuel claim_ok locked up clock owner L dc cfg (Suc k) ?s = Some s'
        \<and> claimable horizon (cd_tasks (fst s')) \<le> claimable horizon (cd_tasks (fst ?s))"
      using Suc.prems by (intro Suc.IH) simp
    moreover have "dispatch_drain (Suc fuel) claim_ok locked up clock owner L dc cfg k s
        = dispatch_drain fuel claim_ok locked up clock owner L dc cfg (Suc k) ?s"
      using True t by (simp add: claim_next_task_def)
    ultimately show ?thesis using less by fastforce
  qed
qed simp

theorem claim_loop_ends_witness:
  "\<exists>s'. dispatch_drain 2 (\<lambda>_. True) (\<lambda>_. {}) (\<lambda>_ _. True) (\<lambda>k. 100 + min k 9) ''w'' (stub_launcher Job_Active False)
      (from_file_with_env (\<lambda>_. None) (\<lambda>_. None) None) no_labels 0
      (with_tasks [fresh_row 0 ''a'' sample_request 0 0 Queued], 0) = Some s'
    \<and> claimable 110 (cd_tasks (fst s')) \<le> claimable 110 (cd_tasks (fst (with_tasks [fresh_row 0 ''a'' sample_request 0 0 Queued], 0 :: nat)))"
  by (rule claim_loop_ends [where horizon = 110])
    (simp_all add: from_file_with_env_def secs_or_def no_section_def claimable_def with_tasks_def fresh_row_def Let_def)

end
