(* ===== verification/Finalize_Properties.thy ===== *)
theory Finalize_Properties
  imports Finalize Worker_Properties
begin

text \<open>
  What finalizing guarantees: a finalized pull-request run is always answered, findings are always
  posted and never applauded, a failed attempt loses nothing of the review, a check that may have been
  opened is resolved, and a resumed run keeps its buffer. The last section shows the one way a run can
  be answered twice.
\<close>

section \<open>The outbox only grows\<close>

definition grows :: "control_db \<Rightarrow> control_db \<Rightarrow> bool" where
  "grows db db' \<longleftrightarrow>
     (\<forall>k x. intent_of (cd_outbox db) k = Some x \<longrightarrow> intent_of (cd_outbox db') k = Some x)"

lemma grows_refl [simp]: "cd_outbox db' = cd_outbox db \<Longrightarrow> grows db db'"
  by (simp add: grows_def)

lemma grows_trans: "grows a b \<Longrightarrow> grows b c \<Longrightarrow> grows a c"
  by (simp add: grows_def)

lemma grown: "grows db db' \<Longrightarrow> intent_of (cd_outbox db) k \<noteq> None \<Longrightarrow> intent_of (cd_outbox db') k = intent_of (cd_outbox db) k"
  by (auto simp: grows_def)

lemma enqueue_other:
  "k' \<noteq> k \<Longrightarrow> intent_of (snd (enqueue_outbox_post now ts i k ob)) k' = intent_of ob k'"
  using posts.first_wins [of now "task_trace ts (in_task_id i)" k i ob k']
  by (auto simp: enqueue_outbox_post_def intent_of_rows [of "_\<lparr>ob_seq := _\<rparr>"] split: prod.split bool.split)

lemma enqueue_grows:
  "intent_of ob k' = Some x \<Longrightarrow> intent_of (snd (enqueue_outbox_post now ts i k ob)) k' = Some x"
  using enqueue_other [of k' k now ts i ob] enqueue_idempotent(1) [of ob k] by (cases "k' = k") auto

lemmas producers = enqueue_review_def enqueue_reply_def enqueue_reaction_def enqueue_verdict_reaction_def
  enqueue_check_run_resolve_def enqueue_failure_notice_def

lemma enqueue_db_eq:
  "enqueue_db now (enqueue_intent t kind payload key) db =
     (fst (enqueue_outbox_post now (cd_tasks db) (target_intent t kind payload) key (cd_outbox db)),
      db\<lparr>cd_outbox := snd (enqueue_outbox_post now (cd_tasks db) (target_intent t kind payload) key (cd_outbox db))\<rparr>)"
  by (simp add: enqueue_db_def enqueue_intent_def split: prod.split)

lemma try_grows: "grows db (snd (try_enqueue ok now (enqueue_intent t kind payload key) db))"
  by (simp add: try_enqueue_def enqueue_db_eq grows_def enqueue_grows)

lemma effort_grows: "grows db (best_effort ok now (enqueue_intent t kind payload key) db)"
  by (simp add: best_effort_def enqueue_db_eq grows_def enqueue_grows)

text \<open>An enqueue the database accepted holds its key, with the intent that came first.\<close>

lemma try_lands:
  assumes "try_enqueue ok now (enqueue_intent t kind payload key) db = (Inr b, db')"
  shows "intent_of (cd_outbox db') key =
    Some (case intent_of (cd_outbox db) key of None \<Rightarrow> target_intent t kind payload | Some i \<Rightarrow> i)"
  using assms
    enqueue_row [of now "cd_tasks db" "target_intent t kind payload" key "cd_outbox db" b]
  by (auto simp: try_enqueue_def enqueue_db_eq split: if_splits)

lemma try_other:
  "k \<noteq> key \<Longrightarrow> intent_of (cd_outbox (snd (try_enqueue ok now (enqueue_intent t kind payload key) db))) k
     = intent_of (cd_outbox db) k"
  by (simp add: try_enqueue_def enqueue_db_eq enqueue_other)

lemma try_own_key:
  "intent_of (cd_outbox db) key = None \<Longrightarrow>
     intent_of (cd_outbox (snd (try_enqueue ok now (enqueue_intent t kind payload key) db))) key
       \<in> {None, Some (target_intent t kind payload)}"
  using posts.first_wins [of now "task_trace (cd_tasks db) (in_task_id (target_intent t kind payload))" key
      "target_intent t kind payload" "cd_outbox db" key]
  by (auto simp: try_enqueue_def enqueue_db_eq enqueue_outbox_post_def intent_of_rows [of "_\<lparr>ob_seq := _\<rparr>"]
      split: prod.split bool.split)

lemma try_keeps [simp]:
  "cd_tasks (snd (try_enqueue ok now enq db)) = cd_tasks db"
  "cd_pending (snd (try_enqueue ok now enq db)) = cd_pending db"
  "cd_reviews (snd (try_enqueue ok now enq db)) = cd_reviews db"
  "cd_steps (snd (try_enqueue ok now enq db)) = cd_steps db"
  by (simp_all add: try_enqueue_def enqueue_db_def split: prod.split)

lemma clear_keeps [simp]:
  "cd_outbox (clear_action ok i a db) = cd_outbox db" "cd_reviews (clear_action ok i a db) = cd_reviews db"
  "cd_tasks (clear_action ok i a db) = cd_tasks db"
  "cd_outbox (clear_review_rows up i db) = cd_outbox db" "cd_reviews (clear_review_rows up i db) = cd_reviews db"
  "cd_tasks (clear_review_rows up i db) = cd_tasks db"
  by (simp_all add: clear_action_def clear_review_rows_def)

section \<open>The paths through the handler\<close>

text \<open>A part that stops early stops with an error.\<close>

lemma flush_reply_error: "flush_reply up now i c p post db \<noteq> (Inl (Ok_Json r), db')"
  by (simp add: flush_reply_def Let_def split: prod.split sum.split)

lemma review_handle_error: "map_sum id g (review_handle app c) = Inl e \<Longrightarrow> review_handle app c = Inl e"
  by (cases "review_handle app c") auto

lemma shape_review_error: "shape_review lower app scope c fetch prior p \<noteq> Inl (Ok_Json r)"
  by (simp add: shape_review_def Let_def split: prod.split sum.split)

lemma queue_review_error: "queue_review up now i c policy pay db \<noteq> (Inl (Ok_Json r), db')"
  by (simp add: queue_review_def finish_silently_def finish_with_review_def Let_def split: prod.split sum.split)

lemma flush_review_error: "flush_review lower up now app scope fetch outcome i c p db \<noteq> (Inl (Ok_Json r), db')"
  using shape_review_error queue_review_error
  by (auto simp: flush_review_def Let_def split: prod.splits sum.splits if_splits)

lemma finalize_ok_cases:
  assumes "finalize_review J lower up now app scope i body db = (Ok_Json r, db')"
    and "get_task_context db i = Some c" "load_pending_review i (cd_pending db) = p"
  obtains (answer) queued db1 where
      "\<not> posts_pr_review (cx_target_type c) (pv_inline p \<noteq> []) (pv_summary p \<noteq> None) (pending_is_empty p)"
      "flush_reply up now i c p False db = (Inr queued, db1)"
      "r = finalized (run_kind (pv_inline p \<noteq> []) queued) False queued"
      "db' = close_run up now (finalize_outcome J body) i c (run_kind (pv_inline p \<noteq> []) queued) False None db1"
  | (review) queued db1 fetch posted facts db2 where
      "posts_pr_review (cx_target_type c) (pv_inline p \<noteq> []) (pv_summary p \<noteq> None) (pending_is_empty p)"
      "flush_reply up now i c p True db = (Inr queued, db1)" "ap_platforms app (cx_platform c) = Some fetch"
      "flush_review lower up now app scope fetch (finalize_outcome J body) i c p db1 = (Inr (posted, facts), db2)"
      "r = finalized (run_kind (pv_inline p \<noteq> []) queued) posted queued"
      "db' = close_run up now (finalize_outcome J body) i c (run_kind (pv_inline p \<noteq> []) queued) posted (Some facts) db2"
proof (cases "posts_pr_review (cx_target_type c) (pv_inline p \<noteq> []) (pv_summary p \<noteq> None) (pending_is_empty p)")
  case True
  then show thesis
    using assms(1) review flush_reply_error flush_review_error
    by (auto simp: finalize_review_def Let_def assms(2,3) split: if_splits option.splits prod.splits sum.splits)
next
  case False
  then show thesis
    using assms(1) answer flush_reply_error
    by (auto simp: finalize_review_def Let_def assms(2,3) split: if_splits option.splits prod.splits sum.splits)
qed

lemma resolution_grows: "grows db (enqueue_resolution ok now i c conclusion output db)"
  by (simp add: enqueue_resolution_def producers effort_grows split: option.split)

lemma close_run_grows: "grows db (close_run up now outcome i c kind queued facts db)"
  by (auto simp: close_run_def Let_def grows_def resolution_grows [unfolded grows_def] split: option.split)

lemma close_run_reviews [simp]: "cd_reviews (close_run up now outcome i c kind queued facts db) = cd_reviews db"
  by (simp add: close_run_def Let_def enqueue_resolution_def best_effort_def enqueue_db_def split: option.split prod.split)

lemma flush_reply_dropped:
  assumes "flush_reply up now i c p True db = (res, db1)"
  shows "res = Inr False" "cd_outbox db1 = cd_outbox db" "cd_reviews db1 = cd_reviews db" "cd_tasks db1 = cd_tasks db"
    "cd_repos db1 = cd_repos db"
  using assms by (auto simp: flush_reply_def clear_action_def split: if_splits)

section \<open>A finalized run is answered\<close>

definition review_key :: "string \<Rightarrow> string" where "review_key i = i @ '':review''"
definition reply_key :: "string \<Rightarrow> string" where "reply_key i = i @ '':reply''"
definition verdict_key :: "string \<Rightarrow> string" where "verdict_key i = i @ '':reaction:verdict''"

lemma key_prefix_task [simp]: "key_prefix (target_of i c) n = i"
  by (simp add: key_prefix_def target_of_def)

lemma keys_differ [simp]: "review_key i \<noteq> verdict_key i" "verdict_key i \<noteq> review_key i"
  by (simp_all add: review_key_def verdict_key_def)

definition verdict_of :: "control_db \<Rightarrow> string \<Rightarrow> json option" where
  "verdict_of db i = map_option in_payload (intent_of (cd_outbox db) (verdict_key i))"

definition verdict_payload :: "task_context \<Rightarrow> string \<Rightarrow> json" where
  "verdict_payload c content = reaction_payload (cx_target_id c) content (cx_trigger_comment_id c) (cx_target_type c)"

text \<open>What a silent clean pass leaves behind: the stored review and the thumbs-up.\<close>

lemma get_review_inserted: "get_review (snd (insert_review_if_absent w ws)) (rw_task_id w) \<noteq> None"
proof (cases "list_ex (\<lambda>x. rw_task_id x = rw_task_id w) ws")
  case True
  then obtain x where "x \<in> set ws" "rw_task_id x = rw_task_id w" by (auto simp: list_ex_iff)
  then have "row_of rw_task_id ws (rw_task_id w) \<noteq> None"
    using row_of_None [of rw_task_id ws "rw_task_id w"] by (metis imageI set_map)
  then show ?thesis using True by (simp add: insert_review_if_absent_def get_review_def)
next
  case False
  then show ?thesis
    by (simp add: insert_review_if_absent_def get_review_def row_of_append split: option.split)
qed

lemma finish_silently_done:
  assumes "finish_silently up now i c pay db = (Inr queued, db')"
  shows "\<not> queued \<and> (has_review_intent_or_posted_review db i
     \<or> intent_of (cd_outbox db') (verdict_key i) \<noteq> None \<and> get_review (cd_reviews db') i \<noteq> None)"
proof -
  let ?db = "db\<lparr>cd_reviews := snd (insert_review_if_absent (clean_review_row now i pay) (cd_reviews db))\<rparr>"
  have stored: "get_review (cd_reviews ?db) i \<noteq> None"
    using get_review_inserted [of "clean_review_row now i pay" "cd_reviews db"] by (simp add: clean_review_row_def)
  have landed: "intent_of (cd_outbox db2) (verdict_key i) \<noteq> None \<and> cd_reviews db2 = cd_reviews ?db"
    if "try_enqueue ok now (enqueue_verdict_reaction (target_of i c) issue content cid ty) ?db = (Inr b, db2)"
    for ok issue content cid ty b db2
    using try_lands [OF that [unfolded enqueue_verdict_reaction_def]] that
      try_keeps(3) [of ok now "enqueue_verdict_reaction (target_of i c) issue content cid ty" ?db]
    by (simp add: verdict_key_def)
  show ?thesis
    using assms landed stored by (fastforce simp: finish_silently_def Let_def split: if_splits prod.splits sum.splits)
qed

lemma finish_with_review_done:
  assumes "finish_with_review up now i c policy pay db = (Inr queued, db')"
  shows "queued" "intent_of (cd_outbox db') (review_key i) \<noteq> None"
    and "verdict_of db i = None \<Longrightarrow> pred_option (\<lambda>v. Some v = map_option (verdict_payload c) (fp_verdict policy)) (verdict_of db' i)"
proof -
  obtain b db1 where e: "try_enqueue (up F_Review) now (enqueue_review (target_of i c) pay) db = (Inr b, db1)"
    using assms by (auto simp: finish_with_review_def split: prod.splits sum.splits)
  let ?db2 = "clear_review_rows up i db1"
  let ?v = "\<lambda>content. snd (try_enqueue (up F_Verdict) now (enqueue_verdict_reaction (target_of i c) (cx_target_id c) content
      (cx_trigger_comment_id c) (cx_target_type c)) ?db2)"
  let ?db3 = "case fp_verdict policy of None \<Rightarrow> ?db2 | Some content \<Rightarrow> ?v content"
  let ?db4 = "if fp_react_confused policy then snd (try_enqueue (up F_Confused) now (enqueue_reaction (target_of i c)
      (cx_target_id c) ''confused'' (cx_trigger_comment_id c) (cx_target_type c)) ?db3) else ?db3"
  have db': "db' = ?db4" and q: "queued"
    using assms e by (simp_all add: finish_with_review_def Let_def)
  show "queued" by (rule q)
  have landed: "intent_of (cd_outbox db1) (review_key i) \<noteq> None"
    using try_lands [OF e [unfolded enqueue_review_def]] by (simp add: review_key_def)
  have "grows ?db2 ?db3" by (simp add: producers try_grows split: option.split)
  moreover have "grows ?db3 ?db4" by (simp add: producers try_grows)
  ultimately have "grows ?db2 db'" unfolding db' by (rule grows_trans)
  then show "intent_of (cd_outbox db') (review_key i) \<noteq> None"
    using grown [of ?db2 db' "review_key i"] landed by simp
  assume none: "verdict_of db i = None"
  have "intent_of (cd_outbox db1) (verdict_key i) = None"
    using none try_other [of "verdict_key i" "review_key i" "up F_Review" now "target_of i c" "''review''" "encode_review pay" db] e
    by (simp add: verdict_of_def enqueue_review_def review_key_def [symmetric])
  then have v: "intent_of (cd_outbox (?v content)) (verdict_key i) = None
      \<or> verdict_of (?v content) i = Some (verdict_payload c content)" for content
    using try_own_key [of ?db2 "verdict_key i" "up F_Verdict" now "target_of i c" "''reaction''"
        "verdict_payload c content"]
    by (auto simp: verdict_of_def enqueue_verdict_reaction_def verdict_payload_def verdict_key_def target_intent_def)
  have "verdict_of db' i = verdict_of ?db3 i"
    unfolding db' by (simp add: verdict_of_def verdict_key_def enqueue_reaction_def try_other)
  moreover have "verdict_of ?db2 i = None"
    using \<open>intent_of (cd_outbox db1) (verdict_key i) = None\<close> by (simp add: verdict_of_def)
  ultimately show "pred_option (\<lambda>v. Some v = map_option (verdict_payload c) (fp_verdict policy)) (verdict_of db' i)"
    using v [of "the (fp_verdict policy)"] by (cases "fp_verdict policy") (auto simp: verdict_of_def option.pred_set)
qed

text \<open>What the tail of the handler does to a verdict and a review: nothing.\<close>

lemma close_run_verdict:
  "verdict_of (close_run up now outcome i c kind queued facts db) i = verdict_of db i"
proof -
  have "verdict_key i \<noteq> i @ '':check_run:resolve''" by (simp add: verdict_key_def)
  then have "verdict_of (enqueue_resolution ok now i c concl out db) i = verdict_of db i" for ok concl out
    by (simp add: enqueue_resolution_def best_effort_def enqueue_check_run_resolve_def enqueue_db_eq verdict_of_def
        enqueue_other split: option.split)
  then show ?thesis by (simp add: close_run_def Let_def verdict_of_def split: option.split)
qed

text \<open>Whichever way a review is queued, something is left to be seen of it.\<close>

lemma queue_review_done:
  assumes "queue_review up now i c policy pay db = (Inr queued, db')"
  shows "intent_of (cd_outbox db') (review_key i) \<noteq> None \<or> has_review_intent_or_posted_review db i
    \<or> fp_suppress_clean_post policy
      \<and> \<not> target_has_prior_findings db (cx_repository_id c) (cx_target_type c) (cx_target_id c) i
      \<and> intent_of (cd_outbox db') (verdict_key i) \<noteq> None \<and> get_review (cd_reviews db') i \<noteq> None"
proof (cases "fp_suppress_clean_post policy \<and> up F_Priors
      \<and> \<not> target_has_prior_findings db (cx_repository_id c) (cx_target_type c) (cx_target_id c) i")
  case True
  then have "finish_silently up now i c pay db = (Inr queued, db')" using assms by (simp add: queue_review_def)
  from finish_silently_done [OF this] show ?thesis using True by blast
next
  case False
  then have "finish_with_review up now i c policy pay db = (Inr queued, db')"
    using assms by (simp only: queue_review_def if_False)
  from finish_with_review_done(2) [OF this] show ?thesis by blast
qed

lemma shaped_findings:
  "shape_review lower app scope c fetch prior p = Inr sh \<Longrightarrow> sh_has_findings sh = (pv_inline p \<noteq> [])"
  by (auto simp: shape_review_def Let_def split: prod.splits sum.splits)

lemma flush_review_cases:
  assumes "flush_review lower up now app scope fetch outcome i c p db = (Inr (queued, facts), db')"
  obtains pay where
    "queue_review up now i c (finalize_policy outcome (pv_inline p \<noteq> []) (reactions_enabled (ap_review app))) pay db
       = (Inr queued, db')"
  using assms shaped_findings
  by (fastforce simp: flush_review_def Let_def split: prod.splits sum.splits)

text \<open>
  C2. A finalized pull-request run is never left in silence: when the handler answers 200, the outbox
  holds a review or a reply of the task, or the pass was explicitly clean (outcome \<open>finished\<close>, nothing
  buffered inline, no earlier findings on the target, reactions on) and both the thumbs-up intent and
  the stored review exist; the one other case is a review that was already queued or posted before.
\<close>

theorem finalized_run_is_answered:
  assumes "finalize_review J lower up now app scope i body db = (Ok_Json r, db')"
    and "get_task_context db i = Some c" "cx_target_type c = PULL_REQUEST"
  shows "intent_of (cd_outbox db') (review_key i) \<noteq> None \<or> intent_of (cd_outbox db') (reply_key i) \<noteq> None
    \<or> has_review_intent_or_posted_review db i
    \<or> finalize_outcome J body = Some ''finished'' \<and> pv_inline (load_pending_review i (cd_pending db)) = []
      \<and> \<not> target_has_prior_findings db (cx_repository_id c) (cx_target_type c) (cx_target_id c) i
      \<and> reactions_enabled (ap_review app)
      \<and> intent_of (cd_outbox db') (verdict_key i) \<noteq> None \<and> get_review (cd_reviews db') i \<noteq> None"
  using assms(1,2) refl
proof (cases rule: finalize_ok_cases)
  case (answer queued db1)
  let ?p = "load_pending_review i (cd_pending db)"
  show ?thesis
  proof (cases "pv_comments ?p = []")
    case True
    then have False using answer(1) assms(3) by (auto simp: posts_pr_review_def pending_is_empty_def)
    then show ?thesis ..
  next
    case False
    then obtain b db0 where e: "try_enqueue (up F_Reply) now (enqueue_reply (target_of i c) (cx_target_id c)
        (render_answer_body (join_with (nl @ nl @ ''---'' @ nl @ nl) (pv_comments ?p))) (cx_target_type c)) db = (Inr b, db0)"
        and db1: "cd_outbox db1 = cd_outbox db0"
      using answer(2) by (auto simp: flush_reply_def Let_def split: prod.splits sum.splits)
    have "intent_of (cd_outbox db1) (reply_key i) \<noteq> None"
      using try_lands [OF e [unfolded enqueue_reply_def]] db1 by (simp add: reply_key_def)
    then have "intent_of (cd_outbox db') (reply_key i) \<noteq> None"
      using grown [OF close_run_grows] by (simp add: answer(4))
    then show ?thesis by simp
  qed
next
  case (review queued db1 fetch posted facts db2)
  let ?p = "load_pending_review i (cd_pending db)"
  let ?pol = "finalize_policy (finalize_outcome J body) (pv_inline ?p \<noteq> []) (reactions_enabled (ap_review app))"
  note same = flush_reply_dropped [OF review(2)]
  obtain pay where "queue_review up now i c ?pol pay db1 = (Inr posted, db2)"
    using review(4) by (rule flush_review_cases)
  from queue_review_done [OF this] have "intent_of (cd_outbox db2) (review_key i) \<noteq> None
      \<or> has_review_intent_or_posted_review db i
      \<or> fp_suppress_clean_post ?pol \<and> \<not> target_has_prior_findings db (cx_repository_id c) (cx_target_type c) (cx_target_id c) i
        \<and> intent_of (cd_outbox db2) (verdict_key i) \<noteq> None \<and> get_review (cd_reviews db2) i \<noteq> None"
    by (simp add: has_review_intent_or_posted_review_def target_has_prior_findings_def same)
  then show ?thesis
    using grown [OF close_run_grows, of db2] by (auto simp: review(6) finalize_policy_def Let_def simp del: not_None_eq)
qed

section \<open>Findings are posted\<close>

text \<open>
  C1. Findings are posted, never applauded: when a pull-request run that buffered a finding is finalized,
  the reply says a review was queued, the outbox holds the task's review intent, and if no verdict
  reaction was queued before, the one there is now, if any, is the thumbs-down; an aborted run and one
  with reactions off get none.
\<close>

theorem findings_are_posted:
  assumes "finalize_review J lower up now app scope i body db = (Ok_Json r, db')"
    and "get_task_context db i = Some c" "cx_target_type c = PULL_REQUEST"
    and "pv_inline (load_pending_review i (cd_pending db)) \<noteq> []" "verdict_of db i = None"
  shows "json_get r ''review'' = Some (JBool True) \<and> intent_of (cd_outbox db') (review_key i) \<noteq> None
    \<and> pred_option (\<lambda>v. v = verdict_payload c ''-1'' \<and> reactions_enabled (ap_review app)
         \<and> finalize_outcome J body \<noteq> Some ''aborted'') (verdict_of db' i)"
  using assms(1,2) refl
proof (cases rule: finalize_ok_cases)
  case (answer queued db1)
  then show ?thesis using assms(3,4) by (simp add: posts_pr_review_def)
next
  case (review queued db1 fetch posted facts db2)
  let ?pol = "finalize_policy (finalize_outcome J body) True (reactions_enabled (ap_review app))"
  note same = flush_reply_dropped [OF review(2)]
  obtain pay where "queue_review up now i c ?pol pay db1 = (Inr posted, db2)"
    using flush_review_cases [OF review(4)] assms(4) by auto
  then have f: "finish_with_review up now i c ?pol pay db1 = (Inr posted, db2)"
    by (simp add: queue_review_def finalize_policy_def Let_def)
  have "verdict_of db1 i = None" using assms(5) by (simp add: verdict_of_def same)
  note posted = finish_with_review_done(1,2) [OF f] finish_with_review_done(3) [OF f this]
  have "json_get r ''review'' = Some (JBool True)" using posted(1) by (simp add: review(5) finalized_def)
  moreover have "intent_of (cd_outbox db') (review_key i) \<noteq> None"
    using posted(2) grown [OF close_run_grows] by (simp add: review(6))
  moreover have "verdict_of db' i = verdict_of db2 i" by (simp add: review(6) close_run_verdict)
  ultimately show ?thesis
    using posted(3) by (auto simp: finalize_policy_def Let_def REACTION_FINDINGS_def option.pred_set split: if_splits)
qed

section \<open>A failed attempt loses nothing\<close>

lemma load_after_clear_comments:
  "pv_inline (load_pending_review i (clear_pending_action i Comment_Action pt)) = pv_inline (load_pending_review i pt)"
  "pv_summary (load_pending_review i (clear_pending_action i Comment_Action pt)) = pv_summary (load_pending_review i pt)"
proof -
  have kept: "filter P (pt_rows (clear_pending_action i Comment_Action pt)) = filter P (pt_rows pt)"
    if "\<And>r. P r \<Longrightarrow> pa_action r \<noteq> Comment_Action" for P
    unfolding clear_pending_action_def keep_rows_def using that by (auto intro: filter_cong)
  have "select_action i Inline_Action (clear_pending_action i Comment_Action pt) = select_action i Inline_Action pt"
    "filter (is_summary i) (pt_rows (clear_pending_action i Comment_Action pt)) = filter (is_summary i) (pt_rows pt)"
    using kept [of "\<lambda>r. pa_task r = i \<and> pa_action r = Inline_Action"] kept [of "is_summary i"]
    by (simp_all add: select_action_def is_summary_def)
  then show "pv_inline (load_pending_review i (clear_pending_action i Comment_Action pt)) = pv_inline (load_pending_review i pt)"
    "pv_summary (load_pending_review i (clear_pending_action i Comment_Action pt)) = pv_summary (load_pending_review i pt)"
    by (simp_all add: load_pending_review_def)
qed

lemma try_pending: "try_enqueue ok now enq db = (res, db') \<Longrightarrow> cd_pending db' = cd_pending db"
  using try_keeps(2) [of ok now enq db] by simp

definition review_part :: "string \<Rightarrow> control_db \<Rightarrow> pending_inline list \<times> string option" where
  "review_part i db = (let p = load_pending_review i (cd_pending db) in (pv_inline p, pv_summary p))"

lemma flush_reply_part:
  "flush_reply up now i c p post db = (res, db1) \<Longrightarrow> review_part i db1 = review_part i db"
  by (auto simp: flush_reply_def clear_action_def review_part_def Let_def load_after_clear_comments
      split: if_splits prod.splits sum.splits dest!: try_pending)

lemma queue_review_part:
  "queue_review up now i c policy pay db = (Inl reply, db1) \<Longrightarrow> review_part i db1 = review_part i db"
  by (auto simp: queue_review_def finish_silently_def finish_with_review_def review_part_def Let_def
      split: if_splits prod.splits sum.splits dest!: try_pending)

text \<open>
  C27. Whatever makes a finalize fail (no database, unknown task or platform, the diff not fetched, a bot
  handle missing, an enqueue or the stored verdict refused), the buffered findings and the summary are
  all still there, so the runner's retry shapes the same review.
\<close>

theorem failed_finalize_keeps_the_review:
  "case finalize_review J lower up now app scope i body db of
     (Ok_Json r, db') \<Rightarrow> True
   | (_, db') \<Rightarrow> review_part i db' = review_part i db"
  using flush_reply_part queue_review_part
  by (fastforce simp: finalize_review_def flush_review_def Let_def
      split: http_reply.splits if_splits option.splits prod.splits sum.splits)

section \<open>Checks and status reports\<close>

definition check_key :: "string \<Rightarrow> string" where "check_key i = i @ '':check_run:resolve''"

lemma accepted:
  assumes "id_taken (cd_tasks db) i" "kind \<in> set OUTBOX_KINDS"
  obtains b db' where "try_enqueue True now (enqueue_intent (target_of i c) kind payload key) db = (Inr b, db')"
proof -
  have "fst (try_enqueue True now (enqueue_intent (target_of i c) kind payload key) db) \<in> {Inr True, Inr False}"
    using assms by (simp add: try_enqueue_def enqueue_db_eq enqueue_outbox_post_def target_intent_def target_of_def
        references_task_def split: prod.split bool.split)
  then show thesis
    using that by (cases "try_enqueue True now (enqueue_intent (target_of i c) kind payload key) db") auto
qed

lemma effort_try: "best_effort ok now enq db = snd (try_enqueue ok now enq db)"
  by (simp add: best_effort_def try_enqueue_def)

lemma resolution_lands:
  assumes "cx_check_runs_enabled c" "cx_head_sha c = Some sha" "id_taken (cd_tasks db) i"
  shows "intent_of (cd_outbox (enqueue_resolution True now i c conclusion texts db)) (check_key i) \<noteq> None"
proof -
  let ?p = "JObj [(''pr'', JInt (cx_target_id c)), (''head_sha'', JStr sha), (''conclusion'', JStr (conclusion_text conclusion)),
              (''title'', JStr (fst texts)), (''summary'', JStr (snd texts))]"
  obtain b db' where e: "try_enqueue True now (enqueue_intent (target_of i c) ''check_run_resolve'' ?p (check_key i)) db = (Inr b, db')"
    using assms(3) by (rule accepted [of db i "''check_run_resolve''"]) (simp add: OUTBOX_KINDS_def)
  have "enqueue_resolution True now i c conclusion texts db = db'"
    using assms(1,2) e
    by (simp add: enqueue_resolution_def enqueue_check_run_resolve_def effort_try check_key_def)
  then show ?thesis using try_lands [OF e] by simp
qed

lemma context_id: "get_task_context db i = Some c \<Longrightarrow> id_taken (cd_tasks db) i"
  using get_row_Some by (fastforce simp: get_task_context_def id_taken_def list_ex_iff split: option.splits)

lemma failure_tasks: "id_taken (cd_tasks (best_effort ok now enq db)) i = id_taken (cd_tasks db) i" by simp

text \<open>
  A check that the dispatcher opened does not stay in progress: for a task whose start signal was
  queued, giving up on it (the reaper, or a run that reports a failure) and cancelling it as superseded
  each queue the resolution of that check.
\<close>

theorem opened_check_is_resolved:
  assumes "intent_of (cd_outbox db) (i @ '':check_run:start'') = None" "get_row (cd_tasks db) i = Some t" "tk_id t = i"
    and "intent_of (cd_outbox (start_check_run_signal up now t db)) (i @ '':check_run:start'') \<noteq> None"
    and "cd_tasks later = cd_tasks db" "cd_repos later = cd_repos db"
  shows "intent_of (cd_outbox (handle_review_failure (\<lambda>_. True) now' cfg i conclusion later)) (check_key i) \<noteq> None
    \<and> intent_of (cd_outbox (enqueue_reaper_failure_notice (\<lambda>_. True) now' cfg i later)) (check_key i) \<noteq> None
    \<and> intent_of (cd_outbox (resolve_cancelled_check_run (\<lambda>_. True) now' i later)) (check_key i) \<noteq> None"
proof -
  have "cd_outbox (start_check_run_signal up now t db) \<noteq> cd_outbox db" using assms(1,4) by auto
  then obtain c where c: "get_task_context db i = Some c" "cx_check_runs_enabled c"
      "nt_target_type (tk_task t) = PULL_REQUEST" "nt_head_sha (tk_task t) \<noteq> None"
    using assms(3) by (auto simp: start_check_run_signal_def split: if_splits option.splits)
  then have row: "cx_target_type c = PULL_REQUEST" "cx_head_sha c = nt_head_sha (tk_task t)"
    using assms(2) by (auto simp: get_task_context_def Let_def)
  then obtain sha where sha: "cx_head_sha c = Some sha" using c(4) by auto
  have same: "get_task_context later i = Some c" using c(1) unfolding get_task_context_def assms(5,6) .
  have taken: "id_taken (cd_tasks later) i" using context_id [OF same] .
  have "\<exists>y. intent_of (cd_outbox (enqueue_resolution True now' i c concl texts d)) (check_key i) = Some y"
    if "id_taken (cd_tasks d) i" for concl texts d
    using resolution_lands [OF c(2) sha that] by simp
  then show ?thesis
    using row(1) same taken by (simp add: handle_review_failure_def enqueue_reaper_failure_notice_def enqueue_failure_def
        resolve_cancelled_check_run_def Let_def)
qed

lemma run_epoch_update:
  "keeps_identity f \<Longrightarrow> run_epoch_of (update_where P f ts) i = run_epoch_of ts i"
  by (simp add: run_epoch_of_def get_row_update keeps_identity_def option.map_comp comp_def if_distrib cong: if_cong)

text \<open>
  A run that starts again resumes its review: reporting \<open>running\<close> empties the task's buffer if its
  journal has no step of the run, and keeps the buffer as it is if it has one; no other report touches
  it, and an unknown status is refused without any effect.
\<close>

theorem restart_keeps_a_resumed_buffer:
  assumes "id_taken (cd_tasks db) i" "pending_ok (cd_pending db)" "list_all up [S_Set, S_Epoch, S_Steps, S_Clear]"
    and "run_epoch_of (cd_tasks db) i = Some e"
  shows "case set_status up wup now True cfg i wire detail db of (reply, db') \<Rightarrow>
      (case reportable_status wire of
         None \<Rightarrow> reply = Bad_Request ''unsupported status'' \<and> db' = db
       | Some status \<Rightarrow> reply = No_Content \<and>
           load_pending_review i (cd_pending db') =
             (if status = Running \<and> \<not> has_durable_steps i e (cd_steps db) then empty_buffer
              else load_pending_review i (cd_pending db)))"
proof -
  have fail: "cd_pending (enqueue_failure wup now cfg i concl d) = cd_pending d" for concl d
    by (simp add: enqueue_failure_def enqueue_resolution_def best_effort_def enqueue_db_def Let_def
        split: option.split prod.split)
  have applied: "cd_pending (apply_status now i st detail db) = cd_pending db"
      "cd_steps (apply_status now i st detail db) = cd_steps db"
      "st = Running \<Longrightarrow> run_epoch_of (cd_tasks (apply_status now i st detail db)) i = Some e" for st
    using assms(4)
    by (auto simp: apply_status_def set_task_status_def Let_def run_epoch_update is_terminal_def)
  show ?thesis
    using assms applied
    by (auto simp: set_status_def Let_def is_fresh_attempt_def handle_review_failure_def fail load_clear
        split: option.split)
qed

section \<open>Finalizing twice\<close>

lemma close_run_pending [simp]: "cd_pending (close_run up now outcome i c kind queued facts db) = cd_pending db"
  by (simp add: close_run_def Let_def enqueue_resolution_def effort_try split: option.split)

lemma context_of_kind:
  "get_task_context (on_tasks (set_task_kind i kind) db) i = map_option (\<lambda>c. c\<lparr>cx_kind := kind\<rparr>) (get_task_context db i)"
proof (cases "get_row (cd_tasks db) i")
  case None
  then show ?thesis by (simp add: get_task_context_def set_task_kind_def get_row_update)
next
  case (Some t)
  then have "tk_id t = i" using get_row_Some by blast
  then show ?thesis
    using Some by (simp add: get_task_context_def set_task_kind_def get_row_update option.map_comp comp_def Let_def)
qed

lemma context_tables:
  "cd_tasks db' = cd_tasks db \<Longrightarrow> cd_repos db' = cd_repos db \<Longrightarrow> get_task_context db' i = get_task_context db i"
  unfolding get_task_context_def by (simp only:)

lemma close_run_context:
  assumes "get_task_context db i = Some c"
  shows "get_task_context (close_run (\<lambda>_. True) now outcome i c' kind queued facts db) i = Some (c\<lparr>cx_kind := kind\<rparr>)"
proof -
  have r: "cd_tasks (enqueue_resolution ok now i c' concl texts db) = cd_tasks db"
    "cd_repos (enqueue_resolution ok now i c' concl texts db) = cd_repos db" for ok concl texts
    by (simp_all add: enqueue_resolution_def split: option.split)
  have kind: "get_task_context (on_tasks (set_task_kind i kind) d) i = Some (c\<lparr>cx_kind := kind\<rparr>)"
    if "cd_tasks d = cd_tasks db" "cd_repos d = cd_repos db" for d
    using assms context_tables [OF that, of i] by (simp only: context_of_kind option.map)
  have "cd_tasks (close_run (\<lambda>_. True) now outcome i c' kind queued facts db) = set_task_kind i kind (cd_tasks db)"
    "cd_repos (close_run (\<lambda>_. True) now outcome i c' kind queued facts db) = cd_repos db"
    by (simp_all add: close_run_def Let_def r split: option.split)
  then have "get_task_context (close_run (\<lambda>_. True) now outcome i c' kind queued facts db) i
      = get_task_context (on_tasks (set_task_kind i kind) db) i"
    by (intro context_tables) simp_all
  then show ?thesis using kind [of db] by simp
qed

text \<open>A run with a review to post, and not to be silenced, is posted.\<close>

lemma review_posts:
  assumes "get_task_context db i = Some c" "cx_target_type c = PULL_REQUEST" "cx_entry_point c \<noteq> ''pr_open''"
    and "load_pending_review i (cd_pending db) = p" "pv_comments p = []" "ap_pool app"
    and "ap_platforms app (cx_platform c) = Some fetch" "fetch (repo_ref_of c) (cx_target_id c) = Inr files"
    and "finalize_outcome J body \<noteq> Some ''finished'' \<or> pv_inline p \<noteq> []"
  shows "fst (finalize_review J lower (\<lambda>_. True) now app scope i body db) = Ok_Json (finalized ''review'' True False)"
proof -
  let ?pol = "finalize_policy (finalize_outcome J body) (pv_inline p \<noteq> []) (reactions_enabled (ap_review app))"
  let ?prior = "posted_findings_for_target db (cx_repository_id c) (cx_target_type c) (cx_target_id c) i"
  have "\<exists>sh. shape_review lower app scope c fetch ?prior p = Inr sh"
    using assms(3,8) by (simp add: shape_review_def Let_def split: prod.split)
  then obtain sh where sh: "shape_review lower app scope c fetch ?prior p = Inr sh" ..
  obtain b db0 where "try_enqueue True now (enqueue_review (target_of i c) (sh_payload sh)) db = (Inr b, db0)"
    unfolding enqueue_review_def using context_id [OF assms(1)]
    by (rule accepted [of db i "''review''"]) (simp add: OUTBOX_KINDS_def)
  then have "fst (queue_review (\<lambda>_. True) now i c ?pol (sh_payload sh) db) = Inr True"
    using assms(9) by (auto simp: queue_review_def finish_with_review_def Let_def finalize_policy_def)
  then obtain db1 where "queue_review (\<lambda>_. True) now i c ?pol (sh_payload sh) db = (Inr True, db1)"
    by (metis prod.collapse)
  then have "flush_review lower (\<lambda>_. True) now app scope fetch (finalize_outcome J body) i c p db = (Inr (True, sh_facts sh), db1)"
    using sh shaped_findings [OF sh] by (simp add: flush_review_def Let_def)
  moreover have "posts_pr_review (cx_target_type c) (pv_inline p \<noteq> []) (pv_summary p \<noteq> None) (pending_is_empty p)"
    using assms(2,5) by (simp add: posts_pr_review_def pending_is_empty_def) blast
  ultimately show ?thesis
    using assms(1,4-7) by (simp add: finalize_review_def Let_def flush_reply_def run_kind_def del: not_None_eq)
qed

lemma cleared_answer:
  assumes "load_pending_review i pt = \<lparr>pv_inline = [], pv_comments = replies, pv_summary = None\<rparr>"
  shows "load_pending_review i (clear_pending_action i Comment_Action pt) = empty_buffer"
proof -
  have "select_action i Comment_Action (clear_pending_action i Comment_Action pt) = []"
    by (auto simp: select_action_def clear_pending_action_def keep_rows_def filter_empty_conv)
  then have "pv_comments (load_pending_review i (clear_pending_action i Comment_Action pt)) = []"
    by (simp add: load_pending_review_def)
  then show ?thesis
    using load_after_clear_comments [of i pt] assms by (simp add: empty_buffer_def)
qed

lemma answer_flushed:
  assumes "get_task_context db i = Some c" "cx_target_type c = PULL_REQUEST" "replies \<noteq> []"
    and "load_pending_review i (cd_pending db) = \<lparr>pv_inline = [], pv_comments = replies, pv_summary = None\<rparr>"
    and "ap_pool app" "ap_platforms app (cx_platform c) = Some fetch" "intent_of (cd_outbox db) (review_key i) = None"
  obtains db' where "finalize_review J lower (\<lambda>_. True) now app scope i body db = (Ok_Json (finalized ''ask'' False True), db')"
    "load_pending_review i (cd_pending db') = empty_buffer" "get_task_context db' i = Some (c\<lparr>cx_kind := ''ask''\<rparr>)"
    "intent_of (cd_outbox db') (review_key i) = None"
proof -
  let ?body = "render_answer_body (join_with (nl @ nl @ ''---'' @ nl @ nl) replies)"
  obtain b db0 where e: "try_enqueue True now (enqueue_reply (target_of i c) (cx_target_id c) ?body (cx_target_type c)) db = (Inr b, db0)"
    unfolding enqueue_reply_def using context_id [OF assms(1)]
    by (rule accepted [of db i "''reply''"]) (simp add: OUTBOX_KINDS_def)
  let ?db1 = "clear_action True i Comment_Action db0"
  let ?db' = "close_run (\<lambda>_. True) now (finalize_outcome J body) i c ''ask'' False None ?db1"
  have tables: "cd_tasks db0 = cd_tasks db" "cd_repos db0 = cd_repos db" "cd_pending db0 = cd_pending db"
    using e by (auto simp: try_enqueue_def enqueue_db_def split: prod.splits)
  have "finalize_review J lower (\<lambda>_. True) now app scope i body db = (Ok_Json (finalized ''ask'' False True), ?db')"
    using assms e by (simp add: finalize_review_def Let_def posts_pr_review_def pending_is_empty_def flush_reply_def run_kind_def)
  moreover have "load_pending_review i (cd_pending ?db') = empty_buffer"
    using cleared_answer [OF assms(4)] tables(3) by (simp add: clear_action_def)
  moreover have "get_task_context ?db1 i = Some c"
    using context_tables [of ?db1 db i] tables assms(1) by (simp add: clear_action_def)
  then have "get_task_context ?db' i = Some (c\<lparr>cx_kind := ''ask''\<rparr>)" by (rule close_run_context)
  moreover have "intent_of (cd_outbox ?db') (review_key i) = None"
  proof -
    have "intent_of (cd_outbox db0) (review_key i) = None"
      using try_other [of "review_key i" "reply_key i" True now "target_of i c" "''reply''"] e assms(7)
      by (simp add: enqueue_reply_def review_key_def reply_key_def split: prod.splits) (metis snd_conv)
    moreover have "review_key i \<noteq> i @ '':check_run:resolve''" by (simp add: review_key_def)
    ultimately show ?thesis
      by (simp add: close_run_def Let_def enqueue_resolution_def effort_try enqueue_check_run_resolve_def try_other
          split: option.split)
  qed
  ultimately show thesis by (rule that)
qed

text \<open>
  Finalizing is not idempotent for a pure answer: the first finalize of a pull-request run that only
  buffered replies queues the reply and no review; repeated (its 200 was lost, say), it reads the buffer
  it has just cleared as an empty run and queues a review that calls the change clean.
\<close>

theorem refinalized_answer_becomes_a_review:
  assumes "get_task_context db i = Some c" "cx_target_type c = PULL_REQUEST" "cx_entry_point c \<noteq> ''pr_open''"
    and "load_pending_review i (cd_pending db) = \<lparr>pv_inline = [], pv_comments = replies, pv_summary = None\<rparr>" "replies \<noteq> []"
    and "ap_pool app" "ap_platforms app (cx_platform c) = Some fetch" "fetch (repo_ref_of c) (cx_target_id c) = Inr files"
    and "finalize_outcome J body \<noteq> Some ''finished''" "intent_of (cd_outbox db) (review_key i) = None"
  shows "case finalize_review J lower (\<lambda>_. True) now app scope i body db of (reply1, db1) \<Rightarrow>
    reply1 = Ok_Json (finalized ''ask'' False True) \<and> intent_of (cd_outbox db1) (review_key i) = None
    \<and> fst (finalize_review J lower (\<lambda>_. True) later app scope i body db1) = Ok_Json (finalized ''review'' True False)"
proof -
  obtain db1 where first: "finalize_review J lower (\<lambda>_. True) now app scope i body db = (Ok_Json (finalized ''ask'' False True), db1)"
    and after: "load_pending_review i (cd_pending db1) = empty_buffer" "get_task_context db1 i = Some (c\<lparr>cx_kind := ''ask''\<rparr>)"
      "intent_of (cd_outbox db1) (review_key i) = None"
    using assms(1,2,5,4,6,7,10) by (rule answer_flushed)
  have "repo_ref_of (c\<lparr>cx_kind := ''ask''\<rparr>) = repo_ref_of c" by (simp add: repo_ref_of_def)
  then have "fst (finalize_review J lower (\<lambda>_. True) later app scope i body db1) = Ok_Json (finalized ''review'' True False)"
    using review_posts [OF after(2) _ _ after(1), of app fetch files J body lower later scope] assms
    by (simp add: empty_buffer_def)
  then show ?thesis by (simp add: first after(3))
qed

section \<open>Witnesses\<close>

definition mention_row :: task_row where
  "mention_row = running_row\<lparr>tk_task := sample_request\<lparr>nt_entry_point := ''mention''\<rparr>\<rparr>"

definition review_db :: "buffer_call list \<Rightarrow> control_db" where
  "review_db calls =
     (with_tasks [mention_row])\<lparr>cd_repos := [\<lparr>re_id = 7, re_platform = GitHub, re_platform_repo_id = 70,
        re_owner = ''acme'', re_name = ''shop'', re_default_branch = ''main'', re_installation_id = Some 9,
        re_status = Approved, re_approved_at = Some 0, re_approved_by = Some ''admin''\<rparr>], cd_pending := apply_calls ''a'' (Some 0) calls empty_pending\<rparr>"

definition open_app :: app_state where
  "open_app = \<lparr>ap_pool = True, ap_review = no_labels, ap_platforms = (\<lambda>_. Some (\<lambda>_ _. Inr [])), ap_app_handle = ''bot'',
     ap_gitlab = None, ap_bitbucket = None\<rparr>"

definition mute_serde :: serde where
  "mute_serde = \<lparr>to_text = (\<lambda>_. []), from_text = (\<lambda>_. None)\<rparr>"

lemma mute_outcome: "finalize_outcome mute_serde body = None"
  by (simp add: finalize_outcome_def mute_serde_def)

definition sample_context :: task_context where
  "sample_context = the (get_task_context (review_db []) ''a'')"

lemmas sample_defs = review_db_def mention_row_def with_tasks_def empty_db_def running_row_def claimed_row_def
  fresh_row_def sample_request_def get_row_def open_app_def

lemma sample_context:
  "get_task_context (review_db calls) ''a'' = Some sample_context" "cx_target_type sample_context = PULL_REQUEST"
  "cx_entry_point sample_context = ''mention''" "cd_outbox (review_db calls) = empty_outbox"
  by (simp_all add: sample_context_def get_task_context_def sample_defs Let_def)

lemma nothing_queued: "intent_of empty_outbox k = None" "verdict_of (review_db calls) i = None"
  by (simp_all add: intent_of_def empty_outbox_def row_of_def verdict_of_def sample_context)

definition sample_answer :: "buffer_call list" where "sample_answer = [Add_Reply (Some ''c1'') ''It retries twice.'']"

definition sample_inline :: pending_inline where
  "sample_inline = \<lparr>pi_file = ''a.rs'', pi_line = 3, pi_title = Some ''t'', pi_priority = Some ''P1'',
     pi_category = None, pi_suggestion = None, pi_body = ''b''\<rparr>"

lemma loaded:
  "load_pending_review ''a'' (cd_pending (review_db sample_answer))
     = \<lparr>pv_inline = [], pv_comments = [''It retries twice.''], pv_summary = None\<rparr>"
  "load_pending_review ''a'' (cd_pending (review_db [Add_Inline sample_inline]))
     = \<lparr>pv_inline = [sample_inline], pv_comments = [], pv_summary = None\<rparr>"
  by (simp_all add: review_db_def apply_calls_def sample_answer_def empty_pending_def add_pending_comment_def add_row_def
      text_row_def inline_row_def upsert_pending_inline_def load_pending_review_def select_action_def is_summary_def
      inline_of_def sample_inline_def Let_def)

lemma open_fetch: "ap_pool open_app" "ap_platforms open_app p = Some (\<lambda>_ _. Inr [])"
  by (simp_all add: open_app_def)

theorem refinalized_answer_becomes_a_review_witness:
  "case finalize_review mute_serde (\<lambda>s. s) (\<lambda>_. True) 50 open_app Scope_Pr ''a'' [] (review_db sample_answer) of (reply1, db1) \<Rightarrow>
    reply1 = Ok_Json (finalized ''ask'' False True) \<and> intent_of (cd_outbox db1) (review_key ''a'') = None
    \<and> fst (finalize_review mute_serde (\<lambda>s. s) (\<lambda>_. True) 60 open_app Scope_Pr ''a'' [] db1) = Ok_Json (finalized ''review'' True False)"
  by (rule refinalized_answer_becomes_a_review [OF sample_context(1,2) _ loaded(1) _ open_fetch])
    (simp_all add: sample_context mute_outcome nothing_queued)

theorem finalized_run_is_answered_witness:
  "\<exists>db' :: control_db. intent_of (cd_outbox db') (review_key ''a'') \<noteq> None \<or> intent_of (cd_outbox db') (reply_key ''a'') \<noteq> None
    \<or> has_review_intent_or_posted_review (review_db sample_answer) ''a''
    \<or> finalize_outcome mute_serde [] = Some ''finished''
      \<and> pv_inline (load_pending_review ''a'' (cd_pending (review_db sample_answer))) = []
      \<and> \<not> target_has_prior_findings (review_db sample_answer) (cx_repository_id sample_context)
          (cx_target_type sample_context) (cx_target_id sample_context) ''a''
      \<and> reactions_enabled (ap_review open_app)
      \<and> intent_of (cd_outbox db') (verdict_key ''a'') \<noteq> None \<and> get_review (cd_reviews db') ''a'' \<noteq> None"
proof -
  obtain db' where "finalize_review mute_serde (\<lambda>s. s) (\<lambda>_. True) 50 open_app Scope_Pr ''a'' [] (review_db sample_answer)
      = (Ok_Json (finalized ''ask'' False True), db')"
    using answer_flushed [OF sample_context(1,2) _ loaded(1) open_fetch, of mute_serde "\<lambda>s. s" 50 Scope_Pr "[]"]
    by (auto simp: sample_context nothing_queued)
  from finalized_run_is_answered [OF this sample_context(1,2)] show ?thesis by (rule exI [where x = db'])
qed

theorem findings_are_posted_witness:
  "\<exists>r db'. json_get r ''review'' = Some (JBool True) \<and> intent_of (cd_outbox db') (review_key ''a'') \<noteq> None
    \<and> pred_option (\<lambda>v. v = verdict_payload sample_context ''-1'' \<and> reactions_enabled (ap_review open_app)
         \<and> finalize_outcome mute_serde [] \<noteq> Some ''aborted'') (verdict_of db' ''a'')"
proof -
  let ?run = "finalize_review mute_serde (\<lambda>s. s) (\<lambda>_. True) 50 open_app Scope_Pr ''a'' [] (review_db [Add_Inline sample_inline])"
  have "fst ?run = Ok_Json (finalized ''review'' True False)"
    by (rule review_posts [OF sample_context(1,2) _ loaded(2) _ open_fetch]) (simp_all add: sample_context mute_outcome)
  then have "?run = (Ok_Json (finalized ''review'' True False), snd ?run)" by (metis prod.collapse)
  from findings_are_posted [OF this sample_context(1,2)] show ?thesis
    by (auto simp: loaded nothing_queued)
qed

theorem opened_check_is_resolved_witness:
  "intent_of (cd_outbox (handle_review_failure (\<lambda>_. True) 90 no_labels ''a'' CFailure (review_db []))) (check_key ''a'') \<noteq> None
    \<and> intent_of (cd_outbox (enqueue_reaper_failure_notice (\<lambda>_. True) 90 no_labels ''a'' (review_db []))) (check_key ''a'') \<noteq> None
    \<and> intent_of (cd_outbox (resolve_cancelled_check_run (\<lambda>_. True) 90 ''a'' (review_db []))) (check_key ''a'') \<noteq> None"
proof (rule opened_check_is_resolved [where db = "review_db []" and t = mention_row and up = "\<lambda>_. True" and now = 20])
  show "intent_of (cd_outbox (start_check_run_signal (\<lambda>_. True) 20 mention_row (review_db []))) (''a'' @ '':check_run:start'') \<noteq> None"
    by (simp add: start_check_run_signal_def sample_context get_task_context_def sample_defs Let_def best_effort_def enqueue_db_def
        enqueue_check_run_start_def enqueue_intent_def enqueue_outbox_post_def OUTBOX_KINDS_def target_intent_def target_of_def
        outbox_insert_def empty_outbox_def row_of_def references_task_def id_taken_def key_prefix_def intent_of_def
        new_outbox_row_def INDEX_def PULL_REQUEST_def)
qed (simp_all add: sample_context nothing_queued, simp_all add: sample_defs)

theorem restart_keeps_a_resumed_buffer_witness:
  "case set_status (\<lambda>_. True) (\<lambda>_. True) 70 True no_labels ''a'' ''running'' None (review_db sample_answer) of (reply, db') \<Rightarrow>
      (case reportable_status ''running'' of
         None \<Rightarrow> reply = Bad_Request ''unsupported status'' \<and> db' = review_db sample_answer
       | Some status \<Rightarrow> reply = No_Content \<and>
           load_pending_review ''a'' (cd_pending db') =
             (if status = Running \<and> \<not> has_durable_steps ''a'' 0 (cd_steps (review_db sample_answer)) then empty_buffer
              else load_pending_review ''a'' (cd_pending (review_db sample_answer))))"
proof (rule restart_keeps_a_resumed_buffer)
  show "pending_ok (cd_pending (review_db sample_answer))"
    using apply_calls_ok [of empty_pending "''a''" "Some 0" sample_answer]
    by (simp add: review_db_def empty_pending_def pending_ok_def)
qed (simp_all add: sample_defs id_taken_def run_epoch_of_def)

end
