(* ===== verification/Repositories.thy ===== *)
theory Repositories
  imports Settings Queue_Workers
begin

text \<open>
  The repositories and their approval gate (\<open>db/repositories.rs\<close>), the recorded webhook deliveries
  (\<open>db/mod.rs\<close>, \<open>db/webhook_deliveries.rs\<close>), and the tables the webhook handlers work on as one record.
  A repository's id is drawn from a sequence, which every insert attempt advances, also one that finds
  the row already there. The unique index on the platform and its repository id (migration 0024) is the
  conflict target of the inserts.
\<close>

section \<open>The webhook side of the database\<close>

record delivery_row =
  dr_platform :: platform
  dr_delivery_id :: string
  dr_event :: string
  dr_payload :: json
  dr_received_at :: nat

record webhook_db =
  wd_control :: control_db
  wd_next_repo :: int
  wd_deliveries :: "delivery_row list"
  wd_settings :: settings_table
  wd_repo_models :: model_table
  wd_org_models :: model_table
  wd_purges :: "int list"    \<comment> \<open>the purges spawned and not run yet\<close>

abbreviation wd_repos :: "webhook_db \<Rightarrow> repository list" where "wd_repos db \<equiv> cd_repos (wd_control db)"
abbreviation wd_tasks :: "webhook_db \<Rightarrow> tasks" where "wd_tasks db \<equiv> cd_tasks (wd_control db)"

definition with_repos :: "repository list \<Rightarrow> webhook_db \<Rightarrow> webhook_db" where
  "with_repos rs db = db\<lparr>wd_control := (wd_control db)\<lparr>cd_repos := rs\<rparr>\<rparr>"

definition with_task_rows :: "tasks \<Rightarrow> webhook_db \<Rightarrow> webhook_db" where
  "with_task_rows ts db = db\<lparr>wd_control := (wd_control db)\<lparr>cd_tasks := ts\<rparr>\<rparr>"

section \<open>Deliveries\<close>

definition record_delivery ::
  "nat \<Rightarrow> platform \<Rightarrow> string \<Rightarrow> string \<Rightarrow> json \<Rightarrow> delivery_row list \<Rightarrow> bool \<times> delivery_row list" where
  "record_delivery now p i event payload ds =
     (if list_ex (\<lambda>d. dr_delivery_id d = i) ds then (False, ds)
      else (True, ds @ [\<lparr>dr_platform = p, dr_delivery_id = i, dr_event = event, dr_payload = payload,
                         dr_received_at = now\<rparr>]))"

text \<open>Compaction: the oldest \<open>batch\<close> platform deliveries past their retention lose their payload.\<close>

definition compactable :: "nat \<Rightarrow> int \<Rightarrow> delivery_row \<Rightarrow> bool" where
  "compactable now retention_days d \<longleftrightarrow> dr_payload d \<noteq> JObj [] \<and> dr_event d \<noteq> ''mcp.review''
     \<and> int (dr_received_at d) < int now - retention_days * 86400"

definition compact_webhook_payloads ::
  "nat \<Rightarrow> int \<Rightarrow> int \<Rightarrow> delivery_row list \<Rightarrow> nat \<times> delivery_row list" where
  "compact_webhook_payloads now retention_days batch ds =
     (if retention_days \<le> 0 \<or> batch \<le> 0 then (0, ds)
      else let ids = map dr_delivery_id
                 (take (nat batch) (sort_key dr_received_at (filter (compactable now retention_days) ds)))
           in (length ids, update_where (\<lambda>d. dr_delivery_id d \<in> set ids) (\<lambda>d. d\<lparr>dr_payload := JObj []\<rparr>) ds))"

section \<open>Repositories\<close>

definition hosted_as :: "platform \<Rightarrow> int \<Rightarrow> repository \<Rightarrow> bool" where
  "hosted_as p n r \<longleftrightarrow> re_platform r = p \<and> re_platform_repo_id r = n"

definition repo_row :: "repository list \<Rightarrow> int \<Rightarrow> repository option" where
  "repo_row rs i = row_of re_id rs i"

definition coalesce :: "'a option \<Rightarrow> 'a option \<Rightarrow> 'a option" where
  "coalesce a b = (case a of Some v \<Rightarrow> Some v | None \<Rightarrow> b)"

definition fresh_repository ::
  "int \<Rightarrow> platform \<Rightarrow> int \<Rightarrow> string \<Rightarrow> string \<Rightarrow> string \<Rightarrow> int option \<Rightarrow> repository" where
  "fresh_repository i p n owner name branch installation =
     \<lparr>re_id = i, re_platform = p, re_platform_repo_id = n, re_owner = owner, re_name = name,
      re_default_branch = branch, re_installation_id = installation, re_status = Awaiting,
      re_approved_at = None, re_approved_by = None\<rparr>"

definition upsert_repository ::
  "platform \<Rightarrow> int \<Rightarrow> string \<Rightarrow> string \<Rightarrow> string \<Rightarrow> int option \<Rightarrow> webhook_db \<Rightarrow> int \<times> webhook_db" where
  "upsert_repository p n owner name branch installation db =
     (let i = wd_next_repo db;
          db' = db\<lparr>wd_next_repo := i + 1\<rparr>
      in case find (hosted_as p n) (wd_repos db) of
           Some r \<Rightarrow>
             (re_id r, with_repos (update_where (hosted_as p n)
                (\<lambda>r. r\<lparr>re_owner := owner, re_name := name, re_default_branch := branch,
                       re_installation_id := coalesce installation (re_installation_id r)\<rparr>) (wd_repos db)) db')
         | None \<Rightarrow>
             (i, with_repos (wd_repos db @ [fresh_repository i p n owner name branch installation]) db'))"

definition register_pending_repository ::
  "platform \<Rightarrow> int \<Rightarrow> string \<Rightarrow> string \<Rightarrow> string \<Rightarrow> int option \<Rightarrow> webhook_db \<Rightarrow> bool \<times> webhook_db" where
  "register_pending_repository p n owner name branch installation db =
     (let i = wd_next_repo db;
          db' = db\<lparr>wd_next_repo := i + 1\<rparr>
      in case find (hosted_as p n) (wd_repos db) of
           Some r \<Rightarrow>
             (re_status r = Disabled,
              with_repos (update_where (\<lambda>r. hosted_as p n r \<and> re_status r = Disabled)
                (\<lambda>r. r\<lparr>re_status := Awaiting, re_owner := owner, re_name := name,
                       re_installation_id := coalesce installation (re_installation_id r)\<rparr>) (wd_repos db)) db')
         | None \<Rightarrow>
             (True, with_repos (wd_repos db @ [fresh_repository i p n owner name branch installation]) db'))"

definition repository_status :: "repository list \<Rightarrow> int \<Rightarrow> repo_status option" where
  "repository_status rs i = map_option re_status (repo_row rs i)"

definition repository_approved :: "repository list \<Rightarrow> int \<Rightarrow> bool" where
  "repository_approved rs i \<longleftrightarrow> repository_status rs i = Some Approved"

definition update_repository_default_branch :: "int \<Rightarrow> string \<Rightarrow> repository list \<Rightarrow> repository list" where
  "update_repository_default_branch i branch =
     update_where (\<lambda>r. re_id r = i) (\<lambda>r. r\<lparr>re_default_branch := branch\<rparr>)"

definition repository_installation_id :: "repository list \<Rightarrow> int \<Rightarrow> int option" where
  "repository_installation_id rs i = Option.bind (repo_row rs i) re_installation_id"

text \<open>SQL's \<open>lower\<close> is a parameter.\<close>

definition find_repository ::
  "(string \<Rightarrow> string) \<Rightarrow> platform \<Rightarrow> string \<Rightarrow> string \<Rightarrow> repository list
   \<Rightarrow> (int \<times> int option \<times> repo_status) option" where
  "find_repository lower p owner name rs =
     map_option (\<lambda>r. (re_id r, re_installation_id r, re_status r))
       (find (\<lambda>r. re_platform r = p \<and> lower (re_owner r) = lower owner \<and> lower (re_name r) = lower name) rs)"

definition set_status_columns :: "repo_status \<Rightarrow> nat option \<Rightarrow> string option \<Rightarrow> repository \<Rightarrow> repository" where
  "set_status_columns s at_time by_admin r =
     r\<lparr>re_status := s, re_approved_at := (if s = Approved then at_time else None),
       re_approved_by := (if s = Approved then by_admin else None)\<rparr>"

definition set_repository_status_by_platform_id ::
  "platform \<Rightarrow> int \<Rightarrow> repo_status \<Rightarrow> repository list \<Rightarrow> int option \<times> repository list" where
  "set_repository_status_by_platform_id p n s rs =
     (map_option re_id (find (hosted_as p n) rs),
      update_where (hosted_as p n) (\<lambda>r. set_status_columns s (re_approved_at r) (re_approved_by r) r) rs)"

record repository_view =
  vw_repository :: repository
  vw_active :: bool
  vw_task_count :: nat
  vw_last_task_at :: "nat option"

definition view_of :: "tasks \<Rightarrow> repository \<Rightarrow> repository_view" where
  "view_of ts r =
     (let made = map tk_created_at (filter (\<lambda>t. repo_of t = re_id r) ts)
      in \<lparr>vw_repository = r, vw_active = (re_status r = Approved), vw_task_count = length made,
          vw_last_task_at = (if made = [] then None else Some (foldr max made 0))\<rparr>)"

definition get_repository_by_id :: "tasks \<Rightarrow> repository list \<Rightarrow> int \<Rightarrow> repository_view option" where
  "get_repository_by_id ts rs i = map_option (view_of ts) (repo_row rs i)"

definition set_repository_status_by_id ::
  "nat \<Rightarrow> int \<Rightarrow> repo_status \<Rightarrow> string option \<Rightarrow> tasks \<Rightarrow> repository list
   \<Rightarrow> repository_view option \<times> repository list" where
  "set_repository_status_by_id now i s admin ts rs =
     (let rs' = update_where (\<lambda>r. re_id r = i) (set_status_columns s (Some now) admin) rs
      in (get_repository_by_id ts rs' i, rs'))"

section \<open>Tasks of a repository\<close>

text \<open>The newest task of a natural key: by creation time, then by id.\<close>

definition find_task_id_by_idempotency :: "tasks \<Rightarrow> new_task \<Rightarrow> string option" where
  "find_task_id_by_idempotency ts nt =
     (case rev (sort_key (\<lambda>t. (tk_created_at t, tk_id t))
                  (filter (\<lambda>t. row_key t = natural_key nt (nt_run_epoch nt)) ts)) of
        [] \<Rightarrow> None | t # _ \<Rightarrow> Some (tk_id t))"

text \<open>An index task has no originating delivery and no commits; its other columns take the defaults of
  migrations 0021, 0033 and 0037. The missing delivery is the empty text here.\<close>

definition index_request :: "int \<Rightarrow> int \<Rightarrow> new_task" where
  "index_request repo installation =
     \<lparr>nt_repository_id = repo, nt_installation_id = installation, nt_delivery_id = '''',
      nt_target_type = ''repository'', nt_target_id = repo, nt_command = INDEX, nt_base_sha = None,
      nt_head_sha = None, nt_run_epoch = 0, nt_preset = ''deep'', nt_entry_point = ''mention'',
      nt_trigger_comment_id = None, nt_trace_context = None, nt_model_override = None,
      nt_check_runs_enabled = True, nt_run_after_secs = None\<rparr>"

definition index_active :: "tasks \<Rightarrow> int \<Rightarrow> bool" where
  "index_active ts repo = list_ex (\<lambda>t. repo_of t = repo \<and> command_of t = INDEX
     \<and> tk_status t \<in> {Queued, Running, PostingResult}) ts"

definition create_index_task :: "nat \<Rightarrow> string \<Rightarrow> int \<Rightarrow> int \<Rightarrow> tasks \<Rightarrow> string option \<times> tasks" where
  "create_index_task now i repo installation ts =
     (let nt = index_request repo installation; epoch = next_epoch ts nt
      in if index_active ts repo then (None, ts)
         else if key_taken ts nt epoch \<or> id_taken ts i then (None, ts)
         else (Some i, ts @ [fresh_row now i nt epoch now Queued]))"

end
