(* ===== verification/Webhook.thy ===== *)
theory Webhook
  imports Repositories Finalize "HOL-Library.Monad_Syntax"
begin

text \<open>
  The webhook receivers (\<open>http/webhook.rs\<close>): a delivery is verified, recorded once, routed by its event
  name and handled. The handlers keep the repositories up to date, pass every piece of work through the
  approval gate, and create, cancel or supersede tasks. Each database statement is one atomic step; which
  of them the database answers is \<open>hr_up\<close>. The platforms' answers, the keyed hash of the signatures, the
  hash behind Bitbucket's ids and the config parser are fields of the application state.
\<close>

section \<open>Application state and one delivery's surroundings\<close>

record forge =
  fg_pr_shas :: "repo_ref \<Rightarrow> int \<Rightarrow> (string, string option \<times> string option) result"
  fg_repo_file :: "repo_ref \<Rightarrow> string \<Rightarrow> (string, string option) result"
  fg_default_branch :: "repo_ref \<Rightarrow> (string, string) result"

record project =
  pj_project_id :: int
  pj_bot_handle :: string
  pj_webhook_secret :: string
  pj_client :: forge

record gitlab_registry =
  gr_by_project_id :: "(int \<times> project) list"
  gr_by_installation_id :: "(int \<times> int) list"

type_synonym bitbucket_registry = "(int \<times> project) list"

definition gitlab_project :: "gitlab_registry option \<Rightarrow> int \<Rightarrow> project option" where
  "gitlab_project reg n = Option.bind reg (\<lambda>r. al_lookup (gr_by_project_id r) n)"

definition get_by_installation_id :: "gitlab_registry \<Rightarrow> int \<Rightarrow> project option" where
  "get_by_installation_id r n =
     Option.bind (al_lookup (gr_by_installation_id r) n) (al_lookup (gr_by_project_id r))"

definition bitbucket_project :: "bitbucket_registry option \<Rightarrow> int \<Rightarrow> project option" where
  "bitbucket_project reg n = Option.bind reg (\<lambda>r. al_lookup r n)"

record hook_app =
  ha_github :: "forge option"
  ha_github_app_secret :: string
  ha_github_webhook_secret :: string
  ha_app_handle :: string
  ha_gitlab :: "gitlab_registry option"
  ha_bitbucket :: "bitbucket_registry option"
  ha_skip_bot_authored_prs :: bool
  ha_hmac_hex :: "string \<Rightarrow> string \<Rightarrow> string"
  ha_stable_id :: "string \<Rightarrow> int"
  ha_parse_config :: "string \<Rightarrow> preset_config option option"

datatype hook_query =
  H_Record | H_Upsert | H_Approved | H_Settings | H_Repo_Model | H_Org_Model | H_Create | H_Explicit
| H_Index | H_Cancel | H_Supersede | H_Register int | H_Disable int

record hook_run =
  hr_up :: "hook_query \<Rightarrow> bool"
  hr_worker_up :: "string \<Rightarrow> worker_query \<Rightarrow> bool"
  hr_now :: nat
  hr_ids :: "nat \<Rightarrow> string"                   \<comment> \<open>the fresh ids of the delivery's inserts\<close>
  hr_race :: "nat \<Rightarrow> tasks \<Rightarrow> tasks"   \<comment> \<open>what concurrent deliveries insert meanwhile\<close>
  hr_trace :: "string option"

section \<open>Reading payloads\<close>

text \<open>Indexing a JSON value; a missing member is null.\<close>

definition jat :: "json \<Rightarrow> string \<Rightarrow> json" where
  "jat j k = (case json_get j k of None \<Rightarrow> JNull | Some v \<Rightarrow> v)"

fun json_bool :: "json \<Rightarrow> bool option" where
  "json_bool (JBool b) = Some b"
| "json_bool _ = None"

fun json_array :: "json \<Rightarrow> json list option" where
  "json_array (JArr js) = Some js"
| "json_array _ = None"

definition or_empty :: "string option \<Rightarrow> string" where
  "or_empty s = (case s of Some t \<Rightarrow> t | None \<Rightarrow> '''')"

definition gitlab_path_split :: "string \<Rightarrow> (string \<times> string) option" where
  "gitlab_path_split path = rsplit_once ''/'' path"

definition gitlab_project_identity :: "json \<Rightarrow> (int \<times> string \<times> string \<times> string) option" where
  "gitlab_project_identity project =
     do {
       project_id \<leftarrow> as_i64 (jat project ''id'');
       path \<leftarrow> as_str (jat project ''path_with_namespace'');
       let branch = (case as_str (jat project ''default_branch'') of Some b \<Rightarrow> b | None \<Rightarrow> ''main'');
       (owner, name) \<leftarrow> gitlab_path_split path;
       Some (project_id, owner, name, branch)
     }"

definition bitbucket_repo_identity :: "json \<Rightarrow> (string \<times> string \<times> string) option" where
  "bitbucket_repo_identity payload =
     do {
       full_name \<leftarrow> as_str (jat (jat payload ''repository'') ''full_name'');
       (workspace, slug) \<leftarrow> rsplit_once ''/'' full_name;
       Some (full_name, workspace, slug)
     }"

definition repo_identity :: "json \<Rightarrow> (int \<times> string \<times> string) option" where
  "repo_identity repo =
     do {
       i \<leftarrow> as_i64 (jat repo ''id'');
       full_name \<leftarrow> as_str (jat repo ''full_name'');
       (owner, name) \<leftarrow> split_once ''/'' full_name;
       Some (i, owner, name)
     }"

definition github_repo :: "json \<Rightarrow> (int \<times> string \<times> string \<times> string) option" where
  "github_repo payload =
     do {
       let repo = jat payload ''repository'';
       i \<leftarrow> as_i64 (jat repo ''id'');
       owner \<leftarrow> as_str (jat (jat repo ''owner'') ''login'');
       name \<leftarrow> as_str (jat repo ''name'');
       branch \<leftarrow> as_str (jat repo ''default_branch'');
       Some (i, owner, name, branch)
     }"

definition installation_of :: "json \<Rightarrow> int option" where
  "installation_of payload = as_i64 (jat (jat payload ''installation'') ''id'')"

definition ref_of :: "platform \<Rightarrow> string \<Rightarrow> string \<Rightarrow> int \<Rightarrow> int \<Rightarrow> repo_ref" where
  "ref_of p owner name n installation =
     \<lparr>rr_platform = p, rr_full_name = owner @ ''/'' @ name, rr_platform_repo_id = n,
      rr_installation_id = installation\<rparr>"

section \<open>Mentions and bots\<close>

definition mentions_handle :: "string \<Rightarrow> string \<Rightarrow> bool" where
  "mentions_handle body handle \<longleftrightarrow>
     prefix (''@'' @ to_ascii_lowercase handle) (to_ascii_lowercase (trim_start body))"

definition MAX_INSTRUCTION_CHARS :: nat where "MAX_INSTRUCTION_CHARS = 2000"

definition command_from_comment :: "string \<Rightarrow> string" where
  "command_from_comment body = take_chars MAX_INSTRUCTION_CHARS (trim body)"

definition pr_author_is_bot :: "json \<Rightarrow> bool" where
  "pr_author_is_bot pr \<longleftrightarrow>
     (let user = jat pr ''user''
      in as_str (jat user ''type'') = Some ''Bot''
         \<or> (case as_str (jat user ''login'') of None \<Rightarrow> False | Some login \<Rightarrow> suffix ''[bot]'' login))"

definition should_skip_bot_review :: "bool \<Rightarrow> json \<Rightarrow> bool" where
  "should_skip_bot_review skip_bots pr \<longleftrightarrow> skip_bots \<and> pr_author_is_bot pr"

definition should_skip_gitlab_bot_review :: "bool \<Rightarrow> string \<Rightarrow> bool" where
  "should_skip_gitlab_bot_review skip_bots author \<longleftrightarrow>
     skip_bots \<and> author \<noteq> [] \<and> (suffix ''_bot'' author \<or> suffix ''-bot'' author \<or> author = ''GitLab'')"

section \<open>The steps the handlers share\<close>

definition upsert_step ::
  "hook_run \<Rightarrow> platform \<Rightarrow> int \<Rightarrow> string \<Rightarrow> string \<Rightarrow> string \<Rightarrow> int option \<Rightarrow> webhook_db
   \<Rightarrow> (int \<times> webhook_db) option" where
  "upsert_step run p n owner name branch installation db =
     (if hr_up run H_Upsert then Some (upsert_repository p n owner name branch installation db) else None)"

definition approved_or_skip :: "hook_run \<Rightarrow> int \<Rightarrow> webhook_db \<Rightarrow> bool" where
  "approved_or_skip run repo db \<longleftrightarrow> hr_up run H_Approved \<and> repository_approved (wd_repos db) repo"

definition supersede_older_reviews :: "hook_run \<Rightarrow> int \<Rightarrow> int \<Rightarrow> string \<Rightarrow> webhook_db \<Rightarrow> webhook_db" where
  "supersede_older_reviews run repo pr keep_head db =
     (if \<not> hr_up run H_Supersede then db
      else let (ids, ts) = cancel_superseded_pr_reviews (hr_now run) repo pr keep_head (wd_tasks db);
               db1 = with_task_rows ts db
           in db1\<lparr>wd_control := fold (\<lambda>i. resolve_cancelled_check_run (hr_worker_up run i) (hr_now run) i) ids
                                  (wd_control db1)\<rparr>)"

definition create_review_task ::
  "hook_run \<Rightarrow> new_task \<Rightarrow> bool \<Rightarrow> resolved_settings \<Rightarrow> webhook_db \<Rightarrow> webhook_db" where
  "create_review_task run nt is_sync settings db =
     (let strategy = so_value (rs_push_strategy settings);
          nt' = (if is_sync \<and> strategy = Debounce
                 then nt\<lparr>nt_run_after_secs := Some (so_value (rs_push_debounce settings))\<rparr> else nt)
      in if \<not> hr_up run H_Create then db
         else case create_task (hr_now run) (hr_ids run 0) nt' (wd_tasks db) of
           Inl _ \<Rightarrow> db
         | Inr (None, ts) \<Rightarrow> with_task_rows ts db
         | Inr (Some _, ts) \<Rightarrow>
             (let db1 = with_task_rows ts db
              in if is_sync \<and> strategy = Supersede
                 then (case nt_head_sha nt of
                         None \<Rightarrow> db1
                       | Some keep_head \<Rightarrow>
                           supersede_older_reviews run (nt_repository_id nt) (nt_target_id nt) keep_head db1)
                 else db1))"

definition create_explicit_review_task :: "hook_run \<Rightarrow> new_task \<Rightarrow> webhook_db \<Rightarrow> webhook_db" where
  "create_explicit_review_task run nt db =
     (if hr_up run H_Explicit
      then with_task_rows (snd (create_explicit_task (hr_now run) (hr_ids run) (hr_race run) nt 0 (wd_tasks db))) db
      else db)"

definition cancel_closed_pr :: "hook_run \<Rightarrow> int \<Rightarrow> int \<Rightarrow> webhook_db \<Rightarrow> webhook_db" where
  "cancel_closed_pr run repo pr db =
     (if hr_up run H_Cancel
      then with_task_rows (snd (cancel_active_tasks_for_pr (hr_now run) repo pr (wd_tasks db))) db else db)"

definition index_on_push :: "hook_run \<Rightarrow> int \<Rightarrow> int \<Rightarrow> webhook_db \<Rightarrow> webhook_db" where
  "index_on_push run repo installation db =
     (if \<not> approved_or_skip run repo db then db
      else if \<not> hr_up run H_Index then db
      else with_task_rows (snd (create_index_task (hr_now run) (hr_ids run 0) repo installation (wd_tasks db))) db)"

text \<open>What a task is asked to review: its target, command, commits and, for a mention, the comment.\<close>

record review_target =
  vt_type :: string
  vt_id :: int
  vt_command :: string
  vt_base_sha :: "string option"
  vt_head_sha :: "string option"
  vt_trigger_comment_id :: "int option"

definition model_for :: "hook_run \<Rightarrow> int \<Rightarrow> int \<Rightarrow> webhook_db \<Rightarrow> string option" where
  "model_for run repo installation db =
     resolve_model_override (hr_up run H_Repo_Model) (hr_up run H_Org_Model) (wd_repo_models db)
       (wd_org_models db) repo installation"

definition task_for ::
  "hook_run \<Rightarrow> string \<Rightarrow> entry_point \<Rightarrow> string \<Rightarrow> resolved_settings \<Rightarrow> int \<Rightarrow> int \<Rightarrow> review_target
   \<Rightarrow> webhook_db \<Rightarrow> new_task" where
  "task_for run delivery entry preset settings repo installation v db =
     \<lparr>nt_repository_id = repo, nt_installation_id = installation, nt_delivery_id = delivery,
      nt_target_type = vt_type v, nt_target_id = vt_id v, nt_command = vt_command v,
      nt_base_sha = vt_base_sha v, nt_head_sha = vt_head_sha v, nt_run_epoch = 0, nt_preset = preset,
      nt_entry_point = entry_text entry, nt_trigger_comment_id = vt_trigger_comment_id v,
      nt_trace_context = hr_trace run, nt_model_override = model_for run repo installation db,
      nt_check_runs_enabled = so_value (rs_check_run_reporting settings), nt_run_after_secs = None\<rparr>"

definition settings_for ::
  "hook_app \<Rightarrow> hook_run \<Rightarrow> forge option \<Rightarrow> repo_ref \<Rightarrow> string option \<Rightarrow> string \<Rightarrow> entry_point \<Rightarrow> int
   \<Rightarrow> webhook_db \<Rightarrow> string \<times> resolved_settings" where
  "settings_for app run client ref base branch entry repo db =
     resolve_preset_and_settings (ha_parse_config app)
       (map_option (\<lambda>f. fg_repo_file f ref (case base of Some b \<Rightarrow> b | None \<Rightarrow> branch)) client)
       (hr_up run H_Settings) (wd_settings db) entry repo"

definition automatic_target :: "int \<Rightarrow> string option \<Rightarrow> string option \<Rightarrow> review_target" where
  "automatic_target pr base head =
     \<lparr>vt_type = PULL_REQUEST, vt_id = pr, vt_command = ''review'', vt_base_sha = base, vt_head_sha = head,
      vt_trigger_comment_id = None\<rparr>"

definition automatic_review ::
  "hook_app \<Rightarrow> hook_run \<Rightarrow> forge option \<Rightarrow> repo_ref \<Rightarrow> string \<Rightarrow> bool \<Rightarrow> int \<Rightarrow> int \<Rightarrow> string
   \<Rightarrow> string option \<Rightarrow> string option \<Rightarrow> webhook_db \<Rightarrow> webhook_db" where
  "automatic_review app run client ref branch is_sync repo pr delivery base head db =
     (let entry = (if is_sync then PrSync else PrOpen);
          (preset, settings) = settings_for app run client ref base branch entry repo db;
          setting = (if is_sync then rs_review_on_push settings else rs_review_on_pr_open settings)
      in if \<not> so_value setting then db
         else create_review_task run
                (task_for run delivery entry preset settings repo (rr_installation_id ref)
                   (automatic_target pr base head) db)
                is_sync settings db)"

definition mention_run ::
  "hook_app \<Rightarrow> hook_run \<Rightarrow> forge option \<Rightarrow> repo_ref \<Rightarrow> string \<Rightarrow> int \<Rightarrow> string \<Rightarrow> review_target
   \<Rightarrow> webhook_db \<Rightarrow> webhook_db" where
  "mention_run app run client ref branch repo delivery v db =
     (let (preset, settings) = settings_for app run client ref (vt_base_sha v) branch Mention repo db
      in create_explicit_review_task run
           (task_for run delivery Mention preset settings repo (rr_installation_id ref) v db) db)"

section \<open>GitHub\<close>

definition handle_pull_request :: "hook_app \<Rightarrow> hook_run \<Rightarrow> json \<Rightarrow> string \<Rightarrow> webhook_db \<Rightarrow> webhook_db" where
  "handle_pull_request app run payload delivery db =
     (let action = or_empty (as_str (jat payload ''action'')); pr = jat payload ''pull_request'' in
      if action \<notin> {''opened'', ''closed''} then db
      else case (do { (n, owner, name, branch) \<leftarrow> github_repo payload; number \<leftarrow> as_i64 (jat pr ''number'');
                      Some (n, owner, name, branch, number) }) of
        None \<Rightarrow> db
      | Some (n, owner, name, branch, number) \<Rightarrow>
          (case upsert_step run GitHub n owner name branch (installation_of payload) db of
             None \<Rightarrow> db
           | Some (repo, db1) \<Rightarrow>
               if action \<in> {''opened'', ''synchronize''} then
                 (case installation_of payload of
                    None \<Rightarrow> db1
                  | Some installation \<Rightarrow>
                      (let is_sync = (action = ''synchronize'') in
                       if \<not> approved_or_skip run repo db1 then db1
                       else if should_skip_bot_review (ha_skip_bot_authored_prs app) pr then db1
                       else if is_sync \<and> json_bool (jat pr ''draft'') = Some True then db1
                       else automatic_review app run (ha_github app) (ref_of GitHub owner name n installation)
                              branch is_sync repo number delivery (as_str (jat (jat pr ''base'') ''sha''))
                              (as_str (jat (jat pr ''head'') ''sha'')) db1))
               else if action = ''closed'' then cancel_closed_pr run repo number db1
               else db1))"

definition handle_push :: "hook_app \<Rightarrow> hook_run \<Rightarrow> json \<Rightarrow> string \<Rightarrow> webhook_db \<Rightarrow> webhook_db" where
  "handle_push app run payload delivery db =
     (if json_bool (jat payload ''deleted'') = Some True then db
      else case (do { (n, owner, name, branch) \<leftarrow> github_repo payload; git_ref \<leftarrow> as_str (jat payload ''ref'');
                      Some (n, owner, name, branch, git_ref) }) of
        None \<Rightarrow> db
      | Some (n, owner, name, branch, git_ref) \<Rightarrow>
          if git_ref \<noteq> ''refs/heads/'' @ branch then db
          else case installation_of payload of
            None \<Rightarrow> db
          | Some installation \<Rightarrow>
              (case upsert_step run GitHub n owner name branch (Some installation) db of
                 None \<Rightarrow> db
               | Some (repo, db1) \<Rightarrow> index_on_push run repo installation db1))"

definition handle_issue_comment :: "hook_app \<Rightarrow> hook_run \<Rightarrow> json \<Rightarrow> string \<Rightarrow> webhook_db \<Rightarrow> webhook_db" where
  "handle_issue_comment app run payload delivery db =
     (let body = or_empty (as_str (jat (jat payload ''comment'') ''body''));
          is_pr = (jat (jat payload ''issue'') ''pull_request'' \<noteq> JNull)
      in
      if as_str (jat payload ''action'') \<noteq> Some ''created'' then db
      else if \<not> mentions_handle body (ha_app_handle app) then db
      else case (do { (n, owner, name, branch) \<leftarrow> github_repo payload; installation \<leftarrow> installation_of payload;
                      number \<leftarrow> as_i64 (jat (jat payload ''issue'') ''number'');
                      Some (n, owner, name, branch, installation, number) }) of
        None \<Rightarrow> db
      | Some (n, owner, name, branch, installation, number) \<Rightarrow>
          (case upsert_step run GitHub n owner name branch (Some installation) db of
             None \<Rightarrow> db
           | Some (repo, db1) \<Rightarrow>
               if \<not> approved_or_skip run repo db1 then db1
               else
                 (let ref = ref_of GitHub owner name n installation;
                      shas = (if \<not> is_pr then Some (None, None)
                              else case ha_github app of
                                None \<Rightarrow> None
                              | Some client \<Rightarrow>
                                  (case fg_pr_shas client ref number of Inl _ \<Rightarrow> None | Inr s \<Rightarrow> Some s))
                  in case shas of
                    None \<Rightarrow> db1
                  | Some (base, head) \<Rightarrow>
                      mention_run app run (ha_github app) ref branch repo delivery
                        \<lparr>vt_type = (if is_pr then PULL_REQUEST else ''issue''), vt_id = number,
                         vt_command = command_from_comment body, vt_base_sha = base, vt_head_sha = head,
                         vt_trigger_comment_id = as_i64 (jat (jat payload ''comment'') ''id'')\<rparr> db1)))"

definition register_pending :: "hook_run \<Rightarrow> json list option \<Rightarrow> int option \<Rightarrow> webhook_db \<Rightarrow> webhook_db" where
  "register_pending run repos installation db =
     fold (\<lambda>repo db. case repo_identity repo of
        None \<Rightarrow> db
      | Some (n, owner, name) \<Rightarrow>
          if hr_up run (H_Register n)
          then snd (register_pending_repository GitHub n owner name '''' installation db) else db)
       (case repos of None \<Rightarrow> [] | Some rs \<Rightarrow> rs) db"

text \<open>A disabled repository's purge is spawned; it runs later, as \<open>purge_repository_data\<close>.\<close>

definition disable_repo :: "int \<Rightarrow> webhook_db \<Rightarrow> webhook_db" where
  "disable_repo n db =
     (let (found, rs) = set_repository_status_by_platform_id GitHub n Disabled (wd_repos db);
          db1 = with_repos rs db
      in case found of None \<Rightarrow> db1 | Some repo \<Rightarrow> db1\<lparr>wd_purges := wd_purges db1 @ [repo]\<rparr>)"

definition disable_repos :: "hook_run \<Rightarrow> json list option \<Rightarrow> webhook_db \<Rightarrow> webhook_db" where
  "disable_repos run repos db =
     fold (\<lambda>repo db. case as_i64 (jat repo ''id'') of
        None \<Rightarrow> db
      | Some n \<Rightarrow> if hr_up run (H_Disable n) then disable_repo n db else db)
       (case repos of None \<Rightarrow> [] | Some rs \<Rightarrow> rs) db"

definition handle_installation :: "hook_app \<Rightarrow> hook_run \<Rightarrow> json \<Rightarrow> string \<Rightarrow> webhook_db \<Rightarrow> webhook_db" where
  "handle_installation app run payload delivery db =
     (let action = or_empty (as_str (jat payload ''action''));
          repos = json_array (jat payload ''repositories'')
      in if action = ''created'' then register_pending run repos (installation_of payload) db
         else if action = ''deleted'' then disable_repos run repos db
         else db)"

definition handle_installation_repositories ::
  "hook_app \<Rightarrow> hook_run \<Rightarrow> json \<Rightarrow> string \<Rightarrow> webhook_db \<Rightarrow> webhook_db" where
  "handle_installation_repositories app run payload delivery db =
     disable_repos run (json_array (jat payload ''repositories_removed''))
       (register_pending run (json_array (jat payload ''repositories_added'')) (installation_of payload) db)"

section \<open>GitLab\<close>

definition handle_gitlab_merge_request ::
  "hook_app \<Rightarrow> hook_run \<Rightarrow> json \<Rightarrow> string \<Rightarrow> webhook_db \<Rightarrow> webhook_db" where
  "handle_gitlab_merge_request app run payload delivery db =
     (let attrs = jat payload ''object_attributes''; action = or_empty (as_str (jat attrs ''action'')) in
      if action \<notin> {''open'', ''update'', ''close''} then db
      else if action = ''update'' \<and> as_str (jat attrs ''oldrev'') = None then db
      else case (do { (n, owner, name, branch) \<leftarrow> gitlab_project_identity (jat payload ''project'');
                      iid \<leftarrow> as_i64 (jat attrs ''iid''); Some (n, owner, name, branch, iid) }) of
        None \<Rightarrow> db
      | Some (n, owner, name, branch, iid) \<Rightarrow>
          (case upsert_step run GitLab n owner name branch (Some n) db of
             None \<Rightarrow> db
           | Some (repo, db1) \<Rightarrow>
               if action \<in> {''open'', ''update''} then
                 (let is_sync = (action = ''update'');
                      author = or_empty (as_str (jat (jat (jat attrs ''last_commit'') ''author'') ''name''));
                      trigger = or_empty (as_str (jat (jat payload ''user'') ''username''));
                      skips = should_skip_gitlab_bot_review (ha_skip_bot_authored_prs app);
                      client = map_option pj_client (gitlab_project (ha_gitlab app) n);
                      ref = ref_of GitLab owner name n n
                  in
                  if \<not> approved_or_skip run repo db1 then db1
                  else if json_bool (jat attrs ''draft'') = Some True then db1
                  else if skips author \<or> skips trigger then db1
                  else
                    (let base = as_str (jat (jat attrs ''diff_refs'') ''base_sha'');
                         head = coalesce (as_str (jat (jat attrs ''diff_refs'') ''head_sha''))
                                  (as_str (jat (jat attrs ''last_commit'') ''id''));
                         shas = (if base \<noteq> None then (base, head)
                                 else case client of
                                   None \<Rightarrow> (base, head)
                                 | Some f \<Rightarrow>
                                     (case fg_pr_shas f ref iid of
                                        Inl _ \<Rightarrow> (base, head)
                                      | Inr (b, h) \<Rightarrow> (b, coalesce head h)))
                     in automatic_review app run client ref branch is_sync repo iid delivery (fst shas) (snd shas) db1))
               else if action = ''close'' then cancel_closed_pr run repo iid db1
               else db1))"

definition ZERO_SHA :: string where "ZERO_SHA = replicate 40 CHR ''0''"

definition handle_gitlab_push :: "hook_app \<Rightarrow> hook_run \<Rightarrow> json \<Rightarrow> string \<Rightarrow> webhook_db \<Rightarrow> webhook_db" where
  "handle_gitlab_push app run payload delivery db =
     (if as_str (jat payload ''after'') = Some ZERO_SHA then db
      else case (do { (n, owner, name, branch) \<leftarrow> gitlab_project_identity (jat payload ''project'');
                      git_ref \<leftarrow> as_str (jat payload ''ref''); Some (n, owner, name, branch, git_ref) }) of
        None \<Rightarrow> db
      | Some (n, owner, name, branch, git_ref) \<Rightarrow>
          if git_ref \<noteq> ''refs/heads/'' @ branch then db
          else case upsert_step run GitLab n owner name branch (Some n) db of
            None \<Rightarrow> db
          | Some (repo, db1) \<Rightarrow> index_on_push run repo n db1)"

definition handle_gitlab_note :: "hook_app \<Rightarrow> hook_run \<Rightarrow> json \<Rightarrow> string \<Rightarrow> webhook_db \<Rightarrow> webhook_db" where
  "handle_gitlab_note app run payload delivery db =
     (case gitlab_project_identity (jat payload ''project'') of
        None \<Rightarrow> db
      | Some (n, owner, name, branch) \<Rightarrow>
          (let attrs = jat payload ''object_attributes''; body = or_empty (as_str (jat attrs ''note''));
               project = gitlab_project (ha_gitlab app) n; client = map_option pj_client project
           in case project of
             None \<Rightarrow> db
           | Some p \<Rightarrow>
               if \<not> mentions_handle body (pj_bot_handle p) then db
               else
                 (let is_pr = (or_empty (as_str (jat attrs ''noteable_type'')) = ''MergeRequest'') in
                  case as_i64 (jat (jat payload (if is_pr then ''merge_request'' else ''issue'')) ''iid'') of
                    None \<Rightarrow> db
                  | Some iid \<Rightarrow>
                      (case upsert_step run GitLab n owner name branch (Some n) db of
                         None \<Rightarrow> db
                       | Some (repo, db1) \<Rightarrow>
                           if \<not> approved_or_skip run repo db1 then db1
                           else
                             (let ref = ref_of GitLab owner name n n;
                                  shas = (if \<not> is_pr then Some (None, None)
                                          else case client of
                                            None \<Rightarrow> None
                                          | Some f \<Rightarrow>
                                              (case fg_pr_shas f ref iid of Inl _ \<Rightarrow> None | Inr s \<Rightarrow> Some s))
                              in case shas of
                                None \<Rightarrow> db1
                              | Some (base, head) \<Rightarrow>
                                  mention_run app run client ref branch repo delivery
                                    \<lparr>vt_type = (if is_pr then PULL_REQUEST else ''issue''), vt_id = iid,
                                     vt_command = command_from_comment body, vt_base_sha = base,
                                     vt_head_sha = head,
                                     vt_trigger_comment_id = as_i64 (jat attrs ''id'')\<rparr> db1)))))"

section \<open>Bitbucket\<close>

text \<open>The workspace and the slug of \<open>full_name\<close> put together give it back, so the reference's full name
  is the one the payload carries.\<close>

definition bitbucket_default_branch_or_fallback :: "hook_app \<Rightarrow> int \<Rightarrow> repo_ref \<Rightarrow> string" where
  "bitbucket_default_branch_or_fallback app installation ref =
     (case bitbucket_project (ha_bitbucket app) installation of
        None \<Rightarrow> ''main''
      | Some p \<Rightarrow> (case fg_default_branch (pj_client p) ref of Inl _ \<Rightarrow> ''main'' | Inr branch \<Rightarrow> branch))"

definition handle_bitbucket_pullrequest ::
  "hook_app \<Rightarrow> hook_run \<Rightarrow> string \<Rightarrow> json \<Rightarrow> string \<Rightarrow> webhook_db \<Rightarrow> webhook_db" where
  "handle_bitbucket_pullrequest app run event payload delivery db =
     (let pr = jat payload ''pullrequest'' in
      case (do { (full_name, workspace, slug) \<leftarrow> bitbucket_repo_identity payload;
                 number \<leftarrow> as_i64 (jat pr ''id''); Some (full_name, workspace, slug, number) }) of
        None \<Rightarrow> db
      | Some (full_name, workspace, slug, number) \<Rightarrow>
          (let n = ha_stable_id app full_name;
               ref = ref_of Bitbucket workspace slug n n;
               branch = bitbucket_default_branch_or_fallback app n ref
           in case upsert_step run Bitbucket n workspace slug branch (Some n) db of
             None \<Rightarrow> db
           | Some (repo, db1) \<Rightarrow>
               if event \<in> {''pullrequest:created'', ''pullrequest:updated''} then
                 (let is_sync = (event = ''pullrequest:updated'');
                      author = or_empty (coalesce (as_str (jat (jat pr ''author'') ''nickname''))
                                           (as_str (jat (jat pr ''author'') ''display_name'')))
                  in
                  if \<not> approved_or_skip run repo db1 then db1
                  else if should_skip_gitlab_bot_review (ha_skip_bot_authored_prs app) author then db1
                  else automatic_review app run (map_option pj_client (bitbucket_project (ha_bitbucket app) n)) ref
                         branch is_sync repo number delivery
                         (as_str (jat (jat (jat pr ''destination'') ''commit'') ''hash''))
                         (as_str (jat (jat (jat pr ''source'') ''commit'') ''hash'')) db1)
               else if event \<in> {''pullrequest:fulfilled'', ''pullrequest:rejected''}
               then cancel_closed_pr run repo number db1
               else db1))"

definition handle_bitbucket_push :: "hook_app \<Rightarrow> hook_run \<Rightarrow> json \<Rightarrow> string \<Rightarrow> webhook_db \<Rightarrow> webhook_db" where
  "handle_bitbucket_push app run payload delivery db =
     (case bitbucket_repo_identity payload of
        None \<Rightarrow> db
      | Some (full_name, workspace, slug) \<Rightarrow>
          (let n = ha_stable_id app full_name;
               branch = bitbucket_default_branch_or_fallback app n (ref_of Bitbucket workspace slug n n)
           in case json_array (jat (jat payload ''push'') ''changes'') of
             None \<Rightarrow> db
           | Some changes \<Rightarrow>
               if \<not> list_ex (\<lambda>c. jat c ''new'' \<noteq> JNull \<and> as_str (jat (jat c ''new'') ''name'') = Some branch) changes
               then db
               else case upsert_step run Bitbucket n workspace slug branch (Some n) db of
                 None \<Rightarrow> db
               | Some (repo, db1) \<Rightarrow> index_on_push run repo n db1))"

definition handle_bitbucket_comment :: "hook_app \<Rightarrow> hook_run \<Rightarrow> json \<Rightarrow> string \<Rightarrow> webhook_db \<Rightarrow> webhook_db" where
  "handle_bitbucket_comment app run payload delivery db =
     (case bitbucket_repo_identity payload of
        None \<Rightarrow> db
      | Some (full_name, workspace, slug) \<Rightarrow>
          (let n = ha_stable_id app full_name; ref = ref_of Bitbucket workspace slug n n;
               body = or_empty (as_str (jat (jat (jat payload ''comment'') ''content'') ''raw''))
           in case bitbucket_project (ha_bitbucket app) n of
             None \<Rightarrow> db
           | Some p \<Rightarrow>
               if \<not> mentions_handle body (pj_bot_handle p) then db
               else case as_i64 (jat (jat payload ''pullrequest'') ''id'') of
                 None \<Rightarrow> db
               | Some number \<Rightarrow>
                   (let branch = bitbucket_default_branch_or_fallback app n ref in
                    case upsert_step run Bitbucket n workspace slug branch (Some n) db of
                      None \<Rightarrow> db
                    | Some (repo, db1) \<Rightarrow>
                        if \<not> approved_or_skip run repo db1 then db1
                        else (case fg_pr_shas (pj_client p) ref number of
                                Inl _ \<Rightarrow> db1
                              | Inr (base, head) \<Rightarrow>
                                  mention_run app run (Some (pj_client p)) ref branch repo delivery
                                    \<lparr>vt_type = PULL_REQUEST, vt_id = number,
                                     vt_command = command_from_comment body, vt_base_sha = base,
                                     vt_head_sha = head,
                                     vt_trigger_comment_id = as_i64 (jat (jat payload ''comment'') ''id'')\<rparr> db1))))"

section \<open>Routing\<close>

datatype github_route = Gh_Pull_Request | Gh_Push | Gh_Issue_Comment | Gh_Installation | Gh_Installation_Repositories

definition github_route :: "string \<Rightarrow> github_route option" where
  "github_route event =
     (if event = ''pull_request'' then Some Gh_Pull_Request
      else if event = ''push'' then Some Gh_Push
      else if event = ''issue_comment'' then Some Gh_Issue_Comment
      else if event = ''installation'' then Some Gh_Installation
      else if event = ''installation_repositories'' then Some Gh_Installation_Repositories
      else None)"

definition route_github_event ::
  "hook_app \<Rightarrow> hook_run \<Rightarrow> string \<Rightarrow> json \<Rightarrow> string \<Rightarrow> webhook_db \<Rightarrow> webhook_db" where
  "route_github_event app run event payload delivery db =
     (case github_route event of
        Some Gh_Pull_Request \<Rightarrow> handle_pull_request app run payload delivery db
      | Some Gh_Push \<Rightarrow> handle_push app run payload delivery db
      | Some Gh_Issue_Comment \<Rightarrow> handle_issue_comment app run payload delivery db
      | Some Gh_Installation \<Rightarrow> handle_installation app run payload delivery db
      | Some Gh_Installation_Repositories \<Rightarrow> handle_installation_repositories app run payload delivery db
      | None \<Rightarrow> db)"

datatype gitlab_route = Gl_Merge_Request | Gl_Push | Gl_Note

definition gitlab_route :: "string \<Rightarrow> gitlab_route option" where
  "gitlab_route event =
     (if event = ''Merge Request Hook'' then Some Gl_Merge_Request
      else if event = ''Push Hook'' then Some Gl_Push
      else if event = ''Note Hook'' then Some Gl_Note
      else None)"

definition route_gitlab_event ::
  "hook_app \<Rightarrow> hook_run \<Rightarrow> string \<Rightarrow> json \<Rightarrow> string \<Rightarrow> webhook_db \<Rightarrow> webhook_db" where
  "route_gitlab_event app run event payload delivery db =
     (case gitlab_route event of
        Some Gl_Merge_Request \<Rightarrow> handle_gitlab_merge_request app run payload delivery db
      | Some Gl_Push \<Rightarrow> handle_gitlab_push app run payload delivery db
      | Some Gl_Note \<Rightarrow> handle_gitlab_note app run payload delivery db
      | None \<Rightarrow> db)"

datatype bitbucket_route = Bb_Pull_Request | Bb_Push | Bb_Comment

definition bitbucket_route :: "string \<Rightarrow> bitbucket_route option" where
  "bitbucket_route event =
     (if event \<in> {''pullrequest:created'', ''pullrequest:fulfilled'', ''pullrequest:rejected''}
      then Some Bb_Pull_Request
      else if event = ''repo:push'' then Some Bb_Push
      else if event = ''pullrequest:comment_created'' then Some Bb_Comment
      else None)"

definition route_bitbucket_event ::
  "hook_app \<Rightarrow> hook_run \<Rightarrow> string \<Rightarrow> json \<Rightarrow> string \<Rightarrow> webhook_db \<Rightarrow> webhook_db" where
  "route_bitbucket_event app run event payload delivery db =
     (case bitbucket_route event of
        Some Bb_Pull_Request \<Rightarrow> handle_bitbucket_pullrequest app run event payload delivery db
      | Some Bb_Push \<Rightarrow> handle_bitbucket_push app run payload delivery db
      | Some Bb_Comment \<Rightarrow> handle_bitbucket_comment app run payload delivery db
      | None \<Rightarrow> db)"

definition is_routed_event :: "platform \<Rightarrow> string \<Rightarrow> bool" where
  "is_routed_event p event \<longleftrightarrow>
     (case p of
        GitHub \<Rightarrow> github_route event \<noteq> None
      | GitLab \<Rightarrow> gitlab_route event \<noteq> None
      | Bitbucket \<Rightarrow> bitbucket_route event \<noteq> None)"

definition route_event ::
  "hook_app \<Rightarrow> hook_run \<Rightarrow> platform \<Rightarrow> string \<Rightarrow> json \<Rightarrow> string \<Rightarrow> webhook_db \<Rightarrow> webhook_db" where
  "route_event app run p event payload delivery db =
     (case p of
        GitHub \<Rightarrow> route_github_event app run event payload delivery db
      | GitLab \<Rightarrow> route_gitlab_event app run event payload delivery db
      | Bitbucket \<Rightarrow> route_bitbucket_event app run event payload delivery db)"

section \<open>Receiving a delivery\<close>

record hook_state =
  hs_db :: "webhook_db option"
  hs_seen :: "string list"

datatype delivery_result = Accepted_Delivery | Duplicate_Delivery | Failed_Delivery

definition persist_delivery ::
  "hook_run \<Rightarrow> platform \<Rightarrow> string \<Rightarrow> string \<Rightarrow> json \<Rightarrow> hook_state \<Rightarrow> delivery_result \<times> hook_state" where
  "persist_delivery run p i event payload s =
     (if \<not> is_routed_event p event then (Accepted_Delivery, s)
      else case hs_db s of
        Some db \<Rightarrow>
          if \<not> hr_up run H_Record then (Failed_Delivery, s)
          else (let (new, ds) = record_delivery (hr_now run) p i event payload (wd_deliveries db)
                in (if new then Accepted_Delivery else Duplicate_Delivery,
                    s\<lparr>hs_db := Some (db\<lparr>wd_deliveries := ds\<rparr>)\<rparr>))
      | None \<Rightarrow>
          if i \<in> set (hs_seen s) then (Duplicate_Delivery, s)
          else (Accepted_Delivery, s\<lparr>hs_seen := i # hs_seen s\<rparr>))"

type_synonym headers = "(string \<times> string) list"

definition header :: "headers \<Rightarrow> string \<Rightarrow> string" where
  "header hs name = or_empty (al_lookup hs name)"

datatype hook_reply =
  Hook_Accepted string | Hook_Bad_Request string | Hook_Unauthorized string | Hook_Not_Found string
| Hook_Error string | Hook_Unavailable string | Hook_Too_Large

definition sha256_prefix :: string where "sha256_prefix = ''sha256=''"

definition verify_signature :: "hook_app \<Rightarrow> string \<Rightarrow> string \<Rightarrow> string \<Rightarrow> bool" where
  "verify_signature app secret body signature \<longleftrightarrow>
     secret \<noteq> [] \<and> sha256_prefix @ ha_hmac_hex app secret body = signature"

definition verify_hub_signature :: "hook_app \<Rightarrow> string \<Rightarrow> string \<Rightarrow> headers \<Rightarrow> string \<Rightarrow> bool" where
  "verify_hub_signature app secret name hs body \<longleftrightarrow>
     secret \<noteq> []
     \<and> (case Option.bind (al_lookup hs name) (strip_prefix sha256_prefix) of
          None \<Rightarrow> False | Some hex \<Rightarrow> ha_hmac_hex app secret body = hex)"

definition verify_gitlab_token :: "string \<Rightarrow> headers \<Rightarrow> bool" where
  "verify_gitlab_token secret hs \<longleftrightarrow>
     secret \<noteq> [] \<and> (case al_lookup hs ''x-gitlab-token'' of None \<Rightarrow> False | Some token \<Rightarrow> secret = token)"

text \<open>What the three receivers share: persist, answer duplicates and failures, and route what is new.
  \<open>mismatch\<close> is the identity check of the project platforms, which stands between the two.\<close>

definition receive ::
  "hook_app \<Rightarrow> hook_run \<Rightarrow> platform \<Rightarrow> string \<Rightarrow> string \<Rightarrow> json \<Rightarrow> string option \<Rightarrow> hook_state
   \<Rightarrow> hook_reply \<times> hook_state" where
  "receive app run p i event payload mismatch s =
     (case persist_delivery run p i event payload s of
        (Duplicate_Delivery, s1) \<Rightarrow> (Hook_Accepted ''duplicate delivery'', s1)
      | (Failed_Delivery, s1) \<Rightarrow> (Hook_Error ''persistence error'', s1)
      | (Accepted_Delivery, s1) \<Rightarrow>
          (case hs_db s1 of
             None \<Rightarrow> (Hook_Accepted ''accepted'', s1)
           | Some db \<Rightarrow>
               (case mismatch of
                  Some reason \<Rightarrow> (Hook_Bad_Request reason, s1)
                | None \<Rightarrow> (Hook_Accepted ''accepted'',
                           s1\<lparr>hs_db := Some (route_event app run p event payload i db)\<rparr>))))"

definition github_webhook ::
  "serde \<Rightarrow> hook_app \<Rightarrow> hook_run \<Rightarrow> headers \<Rightarrow> string \<Rightarrow> hook_state \<Rightarrow> hook_reply \<times> hook_state" where
  "github_webhook sd app run hs body s =
     (case (if ha_github app \<noteq> None
            then Some (verify_hub_signature app (ha_github_app_secret app) ''x-hub-signature-256'' hs body)
            else if ha_github_webhook_secret app \<noteq> []
            then Some (verify_signature app (ha_github_webhook_secret app) body (header hs ''x-hub-signature-256''))
            else None) of
        None \<Rightarrow> (Hook_Unavailable ''github platform not configured'', s)
      | Some False \<Rightarrow> (Hook_Unauthorized ''invalid signature'', s)
      | Some True \<Rightarrow>
          (let i = header hs ''x-github-delivery'' in
           if i = [] then (Hook_Bad_Request ''missing delivery id'', s)
           else case from_text sd body of
             None \<Rightarrow> (Hook_Bad_Request ''invalid json payload'', s)
           | Some payload \<Rightarrow> receive app run GitHub i (header hs ''x-github-event'') payload None s))"

definition gitlab_mismatch :: "hook_app \<Rightarrow> int \<Rightarrow> json \<Rightarrow> string option" where
  "gitlab_mismatch app installation payload =
     (case (Option.bind (ha_gitlab app) (\<lambda>r. get_by_installation_id r installation),
            as_i64 (jat (jat payload ''project'') ''id'')) of
        (Some p, Some n) \<Rightarrow> if pj_project_id p \<noteq> n then Some ''project identity mismatch'' else None
      | _ \<Rightarrow> None)"

definition gitlab_webhook ::
  "serde \<Rightarrow> hook_app \<Rightarrow> hook_run \<Rightarrow> int \<Rightarrow> headers \<Rightarrow> string \<Rightarrow> hook_state \<Rightarrow> hook_reply \<times> hook_state" where
  "gitlab_webhook sd app run installation hs body s =
     (case Option.bind (ha_gitlab app) (\<lambda>r. get_by_installation_id r installation) of
        None \<Rightarrow> (Hook_Not_Found ''unknown installation'', s)
      | Some p \<Rightarrow>
          if \<not> verify_gitlab_token (pj_webhook_secret p) hs then (Hook_Unauthorized ''invalid signature'', s)
          else case from_text sd body of
            None \<Rightarrow> (Hook_Bad_Request ''invalid json payload'', s)
          | Some payload \<Rightarrow>
              (let i = header hs ''x-gitlab-event-uuid'' in
               if i = [] then (Hook_Bad_Request ''missing delivery id'', s)
               else receive app run GitLab i (header hs ''x-gitlab-event'') payload
                      (gitlab_mismatch app installation payload) s))"

definition bitbucket_mismatch :: "hook_app \<Rightarrow> int \<Rightarrow> json \<Rightarrow> string option" where
  "bitbucket_mismatch app installation payload =
     (case bitbucket_repo_identity payload of
        None \<Rightarrow> None
      | Some (full_name, _, _) \<Rightarrow>
          if ha_stable_id app full_name \<noteq> installation then Some ''repo identity mismatch'' else None)"

definition bitbucket_webhook ::
  "serde \<Rightarrow> hook_app \<Rightarrow> hook_run \<Rightarrow> int \<Rightarrow> headers \<Rightarrow> string \<Rightarrow> hook_state \<Rightarrow> hook_reply \<times> hook_state" where
  "bitbucket_webhook sd app run installation hs body s =
     (if \<not> (case bitbucket_project (ha_bitbucket app) installation of
               None \<Rightarrow> False
             | Some p \<Rightarrow> verify_hub_signature app (pj_webhook_secret p) ''x-hub-signature'' hs body)
      then (Hook_Unauthorized ''invalid signature'', s)
      else case from_text sd body of
        None \<Rightarrow> (Hook_Bad_Request ''invalid json payload'', s)
      | Some payload \<Rightarrow>
          (let i = header hs ''x-request-uuid'' in
           if i = [] then (Hook_Bad_Request ''missing delivery id'', s)
           else receive app run Bitbucket i (header hs ''x-event-key'') payload
                  (bitbucket_mismatch app installation payload) s))"

text \<open>One request to the receivers, and a sequence of them, each in its own surroundings.\<close>

datatype hook_call =
  To_Github headers string
| To_Gitlab int headers string
| To_Bitbucket int headers string

fun call_body :: "hook_call \<Rightarrow> string" where
  "call_body (To_Github hs body) = body"
| "call_body (To_Gitlab i hs body) = body"
| "call_body (To_Bitbucket i hs body) = body"

definition MAX_BODY_BYTES :: nat where "MAX_BODY_BYTES = 1024 * 1024"

text \<open>The router's body limit stands before every receiver.\<close>

definition serve_hook :: "serde \<Rightarrow> hook_app \<Rightarrow> hook_run \<Rightarrow> hook_call \<Rightarrow> hook_state \<Rightarrow> hook_reply \<times> hook_state" where
  "serve_hook sd app run call s =
     (if MAX_BODY_BYTES < length (call_body call) then (Hook_Too_Large, s)
      else case call of
        To_Github hs body \<Rightarrow> github_webhook sd app run hs body s
      | To_Gitlab i hs body \<Rightarrow> gitlab_webhook sd app run i hs body s
      | To_Bitbucket i hs body \<Rightarrow> bitbucket_webhook sd app run i hs body s)"

definition serve_hooks :: "serde \<Rightarrow> hook_app \<Rightarrow> (hook_run \<times> hook_call) list \<Rightarrow> hook_state \<Rightarrow> hook_state" where
  "serve_hooks sd app calls = fold (\<lambda>(run, call) s. snd (serve_hook sd app run call s)) calls"

end
