(* ===== verification/Webhook_Properties.thy ===== *)
theory Webhook_Properties
  imports Webhook Worker_Properties
begin

text \<open>
  What the webhook receivers guarantee. The locale \<open>hook_invariant\<close> is the contract between the
  statements and the handlers: a condition that every statement keeps, where the statements that add
  work may assume that the repository is approved and the command is not the reserved one, is kept by
  every handler. Its interpretations are the recorded deliveries, the approval gate and the index runs.
\<close>

section \<open>Commands of a mention\<close>

lemma ascii_lower_at:
  assumes "ascii_lower c = CHR ''@''" shows "c = CHR ''@''"
proof (rule ccontr)
  assume n: "c \<noteq> CHR ''@''"
  let ?n = "of_char c :: nat"
  from assms n have r: "65 \<le> ?n" "?n \<le> 90" and e: "char_of (?n + 32) = CHR ''@''"
    by (auto simp: ascii_lower_def Let_def split: if_splits)
  from e have "of_char (char_of (?n + 32)) = (64 :: nat)" by (simp only:) simp
  with r show False by simp
qed

lemma strip_leading_keeps_last:
  "\<forall>w \<in> set seqs. a \<notin> set w \<Longrightarrow> \<exists>p. strip_leading seqs (q @ [a]) = p @ [a]"
proof (induction "length q" arbitrary: q rule: less_induct)
  case less
  show ?case
  proof (cases "leading_ws seqs (q @ [a])")
    case None
    then show ?thesis by (simp add: strip_leading_stop)
  next
    case (Some w)
    then have w: "w \<in> set seqs" "prefix w (q @ [a])"
      unfolding leading_ws_def find_Some_iff by (metis nth_mem)+
    moreover have "w \<noteq> q @ [a]" using w(1) less.prems by auto
    ultimately have "prefix w q" by (simp add: prefix_snoc)
    then obtain r where q: "q = w @ r" by (auto simp: prefix_def)
    show ?thesis
    proof (cases "w = []")
      case True
      with Some show ?thesis by (subst strip_leading.simps) simp
    next
      case False
      with q have "length r < length q" by simp
      from less.hyps[OF this less.prems] Some False q show ?thesis by (subst strip_leading.simps) simp
    qed
  qed
qed

lemma trim_end_keeps_at: "\<exists>r. trim_end (CHR ''@'' # s) = CHR ''@'' # r"
proof -
  have "\<forall>w \<in> set (map rev whitespace_seqs). CHR ''@'' \<notin> set w" by (simp add: whitespace_seqs_def)
  from strip_leading_keeps_last[OF this, of "rev s"] obtain p
    where "strip_leading (map rev whitespace_seqs) (rev s @ ''@'') = p @ ''@''" by blast
  then have "trim_end (CHR ''@'' # s) = CHR ''@'' # rev p" by (simp add: trim_end_def)
  then show ?thesis ..
qed

lemma mention_leads:
  assumes "mentions_handle body handle" shows "\<exists>r. trim body = CHR ''@'' # r"
proof -
  from assms obtain c r where b: "trim_start body = c # r" and "ascii_lower c = CHR ''@''"
    by (cases "trim_start body") (auto simp: mentions_handle_def to_ascii_lowercase_def)
  then show ?thesis using trim_end_keeps_at[of r] ascii_lower_at[of c] by (simp add: trim_def)
qed

lemma count_take_chars: "count_chars (take_chars n s) \<le> n"
  by (induction n s rule: take_chars.induct) (auto simp: count_chars_def)

lemma at_is_start: "starts_char CHR ''@''"
  by (simp add: starts_char_def)

lemma mention_command:
  assumes "mentions_handle body handle" shows "\<exists>r. command_from_comment body = CHR ''@'' # r"
proof -
  obtain r where "trim body = CHR ''@'' # r" using mention_leads[OF assms] by blast
  then have "command_from_comment body = CHR ''@'' # take_chars (MAX_INSTRUCTION_CHARS - 1) r"
    by (simp add: command_from_comment_def at_is_start MAX_INSTRUCTION_CHARS_def)
  then show ?thesis ..
qed

lemma mention_is_not_index: "mentions_handle body handle \<Longrightarrow> command_from_comment body \<noteq> INDEX"
  using mention_command by (fastforce simp: INDEX_def)

text \<open>
  A comment that addresses the app never turns into the reserved index command, whatever it says and
  whatever the app is called: the command a mention carries begins with the at sign and is at most two
  thousand characters long.
\<close>

theorem mention_is_never_an_index_run:
  assumes "mentions_handle body handle"
  shows "command_from_comment body \<noteq> INDEX \<and> count_chars (command_from_comment body) \<le> MAX_INSTRUCTION_CHARS
    \<and> hd (command_from_comment body) = CHR ''@''"
  using mention_command[OF assms] mention_is_not_index[OF assms]
    count_take_chars[of MAX_INSTRUCTION_CHARS "trim body"]
  by (auto simp: command_from_comment_def)

lemma mention_is_never_an_index_run_witness:
  "mentions_handle ''  @Bot index'' ''bot'' \<and> command_from_comment ''  @Bot index'' \<noteq> INDEX"
proof -
  have "mentions_handle ''  @Bot index'' ''bot''" by code_simp
  with mention_is_never_an_index_run[OF this] show ?thesis by blast
qed


section \<open>A condition every statement keeps is kept by every handler\<close>

locale hook_invariant =
  fixes run :: hook_run and K :: "webhook_db \<Rightarrow> bool"
  assumes upsert: "K db \<Longrightarrow> K (snd (upsert_repository p n owner name branch installation db))"
    and register: "K db \<Longrightarrow> K (snd (register_pending_repository p n owner name branch installation db))"
    and disable: "K db \<Longrightarrow> K (disable_repo n db)"
    and cancel: "K db \<Longrightarrow> K (with_task_rows (snd (cancel_where now P (wd_tasks db))) db)"
    and checks: "K db \<Longrightarrow> K (db\<lparr>wd_control := resolve_cancelled_check_run up now i (wd_control db)\<rparr>)"
    and create: "K db \<Longrightarrow> repository_approved (wd_repos db) (nt_repository_id nt) \<Longrightarrow> nt_command nt \<noteq> INDEX
                 \<Longrightarrow> create_task now i nt (wd_tasks db) = Inr (x, ts) \<Longrightarrow> K (with_task_rows ts db)"
    and explicit: "K db \<Longrightarrow> repository_approved (wd_repos db) (nt_repository_id nt) \<Longrightarrow> nt_command nt \<noteq> INDEX
                 \<Longrightarrow> K (with_task_rows
                         (snd (create_explicit_task now ids (hr_race run) nt 0 (wd_tasks db))) db)"
    and indexed: "K db \<Longrightarrow> repository_approved (wd_repos db) repo
                 \<Longrightarrow> K (with_task_rows (snd (create_index_task now i repo scope (wd_tasks db))) db)"
begin

lemma upsert_step_keeps:
  "upsert_step run p n owner name branch installation db = Some (r, db1) \<Longrightarrow> K db \<Longrightarrow> K db1"
  using upsert[of db p n owner name branch installation] by (auto simp: upsert_step_def split: if_splits)

lemma checks_keep:
  "K db \<Longrightarrow> K (db\<lparr>wd_control := fold (\<lambda>i. resolve_cancelled_check_run (up i) now i) ids (wd_control db)\<rparr>)"
proof (induction ids arbitrary: db)
  case (Cons i ids)
  from Cons.IH[OF checks[OF Cons.prems, of "up i" now i]] show ?case by simp
qed simp

lemma supersede_keeps: "K db \<Longrightarrow> K (supersede_older_reviews run repo pr h db)"
  unfolding supersede_older_reviews_def cancel_superseded_pr_reviews_def
  using checks_keep[OF cancel] by (simp add: Let_def split_beta)

lemma create_review_keeps:
  assumes "K db" "repository_approved (wd_repos db) (nt_repository_id nt)" "nt_command nt \<noteq> INDEX"
  shows "K (create_review_task run nt is_sync settings db)"
proof -
  define nt' where "nt' = (if is_sync \<and> so_value (rs_push_strategy settings) = Debounce
    then nt\<lparr>nt_run_after_secs := Some (so_value (rs_push_debounce settings))\<rparr> else nt)"
  have nt': "repository_approved (wd_repos db) (nt_repository_id nt')" "nt_command nt' \<noteq> INDEX"
    using assms(2,3) by (simp_all add: nt'_def)
  show ?thesis
    unfolding create_review_task_def Let_def nt'_def[symmetric]
    using create[OF assms(1) nt', of "hr_now run" "hr_ids run 0"] assms(1)
    by (auto split: sum.splits option.splits intro: supersede_keeps)
qed

lemma cancel_closed_keeps: "K db \<Longrightarrow> K (cancel_closed_pr run repo pr db)"
  by (simp add: cancel_closed_pr_def cancel_active_tasks_for_pr_def cancel)

lemma index_on_push_keeps: "K db \<Longrightarrow> K (index_on_push run repo installation db)"
  by (simp add: index_on_push_def approved_or_skip_def indexed)

lemma automatic_review_keeps:
  "K db \<Longrightarrow> approved_or_skip run repo db
   \<Longrightarrow> K (automatic_review app run client ref branch is_sync repo pr delivery base head db)"
  by (auto simp: automatic_review_def approved_or_skip_def task_for_def automatic_target_def INDEX_def Let_def
        split: prod.split intro!: create_review_keeps)

lemma mention_run_keeps:
  "K db \<Longrightarrow> approved_or_skip run repo db \<Longrightarrow> vt_command v \<noteq> INDEX
   \<Longrightarrow> K (mention_run app run client ref branch repo delivery v db)"
  by (auto simp: mention_run_def approved_or_skip_def task_for_def create_explicit_review_task_def
        split: prod.split intro!: explicit)

lemma register_pending_keeps: "K db \<Longrightarrow> K (register_pending run repos installation db)"
  unfolding register_pending_def
  by (rule fold_invariant[where Q = "\<lambda>_. True"]) (auto split: option.splits intro: register)

lemma disable_repos_keeps: "K db \<Longrightarrow> K (disable_repos run repos db)"
  unfolding disable_repos_def
  by (rule fold_invariant[where Q = "\<lambda>_. True"]) (auto split: option.splits intro: disable)

lemma installation_keeps:
  "K db \<Longrightarrow> K (handle_installation app run payload delivery db)"
  "K db \<Longrightarrow> K (handle_installation_repositories app run payload delivery db)"
  by (simp_all add: handle_installation_def handle_installation_repositories_def Let_def
       register_pending_keeps disable_repos_keeps)

lemma upserted_keeps:
  "upsert_step run p n owner name branch installation db = Some x \<Longrightarrow> x = (r, db1) \<Longrightarrow> K db \<Longrightarrow> K db1"
  using upsert_step_keeps by blast

lemma branch_keeps:
  "(P \<Longrightarrow> K a) \<Longrightarrow> (\<not> P \<Longrightarrow> K b) \<Longrightarrow> K (if P then a else b)"
  "K a \<Longrightarrow> (\<And>x. c = Some x \<Longrightarrow> K (f x)) \<Longrightarrow> K (case c of None \<Rightarrow> a | Some x \<Rightarrow> f x)"
  "(\<And>x y. q = (x, y) \<Longrightarrow> K (g x y)) \<Longrightarrow> K (case q of (x, y) \<Rightarrow> g x y)"
  "(\<And>e. r = Inl e \<Longrightarrow> K (h e)) \<Longrightarrow> (\<And>y. r = Inr y \<Longrightarrow> K (k y)) \<Longrightarrow> K (case r of Inl e \<Rightarrow> h e | Inr y \<Rightarrow> k y)"
  by (auto split: option.split prod.split sum.split)

lemma mention_keeps:
  "K db \<Longrightarrow> \<not> \<not> approved_or_skip run repo db \<Longrightarrow> \<not> \<not> mentions_handle body handle \<Longrightarrow> vt_command v = command_from_comment body
   \<Longrightarrow> K (mention_run app run client ref branch repo delivery v db)"
  using mention_run_keeps mention_is_not_index by simp

lemmas handler_keeps = automatic_review_keeps cancel_closed_keeps index_on_push_keeps

lemma pull_request_keeps: "K db \<Longrightarrow> K (handle_pull_request app run payload delivery db)"
  unfolding handle_pull_request_def Let_def
  by (intro branch_keeps handler_keeps) (assumption | erule (2) upserted_keeps | erule notnotD | simp)+

lemma push_keeps: "K db \<Longrightarrow> K (handle_push app run payload delivery db)"
  unfolding handle_push_def Let_def
  by (intro branch_keeps handler_keeps mention_keeps) (assumption | erule (2) upserted_keeps | erule notnotD | simp)+

lemma issue_comment_keeps: "K db \<Longrightarrow> K (handle_issue_comment app run payload delivery db)"
  unfolding handle_issue_comment_def Let_def
  by (intro branch_keeps handler_keeps mention_keeps) (assumption | erule (2) upserted_keeps | erule notnotD | simp)+

lemma gitlab_merge_request_keeps: "K db \<Longrightarrow> K (handle_gitlab_merge_request app run payload delivery db)"
  unfolding handle_gitlab_merge_request_def Let_def
  by (intro branch_keeps handler_keeps mention_keeps) (assumption | erule (2) upserted_keeps | erule notnotD | simp)+

lemma gitlab_push_keeps: "K db \<Longrightarrow> K (handle_gitlab_push app run payload delivery db)"
  unfolding handle_gitlab_push_def Let_def
  by (intro branch_keeps handler_keeps mention_keeps) (assumption | erule (2) upserted_keeps | erule notnotD | simp)+

lemma gitlab_note_keeps: "K db \<Longrightarrow> K (handle_gitlab_note app run payload delivery db)"
  unfolding handle_gitlab_note_def Let_def
  by (intro branch_keeps handler_keeps mention_keeps) (assumption | erule (2) upserted_keeps | erule notnotD | simp)+

lemma bitbucket_pullrequest_keeps: "K db \<Longrightarrow> K (handle_bitbucket_pullrequest app run event payload delivery db)"
  unfolding handle_bitbucket_pullrequest_def Let_def
  by (intro branch_keeps handler_keeps mention_keeps) (assumption | erule (2) upserted_keeps | erule notnotD | simp)+

lemma bitbucket_push_keeps: "K db \<Longrightarrow> K (handle_bitbucket_push app run payload delivery db)"
  unfolding handle_bitbucket_push_def Let_def
  by (intro branch_keeps handler_keeps mention_keeps) (assumption | erule (2) upserted_keeps | erule notnotD | simp)+

lemma bitbucket_comment_keeps: "K db \<Longrightarrow> K (handle_bitbucket_comment app run payload delivery db)"
  unfolding handle_bitbucket_comment_def Let_def
  by (intro branch_keeps handler_keeps mention_keeps) (assumption | erule (2) upserted_keeps | erule notnotD | simp)+

lemma route_keeps: "K db \<Longrightarrow> K (route_event app run p event payload delivery db)"
  unfolding route_event_def route_github_event_def route_gitlab_event_def route_bitbucket_event_def
  by (auto split: platform.split option.split github_route.split gitlab_route.split bitbucket_route.split
        intro: installation_keeps pull_request_keeps push_keeps issue_comment_keeps gitlab_merge_request_keeps
          gitlab_push_keeps gitlab_note_keeps bitbucket_pullrequest_keeps bitbucket_push_keeps
          bitbucket_comment_keeps)

end


section \<open>Deliveries are only recorded by the receiver\<close>

lemma best_effort_tables [simp]:
  "cd_tasks (best_effort ok now enq db) = cd_tasks db" "cd_repos (best_effort ok now enq db) = cd_repos db"
  by (simp_all add: best_effort_def enqueue_db_def split_beta)

lemma resolve_tables [simp]:
  "cd_tasks (resolve_cancelled_check_run up now i db) = cd_tasks db"
  "cd_repos (resolve_cancelled_check_run up now i db) = cd_repos db"
  by (simp_all add: resolve_cancelled_check_run_def enqueue_resolution_def split: option.split)

lemma with_rows [simp]:
  "wd_deliveries (with_repos rs db) = wd_deliveries db" "wd_deliveries (with_task_rows ts db) = wd_deliveries db"
  "wd_repos (with_repos rs db) = rs" "wd_repos (with_task_rows ts db) = wd_repos db"
  "wd_tasks (with_repos rs db) = wd_tasks db" "wd_tasks (with_task_rows ts db) = ts"
  "wd_next_repo (with_repos rs db) = wd_next_repo db" "wd_next_repo (with_task_rows ts db) = wd_next_repo db"
  by (simp_all add: with_repos_def with_task_rows_def)

interpretation recorded: hook_invariant run "\<lambda>db. wd_deliveries db = ds" for run ds
  by unfold_locales
    (auto simp: upsert_repository_def register_pending_repository_def disable_repo_def Let_def
      split: option.split prod.split)

section \<open>The approval gate\<close>

definition repos_ok :: "webhook_db \<Rightarrow> bool" where
  "repos_ok db \<longleftrightarrow> list_all (\<lambda>i. i < wd_next_repo db) (map re_id (wd_repos db)) \<and> distinct (map re_id (wd_repos db))
     \<and> distinct (map (\<lambda>r. (re_platform r, re_platform_repo_id r)) (wd_repos db))"

text \<open>A row from before, or one of a repository that was approved before.\<close>

definition licensed :: "webhook_db \<Rightarrow> task_row \<Rightarrow> bool" where
  "licensed db0 t \<longleftrightarrow> id_taken (wd_tasks db0) (tk_id t) \<or> repository_approved (wd_repos db0) (repo_of t)"

definition gated :: "webhook_db \<Rightarrow> webhook_db \<Rightarrow> bool" where
  "gated db0 db \<longleftrightarrow> repos_ok db \<and> (\<forall>i. repository_approved (wd_repos db) i \<longrightarrow> repository_approved (wd_repos db0) i)
     \<and> (\<forall>t \<in> set (wd_tasks db). licensed db0 t)"

text \<open>Concurrent deliveries, which insert while a mention retries, are gated themselves.\<close>

definition licensed_race :: "webhook_db \<Rightarrow> hook_run \<Rightarrow> bool" where
  "licensed_race db0 run \<longleftrightarrow>
     (\<forall>n ts. (\<forall>t \<in> set ts. licensed db0 t) \<longrightarrow> (\<forall>t \<in> set (hr_race run n ts). licensed db0 t))"

lemma explicit_rows:
  assumes "\<And>n ts. \<forall>t \<in> set ts. Q t \<Longrightarrow> \<forall>t \<in> set (race n ts). Q t"
    and "\<And>i epoch after status. Q (fresh_row now i nt epoch after status)"
  shows "\<forall>t \<in> set ts. Q t \<Longrightarrow> \<forall>t \<in> set (snd (create_explicit_task now ids race nt n ts)). Q t"
proof (induction "EXPLICIT_MAX_ATTEMPTS - n" arbitrary: n ts rule: less_induct)
  case less
  let ?a = "n + 1" and ?e = "next_epoch ts nt"
  let ?ts = "race ?a ts"
  have r: "\<forall>t \<in> set ?ts. Q t" using assms(1) less.prems by blast
  show ?case
  proof (cases "insert_explicit now (ids ?a) nt ?e ?ts")
    case (Inl e)
    have "?a < EXPLICIT_MAX_ATTEMPTS \<Longrightarrow> EXPLICIT_MAX_ATTEMPTS - ?a < EXPLICIT_MAX_ATTEMPTS - n" by simp
    from less.hyps[OF this r] r Inl show ?thesis
      by (subst create_explicit_task.simps) (simp add: Let_def)
  next
    case (Inr us)
    then have "\<forall>t \<in> set us. Q t"
      using r assms(2) by (auto simp: insert_explicit_def split: if_splits)
    with Inr show ?thesis by (subst create_explicit_task.simps) (simp add: Let_def)
  qed
qed

lemma repo_row_update:
  "(\<And>r. re_id (f r) = re_id r) \<Longrightarrow>
     repo_row (update_where P f rs) i = map_option (\<lambda>r. if P r then f r else r) (repo_row rs i)"
  by (induction rs) (auto simp: repo_row_def row_of_def update_where_def)

lemma approved_update:
  assumes "\<And>r. re_id (f r) = re_id r" "\<And>r. P r \<Longrightarrow> re_status (f r) = Approved \<Longrightarrow> re_status r = Approved"
  shows "repository_approved (update_where P f rs) i \<Longrightarrow> repository_approved rs i"
  using assms
  by (auto simp: repository_approved_def repository_status_def repo_row_update split: if_splits)

lemma approved_append:
  "re_status r \<noteq> Approved \<Longrightarrow> repository_approved (rs @ [r]) i \<Longrightarrow> repository_approved rs i"
  by (auto simp: repository_approved_def repository_status_def repo_row_def row_of_append split: option.splits if_splits)

lemma update_keys:
  assumes "\<And>r. re_id (f r) = re_id r"
    "\<And>r. (re_platform (f r), re_platform_repo_id (f r)) = (re_platform r, re_platform_repo_id r)"
  shows "map re_id (update_where P f rs) = map re_id rs"
    "map (\<lambda>r. (re_platform r, re_platform_repo_id r)) (update_where P f rs)
       = map (\<lambda>r. (re_platform r, re_platform_repo_id r)) rs"
  using assms by (auto simp: update_where_def)

lemma repos_ok_update:
  assumes "repos_ok db" "wd_next_repo db \<le> wd_next_repo db'" "wd_repos db' = update_where P f (wd_repos db)"
    "\<And>r. re_id (f r) = re_id r"
    "\<And>r. (re_platform (f r), re_platform_repo_id (f r)) = (re_platform r, re_platform_repo_id r)"
  shows "repos_ok db'"
proof -
  have "list_all (\<lambda>i. i < wd_next_repo db') (map re_id (wd_repos db))"
    using assms(1,2) unfolding repos_ok_def by (auto simp: list_all_iff)
  then show ?thesis
    using assms(1) unfolding repos_ok_def assms(3) update_keys[OF assms(4,5)] by blast
qed

lemma repos_ok_insert:
  assumes "repos_ok db" "find (hosted_as p n) (wd_repos db) = None"
    "wd_repos db' = wd_repos db @ [fresh_repository (wd_next_repo db) p n owner name branch installation]"
    "wd_next_repo db' = wd_next_repo db + 1"
  shows "repos_ok db'"
  using assms by (auto simp: repos_ok_def fresh_repository_def list_all_iff find_None_iff hosted_as_def)

lemma gated_same:
  "gated db0 db \<Longrightarrow> wd_repos db' = wd_repos db \<Longrightarrow> wd_next_repo db' = wd_next_repo db \<Longrightarrow> wd_tasks db' = wd_tasks db
   \<Longrightarrow> gated db0 db'"
  by (simp add: gated_def repos_ok_def)

lemma gated_repos:
  "gated db0 db \<Longrightarrow> repos_ok db' \<Longrightarrow> wd_tasks db' = wd_tasks db
   \<Longrightarrow> (\<And>i. repository_approved (wd_repos db') i \<Longrightarrow> repository_approved (wd_repos db) i) \<Longrightarrow> gated db0 db'"
  by (auto simp: gated_def)

lemma gated_tasks:
  "gated db0 db \<Longrightarrow> \<forall>t \<in> set ts. licensed db0 t \<Longrightarrow> gated db0 (with_task_rows ts db)"
  by (auto simp: gated_def repos_ok_def)

lemma gated_upsert: "gated db0 db \<Longrightarrow> gated db0 (snd (upsert_repository p n owner name branch installation db))"
proof (cases "find (hosted_as p n) (wd_repos db)")
  case (Some r)
  assume g: "gated db0 db"
  then have "repos_ok db" by (simp add: gated_def)
  with Some g show ?thesis
    by (intro gated_repos[OF g])
       (auto simp: upsert_repository_def Let_def intro: repos_ok_update dest: approved_update[rotated 2])
next
  case None
  assume g: "gated db0 db"
  then have "repos_ok db" by (simp add: gated_def)
  with None show ?thesis
    by (intro gated_repos[OF g])
       (auto simp: upsert_repository_def Let_def fresh_repository_def intro: repos_ok_insert dest: approved_append[rotated])
qed

lemma gated_register:
  "gated db0 db \<Longrightarrow> gated db0 (snd (register_pending_repository p n owner name branch installation db))"
proof (cases "find (hosted_as p n) (wd_repos db)")
  case (Some r)
  assume g: "gated db0 db"
  then have "repos_ok db" by (simp add: gated_def)
  with Some g show ?thesis
    by (intro gated_repos[OF g])
       (auto simp: register_pending_repository_def Let_def intro: repos_ok_update dest: approved_update[rotated 2])
next
  case None
  assume g: "gated db0 db"
  then have "repos_ok db" by (simp add: gated_def)
  with None show ?thesis
    by (intro gated_repos[OF g])
       (auto simp: register_pending_repository_def Let_def fresh_repository_def intro: repos_ok_insert
         dest: approved_append[rotated])
qed

lemma gated_disable: "gated db0 db \<Longrightarrow> gated db0 (disable_repo n db)"
proof -
  let ?db = "with_repos (update_where (hosted_as GitHub n)
      (\<lambda>r. set_status_columns Disabled (re_approved_at r) (re_approved_by r) r) (wd_repos db)) db"
  assume g: "gated db0 db"
  then have ok: "repos_ok db" by (simp add: gated_def)
  have "gated db0 ?db"
    by (rule gated_repos[OF g])
       (auto simp: set_status_columns_def intro: repos_ok_update[OF ok] dest: approved_update[rotated 2])
  then show ?thesis
    by (auto simp: disable_repo_def set_repository_status_by_platform_id_def Let_def split: option.split
          intro: gated_same)
qed

lemma licensed_cancel: "\<forall>t \<in> set ts. licensed db0 t \<Longrightarrow> \<forall>t \<in> set (snd (cancel_where now P ts)). licensed db0 t"
  by (auto simp: cancel_where_def set_update_where licensed_def cancelled_row_def)

lemma licensed_fresh:
  "gated db0 db \<Longrightarrow> repository_approved (wd_repos db) (nt_repository_id nt)
   \<Longrightarrow> licensed db0 (fresh_row now i nt epoch after status)"
  by (simp add: gated_def licensed_def fresh_row_def)

lemma created_rows:
  "create_task now i nt ts = Inr (x, us) \<Longrightarrow> us = ts \<or> (\<exists>epoch after status. us = ts @ [fresh_row now i nt epoch after status])"
  by (auto simp: create_task_def split: if_splits)

lemma indexed_rows:
  "snd (create_index_task now i repo scope ts) = ts
   \<or> (\<exists>epoch after status. snd (create_index_task now i repo scope ts)
         = ts @ [fresh_row now i (index_request repo scope) epoch after status])"
  by (auto simp: create_index_task_def Let_def)

lemma gated_rows: "gated db0 db \<Longrightarrow> \<forall>t \<in> set (wd_tasks db). licensed db0 t"
  by (simp add: gated_def)

lemma gated_append:
  "gated db0 db \<Longrightarrow> repository_approved (wd_repos db) (nt_repository_id nt)
   \<Longrightarrow> gated db0 (with_task_rows (wd_tasks db @ [fresh_row now i nt epoch after status]) db)"
  by (rule gated_tasks) (auto intro: licensed_fresh dest: gated_rows)

lemma gated_unchanged: "gated db0 db \<Longrightarrow> gated db0 (with_task_rows (wd_tasks db) db)"
  by (rule gated_tasks) (auto dest: gated_rows)

interpretation gate: hook_invariant run "\<lambda>db. licensed_race db0 run \<longrightarrow> gated db0 db" for run db0
proof (unfold_locales, goal_cases)
  case (4 db now P)
  then show ?case by (intro impI gated_tasks licensed_cancel gated_rows) simp_all
next
  case (5 db up now i)
  then show ?case by (auto intro: gated_same)
next
  case (6 db nt now i x ts)
  then show ?case
    using created_rows[of now i nt "wd_tasks db" x ts] by (auto intro: gated_append gated_unchanged)
next
  case (7 db nt now ids)
  then show ?case
    by (intro impI gated_tasks explicit_rows)
       (auto simp: licensed_race_def intro: licensed_fresh dest: gated_rows)
next
  case (8 db repo now i scope)
  then show ?case
    using indexed_rows[of now i repo scope "wd_tasks db"]
      gated_append[of db0 db "index_request repo scope" now i] gated_unchanged[of db0 db]
    by (auto simp: index_request_def)
qed (auto intro: gated_upsert gated_register gated_disable)

section \<open>Whole requests\<close>

lemma served:
  assumes "\<And>r. Q (r, s)" "\<And>p i event payload m. Q (receive app run p i event payload m s)"
  shows "Q (serve_hook sd app run call s)"
  by (cases call)
     (auto simp: serve_hook_def github_webhook_def gitlab_webhook_def bitbucket_webhook_def Let_def assms
       split: option.split bool.split)

lemma receive_db:
  assumes "hs_db s = Some db"
  shows "\<exists>ds. hs_db (snd (receive app run p i event payload m s)) = Some (db\<lparr>wd_deliveries := ds\<rparr>)
         \<or> hs_db (snd (receive app run p i event payload m s))
             = Some (route_event app run p event payload i (db\<lparr>wd_deliveries := ds\<rparr>))"
proof -
  have same: "db = db\<lparr>wd_deliveries := wd_deliveries db\<rparr>" by simp
  show ?thesis
    using assms same
    by (auto simp: receive_def persist_delivery_def Let_def split: option.split prod.split if_splits; metis)
qed

lemma gated_serve:
  assumes "licensed_race db0 run" "hs_db s = Some db" "gated db0 db"
  shows "\<exists>db'. hs_db (snd (serve_hook sd app run call s)) = Some db' \<and> gated db0 db'"
proof -
  have g: "gated db0 (db\<lparr>wd_deliveries := ds\<rparr>)" for ds by (rule gated_same[OF assms(3)]) simp_all
  with assms(1) have r: "gated db0 (route_event app run p event payload i (db\<lparr>wd_deliveries := ds\<rparr>))"
    for p event payload i ds using gate.route_keeps[of db0 run] by blast
  show ?thesis
  proof (rule served)
    show "\<exists>db'. hs_db (snd (r, s)) = Some db' \<and> gated db0 db'" for r :: hook_reply using assms(2,3) by simp
    show "\<exists>db'. hs_db (snd (receive app run p i event payload m s)) = Some db' \<and> gated db0 db'"
      for p i event payload m
      using receive_db[OF assms(2), of app run p i event payload m] g r by auto
  qed
qed

lemma gated_serves:
  "list_all (licensed_race db0) (map fst calls) \<Longrightarrow> hs_db s = Some db \<Longrightarrow> gated db0 db
   \<Longrightarrow> \<exists>db'. hs_db (serve_hooks sd app calls s) = Some db' \<and> gated db0 db'"
proof (induction calls arbitrary: s db)
  case (Cons c calls)
  obtain run call where c: "c = (run, call)" by (cases c)
  obtain db1 where d: "hs_db (snd (serve_hook sd app run call s)) = Some db1" "gated db0 db1"
    using gated_serve[OF _ Cons.prems(2,3), of run sd app call] Cons.prems(1) c by auto
  show ?case using Cons.IH[OF _ d] Cons.prems(1) c by (simp add: serve_hooks_def)
qed (simp add: serve_hooks_def)

lemma gated_refl: "repos_ok db \<Longrightarrow> gated db db"
  by (auto simp: gated_def licensed_def id_taken_def list_ex_iff)

text \<open>
  C4. Nothing runs on a repository nobody approved: whatever deliveries arrive, in whatever order and
  from whatever platform, and whichever queries fail meanwhile, a task that was not in the queue before
  belongs to a repository that had been approved before. The only assumption on concurrent deliveries,
  which may insert while a mention retries, is that they obey the same rule.
\<close>

theorem nothing_runs_unapproved:
  assumes "hs_db s = Some db" "repos_ok db" "list_all (licensed_race db) (map fst calls)"
  shows "\<exists>db'. hs_db (serve_hooks sd app calls s) = Some db'
     \<and> filter (\<lambda>t. \<not> id_taken (wd_tasks db) (tk_id t) \<and> \<not> repository_approved (wd_repos db) (repo_of t))
           (wd_tasks db') = []"
proof -
  obtain db' where "hs_db (serve_hooks sd app calls s) = Some db'" "gated db db'"
    using gated_serves[OF assms(3,1) gated_refl[OF assms(2)]] by blast
  then show ?thesis by (auto simp: gated_def licensed_def filter_empty_conv)
qed

text \<open>What the three statements by which deliveries touch repositories do to the statuses.\<close>

lemma upsert_statuses:
  "map re_status (wd_repos (snd (upsert_repository p n owner name branch installation db)))
     = map re_status (wd_repos db) @ (if list_ex (hosted_as p n) (wd_repos db) then [] else [Awaiting])"
proof (cases "find (hosted_as p n) (wd_repos db)")
  case None
  then have "\<not> list_ex (hosted_as p n) (wd_repos db)" by (auto simp: find_None_iff list_ex_iff)
  with None show ?thesis by (simp add: upsert_repository_def Let_def fresh_repository_def)
next
  case (Some r)
  then have "list_ex (hosted_as p n) (wd_repos db)" by (auto simp: find_Some_iff list_ex_iff)
  with Some show ?thesis by (simp add: upsert_repository_def Let_def update_where_def if_distrib cong: if_cong)
qed

lemma register_statuses:
  "map re_status (wd_repos (snd (register_pending_repository p n owner name branch installation db)))
     = map (\<lambda>r. if hosted_as p n r \<and> re_status r = Disabled then Awaiting else re_status r) (wd_repos db)
       @ (if list_ex (hosted_as p n) (wd_repos db) then [] else [Awaiting])"
proof (cases "find (hosted_as p n) (wd_repos db)")
  case None
  then have "\<not> list_ex (hosted_as p n) (wd_repos db)" "\<And>r. r \<in> set (wd_repos db) \<Longrightarrow> \<not> hosted_as p n r"
    by (auto simp: find_None_iff list_ex_iff)
  with None show ?thesis by (simp add: register_pending_repository_def Let_def fresh_repository_def)
next
  case (Some r)
  then have "list_ex (hosted_as p n) (wd_repos db)" by (auto simp: find_Some_iff list_ex_iff)
  with Some show ?thesis by (simp add: register_pending_repository_def Let_def update_where_def if_distrib cong: if_cong)
qed

lemma disable_statuses:
  "map re_status (wd_repos (disable_repo n db))
     = map (\<lambda>r. if hosted_as GitHub n r then Disabled else re_status r) (wd_repos db)"
  by (simp add: disable_repo_def set_repository_status_by_platform_id_def update_where_def set_status_columns_def Let_def
      if_distrib split: option.split cong: if_cong)

text \<open>
  C7. Deliveries never grant approval: a repository that is approved after any sequence of deliveries was
  approved before it, and the table keeps one row per repository of a platform, under ids below the
  sequence. Row for row: seeing a repository leaves every status as it is and adds an unknown one as pending;
  registering one reopens it as pending only if it was disabled; disabling touches that repository alone.
  (Concurrent deliveries, which may insert tasks while a mention retries, obey the approval gate themselves.)
\<close>

theorem webhooks_never_approve:
  assumes "hs_db s = Some db" "repos_ok db" "list_all (licensed_race db) (map fst calls)"
  shows "\<exists>db'. hs_db (serve_hooks sd app calls s) = Some db' \<and> repos_ok db'
     \<and> filter (\<lambda>r. repository_approved (wd_repos db') (re_id r) \<and> \<not> repository_approved (wd_repos db) (re_id r))
           (wd_repos db') = []
     \<and> map re_status (wd_repos (snd (upsert_repository p n owner name branch installation db')))
        = map re_status (wd_repos db') @ (if list_ex (hosted_as p n) (wd_repos db') then [] else [Awaiting])
     \<and> map re_status (wd_repos (snd (register_pending_repository p n owner name branch installation db')))
        = map (\<lambda>r. if hosted_as p n r \<and> re_status r = Disabled then Awaiting else re_status r) (wd_repos db')
          @ (if list_ex (hosted_as p n) (wd_repos db') then [] else [Awaiting])
     \<and> map re_status (wd_repos (disable_repo n db'))
        = map (\<lambda>r. if hosted_as GitHub n r then Disabled else re_status r) (wd_repos db')"
proof -
  obtain db' where "hs_db (serve_hooks sd app calls s) = Some db'" "gated db db'"
    using gated_serves[OF assms(3,1) gated_refl[OF assms(2)]] by blast
  then show ?thesis
    by (intro exI[of _ db'] conjI upsert_statuses register_statuses disable_statuses) (auto simp: gated_def filter_empty_conv)
qed

section \<open>Redeliveries\<close>

lemma route_deliveries [simp]: "wd_deliveries (route_event app run p event payload i db) = wd_deliveries db"
  using recorded.route_keeps[of db "wd_deliveries db"] by simp

lemma unrouted: "\<not> is_routed_event p event \<Longrightarrow> route_event app run p event payload i db = db"
  by (cases p) (auto simp: is_routed_event_def route_event_def route_github_event_def route_gitlab_event_def
    route_bitbucket_event_def)

lemma already_recorded:
  assumes "is_routed_event p event" "hs_db s = Some db" "list_ex (\<lambda>d. dr_delivery_id d = i) (wd_deliveries db)"
  shows "receive app run p i event payload m s
       = (if hr_up run H_Record then Hook_Accepted ''duplicate delivery'' else Hook_Error ''persistence error'', s)"
proof -
  have "s\<lparr>hs_db := Some db\<rparr> = s" using assms(2) by simp
  with assms show ?thesis by (simp add: receive_def persist_delivery_def record_delivery_def Let_def)
qed

lemma received_is_recorded:
  assumes "is_routed_event p event" "hr_up run H_Record" "hs_db s = Some db"
  shows "\<exists>db'. hs_db (snd (receive app run p i event payload m s)) = Some db'
     \<and> list_ex (\<lambda>d. dr_delivery_id d = i) (wd_deliveries db')"
  using assms
  by (auto simp: receive_def persist_delivery_def record_delivery_def Let_def split: option.split)

lemma seen_again:
  assumes "is_routed_event p event" "hs_db s = None"
  shows "snd (receive app run' p i event payload' m' (snd (receive app run p i event payload m s)))
       = snd (receive app run p i event payload m s)"
  using assms by (simp add: receive_def persist_delivery_def)

text \<open>
  C8. A delivery that has been taken in once is never handled again: delivering it a second time, with any
  payload and whichever queries answer then, leaves the whole state as the first delivery left it. This
  covers the events no handler acts on, of which no record is kept, and the deployment without a database.
\<close>

theorem redelivery_changes_nothing:
  assumes "hr_up run H_Record"
  shows "snd (receive app run' p i event payload' m' (snd (receive app run p i event payload m s)))
       = snd (receive app run p i event payload m s)"
proof (cases "is_routed_event p event")
  case False
  have again: "snd (receive app r p i event pay mm t) = t" for r pay mm t
    using False by (auto simp: receive_def persist_delivery_def unrouted split: option.split)
  show ?thesis by (simp add: again)
next
  case True
  show ?thesis
  proof (cases "hs_db s")
    case None
    with True show ?thesis by (rule seen_again)
  next
    case (Some db)
    from received_is_recorded[OF True assms Some, of app i payload m] already_recorded[OF True]
    show ?thesis by fastforce
  qed
qed

section \<open>Who may drive a repository\<close>

text \<open>
  The two checks of a GitHub signature are one check: without a configured App the fallback compares
  the whole header with the prefixed digest of the body, with one the App strips the prefix first; under
  the same secret both accept exactly the same requests, and an absent header, a missing prefix or an
  empty secret is refused by both.
\<close>

theorem signature_checks_agree:
  "verify_signature app secret body (header hs name) = verify_hub_signature app secret name hs body"
  by (cases "al_lookup hs name")
     (auto simp: verify_signature_def verify_hub_signature_def header_def or_empty_def strip_prefix_def
       sha256_prefix_def prefix_def)

lemma mismatch_only_records:
  assumes "hs_db s = Some db"
  shows "\<exists>ds. hs_db (snd (receive app run p i event payload (Some reason) s)) = Some (db\<lparr>wd_deliveries := ds\<rparr>)"
proof -
  have same: "db = db\<lparr>wd_deliveries := wd_deliveries db\<rparr>" by simp
  show ?thesis
    using assms same
    by (auto simp: receive_def persist_delivery_def Let_def split: option.split prod.split if_splits; metis)
qed

text \<open>
  The holder of one project's webhook secret cannot drive another project: a GitLab delivery whose
  payload names a project other than the one its path resolves to, signed or not, leaves every table but
  the record of deliveries as it was, and is never answered as accepted for handling.
\<close>

theorem foreign_project_is_refused:
  assumes "hs_db s = Some db" "Option.bind (ha_gitlab app) (\<lambda>r. get_by_installation_id r installation) = Some project"
    and "from_text sd body = Some payload" "as_i64 (jat (jat payload ''project'') ''id'') = Some n"
    and "n \<noteq> pj_project_id project"
  shows "(\<exists>ds. hs_db (snd (gitlab_webhook sd app run installation hs body s)) = Some (db\<lparr>wd_deliveries := ds\<rparr>))
     \<and> fst (gitlab_webhook sd app run installation hs body s) \<noteq> Hook_Accepted ''accepted''"
proof -
  have m: "gitlab_mismatch app installation payload = Some ''project identity mismatch''"
    using assms(2,4,5) by (simp add: gitlab_mismatch_def)
  have same: "\<exists>ds. hs_db s = Some (db\<lparr>wd_deliveries := ds\<rparr>)"
    using assms(1) by (auto intro: exI[of _ "wd_deliveries db"])
  have reply: "fst (receive app run GitLab i event payload (Some reason) s) \<noteq> Hook_Accepted ''accepted''"
    for i event reason
    using assms(1) by (auto simp: receive_def persist_delivery_def Let_def split: option.split prod.split)
  show ?thesis
    using mismatch_only_records[OF assms(1)] same reply assms(2,3) m
    by (auto simp: gitlab_webhook_def Let_def split: option.split)
qed

section \<open>Reviews on push\<close>

text \<open>
  Reviews of pushed commits are dead on two of the three platforms, although their handlers carry the
  code for them and a repository may switch them on: GitHub's \<open>synchronize\<close> action is turned away by
  the first guard of the handler, and Bitbucket's \<open>pullrequest:updated\<close> is not among the routed
  events. Such a delivery changes nothing, whatever the settings say.
\<close>

theorem review_on_push_is_dead:
  "route_event app run Bitbucket ''pullrequest:updated'' payload delivery db = db
   \<and> route_event app run GitHub ''pull_request'' (JObj ((''action'', JStr ''synchronize'') # members)) delivery db = db"
  by (simp add: route_event_def route_github_event_def route_bitbucket_event_def github_route_def
      bitbucket_route_def handle_pull_request_def jat_def or_empty_def Let_def)

section \<open>Superseding\<close>

lemma update_where_append [simp]: "update_where P f (xs @ ys) = update_where P f xs @ update_where P f ys"
  by (simp add: update_where_def)

definition automatic_of :: "int \<Rightarrow> int \<Rightarrow> task_row \<Rightarrow> bool" where
  "automatic_of repo pr t \<longleftrightarrow> repo_of t = repo \<and> nt_target_type (tk_task t) = PULL_REQUEST
     \<and> nt_target_id (tk_task t) = pr \<and> nt_entry_point (tk_task t) \<in> {''pr_open'', ''pr_sync''}"

definition unfinished :: "task_row \<Rightarrow> bool" where
  "unfinished t \<longleftrightarrow> tk_status t \<in> {Queued, WaitingForIndex, Running, PostingResult}"

lemma supersede_tasks:
  "wd_tasks (supersede_older_reviews run repo pr h db)
   = (if hr_up run H_Supersede then snd (cancel_superseded_pr_reviews (hr_now run) repo pr h (wd_tasks db)) else wd_tasks db)"
proof -
  have "cd_tasks (fold (\<lambda>i. resolve_cancelled_check_run (hr_worker_up run i) (hr_now run) i) ids c) = cd_tasks c"
    for ids c by (induction ids arbitrary: c) auto
  then show ?thesis by (simp add: supersede_older_reviews_def split_beta Let_def)
qed

text \<open>
  Under the supersede strategy a review of a new head leaves no older automatic review of the same pull
  request in progress: afterwards every automatic review of it that is queued, waiting for an index,
  running or posting is of the new head, and there is one. Tasks a person asked for, of other pull
  requests, and of the new head keep the rows they had.
\<close>

theorem superseded_reviews_stop:
  assumes "so_value (rs_push_strategy settings) = Supersede" "nt_head_sha nt = Some head"
    and "nt_target_type nt = PULL_REQUEST" "nt_entry_point nt = ''pr_sync''"
    and "hr_up run H_Create" "hr_up run H_Supersede"
    and "\<not> key_taken (wd_tasks db) nt (nt_run_epoch nt)" "\<not> id_taken (wd_tasks db) (hr_ids run 0)"
  defines "db' \<equiv> create_review_task run nt True settings db"
    and "mine \<equiv> automatic_of (nt_repository_id nt) (nt_target_id nt)"
  shows "list_all (\<lambda>t. nt_head_sha (tk_task t) = Some head)
           (filter (\<lambda>t. mine t \<and> unfinished t) (wd_tasks db'))
     \<and> (\<exists>t. get_row (wd_tasks db') (hr_ids run 0) = Some t \<and> mine t \<and> tk_status t \<in> {Queued, WaitingForIndex})
     \<and> filter (\<lambda>t. \<not> mine t) (wd_tasks db') = filter (\<lambda>t. \<not> mine t) (wd_tasks db)"
proof -
  define row where "row = fresh_row (hr_now run) (hr_ids run 0) nt (nt_run_epoch nt)
    (hr_now run + (case nt_run_after_secs nt of None \<Rightarrow> 0 | Some s \<Rightarrow> s)) (initial_status (wd_tasks db) nt)"
  define P where "P t \<longleftrightarrow> automatic_of (nt_repository_id nt) (nt_target_id nt) t \<and> unfinished t
    \<and> nt_head_sha (tk_task t) \<noteq> Some head" for t
  have made: "create_task (hr_now run) (hr_ids run 0) nt (wd_tasks db) = Inr (Some (hr_ids run 0), wd_tasks db @ [row])"
    using assms(7,8) by (simp add: create_task_def row_def)
  have P: "(\<lambda>t. repo_of t = nt_repository_id nt \<and> nt_target_type (tk_task t) = PULL_REQUEST
       \<and> nt_target_id (tk_task t) = nt_target_id nt \<and> nt_entry_point (tk_task t) \<in> {''pr_open'', ''pr_sync''}
       \<and> tk_status t \<in> {Queued, WaitingForIndex, Running, PostingResult}
       \<and> nt_head_sha (tk_task t) \<noteq> Some head) = P"
    by (auto simp: P_def automatic_of_def unfinished_def fun_eq_iff)
  have "cancel_superseded_pr_reviews n (nt_repository_id nt) (nt_target_id nt) head ts = cancel_where n P ts" for n ts
    unfolding cancel_superseded_pr_reviews_def P ..
  then have db': "wd_tasks db' = update_where P (cancelled_row (hr_now run)) (wd_tasks db @ [row])"
    using assms(1,2,5,6) made
    by (simp add: db'_def create_review_task_def supersede_tasks cancel_where_def)
  have row: "mine row" "\<not> P row" "tk_status row \<in> {Queued, WaitingForIndex}"
    using assms(2,3,4)
    by (auto simp: mine_def automatic_of_def row_def fresh_row_def P_def initial_status_def)
  have cancelled: "automatic_of r p (cancelled_row n t) = automatic_of r p t" "\<not> unfinished (cancelled_row n t)" for r p n t
    by (simp_all add: automatic_of_def cancelled_row_def unfinished_def)
  have heads: "list_all (\<lambda>t. nt_head_sha (tk_task t) = Some head) (filter (\<lambda>t. mine t \<and> unfinished t) (wd_tasks db'))"
    unfolding db' mine_def list_all_iff
    by (auto simp: set_update_where cancelled P_def row_def fresh_row_def assms(2) split: if_splits)
  have others: "filter (\<lambda>t. \<not> mine t) (wd_tasks db') = filter (\<lambda>t. \<not> mine t) (wd_tasks db)"
  proof -
    have "filter (\<lambda>t. \<not> mine t) (update_where P (cancelled_row (hr_now run)) ts) = filter (\<lambda>t. \<not> mine t) ts" for ts
      by (induction ts) (auto simp: update_where_def P_def mine_def cancelled)
    with row(1) show ?thesis by (simp add: db')
  qed
  have "get_row (wd_tasks db @ [row]) (hr_ids run 0) = Some row"
    using get_row_append[of "wd_tasks db" row] assms(8) by (simp add: row_def fresh_row_def)
  then have "get_row (wd_tasks db') (hr_ids run 0) = Some row"
    using row(2) unfolding db' by (simp add: get_row_update del: update_where_append)
  with heads others row(1,3) show ?thesis by blast
qed

section \<open>Closing a pull request\<close>

lemma cancelled_request: "tk_task (cancelled_row n t) = tk_task t"
  by (simp add: cancelled_row_def)

text \<open>
  Closing a pull request does not stop a review that waits for the index: the cancellation passes
  over waiting rows, and when the index run of the repository settles, in whatever way, the review of the
  closed pull request is queued.
\<close>

theorem waiting_review_survives_close:
  assumes "get_row (wd_tasks db) i = Some t" "tk_status t = WaitingForIndex"
    and "get_row (wd_tasks db) x = Some ix" "command_of ix = INDEX" "repo_of ix = repo_of t" "x \<noteq> i"
    and "is_terminal status"
  shows "get_task_status (fst (snd (set_task_status now x status detail
           (wd_tasks (cancel_closed_pr run (repo_of t) (nt_target_id (tk_task t)) db), snaps)))) i = Some Queued"
proof -
  let ?P = "\<lambda>u. repo_of u = repo_of t \<and> nt_target_type (tk_task u) = PULL_REQUEST
    \<and> nt_target_id (tk_task u) = nt_target_id (tk_task t) \<and> tk_status u \<in> {Queued, Running, PostingResult}"
  define ts where "ts = wd_tasks (cancel_closed_pr run (repo_of t) (nt_target_id (tk_task t)) db)"
  have ts: "ts = (if hr_up run H_Cancel then update_where ?P (cancelled_row (hr_now run)) (wd_tasks db) else wd_tasks db)"
    by (simp add: ts_def cancel_closed_pr_def cancel_active_tasks_for_pr_def cancel_where_def)
  have c: "get_row ts i = Some t" using assms(1,2) by (simp add: ts get_row_update)
  have "get_row ts x = Some ix \<or> get_row ts x = Some (cancelled_row (hr_now run) ix)"
    using assms(3) by (auto simp: ts get_row_update)
  then obtain ix' where ix': "get_row ts x = Some ix'" "command_of ix' = INDEX" "repo_of ix' = repo_of t"
    using assms(4,5) by (metis cancelled_request)
  define us where "us = update_where (\<lambda>u. tk_id u = x) (settled_row now status detail) ts"
  have i: "get_row us i = Some t" using c assms(6) get_row_Some[OF c] by (simp add: us_def get_row_update)
  have x: "get_row us x = Some (settled_row now status detail ix')"
    using ix'(1) get_row_Some[OF ix'(1)] by (simp add: us_def get_row_update)
  have "settled_row now status detail ix' \<in> set us \<and> tk_id (settled_row now status detail ix') = x"
    using get_row_Some[OF x] by blast
  then have "repo_of t \<in> repo_of ` {u \<in> set us. tk_id u = x \<and> command_of u = INDEX}"
    using ix'(2,3)
    by (intro image_eqI[where x = "settled_row now status detail ix'"]) (simp_all add: settled_row_def)
  then have "get_row (release_reviews_waiting_on_index now x us) i
      = Some (t\<lparr>tk_status := Queued, tk_run_after := max (tk_run_after t) now\<rparr>)"
    using i assms(2)
    by (simp add: release_reviews_waiting_on_index_def Let_def get_row_update keeps_identity_def)
  then show ?thesis
    using assms(7) unfolding ts_def[symmetric]
    by (simp add: set_task_status_def Let_def us_def[symmetric] get_task_status_def)
qed

section \<open>Index runs\<close>

definition index_run_of :: "int \<Rightarrow> task_row \<Rightarrow> bool" where
  "index_run_of repo t \<longleftrightarrow> repo_of t = repo \<and> command_of t = INDEX \<and> tk_status t \<in> {Queued, Running, PostingResult}"

text \<open>
  A push to an approved repository's default branch always leaves an index run of it in progress, and
  never piles one up on another: a repository without one gets exactly one, under a natural key no earlier
  run has taken, so a repository indexed before is indexed again; a repository with some keeps what it has.
\<close>

theorem push_keeps_one_index:
  assumes "approved_or_skip run repo db" "hr_up run H_Index" "\<not> id_taken (wd_tasks db) (hr_ids run 0)"
  defines "running \<equiv> \<lambda>d. length (filter (index_run_of repo) (wd_tasks d))"
  shows "running (index_on_push run repo installation db) = max 1 (running db)
     \<and> take (length (wd_tasks db)) (wd_tasks (index_on_push run repo installation db)) = wd_tasks db"
proof -
  have active: "index_active (wd_tasks db) repo \<longleftrightarrow> running db \<noteq> 0"
    by (auto simp: index_active_def index_run_of_def running_def list_ex_iff filter_empty_conv)
  have new: "index_run_of repo (fresh_row n i (index_request repo installation) e a Queued)" for n i e a
    by (simp add: index_run_of_def fresh_row_def index_request_def)
  show ?thesis
    using assms(1-3) active
    by (cases "filter (index_run_of repo) (wd_tasks db)")
       (simp_all add: index_on_push_def create_index_task_def next_epoch_free Let_def running_def new)
qed

section \<open>Mentions\<close>

lemma explicit_first_try:
  assumes "race 1 ts = ts" "\<not> id_taken ts (ids 1)"
  shows "create_explicit_task now ids race nt 0 ts
    = (Inr (ids 1), ts @ [fresh_row now (ids 1) nt (next_epoch ts nt) now (initial_status ts nt)])"
  using assms by (subst create_explicit_task.simps) (simp add: insert_explicit_def next_epoch_free Let_def)

lemma approved_upserted:
  assumes "find (hosted_as p n) (wd_repos db) = Some r" "re_status r = Approved" "repos_ok db"
  shows "fst (upsert_repository p n owner name branch installation db) = re_id r"
    and "repository_approved (wd_repos (snd (upsert_repository p n owner name branch installation db))) (re_id r)"
    and "wd_tasks (snd (upsert_repository p n owner name branch installation db)) = wd_tasks db"
proof -
  have "row_of re_id (wd_repos db) (re_id r) = Some r"
    using assms(1,3) by (intro row_of_in) (auto simp: repos_ok_def find_Some_iff)
  then show "repository_approved (wd_repos (snd (upsert_repository p n owner name branch installation db))) (re_id r)"
    using assms(1,2)
    by (simp add: upsert_repository_def Let_def repository_approved_def repository_status_def repo_row_update
          repo_row_def[symmetric])
qed (use assms(1) in \<open>simp_all add: upsert_repository_def Let_def\<close>)

text \<open>
  C9. Asking always gets a run: a new comment that addresses the app on an approved repository lands a task
  that carries the comment's id, its author's words and, on a pull request, the commits the platform named,
  even if the same words were asked before on the same commit, or if an identical task exists in any state.
  It is enough that the queries on the way are answered and, for a pull request, that a configured platform
  names its commits; for a plain issue no such answer is needed, and the task has no commits. (No other
  request inserts the same task between the read of its epoch and the insert.)
\<close>

theorem mention_always_lands:
  assumes "as_str (jat payload ''action'') = Some ''created''"
    and "as_str (jat (jat payload ''comment'') ''body'') = Some body" "mentions_handle body (ha_app_handle app)"
    and "github_repo payload = Some (n, owner, name, branch)" "installation_of payload = Some installation"
    and "as_i64 (jat (jat payload ''issue'') ''number'') = Some number"
    and "find (hosted_as GitHub n) (wd_repos db) = Some r" "re_status r = Approved" "repos_ok db"
    and "hr_up run H_Upsert" "hr_up run H_Approved" "hr_up run H_Explicit"
    and "hr_race run 1 (wd_tasks db) = wd_tasks db" "\<not> id_taken (wd_tasks db) (hr_ids run 1)"
    and "jat (jat payload ''issue'') ''pull_request'' \<noteq> JNull \<Longrightarrow> ha_github app = Some client
           \<and> fg_pr_shas client (ref_of GitHub owner name n installation) number = Inr (base, head)"
  shows "\<exists>t. wd_tasks (route_event app run GitHub ''issue_comment'' payload delivery db) = wd_tasks db @ [t]
     \<and> repo_of t = re_id r \<and> nt_target_id (tk_task t) = number \<and> command_of t = command_from_comment body
     \<and> tk_status t \<in> {Queued, WaitingForIndex} \<and> nt_entry_point (tk_task t) = ''mention''
     \<and> nt_trigger_comment_id (tk_task t) = as_i64 (jat (jat payload ''comment'') ''id'')
     \<and> (if jat (jat payload ''issue'') ''pull_request'' \<noteq> JNull
        then nt_target_type (tk_task t) = PULL_REQUEST \<and> nt_base_sha (tk_task t) = base \<and> nt_head_sha (tk_task t) = head
        else nt_target_type (tk_task t) = ''issue'' \<and> nt_base_sha (tk_task t) = None \<and> nt_head_sha (tk_task t) = None)"
proof -
  note up = approved_upserted[OF assms(7-9), of owner name branch "Some installation"]
  obtain db1 where db1: "upsert_repository GitHub n owner name branch (Some installation) db = (re_id r, db1)"
    "repository_approved (wd_repos db1) (re_id r)" "wd_tasks db1 = wd_tasks db"
    using up by (metis prod.collapse)
  let ?pr = "jat (jat payload ''issue'') ''pull_request'' \<noteq> JNull"
  define v where "v = \<lparr>vt_type = (if ?pr then PULL_REQUEST else ''issue''), vt_id = number,
     vt_command = command_from_comment body, vt_base_sha = (if ?pr then base else None),
     vt_head_sha = (if ?pr then head else None),
     vt_trigger_comment_id = as_i64 (jat (jat payload ''comment'') ''id'')\<rparr>"
  define ref where "ref = ref_of GitHub owner name n installation"
  have handled: "route_event app run GitHub ''issue_comment'' payload delivery db
      = mention_run app run (ha_github app) ref branch (re_id r) delivery v db1"
    using assms(1-6,10,11,15) db1
    by (auto simp: route_event_def route_github_event_def github_route_def handle_issue_comment_def or_empty_def
          upsert_step_def approved_or_skip_def Let_def v_def ref_def)
  obtain preset settings where s: "settings_for app run (ha_github app) ref (vt_base_sha v) branch Mention (re_id r) db1
      = (preset, settings)" by (cases "settings_for app run (ha_github app) ref (vt_base_sha v) branch Mention (re_id r) db1")
  let ?nt = "task_for run delivery Mention preset settings (re_id r) (rr_installation_id ref) v db1"
  have "wd_tasks (mention_run app run (ha_github app) ref branch (re_id r) delivery v db1)
      = wd_tasks db @ [fresh_row (hr_now run) (hr_ids run 1) ?nt (next_epoch (wd_tasks db) ?nt) (hr_now run)
                         (initial_status (wd_tasks db) ?nt)]"
    using assms(12-14) db1(3) explicit_first_try[of "hr_race run" "wd_tasks db" "hr_ids run" "hr_now run" ?nt]
    by (simp add: mention_run_def s create_explicit_review_task_def)
  then show ?thesis
    unfolding handled by (auto simp: fresh_row_def task_for_def v_def initial_status_def PULL_REQUEST_def)
qed

section \<open>Lost deliveries\<close>

lemma unreachable_upsert:
  assumes "\<not> hr_up run H_Upsert" "event \<notin> {''installation'', ''installation_repositories''}"
  shows "route_event app run p event payload i db = db"
proof -
  have u: "upsert_step run pl n owner name branch installation d = None" for pl n owner name branch installation d
    using assms(1) by (simp add: upsert_step_def)
  note h = handle_pull_request_def handle_push_def handle_issue_comment_def handle_gitlab_merge_request_def
    handle_gitlab_push_def handle_gitlab_note_def handle_bitbucket_pullrequest_def handle_bitbucket_push_def
    handle_bitbucket_comment_def
  have "handle_pull_request app run payload i db = db" "handle_push app run payload i db = db"
    "handle_issue_comment app run payload i db = db" "handle_gitlab_merge_request app run payload i db = db"
    "handle_gitlab_push app run payload i db = db" "handle_gitlab_note app run payload i db = db"
    "handle_bitbucket_pullrequest app run event payload i db = db" "handle_bitbucket_push app run payload i db = db"
    "handle_bitbucket_comment app run payload i db = db"
    unfolding h by (simp_all add: u Let_def split: option.split prod.split)
  then show ?thesis
    using assms(2)
    by (auto simp: route_event_def route_github_event_def route_gitlab_event_def route_bitbucket_event_def
          github_route_def gitlab_route_def bitbucket_route_def split: platform.split)
qed

text \<open>
  A delivery whose handling fails is lost: it is recorded before it is handled and the failure is only
  logged, so it is answered as accepted although nothing was done, and the platform's redelivery of it is
  turned away as a duplicate even when the database has recovered.
\<close>

theorem failed_handling_is_final:
  assumes "is_routed_event p event" "event \<notin> {''installation'', ''installation_repositories''}"
    and "hr_up run H_Record" "\<not> hr_up run H_Upsert" "hr_up run' H_Record" "hs_db s = Some db"
    and "\<not> list_ex (\<lambda>d. dr_delivery_id d = i) (wd_deliveries db)"
    and first_def: "first = receive app run p i event payload None s"
  shows "fst first = Hook_Accepted ''accepted''
     \<and> map_option wd_control (hs_db (snd first)) = Some (wd_control db)
     \<and> receive app run' p i event payload None (snd first) = (Hook_Accepted ''duplicate delivery'', snd first)"
proof -
  obtain ds where first: "first = (Hook_Accepted ''accepted'', s\<lparr>hs_db := Some (db\<lparr>wd_deliveries := ds\<rparr>)\<rparr>)"
    and ds: "list_ex (\<lambda>d. dr_delivery_id d = i) ds"
    using assms(1,3,6,7) unreachable_upsert[OF assms(4,2)]
    by (simp add: first_def receive_def persist_delivery_def record_delivery_def)
  from already_recorded[OF assms(1), of "snd first" "db\<lparr>wd_deliveries := ds\<rparr>" i app run' payload None]
  show ?thesis using assms(5) first ds by simp
qed

section \<open>Witnesses\<close>

definition approved_repo :: repository where
  "approved_repo = \<lparr>re_id = 7, re_platform = GitHub, re_platform_repo_id = 70, re_owner = ''acme'', re_name = ''shop'',
     re_default_branch = ''main'', re_installation_id = Some 9, re_status = Approved, re_approved_at = Some 0,
     re_approved_by = Some ''admin''\<rparr>"

definition hook_db :: "tasks \<Rightarrow> webhook_db" where
  "hook_db ts = \<lparr>wd_control = (with_tasks ts)\<lparr>cd_repos := [approved_repo]\<rparr>, wd_next_repo = 8, wd_deliveries = [],
     wd_settings = [], wd_repo_models = [], wd_org_models = [], wd_purges = []\<rparr>"

definition hook_store :: "tasks \<Rightarrow> hook_state" where
  "hook_store ts = \<lparr>hs_db = Some (hook_db ts), hs_seen = []\<rparr>"

definition calm_run :: "(hook_query \<Rightarrow> bool) \<Rightarrow> hook_run" where
  "calm_run up = \<lparr>hr_up = up, hr_worker_up = (\<lambda>_ _. True), hr_now = 100, hr_ids = (\<lambda>n. ''n'' @ dec n),
     hr_race = (\<lambda>_ ts. ts), hr_trace = None\<rparr>"

definition quiet_forge :: forge where
  "quiet_forge = \<lparr>fg_pr_shas = (\<lambda>_ _. Inr (Some ''base'', Some ''head'')), fg_repo_file = (\<lambda>_ _. Inr None),
     fg_default_branch = (\<lambda>_. Inr ''main'')\<rparr>"

definition hook_site :: hook_app where
  "hook_site = \<lparr>ha_github = Some quiet_forge, ha_github_app_secret = ''s'', ha_github_webhook_secret = ''s'',
     ha_app_handle = ''bot'',
     ha_gitlab = Some \<lparr>gr_by_project_id = [(5, \<lparr>pj_project_id = 5, pj_bot_handle = ''bot'',
        pj_webhook_secret = ''t'', pj_client = quiet_forge\<rparr>)], gr_by_installation_id = [(5, 5)]\<rparr>,
     ha_bitbucket = None, ha_skip_bot_authored_prs = True, ha_hmac_hex = (\<lambda>_ _. ''00''),
     ha_stable_id = (\<lambda>_. 0), ha_parse_config = (\<lambda>_. None)\<rparr>"

definition comment_payload :: json where
  "comment_payload = JObj
     [(''action'', JStr ''created''),
      (''comment'', JObj [(''id'', JInt 33), (''body'', JStr ''@bot please review'')]),
      (''issue'', JObj [(''number'', JInt 3), (''pull_request'', JObj [])]),
      (''installation'', JObj [(''id'', JInt 9)]),
      (''repository'', JObj [(''id'', JInt 70), (''owner'', JObj [(''login'', JStr ''acme'')]),
         (''name'', JStr ''shop''), (''default_branch'', JStr ''main'')])]"

definition page_serde :: "json \<Rightarrow> serde" where
  "page_serde j = \<lparr>to_text = (\<lambda>_. []), from_text = (\<lambda>_. Some j)\<rparr>"

lemmas hook_samples = hook_store_def hook_db_def approved_repo_def calm_run_def with_tasks_def empty_db_def

lemma hook_db_ok [simp]: "repos_ok (hook_db ts)"
  by (simp add: repos_ok_def hook_samples)

lemma hook_db_parts [simp]:
  "hs_db (hook_store ts) = Some (hook_db ts)" "wd_tasks (hook_db ts) = ts" "wd_repos (hook_db ts) = [approved_repo]"
  "wd_deliveries (hook_db ts) = []" "hr_up (calm_run up) = up" "hr_ids (calm_run up) n = ''n'' @ dec n"
  "hr_race (calm_run up) n us = us" "licensed_race db (calm_run up)"
  by (simp_all add: hook_samples licensed_race_def)

definition comment_call :: hook_call where
  "comment_call = To_Github [(''x-hub-signature-256'', ''sha256=00''), (''x-github-delivery'', ''d1''),
     (''x-github-event'', ''issue_comment'')] ''{}''"

lemma nothing_runs_unapproved_witness:
  "\<exists>db'. hs_db (serve_hooks (page_serde comment_payload) hook_site [(calm_run (\<lambda>_. True), comment_call)] (hook_store []))
       = Some db'
     \<and> filter (\<lambda>t. \<not> id_taken [] (tk_id t) \<and> \<not> repository_approved [approved_repo] (repo_of t)) (wd_tasks db') = []"
  using nothing_runs_unapproved[of "hook_store []" "hook_db []" "[(calm_run (\<lambda>_. True), comment_call)]"
      "page_serde comment_payload" hook_site] by simp

lemma webhooks_never_approve_witness:
  "\<exists>db'. hs_db (serve_hooks (page_serde comment_payload) hook_site [(calm_run (\<lambda>_. True), comment_call)] (hook_store []))
       = Some db' \<and> repos_ok db'"
proof -
  have "hs_db (hook_store []) = Some (hook_db [])" "repos_ok (hook_db [])"
    "list_all (licensed_race (hook_db [])) (map fst [(calm_run (\<lambda>_. True), comment_call)])"
    by auto
  from webhooks_never_approve[OF this] show ?thesis by blast
qed

lemma redelivery_changes_nothing_witness:
  "snd (receive hook_site (calm_run (\<lambda>_. True)) GitHub ''d1'' ''issue_comment'' JNull None
      (snd (receive hook_site (calm_run (\<lambda>_. True)) GitHub ''d1'' ''issue_comment'' comment_payload None (hook_store []))))
   = snd (receive hook_site (calm_run (\<lambda>_. True)) GitHub ''d1'' ''issue_comment'' comment_payload None (hook_store []))"
  by (rule redelivery_changes_nothing) simp

lemma foreign_project_is_refused_witness:
  "fst (gitlab_webhook (page_serde (JObj [(''project'', JObj [(''id'', JInt 6)])])) hook_site (calm_run (\<lambda>_. True)) 5
      [(''x-gitlab-token'', ''t''), (''x-gitlab-event-uuid'', ''u'')] ''{}'' (hook_store []))
    \<noteq> Hook_Accepted ''accepted''"
  by (rule foreign_project_is_refused[where db = "hook_db []" and n = 6
        and project = "\<lparr>pj_project_id = 5, pj_bot_handle = ''bot'', pj_webhook_secret = ''t'', pj_client = quiet_forge\<rparr>"
        and payload = "JObj [(''project'', JObj [(''id'', JInt 6)])]", THEN conjunct2])
     (simp_all add: hook_site_def get_by_installation_id_def page_serde_def jat_def)

lemma failed_handling_is_final_witness:
  "fst (receive hook_site (calm_run (\<lambda>q. q \<noteq> H_Upsert)) GitHub ''d1'' ''issue_comment'' comment_payload None (hook_store []))
     = Hook_Accepted ''accepted''"
  using failed_handling_is_final[OF _ _ _ _ _ _ _ refl, of GitHub "''issue_comment''" "calm_run (\<lambda>q. q \<noteq> H_Upsert)"
      "calm_run (\<lambda>_. True)" "hook_store []" "hook_db []" "''d1''"]
  by (simp add: is_routed_event_def github_route_def)

lemma mention_always_lands_witness:
  "\<exists>t. wd_tasks (route_event hook_site (calm_run (\<lambda>_. True)) GitHub ''issue_comment'' comment_payload ''d1'' (hook_db []))
      = [t] \<and> command_of t = command_from_comment ''@bot please review''"
proof -
  have m: "mentions_handle ''@bot please review'' ''bot''" by code_simp
  show ?thesis
    using mention_always_lands[where payload = comment_payload and app = hook_site and body = "''@bot please review''"
        and db = "hook_db []" and run = "calm_run (\<lambda>_. True)" and r = approved_repo and client = quiet_forge
        and n = 70 and owner = "''acme''" and name = "''shop''" and branch = "''main''" and installation = 9 and number = 3
        and base = "Some ''base''" and head = "Some ''head''" and delivery = "''d1''"] m
    by (auto simp: comment_payload_def jat_def github_repo_def installation_of_def hook_site_def quiet_forge_def
          hosted_as_def approved_repo_def id_taken_def)
qed

definition waiting_row :: task_row where
  "waiting_row = fresh_row 1 ''rv'' (sample_request\<lparr>nt_target_type := PULL_REQUEST, nt_target_id := 3\<rparr>) 0 1 WaitingForIndex"

definition index_row :: task_row where
  "index_row = fresh_row 0 ''ix'' (index_request (repo_of waiting_row) 9) 0 0 Running"

lemma waiting_review_survives_close_witness:
  "get_task_status (fst (snd (set_task_status 200 ''ix'' Succeeded None
     (wd_tasks (cancel_closed_pr (calm_run (\<lambda>_. True)) (repo_of waiting_row) 3 (hook_db [index_row, waiting_row])), []))))
     ''rv'' = Some Queued"
proof -
  have "get_row [index_row, waiting_row] ''rv'' = Some waiting_row" "get_row [index_row, waiting_row] ''ix'' = Some index_row"
    by (simp_all add: get_row_def waiting_row_def index_row_def fresh_row_def)
  with waiting_review_survives_close[of "hook_db [index_row, waiting_row]" "''rv''" waiting_row "''ix''" index_row Succeeded
      200 None "calm_run (\<lambda>_. True)" "[]"]
  show ?thesis by (simp add: waiting_row_def index_row_def fresh_row_def index_request_def is_terminal_def)
qed

lemma push_keeps_one_index_witness:
  "length (filter (index_run_of 7) (wd_tasks (index_on_push (calm_run (\<lambda>_. True)) 7 9 (hook_db [])))) = 1"
  using push_keeps_one_index[of "calm_run (\<lambda>_. True)" 7 "hook_db []" 9]
  by (simp add: approved_or_skip_def repository_approved_def repository_status_def repo_row_def row_of_def
      approved_repo_def id_taken_def)

definition sync_request :: new_task where
  "sync_request = sample_request\<lparr>nt_target_type := PULL_REQUEST, nt_target_id := 3, nt_entry_point := ''pr_sync'',
     nt_head_sha := Some ''new''\<rparr>"

definition old_review :: task_row where
  "old_review = fresh_row 1 ''old'' (sync_request\<lparr>nt_head_sha := Some ''head''\<rparr>) 0 1 Running"

lemma superseded_reviews_stop_witness:
  "list_all (\<lambda>t. nt_head_sha (tk_task t) = Some ''new'')
     (filter (\<lambda>t. automatic_of 7 3 t \<and> unfinished t)
        (wd_tasks (create_review_task (calm_run (\<lambda>_. True)) sync_request True (merge_settings None None)
           (hook_db [old_review]))))"
  using superseded_reviews_stop[of "merge_settings None None" sync_request "''new''" "calm_run (\<lambda>_. True)"
      "hook_db [old_review]"]
  by (simp add: merge_settings_def pick_enum_def DEFAULT_PUSH_STRATEGY_def sync_request_def sample_request_def
      key_taken_def id_taken_def old_review_def fresh_row_def natural_key_def)

end
