(* ===== verification/A2a_Log.thy ===== *)
theory A2a_Log
  imports Repositories
begin

text \<open>
  The tables behind the agent-to-agent interface and the event log of its tasks (\<open>a2a/events.rs\<close>, the state
  and artifact mapping of \<open>a2a/mapping.rs\<close>). The wire form of the interface's values is a parameter; the
  types carry the fields the source reads or writes. A transaction that fails leaves the tables as they
  were.
\<close>

section \<open>Values of the interface\<close>

datatype task_state =
  State_Unspecified | State_Submitted | State_Working | State_Completed | State_Failed | State_Canceled
| State_Rejected

text \<open>The wire names, as the table's queries and comments spell them.\<close>

fun state_wire :: "task_state \<Rightarrow> string" where
  "state_wire State_Unspecified = ''TASK_STATE_UNSPECIFIED''"
| "state_wire State_Submitted = ''TASK_STATE_SUBMITTED''"
| "state_wire State_Working = ''TASK_STATE_WORKING''"
| "state_wire State_Completed = ''TASK_STATE_COMPLETED''"
| "state_wire State_Failed = ''TASK_STATE_FAILED''"
| "state_wire State_Canceled = ''TASK_STATE_CANCELED''"
| "state_wire State_Rejected = ''TASK_STATE_REJECTED''"

definition state_from_wire :: "string \<Rightarrow> task_state" where
  "state_from_wire wire =
     (case find (\<lambda>s. state_wire s = wire)
             [State_Submitted, State_Working, State_Completed, State_Failed, State_Canceled, State_Rejected] of
        Some s \<Rightarrow> s | None \<Rightarrow> State_Unspecified)"

definition is_terminal_state :: "task_state \<Rightarrow> bool" where
  "is_terminal_state s \<longleftrightarrow> s \<in> {State_Completed, State_Failed, State_Canceled, State_Rejected}"

definition task_state_from_status :: "string \<Rightarrow> task_state" where
  "task_state_from_status status =
     (if status \<in> {''received'', ''queued'', ''waiting_for_index''} then State_Submitted
      else if status \<in> {''running'', ''posting_result''} then State_Working
      else if status = ''succeeded'' then State_Completed
      else if status \<in> {''failed'', ''timed_out''} then State_Failed
      else if status = ''cancelled'' then State_Canceled
      else State_Working)"

datatype part = Text_Part string | Data_Part json "string option" | Other_Part

record artifact =
  af_id :: string
  af_name :: "string option"
  af_description :: "string option"
  af_parts :: "part list"

record a2a_task =
  at_id :: string
  at_context_id :: string
  at_state :: task_state
  at_artifacts :: "artifact list option"
  at_metadata :: "(string \<times> json) list option"

datatype stream_response =
  Task_Frame a2a_task
| Status_Update string string task_state     \<comment> \<open>task, context, state\<close>
| Artifact_Update string string artifact

record wire =
  wr_encode :: "stream_response \<Rightarrow> json"
  wr_decode :: "json \<Rightarrow> stream_response option"

section \<open>Tables\<close>

record a2a_row =
  ar_id :: string
  ar_context_id :: string
  ar_caller :: string
  ar_skill :: string
  ar_underlying :: "string option"
  ar_state :: string
  ar_version :: int
  ar_json :: a2a_task
  ar_created_at :: nat
  ar_updated_at :: nat

record event_row =
  ev_task :: string
  ev_seq :: int
  ev_kind :: string
  ev_state :: "string option"
  ev_final :: bool
  ev_payload :: json

datatype push_state = Push_Active | Push_Disabled

record push_config =
  pc_id :: string
  pc_task :: string
  pc_url :: string
  pc_token_enc :: "string option"
  pc_delivered_seq :: int
  pc_attempts :: int
  pc_next_attempt_at :: nat
  pc_state :: push_state
  pc_lease_owner :: "string option"
  pc_lease_expires_at :: "nat option"
  pc_created_at :: nat
  pc_created_by :: string

record a2a_db =
  ad_web :: webhook_db
  ad_rows :: "a2a_row list"
  ad_events :: "event_row list"
  ad_configs :: "push_config list"

abbreviation ad_tasks :: "a2a_db \<Rightarrow> tasks" where "ad_tasks db \<equiv> wd_tasks (ad_web db)"
abbreviation ad_control :: "a2a_db \<Rightarrow> control_db" where "ad_control db \<equiv> wd_control (ad_web db)"

definition with_rows_of :: "tasks \<Rightarrow> a2a_db \<Rightarrow> a2a_db" where
  "with_rows_of ts db = db\<lparr>ad_web := with_task_rows ts (ad_web db)\<rparr>"

section \<open>Artifacts of a review\<close>

record review_context =
  rx_repo :: "string option"
  rx_pr :: "int option"
  rx_base_sha :: "string option"
  rx_head_sha :: "string option"
  rx_review_url :: "string option"

definition scope_of :: "review_context \<Rightarrow> string option" where
  "scope_of c = (if rx_base_sha c \<noteq> None then Some ''diff''
                 else if rx_head_sha c \<noteq> None then Some ''whole-tree'' else None)"

definition nullable :: "('a \<Rightarrow> json) \<Rightarrow> 'a option \<Rightarrow> json" where
  "nullable f v = (case v of None \<Rightarrow> JNull | Some x \<Rightarrow> f x)"

definition context_data :: "review_context \<Rightarrow> json" where
  "context_data c =
     JObj [(''repo'', nullable JStr (rx_repo c)), (''pr'', nullable JInt (rx_pr c)),
           (''baseSha'', nullable JStr (rx_base_sha c)), (''headSha'', nullable JStr (rx_head_sha c)),
           (''scope'', nullable JStr (scope_of c)), (''reviewUrl'', nullable JStr (rx_review_url c))]"

definition review_artifacts :: "string \<Rightarrow> json \<Rightarrow> review_context \<Rightarrow> artifact list" where
  "review_artifacts summary findings c =
     [\<lparr>af_id = ''review'', af_name = Some ''review'',
       af_description = Some ''Deep review summary, structured findings, and the review context (effective base/head SHAs, scope, and the posted-review permalink).'',
       af_parts = [Text_Part (if trim summary = [] then ''Review completed with no summary.'' else summary),
                   Data_Part findings (Some ''application/json''),
                   Data_Part (context_data c) (Some ''application/json'')]\<rparr>]"

definition no_context :: "string option \<Rightarrow> review_context" where
  "no_context review_url = \<lparr>rx_repo = None, rx_pr = None, rx_base_sha = None, rx_head_sha = None,
     rx_review_url = review_url\<rparr>"

definition task_context_of :: "task_row \<Rightarrow> repository option \<Rightarrow> string option \<Rightarrow> review_context" where
  "task_context_of t repo review_url =
     \<lparr>rx_repo = map_option (\<lambda>r. re_owner r @ ''/'' @ re_name r) repo, rx_pr = Some (nt_target_id (tk_task t)),
      rx_base_sha = nt_base_sha (tk_task t), rx_head_sha = nt_head_sha (tk_task t),
      rx_review_url = review_url\<rparr>"

definition review_context :: "control_db \<Rightarrow> task_row option \<Rightarrow> string option \<Rightarrow> review_context" where
  "review_context db row review_url =
     (case row of
        None \<Rightarrow> no_context review_url
      | Some t \<Rightarrow> task_context_of t (repo_row (cd_repos db) (repo_of t)) review_url)"

section \<open>The event log\<close>

text \<open>The statements of a transaction; \<open>up\<close> says which of them the database answers.\<close>

datatype log_query = L_Status | L_Fronts | L_Review | L_Context | L_Final string | L_Append string string | L_Lock

definition has_final :: "string \<Rightarrow> event_row list \<Rightarrow> bool" where
  "has_final i evs = list_ex (\<lambda>e. ev_task e = i \<and> ev_final e) evs"

definition max_seq :: "string \<Rightarrow> event_row list \<Rightarrow> int" where
  "max_seq i evs = foldr (\<lambda>e m. max (ev_seq e) m) (filter (\<lambda>e. ev_task e = i) evs) 0"

definition append_event ::
  "string \<Rightarrow> string \<Rightarrow> string option \<Rightarrow> bool \<Rightarrow> json \<Rightarrow> a2a_db \<Rightarrow> (sql_error, a2a_db) result" where
  "append_event i kind state final payload db =
     (let seq = max_seq i (ad_events db) + 1 in
      if list_ex (\<lambda>e. ev_task e = i \<and> ev_seq e = seq) (ad_events db) then Inl UniqueViolation
      else if \<not> list_ex (\<lambda>r. ar_id r = i) (ad_rows db) then Inl ForeignKeyViolation
      else Inr (db\<lparr>ad_events := ad_events db @
             [\<lparr>ev_task = i, ev_seq = seq, ev_kind = kind, ev_state = state, ev_final = final, ev_payload = payload\<rparr>]\<rparr>))"

definition status_update_payload :: "wire \<Rightarrow> string \<Rightarrow> string \<Rightarrow> task_state \<Rightarrow> json" where
  "status_update_payload w i ctx s = wr_encode w (Status_Update i ctx s)"

definition artifact_update_payload :: "wire \<Rightarrow> string \<Rightarrow> string \<Rightarrow> artifact \<Rightarrow> json" where
  "artifact_update_payload w i ctx a = wr_encode w (Artifact_Update i ctx a)"

definition completed_artifact ::
  "(log_query \<Rightarrow> bool) \<Rightarrow> string \<Rightarrow> control_db \<Rightarrow> (sql_error, artifact option) result" where
  "completed_artifact up i db =
     (if \<not> up L_Review then Inl Unavailable
      else case get_review (cd_reviews db) i of
        None \<Rightarrow> Inr None
      | Some rw \<Rightarrow>
          if \<not> up L_Context then Inl Unavailable
          else (let c = review_context db (get_row (cd_tasks db) i) (rw_review_url rw)
                in Inr (case review_artifacts (rw_summary rw) (rw_findings rw) c of
                          [] \<Rightarrow> None | a # _ \<Rightarrow> Some a)))"

definition append_if_up ::
  "(log_query \<Rightarrow> bool) \<Rightarrow> string \<Rightarrow> string \<Rightarrow> string option \<Rightarrow> bool \<Rightarrow> json \<Rightarrow> a2a_db \<Rightarrow> (sql_error, a2a_db) result" where
  "append_if_up up i kind state final payload db =
     (if up (L_Append i kind) then append_event i kind state final payload db else Inl Unavailable)"

text \<open>One front of a run: nothing once its log has a final event, else the artifact and the status.\<close>

definition append_front ::
  "(log_query \<Rightarrow> bool) \<Rightarrow> wire \<Rightarrow> artifact option \<Rightarrow> task_state \<Rightarrow> string \<times> string \<Rightarrow> a2a_db
   \<Rightarrow> (sql_error, a2a_db) result" where
  "append_front up w art mapped front db =
     (let (i, ctx) = front in
      if \<not> up (L_Final i) then Inl Unavailable
      else if has_final i (ad_events db) then Inr db
      else case (case art of
                   None \<Rightarrow> Inr db
                 | Some a \<Rightarrow> append_if_up up i ''artifact-update'' None False (artifact_update_payload w i ctx a) db) of
        Inl e \<Rightarrow> Inl e
      | Inr db1 \<Rightarrow>
          append_if_up up i ''status-update'' (Some (state_wire mapped)) (is_terminal_state mapped)
            (status_update_payload w i ctx mapped) db1)"

fun append_fronts ::
  "(log_query \<Rightarrow> bool) \<Rightarrow> wire \<Rightarrow> artifact option \<Rightarrow> task_state \<Rightarrow> (string \<times> string) list \<Rightarrow> a2a_db
   \<Rightarrow> (sql_error, a2a_db) result" where
  "append_fronts up w art mapped [] db = Inr db"
| "append_fronts up w art mapped (f # fs) db =
     (case append_front up w art mapped f db of
        Inl e \<Rightarrow> Inl e
      | Inr db' \<Rightarrow> append_fronts up w art mapped fs db')"

definition fronts_of :: "string \<Rightarrow> a2a_row list \<Rightarrow> (string \<times> string) list" where
  "fronts_of u rows = map (\<lambda>r. (ar_id r, ar_context_id r)) (filter (\<lambda>r. ar_underlying r = Some u) rows)"

definition append_transition_events ::
  "(log_query \<Rightarrow> bool) \<Rightarrow> wire \<Rightarrow> string \<Rightarrow> string \<Rightarrow> a2a_db \<Rightarrow> (sql_error, a2a_db) result" where
  "append_transition_events up w u status db =
     (if \<not> up L_Fronts then Inl Unavailable
      else let fronts = fronts_of u (ad_rows db) in
      if fronts = [] then Inr db
      else let mapped = task_state_from_status status in
      case (if mapped = State_Completed then completed_artifact up u (ad_control db) else Inr None) of
        Inl e \<Rightarrow> Inl e
      | Inr art \<Rightarrow> append_fronts up w art mapped fronts db)"

definition append_terminal_status ::
  "(log_query \<Rightarrow> bool) \<Rightarrow> wire \<Rightarrow> string \<Rightarrow> string \<Rightarrow> task_state \<Rightarrow> string option \<Rightarrow> a2a_db
   \<Rightarrow> (sql_error, a2a_db) result" where
  "append_terminal_status up w i ctx s underlying db =
     (if underlying \<noteq> None \<and> \<not> up L_Lock then Inl Unavailable
      else if \<not> up (L_Final i) then Inl Unavailable
      else if has_final i (ad_events db) then Inr db
      else append_if_up up i ''status-update'' (Some (state_wire s)) True (status_update_payload w i ctx s) db)"

definition fetch_events_after :: "event_row list \<Rightarrow> string \<Rightarrow> int \<Rightarrow> (int \<times> json \<times> bool) list" where
  "fetch_events_after evs i after =
     map (\<lambda>e. (ev_seq e, ev_payload e, ev_final e))
       (sort_key ev_seq (filter (\<lambda>e. ev_task e = i \<and> after < ev_seq e) evs))"

section \<open>Status reports of a run\<close>

text \<open>The transaction of \<open>set_task_status\<close>: the flip of the row and the events of every front, or neither.\<close>

definition report_status ::
  "(log_query \<Rightarrow> bool) \<Rightarrow> wire \<Rightarrow> nat \<Rightarrow> string \<Rightarrow> task_status \<Rightarrow> string option \<Rightarrow> a2a_db
   \<Rightarrow> (sql_error, bool \<times> a2a_db) result" where
  "report_status up w now i status detail db =
     (let c = ad_control db;
          (found, ts, snaps) = set_task_status now i status detail (cd_tasks c, cd_snapshots c);
          flipped = db\<lparr>ad_web := (ad_web db)\<lparr>wd_control := c\<lparr>cd_tasks := ts, cd_snapshots := snaps\<rparr>\<rparr>\<rparr>
      in if \<not> up L_Status then Inl Unavailable
         else case append_transition_events up w i (status_text status) flipped of
                Inl e \<Rightarrow> Inl e
              | Inr db' \<Rightarrow> Inr (found, db'))"

section \<open>Shape of the logs\<close>

text \<open>A log numbered from one: what a reader with a cursor relies on.\<close>

locale numbered_log =
  fixes entries :: "'s \<Rightarrow> 'k \<Rightarrow> 'e list"
    and seq :: "'e \<Rightarrow> int"
    and ok :: "'s \<Rightarrow> bool"
  assumes numbered: "ok s \<Longrightarrow> map seq (entries s k) = map int [1..<Suc (length (entries s k))]"
begin

lemma seq_nth: "ok s \<Longrightarrow> n < length (entries s k) \<Longrightarrow> seq (entries s k ! n) = int n + 1"
  using arg_cong[OF numbered, of s "\<lambda>xs. xs ! n" k] by (simp del: upt_Suc)

lemma past_cursor:
  assumes "ok s"
  shows "filter (\<lambda>e. int c < seq e) (entries s k) = drop c (entries s k)"
proof -
  let ?es = "entries s k"
  have "filter (\<lambda>e. int c < seq e) (take c ?es) = []"
    using seq_nth[OF assms] by (auto simp: filter_empty_conv in_set_conv_nth)
  moreover have "filter (\<lambda>e. int c < seq e) (drop c ?es) = drop c ?es"
    using seq_nth[OF assms] by (auto simp: filter_id_conv in_set_conv_nth)
  ultimately show ?thesis
    using filter_append[of "\<lambda>e. int c < seq e" "take c ?es" "drop c ?es"] by simp
qed

lemma ascending:
  assumes "ok s"
  shows "sorted (map seq (drop c (entries s k)))"
proof -
  have "sorted (map int [1..<Suc (length (entries s k))])" by (auto simp: sorted_iff_nth_mono simp del: upt_Suc)
  then show ?thesis unfolding drop_map [symmetric] numbered[OF assms] by (rule sorted_wrt_drop)
qed

lemma read_past_cursor:
  assumes "ok s"
  shows "sort_key seq (filter (\<lambda>e. int c < seq e) (entries s k)) = drop c (entries s k)"
  unfolding past_cursor[OF assms] by (rule sort_key_id_if_sorted) (rule ascending[OF assms])

lemma last_seq:
  "ok s \<Longrightarrow> foldr (\<lambda>e m. max (seq e) m) (entries s k) 0 = int (length (entries s k))"
proof -
  assume ok: "ok s"
  have "foldr max (map int [1..<Suc n]) m = max (int n) m" if "0 \<le> m" for n m
    using that by (induction n arbitrary: m) auto
  then have "foldr max (map seq (entries s k)) 0 = int (length (entries s k))"
    unfolding numbered[OF ok] by (metis max.absorb1 of_nat_0_le_iff order.refl)
  then show ?thesis by (simp add: foldr_map comp_def)
qed

end

definition log_of :: "string \<Rightarrow> a2a_db \<Rightarrow> event_row list" where
  "log_of i db = filter (\<lambda>e. ev_task e = i) (ad_events db)"

definition log_shape :: "event_row list \<Rightarrow> bool" where
  "log_shape es \<longleftrightarrow> map ev_seq es = map int [1..<Suc (length es)] \<and> list_all (\<lambda>e. \<not> ev_final e) (butlast es)"

definition log_ok :: "a2a_db \<Rightarrow> bool" where
  "log_ok db \<longleftrightarrow> (\<forall>i. log_shape (log_of i db))"

interpretation el: numbered_log "\<lambda>db i. log_of i db" ev_seq log_ok
  by unfold_locales (simp add: log_ok_def log_shape_def)

definition frozen :: "event_row list \<Rightarrow> bool" where
  "frozen es = list_ex ev_final es"

lemma has_final_log: "has_final i (ad_events db) = frozen (log_of i db)"
  by (induction "ad_events db" arbitrary: db)
     (auto simp: has_final_def frozen_def log_of_def list_ex_iff)

lemma max_seq_log: "log_ok db \<Longrightarrow> max_seq i (ad_events db) = int (length (log_of i db))"
  using el.last_seq[of db i] by (simp add: max_seq_def log_of_def)

text \<open>An append adds one entry at the end of one log and leaves the others.\<close>

definition entry :: "string \<Rightarrow> nat \<Rightarrow> string \<Rightarrow> string option \<Rightarrow> bool \<Rightarrow> json \<Rightarrow> event_row" where
  "entry i n kind state final payload =
     \<lparr>ev_task = i, ev_seq = int n + 1, ev_kind = kind, ev_state = state, ev_final = final, ev_payload = payload\<rparr>"

lemma append_event_log:
  assumes "log_ok db" "append_event i kind state final payload db = Inr db'"
  shows "db' = db\<lparr>ad_events := ad_events db @ [entry i (length (log_of i db)) kind state final payload]\<rparr>"
  using assms by (auto simp: append_event_def Let_def entry_def max_seq_log split: if_splits)

lemma append_event_succeeds:
  assumes "log_ok db" "list_ex (\<lambda>r. ar_id r = i) (ad_rows db)"
  shows "append_event i kind state final payload db
    = Inr (db\<lparr>ad_events := ad_events db @ [entry i (length (log_of i db)) kind state final payload]\<rparr>)"
proof -
  have "\<not> list_ex (\<lambda>e. ev_task e = i \<and> ev_seq e = int (length (log_of i db)) + 1) (ad_events db)"
  proof
    assume "list_ex (\<lambda>e. ev_task e = i \<and> ev_seq e = int (length (log_of i db)) + 1) (ad_events db)"
    then obtain e where e: "e \<in> set (log_of i db)" "ev_seq e = int (length (log_of i db)) + 1"
      by (auto simp: list_ex_iff log_of_def)
    then obtain n where "n < length (log_of i db)" "log_of i db ! n = e" by (auto simp: in_set_conv_nth)
    then show False using el.seq_nth[OF assms(1), of n i] e(2) by simp
  qed
  then show ?thesis using assms by (simp add: append_event_def Let_def max_seq_log entry_def)
qed

lemma log_of_append [simp]:
  "log_of j (db\<lparr>ad_events := ad_events db @ [entry i n kind state final payload]\<rparr>)
   = log_of j db @ (if i = j then [entry i n kind state final payload] else [])"
  by (auto simp: log_of_def entry_def)

lemma log_shape_snoc:
  assumes "log_shape es" "\<not> frozen es"
  shows "log_shape (es @ [entry i (length es) kind state final payload])"
  using assms by (auto simp: log_shape_def frozen_def entry_def list_all_iff list_ex_iff)

lemma log_ok_append:
  assumes "log_ok db" "\<not> frozen (log_of i db)"
  shows "log_ok (db\<lparr>ad_events := ad_events db @ [entry i (length (log_of i db)) kind state final payload]\<rparr>)"
  using assms log_shape_snoc[of "log_of i db"] by (auto simp: log_ok_def)

section \<open>Producers\<close>

text \<open>Every producer extends logs at their end, keeps their shape and leaves frozen ones alone.\<close>

definition grows :: "a2a_db \<Rightarrow> a2a_db \<Rightarrow> bool" where
  "grows db db' \<longleftrightarrow> ad_rows db' = ad_rows db \<and> ad_configs db' = ad_configs db
     \<and> (log_ok db \<longrightarrow> log_ok db' \<and> (\<forall>i. prefix (log_of i db) (log_of i db')
                                        \<and> (frozen (log_of i db) \<longrightarrow> log_of i db' = log_of i db)))"

lemma db_grows_refl: "grows db db"
  by (simp add: grows_def)

lemma db_grows_trans: "grows a b \<Longrightarrow> grows b c \<Longrightarrow> grows a c"
  unfolding grows_def using prefix_order.trans by metis

lemma append_event_grows:
  assumes "append_event i kind state final payload db = Inr db'" "\<not> frozen (log_of i db)"
  shows "grows db db'"
proof (cases "log_ok db")
  case True
  from append_event_log[OF True assms(1)] log_ok_append[OF True assms(2)] assms(2) show ?thesis
    by (auto simp: grows_def)
next
  case False
  then show ?thesis using assms(1) by (auto simp: grows_def append_event_def Let_def split: if_splits)
qed

lemma append_if_up_grows:
  "append_if_up up i kind state final payload db = Inr db' \<Longrightarrow> \<not> frozen (log_of i db) \<Longrightarrow> grows db db'"
  by (auto simp: append_if_up_def intro: append_event_grows split: if_splits)

lemma append_event_open:
  assumes "append_event i kind state False payload db = Inr db'" "\<not> frozen (log_of i db)"
  shows "\<not> frozen (log_of i db')"
proof -
  have "ad_events db' = ad_events db @ [\<lparr>ev_task = i, ev_seq = max_seq i (ad_events db) + 1, ev_kind = kind,
      ev_state = state, ev_final = False, ev_payload = payload\<rparr>]"
    using assms(1) by (auto simp: append_event_def Let_def split: if_splits)
  then show ?thesis using assms(2) by (simp add: log_of_def frozen_def)
qed

lemma append_front_grows:
  assumes "append_front up w art mapped front db = Inr db'"
  shows "grows db db'"
proof -
  obtain i ctx where f: "front = (i, ctx)" by (cases front)
  show ?thesis
  proof (cases "has_final i (ad_events db)")
    case True
    then show ?thesis using assms by (auto simp: append_front_def f db_grows_refl split: if_splits)
  next
    case False
    then have nf: "\<not> frozen (log_of i db)" by (simp add: has_final_log)
    show ?thesis
    proof (cases art)
      case None
      then show ?thesis
        using assms False nf by (auto simp: append_front_def f intro: append_if_up_grows split: if_splits)
    next
      case (Some a)
      then obtain db1 where
        one: "append_if_up up i ''artifact-update'' None False (artifact_update_payload w i ctx a) db = Inr db1" and
        two: "append_if_up up i ''status-update'' (Some (state_wire mapped)) (is_terminal_state mapped)
                (status_update_payload w i ctx mapped) db1 = Inr db'"
        using assms False by (auto simp: append_front_def f split: if_splits sum.splits)
      have "\<not> frozen (log_of i db1)"
        using append_event_open[OF _ nf] one by (simp add: append_if_up_def split: if_splits)
      then show ?thesis
        using db_grows_trans[OF append_if_up_grows[OF one nf] append_if_up_grows[OF two]] by simp
    qed
  qed
qed

lemma append_fronts_grows: "append_fronts up w art mapped fs db = Inr db' \<Longrightarrow> grows db db'"
proof (induction fs arbitrary: db)
  case (Cons f fs)
  from Cons.prems obtain db1 where one: "append_front up w art mapped f db = Inr db1"
    and rest: "append_fronts up w art mapped fs db1 = Inr db'"
    by (auto split: sum.splits)
  show ?case by (rule db_grows_trans[OF append_front_grows[OF one] Cons.IH[OF rest]])
qed (simp add: db_grows_refl)

lemma append_transition_events_grows: "append_transition_events up w u status db = Inr db' \<Longrightarrow> grows db db'"
  by (auto simp: append_transition_events_def Let_def db_grows_refl intro: append_fronts_grows split: if_splits sum.splits)

lemma append_terminal_status_grows: "append_terminal_status up w i ctx s u db = Inr db' \<Longrightarrow> grows db db'"
  by (auto simp: append_terminal_status_def db_grows_refl has_final_log intro: append_if_up_grows split: if_splits)

lemma log_of_web [simp]: "log_of i (db\<lparr>ad_web := w\<rparr>) = log_of i db"
  by (simp add: log_of_def)

lemma grows_web: "grows (db\<lparr>ad_web := w\<rparr>) db' \<Longrightarrow> grows db db'"
  by (simp add: grows_def log_ok_def)

lemma report_status_grows: "report_status up w now i status detail db = Inr (b, db') \<Longrightarrow> grows db db'"
proof -
  assume r: "report_status up w now i status detail db = Inr (b, db')"
  obtain found ts snaps where
    s: "set_task_status now i status detail (cd_tasks (ad_control db), cd_snapshots (ad_control db)) = (found, ts, snaps)"
    by (rule prod_cases3)
  from r obtain v where "append_transition_events up w i (status_text status) (db\<lparr>ad_web := v\<rparr>) = Inr db'"
    unfolding report_status_def Let_def s prod.case by (simp split: if_splits sum.splits)
  then show "grows db db'" by (rule grows_web[OF append_transition_events_grows])
qed

section \<open>What a report appends\<close>

text \<open>With the database up, a report adds to the open log of every front its artifact and its status.\<close>

definition report_entries :: "wire \<Rightarrow> artifact option \<Rightarrow> task_state \<Rightarrow> string \<Rightarrow> string \<Rightarrow> nat \<Rightarrow> event_row list" where
  "report_entries w art mapped i ctx n =
     (case art of
        None \<Rightarrow> [entry i n ''status-update'' (Some (state_wire mapped)) (is_terminal_state mapped)
                   (status_update_payload w i ctx mapped)]
      | Some a \<Rightarrow> [entry i n ''artifact-update'' None False (artifact_update_payload w i ctx a),
                    entry i (n + 1) ''status-update'' (Some (state_wire mapped)) (is_terminal_state mapped)
                      (status_update_payload w i ctx mapped)])"

lemma append_front_open:
  assumes ok: "log_ok db" and row: "list_ex (\<lambda>r. ar_id r = i) (ad_rows db)" and nf: "\<not> frozen (log_of i db)"
  shows "append_front (\<lambda>_. True) w art mapped (i, ctx) db
    = Inr (db\<lparr>ad_events := ad_events db @ report_entries w art mapped i ctx (length (log_of i db))\<rparr>)"
proof (cases art)
  case None
  then show ?thesis
    using assms by (simp add: append_front_def has_final_log append_if_up_def append_event_succeeds report_entries_def)
next
  case (Some a)
  let ?db1 = "db\<lparr>ad_events := ad_events db @ [entry i (length (log_of i db)) ''artifact-update'' None False
      (artifact_update_payload w i ctx a)]\<rparr>"
  have "log_ok ?db1" by (rule log_ok_append[OF ok nf])
  then show ?thesis
    using assms Some append_event_succeeds[of ?db1 i]
    by (simp add: append_front_def has_final_log append_if_up_def append_event_succeeds report_entries_def)
qed

lemma append_front_frozen:
  "frozen (log_of i db) \<Longrightarrow> append_front (\<lambda>_. True) w art mapped (i, ctx) db = Inr db"
  by (simp add: append_front_def has_final_log)

lemma report_entries_task: "filter (\<lambda>e. ev_task e = j) (report_entries w art mapped i ctx n)
    = (if i = j then report_entries w art mapped i ctx n else [])"
  by (auto simp: report_entries_def entry_def split: option.splits)

definition run_artifact :: "control_db \<Rightarrow> string \<Rightarrow> task_status \<Rightarrow> artifact option" where
  "run_artifact c i status =
     (if status \<noteq> Succeeded then None
      else case get_review (cd_reviews c) i of
        None \<Rightarrow> None
      | Some rw \<Rightarrow> Some (hd (review_artifacts (rw_summary rw) (rw_findings rw)
                              (review_context c (get_row (cd_tasks c) i) (rw_review_url rw)))))"

lemma append_fronts_open:
  assumes "log_ok db" "distinct (map fst fs)" "list_all (\<lambda>f. list_ex (\<lambda>r. ar_id r = fst f) (ad_rows db)) fs"
  shows "\<exists>db'. append_fronts (\<lambda>_. True) w art mapped fs db = Inr db' \<and> ad_rows db' = ad_rows db
    \<and> ad_web db' = ad_web db
    \<and> (\<forall>j. log_of j db' = log_of j db @
           (case map_of fs j of
              None \<Rightarrow> []
            | Some ctx \<Rightarrow> if frozen (log_of j db) then []
                          else report_entries w art mapped j ctx (length (log_of j db))))"
  using assms
proof (induction fs arbitrary: db)
  case (Cons f fs)
  obtain i ctx where f: "f = (i, ctx)" by (cases f)
  let ?new = "if frozen (log_of i db) then [] else report_entries w art mapped i ctx (length (log_of i db))"
  let ?db1 = "db\<lparr>ad_events := ad_events db @ ?new\<rparr>"
  have one: "append_front (\<lambda>_. True) w art mapped f db = Inr ?db1"
    using Cons.prems append_front_open[of db i] by (simp add: f append_front_frozen)
  have ok: "log_ok ?db1" using append_front_grows[OF one] Cons.prems(1) by (simp add: grows_def)
  have logs: "log_of j ?db1 = log_of j db @ (if j = i then ?new else [])" for j
    by (cases "i = j") (simp_all add: log_of_def report_entries_task)
  obtain db' where rest: "append_fronts (\<lambda>_. True) w art mapped fs ?db1 = Inr db'" "ad_rows db' = ad_rows ?db1"
    "ad_web db' = ad_web ?db1"
    and l: "\<And>j. log_of j db' = log_of j ?db1 @
           (case map_of fs j of
              None \<Rightarrow> []
            | Some ctx \<Rightarrow> if frozen (log_of j ?db1) then []
                          else report_entries w art mapped j ctx (length (log_of j ?db1)))"
    using Cons.IH[OF ok] Cons.prems(2,3) by auto
  have fresh: "map_of fs i = None" using Cons.prems(2) by (auto simp: f map_of_eq_None_iff)
  have "append_fronts (\<lambda>_. True) w art mapped (f # fs) db = Inr db'"
    by (simp only: append_fronts.simps one sum.case rest(1))
  moreover have "log_of j db' = log_of j db @
           (case map_of (f # fs) j of
              None \<Rightarrow> []
            | Some ctx \<Rightarrow> if frozen (log_of j db) then []
                          else report_entries w art mapped j ctx (length (log_of j db)))" for j
    using fresh unfolding l logs by (cases "j = i") (simp_all add: f split: option.split)
  ultimately show ?case using rest(2,3) by auto
qed simp

text \<open>
  A status report the database carries through reaches the log of every interface task that fronts the
  run, and no other log: an open log gets the review's artifact, where a succeeded run has one, and then the
  status, final exactly when the state is terminal; a log that has its final entry gets nothing.
\<close>

theorem report_reaches_every_front:
  assumes "log_ok db" "distinct (map ar_id (ad_rows db))"
  shows "\<exists>b db'. report_status (\<lambda>_. True) w now i status detail db = Inr (b, db')
    \<and> (\<forall>j. log_of j db' = log_of j db @
      (case map_of (fronts_of i (ad_rows db)) j of
         None \<Rightarrow> []
       | Some ctx \<Rightarrow> if frozen (log_of j db) then []
                     else report_entries w (run_artifact (ad_control db') i status)
                            (task_state_from_status (status_text status)) j ctx (length (log_of j db))))"
proof -
  obtain found ts snaps where
    s: "set_task_status now i status detail (cd_tasks (ad_control db), cd_snapshots (ad_control db)) = (found, ts, snaps)"
    by (rule prod_cases3)
  define v where "v = (ad_web db)\<lparr>wd_control := (ad_control db)\<lparr>cd_tasks := ts, cd_snapshots := snaps\<rparr>\<rparr>"
  let ?db = "db\<lparr>ad_web := v\<rparr>"
  let ?fs = "fronts_of i (ad_rows db)"
  let ?art = "run_artifact (wd_control v) i status"
  let ?mapped = "task_state_from_status (status_text status)"
  have art: "(if ?mapped = State_Completed then completed_artifact (\<lambda>_. True) i (ad_control ?db) else Inr None) = Inr ?art"
    by (cases status)
       (auto simp: task_state_from_status_def completed_artifact_def run_artifact_def review_artifacts_def Let_def
             split: option.splits)
  have "distinct (map fst ?fs)"
    using assms(2) by (auto simp: fronts_of_def comp_def distinct_map_filter)
  moreover have "list_all (\<lambda>f. list_ex (\<lambda>r. ar_id r = fst f) (ad_rows ?db)) ?fs"
    by (auto simp: fronts_of_def list_all_iff list_ex_iff)
  moreover have "log_ok ?db" using assms(1) by (simp add: log_ok_def)
  ultimately have "\<exists>db'. append_fronts (\<lambda>_. True) w ?art ?mapped ?fs ?db = Inr db' \<and> ad_rows db' = ad_rows ?db
    \<and> ad_web db' = ad_web ?db
    \<and> (\<forall>j. log_of j db' = log_of j ?db @
       (case map_of ?fs j of
          None \<Rightarrow> []
        | Some ctx \<Rightarrow> if frozen (log_of j ?db) then []
                      else report_entries w ?art ?mapped j ctx (length (log_of j ?db))))"
    by (intro append_fronts_open)
  then obtain db' where f: "append_fronts (\<lambda>_. True) w ?art ?mapped ?fs ?db = Inr db'" "ad_web db' = v"
    and logs: "\<forall>j. log_of j db' = log_of j db @
       (case map_of ?fs j of
          None \<Rightarrow> []
        | Some ctx \<Rightarrow> if frozen (log_of j db) then []
                      else report_entries w ?art ?mapped j ctx (length (log_of j db)))"
    unfolding log_of_web by auto
  have e: "append_transition_events (\<lambda>_. True) w i (status_text status) ?db = Inr db'"
  proof -
    have rows: "ad_rows ?db = ad_rows db" by simp
    show ?thesis
      unfolding append_transition_events_def Let_def rows art using f(1) by (cases "?fs = []") auto
  qed
  then have "report_status (\<lambda>_. True) w now i status detail db = Inr (found, db')"
    unfolding report_status_def Let_def s prod.case v_def[symmetric] by simp
  then show ?thesis using logs f(2) by blast
qed

section \<open>Samples\<close>

text \<open>A run with one interface task in front of it, for evaluating the properties on.\<close>

definition sample_wire :: wire where
  "sample_wire =
     \<lparr>wr_encode = (\<lambda>r. case r of
        Task_Frame t \<Rightarrow> JStr (at_id t)
      | Status_Update i ctx s \<Rightarrow> JArr [JStr i, JStr ctx, JStr (state_wire s)]
      | Artifact_Update i ctx a \<Rightarrow> JArr [JStr i, JStr ctx]),
      wr_decode = (\<lambda>v. case v of
        JArr [JStr i, JStr ctx, JStr s] \<Rightarrow> Some (Status_Update i ctx (state_from_wire s))
      | _ \<Rightarrow> None)\<rparr>"

definition sample_run :: task_row where
  "sample_run = fresh_row 0 ''u1'' sample_request 0 0 Running"

definition sample_web :: webhook_db where
  "sample_web = \<lparr>wd_control = \<lparr>cd_tasks = [sample_run], cd_snapshots = [],
       cd_repos = [\<lparr>re_id = 7, re_platform = GitHub, re_platform_repo_id = 70, re_owner = ''acme'', re_name = ''shop'',
         re_default_branch = ''main'', re_installation_id = Some 9, re_status = Approved, re_approved_at = Some 0,
         re_approved_by = Some ''admin''\<rparr>],
       cd_outbox = empty_outbox, cd_reviews = [], cd_comments = [], cd_feedback = [], cd_pending = empty_pending, cd_steps = [],
       cd_blobs = []\<rparr>,
     wd_next_repo = 8, wd_deliveries = [], wd_settings = [], wd_repo_models = [], wd_org_models = [], wd_purges = []\<rparr>"

definition sample_row :: a2a_row where
  "sample_row = \<lparr>ar_id = ''a1'', ar_context_id = ''c1'', ar_caller = ''agent'', ar_skill = ''review'',
     ar_underlying = Some ''u1'', ar_state = state_wire State_Submitted, ar_version = 1,
     ar_json = \<lparr>at_id = ''a1'', at_context_id = ''c1'', at_state = State_Submitted, at_artifacts = None,
                at_metadata = Some []\<rparr>,
     ar_created_at = 0, ar_updated_at = 0\<rparr>"

definition sample_entry :: "int \<Rightarrow> task_state \<Rightarrow> event_row" where
  "sample_entry n s = \<lparr>ev_task = ''a1'', ev_seq = n, ev_kind = ''status-update'', ev_state = Some (state_wire s),
     ev_final = is_terminal_state s, ev_payload = status_update_payload sample_wire ''a1'' ''c1'' s\<rparr>"

definition sample_db :: "event_row list \<Rightarrow> a2a_db" where
  "sample_db evs = \<lparr>ad_web = sample_web, ad_rows = [sample_row], ad_events = evs, ad_configs = []\<rparr>"

lemmas a2a_samples = sample_db_def sample_web_def sample_row_def sample_run_def sample_entry_def sample_wire_def

lemma log_ok_nil [simp]: "log_ok (sample_db [])"
  by (simp add: log_ok_def log_shape_def log_of_def sample_db_def)

lemma sample_parts [simp]:
  "ad_rows (sample_db evs) = [sample_row]" "ad_events (sample_db evs) = evs" "ad_configs (sample_db evs) = []"
  "ad_tasks (sample_db evs) = [sample_run]" "ar_id sample_row = ''a1''" "ar_caller sample_row = ''agent''"
  "ar_underlying sample_row = Some ''u1''" "ar_context_id sample_row = ''c1''"
  by (simp_all add: a2a_samples)

theorem report_reaches_every_front_witness:
  "\<exists>b db'. report_status (\<lambda>_. True) sample_wire 5 ''u1'' Failed None (sample_db []) = Inr (b, db')
    \<and> map ev_seq (log_of ''a1'' db') = [1] \<and> frozen (log_of ''a1'' db')"
proof -
  obtain b db' where r: "report_status (\<lambda>_. True) sample_wire 5 ''u1'' Failed None (sample_db []) = Inr (b, db')"
    and logs: "\<And>j. log_of j db' = log_of j (sample_db []) @
      (case map_of (fronts_of ''u1'' (ad_rows (sample_db []))) j of
         None \<Rightarrow> []
       | Some ctx \<Rightarrow> if frozen (log_of j (sample_db [])) then []
                     else report_entries sample_wire (run_artifact (ad_control db') ''u1'' Failed)
                            (task_state_from_status (status_text Failed)) j ctx (length (log_of j (sample_db []))))"
    using report_reaches_every_front[of "sample_db []" sample_wire 5 "''u1''" Failed None] by auto
  have l: "log_of ''a1'' db' = report_entries sample_wire None State_Failed ''a1'' ''c1'' 0"
    unfolding logs by (simp add: fronts_of_def log_of_def frozen_def run_artifact_def task_state_from_status_def)
  have "map ev_seq (log_of ''a1'' db') = [1] \<and> frozen (log_of ''a1'' db')"
    unfolding l by (simp add: report_entries_def entry_def frozen_def is_terminal_state_def)
  with r show ?thesis by metis
qed

end
