(* ===== verification/A2a_Store.thy ===== *)
theory A2a_Store
  imports A2a_Log
begin

text \<open>
  The store of interface tasks (\<open>a2a/store.rs\<close>): rows with a version that travels in the task's metadata, so
  that an update replaces only the version its caller read. Parsing a UUID and an integer are the
  libraries', parameters of the environment. The step runtime around the update is the pass-through one.
\<close>

section \<open>Errors, environment, metadata\<close>

datatype a2a_error =
  Invalid_Params string | Invalid_Request string | Internal string | Task_Not_Found string
| Task_Not_Cancelable string | Unsupported_Operation string

record a2a_env =
  ae_wire :: wire
  ae_uuid :: "string \<Rightarrow> string option"      \<comment> \<open>the canonical text of a UUID\<close>
  ae_i64 :: "string \<Rightarrow> int option"
  ae_float :: "string \<Rightarrow> int option"      \<comment> \<open>the double nearest a number's text, if integral and in range\<close>
  ae_debug :: "string \<Rightarrow> string"      \<comment> \<open>a string as its quoted literal\<close>
  ae_lower :: "string \<Rightarrow> string"

definition LB_CALLER :: string where "LB_CALLER = ''lb.callerId''"
definition LB_SKILL :: string where "LB_SKILL = ''lb.skill''"
definition LB_UNDERLYING :: string where "LB_UNDERLYING = ''lb.underlyingTaskId''"
definition LB_VERSION :: string where "LB_VERSION = ''lb.version''"

lemma meta_keys_differ [simp]:
  "LB_CALLER \<noteq> LB_SKILL" "LB_CALLER \<noteq> LB_UNDERLYING" "LB_CALLER \<noteq> LB_VERSION" "LB_SKILL \<noteq> LB_UNDERLYING"
  "LB_SKILL \<noteq> LB_VERSION" "LB_UNDERLYING \<noteq> LB_VERSION" "LB_SKILL \<noteq> LB_CALLER" "LB_UNDERLYING \<noteq> LB_CALLER"
  "LB_VERSION \<noteq> LB_CALLER" "LB_UNDERLYING \<noteq> LB_SKILL" "LB_VERSION \<noteq> LB_SKILL" "LB_VERSION \<noteq> LB_UNDERLYING"
  by (simp_all add: LB_CALLER_def LB_SKILL_def LB_UNDERLYING_def LB_VERSION_def)

definition drop_key :: "string \<Rightarrow> (string \<times> json) list \<Rightarrow> (string \<times> json) list" where
  "drop_key k m = filter (\<lambda>(k', _). k' \<noteq> k) m"

definition put_key :: "string \<Rightarrow> json \<Rightarrow> (string \<times> json) list \<Rightarrow> (string \<times> json) list" where
  "put_key k v m = drop_key k m @ [(k, v)]"

lemma lookup_drop_key [simp]: "al_lookup (drop_key k m) k' = (if k' = k then None else al_lookup m k')"
  by (induction m) (auto simp: drop_key_def)

lemma lookup_append: "al_lookup (m @ n) k = (case al_lookup m k of None \<Rightarrow> al_lookup n k | Some v \<Rightarrow> Some v)"
  by (induction m) auto

lemma lookup_put_key [simp]: "al_lookup (put_key k v m) k' = (if k' = k then Some v else al_lookup m k')"
  by (auto simp: put_key_def lookup_append split: option.split)

definition meta_get :: "a2a_task \<Rightarrow> string \<Rightarrow> json option" where
  "meta_get t k = Option.bind (at_metadata t) (\<lambda>m. al_lookup m k)"

definition meta_str :: "a2a_task \<Rightarrow> string \<Rightarrow> string option" where
  "meta_str t k = Option.bind (meta_get t k) as_str"

definition meta_i64 :: "a2a_env \<Rightarrow> a2a_task \<Rightarrow> string \<Rightarrow> int option" where
  "meta_i64 env t k =
     Option.bind (meta_get t k)
       (\<lambda>v. case as_i64 v of Some n \<Rightarrow> Some n | None \<Rightarrow> Option.bind (as_str v) (ae_i64 env))"

definition set_meta :: "string \<Rightarrow> json \<Rightarrow> a2a_task \<Rightarrow> a2a_task" where
  "set_meta k v t = t\<lparr>at_metadata := Some (put_key k v (case at_metadata t of None \<Rightarrow> [] | Some m \<Rightarrow> m))\<rparr>"

definition strip_meta :: "string \<Rightarrow> a2a_task \<Rightarrow> a2a_task" where
  "strip_meta k t = t\<lparr>at_metadata := map_option (drop_key k) (at_metadata t)\<rparr>"

lemma meta_get_set [simp]: "meta_get (set_meta k v t) k' = (if k' = k then Some v else meta_get t k')"
  by (simp add: meta_get_def set_meta_def split: option.split)

lemma meta_get_strip [simp]: "meta_get (strip_meta k t) k' = (if k' = k then None else meta_get t k')"
  by (cases "at_metadata t") (simp_all add: meta_get_def strip_meta_def)

lemma id_set_strip [simp]: "at_id (set_meta k v t) = at_id t" "at_id (strip_meta k t) = at_id t"
  "at_state (set_meta k v t) = at_state t" "at_state (strip_meta k t) = at_state t"
  by (simp_all add: set_meta_def strip_meta_def)

section \<open>Statements\<close>

definition conflict_error :: a2a_error where
  "conflict_error = Invalid_Request
     ''optimistic-concurrency conflict: the task was modified concurrently; re-read and retry''"

record mapping =
  mp_context_id :: string
  mp_skill :: string
  mp_underlying :: "string option"
  mp_state :: string

definition load_owned :: "a2a_row list \<Rightarrow> string \<Rightarrow> string \<Rightarrow> mapping option" where
  "load_owned rows i caller =
     map_option (\<lambda>r. \<lparr>mp_context_id = ar_context_id r, mp_skill = ar_skill r, mp_underlying = ar_underlying r,
                      mp_state = ar_state r\<rparr>)
       (find (\<lambda>r. ar_id r = i \<and> ar_caller r = caller) rows)"

definition count_recent :: "nat \<Rightarrow> a2a_row list \<Rightarrow> string \<Rightarrow> string \<Rightarrow> int \<Rightarrow> int" where
  "count_recent now rows caller skill window =
     int (length (filter (\<lambda>r. ar_caller r = caller \<and> ar_skill r = skill \<and> ar_state r \<noteq> ''TASK_STATE_REJECTED''
                              \<and> int now - window < int (ar_created_at r)) rows))"

definition linked_run :: "a2a_env \<Rightarrow> a2a_task \<Rightarrow> string option" where
  "linked_run env t = Option.bind (meta_str t LB_UNDERLYING) (ae_uuid env)"

definition run_exists :: "a2a_db \<Rightarrow> string option \<Rightarrow> bool" where
  "run_exists db u = (case u of None \<Rightarrow> True | Some i \<Rightarrow> id_taken (ad_tasks db) i)"

definition store_create ::
  "bool \<Rightarrow> a2a_env \<Rightarrow> nat \<Rightarrow> a2a_task \<Rightarrow> a2a_db \<Rightarrow> (a2a_error, int) result \<times> a2a_db" where
  "store_create up env now t db =
     (case ae_uuid env (at_id t) of
        None \<Rightarrow> (Inl (Invalid_Params ''a2a taskId must be a uuid''), db)
      | Some i \<Rightarrow>
     (case meta_str t LB_CALLER of
        None \<Rightarrow> (Inl (Internal ''a2a store: create without lb.callerId metadata''), db)
      | Some caller \<Rightarrow>
          (let skill = (case meta_str t LB_SKILL of Some s \<Rightarrow> s | None \<Rightarrow> ''review'');
               u = linked_run env t in
           if \<not> up then (Inl (Internal ''a2a store: create''), db)
           else if list_ex (\<lambda>r. ar_id r = i) (ad_rows db)
           then (Inl (Invalid_Request (''a2a task already exists: '' @ at_id t)), db)
           else if \<not> run_exists db u then (Inl (Internal ''a2a store: create''), db)
           else (Inr 1, db\<lparr>ad_rows := ad_rows db @
                  [\<lparr>ar_id = i, ar_context_id = at_context_id t, ar_caller = caller, ar_skill = skill,
                    ar_underlying = u, ar_state = state_wire (at_state t), ar_version = 1, ar_json = t,
                    ar_created_at = now, ar_updated_at = now\<rparr>]\<rparr>))))"

definition updated_row :: "nat \<Rightarrow> string option \<Rightarrow> a2a_task \<Rightarrow> a2a_row \<Rightarrow> a2a_row" where
  "updated_row now u t r =
     r\<lparr>ar_json := t, ar_state := state_wire (at_state t),
       ar_underlying := (case u of Some x \<Rightarrow> Some x | None \<Rightarrow> ar_underlying r),
       ar_version := ar_version r + 1, ar_updated_at := now\<rparr>"

definition store_update ::
  "bool \<Rightarrow> bool \<Rightarrow> a2a_env \<Rightarrow> nat \<Rightarrow> a2a_task \<Rightarrow> a2a_db \<Rightarrow> (a2a_error, int) result \<times> a2a_db" where
  "store_update up up_check env now t db =
     (case ae_uuid env (at_id t) of
        None \<Rightarrow> (Inl (Invalid_Params ''a2a taskId must be a uuid''), db)
      | Some i \<Rightarrow>
     (case meta_i64 env t LB_VERSION of
        None \<Rightarrow> (Inl (Internal ''a2a store: update without an expected version (call get first)''), db)
      | Some expected \<Rightarrow>
          (let u = linked_run env t;
               to_store = strip_meta LB_VERSION t;
               hit = (\<lambda>r. ar_id r = i \<and> ar_version r = expected) in
           if \<not> up then (Inl (Internal ''a2a store: update''), db)
           else if list_ex hit (ad_rows db)
           then (if run_exists db u
                 then (Inr (expected + 1), db\<lparr>ad_rows := update_where hit (updated_row now u to_store) (ad_rows db)\<rparr>)
                 else (Inl (Internal ''a2a store: update''), db))
           else if \<not> up_check then (Inl (Internal ''a2a store: exists check''), db)
           else if list_ex (\<lambda>r. ar_id r = i) (ad_rows db) then (Inl conflict_error, db)
           else (Inl (Task_Not_Found i), db))))"

definition store_get :: "bool \<Rightarrow> a2a_env \<Rightarrow> string \<Rightarrow> a2a_db \<Rightarrow> (a2a_error, a2a_task option) result" where
  "store_get up env task_id db =
     (case ae_uuid env task_id of
        None \<Rightarrow> Inr None
      | Some i \<Rightarrow>
          if \<not> up then Inl (Internal ''a2a store: get'')
          else Inr (map_option
            (\<lambda>r. let t = set_meta LB_VERSION (JInt (ar_version r)) (ar_json r) in
                 case ar_underlying r of
                   Some u \<Rightarrow> set_meta LB_UNDERLYING (JStr u) t
                 | None \<Rightarrow> strip_meta LB_UNDERLYING t)
            (find (\<lambda>r. ar_id r = i) (ad_rows db))))"

text \<open>The newest first; a missing filter matches everything.\<close>

definition store_list :: "string option \<Rightarrow> task_state option \<Rightarrow> a2a_db \<Rightarrow> a2a_task list" where
  "store_list context status db =
     map ar_json (rev (sort_key (\<lambda>r. (ar_created_at r, ar_id r))
       (filter (\<lambda>r. (context = None \<or> Some (ar_context_id r) = context)
                  \<and> (status = None \<or> Some (ar_state r) = map_option state_wire status)) (ad_rows db))))"

section \<open>No update is lost\<close>

text \<open>A write of another replica between a read and an update.\<close>

datatype store_write = Creates nat a2a_task | Updates nat a2a_task

fun apply_write :: "a2a_env \<Rightarrow> store_write \<Rightarrow> a2a_db \<Rightarrow> a2a_db" where
  "apply_write env (Creates now t) db = snd (store_create True env now t db)"
| "apply_write env (Updates now t) db = snd (store_update True True env now t db)"

definition same_or_newer :: "a2a_row \<Rightarrow> a2a_row \<Rightarrow> bool" where
  "same_or_newer r r' \<longleftrightarrow> r' = r \<or> ar_version r < ar_version r'"

lemma row_of_update_where:
  assumes "\<And>r. key (f r) = key r"
  shows "row_of key (update_where P f rs) k = map_option (\<lambda>r. if P r then f r else r) (row_of key rs k)"
  by (induction rs) (auto simp: row_of_def update_where_def assms)

lemma updated_row_id [simp]: "ar_id (updated_row now u t r) = ar_id r" "ar_caller (updated_row now u t r) = ar_caller r"
  by (simp_all add: updated_row_def)

lemma apply_write_row:
  assumes "row_of ar_id (ad_rows db) i = Some r"
  shows "\<exists>r'. row_of ar_id (ad_rows (apply_write env w db)) i = Some r' \<and> same_or_newer r r'"
proof (cases w)
  case (Creates now t)
  then show ?thesis
    using assms by (auto simp: store_create_def Let_def row_of_append same_or_newer_def split: option.splits)
next
  case (Updates now t)
  have "row_of ar_id (update_where P (updated_row now u t') (ad_rows db)) i
      = Some (if P r then updated_row now u t' r else r)" for P u t'
    using assms by (simp add: row_of_update_where)
  moreover have "same_or_newer r (if b then updated_row now u t' r else r)" for b u t'
    by (simp add: same_or_newer_def updated_row_def)
  ultimately show ?thesis
    using assms unfolding Updates apply_write.simps store_update_def Let_def
    by (auto simp: same_or_newer_def split: option.splits)
qed

lemma apply_writes_row:
  assumes "row_of ar_id (ad_rows db) i = Some r"
  shows "\<exists>r'. row_of ar_id (ad_rows (fold (apply_write env) ws db)) i = Some r' \<and> same_or_newer r r'"
  using assms
proof (induction ws arbitrary: db r)
  case Nil
  then show ?case by (simp add: same_or_newer_def)
next
  case (Cons w ws)
  obtain r1 where 1: "row_of ar_id (ad_rows (apply_write env w db)) i = Some r1" "same_or_newer r r1"
    using apply_write_row[OF Cons.prems] by blast
  obtain r2 where "row_of ar_id (ad_rows (fold (apply_write env) (w # ws) db)) i = Some r2" "same_or_newer r1 r2"
    using Cons.IH[OF 1(1)] by auto
  then show ?case using 1(2) by (auto simp: same_or_newer_def)
qed

lemma apply_write_ids:
  "distinct (map ar_id (ad_rows db)) \<Longrightarrow> distinct (map ar_id (ad_rows (apply_write env w db)))"
proof (cases w)
  case (Creates now t)
  then show "distinct (map ar_id (ad_rows db)) \<Longrightarrow> ?thesis"
    by (auto simp: store_create_def Let_def list_ex_iff split: option.splits)
next
  case (Updates now t)
  have "map ar_id (update_where P (updated_row now u t') rs) = map ar_id rs" for P u t' rs
    by (simp add: update_where_def)
  then show "distinct (map ar_id (ad_rows db)) \<Longrightarrow> ?thesis"
    by (auto simp: Updates store_update_def Let_def split: option.splits)
qed

lemma apply_writes_ids:
  "distinct (map ar_id (ad_rows db)) \<Longrightarrow> distinct (map ar_id (ad_rows (fold (apply_write env) ws db)))"
  by (induction ws arbitrary: db) (auto simp: apply_write_ids)

text \<open>
  Optimistic concurrency: an update that carries the version stamped by a read is accepted only if no
  replica changed the row since that read, whatever creates and updates ran in between; what it replaces is
  the row that was read, and the version it answers is the next one.
\<close>

theorem no_lost_update:
  assumes "distinct (map ar_id (ad_rows db))" "ae_uuid env tid = Some i"
    "store_get True env tid db = Inr (Some t)"
    "at_id t' = tid" "meta_i64 env t' LB_VERSION = meta_i64 env t LB_VERSION"
    "store_update up up_check env now t' (fold (apply_write env) ws db) = (Inr v, db')"
  shows "row_of ar_id (ad_rows (fold (apply_write env) ws db)) i = row_of ar_id (ad_rows db) i
    \<and> meta_i64 env t LB_VERSION = Some (v - 1)"
proof -
  let ?db = "fold (apply_write env) ws db"
  obtain r where r: "row_of ar_id (ad_rows db) i = Some r" and version: "meta_i64 env t LB_VERSION = Some (ar_version r)"
    using assms(2,3)
    by (auto simp: store_get_def row_of_def meta_i64_def Let_def split: option.splits)
  obtain r' where r': "row_of ar_id (ad_rows ?db) i = Some r'" "same_or_newer r r'"
    using apply_writes_row[OF r] by blast
  have ids: "distinct (map ar_id (ad_rows ?db))" by (rule apply_writes_ids[OF assms(1)])
  have "list_ex (\<lambda>x. ar_id x = i \<and> ar_version x = ar_version r) (ad_rows ?db)" and v: "v = ar_version r + 1"
    using assms(2,4-6) version by (auto simp: store_update_def Let_def split: if_splits)
  then obtain x where x: "x \<in> set (ad_rows ?db)" "ar_id x = i" "ar_version x = ar_version r"
    by (auto simp: list_ex_iff)
  have "r' \<in> set (ad_rows ?db)" "ar_id r' = i" using r'(1) by (auto simp: row_of_def find_Some_iff)
  then have "x = r'" using ids x(1,2) by (auto simp: distinct_map inj_on_def)
  then have "r' = r" using r'(2) x(3) by (simp add: same_or_newer_def)
  then show ?thesis using r r'(1) v version by simp
qed

section \<open>Samples\<close>

definition sample_env :: a2a_env where
  "sample_env = \<lparr>ae_wire = sample_wire, ae_uuid = Some, ae_i64 = (\<lambda>_. None), ae_float = (\<lambda>_. None),
     ae_debug = id, ae_lower = id\<rparr>"

definition other_task :: a2a_task where
  "other_task = \<lparr>at_id = ''a2'', at_context_id = ''c2'', at_state = State_Submitted, at_artifacts = None,
     at_metadata = Some [(LB_CALLER, JStr ''agent'')]\<rparr>"

definition read_task :: a2a_task where
  "read_task = set_meta LB_UNDERLYING (JStr ''u1'') (set_meta LB_VERSION (JInt 1) (ar_json sample_row))"

lemma sample_env_parts [simp]:
  "ae_wire sample_env = sample_wire" "ae_uuid sample_env = Some" "ae_lower sample_env = id"
  by (simp_all add: sample_env_def)

theorem no_lost_update_witness:
  "row_of ar_id (ad_rows (apply_write sample_env (Creates 3 other_task) (sample_db []))) ''a1'' = Some sample_row"
proof -
  let ?db = "fold (apply_write sample_env) [Creates 3 other_task] (sample_db [])"
  have get: "store_get True sample_env ''a1'' (sample_db []) = Inr (Some read_task)"
    by (simp add: store_get_def read_task_def sample_row_def Let_def)
  have "meta_i64 sample_env read_task LB_VERSION = Some 1" "at_id read_task = ''a1''"
    "linked_run sample_env read_task = Some ''u1''"
    by (simp_all add: read_task_def meta_i64_def linked_run_def meta_str_def sample_row_def)
  moreover have "list_ex (\<lambda>r. ar_id r = ''a1'' \<and> ar_version r = 1) (ad_rows ?db)" "run_exists ?db (Some ''u1'')"
    by (simp_all add: store_create_def other_task_def meta_str_def meta_get_def linked_run_def run_exists_def
        Let_def id_taken_def sample_row_def sample_run_def fresh_row_def)
  ultimately obtain db' where
    "store_update True True sample_env 4 read_task ?db = (Inr 2, db')"
    by (simp add: store_update_def Let_def)
  from no_lost_update[OF _ _ get _ _ this] show ?thesis
    by (simp add: read_task_def sample_row_def row_of_def)
qed

end
