(* ===== verification/A2a_Handler.thy ===== *)
theory A2a_Handler
  imports A2a_Store
begin

text \<open>
  The agent-to-agent requests on tasks (\<open>a2a/handler.rs\<close>, \<open>a2a/handler/lifecycle.rs\<close>, the parsing half of
  \<open>a2a/mapping.rs\<close>): submitting a review behind its gates, reading a task, cancelling it. A request names the
  statements the database answers, its fresh ids and what other requests do while it runs. Logs are left out.
\<close>

section \<open>Review requests\<close>

datatype parse_error = No_Target_Data | Unsupported_Skill string | Bad_Field string

record review_input =
  ri_platform :: platform
  ri_owner :: string
  ri_name :: string
  ri_pr :: int
  ri_prompt :: string
  ri_base_sha :: "string option"
  ri_head_sha :: "string option"

fun parse_error_text :: "a2a_env \<Rightarrow> parse_error \<Rightarrow> string" where
  "parse_error_text env No_Target_Data =
     ''no structured `data` part with the review target: an A2A review needs the precise target in a `data` part ''
     @ [CHR 0xE2, CHR 0x80, CHR 0x94]
     @ '' at minimum `repo` (\"owner/name\"), `pr`, and `headSha`. A natural-language `text` part sets the review's emphasis only, never its target or scope. See docs/a2a-review-skill.md.''"
| "parse_error_text env (Unsupported_Skill skill) =
     ''unsupported skill '' @ ae_debug env skill @ ''; only `review` is available in this phase''"
| "parse_error_text env (Bad_Field f) = ''missing or invalid field: '' @ f"

definition DEFAULT_REVIEW_PROMPT :: string where "DEFAULT_REVIEW_PROMPT = ''Deep review requested via A2A.''"

fun data_object :: "part \<Rightarrow> (string \<times> json) list option" where
  "data_object (Data_Part (JObj m) _) = Some m"
| "data_object _ = None"

fun as_text :: "part \<Rightarrow> string option" where
  "as_text (Text_Part s) = Some s"
| "as_text _ = None"

definition first_data_object :: "part list \<Rightarrow> (string \<times> json) list option" where
  "first_data_object parts = (case List.map_filter data_object parts of [] \<Rightarrow> None | m # _ \<Rightarrow> Some m)"

definition collect_text_instruction :: "part list \<Rightarrow> string option" where
  "collect_text_instruction parts =
     (let t = trim (join_with nl (List.map_filter as_text parts)) in if t = [] then None else Some t)"

definition split_repo :: "string \<Rightarrow> (string \<times> string) option" where
  "split_repo repo =
     (case split_once ''/'' repo of
        None \<Rightarrow> None
      | Some (owner, name) \<Rightarrow> if owner = [] \<or> name = [] \<or> CHR ''/'' \<in> set name then None else Some (owner, name))"

definition trimmed_text :: "json \<Rightarrow> string option" where
  "trimmed_text v = Option.bind (as_str v) (\<lambda>s. if trim s = [] then None else Some (trim s))"

definition opt_sha :: "(string \<times> json) list \<Rightarrow> string \<Rightarrow> string \<Rightarrow> string option" where
  "opt_sha m camel snake =
     Option.bind (case al_lookup m camel of Some v \<Rightarrow> Some v | None \<Rightarrow> al_lookup m snake) trimmed_text"

definition json_to_i64 :: "a2a_env \<Rightarrow> json \<Rightarrow> int option" where
  "json_to_i64 env v =
     (case as_i64 v of
        Some n \<Rightarrow> Some n
      | None \<Rightarrow> (case v of
                   JStr s \<Rightarrow> ae_i64 env (trim s)
                 | JFloat s \<Rightarrow> ae_float env s
                 | JInt n \<Rightarrow> ae_float env (dec_int n)
                 | _ \<Rightarrow> None))"

definition text_or :: "(string \<times> json) list \<Rightarrow> string \<Rightarrow> string \<Rightarrow> string" where
  "text_or m k dflt = (case Option.bind (al_lookup m k) as_str of Some s \<Rightarrow> s | None \<Rightarrow> dflt)"

definition parse_review_request :: "a2a_env \<Rightarrow> part list \<Rightarrow> (parse_error, review_input) result" where
  "parse_review_request env parts =
     (case first_data_object parts of
        None \<Rightarrow> Inl No_Target_Data
      | Some m \<Rightarrow>
          (let skill = text_or m ''skill'' ''review'' in
           if skill \<noteq> ''review'' then Inl (Unsupported_Skill skill)
           else case platform_parse (text_or m ''forge'' ''github'') of
             None \<Rightarrow> Inl (Bad_Field ''forge'')
           | Some p \<Rightarrow>
          (case Option.bind (map_option trim (Option.bind (al_lookup m ''repo'') as_str)) split_repo of
             None \<Rightarrow> Inl (Bad_Field ''repo'')
           | Some (owner, name) \<Rightarrow>
          (case Option.bind (al_lookup m ''pr'') (json_to_i64 env) of
             None \<Rightarrow> Inl (Bad_Field ''pr'')
           | Some pr \<Rightarrow>
               if pr \<le> 0 then Inl (Bad_Field ''pr'')
               else Inr \<lparr>ri_platform = p, ri_owner = owner, ri_name = name, ri_pr = pr,
                 ri_prompt = (case collect_text_instruction parts of
                                Some t \<Rightarrow> t
                              | None \<Rightarrow> (case Option.bind (al_lookup m ''prompt'') trimmed_text of
                                           Some t \<Rightarrow> t | None \<Rightarrow> DEFAULT_REVIEW_PROMPT)),
                 ri_base_sha = opt_sha m ''baseSha'' ''base_sha'',
                 ri_head_sha = opt_sha m ''headSha'' ''head_sha''\<rparr>))))"

section \<open>Requests\<close>

definition HDR_CALLER :: string where "HDR_CALLER = ''x-lb-a2a-caller''"
definition HDR_PERMS :: string where "HDR_PERMS = ''x-lb-a2a-perms''"
definition REVIEW_PERMISSION :: string where "REVIEW_PERMISSION = ''a2a:review''"
definition SKILL_REVIEW :: string where "SKILL_REVIEW = ''review''"

record caller =
  cl_id :: string
  cl_perms :: "string list"

type_synonym service_params = "(string \<times> string list) list"

definition first_param :: "service_params \<Rightarrow> string \<Rightarrow> string option" where
  "first_param ps k = (case al_lookup ps k of Some (v # _) \<Rightarrow> Some v | _ \<Rightarrow> None)"

definition caller_of :: "service_params \<Rightarrow> (a2a_error, caller) result" where
  "caller_of ps =
     (case first_param ps HDR_CALLER of
        None \<Rightarrow> Inl (Internal ''a2a: missing authenticated caller'')
      | Some i \<Rightarrow>
          if i = [] then Inl (Internal ''a2a: missing authenticated caller'')
          else Inr \<lparr>cl_id = i,
                cl_perms = (case first_param ps HDR_PERMS of
                              None \<Rightarrow> []
                            | Some joined \<Rightarrow> filter (\<lambda>s. s \<noteq> []) (split_on CHR '','' joined))\<rparr>)"

datatype a2a_query =
  A_Owned | A_Quota | A_Repo | A_Repo_Model | A_Org_Model | A_Settings | A_Delivery | A_Create | A_Find | A_Insert
| A_Task | A_Review | A_Cancel | A_Get | A_Update | A_Check | A_Count | A_Config | A_Log log_query

record a2a_run =
  ax_up :: "a2a_query \<Rightarrow> bool"
  ax_now :: nat
  ax_task_id :: string
  ax_context_id :: string
  ax_run_id :: string
  ax_race :: "a2a_db \<Rightarrow> a2a_db"     \<comment> \<open>what other requests do after the quota, or a cancelled task's state, is read\<close>

record quota_config =
  qc_max :: int
  qc_window_secs :: int

definition quota_from :: "(string \<Rightarrow> int option) \<Rightarrow> (string \<Rightarrow> string option) \<Rightarrow> quota_config" where
  "quota_from parse_i64 env =
     (let get = (\<lambda>name dflt. case Option.bind (env name) parse_i64 of Some n \<Rightarrow> n | None \<Rightarrow> dflt)
      in \<lparr>qc_max = max (get ''A2A_QUOTA_MAX'' 20) 1, qc_window_secs = max (get ''A2A_QUOTA_WINDOW_SECS'' 3600) 1\<rparr>)"

record message =
  ms_tenant :: "string option"
  ms_context_id :: "string option"
  ms_parts :: "part list"

definition db_error :: a2a_error where "db_error = Internal ''internal error''"

definition build_task_view ::
  "string \<Rightarrow> string \<Rightarrow> task_state \<Rightarrow> artifact list option \<Rightarrow> (string \<times> json) list option \<Rightarrow> a2a_task" where
  "build_task_view i ctx s arts meta =
     \<lparr>at_id = i, at_context_id = ctx, at_state = s, at_artifacts = arts, at_metadata = meta\<rparr>"

definition client_view :: "a2a_task \<Rightarrow> a2a_task" where
  "client_view t =
     t\<lparr>at_metadata := (case at_metadata t of
                         None \<Rightarrow> None
                       | Some m \<Rightarrow> (let m' = drop_key LB_SKILL (drop_key LB_CALLER m) in
                                   if m' = [] then None else Some m'))\<rparr>"

definition rejection_metadata :: "caller \<Rightarrow> string \<Rightarrow> (string \<times> json) list" where
  "rejection_metadata c reason = [(LB_CALLER, JStr (cl_id c)), (''lb.rejectionReason'', JStr reason)]"

definition submitted_metadata :: "caller \<Rightarrow> string \<Rightarrow> (string \<times> json) list" where
  "submitted_metadata c u = [(LB_CALLER, JStr (cl_id c)), (LB_UNDERLYING, JStr u)]"

section \<open>Submitting\<close>

definition reject ::
  "a2a_env \<Rightarrow> a2a_run \<Rightarrow> caller \<Rightarrow> string \<Rightarrow> string \<Rightarrow> a2a_db \<Rightarrow> (a2a_error, a2a_task) result \<times> a2a_db" where
  "reject env run c ctx reason db =
     (let stored = set_meta LB_SKILL (JStr SKILL_REVIEW)
            (build_task_view (ax_task_id run) ctx State_Rejected None (Some (rejection_metadata c reason)));
          db' = (case store_create (ax_up run A_Insert) env (ax_now run) stored db of
                   (Inl _, d) \<Rightarrow> d
                 | (Inr _, d) \<Rightarrow>
                     (case ae_uuid env (ax_task_id run) of
                        None \<Rightarrow> d
                      | Some i \<Rightarrow>
                          (case append_terminal_status (\<lambda>q. ax_up run (A_Log q)) (ae_wire env) i ctx
                                  State_Rejected None d of
                             Inl _ \<Rightarrow> d | Inr d' \<Rightarrow> d')))
      in (Inr (client_view stored), db'))"

definition review_task ::
  "a2a_run \<Rightarrow> review_input \<Rightarrow> int \<Rightarrow> int \<Rightarrow> a2a_db \<Rightarrow> new_task" where
  "review_task run inp repo installation db =
     (let w = ad_web db;
          settings = resolve_repo_settings_db_only (ax_up run A_Settings) (wd_settings w) repo in
      \<lparr>nt_repository_id = repo, nt_installation_id = installation, nt_delivery_id = ''a2a:'' @ ax_task_id run,
       nt_target_type = PULL_REQUEST, nt_target_id = ri_pr inp, nt_command = ri_prompt inp,
       nt_base_sha = ri_base_sha inp, nt_head_sha = ri_head_sha inp, nt_run_epoch = 0,
       nt_preset = platform_default_preset A2a, nt_entry_point = entry_text A2a, nt_trigger_comment_id = None,
       nt_trace_context = None,
       nt_model_override = resolve_model_override (ax_up run A_Repo_Model) (ax_up run A_Org_Model)
                             (wd_repo_models w) (wd_org_models w) repo installation,
       nt_check_runs_enabled = so_value (rs_check_run_reporting settings), nt_run_after_secs = None\<rparr>)"

definition provenance :: "a2a_run \<Rightarrow> caller \<Rightarrow> review_input \<Rightarrow> json" where
  "provenance run c inp =
     JObj [(''source'', JStr ''a2a''), (''caller'', JStr (cl_id c)), (''skill'', JStr SKILL_REVIEW),
           (''repo'', JStr (ri_owner inp @ ''/'' @ ri_name inp)), (''pr'', JInt (ri_pr inp)),
           (''a2a_task_id'', JStr (ax_task_id run))]"

text \<open>The run of an accepted request: a new task, or the one that holds its natural key already.\<close>

definition underlying_run ::
  "a2a_run \<Rightarrow> new_task \<Rightarrow> a2a_db \<Rightarrow> (a2a_error, string) result \<times> a2a_db" where
  "underlying_run run nt db =
     (if \<not> ax_up run A_Create then (Inl db_error, db)
      else case create_task (ax_now run) (ax_run_id run) nt (ad_tasks db) of
        Inl _ \<Rightarrow> (Inl db_error, db)
      | Inr (Some u, ts) \<Rightarrow> (Inr u, with_rows_of ts db)
      | Inr (None, ts) \<Rightarrow>
          if \<not> ax_up run A_Find then (Inl db_error, db)
          else (case find_task_id_by_idempotency (ad_tasks db) nt of
                  None \<Rightarrow> (Inl (Internal ''a2a: create dedup'd but no existing task was found''), db)
                | Some u \<Rightarrow> (Inr u, db)))"

definition launch_review ::
  "a2a_env \<Rightarrow> a2a_run \<Rightarrow> caller \<Rightarrow> string \<Rightarrow> review_input \<Rightarrow> int \<Rightarrow> int \<Rightarrow> a2a_db
   \<Rightarrow> (a2a_error, a2a_task) result \<times> a2a_db" where
  "launch_review env run c ctx inp repo installation db =
     (let nt = review_task run inp repo installation db in
      if \<not> ax_up run A_Delivery then (Inl db_error, db)
      else
        (let w = ad_web db;
             ds = snd (record_delivery (ax_now run) (ri_platform inp) (nt_delivery_id nt) ''a2a.review''
                         (provenance run c inp) (wd_deliveries w));
             db1 = db\<lparr>ad_web := w\<lparr>wd_deliveries := ds\<rparr>\<rparr>
         in case underlying_run run nt db1 of
              (Inl e, db2) \<Rightarrow> (Inl e, db2)
            | (Inr u, db2) \<Rightarrow>
                (let stored = set_meta LB_UNDERLYING (JStr u) (set_meta LB_SKILL (JStr SKILL_REVIEW)
                       (build_task_view (ax_task_id run) ctx State_Submitted None (Some (submitted_metadata c u))))
                 in case store_create (ax_up run A_Insert) env (ax_now run) stored db2 of
                      (Inl e, db3) \<Rightarrow> (Inl e, db3)
                    | (Inr _, db3) \<Rightarrow> (Inr (client_view stored), db3))))"

definition submit_review ::
  "a2a_env \<Rightarrow> quota_config \<Rightarrow> a2a_run \<Rightarrow> caller \<Rightarrow> message \<Rightarrow> a2a_db
   \<Rightarrow> (a2a_error, a2a_task) result \<times> a2a_db" where
  "submit_review env quota run c req db =
     (if ms_tenant req \<noteq> None then (Inl (Unsupported_Operation ''multi-tenant A2A requests are not supported''), db)
      else let ctx = (case ms_context_id req of Some x \<Rightarrow> x | None \<Rightarrow> ax_context_id run) in
      case parse_review_request env (ms_parts req) of
        Inl (Unsupported_Skill skill) \<Rightarrow> (Inl (Unsupported_Operation (parse_error_text env (Unsupported_Skill skill))), db)
      | Inl err \<Rightarrow> (Inl (Invalid_Params (parse_error_text env err)), db)
      | Inr inp \<Rightarrow>
          if REVIEW_PERMISSION \<notin> set (cl_perms c)
          then reject env run c ctx ''caller lacks the a2a:review permission'' db
          else if \<not> ax_up run A_Quota then (Inl db_error, db)
          else if qc_max quota \<le> count_recent (ax_now run) (ad_rows db) (cl_id c) SKILL_REVIEW (qc_window_secs quota)
          then reject env run c ctx ''per-identity deep-run quota exceeded'' db
          else (let db0 = ax_race run db in
          if \<not> ax_up run A_Repo then (Inl db_error, db0)
          else case find_repository (ae_lower env) (ri_platform inp) (ri_owner inp) (ri_name inp) (wd_repos (ad_web db0)) of
            None \<Rightarrow> reject env run c ctx ''repository is not connected to Lightbridge'' db0
          | Some (repo, installation_id, status) \<Rightarrow>
              if status \<noteq> Approved
              then reject env run c ctx ''repository is not approved (awaiting admin approval)'' db0
              else (case installation_id of
                      None \<Rightarrow> reject env run c ctx
                                ''repository is connected but not fully provisioned (no installation)'' db0
                    | Some installation \<Rightarrow>
                        if ri_head_sha inp = None
                        then reject env run c ctx ''A2A review requires an explicit headSha; this server cannot resolve a PR head without forge credentials'' db0
                        else launch_review env run c ctx inp repo installation db0)))"

definition send_message ::
  "a2a_env \<Rightarrow> quota_config \<Rightarrow> a2a_run \<Rightarrow> service_params \<Rightarrow> message \<Rightarrow> a2a_db
   \<Rightarrow> (a2a_error, a2a_task) result \<times> a2a_db" where
  "send_message env quota run ps req db =
     (case caller_of ps of Inl e \<Rightarrow> (Inl e, db) | Inr c \<Rightarrow> submit_review env quota run c req db)"

section \<open>Reading and cancelling\<close>

definition current_state :: "a2a_run \<Rightarrow> mapping \<Rightarrow> a2a_db \<Rightarrow> (a2a_error, task_state \<times> task_row option) result" where
  "current_state run m db =
     (case mp_underlying m of
        None \<Rightarrow> Inr (state_from_wire (mp_state m), None)
      | Some u \<Rightarrow>
          if \<not> ax_up run A_Task then Inl db_error
          else (let row = get_row (ad_tasks db) u
                in Inr (case row of
                          Some t \<Rightarrow> task_state_from_status (status_text (tk_status t))
                        | None \<Rightarrow> state_from_wire (mp_state m), row)))"

definition underlying_metadata :: "mapping \<Rightarrow> (string \<times> json) list option" where
  "underlying_metadata m = map_option (\<lambda>u. [(LB_UNDERLYING, JStr u)]) (mp_underlying m)"

definition build_task_snapshot :: "a2a_run \<Rightarrow> string \<Rightarrow> mapping \<Rightarrow> a2a_db \<Rightarrow> (a2a_error, a2a_task) result" where
  "build_task_snapshot run i m db =
     (case current_state run m db of
        Inl e \<Rightarrow> Inl e
      | Inr (s, row) \<Rightarrow>
          (case (if s = State_Completed then
                   (case mp_underlying m of
                      None \<Rightarrow> Inr None
                    | Some u \<Rightarrow>
                        if \<not> ax_up run A_Review then Inl db_error
                        else Inr (map_option (\<lambda>rw. review_artifacts (rw_summary rw) (rw_findings rw)
                                    (review_context (ad_control db) row (rw_review_url rw)))
                                  (get_review (cd_reviews (ad_control db)) u)))
                 else Inr None) of
             Inl e \<Rightarrow> Inl e
           | Inr arts \<Rightarrow> Inr (build_task_view i (mp_context_id m) s arts (underlying_metadata m))))"

text \<open>Every request on a task starts from the row the caller owns; anything else is not found.\<close>

definition owned_task ::
  "a2a_env \<Rightarrow> a2a_run \<Rightarrow> caller \<Rightarrow> string \<Rightarrow> a2a_db \<Rightarrow> (a2a_error, string \<times> mapping) result" where
  "owned_task env run c raw db =
     (case ae_uuid env raw of
        None \<Rightarrow> Inl (Task_Not_Found raw)
      | Some i \<Rightarrow>
          if \<not> ax_up run A_Owned then Inl db_error
          else (case load_owned (ad_rows db) i (cl_id c) of
                  None \<Rightarrow> Inl (Task_Not_Found raw)
                | Some m \<Rightarrow> Inr (i, m)))"

definition handle_get_task ::
  "a2a_env \<Rightarrow> a2a_run \<Rightarrow> service_params \<Rightarrow> string \<Rightarrow> a2a_db \<Rightarrow> (a2a_error, a2a_task) result" where
  "handle_get_task env run ps raw db =
     (case caller_of ps of
        Inl e \<Rightarrow> Inl e
      | Inr c \<Rightarrow> (case owned_task env run c raw db of
                   Inl e \<Rightarrow> Inl e
                 | Inr (i, m) \<Rightarrow> build_task_snapshot run raw m db))"

definition cancel_snapshot :: "a2a_env \<Rightarrow> a2a_run \<Rightarrow> string \<Rightarrow> a2a_db \<Rightarrow> a2a_db" where
  "cancel_snapshot env run raw db =
     (case store_get (ax_up run A_Get) env raw db of
        Inr (Some t) \<Rightarrow> snd (store_update (ax_up run A_Update) (ax_up run A_Check) env (ax_now run)
                               (t\<lparr>at_state := State_Canceled\<rparr>) db)
      | _ \<Rightarrow> db)"

definition handle_cancel_task ::
  "a2a_env \<Rightarrow> a2a_run \<Rightarrow> service_params \<Rightarrow> string \<Rightarrow> a2a_db \<Rightarrow> (a2a_error, a2a_task) result \<times> a2a_db" where
  "handle_cancel_task env run ps raw db =
     (case caller_of ps of
        Inl e \<Rightarrow> (Inl e, db)
      | Inr c \<Rightarrow>
     (case owned_task env run c raw db of
        Inl e \<Rightarrow> (Inl e, db)
      | Inr (i, m) \<Rightarrow>
     (case current_state run m db of
        Inl e \<Rightarrow> (Inl e, db)
      | Inr (s, _) \<Rightarrow>
          if is_terminal_state s then (Inl (Task_Not_Cancelable raw), db)
          else if mp_underlying m \<noteq> None \<and> \<not> ax_up run A_Cancel then (Inl db_error, db)
          else (let db0 = ax_race run db;
                    db1 = (case mp_underlying m of
                             None \<Rightarrow> db0
                           | Some u \<Rightarrow> with_rows_of (snd (cancel_task_by_id (ax_now run) u (ad_tasks db0))) db0);
                    db2 = cancel_snapshot env run raw db1;
                    db3 = (case append_terminal_status (\<lambda>q. ax_up run (A_Log q)) (ae_wire env) i
                                  (mp_context_id m) State_Canceled (mp_underlying m) db2 of
                             Inl _ \<Rightarrow> db2 | Inr d \<Rightarrow> d)
                in (Inr (build_task_view raw (mp_context_id m) State_Canceled None (underlying_metadata m)), db3)))))"

definition handle_list_tasks :: "service_params \<Rightarrow> (a2a_error, a2a_task list) result" where
  "handle_list_tasks ps = Inl (Unsupported_Operation ''ListTasks is not supported in this phase'')"

section \<open>Samples\<close>

text \<open>A request of the caller \<open>c\<close> that the database answers throughout.\<close>

definition sample_params :: "string \<Rightarrow> service_params" where
  "sample_params c = [(HDR_CALLER, [c]), (HDR_PERMS, [REVIEW_PERMISSION])]"

definition calm_call :: a2a_run where
  "calm_call = \<lparr>ax_up = (\<lambda>_. True), ax_now = 100, ax_task_id = ''a9'', ax_context_id = ''c9'', ax_run_id = ''u9'',
     ax_race = id\<rparr>"

lemma calm_call_parts [simp]:
  "ax_up calm_call q" "ax_now calm_call = 100" "ax_task_id calm_call = ''a9''" "ax_run_id calm_call = ''u9''"
  "ax_race calm_call = id" "ax_context_id calm_call = ''c9''"
  by (simp_all add: calm_call_def)

lemma caller_of_sample:
  "c \<noteq> [] \<Longrightarrow> \<exists>perms. caller_of (sample_params c) = Inr \<lparr>cl_id = c, cl_perms = perms\<rparr>"
  by (simp add: caller_of_def sample_params_def first_param_def HDR_CALLER_def)

end
