(* ===== verification/A2a_Stream.thy ===== *)
theory A2a_Stream
  imports A2a_Handler
begin

text \<open>
  The live stream of a task (\<open>a2a/handler/streaming.rs\<close>): a snapshot, a replay of the task's log, then a tail
  that polls past its cursor until the final entry, and the counters that bound a caller's streams
  (\<open>StreamCounters\<close>). A stream is a function of what its queries see: the database at each of them, or nothing
  where the query fails. A tail whose looks run out is still open.
\<close>

section \<open>Stream slots\<close>

type_synonym stream_counters = "(string \<times> nat) list"

definition live_streams :: "stream_counters \<Rightarrow> string \<Rightarrow> nat" where
  "live_streams m c = (case al_lookup m c of Some n \<Rightarrow> n | None \<Rightarrow> 0)"

definition set_count :: "string \<Rightarrow> nat \<Rightarrow> stream_counters \<Rightarrow> stream_counters" where
  "set_count c n m = (c, n) # filter (\<lambda>(c', _). c' \<noteq> c) m"

definition drop_count :: "string \<Rightarrow> stream_counters \<Rightarrow> stream_counters" where
  "drop_count c m = filter (\<lambda>(c', _). c' \<noteq> c) m"

definition try_acquire :: "string \<Rightarrow> nat \<Rightarrow> stream_counters \<Rightarrow> bool \<times> stream_counters" where
  "try_acquire c cap m =
     (let count = live_streams m c in
      if cap \<le> count then (False, if count = 0 then drop_count c m else m)
      else (True, set_count c (count + 1) m))"

definition release_slot :: "string \<Rightarrow> stream_counters \<Rightarrow> stream_counters" where
  "release_slot c m =
     (case al_lookup m c of
        None \<Rightarrow> m
      | Some n \<Rightarrow> (let k = n - 1 in if k = 0 then drop_count c m else set_count c k m))"

record handler_limits =
  hl_push_config_cap :: int
  hl_max_streams :: nat

definition limits_from_env ::
  "(string \<Rightarrow> int option) \<Rightarrow> (string \<Rightarrow> string option) \<Rightarrow> handler_limits" where
  "limits_from_env parse_i64 env =
     \<lparr>hl_push_config_cap =
        max (case Option.bind (env ''A2A_MAX_PUSH_CONFIGS_PER_TASK'') parse_i64 of
               Some n \<Rightarrow> if n > 0 then n else 10 | None \<Rightarrow> 10) 1,
      hl_max_streams =
        max (case Option.bind (env ''A2A_MAX_STREAMS_PER_CALLER'') parse_u32 of
               Some n \<Rightarrow> if n > 0 then n else 8 | None \<Rightarrow> 8) 1\<rparr>"

section \<open>Emitting events\<close>

datatype frame = Frame stream_response | Stream_Failed

datatype stream_end = Ended | Reached int     \<comment> \<open>closed, or open at a cursor\<close>

fun emit :: "wire \<Rightarrow> (int \<times> json \<times> bool) list \<Rightarrow> int \<Rightarrow> frame list \<times> stream_end" where
  "emit w [] cur = ([], Reached cur)"
| "emit w ((seq, payload, final) # es) cur =
     (case wr_decode w payload of
        None \<Rightarrow> ([Stream_Failed], Ended)
      | Some r \<Rightarrow>
          if final then ([Frame r], Ended)
          else (let (fs, e) = emit w es seq in (Frame r # fs, e)))"

definition drain_log :: "wire \<Rightarrow> string \<Rightarrow> int \<Rightarrow> a2a_db option \<Rightarrow> frame list \<times> stream_end" where
  "drain_log w i cur seen =
     (case seen of
        None \<Rightarrow> ([Stream_Failed], Ended)
      | Some db \<Rightarrow> emit w (fetch_events_after (ad_events db) i cur) cur)"

definition is_live_terminal :: "string option \<Rightarrow> a2a_db option \<Rightarrow> bool" where
  "is_live_terminal underlying seen =
     (case underlying of
        None \<Rightarrow> True
      | Some u \<Rightarrow>
          (case seen of
             None \<Rightarrow> False
           | Some db \<Rightarrow>
               (case get_row (ad_tasks db) u of
                  None \<Rightarrow> True
                | Some t \<Rightarrow> is_terminal_state (task_state_from_status (status_text (tk_status t))))))"

text \<open>One round of the tail: its drain, its look at the run, its last drain, and whether its time is up.\<close>

record look =
  lk_drain :: "a2a_db option"
  lk_live :: "a2a_db option"
  lk_last :: "a2a_db option"
  lk_expired :: bool

fun tail_log :: "wire \<Rightarrow> string \<Rightarrow> string option \<Rightarrow> int \<Rightarrow> look list \<Rightarrow> frame list \<times> stream_end" where
  "tail_log w i u cur [] = ([], Reached cur)"
| "tail_log w i u cur (l # ls) =
     (case drain_log w i cur (lk_drain l) of
        (fs, Ended) \<Rightarrow> (fs, Ended)
      | (fs, Reached cur') \<Rightarrow>
          if is_live_terminal u (lk_live l) then (fs @ fst (drain_log w i cur' (lk_last l)), Ended)
          else if lk_expired l then (fs, Ended)
          else (let (gs, e) = tail_log w i u cur' ls in (fs @ gs, e)))"

text \<open>The body of the stream: the snapshot, the replay, and the tail once the listener stands.\<close>

definition stream_body ::
  "wire \<Rightarrow> string \<Rightarrow> string option \<Rightarrow> a2a_task \<Rightarrow> a2a_db option \<Rightarrow> bool \<Rightarrow> look list \<Rightarrow> frame list \<times> stream_end" where
  "stream_body w i u snapshot replay listening looks =
     (case drain_log w i 0 replay of
        (fs, Ended) \<Rightarrow> (Frame (Task_Frame snapshot) # fs, Ended)
      | (fs, Reached cur) \<Rightarrow>
          if is_terminal_state (at_state snapshot) then (Frame (Task_Frame snapshot) # fs, Ended)
          else if \<not> listening then (Frame (Task_Frame snapshot) # fs @ [Stream_Failed], Ended)
          else (let (gs, e) = tail_log w i u cur looks in (Frame (Task_Frame snapshot) # fs @ gs, e)))"

definition stream_task ::
  "a2a_env \<Rightarrow> a2a_run \<Rightarrow> handler_limits \<Rightarrow> caller \<Rightarrow> string \<Rightarrow> a2a_db \<Rightarrow> a2a_db option \<Rightarrow> bool \<Rightarrow> look list
   \<Rightarrow> stream_counters \<Rightarrow> (a2a_error, frame list \<times> stream_end) result \<times> stream_counters" where
  "stream_task env run limits c raw db replay listening looks m =
     (case owned_task env run c raw db of
        Inl e \<Rightarrow> (Inl e, m)
      | Inr (i, mp) \<Rightarrow>
     (case build_task_snapshot run raw mp db of
        Inl e \<Rightarrow> (Inl e, m)
      | Inr snapshot \<Rightarrow>
     (case try_acquire (cl_id c) (hl_max_streams limits) m of
        (False, m') \<Rightarrow> (Inl (Internal ''streaming capacity reached; retry shortly or poll GetTask''), m')
      | (True, m') \<Rightarrow>
          (let out = stream_body (ae_wire env) i (mp_underlying mp) snapshot replay listening looks
           in (Inr out, if snd out = Ended then release_slot (cl_id c) m' else m')))))"

definition subscribe_to_task ::
  "a2a_env \<Rightarrow> a2a_run \<Rightarrow> handler_limits \<Rightarrow> service_params \<Rightarrow> string \<Rightarrow> a2a_db \<Rightarrow> a2a_db option \<Rightarrow> bool \<Rightarrow> look list
   \<Rightarrow> stream_counters \<Rightarrow> (a2a_error, frame list \<times> stream_end) result \<times> stream_counters" where
  "subscribe_to_task env run limits ps raw db replay listening looks m =
     (case caller_of ps of
        Inl e \<Rightarrow> (Inl e, m)
      | Inr c \<Rightarrow> stream_task env run limits c raw db replay listening looks m)"

definition send_streaming_message ::
  "a2a_env \<Rightarrow> quota_config \<Rightarrow> a2a_run \<Rightarrow> handler_limits \<Rightarrow> service_params \<Rightarrow> message \<Rightarrow> a2a_db
   \<Rightarrow> (a2a_db \<Rightarrow> a2a_db option) \<Rightarrow> bool \<Rightarrow> look list \<Rightarrow> stream_counters
   \<Rightarrow> (a2a_error, frame list \<times> stream_end) result \<times> a2a_db \<times> stream_counters" where
  "send_streaming_message env quota run limits ps req db replay listening looks m =
     (case caller_of ps of
        Inl e \<Rightarrow> (Inl e, db, m)
      | Inr c \<Rightarrow>
     (case submit_review env quota run c req db of
        (Inl e, db') \<Rightarrow> (Inl e, db', m)
      | (Inr t, db') \<Rightarrow>
          (let (out, m') = stream_task env run limits c (at_id t) db' (replay db') listening looks m
           in (out, db', m'))))"

section \<open>A stream shows a prefix of the log\<close>

text \<open>The frames of a log: its entries in order, up to the first that does not decode.\<close>

definition frames_of :: "wire \<Rightarrow> event_row list \<Rightarrow> frame list" where
  "frames_of w es = map (\<lambda>e. case wr_decode w (ev_payload e) of Some r \<Rightarrow> Frame r | None \<Rightarrow> Stream_Failed) es"

definition readable :: "wire \<Rightarrow> event_row list \<Rightarrow> bool" where
  "readable w es = list_all (\<lambda>e. wr_decode w (ev_payload e) \<noteq> None) es"

lemma emit_readable:
  assumes "readable w es" "list_all (\<lambda>e. \<not> ev_final e) (butlast es)"
  shows "emit w (map (\<lambda>e. (ev_seq e, ev_payload e, ev_final e)) es) cur
    = (frames_of w es, if frozen es then Ended else Reached (if es = [] then cur else ev_seq (last es)))"
  using assms
proof (induction es arbitrary: cur)
  case (Cons e es)
  show ?case
  proof (cases "es = []")
    case True
    then show ?thesis using Cons.prems by (auto simp: readable_def frames_of_def frozen_def)
  next
    case False
    then have "\<not> ev_final e" "readable w es" "list_all (\<lambda>e. \<not> ev_final e) (butlast es)"
      using Cons.prems by (auto simp: readable_def)
    with Cons.IH[of "ev_seq e"] Cons.prems False show ?thesis
      by (auto simp: readable_def frames_of_def frozen_def)
  qed
qed (simp add: frames_of_def frozen_def)

lemma drain_log_drop:
  assumes "log_ok db" "readable w (log_of i db)" "c \<le> length (log_of i db)"
  shows "drain_log w i (int c) (Some db)
    = (frames_of w (drop c (log_of i db)),
       if frozen (drop c (log_of i db)) then Ended else Reached (int (length (log_of i db))))"
proof -
  let ?es = "log_of i db"
  have f: "fetch_events_after (ad_events db) i (int c) = map (\<lambda>e. (ev_seq e, ev_payload e, ev_final e)) (drop c ?es)"
  proof -
    have "filter (\<lambda>e. ev_task e = i \<and> int c < ev_seq e) (ad_events db) = filter (\<lambda>e. int c < ev_seq e) ?es"
      by (simp add: log_of_def conj_commute)
    then show ?thesis by (simp add: fetch_events_after_def el.read_past_cursor[OF assms(1)])
  qed
  have r: "readable w (drop c ?es)" using assms(2) by (auto simp: readable_def list_all_iff dest: in_set_dropD)
  have "list_all (\<lambda>e. \<not> ev_final e) (butlast ?es)" using assms(1) by (simp add: log_ok_def log_shape_def)
  then have b: "list_all (\<lambda>e. \<not> ev_final e) (butlast (drop c ?es))"
    by (auto simp: list_all_iff butlast_drop dest: in_set_dropD)
  have l: "drop c ?es \<noteq> [] \<Longrightarrow> ev_seq (last (drop c ?es)) = int (length ?es)"
    using el.seq_nth[OF assms(1), of "length ?es - 1" i] by (auto simp: last_conv_nth)
  show ?thesis
    unfolding drain_log_def option.case f emit_readable[OF r b] using l assms(3) by auto
qed

text \<open>
  What a stream of a task sees while its log grows towards \<open>L\<close>: every query that succeeds reads a prefix of
  \<open>L\<close> at least as long as the last one read.
\<close>

definition view_ok :: "string \<Rightarrow> event_row list \<Rightarrow> nat \<Rightarrow> a2a_db option \<Rightarrow> bool" where
  "view_ok i L c seen =
     (case seen of None \<Rightarrow> True
      | Some db \<Rightarrow> log_ok db \<and> prefix (log_of i db) L \<and> c \<le> length (log_of i db))"

definition view_len :: "string \<Rightarrow> nat \<Rightarrow> a2a_db option \<Rightarrow> nat" where
  "view_len i c seen = (case seen of None \<Rightarrow> c | Some db \<Rightarrow> length (log_of i db))"

fun watches :: "string \<Rightarrow> event_row list \<Rightarrow> nat \<Rightarrow> look list \<Rightarrow> bool" where
  "watches i L c [] = True"
| "watches i L c (l # ls) =
     (view_ok i L c (lk_drain l) \<and> view_ok i L (view_len i c (lk_drain l)) (lk_last l)
      \<and> watches i L (view_len i c (lk_drain l)) ls)"

definition shows_prefix :: "wire \<Rightarrow> event_row list \<Rightarrow> nat \<Rightarrow> frame list \<times> stream_end \<Rightarrow> bool" where
  "shows_prefix w L c out \<longleftrightarrow>
     (\<exists>n err. fst out = frames_of w (drop c (take n L)) @ err \<and> c \<le> n \<and> n \<le> length L \<and> err \<in> {[], [Stream_Failed]}
        \<and> (frozen (take n L) \<longrightarrow> snd out = Ended \<and> err = []))"

lemma shows_prefixI:
  assumes "fst out = frames_of w (drop c (take n L)) @ err" "c \<le> n" "n \<le> length L" "err = [] \<or> err = [Stream_Failed]"
    "frozen (take n L) \<Longrightarrow> snd out = Ended \<and> err = []"
  shows "shows_prefix w L c out"
  using assms unfolding shows_prefix_def by blast

lemma frozen_append [simp]: "frozen (xs @ ys) = (frozen xs \<or> frozen ys)"
  by (simp add: frozen_def)

lemma frames_of_append [simp]: "frames_of w (xs @ ys) = frames_of w xs @ frames_of w ys"
  by (simp add: frames_of_def)

lemma frozen_split: "c \<le> n \<Longrightarrow> frozen (take n L) = (frozen (take c L) \<or> frozen (drop c (take n L)))"
  by (metis append_take_drop_id frozen_append min.absorb1 take_take)

lemma drop_take_split: "c \<le> n \<Longrightarrow> n \<le> m \<Longrightarrow> drop c (take m L) = drop c (take n L) @ drop n (take m L)"
proof -
  assume c: "c \<le> n" "n \<le> m"
  have "take m L = take n L @ drop n (take m L)"
    using c by (metis append_take_drop_id min.absorb1 take_take)
  then have "drop c (take m L) = drop c (take n L) @ drop (c - length (take n L)) (drop n (take m L))"
    by (metis drop_append)
  moreover have "drop (c - length (take n L)) (drop n (take m L)) = drop n (take m L)"
    using c by (cases "n \<le> length L") auto
  ultimately show ?thesis by simp
qed

lemma drain_view:
  assumes "view_ok i L c (Some db)" "readable w L"
  shows "drain_log w i (int c) (Some db)
    = (frames_of w (drop c (take (view_len i c (Some db)) L)),
       if frozen (drop c (take (view_len i c (Some db)) L)) then Ended else Reached (int (view_len i c (Some db))))"
    and "c \<le> view_len i c (Some db)" and "view_len i c (Some db) \<le> length L"
proof -
  have p: "log_ok db" "prefix (log_of i db) L" "c \<le> length (log_of i db)" using assms(1) by (simp_all add: view_ok_def)
  then have t: "log_of i db = take (length (log_of i db)) L" by (auto simp: prefix_def)
  have r: "readable w (log_of i db)" using assms(2) p(2) by (auto simp: readable_def prefix_def)
  show "drain_log w i (int c) (Some db)
    = (frames_of w (drop c (take (view_len i c (Some db)) L)),
       if frozen (drop c (take (view_len i c (Some db)) L)) then Ended else Reached (int (view_len i c (Some db))))"
    unfolding drain_log_drop[OF p(1) r p(3)] view_len_def option.case using t by simp
  show "c \<le> view_len i c (Some db)" "view_len i c (Some db) \<le> length L"
    using p by (auto simp: view_len_def dest: prefix_length_le)
qed

lemma drain_shows_prefix:
  assumes "view_ok i L c seen" "readable w L" "c \<le> length L" "\<not> frozen (take c L)"
  shows "shows_prefix w L c (fst (drain_log w i (int c) seen), Ended)"
proof (cases seen)
  case None
  then show ?thesis
    by (intro shows_prefixI[where n = c and err = "[Stream_Failed]"]) (use assms in \<open>simp_all add: drain_log_def frames_of_def\<close>)
next
  case (Some db)
  show ?thesis
    by (rule shows_prefixI[where n = "view_len i c (Some db)" and err = "[]"])
       (use drain_view[OF assms(1)[unfolded Some] assms(2)] in \<open>simp_all add: Some\<close>)
qed

lemma shows_prefix_later:
  assumes "shows_prefix w L n (gs, e)" "c \<le> n"
  shows "shows_prefix w L c (frames_of w (drop c (take n L)) @ gs, e)"
proof -
  obtain m err where m: "gs = frames_of w (drop n (take m L)) @ err" "n \<le> m" "m \<le> length L"
    "err \<in> {[], [Stream_Failed]}" "frozen (take m L) \<longrightarrow> e = Ended \<and> err = []"
    using assms(1) by (auto simp: shows_prefix_def)
  show ?thesis
    by (rule shows_prefixI[where n = m and err = err])
       (use m assms(2) drop_take_split[OF assms(2) m(2), of L] in auto)
qed

lemma tail_shows_prefix:
  assumes "watches i L c looks" "readable w L" "c \<le> length L" "\<not> frozen (take c L)"
  shows "shows_prefix w L c (tail_log w i u (int c) looks)"
  using assms
proof (induction looks arbitrary: c)
  case Nil
  then show ?case by (intro shows_prefixI[where n = c and err = "[]"]) (simp_all add: frames_of_def)
next
  case (Cons l ls)
  show ?case
  proof (cases "lk_drain l")
    case None
    then show ?thesis
      using drain_shows_prefix[of i L c None w] Cons.prems by (simp add: drain_log_def)
  next
    case (Some db)
    let ?n = "view_len i c (Some db)"
    have v: "view_ok i L c (Some db)" using Cons.prems(1) Some by simp
    note d = drain_view[OF v Cons.prems(2)]
    show ?thesis
    proof (cases "frozen (drop c (take ?n L))")
      case True
      then show ?thesis
        by (intro shows_prefixI[where n = ?n and err = "[]"]) (use d in \<open>simp_all add: Some\<close>)
    next
      case False
      then have nf: "\<not> frozen (take ?n L)" using frozen_split[OF d(2), of L] Cons.prems(4) by simp
      have step: "tail_log w i u (int c) (l # ls) =
          (if is_live_terminal u (lk_live l)
           then (frames_of w (drop c (take ?n L)) @ fst (drain_log w i (int ?n) (lk_last l)), Ended)
           else if lk_expired l then (frames_of w (drop c (take ?n L)), Ended)
           else (frames_of w (drop c (take ?n L)) @ fst (tail_log w i u (int ?n) ls),
                 snd (tail_log w i u (int ?n) ls)))"
        using False by (simp add: Some d(1) split_beta Let_def)
      have live: "shows_prefix w L ?n (fst (drain_log w i (int ?n) (lk_last l)), Ended)"
        by (rule drain_shows_prefix) (use Cons.prems Some d nf in simp_all)
      have rest: "shows_prefix w L ?n (tail_log w i u (int ?n) ls)"
        by (rule Cons.IH) (use Cons.prems Some d nf in simp_all)
      show ?thesis
        unfolding step
        using shows_prefix_later[OF live d(2)] shows_prefix_later[of w L ?n _ _ c, OF _ d(2)] rest d nf
        by (auto intro: shows_prefixI[where n = ?n and err = "[]"])
    qed
  qed
qed

text \<open>
  A stream neither skips, repeats nor reorders: whatever its queries see of a growing log, and wherever
  it stops, it has shown the snapshot and then a prefix of the log, at most followed by one error; and it is
  closed, without an error, as soon as that prefix holds the final entry.
\<close>

theorem stream_shows_a_prefix:
  assumes "readable w L" "view_ok i L 0 replay" "watches i L (view_len i 0 replay) looks"
  shows "\<exists>n err. n \<le> length L \<and> (err = [] \<or> err = [Stream_Failed])
    \<and> fst (stream_body w i u snapshot replay listening looks) = Frame (Task_Frame snapshot) # frames_of w (take n L) @ err
    \<and> (frozen (take n L) \<longrightarrow> snd (stream_body w i u snapshot replay listening looks) = Ended \<and> err = [])"
proof -
  let ?out = "stream_body w i u snapshot replay listening looks"
  have nf: "\<not> frozen (take 0 L)" by (simp add: frozen_def)
  have "shows_prefix w L 0 (tl (fst ?out), snd ?out) \<and> fst ?out \<noteq> [] \<and> hd (fst ?out) = Frame (Task_Frame snapshot)"
  proof (cases replay)
    case None
    then show ?thesis
      using drain_shows_prefix[of i L 0 None w] assms nf by (simp add: stream_body_def drain_log_def)
  next
    case (Some db)
    let ?n = "view_len i 0 (Some db)"
    note d = drain_view[OF assms(2)[unfolded Some] assms(1)]
    show ?thesis
    proof (cases "frozen (take ?n L)")
      case True
      then show ?thesis
        using d by (auto simp: Some stream_body_def intro!: shows_prefixI[where n = ?n and err = "[]"])
    next
      case False
      have t: "shows_prefix w L ?n (tail_log w i u (int ?n) looks)"
        by (rule tail_shows_prefix) (use assms d False in \<open>simp_all add: Some\<close>)
      have body: "?out = (if is_terminal_state (at_state snapshot)
            then (Frame (Task_Frame snapshot) # frames_of w (take ?n L), Ended)
          else if \<not> listening then (Frame (Task_Frame snapshot) # frames_of w (take ?n L) @ [Stream_Failed], Ended)
          else (Frame (Task_Frame snapshot) # frames_of w (take ?n L) @ fst (tail_log w i u (int ?n) looks),
                snd (tail_log w i u (int ?n) looks)))"
        using False d(1) by (simp add: Some stream_body_def split_beta Let_def)
      show ?thesis
        unfolding body
        using shows_prefix_later[of w L ?n "fst (tail_log w i u (int ?n) looks)" "snd (tail_log w i u (int ?n) looks)" 0]
          t d(3) False
        by (auto intro: shows_prefixI[where n = ?n and err = "[]"] shows_prefixI[where n = ?n and err = "[Stream_Failed]"])
    qed
  qed
  then obtain n err where "n \<le> length L" "err = [] \<or> err = [Stream_Failed]" "fst ?out \<noteq> []"
    "hd (fst ?out) = Frame (Task_Frame snapshot)" "tl (fst ?out) = frames_of w (take n L) @ err"
    "frozen (take n L) \<longrightarrow> snd ?out = Ended \<and> err = []"
    by (auto simp: shows_prefix_def)
  then show ?thesis by (metis list.collapse)
qed

lemma frozen_prefix_is_all:
  assumes "log_shape L" "frozen (take n L)"
  shows "take n L = L"
proof (rule ccontr)
  assume "take n L \<noteq> L"
  then have n: "n < length L" by (metis not_le take_all)
  then have "take n L = take n (butlast L)" by (simp add: butlast_conv_take min_def)
  then have "set (take n L) \<subseteq> set (butlast L)" by (metis set_take_subset)
  then show False using assms by (auto simp: log_shape_def frozen_def list_all_iff list_ex_iff)
qed

text \<open>A look that lets the stream reach the end: its queries succeed in time, and a run it finds terminal has
  left its final entry by the last drain.\<close>

definition good_look :: "string \<Rightarrow> string option \<Rightarrow> look \<Rightarrow> bool" where
  "good_look i u l \<longleftrightarrow> lk_drain l \<noteq> None \<and> lk_last l \<noteq> None \<and> \<not> lk_expired l
     \<and> (is_live_terminal u (lk_live l) \<longrightarrow> frozen (log_of i (the (lk_last l))))"

definition sees_end :: "string \<Rightarrow> a2a_db option \<Rightarrow> bool" where
  "sees_end i seen = (case seen of None \<Rightarrow> False | Some db \<Rightarrow> frozen (log_of i db))"

lemma drain_to_end:
  assumes "view_ok i L c (Some db)" "readable w L" "log_shape L" "frozen (log_of i db)" "\<not> frozen (take c L)"
  shows "drain_log w i (int c) (Some db) = (frames_of w (drop c L), Ended)"
proof -
  have "prefix (log_of i db) L" using assms(1) by (simp add: view_ok_def)
  then have "log_of i db = take (view_len i c (Some db)) L" by (auto simp: prefix_def view_len_def)
  then have all: "take (view_len i c (Some db)) L = L" using frozen_prefix_is_all assms(3,4) by metis
  then have "frozen (drop c L)" using drain_view(2)[OF assms(1,2)] frozen_split[of c "view_len i c (Some db)" L] assms(4,5)
    by (metis \<open>log_of i db = take (view_len i c (Some db)) L\<close>)
  then show ?thesis unfolding drain_view(1)[OF assms(1,2)] all by simp
qed

lemma tail_reaches_end:
  assumes "watches i L c looks" "readable w L" "log_shape L" "c \<le> length L" "\<not> frozen (take c L)"
    "list_all (good_look i u) looks" "list_ex (\<lambda>l. sees_end i (lk_drain l)) looks"
  shows "tail_log w i u (int c) looks = (frames_of w (drop c L), Ended)"
  using assms
proof (induction looks arbitrary: c)
  case (Cons l ls)
  obtain db where Some: "lk_drain l = Some db" using Cons.prems(6) by (auto simp: good_look_def)
  let ?n = "view_len i c (Some db)"
  have v: "view_ok i L c (Some db)" using Cons.prems(1) Some by simp
  note d = drain_view[OF v Cons.prems(2)]
  show ?case
  proof (cases "frozen (drop c (take ?n L))")
    case True
    then have "frozen (take ?n L)" using frozen_split[OF d(2), of L] by simp
    then have "take ?n L = L" using frozen_prefix_is_all Cons.prems(3) by blast
    then show ?thesis using True d(1) by (simp add: Some)
  next
    case False
    then have nf: "\<not> frozen (take ?n L)" using frozen_split[OF d(2), of L] Cons.prems(5) by simp
    have "drop c L = drop c (take ?n L) @ drop ?n L"
      using drop_take_split[OF d(2,3), of L] by simp
    then have all: "frames_of w (drop c L) = frames_of w (drop c (take ?n L)) @ frames_of w (drop ?n L)" by simp
    show ?thesis
    proof (cases "is_live_terminal u (lk_live l)")
      case True
      then obtain db2 where 2: "lk_last l = Some db2" "frozen (log_of i db2)"
        using Cons.prems(6) by (auto simp: good_look_def)
      have "drain_log w i (int ?n) (Some db2) = (frames_of w (drop ?n L), Ended)"
        by (rule drain_to_end) (use Cons.prems Some 2 nf in simp_all)
      then show ?thesis using True False d(1) all by (simp add: Some 2)
    next
      case running: False
      have "\<not> sees_end i (lk_drain l)"
        using nf v by (auto simp: Some sees_end_def view_ok_def view_len_def prefix_def)
      then have "tail_log w i u (int ?n) ls = (frames_of w (drop ?n L), Ended)"
        by (intro Cons.IH) (use Cons.prems Some d nf in auto)
      then show ?thesis using running False d(1) all Cons.prems(6) by (simp add: Some good_look_def)
    qed
  qed
qed simp

text \<open>
  C16. A stream delivers the end: when its queries succeed, a run seen terminal has left its final entry, and
  some look sees that entry, then the stream shows the whole log and closes.
\<close>

theorem stream_delivers_the_end:
  assumes "readable w L" "log_shape L" "view_ok i L 0 replay" "watches i L (view_len i 0 replay) looks"
    "replay \<noteq> None" "listening" "\<not> is_terminal_state (at_state snapshot)"
    "list_all (good_look i u) looks" "list_ex (\<lambda>l. sees_end i (lk_drain l)) looks"
  shows "stream_body w i u snapshot replay listening looks = (Frame (Task_Frame snapshot) # frames_of w L, Ended)"
proof -
  obtain db where Some: "replay = Some db" using assms(5) by blast
  let ?n = "view_len i 0 (Some db)"
  note d = drain_view[OF assms(3)[unfolded Some] assms(1)]
  show ?thesis
  proof (cases "frozen (take ?n L)")
    case True
    then have "take ?n L = L" using frozen_prefix_is_all assms(2) by blast
    then show ?thesis using True d(1) by (simp add: Some stream_body_def)
  next
    case False
    have t: "tail_log w i u (int ?n) looks = (frames_of w (drop ?n L), Ended)"
      by (rule tail_reaches_end) (use assms d False in \<open>simp_all add: Some\<close>)
    have "frames_of w L = frames_of w (take ?n L) @ frames_of w (drop ?n L)"
      by (metis append_take_drop_id frames_of_append)
    then show ?thesis using t False d(1) assms(6,7) by (simp add: Some stream_body_def)
  qed
qed

section \<open>Samples\<close>

text \<open>A log that completes while the stream watches.\<close>

definition sample_log :: "event_row list" where
  "sample_log = [sample_entry 1 State_Working, sample_entry 2 State_Completed]"

definition sample_look :: look where
  "sample_look = \<lparr>lk_drain = Some (sample_db sample_log), lk_live = Some (sample_db sample_log),
     lk_last = Some (sample_db sample_log), lk_expired = False\<rparr>"

definition sample_snapshot :: a2a_task where
  "sample_snapshot = \<lparr>at_id = ''a1'', at_context_id = ''c1'', at_state = State_Submitted, at_artifacts = None,
     at_metadata = None\<rparr>"

lemma sample_log_of: "log_of j (sample_db evs) = filter (\<lambda>e. ev_task e = j) evs"
  by (simp add: log_of_def)

lemma sample_log_ok: "log_ok (sample_db sample_log)" "log_ok (sample_db (take 1 sample_log))"
  by (auto simp: log_ok_def log_shape_def sample_log_of sample_log_def sample_entry_def is_terminal_state_def upt_rec)

lemma sample_log_a1: "log_of ''a1'' (sample_db sample_log) = sample_log"
  "log_of ''a1'' (sample_db (take 1 sample_log)) = take 1 sample_log"
  by (simp_all add: sample_log_of sample_log_def sample_entry_def)

lemma sample_log_facts:
  "readable sample_wire sample_log" "log_shape sample_log" "frozen sample_log"
  "view_ok ''a1'' sample_log 0 (Some (sample_db (take 1 sample_log)))"
  "watches ''a1'' sample_log (view_len ''a1'' 0 (Some (sample_db (take 1 sample_log)))) [sample_look]"
  using sample_log_ok sample_log_a1
  by (auto simp: readable_def log_shape_def frozen_def sample_log_def sample_entry_def sample_look_def view_ok_def
      view_len_def sample_wire_def status_update_payload_def is_terminal_state_def upt_rec)

theorem stream_shows_a_prefix_witness:
  "\<exists>n err. n \<le> 2 \<and> (err = [] \<or> err = [Stream_Failed])
    \<and> fst (stream_body sample_wire ''a1'' (Some ''u1'') sample_snapshot (Some (sample_db (take 1 sample_log))) True [sample_look])
        = Frame (Task_Frame sample_snapshot) # frames_of sample_wire (take n sample_log) @ err"
proof -
  have "length sample_log = 2" by (simp add: sample_log_def)
  then show ?thesis
    using stream_shows_a_prefix[OF sample_log_facts(1,4,5), of "Some ''u1''" sample_snapshot True] by metis
qed

theorem stream_delivers_the_end_witness:
  "stream_body sample_wire ''a1'' (Some ''u1'') sample_snapshot (Some (sample_db (take 1 sample_log))) True [sample_look]
    = ([Frame (Task_Frame sample_snapshot), Frame (Status_Update ''a1'' ''c1'' State_Working),
        Frame (Status_Update ''a1'' ''c1'' State_Completed)], Ended)"
proof -
  have good: "good_look ''a1'' (Some ''u1'') sample_look" "sees_end ''a1'' (lk_drain sample_look)"
    using sample_log_facts(3) sample_log_a1 by (simp_all add: good_look_def sees_end_def sample_look_def)
  have run: "\<not> is_terminal_state (at_state sample_snapshot)" by (simp add: sample_snapshot_def is_terminal_state_def)
  have frames: "frames_of sample_wire sample_log
      = [Frame (Status_Update ''a1'' ''c1'' State_Working), Frame (Status_Update ''a1'' ''c1'' State_Completed)]"
    by (simp add: frames_of_def sample_log_def sample_entry_def status_update_payload_def sample_wire_def
        state_from_wire_def)
  show ?thesis
    using stream_delivers_the_end[OF sample_log_facts(1,2,4,5), of True sample_snapshot "Some ''u1''"] good run
    by (simp add: frames)
qed

end
