(* ===== verification/Ssrf.thy ===== *)
theory Ssrf
  imports Task_Queue "HOL-Library.Word"
begin

text \<open>
  The guard of webhook addresses (\<open>a2a/ssrf.rs\<close>): a caller's address is accepted only if it is \<open>https\<close> on
  port 443 and every address its host resolves to is public. Addresses are words; the operator's extra
  networks are membership tests, the URL parser and the resolver are parameters.
\<close>

unbundle bit_operations_syntax

section \<open>Addresses\<close>

type_synonym ipv4 = "32 word"
type_synonym ipv6 = "128 word"

datatype ip_addr = V4 ipv4 | V6 ipv6

text \<open>The octets of an IPv4 address and the segments of an IPv6 one, from the most significant.\<close>

definition octet :: "nat \<Rightarrow> ipv4 \<Rightarrow> 8 word" where
  "octet i ip = ucast (drop_bit (24 - 8 * i) ip)"

definition segment :: "nat \<Rightarrow> ipv6 \<Rightarrow> 16 word" where
  "segment i ip = ucast (drop_bit (112 - 16 * i) ip)"

text \<open>The four octets of an IPv6 address that end \<open>n\<close> bits above its end.\<close>

definition v4_at :: "nat \<Rightarrow> ipv6 \<Rightarrow> ipv4" where
  "v4_at n ip = ucast (drop_bit n ip)"

section \<open>The fixed deny tables\<close>

definition is_loopback_v4 :: "ipv4 \<Rightarrow> bool" where "is_loopback_v4 ip \<longleftrightarrow> octet 0 ip = 127"

definition is_private :: "ipv4 \<Rightarrow> bool" where
  "is_private ip \<longleftrightarrow> octet 0 ip = 10
     \<or> (octet 0 ip = 172 \<and> 16 \<le> octet 1 ip \<and> octet 1 ip \<le> 31)
     \<or> (octet 0 ip = 192 \<and> octet 1 ip = 168)"

definition is_link_local_v4 :: "ipv4 \<Rightarrow> bool" where
  "is_link_local_v4 ip \<longleftrightarrow> octet 0 ip = 169 \<and> octet 1 ip = 254"

definition is_multicast_v4 :: "ipv4 \<Rightarrow> bool" where
  "is_multicast_v4 ip \<longleftrightarrow> 224 \<le> octet 0 ip \<and> octet 0 ip \<le> 239"

definition is_broadcast :: "ipv4 \<Rightarrow> bool" where
  "is_broadcast ip \<longleftrightarrow> octet 0 ip = 255 \<and> octet 1 ip = 255 \<and> octet 2 ip = 255 \<and> octet 3 ip = 255"

definition is_blocked_v4 :: "ipv4 \<Rightarrow> bool" where
  "is_blocked_v4 ip \<longleftrightarrow>
     (if octet 0 ip = 0 then True
      else if is_loopback_v4 ip then True
      else if is_private ip then True
      else if is_link_local_v4 ip then True
      else if octet 0 ip = 100 \<and> 64 \<le> octet 1 ip \<and> octet 1 ip \<le> 127 then True
      else if octet 0 ip = 198 \<and> (octet 1 ip = 18 \<or> octet 1 ip = 19) then True
      else if is_multicast_v4 ip then True
      else if is_broadcast ip then True
      else if 240 \<le> octet 0 ip then True
      else False)"

text \<open>\<open>to_ipv4\<close> of the standard library: the mapped and the compatible form.\<close>

definition to_ipv4 :: "ipv6 \<Rightarrow> ipv4 option" where
  "to_ipv4 ip =
     (if segment 0 ip = 0 \<and> segment 1 ip = 0 \<and> segment 2 ip = 0 \<and> segment 3 ip = 0 \<and> segment 4 ip = 0
         \<and> (segment 5 ip = 0 \<or> segment 5 ip = 0xffff)
      then Some (v4_at 0 ip) else None)"

definition embedded_v4s :: "ipv6 \<Rightarrow> ipv4 list" where
  "embedded_v4s ip =
     (case to_ipv4 ip of
        Some v4 \<Rightarrow> [v4]
      | None \<Rightarrow>
          if segment 0 ip = 0x0064 \<and> segment 1 ip = 0xff9b then [v4_at 0 ip]
          else if segment 0 ip = 0x2002 then [v4_at 80 ip]
          else if segment 0 ip = 0x2001 \<and> segment 1 ip = 0 then [v4_at 64 ip, NOT (v4_at 0 ip)]
          else [])"

definition is_blocked_v6 :: "ipv6 \<Rightarrow> bool" where
  "is_blocked_v6 ip \<longleftrightarrow>
     (if ip = 0 then True
      else if ip = 1 then True
      else if segment 0 ip AND 0xff00 = 0xff00 then True
      else if segment 0 ip AND 0xfe00 = 0xfc00 then True
      else if segment 0 ip AND 0xffc0 = 0xfe80 then True
      else if segment 0 ip = 0x2001 \<and> segment 1 ip = 0x0db8 then True
      else if list_ex is_blocked_v4 (embedded_v4s ip) then True
      else False)"

type_synonym ssrf_policy = "(ip_addr \<Rightarrow> bool) list"   \<comment> \<open>the extra denied networks\<close>

definition is_blocked :: "ip_addr \<Rightarrow> ssrf_policy \<Rightarrow> bool" where
  "is_blocked ip policy \<longleftrightarrow>
     (if (case ip of V4 v4 \<Rightarrow> is_blocked_v4 v4 | V6 v6 \<Rightarrow> is_blocked_v6 v6) then True
      else if list_ex (\<lambda>net. net ip) policy then True
      else case ip of
        V4 _ \<Rightarrow> False
      | V6 v6 \<Rightarrow> list_ex (\<lambda>v4. list_ex (\<lambda>net. net (V4 v4)) policy) (embedded_v4s v6))"

section \<open>Validation\<close>

datatype url_host = Host_V4 ipv4 | Host_V6 ipv6 | Host_Domain string

record url =
  ur_text :: string
  ur_scheme :: string
  ur_host :: "url_host option"
  ur_port :: "nat option"    \<comment> \<open>the port, or the scheme's known default\<close>

record validated_webhook =
  vh_url :: url
  vh_pinned_ips :: "ip_addr list"

datatype ssrf_error =
  InvalidUrl | NotHttps | MissingHost | DisallowedPort nat | Resolution | BlockedAddress ip_addr | NoAddresses

text \<open>How an address is written is a parameter.\<close>

fun ssrf_error_text :: "(ip_addr \<Rightarrow> string) \<Rightarrow> ssrf_error \<Rightarrow> string" where
  "ssrf_error_text show_ip InvalidUrl = ''webhook URL did not parse''"
| "ssrf_error_text show_ip NotHttps = ''webhook URL must use the https scheme''"
| "ssrf_error_text show_ip MissingHost = ''webhook URL has no host''"
| "ssrf_error_text show_ip (DisallowedPort p) = ''webhook URL port '' @ dec p @ '' is not allowed (only 443)''"
| "ssrf_error_text show_ip Resolution = ''webhook host could not be resolved''"
| "ssrf_error_text show_ip (BlockedAddress ip) = ''webhook host resolves to a blocked address '' @ show_ip ip"
| "ssrf_error_text show_ip NoAddresses = ''webhook host resolved to no addresses''"

definition ALLOWED_PORT :: nat where "ALLOWED_PORT = 443"

definition host_addresses ::
  "(string \<Rightarrow> ip_addr list option) \<Rightarrow> url_host \<Rightarrow> (ssrf_error, ip_addr list) result" where
  "host_addresses resolve h =
     (case h of
        Host_V4 v4 \<Rightarrow> Inr [V4 v4]
      | Host_V6 v6 \<Rightarrow> Inr [V6 v6]
      | Host_Domain name \<Rightarrow>
          if name = [] then Inl MissingHost
          else (case resolve name of None \<Rightarrow> Inl Resolution | Some addrs \<Rightarrow> Inr addrs))"

definition validate_webhook_url ::
  "(string \<Rightarrow> url option) \<Rightarrow> (string \<Rightarrow> ip_addr list option) \<Rightarrow> ssrf_policy \<Rightarrow> string
   \<Rightarrow> (ssrf_error, validated_webhook) result" where
  "validate_webhook_url parse resolve policy raw =
     (case parse raw of
        None \<Rightarrow> Inl InvalidUrl
      | Some u \<Rightarrow>
          if ur_scheme u \<noteq> ''https'' then Inl NotHttps
          else case ur_host u of
            None \<Rightarrow> Inl MissingHost
          | Some h \<Rightarrow>
              (let port = (case ur_port u of Some p \<Rightarrow> p | None \<Rightarrow> ALLOWED_PORT) in
               if port \<noteq> ALLOWED_PORT then Inl (DisallowedPort port)
               else case host_addresses resolve h of
                 Inl e \<Rightarrow> Inl e
               | Inr addrs \<Rightarrow>
                   if addrs = [] then Inl NoAddresses
                   else (case find (\<lambda>ip. is_blocked ip policy) addrs of
                           Some ip \<Rightarrow> Inl (BlockedAddress ip)
                         | None \<Rightarrow> Inr \<lparr>vh_url = u, vh_pinned_ips = addrs\<rparr>)))"

section \<open>The tables as networks\<close>

text \<open>A network is a base and the length of its prefix.\<close>

definition in_net4 :: "ipv4 \<Rightarrow> ipv4 \<times> nat \<Rightarrow> bool" where
  "in_net4 ip = (\<lambda>(base, n). drop_bit (32 - n) ip = drop_bit (32 - n) base)"

definition dotted :: "nat \<Rightarrow> nat \<Rightarrow> nat \<Rightarrow> nat \<Rightarrow> ipv4" where
  "dotted a b c d = of_nat (((a * 256 + b) * 256 + c) * 256 + d)"

definition DENIED_V4 :: "(ipv4 \<times> nat) list" where
  "DENIED_V4 =
     [(dotted 0 0 0 0, 8), (dotted 127 0 0 0, 8), (dotted 10 0 0 0, 8), (dotted 172 16 0 0, 12),
      (dotted 192 168 0 0, 16), (dotted 169 254 0 0, 16), (dotted 100 64 0 0, 10), (dotted 198 18 0 0, 15),
      (dotted 224 0 0 0, 4), (dotted 255 255 255 255, 32), (dotted 240 0 0 0, 4)]"

lemma octet_unat: "unat (octet i ip) = unat ip div 2 ^ (24 - 8 * i) mod 256"
  by (simp add: octet_def unat_drop_bit_eq unsigned_ucast_eq take_bit_eq_mod)
     (simp add: drop_bit_eq_div)

lemma in_net4_unat:
  "in_net4 ip (base, n) \<longleftrightarrow> unat ip div 2 ^ (32 - n) = unat base div 2 ^ (32 - n)"
  by (simp only: in_net4_def word_unat_eq_iff unat_drop_bit_eq prod.case)
     (simp only: drop_bit_eq_div)

text \<open>The four octets as numbers, and the prefixes of an address in terms of them.\<close>

lemma octets_of:
  obtains a b c d :: nat where
    "unat ip = ((a * 256 + b) * 256 + c) * 256 + d" "a < 256" "b < 256" "c < 256" "d < 256"
    "unat (octet 0 ip) = a" "unat (octet 1 ip) = b" "unat (octet 2 ip) = c" "unat (octet 3 ip) = d"
proof -
  let ?n = "unat ip"
  have "?n < 2 ^ 32" using unsigned_less [of ip] by simp
  then have top: "?n div 16777216 < 256" by simp
  have "?n div 65536 = ?n div 256 div 256" "?n div 16777216 = ?n div 256 div 256 div 256"
    by (simp_all add: div_mult2_eq [symmetric])
  moreover have "?n = ?n div 256 * 256 + ?n mod 256"
    "?n div 256 = ?n div 256 div 256 * 256 + ?n div 256 mod 256"
    "?n div 256 div 256 = ?n div 256 div 256 div 256 * 256 + ?n div 256 div 256 mod 256"
    by (simp_all only: div_mult_mod_eq)
  ultimately have
    "?n = ((?n div 16777216 * 256 + ?n div 65536 mod 256) * 256 + ?n div 256 mod 256) * 256 + ?n mod 256"
    by metis
  then show ?thesis
    by (rule that) (use top in \<open>simp_all add: octet_unat\<close>)
qed

lemma prefixes_of:
  fixes a b c d :: nat
  assumes "n = ((a * 256 + b) * 256 + c) * 256 + d" "b < 256" "c < 256" "d < 256"
  shows "n div 2 ^ 16 = a * 256 + b" "n div 2 ^ 24 = a"
    "n div 2 ^ 28 = a div 16" "n div 2 ^ 20 = a * 16 + b div 16" "n div 2 ^ 22 = a * 4 + b div 64"
    "n div 2 ^ 17 = a * 128 + b div 2"
proof -
  show two: "n div 2 ^ 16 = a * 256 + b"
  proof -
    have "n = (a * 256 + b) * 65536 + (c * 256 + d)" using assms by simp
    moreover have "c * 256 + d < 65536" using assms by simp
    ultimately show ?thesis by simp
  qed
  have up: "n div 2 ^ (16 + k) = (a * 256 + b) div 2 ^ k" for k
    using two by (simp add: power_add div_mult2_eq)
  show "n div 2 ^ 24 = a" using up [of 8] assms by simp
  show "n div 2 ^ 28 = a div 16"
  proof -
    have "(a * 256 + b) div 2 ^ 12 = (a * 256 + b) div 256 div 16" by (simp add: div_mult2_eq [symmetric])
    then show ?thesis using up [of 12] assms by simp
  qed
  show "n div 2 ^ 20 = a * 16 + b div 16" using up [of 4] by simp
  show "n div 2 ^ 22 = a * 4 + b div 64" using up [of 6] by simp
  show "n div 2 ^ 17 = a * 128 + b div 2" using up [of 1] by simp
qed

text \<open>Membership of each denied network, and the table, both in terms of the octets.\<close>

lemma is_blocked_v4_octets:
  assumes "unat (octet 0 ip) = a" "unat (octet 1 ip) = b" "unat (octet 2 ip) = c" "unat (octet 3 ip) = d"
  shows "is_blocked_v4 ip \<longleftrightarrow> a = 0 \<or> a = 127 \<or> a = 10 \<or> (a = 172 \<and> 16 \<le> b \<and> b \<le> 31) \<or> (a = 192 \<and> b = 168)
    \<or> (a = 169 \<and> b = 254) \<or> (a = 100 \<and> 64 \<le> b \<and> b \<le> 127) \<or> (a = 198 \<and> (b = 18 \<or> b = 19))
    \<or> (224 \<le> a \<and> a \<le> 239) \<or> 240 \<le> a"
  using assms
  by (auto simp: is_blocked_v4_def is_loopback_v4_def is_private_def is_link_local_v4_def is_multicast_v4_def
        is_broadcast_def word_unat_eq_iff word_le_nat_alt)

lemma in_denied_octets:
  fixes a b c d :: nat
  assumes n: "unat ip = ((a * 256 + b) * 256 + c) * 256 + d" and s: "a < 256" "b < 256" "c < 256" "d < 256"
  shows "list_ex (in_net4 ip) DENIED_V4 \<longleftrightarrow> a = 0 \<or> a = 127 \<or> a = 10 \<or> a * 16 + b div 16 = 172 * 16 + 1
    \<or> a * 256 + b = 192 * 256 + 168 \<or> a * 256 + b = 169 * 256 + 254 \<or> a * 4 + b div 64 = 100 * 4 + 1
    \<or> a * 128 + b div 2 = 198 * 128 + 9 \<or> a div 16 = 14 \<or> unat ip = 4294967295 \<or> a div 16 = 15"
proof -
  note p = prefixes_of [OF n s(2-4)]
  have k: "(2::nat) ^ 16 = 65536" "(2::nat) ^ 24 = 16777216" "(2::nat) ^ 28 = 268435456"
    "(2::nat) ^ 20 = 1048576" "(2::nat) ^ 22 = 4194304" "(2::nat) ^ 17 = 131072" by simp_all
  show ?thesis
    unfolding DENIED_V4_def
    by (simp add: in_net4_unat dotted_def p [unfolded k])
qed

section \<open>Transition forms\<close>

text \<open>
  The IPv6 forms that carry an IPv4 address, built from their fields: mapped, compatible, NAT64, 6to4 (with
  the 80 bits after the address) and Teredo (server, flags and port, the client before its inversion).
\<close>

datatype transition =
  Mapped ipv4 | Compatible ipv4 | Nat64 ipv4 | Six_To_Four ipv4 "80 word" | Teredo ipv4 "32 word" ipv4

fun wrapped :: "transition \<Rightarrow> ipv6" where
  "wrapped (Mapped v) = word_cat (0xffff :: 96 word) v"
| "wrapped (Compatible v) = ucast v"
| "wrapped (Nat64 v) = word_cat (0x0064ff9b0000000000000000 :: 96 word) v"
| "wrapped (Six_To_Four v rest) = word_cat (0x2002 :: 16 word) (word_cat v rest :: 112 word)"
| "wrapped (Teredo server mid client) =
     word_cat (0x20010000 :: 32 word) (word_cat server (word_cat mid (NOT client) :: 64 word) :: 96 word)"

fun carried :: "transition \<Rightarrow> ipv4 list" where
  "carried (Mapped v) = [v]"
| "carried (Compatible v) = [v]"
| "carried (Nat64 v) = [v]"
| "carried (Six_To_Four v rest) = [v]"
| "carried (Teredo server mid client) = [server, client]"

lemma segment_cat_32:
  "i \<le> 5 \<Longrightarrow> segment i (word_cat (v :: 96 word) (w :: 32 word)) = ucast (drop_bit (80 - 16 * i) v)"
  by (rule bit_word_eqI) (auto simp: segment_def bit_simps)

lemma segment_cat_112: "segment 0 (word_cat (v :: 16 word) (w :: 112 word)) = v"
  by (rule bit_word_eqI) (auto simp: segment_def bit_simps)

lemma segment_cat_96:
  "i \<le> 1 \<Longrightarrow> segment i (word_cat (v :: 32 word) (w :: 96 word)) = ucast (drop_bit (16 - 16 * i) v)"
  by (rule bit_word_eqI) (auto simp: segment_def bit_simps)

lemma v4_at_cat:
  "v4_at 0 (word_cat (v :: 96 word) (w :: 32 word)) = w"
  "v4_at 80 (word_cat (p :: 16 word) (word_cat w (r :: 80 word) :: 112 word)) = w"
  "v4_at 64 (word_cat (q :: 32 word) (word_cat w (word_cat m c :: 64 word) :: 96 word)) = w"
  "v4_at 0 (word_cat (q :: 32 word) (word_cat w (word_cat (m :: 32 word) (c :: 32 word) :: 64 word) :: 96 word)) = c"
  by (rule bit_word_eqI; auto simp: v4_at_def bit_simps)+

lemma segment_low: "i \<le> 5 \<Longrightarrow> segment i (ucast (v :: 32 word)) = 0"
  by (rule bit_word_eqI) (auto simp: segment_def bit_simps dest: bit_imp_le_length)

lemma v4_at_low: "v4_at 0 (ucast v) = v"
  by (rule bit_word_eqI) (auto simp: v4_at_def bit_simps)

lemmas wrapped_fields = segment_low segment_cat_32 segment_cat_112 segment_cat_96 v4_at_low v4_at_cat

lemma embedded_wrapped: "embedded_v4s (wrapped t) = carried t"
  by (cases t) (simp_all add: embedded_v4s_def to_ipv4_def wrapped_fields)

text \<open>No such form is in one of the IPv6 ranges of its own, unless the address it carries is denied anyway.\<close>

lemma native_wrapped:
  "segment 0 (wrapped t) AND 0xff00 \<noteq> 0xff00" "segment 0 (wrapped t) AND 0xfe00 \<noteq> 0xfc00"
  "segment 0 (wrapped t) AND 0xffc0 \<noteq> 0xfe80" "\<not> (segment 0 (wrapped t) = 0x2001 \<and> segment 1 (wrapped t) = 0x0db8)"
  by (cases t; simp add: wrapped_fields)+

lemma unspecified_or_loopback:
  assumes "wrapped t = 0 \<or> wrapped t = 1"
  shows "list_ex is_blocked_v4 (carried t)"
proof -
  have e: "embedded_v4s 0 = [0]" "embedded_v4s 1 = [1]"
    using embedded_wrapped [of "Compatible 0"] embedded_wrapped [of "Compatible 1"] by simp_all
  have b: "is_blocked_v4 0" "is_blocked_v4 1"
    by (simp_all add: is_blocked_v4_def octet_def)
  show ?thesis using assms
  proof
    assume "wrapped t = 0"
    then have "carried t = [0]" by (metis embedded_wrapped e(1))
    then show ?thesis using b(1) by simp
  next
    assume "wrapped t = 1"
    then have "carried t = [1]" by (metis embedded_wrapped e(2))
    then show ?thesis using b(2) by simp
  qed
qed

section \<open>What the guard promises\<close>

lemma digits:
  fixes q k r a b :: nat
  assumes "q < k" "r < k"
  shows "a * k + q = b * k + r \<longleftrightarrow> a = b \<and> q = r"
proof
  assume "a * k + q = b * k + r"
  then have "(a * k + q) div k = (b * k + r) div k" "(a * k + q) mod k = (b * k + r) mod k" by simp_all
  then show "a = b \<and> q = r" using assms by simp
qed simp

text \<open>
  The fixed IPv4 table is exactly the eleven networks of the documentation: the octet tests of the code
  accept an address iff it shares the prefix of one of them.
\<close>

theorem denied_v4_networks: "is_blocked_v4 ip = list_ex (in_net4 ip) DENIED_V4"
proof -
  obtain a b c d :: nat where n: "unat ip = ((a * 256 + b) * 256 + c) * 256 + d"
    and s: "a < 256" "b < 256" "c < 256" "d < 256"
    and o: "unat (octet 0 ip) = a" "unat (octet 1 ip) = b" "unat (octet 2 ip) = c" "unat (octet 3 ip) = d"
    by (rule octets_of)
  have q: "b div 16 < 16" "b div 64 < 4" "b div 2 < 128" using s(2) by simp_all
  have ranges: "b div 16 = 1 \<longleftrightarrow> 16 \<le> b \<and> b \<le> 31" "b div 64 = 1 \<longleftrightarrow> 64 \<le> b \<and> b \<le> 127"
    "b div 2 = 9 \<longleftrightarrow> b = 18 \<or> b = 19" "a div 16 = 14 \<longleftrightarrow> 224 \<le> a \<and> a \<le> 239"
    by (rule iffI; linarith)+
  have top: "a div 16 = 15 \<longleftrightarrow> 240 \<le> a" using s(1) by linarith
  have r: "a * 16 + b div 16 = 172 * 16 + 1 \<longleftrightarrow> a = 172 \<and> 16 \<le> b \<and> b \<le> 31"
    "a * 256 + b = 192 * 256 + 168 \<longleftrightarrow> a = 192 \<and> b = 168"
    "a * 256 + b = 169 * 256 + 254 \<longleftrightarrow> a = 169 \<and> b = 254"
    "a * 4 + b div 64 = 100 * 4 + 1 \<longleftrightarrow> a = 100 \<and> 64 \<le> b \<and> b \<le> 127"
    "a * 128 + b div 2 = 198 * 128 + 9 \<longleftrightarrow> a = 198 \<and> (b = 18 \<or> b = 19)"
    using digits [OF q(1), of 1 a 172] digits [OF s(2), of 168 a 192] digits [OF s(2), of 254 a 169]
      digits [OF q(2), of 1 a 100] digits [OF q(3), of 9 a 198]
    unfolding ranges by simp_all
  have last: "unat ip = 4294967295 \<Longrightarrow> 240 \<le> a"
    using n s by (simp add: algebra_simps)
  show ?thesis
    unfolding is_blocked_v4_octets [OF o] in_denied_octets [OF n s] r ranges top using last by blast
qed

text \<open>
  C36. No transition form hides an address: an IPv6 address that wraps IPv4 addresses is denied exactly when
  one of them would be denied on its own, or when the operator listed the wrapping address itself.
\<close>

theorem wrapping_hides_nothing:
  "is_blocked (V6 (wrapped t)) policy
   = (list_ex (\<lambda>v. is_blocked (V4 v) policy) (carried t) \<or> list_ex (\<lambda>net. net (V6 (wrapped t))) policy)"
proof -
  have six: "is_blocked_v6 (wrapped t) = list_ex is_blocked_v4 (carried t)"
    using native_wrapped [of t] unspecified_or_loopback [of t]
    unfolding is_blocked_v6_def embedded_wrapped by auto
  show ?thesis
    unfolding is_blocked_def embedded_wrapped ip_addr.case six by (auto simp: list_ex_iff)
qed

definition host_denotes :: "(string \<Rightarrow> ip_addr list option) \<Rightarrow> url_host \<Rightarrow> ip_addr list \<Rightarrow> bool" where
  "host_denotes resolve h ips =
     (case h of Host_V4 v4 \<Rightarrow> ips = [V4 v4] | Host_V6 v6 \<Rightarrow> ips = [V6 v6]
      | Host_Domain name \<Rightarrow> name \<noteq> [] \<and> resolve name = Some ips)"

lemma denoted_addresses: "host_addresses resolve h = Inr xs \<longleftrightarrow> host_denotes resolve h xs"
  by (auto simp: host_addresses_def host_denotes_def split: url_host.splits option.splits)

lemma none_blocked: "find (\<lambda>ip. is_blocked ip policy) xs = None \<longleftrightarrow> list_all (\<lambda>ip. \<not> is_blocked ip policy) xs"
  by (auto simp: find_None_iff list_all_iff)

text \<open>
  An address is accepted exactly when it parses, its scheme is https, its port is absent or 443, its host
  has addresses (a literal is its own, a name is resolved once) and every one of them is allowed; the answer
  pins those addresses. One denied address among public ones refuses the whole.
\<close>

theorem webhook_accepted_iff:
  "(validate_webhook_url parse resolve policy raw = Inr \<lparr>vh_url = u, vh_pinned_ips = ips\<rparr>) =
   (parse raw = Some u \<and> ur_scheme u = ''https'' \<and> (ur_port u = None \<or> ur_port u = Some ALLOWED_PORT)
    \<and> (case ur_host u of None \<Rightarrow> False | Some h \<Rightarrow> host_denotes resolve h ips)
    \<and> ips \<noteq> [] \<and> list_all (\<lambda>ip. \<not> is_blocked ip policy) ips)"
  unfolding validate_webhook_url_def Let_def
  by (auto simp: denoted_addresses [symmetric] none_blocked [symmetric] split: option.splits sum.splits if_splits)

lemma validated_webhookD:
  assumes "validate_webhook_url parse resolve policy raw = Inr \<lparr>vh_url = u, vh_pinned_ips = ips\<rparr>"
  shows "ur_scheme u = ''https''" "ur_port u \<in> {None, Some ALLOWED_PORT}" "ips \<noteq> []"
    "list_all (\<lambda>ip. \<not> is_blocked ip policy) ips" "\<exists>h. ur_host u = Some h \<and> host_denotes resolve h ips"
  using assms unfolding validate_webhook_url_def Let_def
  by (auto simp: denoted_addresses [symmetric] none_blocked [symmetric] split: option.splits sum.splits if_splits)

end
