(* ===== verification/Push_Configs.thy ===== *)
theory Push_Configs
  imports A2a_Stream Ssrf
begin

text \<open>
  Push notifications: the configurations a caller registers on its tasks (\<open>db/push_notifications.rs\<close>, the
  configuration requests of \<open>a2a/handler.rs\<close>) and the encryption of their tokens (\<open>a2a/push_crypto.rs\<close>). The
  cipher, the random numbers, the URL parser and the resolver are parameters.
\<close>

section \<open>Statements\<close>

definition insert_push_config ::
  "nat \<Rightarrow> string \<Rightarrow> string \<Rightarrow> string \<Rightarrow> string option \<Rightarrow> string \<Rightarrow> a2a_db \<Rightarrow> (sql_error, a2a_db) result" where
  "insert_push_config now i task url token creator db =
     (if list_ex (\<lambda>c. pc_id c = i) (ad_configs db) then Inl UniqueViolation
      else if \<not> list_ex (\<lambda>r. ar_id r = task) (ad_rows db) then Inl ForeignKeyViolation
      else Inr (db\<lparr>ad_configs := ad_configs db @
             [\<lparr>pc_id = i, pc_task = task, pc_url = url, pc_token_enc = token, pc_delivered_seq = 0, pc_attempts = 0,
               pc_next_attempt_at = now, pc_state = Push_Active, pc_lease_owner = None,
               pc_lease_expires_at = None, pc_created_at = now, pc_created_by = creator\<rparr>]\<rparr>))"

definition get_push_config :: "push_config list \<Rightarrow> string \<Rightarrow> push_config option" where
  "get_push_config cs i = row_of pc_id cs i"

definition list_push_configs_for_task :: "push_config list \<Rightarrow> string \<Rightarrow> push_config list" where
  "list_push_configs_for_task cs task =
     sort_key (\<lambda>c. (pc_created_at c, pc_id c)) (filter (\<lambda>c. pc_task c = task) cs)"

definition delete_push_config :: "string \<Rightarrow> string \<Rightarrow> push_config list \<Rightarrow> bool \<times> push_config list" where
  "delete_push_config i task cs =
     (list_ex (\<lambda>c. pc_id c = i \<and> pc_task c = task) cs, filter (\<lambda>c. \<not> (pc_id c = i \<and> pc_task c = task)) cs)"

definition count_active_push_configs_for_caller :: "push_config list \<Rightarrow> string \<Rightarrow> string \<Rightarrow> int" where
  "count_active_push_configs_for_caller cs task creator =
     int (length (filter (\<lambda>c. pc_task c = task \<and> pc_created_by c = creator \<and> pc_state c = Push_Active) cs))"

definition claimable :: "nat \<Rightarrow> event_row list \<Rightarrow> push_config \<Rightarrow> bool" where
  "claimable now evs c \<longleftrightarrow> pc_state c = Push_Active \<and> pc_next_attempt_at c \<le> now
     \<and> (case pc_lease_expires_at c of None \<Rightarrow> True | Some t \<Rightarrow> t < now)
     \<and> pc_delivered_seq c < max_seq (pc_task c) evs"

text \<open>The earliest claimable row that no concurrent claim holds locked.\<close>

definition claim_next_push_config ::
  "nat \<Rightarrow> string set \<Rightarrow> string \<Rightarrow> nat \<Rightarrow> a2a_db \<Rightarrow> push_config option \<times> a2a_db" where
  "claim_next_push_config now locked owner lease db =
     (case sort_key (\<lambda>c. (pc_next_attempt_at c, pc_id c))
             (filter (\<lambda>c. claimable now (ad_events db) c \<and> pc_id c \<notin> locked) (ad_configs db)) of
        [] \<Rightarrow> (None, db)
      | c # _ \<Rightarrow>
          (let take_lease = (\<lambda>c. c\<lparr>pc_lease_owner := Some owner, pc_lease_expires_at := Some (now + lease)\<rparr>)
           in (Some (take_lease c),
               db\<lparr>ad_configs := update_where (\<lambda>x. pc_id x = pc_id c) take_lease (ad_configs db)\<rparr>)))"

definition next_push_event :: "event_row list \<Rightarrow> string \<Rightarrow> int \<Rightarrow> (int \<times> json) option" where
  "next_push_event evs task after =
     (case fetch_events_after evs task after of [] \<Rightarrow> None | (seq, payload, _) # _ \<Rightarrow> Some (seq, payload))"

definition update_config :: "string \<Rightarrow> (push_config \<Rightarrow> push_config) \<Rightarrow> a2a_db \<Rightarrow> a2a_db" where
  "update_config i f db = db\<lparr>ad_configs := update_where (\<lambda>c. pc_id c = i) f (ad_configs db)\<rparr>"

definition advance_push_delivered :: "nat \<Rightarrow> string \<Rightarrow> int \<Rightarrow> nat \<Rightarrow> a2a_db \<Rightarrow> a2a_db" where
  "advance_push_delivered now i seq lease =
     update_config i (\<lambda>c. if pc_delivered_seq c < seq
       then c\<lparr>pc_delivered_seq := seq, pc_attempts := 0, pc_next_attempt_at := now,
              pc_lease_expires_at := Some (now + lease)\<rparr>
       else c)"

definition release_push_config :: "string \<Rightarrow> a2a_db \<Rightarrow> a2a_db" where
  "release_push_config i = update_config i (\<lambda>c. c\<lparr>pc_lease_owner := None, pc_lease_expires_at := None\<rparr>)"

definition bump_push_attempts :: "string \<Rightarrow> a2a_db \<Rightarrow> (sql_error, int) result \<times> a2a_db" where
  "bump_push_attempts i db =
     (case get_push_config (ad_configs db) i of
        None \<Rightarrow> (Inl Unavailable, db)
      | Some c \<Rightarrow> (Inr (pc_attempts c + 1), update_config i (\<lambda>c. c\<lparr>pc_attempts := pc_attempts c + 1\<rparr>) db))"

definition schedule_push_retry :: "nat \<Rightarrow> string \<Rightarrow> nat \<Rightarrow> bool \<Rightarrow> a2a_db \<Rightarrow> a2a_db" where
  "schedule_push_retry now i backoff disable =
     update_config i (\<lambda>c. c\<lparr>pc_next_attempt_at := now + backoff,
       pc_state := (if disable then Push_Disabled else pc_state c), pc_lease_owner := None,
       pc_lease_expires_at := None\<rparr>)"

text \<open>The retention sweep; deleting a task deletes its events and configurations.\<close>

definition sweepable :: "nat \<Rightarrow> int \<Rightarrow> event_row list \<Rightarrow> a2a_row \<Rightarrow> bool" where
  "sweepable now ttl_days evs r \<longleftrightarrow> int (ar_created_at r) < int now - ttl_days * 86400
     \<and> (has_final (ar_id r) evs \<or> ar_state r \<in> {''TASK_STATE_COMPLETED'', ''TASK_STATE_FAILED'',
                                                     ''TASK_STATE_CANCELED'', ''TASK_STATE_REJECTED''})"

definition sweep_terminal_a2a_tasks :: "nat \<Rightarrow> int \<Rightarrow> int \<Rightarrow> a2a_db \<Rightarrow> nat \<times> a2a_db" where
  "sweep_terminal_a2a_tasks now ttl_days batch db =
     (if ttl_days \<le> 0 \<or> batch \<le> 0 then (0, db)
      else let ids = map ar_id (take (nat batch) (sort_key (\<lambda>r. (ar_created_at r, ar_id r))
                       (filter (sweepable now ttl_days (ad_events db)) (ad_rows db))))
           in (length ids,
               db\<lparr>ad_rows := filter (\<lambda>r. ar_id r \<notin> set ids) (ad_rows db),
                  ad_events := filter (\<lambda>e. ev_task e \<notin> set ids) (ad_events db),
                  ad_configs := filter (\<lambda>c. pc_task c \<notin> set ids) (ad_configs db)\<rparr>))"

section \<open>Tokens at rest\<close>

text \<open>The cipher: sealing under a key and a nonce, opening, and the UTF-8 check on the result.\<close>

record aead =
  ad_seal :: "string \<Rightarrow> string \<Rightarrow> string \<Rightarrow> string"
  ad_open :: "string \<Rightarrow> string \<Rightarrow> string \<Rightarrow> string option"
  ad_utf8 :: "string \<Rightarrow> bool"

definition NONCE_LEN :: nat where "NONCE_LEN = 12"
definition TAG_LEN :: nat where "TAG_LEN = 16"
definition KEY_LEN :: nat where "KEY_LEN = 32"

definition key_from_bytes :: "string \<Rightarrow> string option" where
  "key_from_bytes bytes = (if length bytes = KEY_LEN then Some bytes else None)"

definition key_from_base64 :: "(string \<Rightarrow> string option) \<Rightarrow> string \<Rightarrow> string option" where
  "key_from_base64 decode encoded = Option.bind (decode (trim encoded)) key_from_bytes"

definition push_token_key :: "(string \<Rightarrow> string option) \<Rightarrow> string option \<Rightarrow> string option" where
  "push_token_key decode raw =
     (case raw of None \<Rightarrow> None | Some r \<Rightarrow> if trim r = [] then None else key_from_base64 decode r)"

definition encrypt_token :: "aead \<Rightarrow> string \<Rightarrow> string \<Rightarrow> string \<Rightarrow> string" where
  "encrypt_token a nonce plaintext key = nonce @ ad_seal a key nonce plaintext"

definition decrypt_token :: "aead \<Rightarrow> string \<Rightarrow> string \<Rightarrow> string option" where
  "decrypt_token a bytes key =
     (if length bytes < NONCE_LEN + TAG_LEN then None
      else case ad_open a key (take NONCE_LEN bytes) (drop NONCE_LEN bytes) of
        None \<Rightarrow> None
      | Some plaintext \<Rightarrow> if ad_utf8 a plaintext then Some plaintext else None)"

section \<open>Requests on configurations\<close>

record push_request =
  pq_url :: string
  pq_id :: "string option"
  pq_task_id :: string
  pq_token :: "string option"
  pq_tenant :: "string option"

record push_site =
  px_env :: a2a_env
  px_limits :: handler_limits
  px_aead :: aead
  px_key :: "string option"
  px_parse_url :: "string \<Rightarrow> url option"
  px_show_ip :: "ip_addr \<Rightarrow> string"

record push_call =
  py_run :: a2a_run
  py_config_id :: string
  py_nonce :: string
  py_resolve :: "string \<Rightarrow> ip_addr list option"

definition push_config_view :: "push_site \<Rightarrow> push_config \<Rightarrow> push_request" where
  "push_config_view site c =
     \<lparr>pq_url = pc_url c, pq_id = Some (pc_id c), pq_task_id = pc_task c,
      pq_token = (case (pc_token_enc c, px_key site) of
                    (Some bytes, Some key) \<Rightarrow> decrypt_token (px_aead site) bytes key
                  | _ \<Rightarrow> None),
      pq_tenant = None\<rparr>"

text \<open>What every request on configurations checks first: the caller, no tenant, the task is the caller's own.\<close>

definition on_own_task ::
  "push_site \<Rightarrow> a2a_run \<Rightarrow> service_params \<Rightarrow> string option \<Rightarrow> string \<Rightarrow> a2a_db \<Rightarrow> (a2a_error, caller \<times> string) result" where
  "on_own_task site run ps tenant task db =
     (case caller_of ps of
        Inl e \<Rightarrow> Inl e
      | Inr c \<Rightarrow>
          if tenant \<noteq> None then Inl (Unsupported_Operation ''multi-tenant A2A requests are not supported'')
          else (case owned_task (px_env site) run c task db of
                  Inl e \<Rightarrow> Inl e
                | Inr (i, _) \<Rightarrow> Inr (c, i)))"

definition handle_create_push_config ::
  "push_site \<Rightarrow> push_call \<Rightarrow> service_params \<Rightarrow> push_request \<Rightarrow> a2a_db \<Rightarrow> (a2a_error, push_request) result \<times> a2a_db" where
  "handle_create_push_config site call ps req db =
     (let run = py_run call in
      case on_own_task site run ps (pq_tenant req) (pq_task_id req) db of
        Inl e \<Rightarrow> (Inl e, db)
      | Inr (c, task) \<Rightarrow>
          if \<not> ax_up run A_Count then (Inl db_error, db)
          else let active = count_active_push_configs_for_caller (ad_configs db) task (cl_id c);
                   cap = hl_push_config_cap (px_limits site) in
          if cap \<le> active
          then (Inl (Invalid_Params (''push-notification config limit reached for this task ('' @ dec_int active @ '' of ''
                  @ dec_int cap @ '' used); delete an existing config before registering another'')), db)
          else (case validate_webhook_url (px_parse_url site) (py_resolve call) [] (pq_url req) of
            Inl err \<Rightarrow> (Inl (Invalid_Params (ssrf_error_text (px_show_ip site) err)), db)
          | Inr _ \<Rightarrow>
              (case (case pq_token req of
                       None \<Rightarrow> Inr None
                     | Some token \<Rightarrow>
                         (case px_key site of
                            None \<Rightarrow> Inl (Invalid_Params ''push token encryption is not configured; this server cannot accept a webhook auth token'')
                          | Some key \<Rightarrow> Inr (Some (encrypt_token (px_aead site) (py_nonce call) token key)))) of
                 Inl e \<Rightarrow> (Inl e, db)
               | Inr token_enc \<Rightarrow>
                   if \<not> ax_up run A_Config then (Inl db_error, db)
                   else (case insert_push_config (ax_now run) (py_config_id call) task (pq_url req) token_enc (cl_id c) db of
                           Inl _ \<Rightarrow> (Inl db_error, db)
                         | Inr db' \<Rightarrow> (Inr (req\<lparr>pq_id := Some (py_config_id call), pq_task_id := task\<rparr>), db')))))"

definition handle_get_push_config ::
  "push_site \<Rightarrow> a2a_run \<Rightarrow> service_params \<Rightarrow> string option \<Rightarrow> string \<Rightarrow> string \<Rightarrow> a2a_db
   \<Rightarrow> (a2a_error, push_request) result" where
  "handle_get_push_config site run ps tenant task raw db =
     (case on_own_task site run ps tenant task db of
        Inl e \<Rightarrow> Inl e
      | Inr (c, t) \<Rightarrow>
          (case ae_uuid (px_env site) raw of
             None \<Rightarrow> Inl (Task_Not_Found raw)
           | Some i \<Rightarrow>
               if \<not> ax_up run A_Config then Inl db_error
               else (case get_push_config (ad_configs db) i of
                       None \<Rightarrow> Inl (Task_Not_Found raw)
                     | Some row \<Rightarrow> if pc_task row = t then Inr (push_config_view site row)
                                   else Inl (Task_Not_Found raw))))"

definition handle_list_push_configs ::
  "push_site \<Rightarrow> a2a_run \<Rightarrow> service_params \<Rightarrow> string option \<Rightarrow> string \<Rightarrow> a2a_db \<Rightarrow> (a2a_error, push_request list) result" where
  "handle_list_push_configs site run ps tenant task db =
     (case on_own_task site run ps tenant task db of
        Inl e \<Rightarrow> Inl e
      | Inr (c, t) \<Rightarrow>
          if \<not> ax_up run A_Config then Inl db_error
          else Inr (map (push_config_view site) (list_push_configs_for_task (ad_configs db) t)))"

definition handle_delete_push_config ::
  "push_site \<Rightarrow> a2a_run \<Rightarrow> service_params \<Rightarrow> string option \<Rightarrow> string \<Rightarrow> string \<Rightarrow> a2a_db
   \<Rightarrow> (a2a_error, unit) result \<times> a2a_db" where
  "handle_delete_push_config site run ps tenant task raw db =
     (case on_own_task site run ps tenant task db of
        Inl e \<Rightarrow> (Inl e, db)
      | Inr (c, t) \<Rightarrow>
          (case ae_uuid (px_env site) raw of
             None \<Rightarrow> (Inl (Task_Not_Found raw), db)
           | Some i \<Rightarrow>
               if \<not> ax_up run A_Config then (Inl db_error, db)
               else (let (deleted, cs) = delete_push_config i t (ad_configs db)
                     in if deleted then (Inr (), db\<lparr>ad_configs := cs\<rparr>) else (Inl (Task_Not_Found raw), db))))"

end
