(* ===== verification/Push_Notifier.thy ===== *)
theory Push_Notifier
  imports Push_Configs
begin

text \<open>
  The worker that delivers a task's log to the webhooks registered on it (\<open>queue/notifier.rs\<close>,
  \<open>queue/a2a_sweeper.rs\<close>). A receiver answers from the calls it has had so far; the calls are kept in order.
  A round names, for every event it tries, which statements the database answers, the time and the resolver.
\<close>

section \<open>Configuration\<close>

record notifier_config =
  nf_poll_interval :: nat
  nf_lease :: nat
  nf_max_attempts :: int
  nf_max_events :: nat

text \<open>\<open>parse_u64\<close>, \<open>parse_i32\<close> and \<open>parse_usize\<close> are the standard library's parsers.\<close>

definition notifier_from_env ::
  "(string \<Rightarrow> nat option) \<Rightarrow> (string \<Rightarrow> int option) \<Rightarrow> (string \<Rightarrow> nat option) \<Rightarrow> (string \<Rightarrow> string option) \<Rightarrow> notifier_config" where
  "notifier_from_env parse_u64 parse_i32 parse_usize env =
     (let secs = (\<lambda>name dflt. case Option.bind (env name) parse_u64 of Some s \<Rightarrow> if s > 0 then s else dflt | None \<Rightarrow> dflt)
      in \<lparr>nf_poll_interval = secs ''NOTIFIER_POLL_SECS'' 3,
          nf_lease = secs ''NOTIFIER_LEASE_SECS'' 60,
          nf_max_attempts = (case Option.bind (env ''NOTIFIER_MAX_ATTEMPTS'') parse_i32 of
                               Some m \<Rightarrow> if m > 0 then m else 8 | None \<Rightarrow> 8),
          nf_max_events = (case Option.bind (env ''NOTIFIER_MAX_EVENTS_PER_CLAIM'') parse_usize of
                             Some m \<Rightarrow> if m > 0 then m else 50 | None \<Rightarrow> 50)\<rparr>)"

definition push_backoff :: "int \<Rightarrow> nat" where
  "push_backoff attempts = min (15 * 2 ^ (nat (max 1 (min 16 attempts)) - 1)) 3600"

section \<open>The receiver\<close>

record send_call =
  sc_webhook :: validated_webhook
  sc_token :: "string option"
  sc_event_id :: string
  sc_payload :: json

type_synonym webhook_sender = "send_call list \<Rightarrow> send_call \<Rightarrow> (string, unit) result"

text \<open>The client built for one delivery: no redirects, two timeouts, and for a name the pinned address.\<close>

record http_client =
  hc_redirects :: bool
  hc_connect_timeout :: nat
  hc_timeout :: nat
  hc_resolve :: "(string \<times> ip_addr \<times> nat) option"

definition HTTPS_PORT :: nat where "HTTPS_PORT = 443"

definition build_pinned_client :: "validated_webhook \<Rightarrow> http_client" where
  "build_pinned_client v =
     \<lparr>hc_redirects = False, hc_connect_timeout = 10, hc_timeout = 20,
      hc_resolve = (case (ur_host (vh_url v), vh_pinned_ips v) of
                      (Some (Host_Domain name), ip # _) \<Rightarrow> Some (name, ip, HTTPS_PORT)
                    | _ \<Rightarrow> None)\<rparr>"

text \<open>\<open>post\<close> is the request itself: the client, the call as sent, and the status that came back with its text.\<close>

definition reqwest_send ::
  "(http_client \<Rightarrow> url \<Rightarrow> (string \<times> string) list \<Rightarrow> json \<Rightarrow> (string, nat \<times> string) result) \<Rightarrow> webhook_sender" where
  "reqwest_send post calls c =
     (let headers = (''X-A2A-Notification-Id'', sc_event_id c)
            # (case sc_token c of None \<Rightarrow> [] | Some t \<Rightarrow> [(''Authorization'', ''Bearer '' @ t)])
      in case post (build_pinned_client (sc_webhook c)) (vh_url (sc_webhook c)) headers (sc_payload c) of
           Inl e \<Rightarrow> Inl (''webhook POST failed: '' @ e)
         | Inr (status, status_line) \<Rightarrow>
             if 200 \<le> status \<and> status < 300 then Inr () else Inl (''webhook returned status '' @ status_line))"

text \<open>The address such a client connects to for the URL: the pinned one, or the literal of the URL.\<close>

fun connects_to :: "http_client \<Rightarrow> url_host option \<Rightarrow> ip_addr option" where
  "connects_to hc (Some (Host_V4 v4)) = Some (V4 v4)"
| "connects_to hc (Some (Host_V6 v6)) = Some (V6 v6)"
| "connects_to hc (Some (Host_Domain name)) =
     (case hc_resolve hc of Some (n, ip, _) \<Rightarrow> if n = name then Some ip else None | None \<Rightarrow> None)"
| "connects_to hc None = None"

section \<open>One delivery\<close>

record push_worker =
  pw_parse_url :: "string \<Rightarrow> url option"
  pw_show_ip :: "ip_addr \<Rightarrow> string"
  pw_policy :: ssrf_policy
  pw_aead :: aead
  pw_key :: "string option"
  pw_config :: notifier_config
  pw_owner :: string
  pw_sender :: webhook_sender

definition resolve_token :: "push_worker \<Rightarrow> push_config \<Rightarrow> (string, string option) result" where
  "resolve_token k c =
     (case pc_token_enc c of
        None \<Rightarrow> Inr None
      | Some bytes \<Rightarrow>
          (case pw_key k of
             None \<Rightarrow> Inl ''configured webhook auth token cannot be decrypted (no key)''
           | Some key \<Rightarrow>
               (case decrypt_token (pw_aead k) bytes key of
                  None \<Rightarrow> Inl ''configured webhook auth token failed to decrypt''
                | Some token \<Rightarrow> Inr (Some token))))"

definition event_id :: "push_config \<Rightarrow> int \<Rightarrow> string" where
  "event_id c seq = pc_task c @ '':'' @ dec_int seq"

definition deliver_one ::
  "push_worker \<Rightarrow> (string \<Rightarrow> ip_addr list option) \<Rightarrow> push_config \<Rightarrow> int \<Rightarrow> json \<Rightarrow> send_call list
   \<Rightarrow> (string, unit) result \<times> send_call list" where
  "deliver_one k resolve c seq payload calls =
     (case validate_webhook_url (pw_parse_url k) resolve (pw_policy k) (pc_url c) of
        Inl err \<Rightarrow> (Inl (''SSRF re-validation blocked delivery: '' @ ssrf_error_text (pw_show_ip k) err), calls)
      | Inr v \<Rightarrow>
          (case resolve_token k c of
             Inl e \<Rightarrow> (Inl e, calls)
           | Inr token \<Rightarrow>
               (let call = \<lparr>sc_webhook = v, sc_token = token, sc_event_id = event_id c seq, sc_payload = payload\<rparr>
                in (pw_sender k calls call, calls @ [call]))))"

datatype push_query = P_Claim | P_Next | P_Advance | P_Release | P_Bump | P_Retry

record push_round =
  pn_up :: "nat \<Rightarrow> push_query \<Rightarrow> bool"
  pn_now :: "nat \<Rightarrow> nat"
  pn_resolve :: "nat \<Rightarrow> string \<Rightarrow> ip_addr list option"
  pn_locked :: "string set"

definition record_failure :: "push_worker \<Rightarrow> push_round \<Rightarrow> nat \<Rightarrow> push_config \<Rightarrow> a2a_db \<Rightarrow> a2a_db" where
  "record_failure k r n c db =
     (if \<not> pn_up r n P_Bump then db
      else case bump_push_attempts (pc_id c) db of
        (Inl _, db1) \<Rightarrow> db1
      | (Inr attempts, db1) \<Rightarrow>
          if pn_up r n P_Retry
          then schedule_push_retry (pn_now r n) (pc_id c) (push_backoff attempts)
                 (nf_max_attempts (pw_config k) \<le> attempts) db1
          else db1)"

text \<open>The events past the cursor, one at a time; \<open>n\<close> of them are delivered so far.\<close>

function deliver_claimed ::
  "push_worker \<Rightarrow> push_round \<Rightarrow> push_config \<Rightarrow> nat \<Rightarrow> int \<Rightarrow> send_call list \<Rightarrow> a2a_db \<Rightarrow> send_call list \<times> a2a_db" where
  "deliver_claimed k r c n cursor calls db =
     (if \<not> pn_up r n P_Next then (calls, db)
      else case next_push_event (ad_events db) (pc_task c) cursor of
        None \<Rightarrow> (calls, if pn_up r n P_Release then release_push_config (pc_id c) db else db)
      | Some (seq, payload) \<Rightarrow>
          (case deliver_one k (pn_resolve r n) c seq payload calls of
             (Inl _, calls') \<Rightarrow> (calls', record_failure k r n c db)
           | (Inr _, calls') \<Rightarrow>
               if \<not> pn_up r n P_Advance then (calls', db)
               else (let db' = advance_push_delivered (pn_now r n) (pc_id c) seq (nf_lease (pw_config k)) db in
                     if nf_max_events (pw_config k) \<le> n + 1
                     then (calls', if pn_up r n P_Release then release_push_config (pc_id c) db' else db')
                     else deliver_claimed k r c (n + 1) seq calls' db')))"
  by pat_completeness auto
termination
  by (relation "measure (\<lambda>(k, _, _, n, _). nf_max_events (pw_config k) - n)") auto

declare deliver_claimed.simps [simp del]

definition deliver_next_due ::
  "push_worker \<Rightarrow> push_round \<Rightarrow> send_call list \<Rightarrow> a2a_db \<Rightarrow> (sql_error, bool) result \<times> send_call list \<times> a2a_db" where
  "deliver_next_due k r calls db =
     (if \<not> pn_up r 0 P_Claim then (Inl Unavailable, calls, db)
      else case claim_next_push_config (pn_now r 0) (pn_locked r) (pw_owner k) (nf_lease (pw_config k)) db of
        (None, db1) \<Rightarrow> (Inr False, calls, db1)
      | (Some c, db1) \<Rightarrow>
          (let (calls', db') = deliver_claimed k r c 0 (pc_delivered_seq c) calls db1 in (Inr True, calls', db')))"

text \<open>The drain: one round after the other until nothing is due. The list holds the rounds it may take.\<close>

fun drain_due :: "push_worker \<Rightarrow> push_round list \<Rightarrow> send_call list \<Rightarrow> a2a_db \<Rightarrow> (send_call list \<times> a2a_db) option" where
  "drain_due k [] calls db = None"
| "drain_due k (r # rs) calls db =
     (case deliver_next_due k r calls db of
        (Inl _, calls', db') \<Rightarrow> Some (calls', db')
      | (Inr False, calls', db') \<Rightarrow> Some (calls', db')
      | (Inr True, calls', db') \<Rightarrow> drain_due k rs calls' db')"

text \<open>The retention sweep of the dispatcher's slow tick.\<close>

definition a2a_sweep_once :: "bool \<Rightarrow> nat \<Rightarrow> int \<Rightarrow> int \<Rightarrow> a2a_db \<Rightarrow> (sql_error, unit) result \<times> a2a_db" where
  "a2a_sweep_once up now ttl_days batch db =
     (if up then (Inr (), snd (sweep_terminal_a2a_tasks now ttl_days batch db)) else (Inl Unavailable, db))"

end
