(* ===== verification/Push_Properties.thy ===== *)
theory Push_Properties
  imports Push_Notifier
begin

text \<open>
  What the delivery of push notifications promises: calls go only to checked addresses and carry the token
  the caller registered, events go out in the order of the log and none is skipped, failures back off and
  retire a webhook, and what a caller registers is checked, sealed and read back by that caller alone.
\<close>

section \<open>Statements on configurations\<close>

lemma get_update_config:
  assumes "\<And>c. pc_id (f c) = pc_id c"
  shows "get_push_config (ad_configs (update_config i f db)) j
    = map_option (\<lambda>c. if pc_id c = i then f c else c) (get_push_config (ad_configs db) j)"
proof -
  have "row_of pc_id (update_where (\<lambda>c. pc_id c = i) f rs) j = map_option (\<lambda>c. if pc_id c = i then f c else c) (row_of pc_id rs j)" for rs
    by (induction rs) (auto simp: row_of_def update_where_def assms)
  then show ?thesis by (simp add: get_push_config_def update_config_def)
qed

lemma get_push_config_id: "get_push_config cs i = Some c \<Longrightarrow> pc_id c = i"
  by (auto simp: get_push_config_def row_of_def find_Some_iff)

lemma update_config_events [simp]:
  "ad_events (update_config i f db) = ad_events db" "ad_rows (update_config i f db) = ad_rows db"
  by (simp_all add: update_config_def)

lemma log_of_update_config [simp]: "log_of t (update_config i f db) = log_of t db"
  by (simp add: log_of_def)

lemma log_ok_update_config [simp]: "log_ok (update_config i f db) = log_ok db"
  by (simp add: log_ok_def)

lemma next_event:
  assumes "log_ok db" "m \<le> length (log_of t db)"
  shows "next_push_event (ad_events db) t (int m)
    = (if m = length (log_of t db) then None else Some (int m + 1, ev_payload (log_of t db ! m)))"
proof -
  let ?L = "log_of t db"
  have "filter (\<lambda>e. ev_task e = t \<and> int m < ev_seq e) (ad_events db) = filter (\<lambda>e. int m < ev_seq e) ?L"
    by (simp add: log_of_def conj_commute)
  then have f: "fetch_events_after (ad_events db) t (int m) = map (\<lambda>e. (ev_seq e, ev_payload e, ev_final e)) (drop m ?L)"
    by (simp add: fetch_events_after_def el.read_past_cursor[OF assms(1)])
  show ?thesis
  proof (cases "m = length ?L")
    case True
    then show ?thesis unfolding next_push_event_def f by simp
  next
    case False
    then have "drop m ?L = ?L ! m # drop (Suc m) ?L" using assms(2) by (simp add: Cons_nth_drop_Suc)
    then show ?thesis
      using False assms(2) el.seq_nth[OF assms(1), of m t] by (simp add: next_push_event_def f)
  qed
qed

section \<open>Order\<close>

lemma deliver_one_calls:
  "deliver_one k resolve c seq payload calls = (res, calls') \<Longrightarrow>
     (calls' = calls \<and> (\<exists>e. res = Inl e))
   \<or> (\<exists>v token. calls' = calls @ [\<lparr>sc_webhook = v, sc_token = token, sc_event_id = event_id c seq, sc_payload = payload\<rparr>]
        \<and> res = pw_sender k calls \<lparr>sc_webhook = v, sc_token = token, sc_event_id = event_id c seq, sc_payload = payload\<rparr>
        \<and> validate_webhook_url (pw_parse_url k) resolve (pw_policy k) (pc_url c) = Inr v
        \<and> resolve_token k c = Inr token)"
  by (auto simp: deliver_one_def Let_def split: sum.splits)

definition accepted :: "push_worker \<Rightarrow> send_call list \<Rightarrow> send_call list \<Rightarrow> bool" where
  "accepted k calls new \<longleftrightarrow> (\<forall>i<length new. pw_sender k (calls @ take i new) (new ! i) = Inr ())"

definition announces :: "push_config \<Rightarrow> event_row list \<Rightarrow> send_call list \<Rightarrow> bool" where
  "announces c es new \<longleftrightarrow>
     map (\<lambda>s. (sc_event_id s, sc_payload s)) new = map (\<lambda>e. (event_id c (ev_seq e), ev_payload e)) es"

definition in_order ::
  "push_worker \<Rightarrow> push_config \<Rightarrow> event_row list \<Rightarrow> nat \<Rightarrow> send_call list \<Rightarrow> send_call list \<times> a2a_db \<Rightarrow> bool" where
  "in_order k c L m calls out \<longleftrightarrow>
     (\<exists>a new row. fst out = calls @ new \<and> get_push_config (ad_configs (snd out)) (pc_id c) = Some row
        \<and> pc_delivered_seq row = int (m + a) \<and> a \<le> length new \<and> length new \<le> a + 1 \<and> m + length new \<le> length L
        \<and> announces c (take (length new) (drop m L)) new \<and> accepted k calls (take a new))"

lemma in_orderI:
  assumes "fst out = calls @ new" "get_push_config (ad_configs (snd out)) (pc_id c) = Some row"
    "pc_delivered_seq row = int (m + a)" "a \<le> length new" "length new \<le> a + 1" "m + length new \<le> length L"
    "announces c (take (length new) (drop m L)) new" "accepted k calls (take a new)"
  shows "in_order k c L m calls out"
  using assms unfolding in_order_def by blast

lemma accepted_Cons:
  "pw_sender k calls s = Inr () \<Longrightarrow> accepted k (calls @ [s]) new \<Longrightarrow> accepted k calls (s # new)"
  by (auto simp: accepted_def less_Suc_eq_0_disj)

lemma record_failure_keeps_cursor:
  assumes "get_push_config (ad_configs db) i = Some row"
  shows "\<exists>row'. get_push_config (ad_configs (record_failure k r n c db)) i = Some row' \<and> pc_delivered_seq row' = pc_delivered_seq row"
  using assms
  by (auto simp: record_failure_def bump_push_attempts_def schedule_push_retry_def get_update_config split: option.splits)

lemma deliver_claimed_in_order:
  assumes "log_ok db" "get_push_config (ad_configs db) (pc_id c) = Some row" "pc_delivered_seq row = int m"
    "m \<le> length (log_of (pc_task c) db)"
  shows "in_order k c (log_of (pc_task c) db) m calls (deliver_claimed k r c n (int m) calls db)"
  using assms
proof (induction "nf_max_events (pw_config k) - n" arbitrary: n m calls db row rule: less_induct)
  case less
  let ?L = "log_of (pc_task c) db"
  note nx = next_event[OF less.prems(1,4)]
  have stay: "in_order k c ?L m calls (calls, db')" if "get_push_config (ad_configs db') (pc_id c) = Some row'"
    "pc_delivered_seq row' = int m" for db' row'
    using that less.prems(4) by (intro in_orderI[where a = 0 and new = "[]"]) (auto simp: announces_def accepted_def)
  show ?case
  proof (cases "pn_up r n P_Next \<and> m \<noteq> length ?L")
    case False
    have "get_push_config (ad_configs (release_push_config (pc_id c) db)) (pc_id c)
        = Some (row\<lparr>pc_lease_owner := None, pc_lease_expires_at := None\<rparr>)"
      using less.prems(2) get_push_config_id[OF less.prems(2)] by (simp add: release_push_config_def get_update_config)
    moreover have "deliver_claimed k r c n (int m) calls db
        = (calls, if pn_up r n P_Next \<and> pn_up r n P_Release then release_push_config (pc_id c) db else db)"
    proof -
      have "pn_up r n P_Next \<Longrightarrow> next_push_event (ad_events db) (pc_task c) (int m) = None"
        using False nx by simp
      then show ?thesis by (subst deliver_claimed.simps) simp
    qed
    ultimately show ?thesis using stay[OF less.prems(2,3)] stay less.prems(3) by simp
  next
    case True
    then have m: "m < length ?L" using less.prems(4) by simp
    let ?p = "ev_payload (?L ! m)"
    have drop: "drop m ?L = ?L ! m # drop (Suc m) ?L" using m by (simp add: Cons_nth_drop_Suc)
    have seq: "ev_seq (?L ! m) = int m + 1" using el.seq_nth[OF less.prems(1)] m by simp
    obtain res calls' where one: "deliver_one k (pn_resolve r n) c (int m + 1) ?p calls = (res, calls')" by fastforce
    show ?thesis
    proof (cases res)
      case (Inl e)
      obtain row' where row': "get_push_config (ad_configs (record_failure k r n c db)) (pc_id c) = Some row'"
        "pc_delivered_seq row' = int m"
        using record_failure_keeps_cursor[OF less.prems(2)] less.prems(3) by metis
      have step: "deliver_claimed k r c n (int m) calls db = (calls', record_failure k r n c db)"
        using True m one Inl by (subst deliver_claimed.simps) (simp add: nx)
      from deliver_one_calls[OF one] show ?thesis
      proof (elim disjE exE conjE)
        assume "calls' = calls"
        then show ?thesis using stay[OF row'] by (simp add: step)
      next
        fix v token
        assume "calls' = calls @ [\<lparr>sc_webhook = v, sc_token = token, sc_event_id = event_id c (int m + 1), sc_payload = ?p\<rparr>]"
        then show ?thesis
          unfolding step using row' m
          by (intro in_orderI[where a = 0]) (auto simp: announces_def accepted_def drop seq)
      qed
    next
      case (Inr u)
      then obtain s where s: "calls' = calls @ [s]" "sc_event_id s = event_id c (int m + 1)" "sc_payload s = ?p"
        "pw_sender k calls s = Inr ()"
        using deliver_one_calls[OF one] by auto
      define db1 where "db1 = advance_push_delivered (pn_now r n) (pc_id c) (int m + 1) (nf_lease (pw_config k)) db"
      define row1 where "row1 = row\<lparr>pc_delivered_seq := int m + 1, pc_attempts := 0, pc_next_attempt_at := pn_now r n,
        pc_lease_expires_at := Some (pn_now r n + nf_lease (pw_config k))\<rparr>"
      have g1: "get_push_config (ad_configs db1) (pc_id c) = Some row1"
        unfolding db1_def row1_def advance_push_delivered_def
        using less.prems(2,3) get_push_config_id[OF less.prems(2)] by (simp add: get_update_config)
      have L1: "log_of (pc_task c) db1 = ?L" "log_ok db1" using less.prems(1) by (simp_all add: db1_def advance_push_delivered_def)
      have c1: "pc_delivered_seq row1 = int (Suc m)" by (simp add: row1_def)
      have step: "deliver_claimed k r c n (int m) calls db =
          (if \<not> pn_up r n P_Advance then (calls @ [s], db)
           else if nf_max_events (pw_config k) \<le> n + 1
           then (calls @ [s], if pn_up r n P_Release then release_push_config (pc_id c) db1 else db1)
           else deliver_claimed k r c (n + 1) (int (Suc m)) (calls @ [s]) db1)"
        using True m one Inr s(1) by (subst deliver_claimed.simps) (simp add: nx db1_def Let_def add.commute)
      have here: "in_order k c ?L m calls (calls @ [s], db')"
        if "get_push_config (ad_configs db') (pc_id c) = Some row'" "pc_delivered_seq row' = int (m + a)" "a \<le> 1" for db' row' a
        using that m s by (intro in_orderI[where new = "[s]" and a = a])
           (auto simp: announces_def accepted_def drop seq le_Suc_eq)
      show ?thesis
      proof (cases "pn_up r n P_Advance \<and> n + 1 < nf_max_events (pw_config k)")
        case False
        have rel: "get_push_config (ad_configs (release_push_config (pc_id c) db1)) (pc_id c)
            = Some (row1\<lparr>pc_lease_owner := None, pc_lease_expires_at := None\<rparr>)"
          using g1 get_push_config_id[OF g1] by (simp add: release_push_config_def get_update_config)
        show ?thesis
          unfolding step
          using False here[OF less.prems(2), of 0] here[OF g1, of 1] here[OF rel, of 1] less.prems(3) c1 by auto
      next
        case True
        have "in_order k c (log_of (pc_task c) db1) (Suc m) (calls @ [s])
            (deliver_claimed k r c (n + 1) (int (Suc m)) (calls @ [s]) db1)"
          by (rule less.hyps) (use True g1 L1 c1 m in auto)
        then obtain a new row' where o: "fst (deliver_claimed k r c (n + 1) (int (Suc m)) (calls @ [s]) db1) = (calls @ [s]) @ new"
          "get_push_config (ad_configs (snd (deliver_claimed k r c (n + 1) (int (Suc m)) (calls @ [s]) db1))) (pc_id c) = Some row'"
          "pc_delivered_seq row' = int (Suc m + a)" "a \<le> length new" "length new \<le> a + 1" "Suc m + length new \<le> length ?L"
          "announces c (take (length new) (drop (Suc m) ?L)) new" "accepted k (calls @ [s]) (take a new)"
          unfolding in_order_def L1 by blast
        show ?thesis
          unfolding step
          by (rule in_orderI[where a = "Suc a" and new = "s # new" and row = row'])
             (use True o s drop seq in \<open>auto simp: announces_def accepted_Cons\<close>)
      qed
    qed
  qed
qed

lemma claim_result:
  assumes "claim_next_push_config now locked owner lease db = (Some c, db1)"
  shows "\<exists>c0. c0 \<in> set (ad_configs db) \<and> claimable now (ad_events db) c0 \<and> pc_id c0 \<notin> locked
    \<and> c = c0\<lparr>pc_lease_owner := Some owner, pc_lease_expires_at := Some (now + lease)\<rparr>
    \<and> db1 = update_config (pc_id c0) (\<lambda>c. c\<lparr>pc_lease_owner := Some owner, pc_lease_expires_at := Some (now + lease)\<rparr>) db"
proof -
  let ?due = "sort_key (\<lambda>c. (pc_next_attempt_at c, pc_id c))
      (filter (\<lambda>c. claimable now (ad_events db) c \<and> pc_id c \<notin> locked) (ad_configs db))"
  obtain c0 rest where s: "?due = c0 # rest"
    using assms by (cases ?due) (auto simp: claim_next_push_config_def)
  then have "c0 \<in> set ?due" by simp
  then have "c0 \<in> set (ad_configs db) \<and> claimable now (ad_events db) c0 \<and> pc_id c0 \<notin> locked" by simp
  then show ?thesis
    using assms unfolding claim_next_push_config_def s update_config_def Let_def
    by (intro exI[of _ c0]) simp
qed

lemma find_by_id:
  "distinct (map key rs) \<Longrightarrow> r \<in> set rs \<Longrightarrow> find (\<lambda>x. key x = key r) rs = Some r"
  by (induction rs) auto

text \<open>
  C17. A round delivers one due webhook its events in the order of the log, from its cursor on: the calls made
  are those of consecutive entries, none skipped or repeated within the round, and the cursor afterwards
  counts exactly events the receiver accepted, at most one behind the calls (the one that failed, or whose
  success could not be recorded).
\<close>

theorem events_go_out_in_order:
  assumes "log_ok db" "distinct (map pc_id (ad_configs db))"
    "list_all (\<lambda>c. 0 \<le> pc_delivered_seq c \<and> pc_delivered_seq c \<le> int (length (log_of (pc_task c) db))) (ad_configs db)"
    "deliver_next_due k r calls db = (Inr True, calls', db')"
  shows "\<exists>c a new row. c \<in> set (ad_configs db) \<and> claimable (pn_now r 0) (ad_events db) c \<and> calls' = calls @ new
    \<and> get_push_config (ad_configs db') (pc_id c) = Some row \<and> pc_delivered_seq row = pc_delivered_seq c + int a
    \<and> a \<le> length new \<and> length new \<le> a + 1 \<and> accepted k calls (take a new)
    \<and> announces c (take (length new) (drop (nat (pc_delivered_seq c)) (log_of (pc_task c) db))) new"
proof -
  obtain c db1 where claim: "claim_next_push_config (pn_now r 0) (pn_locked r) (pw_owner k) (nf_lease (pw_config k)) db = (Some c, db1)"
    and run: "deliver_claimed k r c 0 (pc_delivered_seq c) calls db1 = (calls', db')"
    using assms(4) by (auto simp: deliver_next_due_def split: if_splits prod.splits option.splits)
  obtain c0 where c0: "c0 \<in> set (ad_configs db)" "claimable (pn_now r 0) (ad_events db) c0"
    "c = c0\<lparr>pc_lease_owner := Some (pw_owner k), pc_lease_expires_at := Some (pn_now r 0 + nf_lease (pw_config k))\<rparr>"
    "db1 = update_config (pc_id c0) (\<lambda>c. c\<lparr>pc_lease_owner := Some (pw_owner k),
             pc_lease_expires_at := Some (pn_now r 0 + nf_lease (pw_config k))\<rparr>) db"
    using claim_result[OF claim] by blast
  define m where "m = nat (pc_delivered_seq c0)"
  have m: "pc_delivered_seq c = int m" "m \<le> length (log_of (pc_task c) db1)"
    using assms(3) c0 by (auto simp: m_def list_all_iff)
  have "get_push_config (ad_configs db) (pc_id c0) = Some c0"
    unfolding get_push_config_def row_of_def by (rule find_by_id[OF assms(2) c0(1)])
  then have "get_push_config (ad_configs db1) (pc_id c) = Some c"
    by (simp add: c0 get_update_config)
  then have "in_order k c (log_of (pc_task c) db1) m calls (deliver_claimed k r c 0 (int m) calls db1)"
    by (rule deliver_claimed_in_order[rotated]) (use assms(1) c0 m in simp_all)
  then obtain a new row where o: "calls' = calls @ new" "get_push_config (ad_configs db') (pc_id c) = Some row"
    "pc_delivered_seq row = int (m + a)" "a \<le> length new" "length new \<le> a + 1" 
    "announces c (take (length new) (drop m (log_of (pc_task c) db1))) new" "accepted k calls (take a new)"
    using run m(1) by (auto simp: in_order_def)
  have "announces c0 (take (length new) (drop m (log_of (pc_task c0) db))) new"
    using o(6) by (simp add: announces_def event_id_def c0(3,4))
  then show ?thesis
    using c0 o m by (intro exI[of _ c0] exI[of _ a] exI[of _ new] exI[of _ row]) (auto simp: m_def)
qed

section \<open>Safety\<close>

text \<open>What a call of a webhook's row must be.\<close>

definition checked_call :: "push_worker \<Rightarrow> push_round \<Rightarrow> push_config \<Rightarrow> send_call \<Rightarrow> bool" where
  "checked_call k r c s \<longleftrightarrow>
     (\<exists>n. validate_webhook_url (pw_parse_url k) (pn_resolve r n) (pw_policy k) (pc_url c) = Inr (sc_webhook s))
     \<and> ur_scheme (vh_url (sc_webhook s)) = ''https'' \<and> ur_port (vh_url (sc_webhook s)) \<in> {None, Some ALLOWED_PORT}
     \<and> list_all (\<lambda>ip. \<not> is_blocked ip (pw_policy k)) (vh_pinned_ips (sc_webhook s))
     \<and> connects_to (build_pinned_client (sc_webhook s)) (ur_host (vh_url (sc_webhook s)))
         \<in> Some ` set (vh_pinned_ips (sc_webhook s))
     \<and> (case pc_token_enc c of
          None \<Rightarrow> sc_token s = None
        | Some sealed \<Rightarrow> (\<exists>key token. pw_key k = Some key \<and> decrypt_token (pw_aead k) sealed key = Some token
                                     \<and> sc_token s = Some token))
     \<and> (\<exists>seq. sc_event_id s = event_id c seq)"

lemma validated_checked:
  assumes "validate_webhook_url (pw_parse_url k) (pn_resolve r n) (pw_policy k) (pc_url c) = Inr v" "resolve_token k c = Inr token"
  shows "checked_call k r c \<lparr>sc_webhook = v, sc_token = token, sc_event_id = event_id c seq, sc_payload = p\<rparr>"
proof -
  obtain u ips where v: "v = \<lparr>vh_url = u, vh_pinned_ips = ips\<rparr>" by (cases v)
  have a: "ur_scheme u = ''https''" "ur_port u \<in> {None, Some ALLOWED_PORT}" "list_all (\<lambda>ip. \<not> is_blocked ip (pw_policy k)) ips"
    "ips \<noteq> []" and h: "\<exists>h. ur_host u = Some h \<and> host_denotes (pn_resolve r n) h ips"
    using validated_webhookD[OF assms(1)[unfolded v]] by auto
  from h obtain h where h: "ur_host u = Some h" "host_denotes (pn_resolve r n) h ips" by blast
  have "connects_to (build_pinned_client v) (ur_host u) \<in> Some ` set ips"
    using h a(4) by (cases h; cases ips) (auto simp: v host_denotes_def build_pinned_client_def)
  moreover have "case pc_token_enc c of None \<Rightarrow> token = None
      | Some sealed \<Rightarrow> (\<exists>key t. pw_key k = Some key \<and> decrypt_token (pw_aead k) sealed key = Some t \<and> token = Some t)"
  proof (cases "pc_token_enc c")
    case None
    then show ?thesis using assms(2) by (simp add: resolve_token_def)
  next
    case (Some sealed)
    then obtain key t where "pw_key k = Some key" "decrypt_token (pw_aead k) sealed key = Some t" "token = Some t"
      using assms(2) by (cases "pw_key k"; cases "decrypt_token (pw_aead k) sealed (the (pw_key k))")
        (auto simp: resolve_token_def)
    then show ?thesis using Some by simp
  qed
  ultimately show ?thesis using a assms(1) by (cases "pc_token_enc c") (auto simp: checked_call_def v)
qed

lemma deliver_claimed_checked:
  "\<exists>new. fst (deliver_claimed k r c n cursor calls db) = calls @ new \<and> list_all (checked_call k r c) new"
proof (induction k r c n cursor calls db rule: deliver_claimed.induct)
  case (1 k r c n cursor calls db)
  show ?case
  proof (cases "pn_up r n P_Next")
    case False
    then show ?thesis by (subst deliver_claimed.simps) simp
  next
    case up: True
    show ?thesis
    proof (cases "next_push_event (ad_events db) (pc_task c) cursor")
      case None
      then show ?thesis by (subst deliver_claimed.simps) simp
    next
      case (Some e)
      obtain seq payload where e: "e = (seq, payload)" by (cases e)
      obtain res calls1 where one: "deliver_one k (pn_resolve r n) c seq payload calls = (res, calls1)" by fastforce
      have here: "\<exists>new. calls1 = calls @ new \<and> list_all (checked_call k r c) new"
        using deliver_one_calls[OF one] validated_checked by fastforce
      let ?db = "advance_push_delivered (pn_now r n) (pc_id c) seq (nf_lease (pw_config k)) db"
      show ?thesis
      proof (cases "\<exists>u. res = Inr u \<and> pn_up r n P_Advance \<and> \<not> nf_max_events (pw_config k) \<le> n + 1")
        case True
        then have res: "res = Inr ()" and "pn_up r n P_Advance" "\<not> nf_max_events (pw_config k) \<le> n + 1" by auto
        then obtain more where "fst (deliver_claimed k r c (n + 1) seq calls1 ?db) = calls1 @ more" "list_all (checked_call k r c) more"
          using "1.IH"[OF _ Some e[symmetric] one[symmetric] res _ refl] up by auto
        moreover have "deliver_claimed k r c n cursor calls db = deliver_claimed k r c (n + 1) seq calls1 ?db"
          using True up Some e one by (subst deliver_claimed.simps) (auto simp: Let_def)
        ultimately show ?thesis using here by auto
      next
        case False
        then have "fst (deliver_claimed k r c n cursor calls db) = calls1"
          using up Some e one by (subst deliver_claimed.simps) (auto simp: Let_def split: sum.split)
        then show ?thesis using here by simp
      qed
    qed
  qed
qed

lemma claimed_from:
  assumes "claim_next_push_config now locked owner lease db = (Some c, db1)"
  shows "\<exists>row \<in> set (ad_configs db). claimable now (ad_events db) row \<and> pc_id row \<notin> locked
    \<and> c = row\<lparr>pc_lease_owner := Some owner, pc_lease_expires_at := Some (now + lease)\<rparr>"
proof -
  let ?due = "filter (\<lambda>c. claimable now (ad_events db) c \<and> pc_id c \<notin> locked) (ad_configs db)"
  let ?sorted = "sort_key (\<lambda>c. (pc_next_attempt_at c, pc_id c)) ?due"
  show ?thesis
  proof (cases ?sorted)
    case Nil
    then show ?thesis using assms by (simp add: claim_next_push_config_def)
  next
    case (Cons row rest)
    then have c: "c = row\<lparr>pc_lease_owner := Some owner, pc_lease_expires_at := Some (now + lease)\<rparr>"
      using assms by (simp add: claim_next_push_config_def Let_def)
    have "row \<in> set ?sorted" using Cons by simp
    then have "row \<in> set ?due" by (simp only: set_sort)
    then show ?thesis using c by (intro bexI[of _ row]) simp_all
  qed
qed

lemma checked_by_row:
  "checked_call k r (c\<lparr>pc_lease_owner := x, pc_lease_expires_at := y\<rparr>) s = checked_call k r c s"
  by (simp add: checked_call_def event_id_def)

text \<open>
  C18. Every call a round makes goes out checked and authenticated, to the one webhook the round claimed, a
  row of the table that was due: its address is that row's, valid at that moment, https on port 443; every
  address it is pinned to is allowed under the worker's policy and the client built for it connects to one of
  those; and it carries exactly the row's token, decrypted, or none if the row has none. A token that cannot
  be decrypted stops the call.
\<close>

theorem deliveries_are_checked:
  assumes "deliver_next_due k r calls db = (res, calls', db')"
  shows "\<exists>new. calls' = calls @ new
    \<and> (new = [] \<or> (\<exists>row \<in> set (ad_configs db). claimable (pn_now r 0) (ad_events db) row \<and> pc_id row \<notin> pn_locked r
                      \<and> list_all (checked_call k r row) new))"
proof (cases "pn_up r 0 P_Claim")
  case True
  obtain co db1 where claim:
    "claim_next_push_config (pn_now r 0) (pn_locked r) (pw_owner k) (nf_lease (pw_config k)) db = (co, db1)"
    by fastforce
  show ?thesis
  proof (cases co)
    case None
    then show ?thesis using assms claim True by (auto simp: deliver_next_due_def)
  next
    case (Some c)
    then have "calls' = fst (deliver_claimed k r c 0 (pc_delivered_seq c) calls db1)"
      using assms claim True by (simp add: deliver_next_due_def split: prod.splits)
    then obtain new where new: "calls' = calls @ new" "list_all (checked_call k r c) new"
      using deliver_claimed_checked by metis
    obtain row where "row \<in> set (ad_configs db)" "claimable (pn_now r 0) (ad_events db) row" "pc_id row \<notin> pn_locked r"
      "c = row\<lparr>pc_lease_owner := Some (pw_owner k), pc_lease_expires_at := Some (pn_now r 0 + nf_lease (pw_config k))\<rparr>"
      using claimed_from[OF claim[unfolded Some]] by blast
    then show ?thesis using new checked_by_row[where k = k and r = r and c = row] by (auto simp: list_all_iff)
  qed
qed (use assms in \<open>auto simp: deliver_next_due_def\<close>)

section \<open>Failures\<close>

lemma push_backoff_bounds: "15 \<le> push_backoff a \<and> push_backoff a \<le> 3600"
proof -
  have "15 * 1 \<le> 15 * (2::nat) ^ (nat (max 1 (min 16 a)) - 1)" by (rule mult_le_mono2) simp
  then show ?thesis by (simp add: push_backoff_def)
qed

text \<open>
  C37. A failed delivery backs off and is bounded. When its two writes are answered it adds one to the count of
  consecutive failures, keeps the cursor, frees the lease and puts the next attempt a back-off of 15 seconds to
  an hour away; once the count reaches the limit the webhook is disabled. When a write fails the lease stays:
  only the count may have moved. Either way no worker claims the webhook before its next attempt's time, nor
  once it is disabled, nor while the lease runs.
\<close>

theorem failing_webhook_is_retired:
  assumes "get_push_config (ad_configs db) (pc_id c) = Some row"
    "get_push_config (ad_configs (record_failure k r n c db)) (pc_id c) = Some row'"
  shows "(if pn_up r n P_Bump \<and> pn_up r n P_Retry
     then row' = row\<lparr>pc_attempts := pc_attempts row + 1,
                      pc_next_attempt_at := pn_now r n + push_backoff (pc_attempts row + 1),
                      pc_state := (if nf_max_attempts (pw_config k) \<le> pc_attempts row + 1 then Push_Disabled else pc_state row),
                      pc_lease_owner := None, pc_lease_expires_at := None\<rparr>
     else row' = row\<lparr>pc_attempts := pc_attempts row + (if pn_up r n P_Bump then 1 else 0)\<rparr>)
    \<and> 15 \<le> push_backoff (pc_attempts row + 1) \<and> push_backoff (pc_attempts row + 1) \<le> 3600
    \<and> (claimable t evs row' \<longrightarrow> pc_next_attempt_at row' \<le> t \<and> pc_state row' = Push_Active
         \<and> pred_option (\<lambda>e. e < t) (pc_lease_expires_at row'))"
proof -
  have i: "pc_id row = pc_id c" by (rule get_push_config_id[OF assms(1)])
  have r: "if pn_up r n P_Bump \<and> pn_up r n P_Retry
     then row' = row\<lparr>pc_attempts := pc_attempts row + 1,
                      pc_next_attempt_at := pn_now r n + push_backoff (pc_attempts row + 1),
                      pc_state := (if nf_max_attempts (pw_config k) \<le> pc_attempts row + 1 then Push_Disabled else pc_state row),
                      pc_lease_owner := None, pc_lease_expires_at := None\<rparr>
     else row' = row\<lparr>pc_attempts := pc_attempts row + (if pn_up r n P_Bump then 1 else 0)\<rparr>"
    using assms i by (auto simp: record_failure_def bump_push_attempts_def schedule_push_retry_def get_update_config)
  moreover have "claimable t evs row' \<longrightarrow> pc_next_attempt_at row' \<le> t \<and> pc_state row' = Push_Active
      \<and> pred_option (\<lambda>e. e < t) (pc_lease_expires_at row')"
    by (cases "pc_lease_expires_at row'") (auto simp: claimable_def)
  ultimately show ?thesis using push_backoff_bounds[of "pc_attempts row + 1"] by blast
qed

text \<open>
  The lease does not hold against a stale worker. A worker that outlived its lease releases the webhook by
  its id alone: after another worker has claimed it, the late release makes it claimable again while that
  worker's lease is running, and a third worker takes it. Two workers then deliver the same webhook at once.
\<close>

theorem stale_release_breaks_the_lease:
  assumes "ad_configs db = [c]" "claimable now (ad_events db) c" "now \<le> t" "t < now + lease"
  shows "\<exists>db1 held. claim_next_push_config now {} second lease db = (Some held, db1)
    \<and> pc_lease_owner held = Some second \<and> pc_lease_expires_at held = Some (now + lease)
    \<and> fst (claim_next_push_config t {} third lease db1) = None
    \<and> fst (claim_next_push_config t {} third lease (release_push_config (pc_id c) db1))
        = Some (held\<lparr>pc_lease_owner := Some third, pc_lease_expires_at := Some (t + lease)\<rparr>)"
  using assms
  by (auto simp: claim_next_push_config_def claimable_def release_push_config_def update_config_def update_where_def
        Let_def)

section \<open>Registration\<close>

lemma on_own_taskD:
  assumes "on_own_task site run ps tenant raw db = Inr (c, i)"
  shows "caller_of ps = Inr c \<and> tenant = None \<and> ae_uuid (px_env site) raw = Some i \<and> ax_up run A_Owned
    \<and> (\<exists>m. load_owned (ad_rows db) i (cl_id c) = Some m)"
  using assms by (auto simp: on_own_task_def owned_task_def split: sum.splits option.splits if_splits)

text \<open>
  A webhook is stored only for the owner of the task, below the owner's cap of active webhooks on it, with
  an address the fixed policy accepts at that moment, and with its token sealed; a token without a configured
  key is refused. Nothing else in the database changes.
\<close>

theorem registered_webhooks_are_checked:
  assumes "handle_create_push_config site call ps req db = (res, db')" "db' \<noteq> db"
  shows "\<exists>c i m v row. caller_of ps = Inr c \<and> load_owned (ad_rows db) i (cl_id c) = Some m
    \<and> count_active_push_configs_for_caller (ad_configs db) i (cl_id c) < hl_push_config_cap (px_limits site)
    \<and> validate_webhook_url (px_parse_url site) (py_resolve call) [] (pq_url req) = Inr v
    \<and> db' = db\<lparr>ad_configs := ad_configs db @ [row]\<rparr> \<and> pc_task row = i \<and> pc_url row = pq_url req
    \<and> pc_created_by row = cl_id c \<and> pc_state row = Push_Active \<and> pc_delivered_seq row = 0
    \<and> (case pq_token req of
         None \<Rightarrow> pc_token_enc row = None
       | Some t \<Rightarrow> \<exists>key. px_key site = Some key
                        \<and> pc_token_enc row = Some (encrypt_token (px_aead site) (py_nonce call) t key))"
proof -
  obtain c i where own: "on_own_task site (py_run call) ps (pq_tenant req) (pq_task_id req) db = Inr (c, i)"
    and cap: "count_active_push_configs_for_caller (ad_configs db) i (cl_id c) < hl_push_config_cap (px_limits site)"
    and v: "\<exists>v. validate_webhook_url (px_parse_url site) (py_resolve call) [] (pq_url req) = Inr v"
    using assms by (auto simp: handle_create_push_config_def Let_def split: sum.splits if_splits prod.splits)
  obtain tok where tok: "(case pq_token req of
                       None \<Rightarrow> Inr None
                     | Some token \<Rightarrow>
                         (case px_key site of
                            None \<Rightarrow> Inl (Invalid_Params ''push token encryption is not configured; this server cannot accept a webhook auth token'')
                          | Some key \<Rightarrow> Inr (Some (encrypt_token (px_aead site) (py_nonce call) token key)))) = Inr tok"
    and ins: "insert_push_config (ax_now (py_run call)) (py_config_id call) i (pq_url req) tok (cl_id c) db = Inr db'"
    using assms own cap v
    by (auto simp: handle_create_push_config_def Let_def not_le[symmetric] split: sum.splits if_splits)
  obtain row where row: "db' = db\<lparr>ad_configs := ad_configs db @ [row]\<rparr>" "pc_task row = i" "pc_url row = pq_url req"
    "pc_created_by row = cl_id c" "pc_state row = Push_Active" "pc_delivered_seq row = 0" "pc_token_enc row = tok"
    using ins by (auto simp: insert_push_config_def split: if_splits)
  have "case pq_token req of
         None \<Rightarrow> pc_token_enc row = None
       | Some t \<Rightarrow> \<exists>key. px_key site = Some key
                        \<and> pc_token_enc row = Some (encrypt_token (px_aead site) (py_nonce call) t key)"
    using tok row(7) by (auto split: option.splits)
  then show ?thesis using on_own_taskD[OF own] cap v row by blast
qed

lemma decrypt_encrypt:
  assumes "ad_open a key nonce (ad_seal a key nonce t) = Some t" "length nonce = NONCE_LEN"
    "TAG_LEN \<le> length (ad_seal a key nonce t)" "ad_utf8 a t"
  shows "decrypt_token a (encrypt_token a nonce t key) key = Some t"
  using assms by (simp add: decrypt_token_def encrypt_token_def)

text \<open>
  A registered webhook reads back to its owner as it was sent: the address, the ids the server assigned
  and the token, which was stored sealed. The cipher's law is that opening undoes sealing.
\<close>

theorem registered_webhook_reads_back:
  assumes "handle_create_push_config site call ps req db = (Inr out, db')"
    "ae_uuid (px_env site) (py_config_id call) = Some (py_config_id call)"
    "length (py_nonce call) = NONCE_LEN" "ax_up run A_Owned" "ax_up run A_Config"
    "case pq_token req of None \<Rightarrow> True
     | Some t \<Rightarrow> ad_utf8 (px_aead site) t \<and> (case px_key site of None \<Rightarrow> True | Some key \<Rightarrow>
         ad_open (px_aead site) key (py_nonce call) (ad_seal (px_aead site) key (py_nonce call) t) = Some t
         \<and> TAG_LEN \<le> length (ad_seal (px_aead site) key (py_nonce call) t))"
  shows "handle_get_push_config site run ps None (pq_task_id req) (py_config_id call) db'
    = Inr \<lparr>pq_url = pq_url req, pq_id = Some (py_config_id call), pq_task_id = pq_task_id out,
           pq_token = pq_token req, pq_tenant = None\<rparr>"
proof -
  obtain c i where own: "on_own_task site (py_run call) ps (pq_tenant req) (pq_task_id req) db = Inr (c, i)"
    and cap: "\<not> hl_push_config_cap (px_limits site) \<le> count_active_push_configs_for_caller (ad_configs db) i (cl_id c)"
    and v: "\<exists>v. validate_webhook_url (px_parse_url site) (py_resolve call) [] (pq_url req) = Inr v"
    using assms(1) by (auto simp: handle_create_push_config_def Let_def split: sum.splits if_splits)
  obtain tok where tok: "(case pq_token req of
                       None \<Rightarrow> Inr None
                     | Some token \<Rightarrow>
                         (case px_key site of
                            None \<Rightarrow> Inl (Invalid_Params ''push token encryption is not configured; this server cannot accept a webhook auth token'')
                          | Some key \<Rightarrow> Inr (Some (encrypt_token (px_aead site) (py_nonce call) token key)))) = Inr tok"
    and ins: "insert_push_config (ax_now (py_run call)) (py_config_id call) i (pq_url req) tok (cl_id c) db = Inr db'"
    and out: "out = req\<lparr>pq_id := Some (py_config_id call), pq_task_id := i\<rparr>"
    using assms(1) own cap v
    by (auto simp: handle_create_push_config_def Let_def split: sum.splits if_splits)
  define row where "row = \<lparr>pc_id = py_config_id call, pc_task = i, pc_url = pq_url req, pc_token_enc = tok,
     pc_delivered_seq = 0, pc_attempts = 0, pc_next_attempt_at = ax_now (py_run call), pc_state = Push_Active,
     pc_lease_owner = None, pc_lease_expires_at = None, pc_created_at = ax_now (py_run call), pc_created_by = cl_id c\<rparr>"
  have db': "db' = db\<lparr>ad_configs := ad_configs db @ [row]\<rparr>" and fresh: "\<not> list_ex (\<lambda>c. pc_id c = py_config_id call) (ad_configs db)"
    using ins by (auto simp: insert_push_config_def row_def split: if_splits)
  have "row_of pc_id (ad_configs db) (py_config_id call) = None"
    using fresh by (auto simp: row_of_def find_None_iff list_ex_iff)
  then have get: "get_push_config (ad_configs db') (py_config_id call) = Some row"
    by (simp add: db' get_push_config_def row_of_append row_def)
  have own': "on_own_task site run ps None (pq_task_id req) db' = Inr (c, i)"
    using on_own_taskD[OF own] assms(4) by (auto simp: on_own_task_def owned_task_def db')
  have "(case (pc_token_enc row, px_key site) of (Some bytes, Some key) \<Rightarrow> decrypt_token (px_aead site) bytes key | _ \<Rightarrow> None)
      = pq_token req"
    using tok assms(3,6) by (auto simp: row_def decrypt_encrypt split: option.splits)
  then show ?thesis
    using own' get assms(2,5) by (simp add: handle_get_push_config_def push_config_view_def out row_def)
qed

section \<open>Isolation of callers\<close>

text \<open>
  C38. A task a caller does not own does not exist for it: reading, cancelling or streaming the task and every
  request on its webhooks answer that it is not found, without changing anything.
\<close>

theorem foreign_tasks_are_invisible:
  assumes "caller_of ps = Inr c" "ae_uuid (px_env site) raw = Some i" "load_owned (ad_rows db) i (cl_id c) = None"
    "ax_up (py_run call) A_Owned" "run = py_run call" "env = px_env site" "pq_task_id req = raw" "pq_tenant req = None"
  shows "handle_get_task env run ps raw db = Inl (Task_Not_Found raw)
    \<and> handle_cancel_task env run ps raw db = (Inl (Task_Not_Found raw), db)
    \<and> subscribe_to_task env run limits ps raw db replay listening looks m = (Inl (Task_Not_Found raw), m)
    \<and> handle_create_push_config site call ps req db = (Inl (Task_Not_Found raw), db)
    \<and> handle_get_push_config site run ps None raw cfg db = Inl (Task_Not_Found raw)
    \<and> handle_list_push_configs site run ps None raw db = Inl (Task_Not_Found raw)
    \<and> handle_delete_push_config site run ps None raw cfg db = (Inl (Task_Not_Found raw), db)"
  using assms
  by (simp add: handle_get_task_def handle_cancel_task_def subscribe_to_task_def stream_task_def owned_task_def
        handle_create_push_config_def handle_get_push_config_def handle_list_push_configs_def
        handle_delete_push_config_def on_own_task_def Let_def)

section \<open>Samples\<close>

definition public_url :: url where
  "public_url = \<lparr>ur_text = ''https://8.8.8.8/hook'', ur_scheme = ''https'', ur_host = Some (Host_V4 (dotted 8 8 8 8)),
     ur_port = Some 443\<rparr>"

lemma public_url_accepted [simp]:
  "validate_webhook_url (\<lambda>_. Some public_url) resolve [] raw
     = Inr \<lparr>vh_url = public_url, vh_pinned_ips = [V4 (dotted 8 8 8 8)]\<rparr>"
proof -
  have "unat (dotted 8 8 8 8) = 134744072" by (simp add: dotted_def)
  then have "unat (octet 0 (dotted 8 8 8 8)) = 8" by (simp add: octet_unat)
  then have "\<not> is_blocked (V4 (dotted 8 8 8 8)) []"
    using is_blocked_v4_octets[OF _ refl refl refl, of "dotted 8 8 8 8" 8] by (simp add: is_blocked_def)
  then show ?thesis by (simp add: validate_webhook_url_def public_url_def host_addresses_def ALLOWED_PORT_def)
qed

definition sample_aead :: aead where
  "sample_aead = \<lparr>ad_seal = (\<lambda>_ _ p. p @ replicate TAG_LEN CHR ''t''),
     ad_open = (\<lambda>_ _ c. Some (take (length c - TAG_LEN) c)), ad_utf8 = (\<lambda>_. True)\<rparr>"

definition sample_worker :: "webhook_sender \<Rightarrow> push_worker" where
  "sample_worker answer = \<lparr>pw_parse_url = (\<lambda>_. Some public_url), pw_show_ip = (\<lambda>_. []), pw_policy = [],
     pw_aead = sample_aead, pw_key = None, pw_config = \<lparr>nf_poll_interval = 3, nf_lease = 60, nf_max_attempts = 8, nf_max_events = 50\<rparr>,
     pw_owner = ''w1'', pw_sender = answer\<rparr>"

definition sample_round :: push_round where
  "sample_round = \<lparr>pn_up = (\<lambda>_ _. True), pn_now = (\<lambda>n. 10 + n), pn_resolve = (\<lambda>_ _. None), pn_locked = {}\<rparr>"

definition sample_config :: push_config where
  "sample_config = \<lparr>pc_id = ''p1'', pc_task = ''a1'', pc_url = ''https://8.8.8.8/hook'', pc_token_enc = None,
     pc_delivered_seq = 0, pc_attempts = 0, pc_next_attempt_at = 0, pc_state = Push_Active, pc_lease_owner = None,
     pc_lease_expires_at = None, pc_created_at = 0, pc_created_by = ''agent''\<rparr>"

definition hooked_db :: a2a_db where
  "hooked_db = (sample_db sample_log)\<lparr>ad_configs := [sample_config]\<rparr>"

lemma hooked_parts [simp]:
  "ad_configs hooked_db = [sample_config]" "ad_events hooked_db = sample_log" "ad_rows hooked_db = [sample_row]"
  "log_of i hooked_db = log_of i (sample_db sample_log)" "log_ok hooked_db"
  using sample_log_ok(1) by (simp_all add: hooked_db_def log_of_def log_ok_def)

lemma sample_config_claimable: "claimable 10 sample_log sample_config"
  by (simp add: claimable_def sample_config_def sample_log_def sample_entry_def max_seq_def)

lemma sample_round_claims:
  "\<exists>calls' db'. deliver_next_due (sample_worker answer) sample_round calls hooked_db = (Inr True, calls', db')"
  using sample_config_claimable
  by (auto simp: deliver_next_due_def sample_round_def claim_next_push_config_def Let_def split: prod.split)

theorem events_go_out_in_order_witness:
  "\<exists>calls' db' a row. deliver_next_due (sample_worker (\<lambda>_ _. Inr ())) sample_round [] hooked_db = (Inr True, calls', db')
    \<and> get_push_config (ad_configs db') ''p1'' = Some row \<and> pc_delivered_seq row = int a \<and> length calls' \<le> a + 1"
proof -
  obtain calls' db' where d: "deliver_next_due (sample_worker (\<lambda>_ _. Inr ())) sample_round [] hooked_db = (Inr True, calls', db')"
    using sample_round_claims by blast
  have cursor: "list_all (\<lambda>c. 0 \<le> pc_delivered_seq c \<and> pc_delivered_seq c \<le> int (length (log_of (pc_task c) hooked_db)))
      (ad_configs hooked_db)"
    by (simp add: sample_config_def)
  have "distinct (map pc_id (ad_configs hooked_db))" by simp
  from events_go_out_in_order[OF _ this cursor d] d show ?thesis by (auto simp: sample_config_def)
qed

theorem deliveries_are_checked_witness:
  "\<exists>res calls' db'. deliver_next_due (sample_worker (\<lambda>_ _. Inr ())) sample_round [] hooked_db = (res, calls', db')
    \<and> list_all (\<lambda>s. ur_scheme (vh_url (sc_webhook s)) = ''https'') calls'"
proof -
  obtain calls' db' where d: "deliver_next_due (sample_worker (\<lambda>_ _. Inr ())) sample_round [] hooked_db = (Inr True, calls', db')"
    using sample_round_claims by blast
  from deliveries_are_checked[OF d] d show ?thesis by (auto simp: checked_call_def list_all_iff)
qed

theorem failing_webhook_is_retired_witness:
  "\<exists>row'. get_push_config (ad_configs (record_failure (sample_worker (\<lambda>_ _. Inl ''refused'')) sample_round 0
      (sample_config\<lparr>pc_attempts := 7\<rparr>) (hooked_db\<lparr>ad_configs := [sample_config\<lparr>pc_attempts := 7\<rparr>]\<rparr>))) ''p1'' = Some row'
    \<and> pc_attempts row' = 8 \<and> pc_state row' = Push_Disabled"
proof -
  let ?c = "sample_config\<lparr>pc_attempts := 7\<rparr>"
  let ?k = "sample_worker (\<lambda>_ _. Inl ''refused'')"
  let ?db = "hooked_db\<lparr>ad_configs := [?c]\<rparr>"
  have row: "get_push_config (ad_configs ?db) (pc_id ?c) = Some ?c" by (simp add: get_push_config_def row_of_def)
  have up: "pn_up sample_round 0 q" for q by (simp add: sample_round_def)
  obtain row' where row': "get_push_config (ad_configs (record_failure ?k sample_round 0 ?c ?db)) (pc_id ?c) = Some row'"
    using row by (auto simp: record_failure_def bump_push_attempts_def schedule_push_retry_def get_update_config up)
  from failing_webhook_is_retired[OF row row']
  have "pc_attempts row' = 8 \<and> pc_state row' = Push_Disabled"
    by (simp add: sample_worker_def up)
  then show ?thesis using row' by (auto simp: sample_config_def)
qed

theorem stale_release_breaks_the_lease_witness:
  "\<exists>db1 held. claim_next_push_config 10 {} ''w2'' 60 hooked_db = (Some held, db1)
    \<and> fst (claim_next_push_config 20 {} ''w3'' 60 db1) = None
    \<and> fst (claim_next_push_config 20 {} ''w3'' 60 (release_push_config ''p1'' db1)) \<noteq> None"
  using stale_release_breaks_the_lease[of hooked_db sample_config 10 20 60 "''w2''" "''w3''"] sample_config_claimable
  by (auto simp: sample_config_def)

definition sample_site :: push_site where
  "sample_site = \<lparr>px_env = sample_env, px_limits = \<lparr>hl_push_config_cap = 10, hl_max_streams = 8\<rparr>, px_aead = sample_aead,
     px_key = Some (replicate KEY_LEN CHR ''k''), px_parse_url = (\<lambda>_. Some public_url), px_show_ip = (\<lambda>_. [])\<rparr>"

definition sample_push_call :: push_call where
  "sample_push_call = \<lparr>py_run = calm_call, py_config_id = ''p2'', py_nonce = replicate NONCE_LEN CHR ''n'',
     py_resolve = (\<lambda>_. None)\<rparr>"

definition sample_push :: push_request where
  "sample_push = \<lparr>pq_url = ''https://8.8.8.8/hook'', pq_id = None, pq_task_id = ''a1'', pq_token = Some ''secret'',
     pq_tenant = None\<rparr>"

lemma sample_owner: "load_owned [sample_row] ''a1'' ''agent'' \<noteq> None" "load_owned [sample_row] ''a1'' ''rival'' = None"
  by (simp_all add: load_owned_def)

lemma sample_registers:
  "\<exists>out db'. handle_create_push_config sample_site sample_push_call (sample_params ''agent'') sample_push hooked_db = (Inr out, db')
    \<and> pq_task_id out = ''a1'' \<and> length (ad_configs db') = 2"
proof -
  obtain perms where "caller_of (sample_params ''agent'') = Inr \<lparr>cl_id = ''agent'', cl_perms = perms\<rparr>"
    using caller_of_sample[of "''agent''"] by auto
  moreover obtain m where "load_owned [sample_row] ''a1'' ''agent'' = Some m" using sample_owner(1) by blast
  moreover have "count_active_push_configs_for_caller [sample_config] ''a1'' ''agent'' = 1"
    by (simp add: count_active_push_configs_for_caller_def sample_config_def)
  moreover have "pc_id sample_config = ''p1''" by (simp add: sample_config_def)
  ultimately show ?thesis
    by (simp add: handle_create_push_config_def on_own_task_def owned_task_def sample_site_def sample_push_call_def
        sample_push_def insert_push_config_def)
qed

theorem registered_webhooks_are_checked_witness:
  "\<exists>res db' row. handle_create_push_config sample_site sample_push_call (sample_params ''agent'') sample_push hooked_db = (res, db')
    \<and> ad_configs db' = [sample_config, row] \<and> pc_task row = ''a1'' \<and> pc_token_enc row \<noteq> None"
proof -
  obtain out db' where r: "handle_create_push_config sample_site sample_push_call (sample_params ''agent'') sample_push hooked_db
      = (Inr out, db')" and "length (ad_configs db') = 2"
    using sample_registers by blast
  then have new: "db' \<noteq> hooked_db" by auto
  obtain i row where "load_owned (ad_rows hooked_db) i ''agent'' \<noteq> None" "ad_configs db' = ad_configs hooked_db @ [row]"
    "pc_task row = i" "pc_token_enc row \<noteq> None"
    using registered_webhooks_are_checked[OF r new] caller_of_sample[of "''agent''"]
    by (fastforce simp: sample_push_def)
  moreover from this(1) have "i = ''a1''" by (auto simp: load_owned_def split: if_splits)
  ultimately show ?thesis using r by auto
qed

theorem registered_webhook_reads_back_witness:
  "\<exists>db'. handle_get_push_config sample_site calm_call (sample_params ''agent'') None ''a1'' ''p2'' db'
    = Inr \<lparr>pq_url = ''https://8.8.8.8/hook'', pq_id = Some ''p2'', pq_task_id = ''a1'', pq_token = Some ''secret'', pq_tenant = None\<rparr>"
proof -
  obtain out db' where r: "handle_create_push_config sample_site sample_push_call (sample_params ''agent'') sample_push hooked_db
      = (Inr out, db')" and out: "pq_task_id out = ''a1''"
    using sample_registers by blast
  show ?thesis
    using registered_webhook_reads_back[OF r, of calm_call] out
    by (simp add: sample_site_def sample_push_call_def sample_push_def sample_aead_def) blast
qed

theorem foreign_tasks_are_invisible_witness:
  "handle_get_task sample_env calm_call (sample_params ''rival'') ''a1'' hooked_db = Inl (Task_Not_Found ''a1'')
    \<and> handle_cancel_task sample_env calm_call (sample_params ''rival'') ''a1'' hooked_db = (Inl (Task_Not_Found ''a1''), hooked_db)"
proof -
  obtain perms where c: "caller_of (sample_params ''rival'') = Inr \<lparr>cl_id = ''rival'', cl_perms = perms\<rparr>"
    using caller_of_sample[of "''rival''"] by auto
  show ?thesis
    using foreign_tasks_are_invisible[OF c, of sample_site "''a1''" "''a1''" hooked_db sample_push_call calm_call sample_env
        sample_push] sample_owner(2)
    by (simp add: sample_site_def sample_push_call_def sample_push_def)
qed

end
