(* ===== verification/A2a_Properties.thy ===== *)
theory A2a_Properties
  imports Push_Properties
begin

text \<open>
  What the agent-to-agent interface promises on tasks: a submission launches a run only through every gate,
  an accepted one has a run its caller can follow, cancelling stops the run and closes the log, and logs only
  grow, in order, until they are frozen. The last part shows where a log is never closed.
\<close>

section \<open>What the log leaves alone\<close>

lemma append_event_web: "append_event i kind state final payload db = Inr db' \<Longrightarrow> ad_web db' = ad_web db"
  by (auto simp: append_event_def Let_def split: if_splits)

lemma append_terminal_status_web: "append_terminal_status up w i ctx s u db = Inr db' \<Longrightarrow> ad_web db' = ad_web db"
  by (auto simp: append_terminal_status_def append_if_up_def intro: append_event_web split: if_splits)

lemma store_create_web:
  "ad_web (snd (store_create up env now t db)) = ad_web db" "ad_events (snd (store_create up env now t db)) = ad_events db"
  by (auto simp: store_create_def Let_def split: option.splits)

lemma store_update_web:
  "ad_web (snd (store_update up up2 env now t db)) = ad_web db" "ad_events (snd (store_update up up2 env now t db)) = ad_events db"
  by (auto simp: store_update_def Let_def split: option.splits)

lemma reject_result: "fst (reject env run c ctx reason db) = Inr t \<Longrightarrow> at_state t = State_Rejected"
  by (auto simp: reject_def Let_def client_view_def build_task_view_def)

lemma reject_web: "ad_web (snd (reject env run c ctx reason db)) = ad_web db"
  using store_create_web(1)[of "ax_up run A_Insert" env "ax_now run"] append_terminal_status_web
  by (auto simp: reject_def Let_def split: prod.splits sum.splits option.splits) (metis snd_conv)+

lemma find_snoc: "list_all (\<lambda>x. \<not> P x) xs \<Longrightarrow> P r \<Longrightarrow> find P (xs @ [r]) = Some r"
  by (induction xs) auto

section \<open>Submitting\<close>

text \<open>The gates of a submission, and what lies behind them.\<close>

definition admitted ::
  "a2a_env \<Rightarrow> quota_config \<Rightarrow> a2a_run \<Rightarrow> caller \<Rightarrow> message \<Rightarrow> a2a_db \<Rightarrow> review_input \<Rightarrow> int \<Rightarrow> int \<Rightarrow> bool" where
  "admitted env quota run c req db inp repo installation \<longleftrightarrow>
     ms_tenant req = None \<and> parse_review_request env (ms_parts req) = Inr inp
     \<and> REVIEW_PERMISSION \<in> set (cl_perms c)
     \<and> count_recent (ax_now run) (ad_rows db) (cl_id c) SKILL_REVIEW (qc_window_secs quota) < qc_max quota
     \<and> find_repository (ae_lower env) (ri_platform inp) (ri_owner inp) (ri_name inp) (wd_repos (ad_web (ax_race run db)))
         = Some (repo, Some installation, Approved)
     \<and> ri_head_sha inp \<noteq> None"

definition message_context :: "a2a_run \<Rightarrow> message \<Rightarrow> string" where
  "message_context run req = (case ms_context_id req of Some x \<Rightarrow> x | None \<Rightarrow> ax_context_id run)"

lemma submit_review_cases:
  assumes "submit_review env quota run c req db = out"
  obtains (error) e where "out = (Inl e, db) \<or> out = (Inl e, ax_race run db)"
  | (rejected) reason db0 where "db0 = db \<or> db0 = ax_race run db" "out = reject env run c (message_context run req) reason db0"
  | (launched) inp repo installation where "admitted env quota run c req db inp repo installation"
      "out = launch_review env run c (message_context run req) inp repo installation (ax_race run db)"
  using assms unfolding submit_review_def Let_def message_context_def[symmetric] admitted_def
  by (auto split: if_splits sum.splits parse_error.splits option.splits prod.splits)

lemma underlying_run_cases:
  assumes "underlying_run run nt db = (res, db')"
  shows "(ad_tasks db' = ad_tasks db \<and> (\<exists>e. res = Inl e))
   \<or> (ad_tasks db' = ad_tasks db \<and> (\<exists>u t. res = Inr u \<and> t \<in> set (ad_tasks db) \<and> tk_id t = u \<and> row_key t = natural_key nt (nt_run_epoch nt)))
   \<or> (\<not> key_taken (ad_tasks db) nt (nt_run_epoch nt) \<and> \<not> id_taken (ad_tasks db) (ax_run_id run) \<and> res = Inr (ax_run_id run)
       \<and> ad_tasks db' = ad_tasks db @ [fresh_row (ax_now run) (ax_run_id run) nt (nt_run_epoch nt)
            (ax_now run + (case nt_run_after_secs nt of None \<Rightarrow> 0 | Some s \<Rightarrow> s)) (initial_status (ad_tasks db) nt)])"
proof -
  have found: "\<exists>t\<in>set ts. tk_id t = u \<and> row_key t = natural_key nt (nt_run_epoch nt)"
    if "find_task_id_by_idempotency ts nt = Some u" for ts u
  proof -
    let ?xs = "sort_key (\<lambda>t. (tk_created_at t, tk_id t)) (filter (\<lambda>t. row_key t = natural_key nt (nt_run_epoch nt)) ts)"
    show ?thesis
    proof (cases "rev ?xs")
      case Nil
      then show ?thesis using that unfolding find_task_id_by_idempotency_def Nil by simp
    next
      case (Cons t rest)
      have "t \<in> set (rev ?xs)" unfolding Cons by simp
      then have "t \<in> set ts \<and> row_key t = natural_key nt (nt_run_epoch nt)" by simp
      moreover have "tk_id t = u" using that unfolding find_task_id_by_idempotency_def Cons by simp
      ultimately show ?thesis by blast
    qed
  qed
  show ?thesis
    using assms
    by (auto simp: underlying_run_def create_task_def with_rows_of_def with_task_rows_def
          split: if_splits option.splits dest: found)
qed

lemma review_task_fields [simp]:
  "nt_run_epoch (review_task run inp repo inst db) = 0" "nt_run_after_secs (review_task run inp repo inst db) = None"
  "nt_target_id (review_task run inp repo inst db) = ri_pr inp" "nt_head_sha (review_task run inp repo inst db) = ri_head_sha inp"
  "nt_command (review_task run inp repo inst db) = ri_prompt inp" "nt_repository_id (review_task run inp repo inst db) = repo"
  "nt_target_type (review_task run inp repo inst db) = PULL_REQUEST"
  by (simp_all add: review_task_def Let_def)

definition delivered_to :: "a2a_run \<Rightarrow> caller \<Rightarrow> review_input \<Rightarrow> new_task \<Rightarrow> a2a_db \<Rightarrow> a2a_db" where
  "delivered_to run c inp nt db = db\<lparr>ad_web := (ad_web db)\<lparr>wd_deliveries :=
     snd (record_delivery (ax_now run) (ri_platform inp) (nt_delivery_id nt) ''a2a.review''
            (provenance run c inp) (wd_deliveries (ad_web db)))\<rparr>\<rparr>"

lemma delivered_to_simps [simp]:
  "ad_tasks (delivered_to run c inp nt db) = ad_tasks db" "ad_rows (delivered_to run c inp nt db) = ad_rows db"
  "ad_events (delivered_to run c inp nt db) = ad_events db"
  by (simp_all add: delivered_to_def)

text \<open>
  C14. A submission adds a run only through every gate: a well-formed request without a tenant, the permission
  to review, a quota not yet used up, an approved repository with an installation, and an explicit head. What
  it adds is one deep review of the requested change at that head. Everything else leaves the queue as it was.
\<close>

theorem submissions_pass_every_gate:
  assumes "submit_review env quota run c req db = (res, db')"
    "ad_tasks db' \<noteq> ad_tasks db" "ad_tasks db' \<noteq> ad_tasks (ax_race run db)"
  shows "\<exists>inp repo installation nt. admitted env quota run c req db inp repo installation
    \<and> nt = review_task run inp repo installation (ax_race run db) \<and> nt_preset nt = ''deep''
    \<and> ad_tasks db' = ad_tasks (ax_race run db)
        @ [fresh_row (ax_now run) (ax_run_id run) nt 0 (ax_now run) (initial_status (ad_tasks (ax_race run db)) nt)]"
proof (rule submit_review_cases[OF assms(1)])
  fix e assume "(res, db') = (Inl e, db) \<or> (res, db') = (Inl e, ax_race run db)"
  then show ?thesis using assms(2,3) by auto
next
  fix reason db0 assume "db0 = db \<or> db0 = ax_race run db" "(res, db') = reject env run c (message_context run req) reason db0"
  then show ?thesis using assms(2,3) reject_web by (metis snd_conv)
next
  fix inp repo installation
  let ?db = "ax_race run db"
  let ?nt = "review_task run inp repo installation ?db"
  let ?db1 = "delivered_to run c inp ?nt ?db"
  assume adm: "admitted env quota run c req db inp repo installation"
    and out: "(res, db') = launch_review env run c (message_context run req) inp repo installation ?db"
  obtain ur db2 where u: "underlying_run run ?nt ?db1 = (ur, db2)" by fastforce
  have "ad_tasks db' = ad_tasks ?db \<or> ad_tasks db' = ad_tasks db2"
    using out u store_create_web(1)[of "ax_up run A_Insert" env "ax_now run" _ db2]
    by (auto simp: launch_review_def Let_def delivered_to_def[symmetric] split: if_splits sum.splits prod.splits)
       (metis snd_conv)+
  then have "ad_tasks db' = ad_tasks db2" using assms(3) by auto
  then have "ad_tasks db' = ad_tasks ?db @ [fresh_row (ax_now run) (ax_run_id run) ?nt 0 (ax_now run)
      (initial_status (ad_tasks ?db) ?nt)]"
    using underlying_run_cases[OF u] assms(3) by auto
  moreover have "nt_preset ?nt = ''deep''" by (simp add: review_task_def Let_def)
  ultimately show ?thesis using adm by blast
qed

text \<open>
  A submission answered as submitted can be followed: its caller owns a task under the assigned id that
  fronts an existing run, the new one or one already there for the same change, head and prompt.
\<close>

theorem accepted_submission_has_a_run:
  assumes "submit_review env quota run c req db = (Inr t, db')" "at_state t = State_Submitted"
    "ae_uuid env (ax_task_id run) = Some (ax_task_id run)"
    "list_all (\<lambda>r. ae_uuid env (tk_id r) = Some (tk_id r)) (ad_tasks db')"
  shows "\<exists>inp m r. parse_review_request env (ms_parts req) = Inr inp
    \<and> load_owned (ad_rows db') (ax_task_id run) (cl_id c) = Some m \<and> mp_underlying m = Some (tk_id r)
    \<and> r \<in> set (ad_tasks db') \<and> nt_target_id (tk_task r) = ri_pr inp \<and> nt_head_sha (tk_task r) = ri_head_sha inp
    \<and> nt_command (tk_task r) = ri_prompt inp \<and> tk_run_epoch r = 0"
proof (rule submit_review_cases[OF assms(1)])
  fix e assume "(Inr t, db') = (Inl e, db) \<or> (Inr t, db') = (Inl e, ax_race run db)"
  then show ?thesis by simp
next
  fix reason db0 assume "(Inr t, db') = reject env run c (message_context run req) reason db0"
  then have "at_state t = State_Rejected" using reject_result by (metis fst_conv)
  then show ?thesis using assms(2) by simp
next
  fix inp repo installation
  let ?db = "ax_race run db"
  let ?nt = "review_task run inp repo installation ?db"
  let ?db1 = "delivered_to run c inp ?nt ?db"
  assume adm: "admitted env quota run c req db inp repo installation"
    and out: "(Inr t, db') = launch_review env run c (message_context run req) inp repo installation ?db"
  obtain ur db2 where u: "underlying_run run ?nt ?db1 = (ur, db2)" by fastforce
  obtain uid where uid: "ur = Inr uid"
    using out u by (cases ur) (auto simp: launch_review_def Let_def delivered_to_def[symmetric] split: if_splits)
  define stored where "stored = set_meta LB_UNDERLYING (JStr uid) (set_meta LB_SKILL (JStr SKILL_REVIEW)
       (build_task_view (ax_task_id run) (message_context run req) State_Submitted None (Some (submitted_metadata c uid))))"
  have sc: "store_create (ax_up run A_Insert) env (ax_now run) stored db2 = (Inr v, db')" if
    "store_create (ax_up run A_Insert) env (ax_now run) stored db2 = (Inr v, d)" for v d
    using out u uid that
    by (auto simp: launch_review_def Let_def delivered_to_def[symmetric] stored_def[symmetric] split: if_splits)
  have ok: "\<exists>v d. store_create (ax_up run A_Insert) env (ax_now run) stored db2 = (Inr v, d)"
    using out u uid
    by (auto simp: launch_review_def Let_def delivered_to_def[symmetric] stored_def[symmetric] split: if_splits sum.splits prod.splits)
  then obtain v where create: "store_create (ax_up run A_Insert) env (ax_now run) stored db2 = (Inr v, db')"
    using sc by blast
  have web: "ad_tasks db' = ad_tasks db2" using store_create_web(1)[of "ax_up run A_Insert" env "ax_now run" stored db2] create by simp
  obtain r where r: "r \<in> set (ad_tasks db2)" "tk_id r = uid" "row_key r = natural_key ?nt 0"
    using underlying_run_cases[OF u] uid by (fastforce simp: fresh_row_def)
  have canon: "ae_uuid env uid = Some uid" using assms(4) web r by (auto simp: list_all_iff)
  have meta: "meta_str stored LB_CALLER = Some (cl_id c)" "meta_str stored LB_UNDERLYING = Some uid" "at_id stored = ax_task_id run"
    by (simp_all add: meta_str_def stored_def build_task_view_def meta_get_def submitted_metadata_def set_meta_def)
  obtain row where row: "ad_rows db' = ad_rows db2 @ [row]" "ar_id row = ax_task_id run" "ar_caller row = cl_id c"
    "ar_underlying row = Some uid" "\<not> list_ex (\<lambda>r. ar_id r = ax_task_id run) (ad_rows db2)"
    using create meta assms(3) canon
    by (auto simp: store_create_def Let_def linked_run_def split: option.splits if_splits)
  have "find (\<lambda>r. ar_id r = ax_task_id run \<and> ar_caller r = cl_id c) (ad_rows db') = Some row"
    using row by (auto intro!: find_snoc simp: list_ex_iff list_all_iff)
  then have "\<exists>m. load_owned (ad_rows db') (ax_task_id run) (cl_id c) = Some m \<and> mp_underlying m = Some uid"
    using row(4) by (simp add: load_owned_def)
  then show ?thesis
    using adm r web by (auto simp: admitted_def natural_key_def)
qed

section \<open>Cancelling\<close>

lemma get_row_update_where:
  assumes "\<And>t. tk_id (f t) = tk_id t"
  shows "get_row (update_where P f ts) i = map_option (\<lambda>t. if P t then f t else t) (get_row ts i)"
  unfolding get_row_def update_where_def by (induction ts) (auto simp: assms)

lemma get_row_id: "get_row ts i = Some t \<Longrightarrow> tk_id t = i"
  by (auto simp: get_row_def find_Some_iff)

lemma ad_tasks_with_rows_of [simp]:
  "ad_tasks (with_rows_of ts db) = ts" "ad_rows (with_rows_of ts db) = ad_rows db" "ad_events (with_rows_of ts db) = ad_events db"
  by (simp_all add: with_rows_of_def with_task_rows_def)

lemma log_of_events_cong: "ad_events db' = ad_events db \<Longrightarrow> log_of i db' = log_of i db"
  by (simp add: log_of_def)

lemma cancelled_when_live:
  assumes "get_row ts u = Some t" "\<not> is_terminal_state (task_state_from_status (status_text (tk_status t)))"
  shows "get_task_status (snd (cancel_task_by_id now u ts)) u = Some Cancelled"
proof -
  have "tk_status t \<in> {Received, WaitingForIndex, Queued, Running, PostingResult}"
    using assms(2) by (cases "tk_status t") (auto simp: task_state_from_status_def is_terminal_state_def)
  then show ?thesis
    using assms(1) get_row_id[OF assms(1)]
    by (auto simp: get_task_status_def cancel_task_by_id_def Let_def get_row_update_where cancelled_row_def)
qed

lemma ids_in_cancel_snapshot:
  "map ar_id (ad_rows (cancel_snapshot env run raw db)) = map ar_id (ad_rows db)"
  "ad_web (cancel_snapshot env run raw db) = ad_web db" "ad_events (cancel_snapshot env run raw db) = ad_events db"
  by (auto simp: cancel_snapshot_def store_update_web store_update_def update_where_def Let_def
        split: sum.splits option.splits)

lemma cancelled_when_over:
  assumes "get_row ts u = Some t"
  shows "get_task_status (snd (cancel_task_by_id now u ts)) u
    = Some (if is_terminal (tk_status t) then tk_status t else Cancelled)"
proof (cases "is_terminal (tk_status t)")
  case True
  then have "tk_status t \<notin> {Received, WaitingForIndex, Queued, Running, PostingResult}"
    by (auto simp: is_terminal_def)
  then show ?thesis
    using True assms get_row_id[OF assms]
    by (auto simp: get_task_status_def cancel_task_by_id_def Let_def get_row_update_where cancelled_row_def)
next
  case False
  then have "\<not> is_terminal_state (task_state_from_status (status_text (tk_status t)))"
    by (cases "tk_status t") (auto simp: task_state_from_status_def is_terminal_state_def is_terminal_def)
  then show ?thesis using cancelled_when_live[OF assms] False by simp
qed

text \<open>
  C22. What an answered cancel has done, whatever other requests did between its reading of the task's state and
  its cancelling: the run the task fronts is over, cancelled unless it had just ended by itself; the caller is
  told it is cancelled; and the task's log was extended at its end only. Closing the log is best effort: if
  the log's statements are answered it holds a final entry, so that streams and webhooks see the end, and if
  they fail the cancel stands without one. (The task's row and its run are not deleted in between, and the
  other requests leave the logs well formed, as all operations on them do.)
\<close>

theorem cancel_stops_and_closes:
  assumes "handle_cancel_task env run ps raw db = (Inr t, db')" "log_ok (ax_race run db)"
    "caller_of ps = Inr c" "owned_task env run c raw db = Inr (i, m)"
    "mp_underlying m = Some u" "get_row (ad_tasks (ax_race run db)) u = Some x"
    "list_ex (\<lambda>r. ar_id r = i) (ad_rows (ax_race run db))"
  shows "get_task_status (ad_tasks db') u = Some (if is_terminal (tk_status x) then tk_status x else Cancelled)
     \<and> at_state t = State_Canceled
     \<and> prefix (log_of i (ax_race run db)) (log_of i db') \<and> log_ok db'
     \<and> ((\<forall>q. ax_up run (A_Log q)) \<longrightarrow> frozen (log_of i db'))
     \<and> (\<not> is_terminal (tk_status x) \<longrightarrow> (\<exists>row. current_state run m db' = Inr (State_Canceled, row)))"
proof -
  let ?db = "ax_race run db"
  obtain s row0 where cs: "current_state run m db = Inr (s, row0)" and live: "\<not> is_terminal_state s"
    using assms(1,3,4) by (auto simp: handle_cancel_task_def Let_def split: sum.splits if_splits)
  have up: "ax_up run A_Task" using cs assms(5) by (auto simp: current_state_def split: if_splits)
  define db1 where "db1 = with_rows_of (snd (cancel_task_by_id (ax_now run) u (ad_tasks ?db))) ?db"
  define db2 where "db2 = cancel_snapshot env run raw db1"
  define out where "out = append_terminal_status (\<lambda>q. ax_up run (A_Log q)) (ae_wire env) i (mp_context_id m)
      State_Canceled (mp_underlying m) db2"
  have res: "t = build_task_view raw (mp_context_id m) State_Canceled None (underlying_metadata m)"
    "db' = (case out of Inl _ \<Rightarrow> db2 | Inr d \<Rightarrow> d)"
    using assms(1,3,4,5) cs live unfolding out_def db2_def db1_def
    by (auto simp: handle_cancel_task_def Let_def split: if_splits)
  have tasks: "get_task_status (ad_tasks db2) u = Some (if is_terminal (tk_status x) then tk_status x else Cancelled)"
    using cancelled_when_over[OF assms(6)] by (simp add: db2_def db1_def ids_in_cancel_snapshot)
  have logs: "log_of j db2 = log_of j ?db" for j
    by (rule log_of_events_cong) (simp add: db2_def db1_def ids_in_cancel_snapshot)
  have ok: "log_ok db2" using assms(2) by (simp add: log_ok_def logs)
  have "i \<in> set (map ar_id (ad_rows ?db))" using assms(7) by (auto simp: list_ex_iff)
  then have "i \<in> set (map ar_id (ad_rows db2))" by (simp add: db2_def db1_def ids_in_cancel_snapshot)
  then have row: "list_ex (\<lambda>r. ar_id r = i) (ad_rows db2)" by (auto simp: list_ex_iff)
  have closed: "\<exists>d. out = Inr d \<and> frozen (log_of i d)" if "\<forall>q. ax_up run (A_Log q)"
  proof (cases "frozen (log_of i db2)")
    case True
    then show ?thesis using that by (simp add: out_def append_terminal_status_def has_final_log)
  next
    case False
    then show ?thesis
      using that append_event_succeeds[OF ok row]
      by (simp add: out_def append_terminal_status_def append_if_up_def has_final_log) (simp add: frozen_def entry_def)
  qed
  have g: "grows db2 db'" and w: "ad_web db' = ad_web db2"
    using res(2) append_terminal_status_grows append_terminal_status_web unfolding out_def
    by (auto simp: db_grows_refl split: sum.splits)
  have status: "get_task_status (ad_tasks db') u = Some (if is_terminal (tk_status x) then tk_status x else Cancelled)"
    using tasks w by simp
  then have "\<not> is_terminal (tk_status x) \<longrightarrow> (\<exists>row. current_state run m db' = Inr (State_Canceled, row))"
    using assms(5) up
    by (auto simp: current_state_def get_task_status_def task_state_from_status_def Let_def)
  moreover have "prefix (log_of i ?db) (log_of i db')" "log_ok db'"
    using g ok logs by (simp_all add: grows_def)
  moreover have "(\<forall>q. ax_up run (A_Log q)) \<longrightarrow> frozen (log_of i db')" using closed res(2) by auto
  ultimately show ?thesis using status res(1) by (simp add: build_task_view_def)
qed

section \<open>Logs grow in order\<close>

text \<open>Whatever the interface and the runs' reports do, and whatever changes the other tables, in any order.\<close>

inductive a2a_run_from :: "a2a_env \<Rightarrow> a2a_db \<Rightarrow> a2a_db \<Rightarrow> bool" for env where
  start: "a2a_run_from env db db"
| submit: "a2a_run_from env db0 db \<Longrightarrow> a2a_run_from env db (ax_race run db)
    \<Longrightarrow> a2a_run_from env db0 (snd (submit_review env quota run c req db))"
| cancel: "a2a_run_from env db0 db \<Longrightarrow> a2a_run_from env db (ax_race run db)
    \<Longrightarrow> a2a_run_from env db0 (snd (handle_cancel_task env run ps raw db))"
| report: "a2a_run_from env db0 db \<Longrightarrow> report_status up (ae_wire env) now i status detail db = Inr (b, db')
    \<Longrightarrow> a2a_run_from env db0 db'"
| other: "a2a_run_from env db0 db \<Longrightarrow> ad_events db' = ad_events db \<Longrightarrow> a2a_run_from env db0 db'"

definition log_grows :: "a2a_db \<Rightarrow> a2a_db \<Rightarrow> bool" where
  "log_grows a b \<longleftrightarrow> (log_ok a \<longrightarrow> log_ok b \<and> (\<forall>i. prefix (log_of i a) (log_of i b)
     \<and> (frozen (log_of i a) \<longrightarrow> log_of i b = log_of i a)))"

lemma log_grows_trans: "log_grows a b \<Longrightarrow> log_grows b c \<Longrightarrow> log_grows a c"
  unfolding log_grows_def using prefix_order.trans by metis

lemma log_grows_same: "ad_events b = ad_events a \<Longrightarrow> log_grows a b"
  by (simp add: log_grows_def log_ok_def log_of_def)

lemma log_grows_grows: "grows a b \<Longrightarrow> log_grows a b"
  by (simp add: grows_def log_grows_def)

lemma reject_log_grows: "log_grows db (snd (reject env run c ctx reason db))"
proof -
  obtain stored where s: "snd (reject env run c ctx reason db) =
      (case store_create (ax_up run A_Insert) env (ax_now run) stored db of
         (Inl _, d) \<Rightarrow> d
       | (Inr _, d) \<Rightarrow> (case ae_uuid env (ax_task_id run) of None \<Rightarrow> d
           | Some i \<Rightarrow> (case append_terminal_status (\<lambda>q. ax_up run (A_Log q)) (ae_wire env) i ctx State_Rejected None d of
                         Inl _ \<Rightarrow> d | Inr d' \<Rightarrow> d')))"
    unfolding reject_def Let_def by simp
  obtain r d where c: "store_create (ax_up run A_Insert) env (ax_now run) stored db = (r, d)" by fastforce
  have d: "log_grows db d"
    using store_create_web(2)[of "ax_up run A_Insert" env "ax_now run" stored db] c by (intro log_grows_same) simp
  show ?thesis
    unfolding s c using d log_grows_trans[OF d log_grows_grows[OF append_terminal_status_grows]]
    by (auto split: sum.splits option.splits)
qed

lemma submit_log_grows:
  assumes "log_grows db (ax_race run db)"
  shows "log_grows db (snd (submit_review env quota run c req db))"
proof (rule submit_review_cases[OF refl, of env quota run c req db])
  fix e assume "submit_review env quota run c req db = (Inl e, db) \<or> submit_review env quota run c req db = (Inl e, ax_race run db)"
  then show ?thesis using assms log_grows_same[of db db] by auto
next
  fix reason db0 assume "db0 = db \<or> db0 = ax_race run db" "submit_review env quota run c req db = reject env run c (message_context run req) reason db0"
  then show ?thesis using assms reject_log_grows log_grows_trans by metis
next
  fix inp repo installation
  let ?db = "ax_race run db"
  let ?nt = "review_task run inp repo installation ?db"
  assume out: "submit_review env quota run c req db = launch_review env run c (message_context run req) inp repo installation ?db"
  obtain ur db2 where u: "underlying_run run ?nt (delivered_to run c inp ?nt ?db) = (ur, db2)" by fastforce
  have "ad_events db2 = ad_events ?db"
    using u by (auto simp: underlying_run_def split: if_splits sum.splits option.splits)
  then have "ad_events (snd (launch_review env run c (message_context run req) inp repo installation ?db)) = ad_events ?db"
    using u store_create_web(2)[of "ax_up run A_Insert" env "ax_now run" _ db2]
    by (auto simp: launch_review_def Let_def delivered_to_def[symmetric] split: sum.splits prod.splits) (metis snd_conv)+
  then show ?thesis unfolding out using log_grows_trans[OF assms log_grows_same] by blast
qed

lemma cancel_log_grows:
  assumes "log_grows db (ax_race run db)"
  shows "log_grows db (snd (handle_cancel_task env run ps raw db))"
proof -
  have "log_grows db (case append_terminal_status up w i ctx s u db2 of Inl _ \<Rightarrow> db2 | Inr d \<Rightarrow> d)"
    if "ad_events db2 = ad_events (ax_race run db)" for up w i ctx s u db2
    using log_grows_trans[OF assms log_grows_same[OF that]]
      log_grows_trans[OF log_grows_trans[OF assms log_grows_same[OF that]] log_grows_grows[OF append_terminal_status_grows]]
    by (auto split: sum.splits)
  then show ?thesis
    by (auto simp: handle_cancel_task_def Let_def ids_in_cancel_snapshot log_grows_same split: sum.splits option.splits)
qed

text \<open>
  C15. The logs are what their readers rely on: whatever sequence of submissions, cancels and reports runs, and
  whatever else changes in the other tables, every log stays numbered from one without gaps, only grows at its
  end, and never changes after its final entry. (Only the retention sweep removes a log, with its task.)
\<close>

theorem logs_only_grow:
  assumes "a2a_run_from env db db'" "log_ok db"
  shows "log_ok db' \<and> prefix (log_of i db) (log_of i db') \<and> (frozen (log_of i db) \<longrightarrow> log_of i db' = log_of i db)"
proof -
  have "log_grows db db'" using assms(1)
  proof (induction rule: a2a_run_from.induct)
    case (submit db0 db run quota c req)
    then show ?case using log_grows_trans[OF _ submit_log_grows] by blast
  next
    case (report db0 db up now i status detail b db')
    then show ?case using log_grows_trans log_grows_grows[OF report_status_grows] by blast
  qed (auto intro: log_grows_same log_grows_trans cancel_log_grows)
  then show ?thesis using assms(2) by (simp add: log_grows_def)
qed

section \<open>Where a log stays open\<close>

lemma sweep_keeps_unfinished:
  assumes "distinct (map ar_id (ad_rows db))" "r \<in> set (ad_rows db)" "\<not> sweepable now ttl (ad_events db) r"
  shows "r \<in> set (ad_rows (snd (sweep_terminal_a2a_tasks now ttl batch db)))"
    "log_of (ar_id r) (snd (sweep_terminal_a2a_tasks now ttl batch db)) = log_of (ar_id r) db"
proof -
  let ?xs = "sort_key (\<lambda>r. (ar_created_at r, ar_id r)) (filter (sweepable now ttl (ad_events db)) (ad_rows db))"
  have "ar_id r \<notin> ar_id ` set (take (nat batch) ?xs)"
  proof
    assume "ar_id r \<in> ar_id ` set (take (nat batch) ?xs)"
    then obtain y where y: "y \<in> set (take (nat batch) ?xs)" "ar_id y = ar_id r" by auto
    have "y \<in> set ?xs" by (rule in_set_takeD[OF y(1)])
    then have "y \<in> set (ad_rows db)" "sweepable now ttl (ad_events db) y" by simp_all
    then have "y = r" using assms(1,2) y(2) by (auto simp: distinct_map inj_on_def)
    then show False using \<open>sweepable now ttl (ad_events db) y\<close> assms(3) by simp
  qed
  then have kept: "ttl \<le> 0 \<or> batch \<le> 0 \<or> ar_id r \<notin> set (map ar_id (take (nat batch) ?xs))" by simp
  show "r \<in> set (ad_rows (snd (sweep_terminal_a2a_tasks now ttl batch db)))"
    using kept assms(2) by (auto simp: sweep_terminal_a2a_tasks_def Let_def)
  have "i \<notin> S \<Longrightarrow> filter (\<lambda>e. ev_task e \<notin> S \<and> ev_task e = i) es = filter (\<lambda>e. ev_task e = i) es" for i S es
    by (rule filter_cong) auto
  then have "ttl \<le> 0 \<or> batch \<le> 0 \<or> filter (\<lambda>e. ev_task e \<notin> set (map ar_id (take (nat batch) ?xs)) \<and> ev_task e = ar_id r) (ad_events db)
      = filter (\<lambda>e. ev_task e = ar_id r) (ad_events db)"
    using kept by blast
  then show "log_of (ar_id r) (snd (sweep_terminal_a2a_tasks now ttl batch db)) = log_of (ar_id r) db"
    by (auto simp: sweep_terminal_a2a_tasks_def Let_def log_of_def conj_commute)
qed

text \<open>
  Closing the change on the platform cancels a run without telling its log. The owner then reads the task
  as cancelled, while the log has no final entry and gets none: its streams close without the end, its
  webhooks are never told, and the retention sweep keeps the task for ever.
\<close>

theorem closed_change_leaves_the_log_open:
  assumes "r \<in> set (ad_rows db)" "ar_underlying r = Some (tk_id x)" "get_row (ad_tasks db) (tk_id x) = Some x"
    "tk_status x = Running" "nt_target_type (tk_task x) = PULL_REQUEST"
    "\<not> frozen (log_of (ar_id r) db)" "ar_state r = state_wire State_Submitted"
    "db' = with_rows_of (snd (cancel_active_tasks_for_pr now (repo_of x) (nt_target_id (tk_task x)) (ad_tasks db))) db"
    "load_owned (ad_rows db) (ar_id r) (ar_caller r) = Some m" "mp_underlying m = Some (tk_id x)" "ax_up run A_Task"
    "distinct (map ar_id (ad_rows db))"
  shows "(\<exists>row. current_state run m db' = Inr (State_Canceled, row)) \<and> log_of (ar_id r) db' = log_of (ar_id r) db
    \<and> is_live_terminal (ar_underlying r) (Some db')
    \<and> r \<in> set (ad_rows (snd (sweep_terminal_a2a_tasks later ttl batch db')))"
proof -
  let ?ts = "snd (cancel_active_tasks_for_pr now (repo_of x) (nt_target_id (tk_task x)) (ad_tasks db))"
  have row: "get_row ?ts (tk_id x) = Some (cancelled_row now x)"
    using assms(3-5)
    by (simp add: cancel_active_tasks_for_pr_def cancel_where_def get_row_update_where cancelled_row_def)
  have c: "tk_status (cancelled_row now x) = Cancelled" by (simp add: cancelled_row_def)
  have "task_state_from_status (status_text Cancelled) = State_Canceled" by (simp add: task_state_from_status_def)
  then have state: "\<exists>row. current_state run m db' = Inr (State_Canceled, row)"
    using row c assms(8,10,11) by (simp add: current_state_def Let_def)
  have live: "is_live_terminal (ar_underlying r) (Some db')"
    using row c assms(2,8) by (simp add: is_live_terminal_def task_state_from_status_def is_terminal_state_def)
  have log: "log_of j db' = log_of j db" for j by (simp add: log_of_def assms(8))
  have "\<not> sweepable later ttl (ad_events db') r"
    using assms(6,7) by (simp add: sweepable_def has_final_log log)
  then have "r \<in> set (ad_rows (snd (sweep_terminal_a2a_tasks later ttl batch db')))"
    using assms(1,8,12) sweep_keeps_unfinished[of db' r later ttl batch] by simp
  then show ?thesis using state live log by simp
qed

section \<open>Samples\<close>

definition agent :: caller where
  "agent = \<lparr>cl_id = ''agent'', cl_perms = [REVIEW_PERMISSION]\<rparr>"

definition sample_quota :: quota_config where
  "sample_quota = \<lparr>qc_max = 20, qc_window_secs = 3600\<rparr>"

definition sample_message :: message where
  "sample_message = \<lparr>ms_tenant = None, ms_context_id = None, ms_parts = [Text_Part ''focus on auth'',
     Data_Part (JObj [(''repo'', JStr ''acme/shop''), (''pr'', JInt 3), (''headSha'', JStr ''def'')]) None]\<rparr>"

definition sample_input :: review_input where
  "sample_input = \<lparr>ri_platform = GitHub, ri_owner = ''acme'', ri_name = ''shop'', ri_pr = 3,
     ri_prompt = ''focus on auth'', ri_base_sha = None, ri_head_sha = Some ''def''\<rparr>"

lemma sample_message_parses: "parse_review_request sample_env (ms_parts sample_message) = Inr sample_input"
  by code_simp

lemma sample_repository:
  "find_repository id GitHub ''acme'' ''shop'' (wd_repos sample_web) = Some (7, Some 9, Approved)"
  by (simp add: find_repository_def sample_web_def)

lemma sample_admitted: "submit_review sample_env sample_quota calm_call agent sample_message (sample_db [])
    = launch_review sample_env calm_call agent ''c9'' sample_input 7 9 (sample_db [])"
proof -
  have "count_recent 100 [sample_row] ''agent'' SKILL_REVIEW 3600 \<le> 1" by (simp add: count_recent_def)
  then show ?thesis
    using sample_message_parses sample_repository
    by (simp add: submit_review_def agent_def sample_quota_def sample_input_def sample_db_def)
       (simp add: sample_message_def)
qed

lemma sample_submission:
  "\<exists>t db'. submit_review sample_env sample_quota calm_call agent sample_message (sample_db []) = (Inr t, db')
    \<and> at_state t = State_Submitted \<and> map tk_id (ad_tasks db') = [''u1'', ''u9'']"
proof -
  let ?nt = "review_task calm_call sample_input 7 9 (sample_db [])"
  let ?db = "delivered_to calm_call agent sample_input ?nt (sample_db [])"
  have new: "\<not> key_taken [sample_run] ?nt 0" "\<not> id_taken [sample_run] ''u9''"
    by (simp_all add: key_taken_def id_taken_def natural_key_def sample_run_def fresh_row_def sample_request_def sample_input_def)
  have u: "underlying_run calm_call ?nt ?db = (Inr ''u9'', with_rows_of ([sample_run] @ [fresh_row 100 ''u9'' ?nt 0 100
      (initial_status [sample_run] ?nt)]) ?db)"
    using new by (simp add: underlying_run_def create_task_def)
  have ids: "id_taken (ad_tasks (with_rows_of ([sample_run] @ [fresh_row 100 ''u9'' ?nt 0 100 (initial_status [sample_run] ?nt)]) ?db)) ''u9''"
    by (simp add: id_taken_def fresh_row_def)
  show ?thesis
    unfolding sample_admitted launch_review_def Let_def delivered_to_def[symmetric] u
    using ids
    by (simp add: store_create_def Let_def build_task_view_def meta_str_def linked_run_def run_exists_def)
       (simp add: meta_get_def submitted_metadata_def set_meta_def client_view_def Let_def fresh_row_def sample_run_def
         agent_def run_exists_def linked_run_def meta_str_def id_taken_def
         build_task_view_def)
qed

theorem submissions_pass_every_gate_witness:
  "\<exists>res db' nt. submit_review sample_env sample_quota calm_call agent sample_message (sample_db []) = (res, db')
    \<and> nt_preset nt = ''deep'' \<and> map tk_task (ad_tasks db') = [tk_task sample_run, nt]"
proof -
  obtain t db' where s: "submit_review sample_env sample_quota calm_call agent sample_message (sample_db []) = (Inr t, db')"
    and "map tk_id (ad_tasks db') = [''u1'', ''u9'']"
    using sample_submission by metis
  then have "ad_tasks db' \<noteq> ad_tasks (sample_db [])" "ad_tasks db' \<noteq> ad_tasks (ax_race calm_call (sample_db []))" by auto
  from submissions_pass_every_gate[OF s this] s show ?thesis by (auto simp: fresh_row_def)
qed

theorem accepted_submission_has_a_run_witness:
  "\<exists>t db' m. submit_review sample_env sample_quota calm_call agent sample_message (sample_db []) = (Inr t, db')
    \<and> load_owned (ad_rows db') ''a9'' ''agent'' = Some m \<and> mp_underlying m \<noteq> None"
proof -
  obtain t db' where s: "submit_review sample_env sample_quota calm_call agent sample_message (sample_db []) = (Inr t, db')"
    "at_state t = State_Submitted"
    using sample_submission by metis
  have "list_all (\<lambda>r. ae_uuid sample_env (tk_id r) = Some (tk_id r)) (ad_tasks db')" by (simp add: list_all_iff)
  from accepted_submission_has_a_run[OF s _ this] s show ?thesis by (auto simp: agent_def)
qed

lemma sample_cancel:
  "\<exists>t db'. handle_cancel_task sample_env calm_call (sample_params ''agent'') ''a1'' (sample_db []) = (Inr t, db')"
proof -
  obtain perms where "caller_of (sample_params ''agent'') = Inr \<lparr>cl_id = ''agent'', cl_perms = perms\<rparr>"
    using caller_of_sample[of "''agent''"] by auto
  then show ?thesis
    by (simp add: handle_cancel_task_def owned_task_def load_owned_def current_state_def Let_def get_row_def sample_run_def
        fresh_row_def task_state_from_status_def is_terminal_state_def)
qed

theorem cancel_stops_and_closes_witness:
  "\<exists>t db'. handle_cancel_task sample_env calm_call (sample_params ''agent'') ''a1'' (sample_db []) = (Inr t, db')
    \<and> get_task_status (ad_tasks db') ''u1'' = Some Cancelled \<and> frozen (log_of ''a1'' db')"
proof -
  obtain t db' where r: "handle_cancel_task sample_env calm_call (sample_params ''agent'') ''a1'' (sample_db []) = (Inr t, db')"
    using sample_cancel by blast
  obtain perms where c: "caller_of (sample_params ''agent'') = Inr \<lparr>cl_id = ''agent'', cl_perms = perms\<rparr>"
    using caller_of_sample[of "''agent''"] by auto
  obtain m where m: "owned_task sample_env calm_call \<lparr>cl_id = ''agent'', cl_perms = perms\<rparr> ''a1'' (sample_db []) = Inr (''a1'', m)"
    "mp_underlying m = Some ''u1''"
    by (simp add: owned_task_def load_owned_def)
  have x: "get_row (ad_tasks (ax_race calm_call (sample_db []))) ''u1'' = Some sample_run"
    "list_ex (\<lambda>r. ar_id r = ''a1'') (ad_rows (ax_race calm_call (sample_db [])))" "log_ok (ax_race calm_call (sample_db []))"
    "\<not> is_terminal (tk_status sample_run)"
    by (simp_all add: get_row_def sample_run_def fresh_row_def is_terminal_def)
  from cancel_stops_and_closes[OF r x(3) c m(1) m(2) x(1,2)] x(4) r show ?thesis by auto
qed

theorem logs_only_grow_witness:
  "log_ok (snd (handle_cancel_task sample_env calm_call (sample_params ''agent'') ''a1'' (sample_db [])))"
proof -
  have "a2a_run_from sample_env (sample_db []) (ax_race calm_call (sample_db []))" by (simp add: a2a_run_from.start)
  from logs_only_grow[OF a2a_run_from.cancel[OF a2a_run_from.start this]] show ?thesis by simp
qed

theorem closed_change_leaves_the_log_open_witness:
  "\<exists>m db'. db' = with_rows_of (snd (cancel_active_tasks_for_pr 9 7 3 [sample_run])) (sample_db (take 1 sample_log))
    \<and> load_owned [sample_row] ''a1'' ''agent'' = Some m
    \<and> (\<exists>row. current_state calm_call m db' = Inr (State_Canceled, row)) \<and> \<not> frozen (log_of ''a1'' db')"
proof -
  let ?db = "sample_db (take 1 sample_log)"
  obtain m where m: "load_owned (ad_rows ?db) (ar_id sample_row) (ar_caller sample_row) = Some m" "mp_underlying m = Some (tk_id sample_run)"
    by (simp add: load_owned_def sample_run_def fresh_row_def)
  have run: "tk_id sample_run = ''u1''" "get_row (ad_tasks ?db) (tk_id sample_run) = Some sample_run" "tk_status sample_run = Running"
    "nt_target_type (tk_task sample_run) = PULL_REQUEST" "repo_of sample_run = 7" "nt_target_id (tk_task sample_run) = 3"
    by (simp_all add: get_row_def sample_run_def fresh_row_def sample_request_def)
  have open_log: "\<not> frozen (log_of (ar_id sample_row) ?db)"
    using sample_log_a1(2) by (simp add: sample_log_def frozen_def sample_entry_def is_terminal_state_def)
  have "ar_state sample_row = state_wire State_Submitted" by (simp add: sample_row_def)
  from closed_change_leaves_the_log_open[OF _ _ run(2,3,4) open_log this refl m, of calm_call 9] show ?thesis
    using open_log m run by simp
qed

end
