(* ===== verification/Code_Index.thy ===== *)
theory Code_Index
  imports Repositories
begin

text \<open>
  The two halves of a repository's index: the chunks of \<open>db/code_chunks.rs\<close> and the symbol graph of
  \<open>integrations/neo4j.rs\<close>, with the runner's requests that fill and read them (\<open>http/internal.rs\<close>). A vector is
  the list of its numbers as the database literal writes them; distance, lower-casing and full-text ranking
  are the stores', parameters. A query without an order reads its rows in table order.
\<close>

section \<open>Tables\<close>

type_synonym embedding = "string list"

record code_chunk =
  ck_file_path :: string
  ck_language :: string
  ck_chunk_type :: string
  ck_symbol_name :: "string option"
  ck_start_line :: int
  ck_end_line :: int
  ck_content :: string
  ck_embedding :: embedding

record chunk_row =
  cr_id :: nat
  cr_repo :: int
  cr_commit :: string
  cr_chunk :: code_chunk
  cr_created_at :: nat

record graph_node =
  gn_node_id :: string
  gn_label :: string
  gn_source_file :: string
  gn_start_line :: int
  gn_embedding :: "embedding option"

record graph_edge =
  ge_source :: string
  ge_target :: string
  ge_relation :: string

record symbol =
  sy_repo :: int
  sy_commit :: string
  sy_node_id :: string
  sy_label :: string
  sy_source_file :: string
  sy_start_line :: int
  sy_embedding :: "embedding option"

record rel =
  rl_repo :: int
  rl_commit :: string
  rl_source :: string
  rl_target :: string
  rl_relation :: string

record code_graph =
  cg_symbols :: "symbol list"
  cg_rels :: "rel list"

record index_db =
  ix_control :: control_db
  ix_chunks :: "chunk_row list"
  ix_next_chunk :: nat
  ix_repo_index :: "int list"     \<comment> \<open>the repositories with bookkeeping rows\<close>
  ix_graph :: code_graph

abbreviation ix_tasks :: "index_db \<Rightarrow> tasks" where "ix_tasks db \<equiv> cd_tasks (ix_control db)"
abbreviation ix_snapshots :: "index_db \<Rightarrow> snapshots" where "ix_snapshots db \<equiv> cd_snapshots (ix_control db)"
abbreviation ix_repos :: "index_db \<Rightarrow> repository list" where "ix_repos db \<equiv> cd_repos (ix_control db)"

definition with_index_tasks :: "tasks \<Rightarrow> index_db \<Rightarrow> index_db" where
  "with_index_tasks ts db = db\<lparr>ix_control := (ix_control db)\<lparr>cd_tasks := ts\<rparr>\<rparr>"

section \<open>Chunks\<close>

definition in_snapshot :: "int \<Rightarrow> string \<Rightarrow> chunk_row \<Rightarrow> bool" where
  "in_snapshot repo commit c \<longleftrightarrow> cr_repo c = repo \<and> cr_commit c = commit"

text \<open>The newest completed snapshot that has chunks; for a repository without one, the newest chunk's commit.\<close>

definition readable_snapshots :: "snapshots \<Rightarrow> chunk_row list \<Rightarrow> int \<Rightarrow> snapshots" where
  "readable_snapshots snaps chunks repo =
     filter (\<lambda>((r, commit), _). r = repo \<and> list_ex (in_snapshot repo commit) chunks) snaps"

definition latest_indexed_commit :: "snapshots \<Rightarrow> chunk_row list \<Rightarrow> int \<Rightarrow> string option" where
  "latest_indexed_commit snaps chunks repo =
     (case rev (sort_key snd (readable_snapshots snaps chunks repo)) of
        ((_, commit), _) # _ \<Rightarrow> Some commit
      | [] \<Rightarrow>
          (case rev (sort_key (\<lambda>c. (cr_created_at c, cr_id c)) (filter (\<lambda>c. cr_repo c = repo) chunks)) of
             [] \<Rightarrow> None
           | c # _ \<Rightarrow> Some (cr_commit c)))"

definition same_place :: "int \<Rightarrow> string \<Rightarrow> code_chunk \<Rightarrow> chunk_row \<Rightarrow> bool" where
  "same_place repo commit k c \<longleftrightarrow> in_snapshot repo commit c \<and> ck_file_path (cr_chunk c) = ck_file_path k
     \<and> ck_start_line (cr_chunk c) = ck_start_line k \<and> ck_end_line (cr_chunk c) = ck_end_line k"

definition upsert_chunk :: "nat \<Rightarrow> int \<Rightarrow> string \<Rightarrow> code_chunk \<Rightarrow> index_db \<Rightarrow> index_db" where
  "upsert_chunk now repo commit k db =
     (if list_ex (same_place repo commit k) (ix_chunks db)
      then db\<lparr>ix_chunks := update_where (same_place repo commit k) (\<lambda>c. c\<lparr>cr_chunk := k\<rparr>) (ix_chunks db),
              ix_next_chunk := ix_next_chunk db + 1\<rparr>
      else db\<lparr>ix_chunks := ix_chunks db @ [\<lparr>cr_id = ix_next_chunk db, cr_repo = repo, cr_commit = commit,
                cr_chunk = k, cr_created_at = now\<rparr>],
              ix_next_chunk := ix_next_chunk db + 1\<rparr>)"

text \<open>One transaction: all of the batch or nothing.\<close>

definition upsert_code_chunks ::
  "bool \<Rightarrow> nat \<Rightarrow> int \<Rightarrow> string \<Rightarrow> code_chunk list \<Rightarrow> index_db \<Rightarrow> (sql_error, nat) result \<times> index_db" where
  "upsert_code_chunks up now repo commit ks db =
     (if up then (Inr (length ks), fold (upsert_chunk now repo commit) ks db) else (Inl Unavailable, db))"

definition vector_literal :: "embedding \<Rightarrow> string" where
  "vector_literal v = ''['' @ join_with '','' v @ '']''"

definition search_code_chunks ::
  "(string \<Rightarrow> string \<Rightarrow> 'd::linordered_idom) \<Rightarrow> int \<Rightarrow> string \<Rightarrow> embedding \<Rightarrow> int \<Rightarrow> chunk_row list
   \<Rightarrow> (code_chunk \<times> 'd) list" where
  "search_code_chunks dist repo commit q limit chunks =
     (let far = (\<lambda>c. dist (vector_literal (ck_embedding (cr_chunk c))) (vector_literal q)) in
      map (\<lambda>c. (cr_chunk c, 1 - far c))
        (take (nat limit) (sort_key far (filter (in_snapshot repo commit) chunks))))"

definition delete_index_snapshots_for_repo :: "int \<Rightarrow> snapshots \<Rightarrow> snapshots" where
  "delete_index_snapshots_for_repo repo = filter (\<lambda>((r, _), _). r \<noteq> repo)"

definition delete_code_chunks_for_repo :: "int \<Rightarrow> chunk_row list \<Rightarrow> chunk_row list" where
  "delete_code_chunks_for_repo repo = filter (\<lambda>c. cr_repo c \<noteq> repo)"

definition delete_repo_index_rows :: "int \<Rightarrow> int list \<Rightarrow> int list" where
  "delete_repo_index_rows repo = filter (\<lambda>r. r \<noteq> repo)"

definition repos_with_stale_snapshots :: "chunk_row list \<Rightarrow> int list" where
  "repos_with_stale_snapshots chunks =
     filter (\<lambda>r. 1 < length (remdups (map cr_commit (filter (\<lambda>c. cr_repo c = r) chunks)))) (remdups (map cr_repo chunks))"

definition in_use_commits :: "tasks \<Rightarrow> int \<Rightarrow> string list" where
  "in_use_commits ts repo =
     remdups (List.map_filter (\<lambda>t. if repo_of t = repo \<and> \<not> is_terminal (tk_status t) then nt_head_sha (tk_task t) else None) ts)"

definition has_active_index_task :: "tasks \<Rightarrow> int \<Rightarrow> bool" where
  "has_active_index_task ts repo =
     list_ex (\<lambda>t. repo_of t = repo \<and> nt_command (tk_task t) = ''index'' \<and> \<not> is_terminal (tk_status t)) ts"

text \<open>Rows of the last ten minutes are spared.\<close>

definition prune_code_chunks :: "nat \<Rightarrow> int \<Rightarrow> string list \<Rightarrow> chunk_row list \<Rightarrow> chunk_row list" where
  "prune_code_chunks now repo keep chunks =
     (if keep = [] then chunks
      else filter (\<lambda>c. \<not> (cr_repo c = repo \<and> cr_commit c \<notin> set keep \<and> cr_created_at c + 600 < now)) chunks)"

definition list_disabled_repos_needing_purge :: "int \<Rightarrow> index_db \<Rightarrow> int list" where
  "list_disabled_repos_needing_purge limit db =
     take (nat limit) (map re_id (filter (\<lambda>r. re_status r = Disabled
        \<and> (list_ex (\<lambda>c. cr_repo c = re_id r) (ix_chunks db) \<or> re_id r \<in> set (ix_repo_index db))) (ix_repos db)))"

section \<open>The symbol graph\<close>

definition is_symbol :: "int \<Rightarrow> string \<Rightarrow> string \<Rightarrow> symbol \<Rightarrow> bool" where
  "is_symbol repo commit node s \<longleftrightarrow> sy_repo s = repo \<and> sy_commit s = commit \<and> sy_node_id s = node"

definition set_symbol :: "graph_node \<Rightarrow> symbol \<Rightarrow> symbol" where
  "set_symbol n s =
     (let e = (case gn_embedding n of None \<Rightarrow> [] | Some v \<Rightarrow> v) in
      s\<lparr>sy_label := gn_label n, sy_source_file := gn_source_file n, sy_start_line := gn_start_line n,
        sy_embedding := (if e \<noteq> [] then Some e else sy_embedding s)\<rparr>)"

definition merge_symbol :: "int \<Rightarrow> string \<Rightarrow> graph_node \<Rightarrow> symbol list \<Rightarrow> symbol list" where
  "merge_symbol repo commit n ss =
     (if list_ex (is_symbol repo commit (gn_node_id n)) ss
      then update_where (is_symbol repo commit (gn_node_id n)) (set_symbol n) ss
      else ss @ [set_symbol n \<lparr>sy_repo = repo, sy_commit = commit, sy_node_id = gn_node_id n, sy_label = '''',
                               sy_source_file = '''', sy_start_line = 0, sy_embedding = None\<rparr>])"

text \<open>An edge is written between symbols that exist, once.\<close>

definition merge_rel :: "int \<Rightarrow> string \<Rightarrow> symbol list \<Rightarrow> graph_edge \<Rightarrow> rel list \<Rightarrow> rel list" where
  "merge_rel repo commit ss e rs =
     (let r = \<lparr>rl_repo = repo, rl_commit = commit, rl_source = ge_source e, rl_target = ge_target e,
               rl_relation = ge_relation e\<rparr>
      in if list_ex (is_symbol repo commit (ge_source e)) ss \<and> list_ex (is_symbol repo commit (ge_target e)) ss
            \<and> r \<notin> set rs
         then rs @ [r] else rs)"

definition upsert_graph :: "int \<Rightarrow> string \<Rightarrow> graph_node list \<Rightarrow> graph_edge list \<Rightarrow> code_graph \<Rightarrow> code_graph" where
  "upsert_graph repo commit nodes edges g =
     (let ss = fold (merge_symbol repo commit) nodes (cg_symbols g)
      in \<lparr>cg_symbols = ss, cg_rels = fold (merge_rel repo commit ss) edges (cg_rels g)\<rparr>)"

text \<open>
  A deletion commits after every thousand nodes: \<open>through\<close> says how many batches went through before it
  failed, or that it did not fail. A node goes with its edges.
\<close>

definition DELETE_BATCH_ROWS :: nat where "DELETE_BATCH_ROWS = 1000"

definition touches :: "symbol \<Rightarrow> rel \<Rightarrow> bool" where
  "touches s r \<longleftrightarrow> sy_repo s = rl_repo r \<and> sy_commit s = rl_commit r \<and> (sy_node_id s = rl_source r \<or> sy_node_id s = rl_target r)"

definition detach_delete :: "symbol list \<Rightarrow> code_graph \<Rightarrow> code_graph" where
  "detach_delete gone g =
     \<lparr>cg_symbols = filter (\<lambda>s. s \<notin> set gone) (cg_symbols g),
      cg_rels = filter (\<lambda>r. \<not> list_ex (\<lambda>s. touches s r) gone) (cg_rels g)\<rparr>"

definition delete_symbols_in_batches ::
  "nat option \<Rightarrow> (symbol \<Rightarrow> bool) \<Rightarrow> code_graph \<Rightarrow> (sql_error, nat) result \<times> code_graph" where
  "delete_symbols_in_batches through sel g =
     (let matched = filter sel (cg_symbols g) in
      case through of
        None \<Rightarrow> (Inr (length matched), if matched = [] then g else detach_delete matched g)
      | Some n \<Rightarrow> (Inl Unavailable, detach_delete (take (n * DELETE_BATCH_ROWS) matched) g))"

definition delete_commit_graph :: "nat option \<Rightarrow> int \<Rightarrow> string \<Rightarrow> code_graph \<Rightarrow> (sql_error, nat) result \<times> code_graph" where
  "delete_commit_graph b repo commit = delete_symbols_in_batches b (\<lambda>s. sy_repo s = repo \<and> sy_commit s = commit)"

definition delete_repo_graph :: "nat option \<Rightarrow> int \<Rightarrow> code_graph \<Rightarrow> (sql_error, nat) result \<times> code_graph" where
  "delete_repo_graph b repo = delete_symbols_in_batches b (\<lambda>s. sy_repo s = repo)"

definition prune_graph :: "nat option \<Rightarrow> int \<Rightarrow> string list \<Rightarrow> code_graph \<Rightarrow> (sql_error, nat) result \<times> code_graph" where
  "prune_graph b repo keep g =
     (if keep = [] then (Inr 0, g)
      else delete_symbols_in_batches b (\<lambda>s. sy_repo s = repo \<and> sy_commit s \<notin> set keep) g)"

record symbol_hit =
  sh_node_id :: string
  sh_label :: string
  sh_source_file :: string
  sh_start_line :: int

definition symbol_hit_of :: "symbol \<Rightarrow> symbol_hit" where
  "symbol_hit_of s = \<lparr>sh_node_id = sy_node_id s, sh_label = sy_label s, sh_source_file = sy_source_file s,
     sh_start_line = sy_start_line s\<rparr>"

definition symbols_of :: "int \<Rightarrow> string \<Rightarrow> code_graph \<Rightarrow> symbol list" where
  "symbols_of repo commit g = filter (\<lambda>s. sy_repo s = repo \<and> sy_commit s = commit) (cg_symbols g)"

definition rels_of :: "int \<Rightarrow> string \<Rightarrow> code_graph \<Rightarrow> rel list" where
  "rels_of repo commit g = filter (\<lambda>r. rl_repo r = repo \<and> rl_commit r = commit) (cg_rels g)"

definition find_symbol ::
  "(string \<Rightarrow> string) \<Rightarrow> int \<Rightarrow> string \<Rightarrow> string \<Rightarrow> int \<Rightarrow> code_graph \<Rightarrow> symbol_hit list" where
  "find_symbol lower repo commit term limit g =
     map symbol_hit_of (take (nat limit)
       (filter (\<lambda>s. sublist (lower term) (lower (sy_label s)) \<or> sublist (lower term) (lower (sy_node_id s))
                  \<or> sublist (lower term) (lower (sy_source_file s))) (symbols_of repo commit g)))"

definition get_callers :: "int \<Rightarrow> string \<Rightarrow> string \<Rightarrow> int \<Rightarrow> code_graph \<Rightarrow> symbol_hit list" where
  "get_callers repo commit node limit g =
     map symbol_hit_of (take (nat limit)
       (filter (\<lambda>s. list_ex (\<lambda>r. rl_relation r = ''calls'' \<and> rl_source r = sy_node_id s \<and> rl_target r = node)
                      (rels_of repo commit g)) (symbols_of repo commit g)))"

definition escape_lucene_query :: "string \<Rightarrow> string" where
  "escape_lucene_query s = concat (map (\<lambda>c. if c \<in> set ([CHR 0x5C] @ ''+-!():^[]'' @ [CHR 0x22] @ ''{}~*?|&/'') then [CHR 0x5C, c] else [c]) s)"

text \<open>
  The full-text index ranks symbols of every repository; the best \<open>source_k\<close> are then filtered. The fused
  score \<open>1 / (60 + rank)\<close> falls with the rank, so its order is the rank's.
\<close>

definition hybrid_symbol_search ::
  "(symbol list \<Rightarrow> string \<Rightarrow> symbol list) \<Rightarrow> int \<Rightarrow> string \<Rightarrow> string \<Rightarrow> int \<Rightarrow> int \<Rightarrow> code_graph \<Rightarrow> symbol_hit list" where
  "hybrid_symbol_search fulltext repo commit query source_k final_k g =
     map symbol_hit_of (take (nat final_k)
       (filter (\<lambda>s. sy_repo s = repo \<and> sy_commit s = commit)
         (take (nat source_k) (fulltext (cg_symbols g) (escape_lucene_query query)))))"

end
