(* ===== verification/Index_Requests.thy ===== *)
theory Index_Requests
  imports Code_Index
begin

text \<open>
  The runner's requests on the index (\<open>http/internal.rs\<close>), the sweeper of old snapshots
  (\<open>queue/index_sweeper.rs\<close>) and the purge of a disabled repository (\<open>queue/lifecycle.rs\<close>). Which statements
  the stores answer is an argument; a purge that is cut off is one whose later statements are not answered.
  Nothing else runs between the statements of one sweep of a repository. Metrics and logs are left out.
\<close>

datatype index_query =
  X_Task | X_Record | X_Chunks | X_Scope | X_Latest | X_Search | X_Graph | X_List | X_Active | X_In_Use | X_Prune
| X_Status | X_Cancel | X_Drop_Chunks | X_Drop_Rows | X_Drop_Snapshots

record index_run =
  xr_pool :: bool
  xr_neo4j :: bool
  xr_up :: "index_query \<Rightarrow> bool"
  xr_now :: nat
  xr_batches :: "nat option"     \<comment> \<open>how far a graph deletion gets\<close>

section \<open>Filling the index\<close>

definition note_commit :: "index_run \<Rightarrow> string \<Rightarrow> string \<Rightarrow> index_db \<Rightarrow> index_db" where
  "note_commit run i commit db =
     (if xr_up run X_Record then with_index_tasks (record_indexed_commit i commit (ix_tasks db)) db else db)"

definition ingest_chunks ::
  "index_run \<Rightarrow> string \<Rightarrow> string \<Rightarrow> code_chunk list \<Rightarrow> index_db \<Rightarrow> unit http_reply \<times> index_db" where
  "ingest_chunks run i commit chunks db =
     (if \<not> xr_pool run then (Service_Unavailable ''no database'', db)
      else if \<not> xr_up run X_Task then (Internal_Error ''query error'', db)
      else case get_row (ix_tasks db) i of
        None \<Rightarrow> (Not_Found ''task not found'', db)
      | Some t \<Rightarrow>
          if chunks = [] then (No_Content, db)
          else (case upsert_code_chunks (xr_up run X_Chunks) (xr_now run) (repo_of t) commit chunks
                       (note_commit run i commit db) of
                  (Inl _, db') \<Rightarrow> (Internal_Error ''upsert error'', db')
                | (Inr _, db') \<Rightarrow> (No_Content, db')))"

definition ingest_graph ::
  "index_run \<Rightarrow> string \<Rightarrow> string \<Rightarrow> graph_node list \<Rightarrow> graph_edge list \<Rightarrow> index_db \<Rightarrow> unit http_reply \<times> index_db" where
  "ingest_graph run i commit nodes edges db =
     (if \<not> xr_pool run then (Service_Unavailable ''no database'', db)
      else if \<not> xr_neo4j run then (Service_Unavailable ''neo4j not configured'', db)
      else if \<not> xr_up run X_Task then (Internal_Error ''query error'', db)
      else case get_row (ix_tasks db) i of
        None \<Rightarrow> (Not_Found ''task not found'', db)
      | Some t \<Rightarrow>
          if nodes = [] \<and> edges = [] then (No_Content, db)
          else (let db1 = note_commit run i commit db in
                if xr_up run X_Graph
                then (No_Content, db1\<lparr>ix_graph := upsert_graph (repo_of t) commit nodes edges (ix_graph db1)\<rparr>)
                else (Internal_Error ''upsert error'', db1)))"

text \<open>Discarding names the snapshot after the task's head or, without one, after the default branch.\<close>

definition discard_graph :: "index_run \<Rightarrow> string \<Rightarrow> index_db \<Rightarrow> unit http_reply \<times> index_db" where
  "discard_graph run i db =
     (if \<not> xr_pool run then (Service_Unavailable ''no database'', db)
      else if \<not> xr_neo4j run then (Service_Unavailable ''neo4j not configured'', db)
      else if \<not> xr_up run X_Task then (Internal_Error ''query error'', db)
      else case Option.bind (get_row (ix_tasks db) i) (\<lambda>t. map_option (Pair t) (repo_row (ix_repos db) (repo_of t))) of
        None \<Rightarrow> (Not_Found ''task not found'', db)
      | Some (t, r) \<Rightarrow>
          (let commit = (case nt_head_sha (tk_task t) of Some h \<Rightarrow> h | None \<Rightarrow> re_default_branch r)
           in case delete_commit_graph (xr_batches run) (repo_of t) commit (ix_graph db) of
                (Inl _, g) \<Rightarrow> (Internal_Error ''delete error'', db\<lparr>ix_graph := g\<rparr>)
              | (Inr _, g) \<Rightarrow> (No_Content, db\<lparr>ix_graph := g\<rparr>)))"

section \<open>Reading the index\<close>

definition retrieval_commit :: "string option \<Rightarrow> string \<Rightarrow> string" where
  "retrieval_commit head default_branch = (case head of Some h \<Rightarrow> h | None \<Rightarrow> default_branch)"

definition task_scope :: "(index_query \<Rightarrow> bool) \<Rightarrow> index_db \<Rightarrow> string \<Rightarrow> (sql_error, (int \<times> string) option) result" where
  "task_scope up db i =
     (if \<not> up X_Scope then Inl Unavailable
      else case get_task_context (ix_control db) i of
        None \<Rightarrow> Inr None
      | Some c \<Rightarrow>
          if \<not> up X_Latest then Inl Unavailable
          else Inr (Some (cx_repository_id c,
            (case latest_indexed_commit (ix_snapshots db) (ix_chunks db) (cx_repository_id c) of
               Some commit \<Rightarrow> commit
             | None \<Rightarrow> retrieval_commit (cx_head_sha c) (cx_default_branch c)))))"

definition clamp_limit :: "int option \<Rightarrow> int" where
  "clamp_limit limit = max 1 (min 100 (case limit of Some n \<Rightarrow> n | None \<Rightarrow> 10))"

definition search ::
  "(string \<Rightarrow> string \<Rightarrow> 'd::linordered_idom) \<Rightarrow> index_run \<Rightarrow> string \<Rightarrow> embedding \<Rightarrow> int option \<Rightarrow> index_db
   \<Rightarrow> (code_chunk \<times> 'd) list http_reply" where
  "search dist run i q limit db =
     (if \<not> xr_pool run then Service_Unavailable ''no database''
      else if q = [] then Bad_Request ''empty embedding''
      else case task_scope (xr_up run) db i of
        Inl _ \<Rightarrow> Internal_Error ''query error''
      | Inr None \<Rightarrow> Not_Found ''task not found''
      | Inr (Some (repo, commit)) \<Rightarrow>
          if xr_up run X_Search then Ok_Json (search_code_chunks dist repo commit q (clamp_limit limit) (ix_chunks db))
          else Internal_Error ''search error'')"

record graph_search =
  gs_lower :: "string \<Rightarrow> string"
  gs_fulltext :: "symbol list \<Rightarrow> string \<Rightarrow> symbol list"
  gs_debug :: "string \<Rightarrow> string"

record graph_query_request =
  gq_op :: string
  gq_term :: "string option"
  gq_node_id :: "string option"
  gq_embedding :: "embedding option"
  gq_limit :: "int option"

definition graph_query ::
  "graph_search \<Rightarrow> index_run \<Rightarrow> string \<Rightarrow> graph_query_request \<Rightarrow> index_db \<Rightarrow> symbol_hit list http_reply" where
  "graph_query store run i req db =
     (if \<not> xr_pool run then Service_Unavailable ''no database''
      else if \<not> xr_neo4j run then Service_Unavailable ''neo4j not configured''
      else case task_scope (xr_up run) db i of
        Inl _ \<Rightarrow> Internal_Error ''query error''
      | Inr None \<Rightarrow> Not_Found ''task not found''
      | Inr (Some (repo, commit)) \<Rightarrow>
          (let limit = clamp_limit (gq_limit req);
               answer = (\<lambda>hits. if xr_up run X_Graph then Ok_Json hits else Internal_Error ''graph query error'')
           in if gq_op req = ''find_symbol''
              then (case gq_term req of
                      None \<Rightarrow> Bad_Request ''find_symbol requires `term`''
                    | Some term \<Rightarrow> answer (find_symbol (gs_lower store) repo commit term limit (ix_graph db)))
              else if gq_op req = ''get_callers''
              then (case gq_node_id req of
                      None \<Rightarrow> Bad_Request ''get_callers requires `node_id`''
                    | Some node \<Rightarrow> answer (get_callers repo commit node limit (ix_graph db)))
              else if gq_op req = ''hybrid_search''
              then (case (gq_term req, gq_embedding req) of
                      (Some term, Some _) \<Rightarrow>
                        answer (hybrid_symbol_search (gs_fulltext store) repo commit term (max limit 500) limit (ix_graph db))
                    | _ \<Rightarrow> Bad_Request ''hybrid_search requires `term` and `embedding`'')
              else Bad_Request (''unsupported op '' @ gs_debug store (gq_op req)
                     @ '' (expected: find_symbol | get_callers | hybrid_search)'')))"

section \<open>Sweeping old snapshots\<close>

definition keep_set :: "index_db \<Rightarrow> int \<Rightarrow> string list" where
  "keep_set db repo =
     (let keep = in_use_commits (ix_tasks db) repo
      in case latest_indexed_commit (ix_snapshots db) (ix_chunks db) repo of
           Some latest \<Rightarrow> if latest \<in> set keep then keep else keep @ [latest]
         | None \<Rightarrow> keep)"

definition sweep_repo :: "index_run \<Rightarrow> int \<Rightarrow> index_db \<Rightarrow> (sql_error, unit) result \<times> index_db" where
  "sweep_repo run repo db =
     (if \<not> xr_up run X_Active then (Inl Unavailable, db)
      else if has_active_index_task (ix_tasks db) repo then (Inr (), db)
      else if \<not> xr_up run X_In_Use \<or> \<not> xr_up run X_Latest then (Inl Unavailable, db)
      else (let keep = keep_set db repo in
            if keep = [] then (Inr (), db)
            else if \<not> xr_up run X_Prune then (Inl Unavailable, db)
            else (let db1 = db\<lparr>ix_chunks := prune_code_chunks (xr_now run) repo keep (ix_chunks db)\<rparr> in
                  if \<not> xr_neo4j run then (Inr (), db1)
                  else (case prune_graph (xr_batches run) repo keep (ix_graph db1) of
                          (Inl e, g) \<Rightarrow> (Inl e, db1\<lparr>ix_graph := g\<rparr>)
                        | (Inr _, g) \<Rightarrow> (Inr (), db1\<lparr>ix_graph := g\<rparr>)))))"

definition index_sweep_once :: "bool \<Rightarrow> (int \<Rightarrow> index_run) \<Rightarrow> index_db \<Rightarrow> (sql_error, unit) result \<times> index_db" where
  "index_sweep_once up runs db =
     (if \<not> up then (Inl Unavailable, db)
      else (Inr (), fold (\<lambda>repo d. snd (sweep_repo (runs repo) repo d)) (repos_with_stale_snapshots (ix_chunks db)) db))"

section \<open>Purging a disabled repository\<close>

definition purge_stores :: "index_run \<Rightarrow> int \<Rightarrow> index_db \<Rightarrow> index_db" where
  "purge_stores run repo db =
     (let db1 = (if xr_up run X_Drop_Chunks
                 then db\<lparr>ix_chunks := delete_code_chunks_for_repo repo (ix_chunks db)\<rparr> else db);
          db2 = (if xr_up run X_Drop_Rows
                 then db1\<lparr>ix_repo_index := delete_repo_index_rows repo (ix_repo_index db1)\<rparr> else db1)
      in if xr_up run X_Drop_Snapshots
         then db2\<lparr>ix_control := (ix_control db2)\<lparr>cd_snapshots := delete_index_snapshots_for_repo repo (ix_snapshots db2)\<rparr>\<rparr>
         else db2)"

text \<open>The graph goes first; a failure there leaves the rows that get the repository listed again.\<close>

definition purge_confirmed :: "index_run \<Rightarrow> int \<Rightarrow> index_db \<Rightarrow> index_db" where
  "purge_confirmed run repo db =
     (let db1 = (if xr_up run X_Cancel
                 then with_index_tasks (snd (cancel_active_tasks_for_repo (xr_now run) repo (ix_tasks db))) db else db)
      in if \<not> xr_neo4j run then purge_stores run repo db1
         else case delete_repo_graph (xr_batches run) repo (ix_graph db1) of
                (Inl _, g) \<Rightarrow> db1\<lparr>ix_graph := g\<rparr>
              | (Inr _, g) \<Rightarrow> purge_stores run repo (db1\<lparr>ix_graph := g\<rparr>))"

definition purge_repository_data :: "index_run \<Rightarrow> int \<Rightarrow> index_db \<Rightarrow> index_db" where
  "purge_repository_data run repo db =
     (if \<not> xr_up run X_Status then db
      else case repository_status (ix_repos db) repo of
        Some s \<Rightarrow> if s \<noteq> Disabled then db else purge_confirmed run repo db
      | None \<Rightarrow> purge_confirmed run repo db)"

definition PURGE_RECONCILE_BATCH :: int where "PURGE_RECONCILE_BATCH = 20"

definition reconcile_purges :: "bool \<Rightarrow> (int \<Rightarrow> index_run) \<Rightarrow> index_db \<Rightarrow> index_db" where
  "reconcile_purges up runs db =
     (if \<not> up then db
      else fold (\<lambda>repo d. purge_repository_data (runs repo) repo d)
             (list_disabled_repos_needing_purge PURGE_RECONCILE_BATCH db) db)"

end
