(* ===== verification/Indexer.thy ===== *)
theory Indexer
  imports Index_Requests
begin

text \<open>
  The runner's side of an index run: the graph in bounded pages, nodes before edges, discarded when the pages
  stop partway, then the chunks in embedded batches (\<open>agent-runner/src/indexer\<close>, the submissions of
  \<open>agent-clients/src/control_plane/indexing.rs\<close>, \<open>perform_indexing\<close> of \<open>run.rs\<close>). The walk's output and the
  embedder are parameters. Every request of a run has a number; \<open>net\<close> says what becomes of it: it never
  arrives, it is handled and answered, or it is handled and its answer is lost.
\<close>

datatype fate = Unreachable | Answered index_run | Answer_Lost index_run

type_synonym network = "nat \<Rightarrow> fate"

fun is_success :: "'a http_reply \<Rightarrow> bool" where
  "is_success (Ok_Json _) = True"
| "is_success No_Content = True"
| "is_success _ = False"

definition request :: "(index_run \<Rightarrow> index_db \<Rightarrow> unit http_reply \<times> index_db) \<Rightarrow> fate \<Rightarrow> index_db \<Rightarrow> bool \<times> index_db" where
  "request handler d db =
     (case d of
        Unreachable \<Rightarrow> (False, db)
      | Answered run \<Rightarrow> (is_success (fst (handler run db)), snd (handler run db))
      | Answer_Lost run \<Rightarrow> (False, snd (handler run db)))"

section \<open>Paging\<close>

function pages :: "nat \<Rightarrow> 'a list \<Rightarrow> 'a list list" where
  "pages n xs = (if xs = [] \<or> n = 0 then [] else take n xs # pages n (drop n xs))"
  by pat_completeness auto
termination
  by (relation "measure (\<lambda>(n, xs). length xs)") auto

declare pages.simps [simp del]

lemma concat_pages [simp]: "0 < n \<Longrightarrow> concat (pages n xs) = xs"
  by (induction n xs rule: pages.induct) (simp add: pages.simps)

lemma pages_nonempty: "p \<in> set (pages n xs) \<Longrightarrow> p \<noteq> []"
  by (induction n xs rule: pages.induct) (subst (asm) pages.simps, auto split: if_splits)

definition graph_page_size :: "(string \<Rightarrow> nat option) \<Rightarrow> string option \<Rightarrow> nat" where
  "graph_page_size parse_usize var =
     (case Option.bind var (\<lambda>v. parse_usize (trim v)) of Some n \<Rightarrow> max n 1 | None \<Rightarrow> 2000)"

definition embed_batch_size :: "(string \<Rightarrow> nat option) \<Rightarrow> string option \<Rightarrow> nat" where
  "embed_batch_size parse_usize var =
     (case Option.bind var (\<lambda>v. parse_usize (trim v)) of Some n \<Rightarrow> max n 1 | None \<Rightarrow> 32)"

section \<open>The structural half\<close>

type_synonym graph_page = "graph_node list \<times> graph_edge list"

definition graph_pages :: "nat \<Rightarrow> graph_node list \<Rightarrow> graph_edge list \<Rightarrow> graph_page list" where
  "graph_pages page_size nodes edges =
     (let n = max page_size 1 in map (\<lambda>p. (p, [])) (pages n nodes) @ map (Pair []) (pages n edges))"

definition submit_graph :: "fate \<Rightarrow> string \<Rightarrow> string \<Rightarrow> graph_page \<Rightarrow> index_db \<Rightarrow> bool \<times> index_db" where
  "submit_graph d i commit page = request (\<lambda>run. ingest_graph run i commit (fst page) (snd page)) d"

text \<open>The pages in order, from request \<open>k\<close> on, up to the first that fails.\<close>

fun submit_pages ::
  "network \<Rightarrow> nat \<Rightarrow> string \<Rightarrow> string \<Rightarrow> graph_page list \<Rightarrow> index_db \<Rightarrow> bool \<times> nat \<times> index_db" where
  "submit_pages net k i commit [] db = (True, k, db)"
| "submit_pages net k i commit (p # ps) db =
     (case submit_graph (net k) i commit p db of
        (True, db') \<Rightarrow> submit_pages net (k + 1) i commit ps db'
      | (False, db') \<Rightarrow> (False, k + 1, db'))"

definition submit_graph_paged ::
  "network \<Rightarrow> nat \<Rightarrow> string \<Rightarrow> string \<Rightarrow> graph_node list \<Rightarrow> graph_edge list \<Rightarrow> nat \<Rightarrow> index_db
   \<Rightarrow> bool \<times> nat \<times> index_db" where
  "submit_graph_paged net k i commit nodes edges page_size =
     submit_pages net k i commit (graph_pages page_size nodes edges)"

text \<open>What the walk of the checkout yields; a graph node carries no vector here.\<close>

record index_output =
  io_chunks :: "code_chunk list"     \<comment> \<open>their vectors still empty\<close>
  io_nodes :: "graph_node list"
  io_edges :: "graph_edge list"

definition node_payload :: "graph_node \<Rightarrow> graph_node" where
  "node_payload n = n\<lparr>gn_embedding := None\<rparr>"

definition index_graph ::
  "network \<Rightarrow> nat \<Rightarrow> string \<Rightarrow> string \<Rightarrow> nat \<Rightarrow> index_output \<Rightarrow> index_db
   \<Rightarrow> (nat \<times> nat) option \<times> nat \<times> index_db" where
  "index_graph net k i commit page_size out db =
     (if io_nodes out = [] then (Some (0, 0), k, db)
      else case submit_graph_paged net k i commit (map node_payload (io_nodes out)) (io_edges out) page_size db of
        (True, k', db') \<Rightarrow> (Some (length (io_nodes out), length (io_edges out)), k', db')
      | (False, k', db') \<Rightarrow> (None, k' + 1, snd (request (\<lambda>run. discard_graph run i) (net k') db')))"

section \<open>The semantic half\<close>

definition embedded_batch :: "code_chunk list \<Rightarrow> embedding list \<Rightarrow> code_chunk list" where
  "embedded_batch ks vs = map (\<lambda>(c, v). c\<lparr>ck_embedding := v\<rparr>) (zip ks vs)"

text \<open>\<open>vectors\<close> answers a batch of texts with their vectors, or fails.\<close>

fun submit_chunk_batches ::
  "(string list \<Rightarrow> embedding list option) \<Rightarrow> network \<Rightarrow> nat \<Rightarrow> string \<Rightarrow> string \<Rightarrow> code_chunk list list \<Rightarrow> nat \<Rightarrow> index_db
   \<Rightarrow> nat option \<times> nat \<times> index_db" where
  "submit_chunk_batches vectors net k i commit [] submitted db = (Some submitted, k, db)"
| "submit_chunk_batches vectors net k i commit (b # bs) submitted db =
     (case vectors (map ck_content b) of
        None \<Rightarrow> (None, k, db)
      | Some vs \<Rightarrow>
          (case request (\<lambda>run. ingest_chunks run i commit (embedded_batch b vs)) (net k) db of
             (False, db') \<Rightarrow> (None, k + 1, db')
           | (True, db') \<Rightarrow> submit_chunk_batches vectors net (k + 1) i commit bs (submitted + length b) db'))"

definition index_chunks ::
  "(string list \<Rightarrow> embedding list option) \<Rightarrow> network \<Rightarrow> nat \<Rightarrow> string \<Rightarrow> string \<Rightarrow> nat \<Rightarrow> index_output \<Rightarrow> index_db
   \<Rightarrow> nat option \<times> nat \<times> index_db" where
  "index_chunks vectors net k i commit batch_size out db =
     (if io_chunks out = [] then (Some 0, k, db)
      else submit_chunk_batches vectors net k i commit (pages batch_size (io_chunks out)) 0 db)"

section \<open>The run\<close>

text \<open>
  An index task, or a review of a repository without an index, indexes. The structural half comes first, best
  effort; then the semantic half, whose failure is the run's. The result is the number of chunks and what the
  graph came to. Without anything to store nothing is sent; \<open>head\<close> is the checkout's commit, where it has one.
\<close>

definition perform_indexing ::
  "(string list \<Rightarrow> embedding list option) \<Rightarrow> network \<Rightarrow> bool \<Rightarrow> bool \<Rightarrow> string \<Rightarrow> string option \<Rightarrow> nat \<Rightarrow> nat
   \<Rightarrow> index_output \<Rightarrow> index_db \<Rightarrow> (nat \<times> (nat \<times> nat) option) option \<times> index_db" where
  "perform_indexing vectors net is_index repo_indexed i head page_size batch_size out db =
     (if \<not> (is_index \<or> \<not> repo_indexed) then (Some (0, Some (0, 0)), db)
      else if io_chunks out = [] \<and> io_nodes out = [] then (Some (0, Some (0, 0)), db)
      else case head of
        None \<Rightarrow> (None, db)
      | Some commit \<Rightarrow>
          (case index_graph net 0 i commit page_size out db of
             (graph, k, db1) \<Rightarrow>
               (case index_chunks vectors net k i commit batch_size out db1 of
                  (None, _, db2) \<Rightarrow> (None, db2)
                | (Some n, _, db2) \<Rightarrow> (Some (n, graph), db2))))"

end
