(* ===== verification/Index_Properties.thy ===== *)
theory Index_Properties
  imports Indexer "HOL-Library.Multiset"
begin

text \<open>
  What the index promises: retrieval reads one completed snapshot of its own repository, sweeping never takes
  that away, an interrupted purge is found again, and paging a graph changes nothing. The last part shows
  where a partial graph stays behind and where data escapes the purge.
\<close>

section \<open>The newest snapshot\<close>

text \<open>Dropping what does not come last in an order leaves the last.\<close>

lemma hd_rev_sort_filter:
  fixes f :: "'a \<Rightarrow> 'k :: linorder"
  assumes "rev (sort_key f xs) = x # rest" "P x"
  shows "\<exists>rest'. rev (sort_key f (filter P xs)) = x # rest'"
proof -
  have "rev (sort_key f (filter P xs)) = filter P (rev (sort_key f xs))"
    by (metis filter_sort rev_filter)
  then show ?thesis using assms by simp
qed

lemma readable_after_pruning:
  assumes "\<And>c. c \<in> set chunks' \<Longrightarrow> c \<in> set chunks"
  shows "\<exists>P. readable_snapshots snaps chunks' repo = filter P (readable_snapshots snaps chunks repo)
    \<and> (\<forall>s. P s \<longleftrightarrow> list_ex (in_snapshot repo (snd (fst s))) chunks')"
proof -
  have "readable_snapshots snaps chunks' repo
      = filter (\<lambda>s. list_ex (in_snapshot repo (snd (fst s))) chunks') (readable_snapshots snaps chunks repo)"
    using assms unfolding readable_snapshots_def filter_filter
    by (intro filter_cong refl) (auto simp: list_ex_iff)
  then show ?thesis by blast
qed

text \<open>Removing chunks of other commits moves the newest snapshot nowhere.\<close>

lemma latest_after_pruning:
  assumes latest: "latest_indexed_commit snaps chunks repo = Some commit"
    and kept: "\<And>c. c \<in> set chunks \<Longrightarrow> in_snapshot repo commit c \<Longrightarrow> P c"
  shows "latest_indexed_commit snaps (filter P chunks) repo = Some commit"
proof (cases "rev (sort_key snd (readable_snapshots snaps chunks repo))")
  case (Cons s rest)
  obtain r t where s: "s = ((r, commit), t)"
    using latest Cons by (cases s) (auto simp: latest_indexed_commit_def)
  have "s \<in> set (readable_snapshots snaps chunks repo)"
    using Cons by (metis list.set_intros(1) set_rev set_sort)
  then have "list_ex (in_snapshot repo commit) (filter P chunks)"
    using kept by (auto simp: s readable_snapshots_def list_ex_iff)
  moreover obtain Q where "readable_snapshots snaps (filter P chunks) repo = filter Q (readable_snapshots snaps chunks repo)"
    "\<forall>s. Q s \<longleftrightarrow> list_ex (in_snapshot repo (snd (fst s))) (filter P chunks)"
    using readable_after_pruning[of "filter P chunks" chunks snaps repo] by auto
  ultimately obtain rest' where "rev (sort_key snd (readable_snapshots snaps (filter P chunks) repo)) = s # rest'"
    using hd_rev_sort_filter[OF Cons, of Q] by (auto simp: s)
  then show ?thesis by (simp add: latest_indexed_commit_def s)
next
  case Nil
  then have none: "readable_snapshots snaps chunks repo = []" by (metis rev_is_Nil_conv set_empty set_sort)
  obtain Q where "readable_snapshots snaps (filter P chunks) repo = filter Q (readable_snapshots snaps chunks repo)"
    using readable_after_pruning[of "filter P chunks" chunks snaps repo] by auto
  then have none': "readable_snapshots snaps (filter P chunks) repo = []" by (simp add: none)
  obtain c rest where c: "rev (sort_key (\<lambda>c. (cr_created_at c, cr_id c)) (filter (\<lambda>c. cr_repo c = repo) chunks)) = c # rest"
    "cr_commit c = commit"
    using latest by (auto simp: latest_indexed_commit_def none split: list.splits)
  have "c \<in> set (filter (\<lambda>c. cr_repo c = repo) chunks)"
    using c(1) by (metis list.set_intros(1) set_rev set_sort)
  then have "P c" using kept c(2) by (auto simp: in_snapshot_def)
  then obtain rest' where "rev (sort_key (\<lambda>c. (cr_created_at c, cr_id c)) (filter P (filter (\<lambda>c. cr_repo c = repo) chunks))) = c # rest'"
    using hd_rev_sort_filter[OF c(1), of P] by blast
  moreover have "filter P (filter (\<lambda>c. cr_repo c = repo) chunks) = filter (\<lambda>c. cr_repo c = repo) (filter P chunks)"
    by (simp add: conj_commute)
  ultimately show ?thesis using c(2) by (simp add: latest_indexed_commit_def none')
qed

lemma latest_of_other_repo:
  assumes "\<And>c. c \<in> set chunks \<Longrightarrow> cr_repo c = repo \<Longrightarrow> P c"
  shows "latest_indexed_commit snaps (filter P chunks) repo = latest_indexed_commit snaps chunks repo"
proof (cases "latest_indexed_commit snaps chunks repo")
  case (Some commit)
  then show ?thesis using latest_after_pruning[OF Some, of P] assms by (simp add: in_snapshot_def)
next
  case None
  have r: "readable_snapshots snaps (filter P chunks) repo = readable_snapshots snaps chunks repo"
    using assms unfolding readable_snapshots_def by (intro filter_cong refl) (auto simp: list_ex_iff in_snapshot_def)
  have c: "filter (\<lambda>c. cr_repo c = repo) (filter P chunks) = filter (\<lambda>c. cr_repo c = repo) chunks"
    using assms by (auto simp: filter_filter intro: filter_cong)
  show ?thesis by (simp only: latest_indexed_commit_def r c)
qed

lemma latest_None:
  assumes "latest_indexed_commit snaps chunks repo = None" "c \<in> set chunks"
  shows "cr_repo c \<noteq> repo"
proof -
  have "rev (sort_key (\<lambda>c. (cr_created_at c, cr_id c)) (filter (\<lambda>c. cr_repo c = repo) chunks)) = []"
    using assms(1) by (simp add: latest_indexed_commit_def split: list.splits prod.splits)
  then have "filter (\<lambda>c. cr_repo c = repo) chunks = []" by (metis rev_is_Nil_conv set_empty set_sort)
  then show ?thesis using assms(2) by (auto simp: filter_empty_conv)
qed

section \<open>Sweeping\<close>

definition same_snapshot :: "index_db \<Rightarrow> index_db \<Rightarrow> int \<Rightarrow> string \<Rightarrow> bool" where
  "same_snapshot db db' repo commit \<longleftrightarrow>
     filter (in_snapshot repo commit) (ix_chunks db') = filter (in_snapshot repo commit) (ix_chunks db)
     \<and> symbols_of repo commit (ix_graph db') = symbols_of repo commit (ix_graph db)
     \<and> rels_of repo commit (ix_graph db') = rels_of repo commit (ix_graph db)"

lemma same_snapshot_refl [simp]: "same_snapshot db db repo commit"
  by (simp add: same_snapshot_def)

lemma same_snapshot_trans: "same_snapshot a b r c \<Longrightarrow> same_snapshot b d r c \<Longrightarrow> same_snapshot a d r c"
  by (simp add: same_snapshot_def)

lemma detach_delete_keeps:
  assumes "\<And>s. s \<in> set gone \<Longrightarrow> \<not> (sy_repo s = repo \<and> sy_commit s = commit)"
  shows "symbols_of repo commit (detach_delete gone g) = symbols_of repo commit g"
    "rels_of repo commit (detach_delete gone g) = rels_of repo commit g"
  using assms unfolding symbols_of_def rels_of_def detach_delete_def
  by (auto simp: list_ex_iff touches_def intro!: filter_cong)

lemma delete_symbols_keeps:
  assumes "\<And>s. sel s \<Longrightarrow> \<not> (sy_repo s = repo \<and> sy_commit s = commit)"
  shows "symbols_of repo commit (snd (delete_symbols_in_batches b sel g)) = symbols_of repo commit g"
    "rels_of repo commit (snd (delete_symbols_in_batches b sel g)) = rels_of repo commit g"
proof -
  have gone: "\<not> (sy_repo s = repo \<and> sy_commit s = commit)" if "s \<in> set (take n (filter sel (cg_symbols g)))" for s n
    using in_set_takeD[OF that] assms by simp
  have "snd (delete_symbols_in_batches b sel g) = g
      \<or> (\<exists>n. snd (delete_symbols_in_batches b sel g) = detach_delete (take n (filter sel (cg_symbols g))) g)"
    using take_all[of "filter sel (cg_symbols g)" "length (filter sel (cg_symbols g))"]
    unfolding delete_symbols_in_batches_def Let_def by (cases b) (auto intro: exI[of _ "length (filter sel (cg_symbols g))"])
  then show "symbols_of repo commit (snd (delete_symbols_in_batches b sel g)) = symbols_of repo commit g"
    "rels_of repo commit (snd (delete_symbols_in_batches b sel g)) = rels_of repo commit g"
    using detach_delete_keeps[OF gone] by (elim disjE exE; simp)+
qed

text \<open>The commits of a repository that something still reads: the newest snapshot, and the heads of live tasks.\<close>

definition read_commits :: "index_db \<Rightarrow> int \<Rightarrow> string set" where
  "read_commits db repo =
     set_option (latest_indexed_commit (ix_snapshots db) (ix_chunks db) repo) \<union> set (in_use_commits (ix_tasks db) repo)"

lemma set_keep_set: "set (keep_set db repo) = read_commits db repo"
  by (auto simp: keep_set_def read_commits_def Let_def split: option.splits)

text \<open>The four ways a repository's sweep can leave the stores.\<close>

lemma sweep_repo_cases:
  fixes run repo db
  defines "pruned \<equiv> db\<lparr>ix_chunks := prune_code_chunks (xr_now run) repo (keep_set db repo) (ix_chunks db)\<rparr>"
  shows "snd (sweep_repo run repo db) = db \<or> snd (sweep_repo run repo db) = pruned
    \<or> snd (sweep_repo run repo db)
        = pruned\<lparr>ix_graph := snd (prune_graph (xr_batches run) repo (keep_set db repo) (ix_graph db))\<rparr>"
  unfolding sweep_repo_def Let_def pruned_def
  by (cases "prune_graph (xr_batches run) repo (keep_set db repo) (ix_graph db)") (simp split: sum.split)

lemma prune_keeps_snapshot:
  assumes "repo' \<noteq> repo \<or> commit \<in> set keep"
  shows "filter (in_snapshot repo' commit) (prune_code_chunks now repo keep chunks) = filter (in_snapshot repo' commit) chunks"
  using assms unfolding prune_code_chunks_def in_snapshot_def by (auto simp: filter_filter intro!: filter_cong)

lemma prune_graph_keeps:
  assumes "repo' \<noteq> repo \<or> commit \<in> set keep"
  shows "symbols_of repo' commit (snd (prune_graph b repo keep g)) = symbols_of repo' commit g"
    "rels_of repo' commit (snd (prune_graph b repo keep g)) = rels_of repo' commit g"
proof -
  have sel: "\<not> (sy_repo s = repo' \<and> sy_commit s = commit)" if "sy_repo s = repo \<and> sy_commit s \<notin> set keep" for s :: symbol
    using that assms by auto
  show "symbols_of repo' commit (snd (prune_graph b repo keep g)) = symbols_of repo' commit g"
    by (simp add: prune_graph_def delete_symbols_keeps(1)[OF sel])
  show "rels_of repo' commit (snd (prune_graph b repo keep g)) = rels_of repo' commit g"
    by (simp add: prune_graph_def delete_symbols_keeps(2)[OF sel])
qed

lemma sweep_repo_keeps:
  assumes "repo' \<noteq> repo \<or> commit \<in> read_commits db repo"
  shows "same_snapshot db (snd (sweep_repo run repo db)) repo' commit"
proof -
  have a: "repo' \<noteq> repo \<or> commit \<in> set (keep_set db repo)" using assms by (simp add: set_keep_set)
  note keeps = prune_keeps_snapshot[OF a] prune_graph_keeps[OF a]
  show ?thesis
    using sweep_repo_cases[of run repo db] by (elim disjE) (simp_all add: same_snapshot_def keeps)
qed

lemma sweep_repo_frame:
  "ix_control (snd (sweep_repo run repo db)) = ix_control db" "ix_repo_index (snd (sweep_repo run repo db)) = ix_repo_index db"
  using sweep_repo_cases[of run repo db] by (elim disjE; simp)+

lemma sweep_repo_chunks:
  "\<exists>P. ix_chunks (snd (sweep_repo run repo db)) = filter P (ix_chunks db)
     \<and> (\<forall>c. cr_repo c \<noteq> repo \<or> cr_commit c \<in> read_commits db repo \<longrightarrow> P c)"
proof -
  let ?Q = "\<lambda>xs. \<exists>P. xs = filter P (ix_chunks db) \<and> (\<forall>c. cr_repo c \<noteq> repo \<or> cr_commit c \<in> read_commits db repo \<longrightarrow> P c)"
  have all: "?Q (ix_chunks db)"
    by (rule exI[of _ "\<lambda>_. True"]) simp
  have pruned: "?Q (prune_code_chunks (xr_now run) repo (keep_set db repo) (ix_chunks db))"
  proof (cases "keep_set db repo = []")
    case True
    then show ?thesis using all by (simp add: prune_code_chunks_def)
  next
    case False
    then show ?thesis
      unfolding prune_code_chunks_def set_keep_set if_not_P[OF False] by (intro exI conjI refl) auto
  qed
  show ?thesis using sweep_repo_cases[of run repo db] all pruned by (elim disjE) simp_all
qed

lemma sweep_repo_latest:
  "latest_indexed_commit snaps (ix_chunks (snd (sweep_repo run repo db))) repo'
    = latest_indexed_commit snaps (ix_chunks db) repo'"
  if "snaps = ix_snapshots db"
proof -
  obtain P where P: "ix_chunks (snd (sweep_repo run repo db)) = filter P (ix_chunks db)"
    "\<And>c. cr_repo c \<noteq> repo \<or> cr_commit c \<in> read_commits db repo \<Longrightarrow> P c"
    using sweep_repo_chunks[of run repo db] by blast
  show ?thesis
  proof (cases "repo' = repo")
    case False
    then show ?thesis unfolding P(1) by (intro latest_of_other_repo P(2)) auto
  next
    case True
    show ?thesis
    proof (cases "latest_indexed_commit snaps (ix_chunks db) repo'")
      case None
      then show ?thesis unfolding P(1) using latest_None[OF None] by (subst latest_of_other_repo) auto
    next
      case (Some commit)
      then have "commit \<in> read_commits db repo" using True that by (simp add: read_commits_def)
      then show ?thesis
        unfolding P(1) using latest_after_pruning[OF Some, of P] P(2) Some by (simp add: in_snapshot_def)
    qed
  qed
qed

text \<open>What a sweep must not touch: the bookkeeping, which snapshot is newest, and every snapshot that is read.\<close>

definition spared :: "index_db \<Rightarrow> int \<Rightarrow> string \<Rightarrow> bool" where
  "spared db repo commit \<longleftrightarrow> commit \<in> read_commits db repo \<or> repo \<notin> set (repos_with_stale_snapshots (ix_chunks db))"

definition sweep_safe :: "index_db \<Rightarrow> index_db \<Rightarrow> bool" where
  "sweep_safe db d \<longleftrightarrow> ix_control d = ix_control db
     \<and> (\<forall>r. latest_indexed_commit (ix_snapshots db) (ix_chunks d) r = latest_indexed_commit (ix_snapshots db) (ix_chunks db) r)
     \<and> (\<forall>r c. spared db r c \<longrightarrow> same_snapshot db d r c)"

lemma sweep_safe_refl [simp]: "sweep_safe db db"
  by (simp add: sweep_safe_def)

lemma sweep_safe_step:
  assumes "sweep_safe db d" "repo \<in> set (repos_with_stale_snapshots (ix_chunks db))"
  shows "sweep_safe db (snd (sweep_repo run repo d))"
proof -
  have reads: "read_commits d r = read_commits db r" for r
    using assms(1) by (simp add: sweep_safe_def read_commits_def)
  have "same_snapshot db (snd (sweep_repo run repo d)) r c" if "spared db r c" for r c
  proof (rule same_snapshot_trans)
    show "same_snapshot db d r c" using assms(1) that by (simp add: sweep_safe_def)
    show "same_snapshot d (snd (sweep_repo run repo d)) r c"
      using that assms(2) by (intro sweep_repo_keeps) (auto simp: reads spared_def)
  qed
  then show ?thesis
    using assms(1) sweep_repo_latest[of "ix_snapshots db" d run repo] by (simp add: sweep_safe_def sweep_repo_frame)
qed

lemma sweep_safe_fold:
  assumes "set rs \<subseteq> set (repos_with_stale_snapshots (ix_chunks db))" "sweep_safe db d"
  shows "sweep_safe db (fold (\<lambda>repo d. snd (sweep_repo (runs repo) repo d)) rs d)"
  using assms by (induction rs arbitrary: d) (simp_all add: sweep_safe_step)

lemma sweep_once_safe: "sweep_safe db (snd (index_sweep_once up runs db))"
  by (simp add: index_sweep_once_def sweep_safe_fold)

lemma stale_has_chunks: "r \<in> set (repos_with_stale_snapshots chunks) \<Longrightarrow> \<exists>c \<in> set chunks. cr_repo c = r"
  by (auto simp: repos_with_stale_snapshots_def)

lemma scope_after_sweep:
  assumes "sweep_safe db d"
  shows "task_scope up d i = task_scope up db i"
  using assms unfolding sweep_safe_def task_scope_def by (simp split: option.split)

lemma scope_is_spared:
  assumes "task_scope up db i = Inr (Some (repo, commit))"
  shows "spared db repo commit"
proof (cases "latest_indexed_commit (ix_snapshots db) (ix_chunks db) repo")
  case None
  then have "repo \<notin> set (repos_with_stale_snapshots (ix_chunks db))"
    using stale_has_chunks latest_None by metis
  then show ?thesis by (simp add: spared_def)
next
  case (Some latest)
  then show ?thesis
    using assms by (auto simp: task_scope_def spared_def read_commits_def split: if_splits option.splits)
qed

text \<open>An answer reads its own snapshot only.\<close>

lemma search_chunks_cong:
  "filter (in_snapshot repo commit) cs' = filter (in_snapshot repo commit) cs
   \<Longrightarrow> search_code_chunks dist repo commit q n cs' = search_code_chunks dist repo commit q n cs"
  by (simp add: search_code_chunks_def)

lemma find_symbol_cong:
  "symbols_of repo commit g' = symbols_of repo commit g
   \<Longrightarrow> find_symbol lower repo commit term n g' = find_symbol lower repo commit term n g"
  by (simp add: find_symbol_def)

lemma get_callers_cong:
  "symbols_of repo commit g' = symbols_of repo commit g \<Longrightarrow> rels_of repo commit g' = rels_of repo commit g
   \<Longrightarrow> get_callers repo commit node n g' = get_callers repo commit node n g"
  by (simp add: get_callers_def)

lemma search_after_sweep:
  assumes "sweep_safe db d"
  shows "search dist run i q limit d = search dist run i q limit db"
proof -
  have "search_code_chunks dist repo commit q (clamp_limit limit) (ix_chunks d)
      = search_code_chunks dist repo commit q (clamp_limit limit) (ix_chunks db)"
    if "task_scope (xr_up run) db i = Inr (Some (repo, commit))" for repo commit
    using scope_is_spared[OF that] assms by (intro search_chunks_cong) (simp add: sweep_safe_def same_snapshot_def)
  then show ?thesis
    by (simp add: search_def scope_after_sweep[OF assms] split: sum.split option.split)
qed

lemma graph_query_after_sweep:
  assumes "sweep_safe db d" "gq_op req \<noteq> ''hybrid_search''"
  shows "graph_query store run i req d = graph_query store run i req db"
proof -
  have "find_symbol (gs_lower store) repo commit word n (ix_graph d) = find_symbol (gs_lower store) repo commit word n (ix_graph db)
      \<and> get_callers repo commit node n (ix_graph d) = get_callers repo commit node n (ix_graph db)"
    if "task_scope (xr_up run) db i = Inr (Some (repo, commit))" for repo commit word node n
    using scope_is_spared[OF that] assms by (intro conjI find_symbol_cong get_callers_cong) (auto simp: sweep_safe_def same_snapshot_def)
  then show ?thesis
    using assms(2) by (simp add: graph_query_def scope_after_sweep[OF assms(1)] Let_def split: sum.split option.split)
qed

lemma latest_is_completed:
  assumes "readable_snapshots snaps chunks repo \<noteq> []"
  shows "\<exists>commit at. latest_indexed_commit snaps chunks repo = Some commit \<and> ((repo, commit), at) \<in> set snaps"
proof (cases "rev (sort_key snd (readable_snapshots snaps chunks repo))")
  case Nil
  then show ?thesis using assms by (metis rev_is_Nil_conv set_empty set_sort)
next
  case (Cons s rest)
  obtain r commit at where s: "s = ((r, commit), at)" by (metis surj_pair)
  have "s \<in> set (readable_snapshots snaps chunks repo)" using Cons by (metis list.set_intros(1) set_rev set_sort)
  then have "((repo, commit), at) \<in> set snaps" by (auto simp: s readable_snapshots_def)
  moreover have "latest_indexed_commit snaps chunks repo = Some commit" by (simp add: latest_indexed_commit_def Cons s)
  ultimately show ?thesis by blast
qed

lemma search_is_best:
  fixes dist :: "string \<Rightarrow> string \<Rightarrow> 'd::linordered_idom"
  defines "hit \<equiv> \<lambda>q c. (cr_chunk c, 1 - dist (vector_literal (ck_embedding (cr_chunk c))) (vector_literal q))"
  shows "\<exists>rest. mset (search_code_chunks dist repo commit q n chunks @ rest)
        = mset (map (hit q) (filter (in_snapshot repo commit) chunks))
      \<and> sorted_wrt (\<lambda>a b. snd b \<le> snd a) (search_code_chunks dist repo commit q n chunks @ rest)
      \<and> length (search_code_chunks dist repo commit q n chunks)
        = min (length (filter (in_snapshot repo commit) chunks)) (nat n)"
proof -
  let ?far = "\<lambda>c. dist (vector_literal (ck_embedding (cr_chunk c))) (vector_literal q)"
  let ?s = "sort_key ?far (filter (in_snapshot repo commit) chunks)"
  have found: "search_code_chunks dist repo commit q n chunks = map (hit q) (take (nat n) ?s)"
    by (simp add: search_code_chunks_def hit_def Let_def)
  have all: "search_code_chunks dist repo commit q n chunks @ map (hit q) (drop (nat n) ?s) = map (hit q) ?s"
    unfolding found by (metis append_take_drop_id map_append)
  have "sorted_wrt (\<lambda>a b. ?far a \<le> ?far b) ?s"
    using sorted_sort_key[of ?far "filter (in_snapshot repo commit) chunks"] by (simp add: sorted_map)
  then have "sorted_wrt (\<lambda>a b. snd b \<le> snd a) (map (hit q) ?s)" by (simp add: sorted_wrt_map hit_def)
  moreover have "mset (map (hit q) ?s) = mset (map (hit q) (filter (in_snapshot repo commit) chunks))"
    by (simp only: mset_map mset_sort)
  moreover have "length (map (hit q) (take (nat n) ?s)) = min (length (filter (in_snapshot repo commit) chunks)) (nat n)"
    by simp
  ultimately show ?thesis by (metis all found)
qed

section \<open>What retrieval promises\<close>

text \<open>
  C12. A task's search answers from one snapshot of the task's own repository, whatever it asks for: the hits
  are the \<open>limit\<close> chunks (at most a hundred) that are closest to the query, best first, and the snapshot is
  one whose indexing completed wherever the repository has such a one.
\<close>

theorem search_reads_one_snapshot:
  fixes dist :: "string \<Rightarrow> string \<Rightarrow> 'd::linordered_idom"
  assumes "search dist run i q limit db = Ok_Json hits"
  shows "\<exists>t commit rest. get_row (ix_tasks db) i = Some t
    \<and> mset (hits @ rest) = mset (map (\<lambda>c. (cr_chunk c, 1 - dist (vector_literal (ck_embedding (cr_chunk c))) (vector_literal q)))
                                    (filter (in_snapshot (repo_of t) commit) (ix_chunks db)))
    \<and> sorted_wrt (\<lambda>a b. snd b \<le> snd a) (hits @ rest)
    \<and> length hits = min (length (filter (in_snapshot (repo_of t) commit) (ix_chunks db))) (nat (clamp_limit limit))
    \<and> length hits \<le> 100
    \<and> (readable_snapshots (ix_snapshots db) (ix_chunks db) (repo_of t) \<noteq> []
        \<longrightarrow> (\<exists>at. ((repo_of t, commit), at) \<in> set (ix_snapshots db)))"
proof -
  obtain repo commit where scope: "task_scope (xr_up run) db i = Inr (Some (repo, commit))"
    and hits: "hits = search_code_chunks dist repo commit q (clamp_limit limit) (ix_chunks db)"
    using assms by (auto simp: search_def split: if_splits sum.splits option.splits)
  obtain t where t: "get_row (ix_tasks db) i = Some t" "repo_of t = repo"
    using scope by (auto simp: task_scope_def get_task_context_def Let_def split: if_splits option.splits)
  have completed: "\<exists>at. ((repo, commit), at) \<in> set (ix_snapshots db)"
    if "readable_snapshots (ix_snapshots db) (ix_chunks db) repo \<noteq> []"
    using latest_is_completed[OF that] scope by (auto simp: task_scope_def split: if_splits option.splits)
  have few: "nat (clamp_limit limit) \<le> 100" by (simp add: clamp_limit_def)
  obtain rest where rest: "mset (hits @ rest) = mset (map (\<lambda>c. (cr_chunk c,
        1 - dist (vector_literal (ck_embedding (cr_chunk c))) (vector_literal q))) (filter (in_snapshot repo commit) (ix_chunks db)))"
    "sorted_wrt (\<lambda>a b. snd b \<le> snd a) (hits @ rest)"
    "length hits = min (length (filter (in_snapshot repo commit) (ix_chunks db))) (nat (clamp_limit limit))"
    using search_is_best[where dist = dist and repo = repo and commit = commit and q = q
        and n = "clamp_limit limit" and chunks = "ix_chunks db"] unfolding hits by blast
  have chosen: "readable_snapshots (ix_snapshots db) (ix_chunks db) repo \<noteq> [] \<longrightarrow> (\<exists>at. ((repo, commit), at) \<in> set (ix_snapshots db))"
    using completed by blast
  show ?thesis
    using few by (intro exI[of _ t] exI[of _ commit] exI[of _ rest] conjI) (simp_all only: t rest min.coboundedI2, blast intro: completed)
qed

text \<open>A repository with two snapshots: an old one nothing reads, and the newest.\<close>

definition review_of :: "string option \<Rightarrow> new_task" where
  "review_of head = \<lparr>nt_repository_id = 7, nt_installation_id = 1, nt_delivery_id = ''d'', nt_target_type = ''pull_request'',
     nt_target_id = 1, nt_command = ''review'', nt_base_sha = None, nt_head_sha = head, nt_run_epoch = 0,
     nt_preset = ''default'', nt_entry_point = ''webhook'', nt_trigger_comment_id = None, nt_trace_context = None,
     nt_model_override = None, nt_check_runs_enabled = False, nt_run_after_secs = None\<rparr>"

definition chunk_at :: "nat \<Rightarrow> string \<Rightarrow> string \<Rightarrow> nat \<Rightarrow> chunk_row" where
  "chunk_at n commit v at = \<lparr>cr_id = n, cr_repo = 7, cr_commit = commit,
     cr_chunk = \<lparr>ck_file_path = ''a.rs'', ck_language = ''rust'', ck_chunk_type = ''function'', ck_symbol_name = None,
       ck_start_line = int n, ck_end_line = int n, ck_content = ''c'', ck_embedding = [v]\<rparr>,
     cr_created_at = at\<rparr>"

definition symbol_at :: "string \<Rightarrow> string \<Rightarrow> symbol" where
  "symbol_at commit node = \<lparr>sy_repo = 7, sy_commit = commit, sy_node_id = node, sy_label = node, sy_source_file = ''a.rs'',
     sy_start_line = 1, sy_embedding = None\<rparr>"

definition sample_repo_row :: "repo_status \<Rightarrow> repository" where
  "sample_repo_row s = \<lparr>re_id = 7, re_platform = GitHub, re_platform_repo_id = 70, re_owner = ''acme'', re_name = ''shop'',
     re_default_branch = ''main'', re_installation_id = Some 9, re_status = s, re_approved_at = None, re_approved_by = None\<rparr>"

definition sample_control :: "repo_status \<Rightarrow> tasks \<Rightarrow> snapshots \<Rightarrow> control_db" where
  "sample_control s ts snaps = \<lparr>cd_tasks = ts, cd_snapshots = snaps, cd_repos = [sample_repo_row s], cd_outbox = empty_outbox,
     cd_reviews = [], cd_comments = [], cd_feedback = [], cd_pending = empty_pending, cd_steps = [], cd_blobs = []\<rparr>"

definition two_snapshots :: "repo_status \<Rightarrow> index_db" where
  "two_snapshots s = \<lparr>ix_control = sample_control s [fresh_row 0 ''u1'' (review_of (Some ''h1'')) 0 0 Running]
       [((7, ''old''), 1), ((7, ''new''), 2)],
     ix_chunks = [chunk_at 1 ''old'' ''0'' 1, chunk_at 2 ''new'' ''0'' 2, chunk_at 3 ''new'' ''1'' 2], ix_next_chunk = 4,
     ix_repo_index = [7], ix_graph = \<lparr>cg_symbols = [symbol_at ''old'' ''f'', symbol_at ''new'' ''f''], cg_rels = []\<rparr>\<rparr>"

definition all_up :: index_run where
  "all_up = \<lparr>xr_pool = True, xr_neo4j = True, xr_up = (\<lambda>_. True), xr_now = 1000, xr_batches = None\<rparr>"

definition unequal :: "string \<Rightarrow> string \<Rightarrow> int" where
  "unequal a b = (if a = b then 0 else 1)"

lemma sample_search:
  "search unequal all_up ''u1'' [''1''] (Some 1) (two_snapshots Approved) = Ok_Json [(cr_chunk (chunk_at 3 ''new'' ''1'' 2), 1)]"
  by code_simp

theorem search_reads_one_snapshot_witness:
  "\<exists>t commit rest. get_row (ix_tasks (two_snapshots Approved)) ''u1'' = Some t
    \<and> mset ([(cr_chunk (chunk_at 3 ''new'' ''1'' 2), 1)] @ rest)
      = mset (map (\<lambda>c. (cr_chunk c, 1 - unequal (vector_literal (ck_embedding (cr_chunk c))) (vector_literal [''1''])))
                (filter (in_snapshot (repo_of t) commit) (ix_chunks (two_snapshots Approved))))"
  using search_reads_one_snapshot[OF sample_search] by blast

text \<open>
  C19. Sweeping old snapshots changes no answer: whatever of the sweep gets through, and even if it is cut off,
  every task's search, symbol search and caller query answers afterwards what it answered before. (The ranked
  symbol search reads the best of all repositories' symbols, so removing some can only free places in it.)
\<close>

theorem sweep_changes_no_answer:
  assumes "gq_op req \<noteq> ''hybrid_search''"
  shows "search dist run i q limit (snd (index_sweep_once up runs db)) = search dist run i q limit db
    \<and> graph_query store run i req (snd (index_sweep_once up runs db)) = graph_query store run i req db"
  using assms search_after_sweep[OF sweep_once_safe] graph_query_after_sweep[OF sweep_once_safe] by blast

definition callers_request :: graph_query_request where
  "callers_request = \<lparr>gq_op = ''get_callers'', gq_term = None, gq_node_id = Some ''f'', gq_embedding = None, gq_limit = None\<rparr>"

definition plain_store :: graph_search where
  "plain_store = \<lparr>gs_lower = id, gs_fulltext = (\<lambda>ss _. ss), gs_debug = id\<rparr>"

theorem sweep_changes_no_answer_witness:
  "ix_chunks (snd (index_sweep_once True (\<lambda>_. all_up) (two_snapshots Approved))) = [chunk_at 2 ''new'' ''0'' 2, chunk_at 3 ''new'' ''1'' 2]
   \<and> search unequal all_up ''u1'' [''1''] (Some 1) (snd (index_sweep_once True (\<lambda>_. all_up) (two_snapshots Approved)))
     = search unequal all_up ''u1'' [''1''] (Some 1) (two_snapshots Approved)
   \<and> graph_query plain_store all_up ''u1'' callers_request (snd (index_sweep_once True (\<lambda>_. all_up) (two_snapshots Approved)))
     = graph_query plain_store all_up ''u1'' callers_request (two_snapshots Approved)"
proof (rule conjI)
  show "ix_chunks (snd (index_sweep_once True (\<lambda>_. all_up) (two_snapshots Approved)))
      = [chunk_at 2 ''new'' ''0'' 2, chunk_at 3 ''new'' ''1'' 2]"
    by code_simp
  show "search unequal all_up ''u1'' [''1''] (Some 1) (snd (index_sweep_once True (\<lambda>_. all_up) (two_snapshots Approved)))
     = search unequal all_up ''u1'' [''1''] (Some 1) (two_snapshots Approved)
   \<and> graph_query plain_store all_up ''u1'' callers_request (snd (index_sweep_once True (\<lambda>_. all_up) (two_snapshots Approved)))
     = graph_query plain_store all_up ''u1'' callers_request (two_snapshots Approved)"
    by (rule sweep_changes_no_answer) (simp add: callers_request_def)
qed

text \<open>
  A task that has not ended never loses the snapshot of its head commit to a sweep: chunks, symbols and
  edges of that commit stay as they are.
\<close>

theorem sweep_spares_live_heads:
  assumes "t \<in> set (ix_tasks db)" "\<not> is_terminal (tk_status t)" "nt_head_sha (tk_task t) = Some h"
  shows "same_snapshot db (snd (index_sweep_once up runs db)) (repo_of t) h"
proof -
  have "h \<in> set (in_use_commits (ix_tasks db) (repo_of t))"
    using assms by (force simp: in_use_commits_def map_filter_def)
  then have "spared db (repo_of t) h" by (simp add: spared_def read_commits_def)
  then show ?thesis using sweep_once_safe[of db up runs] by (simp add: sweep_safe_def)
qed

theorem sweep_spares_live_heads_witness:
  "same_snapshot (two_snapshots Approved) (snd (index_sweep_once True (\<lambda>_. all_up) (two_snapshots Approved))) 7 ''h1''"
proof -
  have "fresh_row 0 ''u1'' (review_of (Some ''h1'')) 0 0 Running \<in> set (ix_tasks (two_snapshots Approved))"
    by (simp add: two_snapshots_def sample_control_def)
  from sweep_spares_live_heads[OF this, of "''h1''" True "\<lambda>_. all_up"] show ?thesis
    by (simp add: fresh_row_def review_of_def is_terminal_def)
qed

section \<open>Purging\<close>

text \<open>The purge relies on this: a repository with symbols has chunks or bookkeeping rows.\<close>

definition graph_marked :: "index_db \<Rightarrow> int \<Rightarrow> bool" where
  "graph_marked db repo \<longleftrightarrow> list_ex (\<lambda>s. sy_repo s = repo) (cg_symbols (ix_graph db))
     \<longrightarrow> list_ex (\<lambda>c. cr_repo c = repo) (ix_chunks db) \<or> repo \<in> set (ix_repo_index db)"

definition indexed_data :: "index_db \<Rightarrow> int \<Rightarrow> bool" where
  "indexed_data db repo \<longleftrightarrow> list_ex (\<lambda>c. cr_repo c = repo) (ix_chunks db) \<or> repo \<in> set (ix_repo_index db)
     \<or> list_ex (\<lambda>s. sy_repo s = repo) (cg_symbols (ix_graph db))"

lemma delete_repo_graph_result:
  "delete_repo_graph b repo g = (Inl e, g') \<Longrightarrow> set (cg_symbols g') \<subseteq> set (cg_symbols g)"
  "delete_repo_graph b repo g = (Inr n, g') \<Longrightarrow> \<not> list_ex (\<lambda>s. sy_repo s = repo) (cg_symbols g')"
  unfolding delete_repo_graph_def delete_symbols_in_batches_def Let_def detach_delete_def
  by (auto simp: list_ex_iff filter_empty_conv split: option.splits if_splits)

lemma purge_stores_frame [simp]:
  "ix_graph (purge_stores run repo db) = ix_graph db"
  "cd_repos (ix_control (purge_stores run repo db)) = cd_repos (ix_control db)"
  "cd_tasks (ix_control (purge_stores run repo db)) = cd_tasks (ix_control db)"
  by (simp_all add: purge_stores_def Let_def)

lemma purge_confirmed_repos [simp]:
  "cd_repos (ix_control (purge_confirmed run repo db)) = cd_repos (ix_control db)"
  by (simp add: purge_confirmed_def Let_def with_index_tasks_def split: prod.split sum.split)

lemma purge_repos [simp]:
  "cd_repos (ix_control (purge_repository_data run repo db)) = cd_repos (ix_control db)"
  by (simp add: purge_repository_data_def split: option.split)

lemma purge_confirmed_marked:
  assumes "graph_marked db repo" "xr_neo4j run"
  shows "graph_marked (purge_confirmed run repo db) repo"
proof (cases "delete_repo_graph (xr_batches run) repo (ix_graph db)")
  case (Pair res g)
  show ?thesis
  proof (cases res)
    case (Inl e)
    then have "set (cg_symbols g) \<subseteq> set (cg_symbols (ix_graph db))"
      using delete_repo_graph_result(1) Pair by blast
    then show ?thesis
      using assms Pair Inl by (auto simp: purge_confirmed_def graph_marked_def with_index_tasks_def Let_def list_ex_iff)
  next
    case (Inr n)
    then have "\<not> list_ex (\<lambda>s. sy_repo s = repo) (cg_symbols g)" using delete_repo_graph_result(2) Pair by blast
    then show ?thesis
      using assms(2) Pair Inr by (simp add: purge_confirmed_def graph_marked_def with_index_tasks_def Let_def)
  qed
qed

definition left_behind :: "index_db \<Rightarrow> int \<Rightarrow> bool" where
  "left_behind db repo \<longleftrightarrow> list_ex (\<lambda>c. cr_repo c = repo) (ix_chunks db) \<or> repo \<in> set (ix_repo_index db)"

lemma listed_all:
  "length (ix_repos db) \<le> nat n
   \<Longrightarrow> list_disabled_repos_needing_purge n db
     = map re_id (filter (\<lambda>r. re_status r = Disabled \<and> left_behind db (re_id r)) (ix_repos db))"
  unfolding list_disabled_repos_needing_purge_def left_behind_def
  by (intro take_all) (use le_trans[OF length_filter_le] in auto)

lemma listed_take:
  "list_disabled_repos_needing_purge n db
     = take (nat n) (map re_id (filter (\<lambda>r. re_status r = Disabled \<and> left_behind db (re_id r)) (ix_repos db)))"
  by (simp add: list_disabled_repos_needing_purge_def left_behind_def)

definition undisturbed :: "index_run \<Rightarrow> bool" where
  "undisturbed run \<longleftrightarrow> xr_up run = (\<lambda>_. True) \<and> xr_batches run = None"

lemma purge_stores_left:
  "xr_up run = (\<lambda>_. True) \<Longrightarrow> left_behind (purge_stores run repo db) r \<longleftrightarrow> r \<noteq> repo \<and> left_behind db r"
  by (auto simp: purge_stores_def Let_def left_behind_def delete_code_chunks_for_repo_def delete_repo_index_rows_def list_ex_iff)

lemma undisturbed_purge:
  assumes "undisturbed run" "repository_status (ix_repos db) repo = Some Disabled"
  shows "left_behind (purge_repository_data run repo db) r \<longleftrightarrow> r \<noteq> repo \<and> left_behind db r"
    "xr_neo4j run \<Longrightarrow> \<not> indexed_data (purge_repository_data run repo db) repo"
proof -
  let ?db = "with_index_tasks (snd (cancel_active_tasks_for_repo (xr_now run) repo (ix_tasks db))) db"
  have frame: "left_behind (?db\<lparr>ix_graph := g\<rparr>) r \<longleftrightarrow> left_behind db r" "left_behind ?db r \<longleftrightarrow> left_behind db r" for r g
    by (simp_all add: left_behind_def with_index_tasks_def)
  obtain m g where g: "delete_repo_graph (xr_batches run) repo (ix_graph ?db) = (Inr m, g)"
    using assms(1) by (simp add: undisturbed_def delete_repo_graph_def delete_symbols_in_batches_def Let_def)
  have purge: "purge_repository_data run repo db
      = purge_stores run repo (if xr_neo4j run then ?db\<lparr>ix_graph := g\<rparr> else ?db)"
    using assms g by (simp add: purge_repository_data_def purge_confirmed_def undisturbed_def Let_def)
  show "left_behind (purge_repository_data run repo db) r \<longleftrightarrow> r \<noteq> repo \<and> left_behind db r"
    using assms(1) by (simp add: purge undisturbed_def purge_stores_left frame)
  show "\<not> indexed_data (purge_repository_data run repo db) repo" if "xr_neo4j run"
  proof -
    have "\<not> left_behind (purge_repository_data run repo db) repo"
      using assms(1) by (simp add: purge undisturbed_def purge_stores_left)
    moreover have "\<not> list_ex (\<lambda>s. sy_repo s = repo) (cg_symbols (ix_graph (purge_repository_data run repo db)))"
      using delete_repo_graph_result(2)[OF g] that by (simp add: purge)
    ultimately show ?thesis unfolding indexed_data_def left_behind_def by blast
  qed
qed

text \<open>Every repository the reconciler would purge, whatever the size of its batch.\<close>

definition waiting_purges :: "index_db \<Rightarrow> int list" where
  "waiting_purges db = map re_id (filter (\<lambda>r. re_status r = Disabled \<and> left_behind db (re_id r)) (ix_repos db))"

text \<open>
  C20. A purge never hides what it leaves. Take a disabled repository whose index the reconciler can see: its
  symbols, if it has any, come with chunks or bookkeeping rows. With the graph store configured, however the
  purge fails or is cut off, the same holds of what is left, so the repository still waits in the
  reconciler's list, of which a round takes the front; a purge that runs through leaves nothing. (Symbols that
  arrive after a purge are outside of this: the list never sees them.)
\<close>

theorem interrupted_purge_is_found_again:
  assumes "repo_row (ix_repos db) repo = Some r" "re_status r = Disabled" "graph_marked db repo" "xr_neo4j run"
  shows "graph_marked (purge_repository_data run repo db) repo
    \<and> (indexed_data (purge_repository_data run repo db) repo
        \<longrightarrow> repo \<in> set (waiting_purges (purge_repository_data run repo db)))
    \<and> list_disabled_repos_needing_purge n (purge_repository_data run repo db)
        = take (nat n) (waiting_purges (purge_repository_data run repo db))
    \<and> (undisturbed run \<longrightarrow> \<not> indexed_data (purge_repository_data run repo db) repo)"
proof -
  let ?db = "purge_repository_data run repo db"
  have marked: "graph_marked ?db repo"
    using assms(3) purge_confirmed_marked[OF assms(3,4)] by (simp add: purge_repository_data_def split: option.split)
  have row: "r \<in> set (ix_repos ?db)" "re_id r = repo"
    using assms(1) by (auto simp: repo_row_def row_of_def find_Some_iff)
  have "repo \<in> set (waiting_purges ?db)" if "indexed_data ?db repo"
  proof -
    have "left_behind ?db repo"
      using that marked unfolding indexed_data_def graph_marked_def left_behind_def by blast
    then show ?thesis using row assms(2) by (auto simp: waiting_purges_def)
  qed
  moreover have "list_disabled_repos_needing_purge n ?db = take (nat n) (waiting_purges ?db)"
    by (simp add: listed_take waiting_purges_def)
  moreover have "repository_status (ix_repos db) repo = Some Disabled"
    using assms(1,2) by (simp add: repository_status_def)
  ultimately show ?thesis using marked undisturbed_purge(2)[OF _ _ assms(4)] by blast
qed

definition cut_off :: index_run where
  "cut_off = all_up\<lparr>xr_up := (\<lambda>q. q \<noteq> X_Drop_Rows), xr_batches := None\<rparr>"

theorem interrupted_purge_is_found_again_witness:
  "7 \<in> set (waiting_purges (purge_repository_data cut_off 7 (two_snapshots Disabled)))
   \<and> \<not> indexed_data (purge_repository_data all_up 7 (two_snapshots Disabled)) 7"
proof -
  have h: "repo_row (ix_repos (two_snapshots Disabled)) 7 = Some (sample_repo_row Disabled)"
    "re_status (sample_repo_row Disabled) = Disabled" "graph_marked (two_snapshots Disabled) 7"
    by code_simp+
  have neo: "xr_neo4j cut_off" "xr_neo4j all_up" by (simp_all add: cut_off_def all_up_def)
  have "indexed_data (purge_repository_data cut_off 7 (two_snapshots Disabled)) 7" by code_simp
  moreover have "undisturbed all_up" by (simp add: undisturbed_def all_up_def)
  ultimately show ?thesis
    using interrupted_purge_is_found_again[OF h neo(1)] interrupted_purge_is_found_again[OF h neo(2)] by blast
qed

section \<open>The reconciler of purges\<close>

fun purge_rounds :: "nat \<Rightarrow> (nat \<Rightarrow> int \<Rightarrow> index_run) \<Rightarrow> index_db \<Rightarrow> index_db" where
  "purge_rounds 0 runs db = db"
| "purge_rounds (Suc k) runs db = purge_rounds k runs (reconcile_purges True (runs k) db)"

lemma status_of_row:
  assumes "distinct (map re_id rs)" "r \<in> set rs"
  shows "repository_status rs (re_id r) = Some (re_status r)"
  using assms by (induction rs) (auto simp: repository_status_def repo_row_def row_of_def)

lemma fold_purge_left:
  assumes "\<And>r. undisturbed (runs r)" "\<And>r. r \<in> set rs \<Longrightarrow> repository_status (ix_repos db) r = Some Disabled"
  shows "left_behind (fold (\<lambda>repo d. purge_repository_data (runs repo) repo d) rs db) r \<longleftrightarrow> r \<notin> set rs \<and> left_behind db r"
    "ix_repos (fold (\<lambda>repo d. purge_repository_data (runs repo) repo d) rs db) = ix_repos db"
  using assms(2) by (induction rs arbitrary: db) (auto simp: undisturbed_purge(1)[OF assms(1)])

lemma round_takes_twenty:
  assumes "\<And>r. undisturbed (runs r)" "distinct (map re_id (ix_repos db))"
  shows "waiting_purges (reconcile_purges True runs db) = drop 20 (waiting_purges db)"
    "ix_repos (reconcile_purges True runs db) = ix_repos db"
proof -
  let ?now = "take 20 (waiting_purges db)"
  have run: "reconcile_purges True runs db = fold (\<lambda>repo d. purge_repository_data (runs repo) repo d) ?now db"
    by (simp add: reconcile_purges_def listed_take PURGE_RECONCILE_BATCH_def waiting_purges_def)
  have "repository_status (ix_repos db) r = Some Disabled" if "r \<in> set ?now" for r
    using in_set_takeD[OF that] status_of_row[OF assms(2)] by (auto simp: waiting_purges_def)
  note left = fold_purge_left[OF assms(1) this]
  show same: "ix_repos (reconcile_purges True runs db) = ix_repos db" by (simp only: run left(2))
  have behind: "left_behind (reconcile_purges True runs db) r \<longleftrightarrow> r \<notin> set ?now \<and> left_behind db r" for r
    unfolding run by (rule left(1))
  have d: "distinct (waiting_purges db)"
    using assms(2) by (simp add: waiting_purges_def distinct_map_filter)
  have "waiting_purges (reconcile_purges True runs db) = filter (\<lambda>r. r \<notin> set ?now) (waiting_purges db)"
    unfolding waiting_purges_def[of "reconcile_purges True runs db"] same behind
    by (simp add: waiting_purges_def filter_map o_def filter_filter conj_commute conj_left_commute)
  also have "\<dots> = drop 20 (waiting_purges db)"
  proof -
    have "filter (\<lambda>r. r \<notin> set ?now) (?now @ drop 20 (waiting_purges db)) = drop 20 (waiting_purges db)"
      using d by (auto simp del: append_take_drop_id simp: filter_empty_conv filter_id_conv)
        (metis IntI append_take_drop_id distinct_append empty_iff)
    then show ?thesis by simp
  qed
  finally show "waiting_purges (reconcile_purges True runs db) = drop 20 (waiting_purges db)" .
qed

lemma rounds_drain:
  assumes "\<And>k r. undisturbed (runs k r)" "distinct (map re_id (ix_repos db))"
  shows "waiting_purges (purge_rounds k runs db) = drop (20 * k) (waiting_purges db)
    \<and> ix_repos (purge_rounds k runs db) = ix_repos db"
  using assms(2)
proof (induction k arbitrary: db)
  case (Suc k)
  note round = round_takes_twenty[of "runs k", OF assms(1) Suc.prems]
  then show ?case using Suc.IH[of "reconcile_purges True (runs k) db"] Suc.prems by (simp add: drop_drop add.commute)
qed simp

text \<open>
  C21. The reconciler of purges finishes: with the stores answering, every round of it purges the next twenty
  disabled repositories that hold data, so that after \<open>k\<close> rounds none of up to \<open>20 * k\<close> is left.
\<close>

theorem purge_reconciler_drains:
  assumes "\<And>k r. undisturbed (runs k r)" "distinct (map re_id (ix_repos db))" "length (waiting_purges db) \<le> 20 * k"
    and "r \<in> set (ix_repos db)" "re_status r = Disabled"
  shows "\<not> left_behind (purge_rounds k runs db) (re_id r)"
proof -
  have "waiting_purges (purge_rounds k runs db) = []" "ix_repos (purge_rounds k runs db) = ix_repos db"
    using rounds_drain[of runs db k, OF assms(1,2)] assms(3) by auto
  then show ?thesis using assms(4,5) by (auto simp: waiting_purges_def filter_empty_conv)
qed

theorem purge_reconciler_drains_witness:
  "left_behind (two_snapshots Disabled) 7 \<and> \<not> left_behind (purge_rounds 1 (\<lambda>_ _. all_up) (two_snapshots Disabled)) 7"
proof
  show "left_behind (two_snapshots Disabled) 7" by code_simp
  have "\<not> left_behind (purge_rounds 1 (\<lambda>_ _. all_up) (two_snapshots Disabled)) (re_id (sample_repo_row Disabled))"
  proof (rule purge_reconciler_drains)
    show "undisturbed all_up" by (simp add: undisturbed_def all_up_def)
    show "distinct (map re_id (ix_repos (two_snapshots Disabled)))" by code_simp
    show "length (waiting_purges (two_snapshots Disabled)) \<le> 20 * 1" by code_simp
  qed (simp_all add: two_snapshots_def sample_control_def sample_repo_row_def)
  then show "\<not> left_behind (purge_rounds 1 (\<lambda>_ _. all_up) (two_snapshots Disabled)) 7"
    by (simp add: sample_repo_row_def)
qed

text \<open>
  Submissions of a graph do not look at the task's or the repository's state: a page that arrives after the
  purge puts symbols back, and the reconciler, which looks at chunks and bookkeeping rows, never lists them.
\<close>

lemma late_page_escapes_the_purge:
  fixes purged late :: index_db
  defines "purged \<equiv> purge_repository_data all_up 7 (two_snapshots Disabled)"
  defines "late \<equiv> snd (ingest_graph all_up ''u1'' ''new''
    [\<lparr>gn_node_id = ''f'', gn_label = ''f'', gn_source_file = ''a.rs'', gn_start_line = 1, gn_embedding = None\<rparr>] [] purged)"
  shows "\<not> indexed_data purged 7" "indexed_data late 7" "list_disabled_repos_needing_purge n late = []"
proof -
  have "\<not> left_behind late 7" "map re_id (ix_repos late) = [7]"
    unfolding late_def purged_def by code_simp+
  then show "list_disabled_repos_needing_purge n late = []"
    by (auto simp: listed_take filter_empty_conv)
qed (unfold late_def purged_def, code_simp+)

section \<open>Paging\<close>

lemma record_indexed_row:
  "get_row (record_indexed_commit i sha ts) j
    = map_option (\<lambda>t. if tk_id t = i then t\<lparr>tk_indexed_sha := Some sha\<rparr> else t) (get_row ts j)"
  unfolding record_indexed_commit_def get_row_def update_where_def
  by (induction ts) (auto intro: task_row.equality)

lemma note_commit_frame [simp]:
  "ix_chunks (note_commit run i commit db) = ix_chunks db" "ix_graph (note_commit run i commit db) = ix_graph db"
  "ix_snapshots (note_commit run i commit db) = ix_snapshots db" "ix_repos (note_commit run i commit db) = ix_repos db"
  by (simp_all add: note_commit_def with_index_tasks_def)

definition task_in :: "int \<Rightarrow> string \<Rightarrow> index_db \<Rightarrow> bool" where
  "task_in repo i db \<longleftrightarrow> map_option repo_of (get_row (ix_tasks db) i) = Some repo"

lemma note_commit_task [simp]: "task_in repo j (note_commit run i commit db) = task_in repo j db"
  by (cases "get_row (ix_tasks db) j") (simp_all add: task_in_def note_commit_def with_index_tasks_def record_indexed_row)

definition answering :: "fate \<Rightarrow> bool" where
  "answering d \<longleftrightarrow> (\<exists>run. d = Answered run \<and> xr_pool run \<and> xr_neo4j run \<and> xr_up run X_Task \<and> xr_up run X_Graph)"

lemma submit_page:
  assumes "answering d" "task_in repo i db" "fst p \<noteq> [] \<or> snd p \<noteq> []"
  shows "\<exists>db'. submit_graph d i commit p db = (True, db') \<and> task_in repo i db' \<and> ix_chunks db' = ix_chunks db
    \<and> ix_graph db' = upsert_graph repo commit (fst p) (snd p) (ix_graph db)"
proof -
  obtain run where run: "d = Answered run" "xr_pool run" "xr_neo4j run" "xr_up run X_Task" "xr_up run X_Graph"
    using assms(1) by (auto simp: answering_def)
  obtain t where t: "get_row (ix_tasks db) i = Some t" "repo_of t = repo" using assms(2) by (auto simp: task_in_def)
  have some: "\<not> (fst p = [] \<and> snd p = [])" using assms(3) by blast
  let ?n = "note_commit run i commit db"
  have "ingest_graph run i commit (fst p) (snd p) db
      = (No_Content, ?n\<lparr>ix_graph := upsert_graph repo commit (fst p) (snd p) (ix_graph db)\<rparr>)"
    unfolding ingest_graph_def if_not_P[OF some] using run t by (simp add: Let_def)
  then have "submit_graph d i commit p db = (True, ?n\<lparr>ix_graph := upsert_graph repo commit (fst p) (snd p) (ix_graph db)\<rparr>)"
    by (simp add: submit_graph_def request_def run(1))
  moreover have "task_in repo i (?n\<lparr>ix_graph := g\<rparr>)" for g
    using note_commit_task[of repo i run i commit db] assms(2) by (simp add: task_in_def)
  ultimately show ?thesis by simp
qed

lemma submit_all_pages:
  assumes "\<And>k. answering (net k)" "\<And>p. p \<in> set ps \<Longrightarrow> fst p \<noteq> [] \<or> snd p \<noteq> []" "task_in repo i db"
  shows "\<exists>k' db'. submit_pages net k i commit ps db = (True, k', db') \<and> ix_chunks db' = ix_chunks db
    \<and> ix_graph db' = fold (\<lambda>p. upsert_graph repo commit (fst p) (snd p)) ps (ix_graph db)"
  using assms(2,3)
proof (induction ps arbitrary: k db)
  case (Cons p ps)
  obtain db1 where d: "submit_graph (net k) i commit p db = (True, db1)" "task_in repo i db1" "ix_chunks db1 = ix_chunks db"
    "ix_graph db1 = upsert_graph repo commit (fst p) (snd p) (ix_graph db)"
    using submit_page[OF assms(1) Cons.prems(2), of p k commit] Cons.prems(1)[of p] by auto
  then show ?case using Cons.IH[OF _ d(2), of "k + 1"] Cons.prems(1) by simp
qed simp

lemma upsert_nodes: "upsert_graph repo commit ns [] g = g\<lparr>cg_symbols := fold (merge_symbol repo commit) ns (cg_symbols g)\<rparr>"
  by (simp add: upsert_graph_def Let_def)

lemma upsert_edges:
  "upsert_graph repo commit [] es g = g\<lparr>cg_rels := fold (merge_rel repo commit (cg_symbols g)) es (cg_rels g)\<rparr>"
  by (simp add: upsert_graph_def Let_def)

lemma upsert_node_pages: "fold (\<lambda>p. upsert_graph repo commit p []) ps g = upsert_graph repo commit (concat ps) [] g"
  by (induction ps arbitrary: g) (simp_all add: upsert_nodes)

lemma upsert_edge_pages: "fold (upsert_graph repo commit []) ps g = upsert_graph repo commit [] (concat ps) g"
  by (induction ps arbitrary: g) (simp_all add: upsert_edges)

lemma fold_graph_pages:
  "fold (\<lambda>p. upsert_graph repo commit (fst p) (snd p)) (graph_pages n nodes edges) g = upsert_graph repo commit nodes edges g"
proof -
  have "0 < max n 1" by simp
  then have "fold (\<lambda>p. upsert_graph repo commit (fst p) (snd p)) (graph_pages n nodes edges) g
      = upsert_graph repo commit [] edges (upsert_graph repo commit nodes [] g)"
    by (simp add: graph_pages_def Let_def fold_map o_def upsert_node_pages upsert_edge_pages del: max_less_iff_conj)
  also have "\<dots> = upsert_graph repo commit nodes edges g"
    by (simp add: upsert_graph_def Let_def)
  finally show ?thesis .
qed

text \<open>
  C29. However large the pages, a graph submitted in pages is the graph submitted at once: nodes go before
  edges, so no edge is dropped because its end was still to come, and nothing else of the index changes.
\<close>

theorem paged_submit_is_one_upsert:
  assumes "\<And>k. answering (net k)" "task_in repo i db"
  shows "\<exists>k' db'. submit_graph_paged net k i commit nodes edges page_size db = (True, k', db')
    \<and> ix_graph db' = upsert_graph repo commit nodes edges (ix_graph db) \<and> ix_chunks db' = ix_chunks db"
proof -
  have "fst p \<noteq> [] \<or> snd p \<noteq> []" if "p \<in> set (graph_pages page_size nodes edges)" for p
    using that by (auto simp: graph_pages_def Let_def dest: pages_nonempty)
  from submit_all_pages[of net "graph_pages page_size nodes edges", OF assms(1) this assms(2), where k = k and commit = commit]
  show ?thesis by (auto simp: submit_graph_paged_def fold_graph_pages)
qed

definition node_named :: "string \<Rightarrow> graph_node" where
  "node_named n = \<lparr>gn_node_id = n, gn_label = n, gn_source_file = ''a.rs'', gn_start_line = 1, gn_embedding = None\<rparr>"

definition call_edge :: graph_edge where
  "call_edge = \<lparr>ge_source = ''g'', ge_target = ''f'', ge_relation = ''calls''\<rparr>"

theorem paged_submit_is_one_upsert_witness:
  "\<exists>k' db'. submit_graph_paged (\<lambda>_. Answered all_up) 0 ''u1'' ''new'' [node_named ''f'', node_named ''g''] [call_edge] 1
      (two_snapshots Approved) = (True, k', db')
    \<and> ix_graph db' = upsert_graph 7 ''new'' [node_named ''f'', node_named ''g''] [call_edge] (ix_graph (two_snapshots Approved))
    \<and> length (cg_rels (ix_graph db')) = 1"
proof -
  have "answering (Answered all_up)" by (simp add: answering_def all_up_def)
  moreover have "task_in 7 ''u1'' (two_snapshots Approved)" by code_simp
  moreover have "length (cg_rels (upsert_graph 7 ''new'' [node_named ''f'', node_named ''g''] [call_edge] (ix_graph (two_snapshots Approved)))) = 1"
    by code_simp
  ultimately show ?thesis
    using paged_submit_is_one_upsert[of "\<lambda>_. Answered all_up" 7 "''u1''" "two_snapshots Approved" 0 "''new''"
        "[node_named ''f'', node_named ''g'']" "[call_edge]" 1] by (metis (no_types, lifting))
qed

section \<open>A graph that stops partway\<close>

text \<open>What a page leaves alone: every other snapshot, the chunks, the repositories, the task's own request.\<close>

definition request_of :: "index_db \<Rightarrow> string \<Rightarrow> new_task option" where
  "request_of db i = map_option tk_task (get_row (ix_tasks db) i)"

definition page_frame :: "int \<Rightarrow> string \<Rightarrow> string \<Rightarrow> index_db \<Rightarrow> index_db \<Rightarrow> bool" where
  "page_frame repo commit i db d \<longleftrightarrow> request_of d i = request_of db i \<and> ix_repos d = ix_repos db
     \<and> (\<forall>r c. (r, c) \<noteq> (repo, commit) \<longrightarrow> same_snapshot db d r c)"

lemma page_frame_trans: "page_frame repo commit i a b \<Longrightarrow> page_frame repo commit i b d \<Longrightarrow> page_frame repo commit i a d"
  unfolding page_frame_def by (metis same_snapshot_trans)

lemma merge_symbol_others:
  "(r, c) \<noteq> (repo, commit) \<Longrightarrow> filter (\<lambda>s. sy_repo s = r \<and> sy_commit s = c) (merge_symbol repo commit n ss)
    = filter (\<lambda>s. sy_repo s = r \<and> sy_commit s = c) ss"
proof -
  assume other: "(r, c) \<noteq> (repo, commit)"
  have "filter (\<lambda>s. sy_repo s = r \<and> sy_commit s = c) (update_where (is_symbol repo commit (gn_node_id n)) (set_symbol n) ss)
      = filter (\<lambda>s. sy_repo s = r \<and> sy_commit s = c) ss"
    using other by (induction ss) (auto simp: update_where_def is_symbol_def set_symbol_def Let_def)
  then show ?thesis using other by (auto simp: merge_symbol_def set_symbol_def Let_def)
qed

lemma upsert_graph_others:
  assumes "(r, c) \<noteq> (repo, commit)"
  shows "symbols_of r c (upsert_graph repo commit ns es g) = symbols_of r c g"
    "rels_of r c (upsert_graph repo commit ns es g) = rels_of r c g"
proof -
  have "filter (\<lambda>s. sy_repo s = r \<and> sy_commit s = c) (fold (merge_symbol repo commit) ns ss)
      = filter (\<lambda>s. sy_repo s = r \<and> sy_commit s = c) ss" for ss
    by (induction ns arbitrary: ss) (simp_all add: merge_symbol_others[OF assms])
  then show "symbols_of r c (upsert_graph repo commit ns es g) = symbols_of r c g"
    by (simp add: symbols_of_def upsert_graph_def Let_def)
  have "filter (\<lambda>x. rl_repo x = r \<and> rl_commit x = c) (fold (merge_rel repo commit ss) es rs)
      = filter (\<lambda>x. rl_repo x = r \<and> rl_commit x = c) rs" for ss rs
    using assms by (induction es arbitrary: rs) (auto simp: merge_rel_def Let_def)
  then show "rels_of r c (upsert_graph repo commit ns es g) = rels_of r c g"
    by (simp add: rels_of_def upsert_graph_def Let_def)
qed

lemma note_commit_request [simp]: "request_of (note_commit run j commit db) i = request_of db i"
  by (cases "get_row (ix_tasks db) i") (simp_all add: request_of_def note_commit_def with_index_tasks_def record_indexed_row)

lemma note_commit_page_frame [simp]: "page_frame repo commit i db (note_commit run j c db)"
  by (simp add: page_frame_def same_snapshot_def)

lemma ingest_graph_cases:
  "snd (ingest_graph run i commit ns es db) = db \<or> snd (ingest_graph run i commit ns es db) = note_commit run i commit db
   \<or> (\<exists>t. get_row (ix_tasks db) i = Some t \<and> snd (ingest_graph run i commit ns es db)
        = (note_commit run i commit db)\<lparr>ix_graph := upsert_graph (repo_of t) commit ns es (ix_graph db)\<rparr>)"
  by (cases "get_row (ix_tasks db) i") (simp_all add: ingest_graph_def Let_def)

lemma ingest_page_frame:
  assumes "map_option nt_repository_id (request_of db i) = Some repo"
  shows "page_frame repo commit i db (snd (ingest_graph run i commit ns es db))"
proof -
  have "page_frame repo commit i db ((note_commit run i commit db)\<lparr>ix_graph := upsert_graph repo commit ns es (ix_graph db)\<rparr>)"
    using note_commit_request[of run i commit db i] by (simp add: page_frame_def same_snapshot_def upsert_graph_others request_of_def)
  moreover have "page_frame repo commit i db db" by (simp add: page_frame_def)
  moreover have "repo_of t = repo" if "get_row (ix_tasks db) i = Some t" for t
    using assms that by (simp add: request_of_def)
  ultimately show ?thesis using ingest_graph_cases[of run i commit ns es db] by (metis note_commit_page_frame)
qed

lemma submit_pages_frame:
  assumes "map_option nt_repository_id (request_of db i) = Some repo"
  shows "page_frame repo commit i db (snd (snd (submit_pages net k i commit ps db)))"
  using assms
proof (induction ps arbitrary: k db)
  case Nil
  then show ?case by (simp add: page_frame_def)
next
  case (Cons p ps)
  obtain ok db1 where d: "submit_graph (net k) i commit p db = (ok, db1)" by (metis surj_pair)
  have one: "page_frame repo commit i db db1"
  proof (cases "net k")
    case Unreachable
    then show ?thesis using d by (simp add: submit_graph_def request_def page_frame_def)
  next
    case (Answered run)
    then show ?thesis using d ingest_page_frame[OF Cons.prems] by (auto simp: submit_graph_def request_def)
  next
    case (Answer_Lost run)
    then show ?thesis using d ingest_page_frame[OF Cons.prems] by (auto simp: submit_graph_def request_def)
  qed
  then have "map_option nt_repository_id (request_of db1 i) = Some repo" using Cons.prems by (simp add: page_frame_def)
  then show ?case using one d Cons.IH page_frame_trans[OF one] by (cases ok) simp_all
qed

lemma discard_graph_clears:
  assumes "request_of db i = Some nt" "nt_repository_id nt = repo" "nt_head_sha nt = Some commit"
    and "repo_row (ix_repos db) repo = Some r" "undisturbed run" "xr_pool run" "xr_neo4j run"
  shows "snd (discard_graph run i db) = db\<lparr>ix_graph := snd (delete_commit_graph None repo commit (ix_graph db))\<rparr>"
proof -
  obtain t where t: "get_row (ix_tasks db) i = Some t" "tk_task t = nt" using assms(1) by (auto simp: request_of_def)
  obtain n g where g: "delete_commit_graph None repo commit (ix_graph db) = (Inr n, g)"
    by (simp add: delete_commit_graph_def delete_symbols_in_batches_def Let_def)
  show ?thesis using assms t g by (simp add: discard_graph_def undisturbed_def)
qed

lemma delete_commit_clears: "symbols_of repo commit (snd (delete_commit_graph None repo commit g)) = []"
  by (auto simp: symbols_of_def delete_commit_graph_def delete_symbols_in_batches_def Let_def detach_delete_def filter_empty_conv)

text \<open>
  C30. A review's graph that fails partway is taken back: wherever the pages stop, and whether or not the last
  one's answer was lost, a discard that gets through leaves no symbol of the commit and every other
  snapshot as it was.
\<close>

theorem failed_graph_leaves_nothing:
  assumes "request_of db i = Some nt" "nt_head_sha nt = Some commit" "repo_row (ix_repos db) (nt_repository_id nt) = Some r"
    and failed: "index_graph net k i commit page_size out db = (None, Suc m, db')"
    and discarded: "net m = Answered run" "undisturbed run" "xr_pool run" "xr_neo4j run"
  shows "symbols_of (nt_repository_id nt) commit (ix_graph db') = []
    \<and> (\<forall>repo c. (repo, c) \<noteq> (nt_repository_id nt, commit) \<longrightarrow> same_snapshot db db' repo c)"
proof -
  let ?repo = "nt_repository_id nt"
  let ?ps = "graph_pages page_size (map node_payload (io_nodes out)) (io_edges out)"
  obtain ok k' db1 where pages: "submit_pages net k i commit ?ps db = (ok, k', db1)" by (metis surj_pair)
  have m: "k' = m" "db' = snd (request (\<lambda>run. discard_graph run i) (net m) db1)"
    using failed pages by (auto simp: index_graph_def submit_graph_paged_def split: if_splits bool.splits)
  have frame: "page_frame ?repo commit i db db1"
    using submit_pages_frame[of db i ?repo commit net k ?ps] assms(1) pages by simp
  then have "request_of db1 i = Some nt" "repo_row (ix_repos db1) ?repo = Some r"
    using assms(1,3) by (simp_all add: page_frame_def)
  from discard_graph_clears[OF this(1) refl assms(2) this(2) discarded(2-)]
  have db': "db' = db1\<lparr>ix_graph := snd (delete_commit_graph None ?repo commit (ix_graph db1))\<rparr>"
    by (simp add: m request_def discarded(1))
  have "same_snapshot db1 db' repo c" if "(repo, c) \<noteq> (?repo, commit)" for repo c
  proof -
    have sel: "\<not> (sy_repo s = repo \<and> sy_commit s = c)" if "sy_repo s = ?repo \<and> sy_commit s = commit" for s
      using that \<open>(repo, c) \<noteq> (?repo, commit)\<close> by auto
    show ?thesis
      by (simp add: db' same_snapshot_def delete_commit_graph_def delete_symbols_keeps(1)[OF sel] delete_symbols_keeps(2)[OF sel])
  qed
  then have "same_snapshot db db' repo c" if "(repo, c) \<noteq> (?repo, commit)" for repo c
    using frame that unfolding page_frame_def by (metis same_snapshot_trans)
  moreover have "symbols_of ?repo commit (ix_graph db') = []" by (simp add: db' delete_commit_clears)
  ultimately show ?thesis by blast
qed

definition small_output :: index_output where
  "small_output = \<lparr>io_chunks = [\<lparr>ck_file_path = ''a.rs'', ck_language = ''rust'', ck_chunk_type = ''function'',
       ck_symbol_name = None, ck_start_line = 1, ck_end_line = 2, ck_content = ''c'', ck_embedding = []\<rparr>],
     io_nodes = [node_named ''f'', node_named ''g''], io_edges = [call_edge]\<rparr>"

text \<open>The first page lands, the second is lost on the way, everything after arrives.\<close>

definition lossy :: network where
  "lossy k = (if k = 1 then Unreachable else Answered all_up)"

theorem failed_graph_leaves_nothing_witness:
  "symbols_of 7 ''h1'' (ix_graph (snd (snd (index_graph lossy 0 ''u1'' ''h1'' 1 small_output (two_snapshots Approved))))) = []"
proof -
  let ?run = "index_graph lossy 0 ''u1'' ''h1'' 1 small_output (two_snapshots Approved)"
  have "fst ?run = None" "fst (snd ?run) = Suc 2" by code_simp+
  then have r: "?run = (None, Suc 2, snd (snd ?run))" by (metis prod.collapse)
  have t: "request_of (two_snapshots Approved) ''u1'' = Some (review_of (Some ''h1''))"
    "repo_row (ix_repos (two_snapshots Approved)) (nt_repository_id (review_of (Some ''h1''))) = Some (sample_repo_row Approved)"
    by code_simp+
  have "symbols_of (nt_repository_id (review_of (Some ''h1''))) ''h1'' (ix_graph (snd (snd ?run))) = []"
    using failed_graph_leaves_nothing[OF t(1) _ t(2) r, of all_up]
    by (simp add: review_of_def lossy_def undisturbed_def all_up_def)
  then show ?thesis by (simp add: review_of_def)
qed

text \<open>
  An index task has no head: the discard then names the default branch, while the pages were stored under the
  checkout's commit, so the partial graph stays, beside the complete chunks, and is served as the snapshot's.
\<close>

definition index_task_db :: index_db where
  "index_task_db = \<lparr>ix_control = sample_control Approved
       [fresh_row 0 ''u1'' ((review_of None)\<lparr>nt_command := ''index'', nt_target_type := ''repository''\<rparr>) 0 0 Running] [],
     ix_chunks = [], ix_next_chunk = 1, ix_repo_index = [7], ix_graph = \<lparr>cg_symbols = [], cg_rels = []\<rparr>\<rparr>"

lemma index_task_keeps_partial_graph:
  fixes after :: "(nat \<times> (nat \<times> nat) option) option \<times> index_db"
  defines "after \<equiv> perform_indexing (\<lambda>ts. Some (map (\<lambda>_. [''0'']) ts)) lossy True False ''u1'' (Some ''c1'') 1 32 small_output index_task_db"
  shows "fst after = Some (1, None)"
    "map sy_node_id (symbols_of 7 ''c1'' (ix_graph (snd after))) = [''f'']"
    "task_scope (\<lambda>_. True) (snd after) ''u1'' = Inr (Some (7, ''c1''))"
  unfolding after_def by code_simp+

section \<open>An index in progress\<close>

text \<open>Storing chunks under one commit leaves the rows of every other as they are.\<close>

definition chunk_frame :: "int \<Rightarrow> string \<Rightarrow> chunk_row list \<Rightarrow> chunk_row list \<Rightarrow> bool" where
  "chunk_frame repo commit cs cs' \<longleftrightarrow>
     filter (\<lambda>c. \<not> in_snapshot repo commit c) cs' = filter (\<lambda>c. \<not> in_snapshot repo commit c) cs"

lemma chunk_frame_filter:
  assumes "chunk_frame repo commit cs cs'" "\<And>c. P c \<Longrightarrow> \<not> in_snapshot repo commit c"
  shows "filter P cs' = filter P cs"
proof -
  have "filter P xs = filter P (filter (\<lambda>c. \<not> in_snapshot repo commit c) xs)" for xs
    using assms(2) by (auto simp: filter_filter intro: filter_cong)
  then show ?thesis using assms(1) unfolding chunk_frame_def by metis
qed

lemma upsert_chunk_frame:
  "chunk_frame repo commit (ix_chunks db) (ix_chunks (upsert_chunk now repo commit k db))
   \<and> ix_control (upsert_chunk now repo commit k db) = ix_control db"
proof -
  have "filter (\<lambda>c. \<not> in_snapshot repo commit c) (update_where (same_place repo commit k) (\<lambda>c. c\<lparr>cr_chunk := k\<rparr>) cs)
      = filter (\<lambda>c. \<not> in_snapshot repo commit c) cs" for cs
    by (induction cs) (auto simp: update_where_def same_place_def in_snapshot_def)
  then show ?thesis by (simp add: upsert_chunk_def chunk_frame_def in_snapshot_def)
qed

lemma upsert_chunks_frame:
  "chunk_frame repo commit (ix_chunks db) (ix_chunks (fold (upsert_chunk now repo commit) ks db))
   \<and> ix_control (fold (upsert_chunk now repo commit) ks db) = ix_control db"
proof (induction ks arbitrary: db)
  case Nil
  show ?case by (simp add: chunk_frame_def)
next
  case (Cons k ks)
  then show ?case using Cons[of "upsert_chunk now repo commit k db"] upsert_chunk_frame[of repo commit db now k]
    by (simp add: chunk_frame_def)
qed

lemma context_after_note:
  "get_task_context (ix_control (note_commit run i commit db)) j = get_task_context (ix_control db) j"
  by (cases "get_row (ix_tasks db) j")
    (simp_all add: get_task_context_def note_commit_def with_index_tasks_def record_indexed_row Let_def)

lemma ingest_chunks_cases:
  assumes "map_option repo_of (get_row (ix_tasks db) i) = Some repo"
  shows "snd (ingest_chunks run i commit ks db) = db \<or> snd (ingest_chunks run i commit ks db) = note_commit run i commit db
    \<or> snd (ingest_chunks run i commit ks db)
      = fold (upsert_chunk (xr_now run) repo commit) ks (note_commit run i commit db)"
  using assms by (auto simp: ingest_chunks_def upsert_code_chunks_def)

lemma ingest_chunks_frame:
  assumes "map_option repo_of (get_row (ix_tasks db) i) = Some repo"
  shows "chunk_frame repo commit (ix_chunks db) (ix_chunks (snd (ingest_chunks run i commit ks db)))"
    "get_task_context (ix_control (snd (ingest_chunks run i commit ks db))) j = get_task_context (ix_control db) j"
    "ix_snapshots (snd (ingest_chunks run i commit ks db)) = ix_snapshots db"
proof -
  note up = upsert_chunks_frame[of repo commit "note_commit run i commit db" "xr_now run" ks]
  show "chunk_frame repo commit (ix_chunks db) (ix_chunks (snd (ingest_chunks run i commit ks db)))"
    "get_task_context (ix_control (snd (ingest_chunks run i commit ks db))) j = get_task_context (ix_control db) j"
    "ix_snapshots (snd (ingest_chunks run i commit ks db)) = ix_snapshots db"
    using ingest_chunks_cases[OF assms, of run commit ks] up
    by (elim disjE; simp add: chunk_frame_def context_after_note)+
qed

text \<open>
  A snapshot that has not completed is not read: with a completed snapshot to read, or in another repository,
  the newest snapshot stays what it was.
\<close>

lemma latest_while_indexing:
  assumes frame: "chunk_frame repo commit cs cs'" and unfinished: "\<And>at. ((repo, commit), at) \<notin> set snaps"
    and "r = repo \<Longrightarrow> readable_snapshots snaps cs r \<noteq> []"
  shows "latest_indexed_commit snaps cs' r = latest_indexed_commit snaps cs r"
proof -
  have "list_ex (in_snapshot r' c) cs' = list_ex (in_snapshot r' c) cs" if "((r', c), at) \<in> set snaps" for r' c at
  proof -
    have "(r', c) \<noteq> (repo, commit)" using that unfinished by auto
    then have "filter (in_snapshot r' c) cs' = filter (in_snapshot r' c) cs"
      by (intro chunk_frame_filter[OF frame]) (auto simp: in_snapshot_def)
    then show ?thesis by (metis filter_empty_conv list_ex_iff)
  qed
  then have readable: "readable_snapshots snaps cs' r = readable_snapshots snaps cs r"
    unfolding readable_snapshots_def by (intro filter_cong refl) auto
  show ?thesis
  proof (cases "r = repo")
    case True
    then have "sort_key snd (readable_snapshots snaps cs r) \<noteq> []"
      using assms(3) by (metis set_empty set_sort)
    then obtain s rest where "rev (sort_key snd (readable_snapshots snaps cs r)) = s # rest"
      by (metis list.exhaust rev_is_Nil_conv)
    then show ?thesis by (simp add: latest_indexed_commit_def readable split: prod.split)
  next
    case False
    then have "filter (\<lambda>c. cr_repo c = r) cs' = filter (\<lambda>c. cr_repo c = r) cs"
      by (intro chunk_frame_filter[OF frame]) (auto simp: in_snapshot_def)
    then show ?thesis by (simp only: latest_indexed_commit_def readable)
  qed
qed

lemma context_repository:
  "get_task_context (ix_control db) j = Some c \<Longrightarrow> \<exists>t. get_row (ix_tasks db) j = Some t \<and> repo_of t = cx_repository_id c"
  by (auto simp: get_task_context_def Let_def split: option.splits)

text \<open>
  C13. An index in progress is not served: while the chunks of a commit that has not completed come in, every
  task's search answers what it answered before, in every other repository, and in the repository being indexed
  once it has a completed snapshot to read. (Before that, its newest chunks are what there is to read.)
\<close>

theorem running_index_is_not_served:
  assumes "map_option repo_of (get_row (ix_tasks db) i) = Some repo"
    and "\<And>at. ((repo, commit), at) \<notin> set (ix_snapshots db)"
    and own: "map_option repo_of (get_row (ix_tasks db) j) = Some repo
           \<Longrightarrow> readable_snapshots (ix_snapshots db) (ix_chunks db) repo \<noteq> []"
  shows "search dist run j q limit (snd (ingest_chunks run' i commit ks db)) = search dist run j q limit db"
proof -
  let ?db = "snd (ingest_chunks run' i commit ks db)"
  note frame = ingest_chunks_frame[OF assms(1), where run = run' and commit = commit and ks = ks]
  have readable: "r = repo \<Longrightarrow> readable_snapshots (ix_snapshots db) (ix_chunks db) r \<noteq> []"
    if "get_task_context (ix_control db) j = Some c" "cx_repository_id c = r" for c r
    using context_repository[OF that(1)] that(2) own by auto
  have latest: "latest_indexed_commit (ix_snapshots ?db) (ix_chunks ?db) r = latest_indexed_commit (ix_snapshots db) (ix_chunks db) r"
    if "get_task_context (ix_control db) j = Some c" "cx_repository_id c = r" for c r
    unfolding frame(3) by (rule latest_while_indexing[OF frame(1) assms(2) readable[OF that]])
  have scope: "task_scope (xr_up run) ?db j = task_scope (xr_up run) db j"
    using latest by (simp add: task_scope_def frame(2) split: option.split)
  have rows: "filter (in_snapshot r c) (ix_chunks ?db) = filter (in_snapshot r c) (ix_chunks db)"
    if found: "task_scope (xr_up run) db j = Inr (Some (r, c))" for r c
  proof (rule chunk_frame_filter[OF frame(1)])
    obtain x where x: "get_task_context (ix_control db) j = Some x" "cx_repository_id x = r"
      "\<forall>l. latest_indexed_commit (ix_snapshots db) (ix_chunks db) r = Some l \<longrightarrow> c = l"
      using found by (auto simp: task_scope_def split: if_splits option.splits)
    have "(r, c) \<noteq> (repo, commit)"
      using latest_is_completed[OF readable[OF x(1,2)]] x(3) assms(2) by blast
    then show "\<not> in_snapshot repo commit y" if "in_snapshot r c y" for y using that by (auto simp: in_snapshot_def)
  qed
  have "search_code_chunks dist r c q n (ix_chunks ?db) = search_code_chunks dist r c q n (ix_chunks db)"
    if "task_scope (xr_up run) db j = Inr (Some (r, c))" for r c n
    by (rule search_chunks_cong[OF rows[OF that]])
  then show ?thesis by (simp add: search_def scope split: sum.split option.split)
qed

theorem running_index_is_not_served_witness:
  "search unequal all_up ''u1'' [''1''] (Some 1)
      (snd (ingest_chunks all_up ''u1'' ''h1'' [cr_chunk (chunk_at 9 ''h1'' ''1'' 9)] (two_snapshots Approved)))
    = Ok_Json [(cr_chunk (chunk_at 3 ''new'' ''1'' 2), 1)]
   \<and> length (ix_chunks (snd (ingest_chunks all_up ''u1'' ''h1'' [cr_chunk (chunk_at 9 ''h1'' ''1'' 9)] (two_snapshots Approved)))) = 4"
proof
  have "map_option repo_of (get_row (ix_tasks (two_snapshots Approved)) ''u1'') = Some 7"
    "readable_snapshots (ix_snapshots (two_snapshots Approved)) (ix_chunks (two_snapshots Approved)) 7 \<noteq> []"
    by code_simp+
  moreover have "((7, ''h1''), at) \<notin> set (ix_snapshots (two_snapshots Approved))" for at
    by (simp add: two_snapshots_def sample_control_def)
  ultimately show "search unequal all_up ''u1'' [''1''] (Some 1)
      (snd (ingest_chunks all_up ''u1'' ''h1'' [cr_chunk (chunk_at 9 ''h1'' ''1'' 9)] (two_snapshots Approved)))
    = Ok_Json [(cr_chunk (chunk_at 3 ''new'' ''1'' 2), 1)]"
    using running_index_is_not_served[of "two_snapshots Approved" "''u1''" 7 "''h1''" "''u1''" unequal all_up "[''1'']" "Some 1" all_up]
      sample_search by simp
qed code_simp

end
