(* ===== verification/Spec2Isabelle.thy ===== *)
theory Spec2Isabelle
  imports Loop_Properties Replay Replay_Journal Review_Gates Finalize_Properties Webhook_Properties A2a_Properties Index_Properties
begin

text \<open>
  A model of the code-review service \<open>lightbridge-code-intelligence\<close> (the Rust services under
  \<open>src/services\<close>), with the theorems that make its two halves correct: the agent that reviews a change,
  and the control plane that queues the work, keeps the agent's findings and posts them.

  \<^bold>\<open>How the program works.\<close> A webhook or a command creates a task. The dispatcher claims due tasks and
  launches a Job for each; the reaper reconciles tasks whose lease ran out with what became of their
  Jobs. In the Job the agent runs a loop: policies prepare a turn, a model is asked, its tool calls are
  run, gates accept or reject its finish. Every effect of the loop goes through a step runtime, which
  can journal the results in the control plane so that a resumed run replays them. What the agent finds
  is buffered in the control plane; finalizing shapes the buffer into one review and queues it in the
  outbox, from which the reconciler delivers it to the code platform.

  \<^bold>\<open>Conventions.\<close> Strings are byte strings. Machine integers are \<open>int\<close> or \<open>nat\<close>, with their bounds written
  out where the code depends on them. Errors are the left of a sum. Effects are explicit: a function
  takes the state (a record of tables, or an abstract world of type \<open>'w\<close> that only the record of an
  interface's calls acts on) and returns it updated. A statement of the database is one atomic function
  on its table; which of a handler's statements the database answers is an argument \<open>up\<close>, and the time an
  argument \<open>now\<close>. Code outside the repository (JSON text, SHA-256, Unicode case mapping, Postgres' \<open>jsonb\<close>,
  the code platforms, the cluster, the model) is a parameter.

  \<^bold>\<open>The agent.\<close>
  \<^item> \<open>Agent_Types\<close>, \<open>Codec\<close>: the shared vocabulary (\<open>agent-types\<close>) and its journal encoding, with round
    trips.
  \<^item> \<open>Agent_Tools\<close>: the tool registry, the algebra of tool filters and guarded dispatch (\<open>agent-tools\<close>).
  \<^item> \<open>Chat\<close>, \<open>Budget\<close>, \<open>Loop_Policies\<close>: messages and turns, token estimate, history trimming, wind-down
    and the loop's own policies (\<open>agent-loop\<close>).
  \<^item> \<open>Step_Runtime\<close>: the locale \<open>durable_store\<close>, the pass-through and the checkpointing runtime
    (\<open>agent-step\<close>).
  \<^item> \<open>Loop_Driver\<close>, \<open>Loop_Properties\<close>, \<open>Replay\<close>: the loop (\<open>agent-loop/src/loop_driver.rs\<close>); verdict and
    transcript agree, tool results answer calls, guarded turns run only offered tools, reads that do not
    influence one another may run in any order, a resumed run continues as the interrupted one would have.
    The calls of a batch act one after the other, each as one step, in an order a scheduler chooses.
  \<^item> \<open>Path_Signal\<close>, \<open>Review_Tools\<close>, \<open>Coverage\<close>, \<open>Refute\<close>, \<open>Sast_Anchor\<close>, \<open>Review_Nudges\<close>, \<open>Finish_Budget\<close>,
    \<open>Digest\<close>, \<open>Review_Flow\<close>, \<open>Review_Gates\<close>: the review agent's gates and policies, the scanner digest,
    the review run and the gates around an external agent (\<open>review-agent\<close>, \<open>agent-sast\<close>); the gates reject
    boundedly, so a review whose model insists does finish.

  \<^bold>\<open>The control plane\<close> (\<open>services/control-plane/src\<close>).
  \<^item> \<open>Rust_Text\<close>, \<open>Diff_Lines\<close>, \<open>Review_Render\<close>, \<open>Review_Scope\<close>: the string functions used, the parsing
    of patches, the posted texts, deduplication and placement of findings (\<open>review.rs\<close>).
  \<^item> \<open>Task_Queue\<close>: the task table and its statements (\<open>db/tasks.rs\<close>) as a transition system with its
    invariant.
  \<^item> \<open>Keyed_Insert\<close>: the locale of idempotent keyed inserts; \<open>Outbox\<close>, \<open>Outbox_Properties\<close>: the outbox, its
    producers and payloads (\<open>db/outbox.rs\<close>, \<open>outbox.rs\<close>).
  \<^item> \<open>Pending_Review\<close>: the buffered review and the abstract buffer it refines (\<open>db/pending_actions.rs\<close>).
  \<^item> \<open>Durable_Steps\<close>: the step journal behind the HTTP interface, an instance of \<open>durable_store\<close>
    (\<open>db/durable_step.rs\<close>, \<open>queue/replay.rs\<close>). \<open>Replay_Journal\<close>: the resume of a crashed run over that table,
    while other statements reach it (\<open>traffic\<close>) and each of its own runs at its own time.
  \<^item> \<open>Control_Db\<close>: all tables as one record, with the statements that join them (\<open>db/reviews.rs\<close>,
    \<open>db/feedback.rs\<close>).
  \<^item> \<open>Reconciler\<close>, \<open>Reconciler_Properties\<close>: delivery of the outbox (\<open>queue/reconciler.rs\<close>).
  \<^item> \<open>Queue_Workers\<close>, \<open>Worker_Properties\<close>: dispatcher and reaper (\<open>queue/dispatcher.rs\<close>,
    \<open>queue/reaper.rs\<close>).
  \<^item> \<open>Settings\<close>: what a repository may configure, its storage and the precedence of the layers
    (\<open>settings.rs\<close>, \<open>preset.rs\<close>, \<open>model.rs\<close>, \<open>db/repo_settings.rs\<close>, \<open>db/model_overrides.rs\<close>).
  \<^item> \<open>Repositories\<close>: repositories, their approval, index tasks and the recorded deliveries
    (\<open>db/repositories.rs\<close>, \<open>db/webhook_deliveries.rs\<close>).
  \<^item> \<open>Webhook\<close>, \<open>Webhook_Properties\<close>: the receivers and handlers of the three platforms
    (\<open>http/webhook.rs\<close>); the locale \<open>hook_invariant\<close> carries a condition every statement keeps through every
    handler: the approval gate holds over any sequence of deliveries, a redelivery changes nothing, a
    mention always lands a task.
  \<^item> \<open>Finalize\<close>, \<open>Finalize_Properties\<close>: finalizing a run, status reports and the buffering handlers
    (\<open>http/internal.rs\<close>).

  \<^bold>\<open>The agent-to-agent interface\<close> (\<open>services/control-plane/src/a2a\<close>).
  \<^item> \<open>A2a_Log\<close>: its tables, the append-only log of a task and its producers (\<open>a2a/events.rs\<close>, the
    transaction of \<open>set_task_status\<close>); the locale \<open>numbered_log\<close> states what a reader with a cursor relies on
    and is interpreted on the log. \<open>A2a_Store\<close>: the versioned rows (\<open>a2a/store.rs\<close>).
  \<^item> \<open>A2a_Handler\<close>: requests, their gates, reading and cancelling (\<open>a2a/handler.rs\<close>,
    \<open>a2a/handler/lifecycle.rs\<close>, \<open>a2a/mapping.rs\<close>); \<open>A2a_Properties\<close>: a run is launched only through every gate,
    logs only grow and freeze at their final entry, a cancel stops the run, whatever other requests do between
    its reading and its writing, and closes the log if the log's statements are answered.
  \<^item> \<open>A2a_Stream\<close>: streaming (\<open>a2a/handler/streaming.rs\<close>); a stream shows a prefix of the log, in order, and
    delivers its end. What other replicas do meanwhile is in the databases its queries see.
  \<^item> \<open>Ssrf\<close>: the addresses a webhook may have (\<open>a2a/ssrf.rs\<close>), over 32- and 128-bit words.
  \<^item> \<open>Push_Configs\<close>, \<open>Push_Notifier\<close>, \<open>Push_Properties\<close>: webhooks on tasks, their tokens, and the worker that
    delivers the log to them (\<open>db/push_notifications.rs\<close>, \<open>a2a/push_crypto.rs\<close>, \<open>queue/notifier.rs\<close>).

  \<^bold>\<open>The code index.\<close>
  \<^item> \<open>Code_Index\<close>: the chunk table with the snapshots retrieval may read (\<open>db/code_chunks.rs\<close>) and the symbol
    graph (\<open>integrations/neo4j.rs\<close>). \<open>Index_Requests\<close>: the runner's requests (\<open>http/internal.rs\<close>), the sweep
    of old snapshots (\<open>queue/index_sweeper.rs\<close>) and the purge (\<open>queue/lifecycle.rs\<close>).
  \<^item> \<open>Indexer\<close>: the runner's side of an index run over a network that loses requests or answers
    (\<open>agent-runner/src/indexer\<close>, \<open>agent-clients/src/control_plane/indexing.rs\<close>).
  \<^item> \<open>Index_Properties\<close>: a search answers from one completed snapshot of its own repository, neither an index
    in progress nor a sweep changes an answer, pages add up to the whole graph, a partial one is taken back, and
    an interrupted purge is found again and finished.

  \<^bold>\<open>Fuel and termination.\<close> The loop of the agent is bounded by its turn limit. Three loops of the control
  plane run while work is due and are fuelled: the retry of an explicit command ends by a measure, the
  drain of the outbox ends when its marks succeed (\<open>drain_ends\<close>: fuel above the number of pending rows
  is enough), the claim loop ends while the clock stays within the launch backoff (\<open>claim_loop_ends\<close>). A
  delivery round ends by the count of events it may still send; a stream's tail and the notifier's drain
  take the list of their rounds, and are open, or not finished, when the list runs out.

  \<^bold>\<open>Not modelled.\<close> Transport, authentication and serialisation of requests beyond the payloads above; the
  admin handlers and the console's read models; the resolution of the dedup scope inside finalizing
  (the resolved scope is an argument there); repositories changed by an administrator while a delivery
  is being handled; the clients of the platforms; the walk of a checkout, the embeddings client and the
  ranking inside the vector and full-text stores; the cluster's Job
  manifests; the subprocesses of the scanners and of the external agent; prompt texts; timers and
  notification listeners; the MCP server; the agent card; metrics and logs. Two statements running at once are modelled as one after
  the other, in any order.
\<close>

end
